(* ===== verification/Prelude.thy ===== *)
theory Prelude
  imports Complex_Main "HOL-Library.AList"
begin

text \<open>
  Shared vocabulary of the development: how JavaScript values, collections and control flow
  are represented, and the lemmas about them that the component theories use.

  \<^item> A JavaScript \<^verbatim>\<open>Map\<close> iterates in insertion order and overwrites in place, which is what
    \<open>AList.update\<close> and \<open>AList.delete\<close> do on an association list; a \<^verbatim>\<open>Set\<close> is a list without
    duplicates, extended at its end by \<open>js_add\<close>.
  \<^item> A function that may throw returns a sum: \<open>Inl\<close> the error, \<open>Inr\<close> the value. A method
    that may throw and changes its object returns the result and the new object.
  \<^item> Strings are lists of code units. The model draws them from \<open>char\<close>, so it covers the code
    units below 256; \<open>js_trim\<close> removes exactly the white space of that range.
  \<^item> A message text shown to people is named by a constructor of an error type of the
    component, with the values the text interpolates as arguments.
\<close>

named_theorems js_simps \<open>equations of the JavaScript collections\<close>

subsection \<open>Results of code that may throw\<close>

type_synonym ('e, 'a) result = "'e + 'a"

abbreviation throws :: "'e \<Rightarrow> ('e, 'a) result" where
  "throws e \<equiv> Inl e"

abbreviation returns :: "'a \<Rightarrow> ('e, 'a) result" where
  "returns x \<equiv> Inr x"

fun and_then :: "('e, 'a) result \<Rightarrow> ('a \<Rightarrow> ('e, 'b) result) \<Rightarrow> ('e, 'b) result" where
  "and_then (Inl e) f = Inl e"
| "and_then (Inr x) f = f x"

lemma and_then_Inr_iff: "and_then r f = Inr y \<longleftrightarrow> (\<exists>x. r = Inr x \<and> f x = Inr y)"
  by (cases r) auto

lemma and_then_Inl_iff:
  "and_then r f = Inl e \<longleftrightarrow> r = Inl e \<or> (\<exists>x. r = Inr x \<and> f x = Inl e)"
  by (cases r) auto

lemma and_then_cong [fundef_cong]:
  "\<lbrakk>r = r'; \<And>x. r' = Inr x \<Longrightarrow> f x = g x\<rbrakk> \<Longrightarrow> and_then r f = and_then r' g"
  by (cases r') auto

fun ensure :: "bool \<Rightarrow> 'e \<Rightarrow> ('e, unit) result" where
  "ensure True e = Inr ()"
| "ensure False e = Inl e"

lemma ensure_Inr_iff [simp]: "ensure b e = Inr u \<longleftrightarrow> b"
  by (cases b) auto

lemma ensure_Inl_iff [simp]: "ensure b e = Inl e' \<longleftrightarrow> \<not> b \<and> e' = e"
  by (cases b) auto

text \<open>A loop \<^verbatim>\<open>for (const x of xs) ys.push(f(x))\<close> whose body may throw.\<close>

fun map_result :: "('a \<Rightarrow> ('e, 'b) result) \<Rightarrow> 'a list \<Rightarrow> ('e, 'b list) result" where
  "map_result f [] = Inr []"
| "map_result f (x # xs) =
     (case f x of
        Inl e \<Rightarrow> Inl e
      | Inr y \<Rightarrow> (case map_result f xs of Inl e \<Rightarrow> Inl e | Inr ys \<Rightarrow> Inr (y # ys)))"

lemma map_result_Inr_iff:
  "map_result f xs = Inr ys \<longleftrightarrow> list_all2 (\<lambda>x y. f x = Inr y) xs ys"
proof (induction xs arbitrary: ys)
  case Nil
  then show ?case by auto
next
  case (Cons x xs)
  then show ?case
    by (cases ys) (auto simp: Cons.IH [symmetric] split: sum.splits)
qed

lemma map_result_length: "map_result f xs = Inr ys \<Longrightarrow> length ys = length xs"
  by (simp add: map_result_Inr_iff list_all2_lengthD)

subsection \<open>Maps\<close>

type_synonym ('k, 'v) js_map = "('k \<times> 'v) list"

abbreviation js_get :: "('k, 'v) js_map \<Rightarrow> 'k \<Rightarrow> 'v option" where
  "js_get m k \<equiv> map_of m k"

definition js_has :: "('k, 'v) js_map \<Rightarrow> 'k \<Rightarrow> bool" where
  "js_has m k = (map_of m k \<noteq> None)"

abbreviation js_set :: "('k, 'v) js_map \<Rightarrow> 'k \<Rightarrow> 'v \<Rightarrow> ('k, 'v) js_map" where
  "js_set m k v \<equiv> AList.update k v m"

abbreviation js_delete :: "('k, 'v) js_map \<Rightarrow> 'k \<Rightarrow> ('k, 'v) js_map" where
  "js_delete m k \<equiv> AList.delete k m"

abbreviation js_keys :: "('k, 'v) js_map \<Rightarrow> 'k list" where
  "js_keys m \<equiv> map fst m"

abbreviation js_values :: "('k, 'v) js_map \<Rightarrow> 'v list" where
  "js_values m \<equiv> map snd m"

text \<open>\<^verbatim>\<open>new Map(entries)\<close>\<close>

definition js_map_of :: "('k \<times> 'v) list \<Rightarrow> ('k, 'v) js_map" where
  "js_map_of es = foldl (\<lambda>m e. AList.update (fst e) (snd e) m) [] es"

lemma js_has_iff [js_simps]: "js_has m k \<longleftrightarrow> k \<in> set (js_keys m)"
  by (auto simp: js_has_def map_of_eq_None_iff)

lemma js_get_set [js_simps]: "js_get (js_set m k v) k' = (if k' = k then Some v else js_get m k')"
  by (simp add: update_conv')

lemma js_get_delete [js_simps]: "js_get (js_delete m k) k' = (if k' = k then None else js_get m k')"
  by (simp add: delete_conv')

lemma js_keys_set [js_simps]:
  "js_keys (js_set m k v) = (if k \<in> set (js_keys m) then js_keys m else js_keys m @ [k])"
  by (simp add: update_keys)

lemma js_keys_delete [js_simps]: "js_keys (js_delete m k) = removeAll k (js_keys m)"
  by (rule delete_keys)

lemma js_distinct_set [simp, intro]: "distinct (js_keys m) \<Longrightarrow> distinct (js_keys (js_set m k v))"
  by (rule distinct_update)

lemma js_distinct_delete [simp, intro]:
  "distinct (js_keys m) \<Longrightarrow> distinct (js_keys (js_delete m k))"
  by (rule distinct_delete)

lemma js_get_Some_key: "js_get m k = Some v \<Longrightarrow> k \<in> set (js_keys m)"
  by (force dest: map_of_SomeD)

lemma js_get_None_iff: "js_get m k = None \<longleftrightarrow> k \<notin> set (js_keys m)"
  by (auto simp: map_of_eq_None_iff)

lemma set_js_set: "distinct (js_keys m) \<Longrightarrow>
  set (js_set m k v) = {e \<in> set m. fst e \<noteq> k} \<union> {(k, v)}"
  by (induction m) (auto simp: rev_image_eqI)

lemma js_set_new: "k \<notin> set (js_keys m) \<Longrightarrow> js_set m k v = m @ [(k, v)]"
  by (induction m) auto

lemma js_values_set_old:
  "set (js_values (js_set m k v)) \<subseteq> insert v (set (js_values m))"
  by (induction m) auto

lemma set_js_delete: "set (js_delete m k) = {e \<in> set m. fst e \<noteq> k}"
  by (induction m) auto

lemma js_values_delete: "set (js_values (js_delete m k)) \<subseteq> set (js_values m)"
  by (auto simp: set_js_delete)

lemma distinct_removeAll: "distinct xs \<Longrightarrow> distinct (removeAll x xs)"
  by (simp add: distinct_removeAll)

lemma length_js_delete:
  "distinct (js_keys m) \<Longrightarrow> k \<in> set (js_keys m) \<Longrightarrow> Suc (length (js_delete m k)) = length m"
proof (induction m)
  case (Cons e m)
  then show ?case by (cases e) auto
qed simp

lemma foldl_js_set_distinct:
  "distinct (map fst (m @ es)) \<Longrightarrow> foldl (\<lambda>m e. js_set m (fst e) (snd e)) m es = m @ es"
proof (induction es arbitrary: m)
  case (Cons e es)
  then have "js_set m (fst e) (snd e) = m @ [e]" by (simp add: js_set_new)
  then show ?case using Cons by simp
qed simp

lemma js_map_of_distinct: "distinct (map fst es) \<Longrightarrow> js_map_of es = es"
  by (simp add: js_map_of_def foldl_js_set_distinct)

text \<open>The last \<open>n\<close> elements of a list.\<close>

definition last_n :: "nat \<Rightarrow> 'a list \<Rightarrow> 'a list" where
  "last_n n xs = drop (length xs - n) xs"

lemma last_n_snoc: "last_n n (last_n n xs @ [x]) = last_n n (xs @ [x])"
  by (cases "length xs \<le> n") (auto simp: last_n_def Suc_diff_le)

lemma map_last_n: "map f (last_n n xs) = last_n n (map f xs)"
  by (simp add: last_n_def drop_map)

lemma length_last_n: "length (last_n n xs) = min n (length xs)"
  by (simp add: last_n_def)

lemma set_last_n: "set (last_n n xs) \<subseteq> set xs"
  by (auto simp: last_n_def dest: in_set_dropD)

lemma distinct_last_n: "distinct xs \<Longrightarrow> distinct (last_n n xs)"
  by (simp add: last_n_def)

lemma last_n_all: "length xs \<le> n \<Longrightarrow> last_n n xs = xs"
  by (simp add: last_n_def)

subsection \<open>Sets\<close>

definition js_add :: "'a list \<Rightarrow> 'a \<Rightarrow> 'a list" where
  "js_add s x = (if x \<in> set s then s else s @ [x])"

text \<open>\<^verbatim>\<open>new Set(items)\<close>\<close>

definition js_set_of :: "'a list \<Rightarrow> 'a list" where
  "js_set_of xs = foldl js_add [] xs"

lemma set_js_add [simp]: "set (js_add s x) = insert x (set s)"
  by (auto simp: js_add_def)

lemma distinct_js_add [simp, intro]: "distinct s \<Longrightarrow> distinct (js_add s x)"
  by (simp add: js_add_def)

lemma foldl_js_add: "set (foldl js_add s xs) = set s \<union> set xs"
  and distinct_foldl_js_add: "distinct s \<Longrightarrow> distinct (foldl js_add s xs)"
  by (induction xs arbitrary: s) auto

lemma set_js_set_of [simp]: "set (js_set_of xs) = set xs"
  by (simp add: js_set_of_def foldl_js_add)

lemma distinct_js_set_of [simp]: "distinct (js_set_of xs)"
  by (simp add: js_set_of_def distinct_foldl_js_add)

lemma foldl_js_add_distinct:
  "distinct (s @ xs) \<Longrightarrow> foldl js_add s xs = s @ xs"
  by (induction xs arbitrary: s) (auto simp: js_add_def)

lemma js_set_of_distinct: "distinct xs \<Longrightarrow> js_set_of xs = xs"
  by (simp add: js_set_of_def foldl_js_add_distinct)

lemma length_js_set_of_le: "length (js_set_of xs) \<le> length xs"
  by (metis card_length distinct_card distinct_js_set_of set_js_set_of)

lemma length_js_set_of_iff: "length (js_set_of xs) = length xs \<longleftrightarrow> distinct xs"
  by (metis card_distinct distinct_card distinct_js_set_of js_set_of_distinct set_js_set_of)

subsection \<open>Strings\<close>

text \<open>ECMAScript white space and line terminators among the code units below 256.\<close>

definition js_space :: "char \<Rightarrow> bool" where
  "js_space c = (of_char c \<in> {9, 10, 11, 12, 13, 32, 160 :: nat})"

definition js_trim :: "string \<Rightarrow> string" where
  "js_trim s = rev (dropWhile js_space (rev (dropWhile js_space s)))"

definition js_starts_with :: "string \<Rightarrow> string \<Rightarrow> bool" where
  "js_starts_with s p = (take (length p) s = p)"

text \<open>\<^verbatim>\<open>xs.join(sep)\<close>\<close>

fun js_join :: "string \<Rightarrow> string list \<Rightarrow> string" where
  "js_join sep [] = []"
| "js_join sep [x] = x"
| "js_join sep (x # xs) = x @ sep @ js_join sep xs"

lemma js_trim_Nil [simp]: "js_trim [] = []"
  by (simp add: js_trim_def)

lemma js_trim_eq_Nil_iff: "js_trim s = [] \<longleftrightarrow> (\<forall>c \<in> set s. js_space c)"
proof
  assume "js_trim s = []"
  then have all: "\<forall>c \<in> set (dropWhile js_space s). js_space c"
    by (simp add: js_trim_def)
  show "\<forall>c \<in> set s. js_space c"
  proof (rule ccontr)
    assume "\<not> ?thesis"
    then have ne: "dropWhile js_space s \<noteq> []" by (simp add: dropWhile_eq_Nil_conv)
    then have "\<not> js_space (hd (dropWhile js_space s))" by (rule hd_dropWhile)
    with ne all show False by simp
  qed
next
  assume all: "\<forall>c \<in> set s. js_space c"
  then have "dropWhile js_space s = []" by (simp only: dropWhile_eq_Nil_conv)
  then show "js_trim s = []" by (simp only: js_trim_def rev.simps dropWhile.simps)
qed

lemma set_js_trim: "set (js_trim s) \<subseteq> set s"
  by (auto simp: js_trim_def dest!: set_dropWhileD)

lemma length_js_trim: "length (js_trim s) \<le> length s"
  by (simp add: js_trim_def) (metis length_dropWhile_le length_rev le_trans)

lemma js_trim_ends:
  assumes "s \<noteq> []" and "\<not> js_space (hd s)" and "\<not> js_space (last s)"
  shows "js_trim s = s"
proof -
  have "dropWhile js_space s = s" using assms(1,2) by (cases s) auto
  moreover have "dropWhile js_space (rev s) = rev s"
    using assms(1,3) by (cases s rule: rev_cases) auto
  ultimately show ?thesis by (simp add: js_trim_def)
qed

lemma js_trim_trim [simp]: "js_trim (js_trim s) = js_trim s"
proof (cases "js_trim s = []")
  case False
  let ?d = "dropWhile js_space s"
  have r: "js_trim s = rev (dropWhile js_space (rev ?d))" by (simp add: js_trim_def)
  then have ne: "dropWhile js_space (rev ?d) \<noteq> []" using False by simp
  then have "\<not> js_space (hd (dropWhile js_space (rev ?d)))" by (rule hd_dropWhile)
  then have last: "\<not> js_space (last (js_trim s))" using ne by (simp add: r last_rev)
  obtain front where "rev ?d = front @ dropWhile js_space (rev ?d)"
    by (metis takeWhile_dropWhile_id)
  then have "?d = js_trim s @ rev front" by (metis r rev_append rev_rev_ident)
  moreover from this have "?d \<noteq> []" using False by auto
  then have "\<not> js_space (hd ?d)" by (rule hd_dropWhile)
  ultimately have "\<not> js_space (hd (js_trim s))" using False by simp
  with False last show ?thesis by (intro js_trim_ends)
qed simp

text \<open>\<^verbatim>\<open>toLowerCase\<close> of the code units below 256.\<close>

definition lower_char :: "char \<Rightarrow> char" where
  "lower_char c =
     (let n = of_char c :: nat
      in if 65 \<le> n \<and> n \<le> 90 \<or> 192 \<le> n \<and> n \<le> 222 \<and> n \<noteq> 215 then char_of (n + 32) else c)"

definition js_lower :: "string \<Rightarrow> string" where
  "js_lower s = map lower_char s"

lemma lower_char_lower [simp]: "lower_char (lower_char c) = lower_char c"
  by (auto simp: lower_char_def Let_def)

lemma js_lower_lower [simp]: "js_lower (js_lower s) = js_lower s"
  by (simp add: js_lower_def comp_def)

subsection \<open>JSON values\<close>

text \<open>
  Parsed JSON. A number of a JSON text is a finite double, hence a rational. An object is the
  list of its own properties.
\<close>

datatype json =
  JNull
| JBool bool
| JNum rat
| JStr string
| JArr "json list"
| JObj "(string \<times> json) list"

text \<open>\<^verbatim>\<open>value.key\<close>; \<open>None\<close> is \<^verbatim>\<open>undefined\<close>.\<close>

fun js_prop :: "json \<Rightarrow> string \<Rightarrow> json option" where
  "js_prop (JObj ps) k = map_of ps k"
| "js_prop _ k = None"

fun is_string :: "json option \<Rightarrow> bool" where
  "is_string (Some (JStr _)) = True"
| "is_string _ = False"

text \<open>\<^verbatim>\<open>typeof v === "object" && v !== null && !Array.isArray(v)\<close>\<close>

fun isRecord :: "json option \<Rightarrow> bool" where
  "isRecord (Some (JObj _)) = True"
| "isRecord _ = False"

subsection \<open>Integers\<close>

text \<open>\<^verbatim>\<open>Number.isSafeInteger\<close> on a number that is an integer.\<close>

definition safe_integer :: "int \<Rightarrow> bool" where
  "safe_integer n = (\<bar>n\<bar> \<le> 9007199254740991)"

subsection \<open>Machines\<close>

text \<open>
  A component that reacts to events is a step function on its state; outcomes the component
  does not decide (what a callback answered, which timer fired) are part of the event. Every
  component states its invariant once, as the instance of this contract.
\<close>

locale machine =
  fixes step :: "'s \<Rightarrow> 'e \<Rightarrow> 's"
    and inv :: "'s \<Rightarrow> bool"
  assumes step_inv: "inv s \<Longrightarrow> inv (step s e)"
begin

lemma run_inv: "inv s \<Longrightarrow> inv (foldl step s es)"
  by (induction es arbitrary: s) (auto intro: step_inv)

lemma run_prefix_inv: "inv s \<Longrightarrow> es = es1 @ es2 \<Longrightarrow> inv (foldl step s es1)"
  by (rule run_inv)

end

text \<open>
  A machine that keeps its invariant under the events its environment may cause. The invariant may
  speak of the environment too, which the events of a run share.
\<close>

locale guarded_machine =
  fixes step :: "'s \<Rightarrow> 'e \<Rightarrow> 's"
    and inv :: "'s \<Rightarrow> bool"
    and allowed :: "'e \<Rightarrow> bool"
  assumes allowed_step: "inv s \<Longrightarrow> allowed e \<Longrightarrow> inv (step s e)"
begin

lemma guarded_run: "inv s \<Longrightarrow> list_all allowed es \<Longrightarrow> inv (foldl step s es)"
  by (induction es arbitrary: s) (auto intro: allowed_step)

end

text \<open>
  A machine with a quantity that no step decreases, such as a revision number or a rank.
\<close>

locale monotone_machine = machine step inv
  for step :: "'s \<Rightarrow> 'e \<Rightarrow> 's" and inv :: "'s \<Rightarrow> bool" +
  fixes level :: "'s \<Rightarrow> nat"
  assumes step_level: "inv s \<Longrightarrow> level s \<le> level (step s e)"
begin

lemma run_level: "inv s \<Longrightarrow> level s \<le> level (foldl step s es)"
proof (induction es arbitrary: s)
  case (Cons e es)
  then have "level s \<le> level (step s e)" by (blast intro: step_level)
  also have "\<dots> \<le> level (foldl step (step s e) es)"
    using Cons by (blast intro: step_inv)
  finally show ?case by simp
qed simp

end

text \<open>
  A machine whose environment may cause an event only in some states, such as one that hands out identifiers
  which are not in use.
\<close>

locale world_machine =
  fixes step :: "'s \<Rightarrow> 'e \<Rightarrow> 's"
    and inv :: "'s \<Rightarrow> bool"
    and allowed :: "'s \<Rightarrow> 'e \<Rightarrow> bool"
  assumes world_step: "inv s \<Longrightarrow> allowed s e \<Longrightarrow> inv (step s e)"
begin

lemma world_run: "(\<lambda>s t. \<exists>e. allowed s e \<and> t = step s e)\<^sup>*\<^sup>* s t \<Longrightarrow> inv s \<Longrightarrow> inv t"
  by (induction rule: rtranclp_induct) (auto intro: world_step)

end

end
