(* ===== verification/EventHub.thy ===== *)
theory EventHub
  imports Prelude
begin

text \<open>
  The browser event stream of the local agent, \<^verbatim>\<open>LocalAgentEventHub\<close> of
  \<^verbatim>\<open>canvas-agent/src/event-hub.ts\<close>. The hub holds at most one SSE connection and the listener to
  call when it goes. Connections and listeners are known by identity; what the hub does to
  them (write, end, call) is the trace \<open>effects\<close>. A call of \<^verbatim>\<open>connect\<close> makes a closure \<^verbatim>\<open>close\<close>
  with its own \<^verbatim>\<open>closed\<close> flag: closures are numbered by \<open>next_handle\<close>, and \<open>closed\<close> lists the
  ones whose flag is set. Whether a write was accepted, and the wait for the drain, are the
  connection's answers and so inputs.
\<close>

type_synonym conn = nat
type_synonym listener = nat

datatype 'e stream_event = Connected | StreamEvent 'e

datatype hub_error = ActiveConnection | NoConnection | ConnectionLost

record close_handle =
  handle_id :: nat
  handle_conn :: conn

datatype 'e hub_effect =
  Registered listener
| Wrote conn "'e stream_event"
| Ended conn
| Notified listener

record 'e hub =
  connection :: "conn option"
  disconnectListener :: "listener option"
  next_handle :: nat
  closed :: "nat list"
  effects :: "'e hub_effect list"

definition new_hub :: "'e hub" where
  "new_hub = \<lparr>connection = None, disconnectListener = None, next_handle = 0, closed = [],
     effects = []\<rparr>"

definition connected :: "'e hub \<Rightarrow> bool" where
  "connected h = (connection h \<noteq> None)"

fun notify :: "listener option \<Rightarrow> 'e hub_effect list" where
  "notify None = []"
| "notify (Some l) = [Notified l]"

definition hub_close :: "close_handle \<Rightarrow> 'e hub \<Rightarrow> 'e hub" where
  "hub_close k h =
     (if handle_id k \<in> set (closed h) then h
      else
        let h1 = h\<lparr>closed := handle_id k # closed h\<rparr>
        in if connection h1 = Some (handle_conn k)
           then h1\<lparr>connection := None, disconnectListener := None,
                   effects := effects h1 @ notify (disconnectListener h1)\<rparr>
           else h1)"

definition hub_connect ::
  "conn \<Rightarrow> listener \<Rightarrow> bool \<Rightarrow> 'e hub \<Rightarrow> (hub_error, close_handle) result \<times> 'e hub" where
  "hub_connect c l accepted h =
     (if connection h \<noteq> None then (throws ActiveConnection, h)
      else
        let k = \<lparr>handle_id = next_handle h, handle_conn = c\<rparr>;
            h1 = h\<lparr>connection := Some c, disconnectListener := Some l,
                   next_handle := Suc (next_handle h),
                   effects := effects h @ [Registered l, Wrote c Connected]\<rparr>
        in if accepted then (returns k, h1)
           else (returns k, hub_close k (h1\<lparr>effects := effects h1 @ [Ended c]\<rparr>)))"

text \<open>
  \<^verbatim>\<open>emit\<close> up to the wait for the drain, and what follows the wait. \<open>Inr None\<close>: the event was
  written; \<open>Inr (Some c)\<close>: the call waits for connection \<open>c\<close> to drain.
\<close>

definition hub_emit :: "'e \<Rightarrow> bool \<Rightarrow> 'e hub \<Rightarrow> (hub_error, conn option) result \<times> 'e hub" where
  "hub_emit e accepted h =
     (case connection h of
        None \<Rightarrow> (throws NoConnection, h)
      | Some c \<Rightarrow>
          (returns (if accepted then None else Some c),
           h\<lparr>effects := effects h @ [Wrote c (StreamEvent e)]\<rparr>))"

definition hub_emit_drained :: "conn \<Rightarrow> 'e hub \<Rightarrow> (hub_error, unit) result" where
  "hub_emit_drained c h = ensure (connection h = Some c) ConnectionLost"

definition hub_disconnect :: "'e hub \<Rightarrow> 'e hub" where
  "hub_disconnect h =
     (case connection h of
        None \<Rightarrow> h
      | Some c \<Rightarrow>
          h\<lparr>connection := None, disconnectListener := None,
            effects := effects h @ [Ended c] @ notify (disconnectListener h)\<rparr>)"

text \<open>
  An SSE frame. The JSON text of an event holds no raw line break, so the frame ends at its
  first empty line.
\<close>

definition formatSse :: "('e \<Rightarrow> string) \<Rightarrow> 'e \<Rightarrow> string" where
  "formatSse stringify e = ''data: '' @ stringify e @ [CHR 0x0A, CHR 0x0A]"

subsection \<open>Runs\<close>

datatype 'e hub_op =
  Connect conn listener bool
| Close close_handle
| Emit 'e bool
| Disconnect

fun hub_step :: "'e hub \<Rightarrow> 'e hub_op \<Rightarrow> 'e hub" where
  "hub_step h (Connect c l a) = snd (hub_connect c l a h)"
| "hub_step h (Close k) = hub_close k h"
| "hub_step h (Emit e a) = snd (hub_emit e a h)"
| "hub_step h Disconnect = hub_disconnect h"

fun registered :: "'e hub_effect list \<Rightarrow> listener list" where
  "registered [] = []"
| "registered (Registered l # xs) = l # registered xs"
| "registered (_ # xs) = registered xs"

fun notified :: "'e hub_effect list \<Rightarrow> listener list" where
  "notified [] = []"
| "notified (Notified l # xs) = l # notified xs"
| "notified (_ # xs) = notified xs"

lemma registered_append [simp]: "registered (xs @ ys) = registered xs @ registered ys"
  by (induction xs rule: registered.induct) auto

lemma notified_append [simp]: "notified (xs @ ys) = notified xs @ notified ys"
  by (induction xs rule: notified.induct) auto

lemma registered_notify [simp]: "registered (notify l) = []"
  by (cases l) auto

lemma notified_notify [simp]: "notified (notify l) = (case l of None \<Rightarrow> [] | Some l \<Rightarrow> [l])"
  by (cases l) auto

definition hub_inv :: "'e hub \<Rightarrow> bool" where
  "hub_inv h \<longleftrightarrow>
     (connection h = None \<longleftrightarrow> disconnectListener h = None) \<and>
     registered (effects h) =
       notified (effects h) @ (case disconnectListener h of None \<Rightarrow> [] | Some l \<Rightarrow> [l])"

lemma hub_inv_new: "hub_inv new_hub"
  by (simp add: hub_inv_def new_hub_def)

lemma close_inv: "hub_inv h \<Longrightarrow> hub_inv (hub_close k h)"
  by (auto simp: hub_inv_def hub_close_def Let_def split: option.splits)

lemma connect_inv: "hub_inv h \<Longrightarrow> hub_inv (snd (hub_connect c l a h))"
  by (auto simp: hub_connect_def Let_def intro!: close_inv) (auto simp: hub_inv_def)

lemma emit_inv: "hub_inv h \<Longrightarrow> hub_inv (snd (hub_emit e a h))"
  by (auto simp: hub_emit_def hub_inv_def split: option.splits)

lemma disconnect_inv: "hub_inv h \<Longrightarrow> hub_inv (hub_disconnect h)"
  by (auto simp: hub_disconnect_def hub_inv_def split: option.splits)

interpretation hub: machine hub_step hub_inv
proof
  fix h :: "'a hub" and e
  assume "hub_inv h"
  then show "hub_inv (hub_step h e)"
    by (cases e) (auto intro: connect_inv close_inv emit_inv disconnect_inv)
qed

text \<open>
  Over any run of the hub, the listeners called are exactly the ones registered, in order
  and each once, except the listener of the connection that is still open.
\<close>

lemma hub_notifies_each_connection_once:
  "registered (effects (foldl hub_step new_hub ops)) =
     notified (effects (foldl hub_step new_hub ops)) @
       (if connected (foldl hub_step new_hub ops)
        then [the (disconnectListener (foldl hub_step new_hub ops))] else [])"
proof -
  have "hub_inv (foldl hub_step new_hub ops)"
    by (rule hub.run_inv [OF hub_inv_new])
  then show ?thesis
    by (auto simp: hub_inv_def connected_def split: option.splits)
qed

end
