(* ===== verification/Contracts.thy ===== *)
theory Contracts
  imports Prelude
begin

text \<open>
  The messages of the local agent, \<^verbatim>\<open>canvas-agent/src/contracts.ts\<close>. The file declares them as
  zod schemas. Zod itself is outside the repository: what it checks of an unknown value's shape
  (object with exactly these keys, strings where strings are declared) is the parameter \<open>shape\<close>
  of the parse functions, which answers the typed value if the shape fits. The bounds, the
  enumerations and the refinements the file itself states are the \<open>_valid\<close> predicates.
  Values the agent only passes on (tool arguments and outputs) have the type variable \<open>'j\<close>.
\<close>

datatype tool_name =
  CanvasRead | CanvasApplyOps | AssetsRead | AssetsPublish | MediaGenerate | SkillsLoad

definition CANONICAL_TOOL_NAMES :: "(tool_name \<times> string) list" where
  "CANONICAL_TOOL_NAMES =
     [(CanvasRead, ''canvas.read''), (CanvasApplyOps, ''canvas.apply_ops''),
      (AssetsRead, ''assets.read''), (AssetsPublish, ''assets.publish''),
      (MediaGenerate, ''media.generate''), (SkillsLoad, ''skills.load'')]"

definition CANVAS_MCP_TOOL_NAMES :: "string list" where
  "CANVAS_MCP_TOOL_NAMES =
     [''canvas_get_state'', ''canvas_apply_ops'', ''assets_read'', ''assets_publish'',
      ''media_generate'', ''skills_load'']"

definition boundedIdentity :: "string \<Rightarrow> bool" where
  "boundedIdentity s = (1 \<le> length s \<and> length s \<le> 120)"

definition bounded_text :: "nat \<Rightarrow> nat \<Rightarrow> string \<Rightarrow> bool" where
  "bounded_text lo hi s = (lo \<le> length s \<and> length s \<le> hi)"

fun optional_valid :: "('a \<Rightarrow> bool) \<Rightarrow> 'a option \<Rightarrow> bool" where
  "optional_valid p None = True"
| "optional_valid p (Some x) = p x"

subsection \<open>Delivery contracts\<close>

datatype artifact =
  ImageArtifact | VideoArtifact | AudioArtifact | TextArtifact | CanvasRevisionArtifact

datatype delivery_fact =
  FinalMessage | CanvasRevision | ArtifactProduced | ArtifactRevision | ResourceReady
| TaskBackedResource | PublicationDone

datatype delivery_kind = Answer | CanvasChange | GeneratedAsset | MixedDelivery

record criterion =
  fact :: delivery_fact
  artifact :: "artifact option"

record expected_delivery =
  delivery_kind :: delivery_kind
  requiredArtifacts :: "artifact list option"
  targetCanvasId :: "string option"
  completionCriteria :: "criterion list"

text \<open>
  The discriminated union: the first two facts are alone, each other fact names an artifact.
\<close>

fun completionCriterion_valid :: "criterion \<Rightarrow> bool" where
  "completionCriterion_valid c =
     (case fact c of
        FinalMessage \<Rightarrow> artifact c = None
      | CanvasRevision \<Rightarrow> artifact c = None
      | _ \<Rightarrow> artifact c \<noteq> None)"

definition expectedDelivery_valid :: "expected_delivery \<Rightarrow> bool" where
  "expectedDelivery_valid d =
     (optional_valid (\<lambda>as. length as \<le> 5) (requiredArtifacts d) \<and>
      optional_valid boundedIdentity (targetCanvasId d) \<and>
      1 \<le> length (completionCriteria d) \<and> length (completionCriteria d) \<le> 20 \<and>
      list_all completionCriterion_valid (completionCriteria d))"

text \<open>
  What the model answers at the end of a turn: here absent values are written as \<^verbatim>\<open>null\<close>.
\<close>

datatype 'a nullable = Null | Value 'a

record final_criterion =
  f_fact :: delivery_fact
  f_artifact :: "artifact nullable"

record final_delivery =
  f_kind :: delivery_kind
  f_requiredArtifacts :: "artifact list nullable"
  f_targetCanvasId :: "string nullable"
  f_completionCriteria :: "final_criterion list"

record final_answer =
  f_message :: string
  f_expectedDelivery :: final_delivery

record final_decision =
  decision_message :: string
  decision_expectedDelivery :: expected_delivery

fun nullable_valid :: "('a \<Rightarrow> bool) \<Rightarrow> 'a nullable \<Rightarrow> bool" where
  "nullable_valid p Null = True"
| "nullable_valid p (Value x) = p x"

definition finalCompletionCriterion_valid :: "final_criterion \<Rightarrow> bool" where
  "finalCompletionCriterion_valid c =
     (f_fact c \<in> {FinalMessage, CanvasRevision} \<and> f_artifact c = Null \<or>
      f_fact c \<in> {ArtifactProduced, ArtifactRevision, ResourceReady, TaskBackedResource,
                 PublicationDone} \<and> f_artifact c \<noteq> Null)"

definition finalCodexDecision_valid :: "final_answer \<Rightarrow> bool" where
  "finalCodexDecision_valid a =
     (let d = f_expectedDelivery a
      in bounded_text 1 (64 * 1024) (f_message a) \<and>
         nullable_valid (\<lambda>as. length as \<le> 5) (f_requiredArtifacts d) \<and>
         nullable_valid boundedIdentity (f_targetCanvasId d) \<and>
         1 \<le> length (f_completionCriteria d) \<and> length (f_completionCriteria d) \<le> 20 \<and>
         list_all finalCompletionCriterion_valid (f_completionCriteria d))"

datatype decision_error = NotJson | DecisionInvalid

fun from_nullable :: "'a nullable \<Rightarrow> 'a option" where
  "from_nullable Null = None"
| "from_nullable (Value x) = Some x"

text \<open>
  \<open>json_parse\<close> is \<^verbatim>\<open>JSON.parse\<close> (\<open>None\<close>: it throws).
\<close>

definition parseFinalCodexDecision ::
  "(string \<Rightarrow> 'v option) \<Rightarrow> ('v \<Rightarrow> final_answer option) \<Rightarrow> string \<Rightarrow>
     (decision_error, final_decision) result" where
  "parseFinalCodexDecision json_parse shape text =
     (case json_parse text of
        None \<Rightarrow> throws NotJson
      | Some parsed \<Rightarrow>
          (case shape parsed of
             None \<Rightarrow> throws DecisionInvalid
           | Some a \<Rightarrow>
               if \<not> finalCodexDecision_valid a then throws DecisionInvalid
               else
                 let d = f_expectedDelivery a
                 in returns \<lparr>decision_message = f_message a,
                      decision_expectedDelivery =
                        \<lparr>delivery_kind = f_kind d,
                         requiredArtifacts = from_nullable (f_requiredArtifacts d),
                         targetCanvasId = from_nullable (f_targetCanvasId d),
                         completionCriteria =
                           map (\<lambda>c. \<lparr>fact = f_fact c, artifact = from_nullable (f_artifact c)\<rparr>)
                             (f_completionCriteria d)\<rparr>\<rparr>))"

lemma optional_from_nullable [simp]:
  "optional_valid p (from_nullable x) = nullable_valid p x"
  by (cases x) auto

lemma finalCompletionCriterion_valid_convert:
  "finalCompletionCriterion_valid c \<Longrightarrow>
   completionCriterion_valid \<lparr>fact = f_fact c, artifact = from_nullable (f_artifact c)\<rparr>"
  by (cases "f_artifact c") (auto simp: finalCompletionCriterion_valid_def)

lemma parseFinalCodexDecision_delivery:
  assumes "parseFinalCodexDecision json_parse shape text = returns d"
  shows "expectedDelivery_valid (decision_expectedDelivery d)"
    and "decision_message d \<noteq> []"
  using assms
  by (auto simp: parseFinalCodexDecision_def Let_def finalCodexDecision_valid_def bounded_text_def
        expectedDelivery_valid_def list_all_iff finalCompletionCriterion_valid_convert
      split: option.splits if_splits simp del: completionCriterion_valid.simps)

subsection \<open>Turns, tool requests and tool results\<close>

datatype attachment_kind = ImageAttachment | FileAttachment

record local_attachment =
  att_kind :: attachment_kind
  att_name :: string
  att_mimeType :: string
  att_url :: string

record start_turn_input =
  sti_requestId :: string
  sti_canvasId :: string
  sti_threadId :: "string option"
  sti_message :: string
  sti_attachments :: "local_attachment list"
  sti_ephemeral :: bool

definition attachment_valid :: "local_attachment \<Rightarrow> bool" where
  "attachment_valid a =
     (bounded_text 1 240 (att_name a) \<and> bounded_text 1 255 (att_mimeType a) \<and>
      length (att_url a) \<le> 4096)"

definition startCodexTurnInput_valid :: "start_turn_input \<Rightarrow> bool" where
  "startCodexTurnInput_valid i =
     (boundedIdentity (sti_requestId i) \<and> boundedIdentity (sti_canvasId i) \<and>
      optional_valid boundedIdentity (sti_threadId i) \<and>
      bounded_text 1 (64 * 1024) (sti_message i) \<and>
      length (sti_attachments i) \<le> 16 \<and> list_all attachment_valid (sti_attachments i) \<and>
      \<not> (sti_ephemeral i \<and> sti_threadId i = None))"

record 'j tool_result =
  tr_requestId :: string
  tr_threadId :: string
  tr_turnId :: string
  tr_toolName :: tool_name
  tr_succeeded :: bool
  tr_output :: 'j
  tr_errorCode :: "string option"
  tr_errorMessage :: "string option"

definition toolResult_valid :: "'j tool_result \<Rightarrow> bool" where
  "toolResult_valid r =
     (boundedIdentity (tr_requestId r) \<and> boundedIdentity (tr_threadId r) \<and>
      boundedIdentity (tr_turnId r) \<and>
      optional_valid (bounded_text 1 120) (tr_errorCode r) \<and>
      optional_valid (bounded_text 1 2000) (tr_errorMessage r) \<and>
      \<not> (tr_succeeded r \<and> (tr_errorCode r \<noteq> None \<or> tr_errorMessage r \<noteq> None)) \<and>
      \<not> (\<not> tr_succeeded r \<and> (tr_errorCode r = None \<or> tr_errorMessage r = None)))"

record 'j tool_request_input =
  ti_requestId :: string
  ti_threadId :: string
  ti_turnId :: string
  ti_toolName :: tool_name
  ti_arguments :: 'j
  ti_expectedDelivery :: expected_delivery

definition canvasToolRequest_valid :: "'j tool_request_input \<Rightarrow> bool" where
  "canvasToolRequest_valid q =
     (boundedIdentity (ti_requestId q) \<and> boundedIdentity (ti_threadId q) \<and>
      boundedIdentity (ti_turnId q) \<and> expectedDelivery_valid (ti_expectedDelivery q))"

datatype zod_error = ZodError

definition schema_parse ::
  "('v \<Rightarrow> 'a option) \<Rightarrow> ('a \<Rightarrow> bool) \<Rightarrow> 'v \<Rightarrow> (zod_error, 'a) result" where
  "schema_parse shape valid v =
     (case shape v of
        None \<Rightarrow> throws ZodError
      | Some x \<Rightarrow> if valid x then returns x else throws ZodError)"

definition parseStartCodexTurnInput ::
  "('v \<Rightarrow> start_turn_input option) \<Rightarrow> 'v \<Rightarrow> (zod_error, start_turn_input) result" where
  "parseStartCodexTurnInput shape = schema_parse shape startCodexTurnInput_valid"

definition parseToolResultInput ::
  "('v \<Rightarrow> 'j tool_result option) \<Rightarrow> 'v \<Rightarrow> (zod_error, 'j tool_result) result" where
  "parseToolResultInput shape = schema_parse shape toolResult_valid"

definition parseCanvasToolRequestInput ::
  "('v \<Rightarrow> 'j tool_request_input option) \<Rightarrow> 'v \<Rightarrow> (zod_error, 'j tool_request_input) result" where
  "parseCanvasToolRequestInput shape = schema_parse shape canvasToolRequest_valid"

lemma schema_parse_Inr_iff:
  "schema_parse shape valid v = Inr x \<longleftrightarrow> shape v = Some x \<and> valid x"
  by (auto simp: schema_parse_def split: option.splits)

lemma schema_parse_Inl_iff:
  "schema_parse shape valid v = Inl e \<longleftrightarrow> (\<forall>x. shape v = Some x \<longrightarrow> \<not> valid x)"
  by (cases e) (auto simp: schema_parse_def split: option.splits)

text \<open>
  A valid result carries an error code and an error message exactly when it is a failure.
\<close>

lemma toolResult_valid_error_iff:
  "toolResult_valid r \<Longrightarrow> (tr_errorCode r \<noteq> None \<longleftrightarrow> \<not> tr_succeeded r) \<and>
     (tr_errorMessage r \<noteq> None \<longleftrightarrow> \<not> tr_succeeded r)"
  by (auto simp: toolResult_valid_def)

text \<open>
  Whatever the model answers, a final decision the agent accepts satisfies the delivery
  contract that tool requests are held to, and has a message: the answer's nullable form and
  the contract's optional form agree.
\<close>

lemma final_decision_meets_contract:
  assumes "parseFinalCodexDecision json_parse shape text = returns d"
  shows "expectedDelivery_valid (decision_expectedDelivery d) \<and> decision_message d \<noteq> []"
  using parseFinalCodexDecision_delivery [OF assms] by blast

definition sample_answer :: final_answer where
  "sample_answer = \<lparr>f_message = ''done'', f_expectedDelivery =
     \<lparr>f_kind = GeneratedAsset, f_requiredArtifacts = Value [ImageArtifact],
      f_targetCanvasId = Null,
      f_completionCriteria =
        [\<lparr>f_fact = FinalMessage, f_artifact = Null\<rparr>,
         \<lparr>f_fact = ResourceReady, f_artifact = Value ImageArtifact\<rparr>]\<rparr>\<rparr>"

theorem final_decision_meets_contract_witness:
  "\<exists>d. parseFinalCodexDecision Some (\<lambda>_. Some sample_answer) ''x'' = returns d \<and>
     expectedDelivery_valid (decision_expectedDelivery d) \<and> decision_message d \<noteq> []"
proof -
  have "finalCodexDecision_valid sample_answer"
    by (simp add: finalCodexDecision_valid_def sample_answer_def bounded_text_def
        finalCompletionCriterion_valid_def)
  then obtain d where
    d: "parseFinalCodexDecision Some (\<lambda>_. Some sample_answer) ''x'' = returns d"
    by (simp add: parseFinalCodexDecision_def Let_def)
  show ?thesis using d final_decision_meets_contract [OF d] by blast
qed

end
