(* ===== verification/CanvasSession.thy ===== *)
theory CanvasSession
  imports Contracts "HOL-Library.While_Combinator"
begin

text \<open>
  The tool requests in flight between the MCP side and the browser, \<^verbatim>\<open>CanvasSession\<close> of
  \<^verbatim>\<open>canvas-agent/src/canvas-session.ts\<close>. \<open>pending\<close> and \<open>completed\<close> are its two maps. The promise
  a request returned is settled by \<^verbatim>\<open>resolve\<close> or \<^verbatim>\<open>reject\<close>: \<open>settled\<close> records each such call with
  the request it belongs to, and \<open>emitted\<close> each event handed to the event hub. Timers, abort
  signals and rejected emissions come from outside and are events of the run. The SHA-256
  fingerprint of a result is the parameter \<open>fp\<close>.
\<close>

record 'j canvas_tool_request =
  rq_requestId :: string
  rq_threadId :: string
  rq_turnId :: string
  rq_toolName :: tool_name
  rq_arguments :: 'j
  rq_expectedDelivery :: expected_delivery
  rq_aborted :: "bool option" \<comment> \<open>\<^verbatim>\<open>signal?.aborted\<close>\<close>

record 'j tool_call_event =
  ev_requestId :: string
  ev_threadId :: string
  ev_turnId :: string
  ev_toolName :: tool_name
  ev_arguments :: 'j
  ev_expectedDelivery :: expected_delivery
  ev_createdAt :: string

datatype session_error =
  SessionDisconnected string
| RequestIdentityInvalid
| RequestAlreadyCancelled
| RequestTimedOut string
| RequestCancelled string
| EmissionFailed string
| ReplayConflict string
| UnknownRequest string
| ThreadIdMismatch
| TurnIdMismatch
| ToolNameMismatch
| EmptyDisconnectReason
| InvalidToolResult
| InvalidTimeout

datatype 'j settlement = Resolved "'j tool_result" | Rejected session_error

record 'j canvas_session =
  pending :: "(string, 'j canvas_tool_request) js_map"
  completed :: "(string, string option) js_map"
  disconnectReason :: "string option"
  settled :: "('j canvas_tool_request \<times> 'j settlement) list"
  emitted :: "'j tool_call_event list"

definition MAX_COMPLETED_TOOL_REQUESTS :: nat where
  "MAX_COMPLETED_TOOL_REQUESTS = 4096"

definition WEBSITE_APPROVAL_PROPOSAL_TTL_MS :: int where
  "WEBSITE_APPROVAL_PROPOSAL_TTL_MS = 15 * 60000"

definition APPROVAL_RESULT_GRACE_MS :: int where
  "APPROVAL_RESULT_GRACE_MS = 60000"

definition DEFAULT_CANVAS_TOOL_RESULT_TIMEOUT_MS :: int where
  "DEFAULT_CANVAS_TOOL_RESULT_TIMEOUT_MS =
     WEBSITE_APPROVAL_PROPOSAL_TTL_MS + APPROVAL_RESULT_GRACE_MS"

text \<open>
  The constructor answers the timeout and the empty session. \<open>timeoutMs\<close> is a number that may
  be any integer.
\<close>

definition new_session :: "int option \<Rightarrow> (session_error, int \<times> 'j canvas_session) result" where
  "new_session timeoutMs =
     (let t = (case timeoutMs of None \<Rightarrow> DEFAULT_CANVAS_TOOL_RESULT_TIMEOUT_MS | Some t \<Rightarrow> t)
      in if \<not> safe_integer t \<or> t < 1 \<or> t > DEFAULT_CANVAS_TOOL_RESULT_TIMEOUT_MS
         then throws InvalidTimeout
         else returns (t, \<lparr>pending = [], completed = [], disconnectReason = None,
                           settled = [], emitted = []\<rparr>))"

text \<open>
  The loop that forgets the oldest settled requests.
\<close>

function evict :: "(string, string option) js_map \<Rightarrow> (string, string option) js_map" where
  "evict m =
     (case m of
        [] \<Rightarrow> []
      | (oldest, v) # rest \<Rightarrow>
          if length m > MAX_COMPLETED_TOOL_REQUESTS then evict (js_delete m oldest) else m)"
  by pat_completeness auto
termination
  by (relation "measure length") (auto simp: length_delete_le less_Suc_eq_le)

declare evict.simps [simp del]

text \<open>The loop as it is written, which could run for ever: \<open>None\<close> if it does.\<close>

definition evict_loop :: "(string, string option) js_map \<Rightarrow> (string, string option) js_map option" where
  "evict_loop =
     while_option (\<lambda>m. length m > MAX_COMPLETED_TOOL_REQUESTS) (\<lambda>m. js_delete m (fst (hd m)))"

definition finishPending ::
  "'j canvas_tool_request \<Rightarrow> string option \<Rightarrow> 'j canvas_session \<Rightarrow> 'j canvas_session" where
  "finishPending q fingerprint s =
     s\<lparr>pending := js_delete (pending s) (rq_requestId q),
       completed := evict (js_set (completed s) (rq_requestId q) fingerprint)\<rparr>"

definition completeWithError ::
  "string \<Rightarrow> session_error \<Rightarrow> 'j canvas_session \<Rightarrow> 'j canvas_session" where
  "completeWithError requestId error s =
     (case js_get (pending s) requestId of
        None \<Rightarrow> s
      | Some q \<Rightarrow>
          let s1 = finishPending q None s
          in s1\<lparr>settled := settled s1 @ [(q, Rejected error)]\<rparr>)"

definition tool_call_of :: "'j canvas_tool_request \<Rightarrow> string \<Rightarrow> 'j tool_call_event" where
  "tool_call_of q now =
     \<lparr>ev_requestId = rq_requestId q, ev_threadId = rq_threadId q, ev_turnId = rq_turnId q,
      ev_toolName = rq_toolName q, ev_arguments = rq_arguments q,
      ev_expectedDelivery = rq_expectedDelivery q, ev_createdAt = now\<rparr>"

text \<open>
  \<open>emission\<close> is what the call of \<^verbatim>\<open>emit\<close> did: \<open>None\<close> if it returned, \<open>Some cause\<close> if it threw.
  A promise it returned that is rejected later is an event of its own.
\<close>

definition requestTool ::
  "'j canvas_tool_request \<Rightarrow> string \<Rightarrow> string option \<Rightarrow> 'j canvas_session \<Rightarrow>
     (session_error, unit) result \<times> 'j canvas_session" where
  "requestTool q now emission s =
     (case disconnectReason s of
        Some reason \<Rightarrow> (throws (SessionDisconnected reason), s)
      | None \<Rightarrow>
          if rq_requestId q = [] \<or> rq_threadId q = [] \<or> rq_turnId q = [] \<or>
             js_has (pending s) (rq_requestId q) \<or> js_has (completed s) (rq_requestId q)
          then (throws RequestIdentityInvalid, s)
          else if rq_aborted q = Some True then (throws RequestAlreadyCancelled, s)
          else
            let s1 = s\<lparr>pending := js_set (pending s) (rq_requestId q) q,
                       emitted := emitted s @ [tool_call_of q now]\<rparr>
            in (returns (),
                case emission of
                  None \<Rightarrow> s1
                | Some cause \<Rightarrow> completeWithError (rq_requestId q) (EmissionFailed cause) s1))"

definition resolveToolResult ::
  "('j tool_result \<Rightarrow> string) \<Rightarrow> 'j tool_result \<Rightarrow> 'j canvas_session \<Rightarrow>
     (session_error, unit) result \<times> 'j canvas_session" where
  "resolveToolResult fp r s =
     (if \<not> toolResult_valid r then (throws InvalidToolResult, s)
      else
        case js_get (completed s) (tr_requestId r) of
          Some fingerprint \<Rightarrow>
            if fingerprint = Some (fp r) then (returns (), s)
            else (throws (ReplayConflict (tr_requestId r)), s)
        | None \<Rightarrow>
            (case js_get (pending s) (tr_requestId r) of
               None \<Rightarrow> (throws (UnknownRequest (tr_requestId r)), s)
             | Some q \<Rightarrow>
                 if rq_threadId q \<noteq> tr_threadId r then (throws ThreadIdMismatch, s)
                 else if rq_turnId q \<noteq> tr_turnId r then (throws TurnIdMismatch, s)
                 else if rq_toolName q \<noteq> tr_toolName r then (throws ToolNameMismatch, s)
                 else
                   let s1 = finishPending q (Some (fp r)) s
                   in (returns (), s1\<lparr>settled := settled s1 @ [(q, Resolved r)]\<rparr>)))"

definition session_disconnect ::
  "string \<Rightarrow> 'j canvas_session \<Rightarrow> (session_error, unit) result \<times> 'j canvas_session" where
  "session_disconnect reason s =
     (let normalized = js_trim reason
      in if normalized = [] then (throws EmptyDisconnectReason, s)
         else if disconnectReason s \<noteq> None then (returns (), s)
         else (returns (),
               foldl (\<lambda>t k. completeWithError k (SessionDisconnected normalized) t)
                 (s\<lparr>disconnectReason := Some normalized\<rparr>) (js_keys (pending s))))"

subsection \<open>Runs\<close>

datatype 'j session_event =
  RequestTool "'j canvas_tool_request" string "string option"
| EmissionRejected string string
| TimerFired string
| AbortSignalled string
| ToolResultArrived "'j tool_result"
| SessionDisconnect string

fun session_step ::
  "('j tool_result \<Rightarrow> string) \<Rightarrow> 'j canvas_session \<Rightarrow> 'j session_event \<Rightarrow> 'j canvas_session" where
  "session_step fp s (RequestTool q now emission) = snd (requestTool q now emission s)"
| "session_step fp s (EmissionRejected k cause) = completeWithError k (EmissionFailed cause) s"
| "session_step fp s (TimerFired k) = completeWithError k (RequestTimedOut k) s"
| "session_step fp s (AbortSignalled k) = completeWithError k (RequestCancelled k) s"
| "session_step fp s (ToolResultArrived r) = snd (resolveToolResult fp r s)"
| "session_step fp s (SessionDisconnect reason) = snd (session_disconnect reason s)"

definition empty_session :: "'j canvas_session" where
  "empty_session = \<lparr>pending = [], completed = [], disconnectReason = None, settled = [],
     emitted = []\<rparr>"

abbreviation session_run ::
  "('j tool_result \<Rightarrow> string) \<Rightarrow> 'j session_event list \<Rightarrow> 'j canvas_session" where
  "session_run fp es \<equiv> foldl (session_step fp) empty_session es"

subsection \<open>The eviction loop\<close>

lemma evict_Nil [simp]: "evict [] = []"
  by (subst evict.simps) simp

lemma delete_head: "distinct (js_keys (e # m)) \<Longrightarrow> js_delete (e # m) (fst e) = m"
  by (cases e) (auto simp: js_get_None_iff intro!: delete_id)

lemma evict_distinct:
  "distinct (js_keys m) \<Longrightarrow> evict m = last_n MAX_COMPLETED_TOOL_REQUESTS m"
proof (induction m)
  case (Cons e m)
  have unfold: "evict (e # m) =
    (if length (e # m) > MAX_COMPLETED_TOOL_REQUESTS then evict m else e # m)"
    using delete_head [OF Cons.prems] by (subst evict.simps) (cases e, simp)
  show ?case
  proof (cases "length (e # m) > MAX_COMPLETED_TOOL_REQUESTS")
    case True
    then have "length (e # m) - MAX_COMPLETED_TOOL_REQUESTS =
        Suc (length m - MAX_COMPLETED_TOOL_REQUESTS)" by simp
    with True Cons unfold show ?thesis by (simp add: last_n_def)
  next
    case False
    with unfold show ?thesis by (simp add: last_n_def)
  qed
qed (simp add: last_n_def)

subsection \<open>The invariant\<close>

abbreviation settled_ids :: "('j canvas_tool_request \<times> 'j settlement) list \<Rightarrow> string list" where
  "settled_ids st \<equiv> map (\<lambda>e. rq_requestId (fst e)) st"

abbreviation emitted_ids :: "'j tool_call_event list \<Rightarrow> string list" where
  "emitted_ids em \<equiv> map ev_requestId em"

fun answers :: "'j canvas_tool_request \<times> 'j settlement \<Rightarrow> bool" where
  "answers (q, Resolved r) =
     (toolResult_valid r \<and> tr_requestId r = rq_requestId q \<and> tr_threadId r = rq_threadId q \<and>
      tr_turnId r = rq_turnId q \<and> tr_toolName r = rq_toolName q)"
| "answers (q, Rejected e) = True"

text \<open>
  The four parts of the invariant: a pending request is filed under its own identity; the
  completed map is the window of the last settled requests, none of them pending; every emitted
  request is settled or pending, each exactly once; a resolution answers its request.
\<close>

definition pending_ok :: "(string, 'j canvas_tool_request) js_map \<Rightarrow> bool" where
  "pending_ok p \<longleftrightarrow> distinct (js_keys p) \<and> (\<forall>k q. js_get p k = Some q \<longrightarrow> rq_requestId q = k)"

definition window_ok ::
  "(string, 'j canvas_tool_request) js_map \<Rightarrow> (string, string option) js_map \<Rightarrow>
     ('j canvas_tool_request \<times> 'j settlement) list \<Rightarrow> bool" where
  "window_ok p c st \<longleftrightarrow>
     js_keys c = last_n MAX_COMPLETED_TOOL_REQUESTS (settled_ids st) \<and>
     distinct (js_keys c) \<and> (\<forall>k. js_has p k \<longrightarrow> \<not> js_has c k)"

definition count_ok ::
  "(string, 'j canvas_tool_request) js_map \<Rightarrow> 'j tool_call_event list \<Rightarrow>
     ('j canvas_tool_request \<times> 'j settlement) list \<Rightarrow> bool" where
  "count_ok p em st \<longleftrightarrow>
     (\<forall>k. count_list (emitted_ids em) k =
        count_list (settled_ids st) k + (if js_has p k then 1 else 0))"

definition session_open_inv :: "'j canvas_session \<Rightarrow> bool" where
  "session_open_inv s \<longleftrightarrow>
     pending_ok (pending s) \<and> window_ok (pending s) (completed s) (settled s) \<and>
     count_ok (pending s) (emitted s) (settled s) \<and> list_all answers (settled s)"

definition session_inv :: "'j canvas_session \<Rightarrow> bool" where
  "session_inv s \<longleftrightarrow> session_open_inv s \<and> (disconnectReason s \<noteq> None \<longrightarrow> pending s = [])"

lemma session_inv_empty: "session_inv empty_session"
  by (simp add: session_inv_def session_open_inv_def empty_session_def js_has_def pending_ok_def
      window_ok_def count_ok_def last_n_def)

lemma pending_ok_delete: "pending_ok p \<Longrightarrow> pending_ok (js_delete p k)"
  by (auto simp: pending_ok_def js_get_delete)

lemma pending_ok_set: "pending_ok p \<Longrightarrow> rq_requestId q = k \<Longrightarrow> pending_ok (js_set p k q)"
  by (auto simp: pending_ok_def js_get_set)

lemma window_ok_settle:
  assumes w: "window_ok p c st" and k: "js_has p k" and q: "rq_requestId q = k"
  shows "window_ok (js_delete p k) (evict (js_set c k f)) (st @ [(q, out)])"
proof -
  have new: "k \<notin> set (js_keys c)" using w k unfolding window_ok_def js_has_iff by blast
  then have app: "js_set c k f = c @ [(k, f)]" by (rule js_set_new)
  have "distinct (js_keys c)" using w unfolding window_ok_def by blast
  with new have dist: "distinct (js_keys (c @ [(k, f)]))" by simp
  have evicted: "evict (c @ [(k, f)]) = last_n MAX_COMPLETED_TOOL_REQUESTS (c @ [(k, f)])"
    using dist by (rule evict_distinct)
  have keys: "js_keys (evict (c @ [(k, f)])) =
      last_n MAX_COMPLETED_TOOL_REQUESTS (settled_ids st @ [k])"
    using w last_n_snoc [of MAX_COMPLETED_TOOL_REQUESTS "settled_ids st" k]
    by (simp add: evicted map_last_n window_ok_def)
  have sub: "set (js_keys (evict (c @ [(k, f)]))) \<subseteq> insert k (set (js_keys c))"
    using set_last_n [of MAX_COMPLETED_TOOL_REQUESTS "c @ [(k, f)]"] by (auto simp: evicted)
  have "\<not> js_has (evict (c @ [(k, f)])) k'" if "js_has (js_delete p k) k'" for k'
  proof -
    have "k' \<noteq> k" and "js_has p k'" using that by (auto simp: js_has_def js_get_delete split: if_splits)
    then show ?thesis using sub w by (auto simp: window_ok_def js_has_iff)
  qed
  moreover have "distinct (js_keys (evict (c @ [(k, f)])))"
    using distinct_last_n [OF dist] by (simp add: evicted map_last_n)
  ultimately show ?thesis using keys q by (simp add: window_ok_def app)
qed

lemma count_ok_settle:
  "count_ok p em st \<Longrightarrow> js_has p k \<Longrightarrow> rq_requestId q = k \<Longrightarrow>
   count_ok (js_delete p k) em (st @ [(q, out)])"
  by (auto simp: count_ok_def js_has_def js_get_delete)

text \<open>
  Settling a pending request, whatever the outcome, keeps the invariant.
\<close>

lemma settle_inv:
  assumes inv: "session_open_inv s" and q: "js_get (pending s) k = Some q"
    and ok: "answers (q, out)"
  shows "session_open_inv
     ((finishPending q f s)\<lparr>settled := settled (finishPending q f s) @ [(q, out)]\<rparr>)"
proof -
  have id: "rq_requestId q = k" using inv q by (simp add: session_open_inv_def pending_ok_def)
  have has: "js_has (pending s) k" using q by (simp add: js_has_def)
  show ?thesis
    using inv ok window_ok_settle [OF _ has id] count_ok_settle [OF _ has id]
    by (simp add: session_open_inv_def finishPending_def id pending_ok_delete)
qed

lemma completeWithError_inv: "session_open_inv s \<Longrightarrow> session_open_inv (completeWithError k e s)"
  by (simp add: completeWithError_def Let_def settle_inv split: option.split)

lemma completeWithError_frame:
  "disconnectReason (completeWithError k e s) = disconnectReason s"
  "emitted (completeWithError k e s) = emitted s"
  "js_keys (pending (completeWithError k e s)) =
     (case js_get (pending s) k of None \<Rightarrow> js_keys (pending s)
      | Some q \<Rightarrow> removeAll (rq_requestId q) (js_keys (pending s)))"
  by (simp_all add: completeWithError_def finishPending_def Let_def delete_keys split: option.split)

lemma completeWithError_absent:
  "\<not> js_has (pending s) k \<Longrightarrow> completeWithError k e s = s"
  by (simp add: completeWithError_def js_has_def)

lemma resolveToolResult_inv:
  "session_open_inv s \<Longrightarrow> session_open_inv (snd (resolveToolResult fp r s))"
  by (auto simp: resolveToolResult_def Let_def session_open_inv_def [of s] pending_ok_def
      intro!: settle_inv split: option.split)

lemma resolveToolResult_reason:
  "disconnectReason (snd (resolveToolResult fp r s)) = disconnectReason s"
  by (simp add: resolveToolResult_def finishPending_def Let_def split: option.split)

lemma requestTool_inv:
  assumes "session_inv s"
  shows "session_inv (snd (requestTool q now emission s))"
proof -
  let ?s1 = "s\<lparr>pending := js_set (pending s) (rq_requestId q) q,
               emitted := emitted s @ [tool_call_of q now]\<rparr>"
  have fresh: "session_open_inv ?s1"
    if "\<not> js_has (pending s) (rq_requestId q)" "\<not> js_has (completed s) (rq_requestId q)"
    using assms that
    by (auto simp: session_inv_def session_open_inv_def pending_ok_set window_ok_def count_ok_def
        js_has_def js_get_set tool_call_of_def)
  show ?thesis
    using assms fresh
    by (auto simp: requestTool_def Let_def session_inv_def completeWithError_frame
        intro: completeWithError_inv split: option.split)
qed

lemma fold_complete_inv:
  "session_open_inv s \<Longrightarrow> session_open_inv (foldl (\<lambda>t k. completeWithError k e t) s ks)"
  by (induction ks arbitrary: s) (auto intro: completeWithError_inv)

lemma completeWithError_keys:
  "session_open_inv s \<Longrightarrow>
   js_keys (pending (completeWithError k e s)) = removeAll k (js_keys (pending s))"
  by (auto simp: completeWithError_frame session_open_inv_def pending_ok_def js_get_None_iff
      removeAll_id split: option.split)

lemma fold_complete_keys:
  "session_open_inv s \<Longrightarrow>
   set (js_keys (pending (foldl (\<lambda>t k. completeWithError k e t) s ks))) =
     set (js_keys (pending s)) - set ks"
proof (induction ks arbitrary: s)
  case (Cons k ks)
  then show ?case
    using completeWithError_keys [OF Cons.prems, of k e]
    by (auto simp: completeWithError_inv simp del: set_map)
qed simp

lemma fold_complete_reason:
  "disconnectReason (foldl (\<lambda>t k. completeWithError k e t) s ks) = disconnectReason s"
  by (induction ks arbitrary: s) (simp_all add: completeWithError_frame)

lemma disconnect_empties:
  assumes "session_open_inv s"
  shows "pending (foldl (\<lambda>t k. completeWithError k e t) s (js_keys (pending s))) = []"
  using fold_complete_keys [OF assms, of e "js_keys (pending s)"] by simp

lemma session_disconnect_inv: "session_inv s \<Longrightarrow> session_inv (snd (session_disconnect reason s))"
proof -
  assume inv: "session_inv s"
  have open_inv: "session_open_inv (s\<lparr>disconnectReason := Some r\<rparr>)" for r
    using inv by (simp add: session_inv_def session_open_inv_def)
  show ?thesis
    using inv fold_complete_inv [OF open_inv] disconnect_empties [OF open_inv]
    by (auto simp: session_disconnect_def Let_def session_inv_def)
qed

lemma completeWithError_session_inv: "session_inv s \<Longrightarrow> session_inv (completeWithError k e s)"
  by (cases "disconnectReason s")
    (auto simp: session_inv_def completeWithError_inv completeWithError_frame
      completeWithError_absent js_has_def)

lemma resolveToolResult_session_inv:
  "session_inv s \<Longrightarrow> session_inv (snd (resolveToolResult fp r s))"
  by (auto simp: session_inv_def resolveToolResult_inv resolveToolResult_reason)
    (auto simp: resolveToolResult_def split: option.split)

interpretation session: machine "session_step fp" session_inv
  for fp :: "'j tool_result \<Rightarrow> string"
proof
  fix s :: "'j canvas_session" and e
  assume "session_inv s"
  then show "session_inv (session_step fp s e)"
    by (cases e) (auto intro: requestTool_inv completeWithError_session_inv
        resolveToolResult_session_inv session_disconnect_inv)
qed

lemma run_session_inv: "session_inv (session_run fp es)"
  by (rule session.run_inv [OF session_inv_empty])

subsection \<open>Properties\<close>

text \<open>
  C3. Over any run of a session, each request handed to the browser is settled at most once and,
  until it is settled, pending: the emissions of an identity are its settlements plus one if it
  is pending.
\<close>

theorem session_settles_each_request_once:
  "count_list (map ev_requestId (emitted (session_run fp es))) k =
     count_list (map (\<lambda>e. rq_requestId (fst e)) (settled (session_run fp es))) k +
     (if js_has (pending (session_run fp es)) k then 1 else 0)"
  using run_session_inv [of fp es]
  by (simp add: session_inv_def session_open_inv_def count_ok_def)

text \<open>
  A request is only ever resolved with a valid result of the same request, thread, turn and
  tool.
\<close>

lemma session_resolves_with_own_result:
  assumes "(q, Resolved r) \<in> set (settled (session_run fp es))"
  shows "toolResult_valid r \<and> tr_requestId r = rq_requestId q \<and> tr_threadId r = rq_threadId q \<and>
    tr_turnId r = rq_turnId q \<and> tr_toolName r = rq_toolName q"
  using run_session_inv [of fp es] assms
  by (force simp: session_inv_def session_open_inv_def list_all_iff)

text \<open>
  The identities the session refuses to reuse, and replays results for, are those of the
  last 4096 settled requests; the memory for them is bounded.
\<close>

lemma session_replay_window:
  "map fst (completed (session_run fp es)) =
     last_n 4096 (map (\<lambda>e. rq_requestId (fst e)) (settled (session_run fp es))) \<and>
   length (completed (session_run fp es)) \<le> 4096"
proof -
  have keys: "js_keys (completed (session_run fp es)) =
      last_n 4096 (settled_ids (settled (session_run fp es)))"
    using run_session_inv [of fp es]
    by (simp add: session_inv_def session_open_inv_def window_ok_def
        MAX_COMPLETED_TOOL_REQUESTS_def)
  then have "length (completed (session_run fp es)) \<le> 4096"
    using length_last_n by (metis length_map min.cobounded1)
  with keys show ?thesis by simp
qed

lemma fold_complete_settled:
  assumes "session_open_inv s" and "distinct ks" and "set ks \<subseteq> set (js_keys (pending s))"
  shows "settled (foldl (\<lambda>t k. completeWithError k e t) s ks) =
    settled s @ map (\<lambda>k. (the (js_get (pending s) k), Rejected e)) ks"
  using assms
proof (induction ks arbitrary: s)
  case (Cons k ks)
  then obtain q where q: "js_get (pending s) k = Some q"
    by (auto simp: js_get_None_iff simp del: set_map) (metis not_Some_eq js_get_None_iff)
  then have id: "rq_requestId q = k"
    using Cons.prems(1) by (simp add: session_open_inv_def pending_ok_def)
  have inv: "session_open_inv (completeWithError k e s)"
    using Cons.prems(1) by (rule completeWithError_inv)
  have sub: "set ks \<subseteq> set (js_keys (pending (completeWithError k e s)))"
    using Cons.prems completeWithError_keys [OF Cons.prems(1), of k e] by auto
  have get: "js_get (pending (completeWithError k e s)) k' = js_get (pending s) k'"
    if "k' \<in> set ks" for k'
    using that Cons.prems(2) q id
    by (auto simp: completeWithError_def finishPending_def Let_def js_get_delete)
  have "settled (completeWithError k e s) = settled s @ [(q, Rejected e)]"
    using q by (simp add: completeWithError_def finishPending_def Let_def)
  with Cons.IH [OF inv _ sub] Cons.prems(2) q get show ?case by simp
qed simp

text \<open>
  A disconnect with a reason leaves no request pending, settles the pending ones with that
  reason and closes the session: every later request is refused.
\<close>

lemma session_disconnect_closes:
  assumes s: "s = session_run fp es" and reason: "js_trim reason \<noteq> []" and open_session: "disconnectReason s = None"
  shows "pending (snd (session_disconnect reason s)) = [] \<and>
    settled (snd (session_disconnect reason s)) =
      settled s @ map (\<lambda>(k, q). (q, Rejected (SessionDisconnected (js_trim reason)))) (pending s) \<and>
    requestTool q now emission (snd (session_disconnect reason s)) =
      (throws (SessionDisconnected (js_trim reason)), snd (session_disconnect reason s))"
proof -
  let ?s0 = "s\<lparr>disconnectReason := Some (js_trim reason)\<rparr>"
  let ?e = "SessionDisconnected (js_trim reason)"
  have inv: "session_open_inv s"
    using run_session_inv [of fp es] by (simp add: session_inv_def s)
  then have inv0: "session_open_inv ?s0" by (simp add: session_open_inv_def)
  have eq: "snd (session_disconnect reason s) =
      foldl (\<lambda>t k. completeWithError k ?e t) ?s0 (js_keys (pending ?s0))"
    using reason open_session by (simp add: session_disconnect_def Let_def)
  have dist: "distinct (js_keys (pending ?s0))"
    using inv by (simp add: session_open_inv_def pending_ok_def)
  have map_eq: "map (\<lambda>k. (the (js_get (pending s) k), Rejected ?e)) (js_keys (pending s)) =
      map (\<lambda>(k, q). (q, Rejected ?e)) (pending s)"
    using dist by (auto simp: map_of_eq_Some_iff intro!: map_cong)
  show ?thesis
    using disconnect_empties [OF inv0, of ?e] fold_complete_settled [OF inv0 dist, of ?e] map_eq
      fold_complete_reason [of ?e ?s0]
    by (simp add: eq requestTool_def)
qed

subsection \<open>A concrete run\<close>

definition sample_delivery :: expected_delivery where
  "sample_delivery = \<lparr>delivery_kind = Answer, requiredArtifacts = None, targetCanvasId = None,
     completionCriteria = [\<lparr>fact = FinalMessage, artifact = None\<rparr>]\<rparr>"

definition sample_request :: "string \<Rightarrow> unit canvas_tool_request" where
  "sample_request k = \<lparr>rq_requestId = k, rq_threadId = ''t'', rq_turnId = ''u'',
     rq_toolName = CanvasRead, rq_arguments = (), rq_expectedDelivery = sample_delivery,
     rq_aborted = None\<rparr>"

definition sample_result :: "string \<Rightarrow> unit tool_result" where
  "sample_result k = \<lparr>tr_requestId = k, tr_threadId = ''t'', tr_turnId = ''u'',
     tr_toolName = CanvasRead, tr_succeeded = True, tr_output = (), tr_errorCode = None,
     tr_errorMessage = None\<rparr>"

definition sample_events :: "unit session_event list" where
  "sample_events =
     [RequestTool (sample_request ''a'') ''now'' None,
      RequestTool (sample_request ''b'') ''now'' None,
      ToolResultArrived (sample_result ''a'')]"

lemma evict_single [simp]: "evict [e] = [e]"
  by (simp add: evict_distinct last_n_def MAX_COMPLETED_TOOL_REQUESTS_def)

lemma sample_run:
  "session_run (\<lambda>_. ''f'') sample_events =
     \<lparr>pending = [(''b'', sample_request ''b'')], completed = [(''a'', Some ''f'')],
      disconnectReason = None,
      settled = [(sample_request ''a'', Resolved (sample_result ''a''))],
      emitted = [tool_call_of (sample_request ''a'') ''now'',
        tool_call_of (sample_request ''b'') ''now'']\<rparr>"
  by (simp add: sample_events_def empty_session_def requestTool_def resolveToolResult_def
      sample_request_def sample_result_def js_has_def finishPending_def toolResult_valid_def
      boundedIdentity_def)

theorem session_resolves_with_own_result_witness:
  "(sample_request ''a'', Resolved (sample_result ''a'')) \<in>
     set (settled (session_run (\<lambda>_. ''f'') sample_events)) \<and>
   tr_turnId (sample_result ''a'') = ''u''"
proof -
  have mem: "(sample_request ''a'', Resolved (sample_result ''a'')) \<in>
      set (settled (session_run (\<lambda>_. ''f'') sample_events))"
    by (simp add: sample_run)
  show ?thesis
    using mem session_resolves_with_own_result [OF mem] by (simp add: sample_request_def)
qed

lemma sample_reason: "js_trim '' gone '' = ''gone''"
  by (simp add: js_trim_def js_space_def)

theorem session_disconnect_closes_witness:
  "settled (snd (session_disconnect '' gone '' (session_run (\<lambda>_. ''f'') sample_events))) =
     [(sample_request ''a'', Resolved (sample_result ''a'')),
      (sample_request ''b'', Rejected (SessionDisconnected ''gone''))]"
proof -
  have "js_trim '' gone '' \<noteq> []"
    and "disconnectReason (session_run (\<lambda>_. ''f'') sample_events) = None"
    by (simp_all add: sample_reason sample_run)
  from session_disconnect_closes [OF refl this] show ?thesis
    by (simp add: sample_run sample_reason)
qed

subsection \<open>The loop that forgets\<close>

lemma evict_loop_unfold:
  "evict_loop m =
     (if length m > MAX_COMPLETED_TOOL_REQUESTS then evict_loop (js_delete m (fst (hd m))) else Some m)"
  unfolding evict_loop_def by (rule while_option_unfold)

text \<open>
  The loop that forgets the oldest settled requests ends whatever the memory holds, with at most 4096
  requests left; and of a memory that names no request twice, as the session's never does, it leaves
  the latest ones.
\<close>

lemma eviction_loop_ends:
  "evict_loop m = Some (evict m) \<and> length (evict m) \<le> 4096 \<and>
   (distinct (js_keys m) \<longrightarrow> evict m = last_n 4096 m)"
proof -
  have "evict_loop m = Some (evict m) \<and> length (evict m) \<le> MAX_COMPLETED_TOOL_REQUESTS"
  proof (induction m rule: evict.induct)
    case (1 m)
    show ?case
    proof (cases m)
      case Nil
      then show ?thesis by (simp add: evict_loop_unfold)
    next
      case (Cons e rest)
      obtain k v where e: "e = (k, v)" by (cases e)
      show ?thesis
      proof (cases "length m > MAX_COMPLETED_TOOL_REQUESTS")
        case True
        have "evict m = evict (js_delete m k)" using True Cons e by (subst evict.simps) simp
        moreover have "evict_loop m = evict_loop (js_delete m k)" using True Cons e by (subst evict_loop_unfold) simp
        ultimately show ?thesis using 1 [OF Cons e [symmetric] True] Cons e by simp
      next
        case False
        then have "evict m = m" using Cons e by (subst evict.simps) simp
        then show ?thesis using False by (simp add: evict_loop_unfold)
      qed
    qed
  qed
  then show ?thesis by (simp add: evict_distinct MAX_COMPLETED_TOOL_REQUESTS_def)
qed

lemma eviction_loop_ends_witness:
  "evict_loop [(''a'', None)] = Some (last_n 4096 [(''a'', None)])"
  using eviction_loop_ends [of "[(''a'', None)]"] by (simp add: MAX_COMPLETED_TOOL_REQUESTS_def)

end
