(* ===== verification/CodexEvents.thy ===== *)
theory CodexEvents
  imports Contracts
begin

text \<open>
  The events of a Codex turn and the records the local agent keeps of threads and turns: the
  types of \<^verbatim>\<open>canvas-agent/src/codex-thread-store.ts\<close>, with its checks of what it stores. The events
  of the Codex SDK are outside the repository: \<open>thread_event\<close> has the kinds and the fields the
  agent reads of them. The fixed notices the agent writes into a record are in translation; the
  records only depend on their being short and not empty.
\<close>

datatype thread_item =
  McpToolCall string bool \<comment> \<open>id, and whether \<^verbatim>\<open>status\<close> is \<^verbatim>\<open>in_progress\<close>\<close>
| AgentMessage string
| OtherItem string

datatype thread_event =
  SdkThreadStarted string
| SdkTurnStarted
| SdkItemStarted thread_item
| SdkItemUpdated thread_item
| SdkItemCompleted thread_item
| SdkTurnCompleted
| SdkTurnFailed string
| SdkError string

datatype codex_event =
  ThreadStarted string string
| TurnStarted string string
| ItemStarted string string thread_event
| ItemUpdated string string thread_event
| ItemCompleted string string thread_event
| FinalDecision string string string expected_delivery
| TurnCompleted string string thread_event
| TurnFailed string string string "thread_event option"
| TurnCancelled string string

datatype turn_status = Running | TurnDone | TurnError | TurnStopped

record stored_attachment =
  sa_kind :: attachment_kind
  sa_name :: string
  sa_mimeType :: string

record turn_record =
  tn_turnId :: string
  tn_status :: turn_status
  tn_message :: string
  tn_attachments :: "stored_attachment list"
  tn_events :: "codex_event list"
  tn_createdAt :: string
  tn_completedAt :: "string option"
  tn_errorMessage :: "string option"

record thread_record =
  th_threadId :: string
  th_sdkThreadId :: "string option"
  th_canvasId :: string
  th_workspaceRoot :: string
  th_model :: string
  th_createdAt :: string
  th_updatedAt :: string
  th_archivedAt :: "string option"
  th_turns :: "turn_record list"

subsection \<open>Events as JSON\<close>

fun thread_item_json :: "thread_item \<Rightarrow> json" where
  "thread_item_json (McpToolCall i p) =
     JObj [(''type'', JStr ''mcp_tool_call''), (''id'', JStr i),
           (''status'', JStr (if p then ''in_progress'' else ''completed''))]"
| "thread_item_json (AgentMessage t) =
     JObj [(''type'', JStr ''agent_message''), (''text'', JStr t)]"
| "thread_item_json (OtherItem t) = JObj [(''type'', JStr t)]"

fun thread_event_json :: "thread_event \<Rightarrow> json" where
  "thread_event_json (SdkThreadStarted t) =
     JObj [(''type'', JStr ''thread.started''), (''thread_id'', JStr t)]"
| "thread_event_json SdkTurnStarted = JObj [(''type'', JStr ''turn.started'')]"
| "thread_event_json (SdkItemStarted i) =
     JObj [(''type'', JStr ''item.started''), (''item'', thread_item_json i)]"
| "thread_event_json (SdkItemUpdated i) =
     JObj [(''type'', JStr ''item.updated''), (''item'', thread_item_json i)]"
| "thread_event_json (SdkItemCompleted i) =
     JObj [(''type'', JStr ''item.completed''), (''item'', thread_item_json i)]"
| "thread_event_json SdkTurnCompleted = JObj [(''type'', JStr ''turn.completed'')]"
| "thread_event_json (SdkTurnFailed m) =
     JObj [(''type'', JStr ''turn.failed''), (''error'', JObj [(''message'', JStr m)])]"
| "thread_event_json (SdkError m) = JObj [(''type'', JStr ''error''), (''message'', JStr m)]"

fun artifact_name :: "artifact \<Rightarrow> string" where
  "artifact_name ImageArtifact = ''image''"
| "artifact_name VideoArtifact = ''video''"
| "artifact_name AudioArtifact = ''audio''"
| "artifact_name TextArtifact = ''text''"
| "artifact_name CanvasRevisionArtifact = ''canvas_revision''"

fun fact_name :: "delivery_fact \<Rightarrow> string" where
  "fact_name FinalMessage = ''final_message''"
| "fact_name CanvasRevision = ''canvas_revision''"
| "fact_name ArtifactProduced = ''artifact''"
| "fact_name ArtifactRevision = ''artifact_revision''"
| "fact_name ResourceReady = ''resource''"
| "fact_name TaskBackedResource = ''task_backed_resource''"
| "fact_name PublicationDone = ''publication''"

fun delivery_kind_name :: "delivery_kind \<Rightarrow> string" where
  "delivery_kind_name Answer = ''answer''"
| "delivery_kind_name CanvasChange = ''canvas_change''"
| "delivery_kind_name GeneratedAsset = ''generated_asset''"
| "delivery_kind_name MixedDelivery = ''mixed''"

fun optional_prop :: "string \<Rightarrow> ('a \<Rightarrow> json) \<Rightarrow> 'a option \<Rightarrow> (string \<times> json) list" where
  "optional_prop k f None = []"
| "optional_prop k f (Some x) = [(k, f x)]"

definition criterion_json :: "criterion \<Rightarrow> json" where
  "criterion_json c =
     JObj ((''fact'', JStr (fact_name (fact c))) #
           optional_prop ''artifact'' (\<lambda>a. JStr (artifact_name a)) (artifact c))"

definition delivery_json :: "expected_delivery \<Rightarrow> json" where
  "delivery_json d =
     JObj ([(''kind'', JStr (delivery_kind_name (delivery_kind d))),
            (''completionCriteria'', JArr (map criterion_json (completionCriteria d)))] @
           optional_prop ''requiredArtifacts'' (\<lambda>as. JArr (map (JStr \<circ> artifact_name) as))
             (requiredArtifacts d) @
           optional_prop ''targetCanvasId'' JStr (targetCanvasId d))"

definition event_object :: "string \<Rightarrow> string \<Rightarrow> (string \<times> json) list \<Rightarrow> json" where
  "event_object kind threadId ps =
     JObj ([(''kind'', JStr kind), (''threadId'', JStr threadId)] @ ps)"

fun codex_event_json :: "codex_event \<Rightarrow> json" where
  "codex_event_json (ThreadStarted t sdk) =
     event_object ''thread_started'' t [(''sdkThreadId'', JStr sdk)]"
| "codex_event_json (TurnStarted t u) = event_object ''turn_started'' t [(''turnId'', JStr u)]"
| "codex_event_json (ItemStarted t u e) =
     event_object ''item_started'' t [(''turnId'', JStr u), (''event'', thread_event_json e)]"
| "codex_event_json (ItemUpdated t u e) =
     event_object ''item_updated'' t [(''turnId'', JStr u), (''event'', thread_event_json e)]"
| "codex_event_json (ItemCompleted t u e) =
     event_object ''item_completed'' t [(''turnId'', JStr u), (''event'', thread_event_json e)]"
| "codex_event_json (FinalDecision t u m d) =
     event_object ''final_decision'' t
       [(''turnId'', JStr u), (''message'', JStr m), (''expectedDelivery'', delivery_json d)]"
| "codex_event_json (TurnCompleted t u e) =
     event_object ''turn_completed'' t [(''turnId'', JStr u), (''event'', thread_event_json e)]"
| "codex_event_json (TurnFailed t u m e) =
     event_object ''turn_failed'' t
       ([(''turnId'', JStr u), (''message'', JStr m)] @
        optional_prop ''event'' thread_event_json e)"
| "codex_event_json (TurnCancelled t u) =
     event_object ''turn_cancelled'' t [(''turnId'', JStr u)]"

subsection \<open>The check of a stored event\<close>

fun isExpectedDelivery :: "json option \<Rightarrow> bool" where
  "isExpectedDelivery value =
     (case value of
        Some (JObj ps) \<Rightarrow>
          is_string (map_of ps ''kind'') \<and>
          (case map_of ps ''completionCriteria'' of
             Some (JArr cs) \<Rightarrow>
               \<not> length cs < 1 \<and>
               list_all (\<lambda>c. isRecord (Some c) \<and> is_string (js_prop c ''fact'')) cs
           | _ \<Rightarrow> False)
      | _ \<Rightarrow> False)"

definition has_event_type :: "json \<Rightarrow> bool" where
  "has_event_type v =
     (isRecord (js_prop v ''event'') \<and>
      is_string (js_prop (the (js_prop v ''event'')) ''type''))"

fun isNormalizedCodexEvent :: "json \<Rightarrow> bool" where
  "isNormalizedCodexEvent v =
     (case js_prop v ''kind'' of
        Some (JStr kind) \<Rightarrow>
          is_string (js_prop v ''threadId'') \<and>
          (if kind = ''thread_started'' then is_string (js_prop v ''sdkThreadId'')
           else if kind \<in> {''turn_started'', ''turn_cancelled''}
           then is_string (js_prop v ''turnId'')
           else if kind \<in> {''item_started'', ''item_updated'', ''item_completed'',
                         ''turn_completed''}
           then is_string (js_prop v ''turnId'') \<and> has_event_type v
           else if kind = ''final_decision''
           then is_string (js_prop v ''turnId'') \<and> is_string (js_prop v ''message'') \<and>
                isExpectedDelivery (js_prop v ''expectedDelivery'')
           else if kind = ''turn_failed''
           then is_string (js_prop v ''turnId'') \<and> is_string (js_prop v ''message'') \<and>
                (js_prop v ''event'' = None \<or> has_event_type v)
           else False)
      | _ \<Rightarrow> False)"

declare isExpectedDelivery.simps [simp del] isNormalizedCodexEvent.simps [simp del]

lemma is_string_type_thread_event [simp]:
  "isRecord (Some (thread_event_json e))" "is_string (js_prop (thread_event_json e) ''type'')"
  by (cases e; simp)+

lemma isRecord_criterion [simp]:
  "isRecord (Some (criterion_json c))" "is_string (js_prop (criterion_json c) ''fact'')"
  by (simp_all add: criterion_json_def)

lemma isExpectedDelivery_delivery [simp]:
  "isExpectedDelivery (Some (delivery_json d)) \<longleftrightarrow> completionCriteria d \<noteq> []"
  by (cases "completionCriteria d")
    (simp_all add: isExpectedDelivery.simps delivery_json_def list_all_iff)

lemma js_prop_event_object [simp]:
  "js_prop (event_object kind t ps) k =
     (if k = ''kind'' then Some (JStr kind) else if k = ''threadId'' then Some (JStr t)
      else map_of ps k)"
  by (simp add: event_object_def)

lemma isNormalizedCodexEvent_json:
  "isNormalizedCodexEvent (codex_event_json e) \<longleftrightarrow>
     (\<forall>t u m d. e = FinalDecision t u m d \<longrightarrow> completionCriteria d \<noteq> [])"
proof (cases e)
  case (TurnFailed t u m ev)
  then show ?thesis
    by (cases ev) (simp_all add: isNormalizedCodexEvent.simps has_event_type_def)
qed (simp_all add: isNormalizedCodexEvent.simps has_event_type_def)

text \<open>
  The check applied to stored events accepts every event the agent can produce, except a
  final decision without completion criteria.
\<close>

lemma stored_event_check:
  "isNormalizedCodexEvent (codex_event_json e) \<longleftrightarrow>
     (case e of FinalDecision t u m d \<Rightarrow> completionCriteria d \<noteq> [] | _ \<Rightarrow> True)"
  unfolding isNormalizedCodexEvent_json by (cases e) simp_all

subsection \<open>Valid records\<close>

text \<open>
  \<open>isodate\<close> is the schema's check of a timestamp, \<^verbatim>\<open>z.iso.datetime({ offset: true })\<close>.
\<close>

definition stored_attachment_valid :: "stored_attachment \<Rightarrow> bool" where
  "stored_attachment_valid a =
     (bounded_text 1 240 (sa_name a) \<and> bounded_text 1 255 (sa_mimeType a))"

definition turn_valid :: "(string \<Rightarrow> bool) \<Rightarrow> turn_record \<Rightarrow> bool" where
  "turn_valid isodate t =
     (bounded_text 1 240 (tn_turnId t) \<and>
      bounded_text 1 (64 * 1024) (tn_message t) \<and>
      length (tn_attachments t) \<le> 16 \<and> list_all stored_attachment_valid (tn_attachments t) \<and>
      length (tn_events t) \<le> 100000 \<and>
      list_all (\<lambda>e. isNormalizedCodexEvent (codex_event_json e)) (tn_events t) \<and>
      isodate (tn_createdAt t) \<and> optional_valid isodate (tn_completedAt t) \<and>
      optional_valid (bounded_text 1 (8 * 1024)) (tn_errorMessage t))"

definition thread_valid :: "(string \<Rightarrow> bool) \<Rightarrow> thread_record \<Rightarrow> bool" where
  "thread_valid isodate r =
     (bounded_text 1 240 (th_threadId r) \<and>
      optional_valid (bounded_text 1 240) (th_sdkThreadId r) \<and>
      bounded_text 1 240 (th_canvasId r) \<and>
      bounded_text 1 4096 (th_workspaceRoot r) \<and>
      bounded_text 1 240 (th_model r) \<and>
      isodate (th_createdAt r) \<and> isodate (th_updatedAt r) \<and> optional_valid isodate (th_archivedAt r) \<and>
      length (th_turns r) \<le> 10000 \<and> list_all (turn_valid isodate) (th_turns r))"

definition parseThreadRecord ::
  "(string \<Rightarrow> bool) \<Rightarrow> thread_record \<Rightarrow> thread_record option" where
  "parseThreadRecord isodate r = (if thread_valid isodate r then Some r else None)"

text \<open>
  What a restart does to the turns it finds running.
\<close>

definition interrupted_notice :: string where
  "interrupted_notice = ''the local agent process was interrupted before the turn completed''"

definition recover_turn :: "string \<Rightarrow> turn_record \<Rightarrow> turn_record" where
  "recover_turn completedAt t =
     (if tn_status t \<noteq> Running then t
      else t\<lparr>tn_status := TurnError, tn_completedAt := Some completedAt,
             tn_errorMessage := Some interrupted_notice\<rparr>)"

definition running_turns :: "thread_record \<Rightarrow> nat" where
  "running_turns r = length (filter (\<lambda>t. tn_status t = Running) (th_turns r))"

definition recoverRecord :: "thread_record \<Rightarrow> string \<Rightarrow> thread_record \<times> nat" where
  "recoverRecord r completedAt =
     (let recovered = running_turns r;
          turns = map (recover_turn completedAt) (th_turns r)
      in (if recovered = 0 then r else r\<lparr>th_turns := turns, th_updatedAt := completedAt\<rparr>,
          recovered))"

lemma running_turns_0_iff: "running_turns r = 0 \<longleftrightarrow> (\<forall>t \<in> set (th_turns r). tn_status t \<noteq> Running)"
  by (auto simp: running_turns_def filter_empty_conv)

lemma recover_turn_not_running [simp]: "tn_status (recover_turn c t) \<noteq> Running"
  by (simp add: recover_turn_def)

lemma recover_turn_id: "tn_status t \<noteq> Running \<Longrightarrow> recover_turn c t = t"
  by (simp add: recover_turn_def)

lemma recoverRecord_no_running: "running_turns (fst (recoverRecord r c)) = 0"
proof (cases "running_turns r = 0")
  case True
  then show ?thesis by (simp add: recoverRecord_def)
next
  case False
  then show ?thesis by (simp add: recoverRecord_def Let_def) (auto simp: running_turns_0_iff)
qed

lemma recoverRecord_frame [simp]:
  "th_threadId (fst (recoverRecord r c)) = th_threadId r"
  "th_canvasId (fst (recoverRecord r c)) = th_canvasId r"
  "th_sdkThreadId (fst (recoverRecord r c)) = th_sdkThreadId r"
  "th_archivedAt (fst (recoverRecord r c)) = th_archivedAt r"
  "snd (recoverRecord r c) = running_turns r"
  by (simp_all add: recoverRecord_def Let_def)

lemma recoverRecord_turns: "th_turns (fst (recoverRecord r c)) = map (recover_turn c) (th_turns r)"
  by (auto simp: recoverRecord_def Let_def running_turns_0_iff recover_turn_id intro!: map_idI [symmetric])

lemma recover_turn_valid: "isodate c \<Longrightarrow> turn_valid isodate t \<Longrightarrow> turn_valid isodate (recover_turn c t)"
  by (simp add: turn_valid_def recover_turn_def bounded_text_def interrupted_notice_def)

lemma recoverRecord_valid:
  "isodate c \<Longrightarrow> thread_valid isodate r \<Longrightarrow> thread_valid isodate (fst (recoverRecord r c))"
  by (auto simp: recoverRecord_def Let_def thread_valid_def list_all_iff recover_turn_valid)

end
