(* ===== verification/ThreadStore.thy ===== *)
theory ThreadStore
  imports CodexEvents
begin

text \<open>
  The two stores of thread records of \<^verbatim>\<open>canvas-agent/src/codex-thread-store.ts\<close>: in memory, and in
  a JSON file. \<open>thread_store\<close> is the interface \<^verbatim>\<open>CodexThreadStore\<close> with the laws its clients rely
  on; both stores are instances. \<open>isodate\<close> is the timestamp check of the schema and \<open>collate\<close>
  the sort key behind \<^verbatim>\<open>localeCompare\<close>. The file store runs its operations one at a time
  (\<^verbatim>\<open>#serialize\<close>), so an operation is one step of its state.
\<close>

datatype store_error =
  RecordInvalid | ThreadExists | ThreadMissing | NotRegularFile | WrongFileMode
| DocumentInvalid | DuplicateThreadId

definition find_thread :: "string \<Rightarrow> thread_record list \<Rightarrow> thread_record option" where
  "find_thread threadId rs = find (\<lambda>r. th_threadId r = threadId) rs"

abbreviation thread_ids :: "thread_record list \<Rightarrow> string list" where
  "thread_ids rs \<equiv> map th_threadId rs"

text \<open>A stable sort, latest update first.\<close>

definition sortAndClone :: "(string \<Rightarrow> int) \<Rightarrow> thread_record list \<Rightarrow> thread_record list" where
  "sortAndClone collate rs = rev (sort_key (\<lambda>r. collate (th_updatedAt r)) (rev rs))"

definition replace_thread :: "thread_record \<Rightarrow> thread_record list \<Rightarrow> thread_record list" where
  "replace_thread r rs = map (\<lambda>x. if th_threadId x = th_threadId r then r else x) rs"

lemma replace_thread_new: "th_threadId r \<notin> set (thread_ids rs) \<Longrightarrow> replace_thread r rs = rs"
  by (induction rs) (auto simp: replace_thread_def)

lemma thread_ids_replace [simp]: "thread_ids (replace_thread r rs) = thread_ids rs"
  by (auto simp: replace_thread_def)

lemma length_replace_thread [simp]: "length (replace_thread r rs) = length rs"
  by (simp add: replace_thread_def)

lemma replace_thread_valid: "list_all p rs \<Longrightarrow> p r \<Longrightarrow> list_all p (replace_thread r rs)"
  by (auto simp: replace_thread_def list_all_iff)

text \<open>
  The interface a thread service is given: the operations as functions on the state of a store.
\<close>

record 's store_port =
  port_create :: "thread_record \<Rightarrow> 's \<Rightarrow> (store_error, unit) result \<times> 's"
  port_get :: "string \<Rightarrow> 's \<Rightarrow> (store_error, thread_record option) result"
  port_list :: "string \<Rightarrow> 's \<Rightarrow> (store_error, thread_record list) result"
  port_save :: "thread_record \<Rightarrow> 's \<Rightarrow> (store_error, unit) result \<times> 's"
  port_recover :: "string \<Rightarrow> 's \<Rightarrow> (store_error, nat) result \<times> 's"

subsection \<open>The store in memory\<close>

type_synonym memory_store = "(string, thread_record) js_map"

definition mem_create ::
  "(string \<Rightarrow> bool) \<Rightarrow> thread_record \<Rightarrow> memory_store \<Rightarrow> (store_error, unit) result \<times> memory_store"
where
  "mem_create isodate record m =
     (case parseThreadRecord isodate record of
        None \<Rightarrow> (throws RecordInvalid, m)
      | Some validated \<Rightarrow>
          if js_has m (th_threadId validated) then (throws ThreadExists, m)
          else (returns (), js_set m (th_threadId validated) validated))"

definition mem_get :: "string \<Rightarrow> memory_store \<Rightarrow> (store_error, thread_record option) result" where
  "mem_get threadId m = returns (js_get m threadId)"

definition mem_list ::
  "(string \<Rightarrow> int) \<Rightarrow> string \<Rightarrow> memory_store \<Rightarrow> (store_error, thread_record list) result" where
  "mem_list collate canvasId m =
     returns (sortAndClone collate (filter (\<lambda>r. th_canvasId r = canvasId) (js_values m)))"

definition mem_save ::
  "(string \<Rightarrow> bool) \<Rightarrow> thread_record \<Rightarrow> memory_store \<Rightarrow> (store_error, unit) result \<times> memory_store"
where
  "mem_save isodate record m =
     (case parseThreadRecord isodate record of
        None \<Rightarrow> (throws RecordInvalid, m)
      | Some validated \<Rightarrow>
          if \<not> js_has m (th_threadId validated) then (throws ThreadMissing, m)
          else (returns (), js_set m (th_threadId validated) validated))"

text \<open>
  The loop over the map, which sets the entry it visits: the entries are those the loop started
  with.
\<close>

definition mem_recover ::
  "string \<Rightarrow> memory_store \<Rightarrow> (store_error, nat) result \<times> memory_store" where
  "mem_recover completedAt m =
     (let (n, m') = foldl (\<lambda>(n, m') (threadId, record).
             (n + snd (recoverRecord record completedAt),
              js_set m' threadId (fst (recoverRecord record completedAt)))) (0, m) m
      in (returns n, m'))"

definition memory_port :: "(string \<Rightarrow> bool) \<Rightarrow> (string \<Rightarrow> int) \<Rightarrow> memory_store store_port" where
  "memory_port isodate collate =
     \<lparr>port_create = mem_create isodate, port_get = mem_get, port_list = mem_list collate,
      port_save = mem_save isodate, port_recover = mem_recover\<rparr>"

subsection \<open>The store in a file\<close>

text \<open>
  A document is either text that is not JSON of the schema's shape, or a version with threads.
  \<open>permissions\<close> are the mode bits under \<^verbatim>\<open>0o777\<close>.
\<close>

datatype document = Garbage | Document int "thread_record list"

datatype file_node = Missing | SpecialFile | RegularFile nat document

record store_files =
  target :: file_node
  temporary :: file_node

definition storeDocument_valid :: "(string \<Rightarrow> bool) \<Rightarrow> int \<Rightarrow> thread_record list \<Rightarrow> bool" where
  "storeDocument_valid isodate version threads =
     (version = 1 \<and> length threads \<le> 100000 \<and> list_all (thread_valid isodate) threads)"

definition file_load ::
  "(string \<Rightarrow> bool) \<Rightarrow> bool \<Rightarrow> store_files \<Rightarrow> (store_error, thread_record list) result" where
  "file_load isodate posix f =
     (case target f of
        Missing \<Rightarrow> returns []
      | SpecialFile \<Rightarrow> throws NotRegularFile
      | RegularFile permissions content \<Rightarrow>
          if posix \<and> permissions \<noteq> 384 then throws WrongFileMode
          else
            (case content of
               Garbage \<Rightarrow> throws DocumentInvalid
             | Document version threads \<Rightarrow>
                 if \<not> storeDocument_valid isodate version threads then throws DocumentInvalid
                 else if \<not> distinct (thread_ids threads) then throws DuplicateThreadId
                 else returns threads))"

text \<open>
  The steps of a write, each one system call. \<open>384\<close> is \<^verbatim>\<open>0o600\<close>; \<open>created_mode\<close>
  is what the process mask leaves of the bits a new file is created with.
\<close>

datatype write_step = MakeParent | WriteTemporary nat document | ChmodTemporary | Rename | ChmodTarget

fun write_exec :: "store_files \<Rightarrow> write_step \<Rightarrow> store_files" where
  "write_exec f MakeParent = f"
| "write_exec f (WriteTemporary permissions d) = f\<lparr>temporary := RegularFile permissions d\<rparr>"
| "write_exec f ChmodTemporary =
     (case temporary f of
        RegularFile _ d \<Rightarrow> f\<lparr>temporary := RegularFile 384 d\<rparr> | _ \<Rightarrow> f)"
| "write_exec f Rename = f\<lparr>target := temporary f, temporary := Missing\<rparr>"
| "write_exec f ChmodTarget =
     (case target f of RegularFile _ d \<Rightarrow> f\<lparr>target := RegularFile 384 d\<rparr> | _ \<Rightarrow> f)"

definition write_steps :: "bool \<Rightarrow> nat \<Rightarrow> thread_record list \<Rightarrow> write_step list" where
  "write_steps posix created_mode threads =
     [MakeParent, WriteTemporary created_mode (Document 1 threads)] @
     (if posix then [ChmodTemporary] else []) @ [Rename] @
     (if posix then [ChmodTarget] else [])"

definition file_write ::
  "(string \<Rightarrow> bool) \<Rightarrow> bool \<Rightarrow> nat \<Rightarrow> thread_record list \<Rightarrow> store_files \<Rightarrow>
     (store_error, unit) result \<times> store_files" where
  "file_write isodate posix created_mode records f =
     (if \<not> storeDocument_valid isodate 1 records then (throws DocumentInvalid, f)
      else (returns (), foldl write_exec f (write_steps posix created_mode records)))"

definition file_create ::
  "(string \<Rightarrow> bool) \<Rightarrow> bool \<Rightarrow> nat \<Rightarrow> thread_record \<Rightarrow> store_files \<Rightarrow>
     (store_error, unit) result \<times> store_files" where
  "file_create isodate posix created_mode record f =
     (case file_load isodate posix f of
        Inl e \<Rightarrow> (throws e, f)
      | Inr records \<Rightarrow>
          (case parseThreadRecord isodate record of
             None \<Rightarrow> (throws RecordInvalid, f)
           | Some validated \<Rightarrow>
               if list_ex (\<lambda>current. th_threadId current = th_threadId validated) records
               then (throws ThreadExists, f)
               else file_write isodate posix created_mode (records @ [validated]) f))"

definition file_get ::
  "(string \<Rightarrow> bool) \<Rightarrow> bool \<Rightarrow> string \<Rightarrow> store_files \<Rightarrow>
     (store_error, thread_record option) result" where
  "file_get isodate posix threadId f =
     and_then (file_load isodate posix f) (\<lambda>records. returns (find_thread threadId records))"

definition file_list ::
  "(string \<Rightarrow> bool) \<Rightarrow> (string \<Rightarrow> int) \<Rightarrow> bool \<Rightarrow> string \<Rightarrow> store_files \<Rightarrow>
     (store_error, thread_record list) result" where
  "file_list isodate collate posix canvasId f =
     and_then (file_load isodate posix f)
       (\<lambda>records. returns (sortAndClone collate (filter (\<lambda>r. th_canvasId r = canvasId) records)))"

fun find_index :: "('a \<Rightarrow> bool) \<Rightarrow> 'a list \<Rightarrow> nat option" where
  "find_index p [] = None"
| "find_index p (x # xs) = (if p x then Some 0 else map_option Suc (find_index p xs))"

definition file_save ::
  "(string \<Rightarrow> bool) \<Rightarrow> bool \<Rightarrow> nat \<Rightarrow> thread_record \<Rightarrow> store_files \<Rightarrow>
     (store_error, unit) result \<times> store_files" where
  "file_save isodate posix created_mode record f =
     (case file_load isodate posix f of
        Inl e \<Rightarrow> (throws e, f)
      | Inr records \<Rightarrow>
          (case parseThreadRecord isodate record of
             None \<Rightarrow> (throws RecordInvalid, f)
           | Some validated \<Rightarrow>
               (case find_index (\<lambda>current. th_threadId current = th_threadId validated) records of
                  None \<Rightarrow> (throws ThreadMissing, f)
                | Some index \<Rightarrow>
                    file_write isodate posix created_mode (records[index := validated]) f)))"

definition file_recover ::
  "(string \<Rightarrow> bool) \<Rightarrow> bool \<Rightarrow> nat \<Rightarrow> string \<Rightarrow> store_files \<Rightarrow>
     (store_error, nat) result \<times> store_files" where
  "file_recover isodate posix created_mode completedAt f =
     (case file_load isodate posix f of
        Inl e \<Rightarrow> (throws e, f)
      | Inr records \<Rightarrow>
          let results = map (\<lambda>r. recoverRecord r completedAt) records;
              recovered = sum_list (map snd results)
          in if recovered > 0
             then (case file_write isodate posix created_mode (map fst results) f of
                     (Inl e, f') \<Rightarrow> (throws e, f')
                   | (Inr _, f') \<Rightarrow> (returns recovered, f'))
             else (returns recovered, f))"

definition file_port ::
  "(string \<Rightarrow> bool) \<Rightarrow> (string \<Rightarrow> int) \<Rightarrow> bool \<Rightarrow> nat \<Rightarrow> store_files store_port" where
  "file_port isodate collate posix created_mode =
     \<lparr>port_create = file_create isodate posix created_mode, port_get = file_get isodate posix,
      port_list = file_list isodate collate posix,
      port_save = file_save isodate posix created_mode,
      port_recover = file_recover isodate posix created_mode\<rparr>"

subsection \<open>The specification\<close>

text \<open>
  What a store does, on the list of its records.
\<close>

datatype store_op =
  CreateThread thread_record | GetThread string | ListThreads string | SaveThread thread_record
| RecoverTurns string

datatype store_answer =
  Done | Found "thread_record option" | Listed "thread_record list" | Recovered nat
| Failed store_error

fun store_spec ::
  "(string \<Rightarrow> bool) \<Rightarrow> (string \<Rightarrow> int) \<Rightarrow> store_op \<Rightarrow> thread_record list \<Rightarrow>
     store_answer \<times> thread_record list" where
  "store_spec isodate collate (CreateThread r) rs =
     (if \<not> thread_valid isodate r then (Failed RecordInvalid, rs)
      else if th_threadId r \<in> set (thread_ids rs) then (Failed ThreadExists, rs)
      else (Done, rs @ [r]))"
| "store_spec isodate collate (GetThread k) rs = (Found (find_thread k rs), rs)"
| "store_spec isodate collate (ListThreads c) rs =
     (Listed (sortAndClone collate (filter (\<lambda>r. th_canvasId r = c) rs)), rs)"
| "store_spec isodate collate (SaveThread r) rs =
     (if \<not> thread_valid isodate r then (Failed RecordInvalid, rs)
      else if th_threadId r \<notin> set (thread_ids rs) then (Failed ThreadMissing, rs)
      else (Done, replace_thread r rs))"
| "store_spec isodate collate (RecoverTurns t) rs =
     (Recovered (sum_list (map running_turns rs)), map (\<lambda>r. fst (recoverRecord r t)) rs)"

fun answer_of :: "('a \<Rightarrow> store_answer) \<Rightarrow> (store_error, 'a) result \<Rightarrow> store_answer" where
  "answer_of f (Inl e) = Failed e"
| "answer_of f (Inr x) = f x"

fun perform :: "'s store_port \<Rightarrow> store_op \<Rightarrow> 's \<Rightarrow> store_answer \<times> 's" where
  "perform p (CreateThread r) s = apfst (answer_of (\<lambda>_. Done)) (port_create p r s)"
| "perform p (GetThread k) s = (answer_of Found (port_get p k s), s)"
| "perform p (ListThreads c) s = (answer_of Listed (port_list p c s), s)"
| "perform p (SaveThread r) s = apfst (answer_of (\<lambda>_. Done)) (port_save p r s)"
| "perform p (RecoverTurns t) s = apfst (answer_of Recovered) (port_recover p t s)"

fun perform_all :: "'s store_port \<Rightarrow> store_op list \<Rightarrow> 's \<Rightarrow> store_answer list \<times> 's" where
  "perform_all p [] s = ([], s)"
| "perform_all p (x # xs) s =
     (let (a, s1) = perform p x s; (as, s2) = perform_all p xs s1 in (a # as, s2))"

fun spec_all ::
  "(string \<Rightarrow> bool) \<Rightarrow> (string \<Rightarrow> int) \<Rightarrow> store_op list \<Rightarrow> thread_record list \<Rightarrow>
     store_answer list \<times> thread_record list" where
  "spec_all isodate collate [] rs = ([], rs)"
| "spec_all isodate collate (x # xs) rs =
     (let (a, rs1) = store_spec isodate collate x rs;
          (as, rs2) = spec_all isodate collate xs rs1 in (a # as, rs2))"

definition dates_ok :: "(string \<Rightarrow> bool) \<Rightarrow> store_op list \<Rightarrow> bool" where
  "dates_ok isodate ops = list_all (\<lambda>x. case x of RecoverTurns t \<Rightarrow> isodate t | _ \<Rightarrow> True) ops"

lemma store_spec_length:
  "length (snd (store_spec isodate collate x rs)) \<le> Suc (length rs)"
  by (cases x) auto

subsection \<open>The contract\<close>

text \<open>
  \<open>records\<close> is the abstract state: the records in the order they were created. A law is claimed
  in states of \<open>inv\<close>; a store may be full at 100000 threads.
\<close>

locale thread_store =
  fixes isodate :: "string \<Rightarrow> bool"
    and collate :: "string \<Rightarrow> int"
    and port :: "'s store_port"
    and records :: "'s \<Rightarrow> thread_record list"
    and inv :: "'s \<Rightarrow> bool"
  assumes ids_distinct: "inv s \<Longrightarrow> distinct (thread_ids (records s))"
    and create_new: "\<lbrakk>inv s; thread_valid isodate r; th_threadId r \<notin> set (thread_ids (records s));
        length (records s) < 100000\<rbrakk> \<Longrightarrow>
        fst (port_create port r s) = returns () \<and> records (snd (port_create port r s)) = records s @ [r] \<and>
        inv (snd (port_create port r s))"
    and create_old: "\<lbrakk>inv s; thread_valid isodate r; th_threadId r \<in> set (thread_ids (records s))\<rbrakk> \<Longrightarrow>
        port_create port r s = (throws ThreadExists, s)"
    and create_invalid: "\<lbrakk>inv s; \<not> thread_valid isodate r\<rbrakk> \<Longrightarrow> port_create port r s = (throws RecordInvalid, s)"
    and get_records: "inv s \<Longrightarrow> port_get port k s = returns (find_thread k (records s))"
    and list_records: "inv s \<Longrightarrow> port_list port c s =
        returns (sortAndClone collate (filter (\<lambda>r. th_canvasId r = c) (records s)))"
    and save_old: "\<lbrakk>inv s; thread_valid isodate r; th_threadId r \<in> set (thread_ids (records s))\<rbrakk> \<Longrightarrow>
        fst (port_save port r s) = returns () \<and> records (snd (port_save port r s)) = replace_thread r (records s) \<and>
        inv (snd (port_save port r s))"
    and save_new: "\<lbrakk>inv s; thread_valid isodate r; th_threadId r \<notin> set (thread_ids (records s))\<rbrakk> \<Longrightarrow>
        port_save port r s = (throws ThreadMissing, s)"
    and save_invalid: "\<lbrakk>inv s; \<not> thread_valid isodate r\<rbrakk> \<Longrightarrow> port_save port r s = (throws RecordInvalid, s)"
    and recover_records: "\<lbrakk>inv s; isodate t\<rbrakk> \<Longrightarrow>
        fst (port_recover port t s) = returns (sum_list (map running_turns (records s))) \<and>
        records (snd (port_recover port t s)) = map (\<lambda>r. fst (recoverRecord r t)) (records s) \<and>
        inv (snd (port_recover port t s))"
begin

lemma find_thread_replace:
  "find_thread k (replace_thread r rs) =
     (if k = th_threadId r \<and> k \<in> set (thread_ids rs) then Some r else find_thread k rs)"
  by (induction rs) (auto simp: find_thread_def replace_thread_def)

text \<open>What was saved is what is read; the other threads are as before.\<close>

lemma get_save:
  assumes "inv s" and "thread_valid isodate r" and "th_threadId r \<in> set (thread_ids (records s))"
  shows "port_get port k (snd (port_save port r s)) = (if k = th_threadId r then returns (Some r) else port_get port k s)"
  using save_old [OF assms] assms
  by (simp add: get_records find_thread_replace)

lemma find_thread_notin: "k \<notin> set (thread_ids rs) \<Longrightarrow> find_thread k rs = None"
  by (induction rs) (auto simp: find_thread_def)

lemma get_create:
  assumes "inv s" and "thread_valid isodate r" and "th_threadId r \<notin> set (thread_ids (records s))"
    and "length (records s) < 100000"
  shows "port_get port k (snd (port_create port r s)) = (if k = th_threadId r then returns (Some r) else port_get port k s)"
proof -
  have "find_thread k (rs @ [r]) =
      (case find_thread k rs of None \<Rightarrow> if k = th_threadId r then Some r else None | Some x \<Rightarrow> Some x)"
    for rs by (induction rs) (auto simp: find_thread_def)
  then show ?thesis
    using create_new [OF assms] assms find_thread_notin [OF assms(3)]
    by (auto simp: get_records split: option.split)
qed

lemma sum_list_zero: "(\<forall>x \<in> set xs. f x = (0::nat)) \<Longrightarrow> sum_list (map f xs) = 0"
  by (induction xs) auto

text \<open>After a recovery no turn is running, so a second recovery changes nothing.\<close>

lemma recover_settles:
  assumes "inv s" and "isodate t"
  shows "\<forall>r \<in> set (records (snd (port_recover port t s))). running_turns r = 0"
  using recover_records [OF assms] by (auto simp: recoverRecord_no_running)

lemma recover_idempotent:
  assumes "inv s" and "isodate t" and "isodate t'"
  shows "fst (port_recover port t' (snd (port_recover port t s))) = returns 0"
    and "records (snd (port_recover port t' (snd (port_recover port t s)))) = records (snd (port_recover port t s))"
proof -
  let ?s = "snd (port_recover port t s)"
  have inv: "inv ?s" using recover_records [OF assms(1,2)] by blast
  have zero: "\<forall>r \<in> set (records ?s). running_turns r = 0" using assms(1,2) by (rule recover_settles)
  show "fst (port_recover port t' ?s) = returns 0"
    using recover_records [OF inv assms(3)] sum_list_zero [OF zero] by simp
  show "records (snd (port_recover port t' ?s)) = records ?s"
    using recover_records [OF inv assms(3)] zero by (auto simp: recoverRecord_def intro!: map_idI)
qed

lemma recover_keeps_threads:
  assumes "inv s" and "isodate t"
  shows "thread_ids (records (snd (port_recover port t s))) = thread_ids (records s)"
  using recover_records [OF assms] by simp

lemma list_sound:
  assumes "inv s"
  shows "\<exists>rs. port_list port c s = returns rs \<and>
    set rs = {r \<in> set (records s). th_canvasId r = c} \<and>
    sorted_wrt (\<lambda>x y. collate (th_updatedAt y) \<le> collate (th_updatedAt x)) rs"
proof -
  let ?key = "\<lambda>r. collate (th_updatedAt r)"
  let ?rs = "filter (\<lambda>r. th_canvasId r = c) (records s)"
  have "sorted (map ?key (sort_key ?key (rev ?rs)))" by (rule sorted_sort_key)
  then have "sorted_wrt (\<lambda>x y. ?key x \<le> ?key y) (sort_key ?key (rev ?rs))"
    by (simp only: sorted_map)
  then have "sorted_wrt (\<lambda>x y. ?key y \<le> ?key x) (sortAndClone collate ?rs)"
    by (simp only: sortAndClone_def sorted_wrt_rev)
  moreover have "set (sortAndClone collate ?rs) = {r \<in> set (records s). th_canvasId r = c}"
    by (auto simp: sortAndClone_def)
  ultimately show ?thesis using assms by (auto simp: list_records)
qed

text \<open>An operation of a store is the operation of the specification on its records.\<close>

lemma perform_refines:
  assumes "inv s" and "length (records s) < 100000" and "dates_ok isodate [x]"
  shows "fst (perform port x s) = fst (store_spec isodate collate x (records s)) \<and>
    records (snd (perform port x s)) = snd (store_spec isodate collate x (records s)) \<and>
    inv (snd (perform port x s))"
proof (cases x)
  case (CreateThread r)
  with assms create_new [of s r] create_old [of s r] create_invalid [of s r]
  show ?thesis by (auto simp: apfst_def map_prod_def split: prod.split)
next
  case (SaveThread r)
  with assms save_old [of s r] save_new [of s r] save_invalid [of s r]
  show ?thesis by (auto simp: apfst_def map_prod_def split: prod.split)
next
  case (RecoverTurns t)
  with assms recover_records [of s t]
  show ?thesis by (auto simp: dates_ok_def apfst_def map_prod_def split: prod.split)
qed (use assms in \<open>simp_all add: get_records list_records\<close>)

lemma perform_all_refines:
  assumes "inv s" and "length (records s) + length ops \<le> 100000" and "dates_ok isodate ops"
  shows "fst (perform_all port ops s) = fst (spec_all isodate collate ops (records s)) \<and>
    records (snd (perform_all port ops s)) = snd (spec_all isodate collate ops (records s)) \<and>
    inv (snd (perform_all port ops s))"
  using assms
proof (induction ops arbitrary: s)
  case (Cons x ops)
  have step: "fst (perform port x s) = fst (store_spec isodate collate x (records s)) \<and>
      records (snd (perform port x s)) = snd (store_spec isodate collate x (records s)) \<and>
      inv (snd (perform port x s))"
    using Cons.prems by (intro perform_refines) (auto simp: dates_ok_def)
  have len: "length (records (snd (perform port x s))) + length ops \<le> 100000"
    using step store_spec_length [of isodate collate x "records s"] Cons.prems(2) by simp
  have "dates_ok isodate ops" using Cons.prems(3) by (simp add: dates_ok_def)
  with Cons.IH [of "snd (perform port x s)"] step len
  show ?case by (simp add: Let_def case_prod_beta)
qed simp

end

subsection \<open>The store in memory keeps the contract\<close>

definition mem_inv :: "memory_store \<Rightarrow> bool" where
  "mem_inv m \<longleftrightarrow> distinct (js_keys m) \<and> list_all (\<lambda>(k, r). th_threadId r = k) m"

lemma mem_ids: "mem_inv m \<Longrightarrow> thread_ids (js_values m) = js_keys m"
  by (auto simp: mem_inv_def list_all_iff)

lemma mem_find: "mem_inv m \<Longrightarrow> js_get m k = find_thread k (js_values m)"
  by (induction m) (auto simp: mem_inv_def find_thread_def)

lemma mem_set_old:
  "mem_inv m \<Longrightarrow> th_threadId r \<in> set (js_keys m) \<Longrightarrow>
   js_values (js_set m (th_threadId r) r) = replace_thread r (js_values m)"
proof (induction m)
  case (Cons e m)
  obtain k x where e: "e = (k, x)" by (cases e)
  have inv: "mem_inv m" and k: "th_threadId x = k" "k \<notin> set (js_keys m)"
    using Cons.prems(1) e by (auto simp: mem_inv_def)
  show ?case
  proof (cases "k = th_threadId r")
    case True
    then have "replace_thread r (js_values m) = js_values m"
      using k mem_ids [OF inv] by (intro replace_thread_new) metis
    with True e k show ?thesis by (simp add: replace_thread_def)
  next
    case False
    with Cons.IH [OF inv] Cons.prems(2) e k show ?thesis by (simp add: replace_thread_def)
  qed
qed simp

lemma mem_set_inv: "mem_inv m \<Longrightarrow> mem_inv (js_set m (th_threadId r) r)"
  by (auto simp: mem_inv_def list_all_iff set_js_set)

lemma recover_loop:
  "distinct (js_keys (pre @ es)) \<Longrightarrow>
   foldl (\<lambda>(n, m') (k, r). (n + snd (recoverRecord r t), js_set m' k (fst (recoverRecord r t))))
     (n, pre @ es) es =
   (n + sum_list (map running_turns (js_values es)),
    pre @ map (\<lambda>(k, r). (k, fst (recoverRecord r t))) es)"
proof (induction es arbitrary: n pre)
  case (Cons e es)
  obtain k r where e: "e = (k, r)" by (cases e)
  have "k \<notin> set (js_keys pre)" using Cons.prems e by auto
  then have upd: "js_set (pre @ (k, r) # es) k r' = (pre @ [(k, r')]) @ es" for r'
    by (induction pre) auto
  show ?case
    using Cons.prems Cons.IH [of "pre @ [(k, fst (recoverRecord r t))]" "n + running_turns r"]
    by (simp add: e upd)
qed simp

lemma mem_recover_eq:
  "mem_inv m \<Longrightarrow> mem_recover t m =
     (returns (sum_list (map running_turns (js_values m))),
      map (\<lambda>(k, r). (k, fst (recoverRecord r t))) m)"
  using recover_loop [of "[]" m t 0] by (simp add: mem_recover_def mem_inv_def)

lemma mem_recover_inv:
  "mem_inv m \<Longrightarrow> mem_inv (map (\<lambda>(k, r). (k, fst (recoverRecord r t))) m)"
  by (auto simp: mem_inv_def list_all_iff case_prod_beta comp_def)

interpretation memory: thread_store isodate collate "memory_port isodate collate" js_values mem_inv
  for isodate :: "string \<Rightarrow> bool" and collate :: "string \<Rightarrow> int"
proof (unfold_locales, unfold memory_port_def store_port.select_convs)
  fix m :: memory_store and r k t c
  assume inv: "mem_inv m"
  note ids = mem_ids [OF inv]
  show "distinct (thread_ids (js_values m))" unfolding ids using inv by (simp add: mem_inv_def)
  show "thread_valid isodate r \<Longrightarrow> th_threadId r \<notin> set (thread_ids (js_values m)) \<Longrightarrow>
      length (js_values m) < 100000 \<Longrightarrow> fst (mem_create isodate r m) = returns () \<and>
      js_values (snd (mem_create isodate r m)) = js_values m @ [r] \<and>
      mem_inv (snd (mem_create isodate r m))"
    unfolding ids using mem_set_inv [OF inv, of r]
    by (simp add: mem_create_def parseThreadRecord_def js_has_iff js_set_new)
  show "thread_valid isodate r \<Longrightarrow> th_threadId r \<in> set (thread_ids (js_values m)) \<Longrightarrow>
      mem_create isodate r m = (throws ThreadExists, m)"
    unfolding ids by (simp add: mem_create_def parseThreadRecord_def js_has_iff)
  show "\<not> thread_valid isodate r \<Longrightarrow> mem_create isodate r m = (throws RecordInvalid, m)"
    by (simp add: mem_create_def parseThreadRecord_def)
  show "mem_get k m = returns (find_thread k (js_values m))"
    using mem_find [OF inv] by (simp add: mem_get_def)
  show "mem_list collate c m =
      returns (sortAndClone collate (filter (\<lambda>r. th_canvasId r = c) (js_values m)))"
    by (simp add: mem_list_def)
  show "thread_valid isodate r \<Longrightarrow> th_threadId r \<in> set (thread_ids (js_values m)) \<Longrightarrow>
      fst (mem_save isodate r m) = returns () \<and>
      js_values (snd (mem_save isodate r m)) = replace_thread r (js_values m) \<and>
      mem_inv (snd (mem_save isodate r m))"
    unfolding ids using mem_set_inv [OF inv, of r] mem_set_old [OF inv, of r]
    by (simp add: mem_save_def parseThreadRecord_def js_has_iff)
  show "thread_valid isodate r \<Longrightarrow> th_threadId r \<notin> set (thread_ids (js_values m)) \<Longrightarrow>
      mem_save isodate r m = (throws ThreadMissing, m)"
    unfolding ids by (simp add: mem_save_def parseThreadRecord_def js_has_iff)
  show "\<not> thread_valid isodate r \<Longrightarrow> mem_save isodate r m = (throws RecordInvalid, m)"
    by (simp add: mem_save_def parseThreadRecord_def)
  show "fst (mem_recover t m) = returns (sum_list (map running_turns (js_values m))) \<and>
      js_values (snd (mem_recover t m)) = map (\<lambda>r. fst (recoverRecord r t)) (js_values m) \<and>
      mem_inv (snd (mem_recover t m))"
    using mem_recover_eq [OF inv] mem_recover_inv [OF inv] by (simp add: case_prod_beta comp_def)
qed

subsection \<open>The store in a file keeps the contract\<close>

definition file_records :: "(string \<Rightarrow> bool) \<Rightarrow> bool \<Rightarrow> store_files \<Rightarrow> thread_record list" where
  "file_records isodate posix f =
     (case file_load isodate posix f of Inl e \<Rightarrow> [] | Inr records \<Rightarrow> records)"

definition file_inv :: "(string \<Rightarrow> bool) \<Rightarrow> bool \<Rightarrow> store_files \<Rightarrow> bool" where
  "file_inv isodate posix f \<longleftrightarrow>
     file_load isodate posix f = returns (file_records isodate posix f)"

lemma file_load_valid:
  "file_load isodate posix f = returns rs \<Longrightarrow>
   distinct (thread_ids rs) \<and> list_all (thread_valid isodate) rs \<and> length rs \<le> 100000"
  by (auto simp: file_load_def storeDocument_valid_def
      split: file_node.splits document.splits if_splits)

lemma write_steps_target:
  "target (foldl write_exec f (write_steps posix created_mode rs)) =
     RegularFile (if posix then 384 else created_mode) (Document 1 rs)"
  by (simp add: write_steps_def)

lemma file_write_ok:
  assumes "length rs \<le> 100000" and "list_all (thread_valid isodate) rs" and "distinct (thread_ids rs)"
  shows "fst (file_write isodate posix created_mode rs f) = returns () \<and>
    file_records isodate posix (snd (file_write isodate posix created_mode rs f)) = rs \<and>
    file_inv isodate posix (snd (file_write isodate posix created_mode rs f))"
proof -
  have valid: "storeDocument_valid isodate 1 rs" using assms by (simp add: storeDocument_valid_def)
  then have "file_load isodate posix (snd (file_write isodate posix created_mode rs f)) = returns rs"
    using assms(3) by (simp add: file_write_def file_load_def write_steps_target)
  with valid show ?thesis by (simp add: file_write_def file_inv_def file_records_def)
qed

lemma find_index_None_iff: "find_index p xs = None \<longleftrightarrow> (\<forall>x \<in> set xs. \<not> p x)"
  by (induction xs) auto

lemma find_index_replace:
  "distinct (thread_ids rs) \<Longrightarrow>
   find_index (\<lambda>x. th_threadId x = th_threadId r) rs = Some i \<Longrightarrow>
   rs[i := r] = replace_thread r rs"
proof (induction rs arbitrary: i)
  case (Cons x rs)
  show ?case
  proof (cases "th_threadId x = th_threadId r")
    case True
    then have "replace_thread r rs = rs" using Cons.prems by (intro replace_thread_new) auto
    with True Cons.prems show ?thesis by (simp add: replace_thread_def)
  next
    case False
    with Cons show ?thesis by (auto simp: replace_thread_def)
  qed
qed simp

lemma list_ex_id_iff: "list_ex (\<lambda>x. th_threadId x = k) rs \<longleftrightarrow> k \<in> set (thread_ids rs)"
  by (auto simp: list_ex_iff)

interpretation disk: thread_store isodate collate "file_port isodate collate posix created_mode"
  "file_records isodate posix" "file_inv isodate posix"
  for isodate :: "string \<Rightarrow> bool" and collate :: "string \<Rightarrow> int" and posix :: bool and created_mode :: nat
proof (unfold_locales, unfold file_port_def store_port.select_convs)
  fix f :: store_files and r k t c
  assume inv: "file_inv isodate posix f"
  let ?rs = "file_records isodate posix f"
  have load: "file_load isodate posix f = returns ?rs" using inv by (simp add: file_inv_def)
  note valid = file_load_valid [OF load]
  show "distinct (thread_ids ?rs)" using valid by blast
  show "thread_valid isodate r \<Longrightarrow> th_threadId r \<notin> set (thread_ids ?rs) \<Longrightarrow>
      length ?rs < 100000 \<Longrightarrow> fst (file_create isodate posix created_mode r f) = returns () \<and>
      file_records isodate posix (snd (file_create isodate posix created_mode r f)) = ?rs @ [r] \<and>
      file_inv isodate posix (snd (file_create isodate posix created_mode r f))"
    using valid file_write_ok [of "?rs @ [r]" isodate posix created_mode f]
    by (simp add: file_create_def load parseThreadRecord_def list_ex_id_iff)
  show "thread_valid isodate r \<Longrightarrow> th_threadId r \<in> set (thread_ids ?rs) \<Longrightarrow>
      file_create isodate posix created_mode r f = (throws ThreadExists, f)"
    by (simp add: file_create_def load parseThreadRecord_def list_ex_id_iff)
  show "\<not> thread_valid isodate r \<Longrightarrow>
      file_create isodate posix created_mode r f = (throws RecordInvalid, f)"
    by (simp add: file_create_def load parseThreadRecord_def)
  show "file_get isodate posix k f = returns (find_thread k ?rs)"
    by (simp add: file_get_def load)
  show "file_list isodate collate posix c f =
      returns (sortAndClone collate (filter (\<lambda>r. th_canvasId r = c) ?rs))"
    by (simp add: file_list_def load)
  show "thread_valid isodate r \<Longrightarrow> th_threadId r \<in> set (thread_ids ?rs) \<Longrightarrow>
      fst (file_save isodate posix created_mode r f) = returns () \<and>
      file_records isodate posix (snd (file_save isodate posix created_mode r f)) =
        replace_thread r ?rs \<and>
      file_inv isodate posix (snd (file_save isodate posix created_mode r f))"
  proof -
    assume r: "thread_valid isodate r" and old: "th_threadId r \<in> set (thread_ids ?rs)"
    obtain i where i: "find_index (\<lambda>x. th_threadId x = th_threadId r) ?rs = Some i"
      using old find_index_None_iff [of "\<lambda>x. th_threadId x = th_threadId r" ?rs] by fastforce
    have "file_save isodate posix created_mode r f =
        file_write isodate posix created_mode (replace_thread r ?rs) f"
      using find_index_replace [OF _ i] valid r i
      by (simp add: file_save_def load parseThreadRecord_def)
    then show ?thesis
      using file_write_ok [of "replace_thread r ?rs" isodate posix created_mode f] valid
        replace_thread_valid [of "thread_valid isodate" ?rs r] r
      by simp
  qed
  show "thread_valid isodate r \<Longrightarrow> th_threadId r \<notin> set (thread_ids ?rs) \<Longrightarrow>
      file_save isodate posix created_mode r f = (throws ThreadMissing, f)"
  proof -
    assume r: "thread_valid isodate r" and new: "th_threadId r \<notin> set (thread_ids ?rs)"
    have "find_index (\<lambda>x. th_threadId x = th_threadId r) ?rs = None"
      using new by (simp add: find_index_None_iff) (metis image_eqI)
    with r show ?thesis by (simp add: file_save_def load parseThreadRecord_def)
  qed
  show "\<not> thread_valid isodate r \<Longrightarrow>
      file_save isodate posix created_mode r f = (throws RecordInvalid, f)"
    by (simp add: file_save_def load parseThreadRecord_def)
  show "isodate t \<Longrightarrow> fst (file_recover isodate posix created_mode t f) =
        returns (sum_list (map running_turns ?rs)) \<and>
      file_records isodate posix (snd (file_recover isodate posix created_mode t f)) =
        map (\<lambda>r. fst (recoverRecord r t)) ?rs \<and>
      file_inv isodate posix (snd (file_recover isodate posix created_mode t f))"
  proof -
    assume t: "isodate t"
    let ?new = "map (\<lambda>r. fst (recoverRecord r t)) ?rs"
    have new_ids: "thread_ids ?new = thread_ids ?rs" by simp
    have written: "fst (file_write isodate posix created_mode ?new f) = returns () \<and>
        file_records isodate posix (snd (file_write isodate posix created_mode ?new f)) = ?new \<and>
        file_inv isodate posix (snd (file_write isodate posix created_mode ?new f))"
      using valid t new_ids
      by (intro file_write_ok) (auto simp: list_all_iff recoverRecord_valid comp_def)
    have sum: "sum_list (map snd (map (\<lambda>r. recoverRecord r t) ?rs)) =
        sum_list (map running_turns ?rs)"
      by (simp add: comp_def)
    have none: "?new = ?rs" if "sum_list (map running_turns ?rs) = 0"
      using that by (auto simp: recoverRecord_def intro!: map_idI)
    show ?thesis
    proof (cases "sum_list (map running_turns ?rs) = 0")
      case True
      then have zero: "sum_list (map snd (map (\<lambda>r. recoverRecord r t) ?rs)) = 0"
        using sum by (simp only:)
      have "file_recover isodate posix created_mode t f = (returns 0, f)"
        by (simp only: file_recover_def load sum.case Let_def zero less_irrefl if_False)
      then show ?thesis using none [OF True] inv by (simp only: True fst_conv snd_conv simp_thms)
    next
      case False
      then show ?thesis
        using written sum
        by (auto simp: file_recover_def load Let_def comp_def split: prod.split sum.split)
    qed
  qed
qed

subsection \<open>Properties\<close>

definition empty_files :: store_files where
  "empty_files = \<lparr>target = Missing, temporary = Missing\<rparr>"

lemma empty_files_inv: "file_inv isodate posix empty_files"
  and empty_files_records: "file_records isodate posix empty_files = []"
  by (simp_all add: file_inv_def file_records_def file_load_def empty_files_def)

lemma mem_inv_Nil: "mem_inv []"
  by (simp add: mem_inv_def)


text \<open>
  C39. A write replaces the store's file in one step: whatever prefix of its system calls has
  run, the file is the old one or the complete new one, and on a POSIX platform a new one is
  never visible with a mode other than \<^verbatim>\<open>0600\<close>.
\<close>

theorem file_write_is_atomic:
  "target (foldl write_exec f (take n (write_steps posix created_mode records))) \<in>
     {target f, RegularFile (if posix then 384 else created_mode) (Document 1 records)}"
proof -
  consider "n = 0" | "n = 1" | "n = 2" | "n = 3" | "n = 4" | "n \<ge> 5" by linarith
  then show ?thesis by cases (auto simp: write_steps_def take_Cons' numeral_eq_Suc)
qed

text \<open>
  After a restart's recovery the file store holds the same threads, none of them with a
  running turn, and recovering once more finds nothing.
\<close>

lemma file_recovery_settles:
  assumes "file_inv isodate posix f" and "isodate t"
  shows "map th_threadId (file_records isodate posix
        (snd (file_recover isodate posix created_mode t f))) =
      map th_threadId (file_records isodate posix f) \<and>
    (\<forall>r. r \<in> set (file_records isodate posix
        (snd (file_recover isodate posix created_mode t f))) \<longrightarrow> running_turns r = 0) \<and>
    fst (file_recover isodate posix created_mode t
        (snd (file_recover isodate posix created_mode t f))) = returns 0"
proof -
  note laws = disk.recover_keeps_threads [OF assms, of undefined created_mode]
    disk.recover_settles [OF assms, of undefined created_mode]
    disk.recover_idempotent(1) [OF assms assms(2), of undefined created_mode]
  then show ?thesis by (simp add: file_port_def)
qed

subsection \<open>Concrete stores\<close>

definition sample_turn :: turn_record where
  "sample_turn = \<lparr>tn_turnId = ''u'', tn_status = Running, tn_message = ''m'',
     tn_attachments = [], tn_events = [], tn_createdAt = ''d'', tn_completedAt = None,
     tn_errorMessage = None\<rparr>"

definition sample_thread :: "string \<Rightarrow> thread_record" where
  "sample_thread k = \<lparr>th_threadId = k, th_sdkThreadId = None, th_canvasId = ''c'',
     th_workspaceRoot = ''/w'', th_model = ''gpt'', th_createdAt = ''d'', th_updatedAt = ''d'',
     th_archivedAt = None, th_turns = [sample_turn]\<rparr>"

abbreviation sample_date :: "string \<Rightarrow> bool" where
  "sample_date \<equiv> (\<lambda>s. s \<noteq> [])"

lemma sample_thread_valid:
  "k \<noteq> [] \<Longrightarrow> length k \<le> 240 \<Longrightarrow> thread_valid sample_date (sample_thread k)"
  by (cases k) (simp_all add: thread_valid_def sample_thread_def sample_turn_def turn_valid_def
      bounded_text_def)

lemma sample_thread_simps [simp]:
  "th_threadId (sample_thread k) = k"
  "running_turns (sample_thread k) = 1"
  "th_threadId (fst (recoverRecord (sample_thread k) t)) = k"
  by (simp_all add: sample_thread_def running_turns_def sample_turn_def)

definition sample_ops :: "store_op list" where
  "sample_ops = [CreateThread (sample_thread ''a''), CreateThread (sample_thread ''a''),
     RecoverTurns ''e'', GetThread ''b'']"


definition sample_files :: store_files where
  "sample_files = \<lparr>target = RegularFile 384 (Document 1 [sample_thread ''a'']),
     temporary = Missing\<rparr>"

theorem file_recovery_settles_witness:
  "fst (file_recover sample_date True 384 ''e'' sample_files) = returns 1 \<and>
   fst (file_recover sample_date True 384 ''e''
     (snd (file_recover sample_date True 384 ''e'' sample_files))) = returns 0"
proof -
  have load: "file_load sample_date True sample_files = returns [sample_thread ''a'']"
    by (simp add: file_load_def sample_files_def storeDocument_valid_def sample_thread_valid)
  then have inv: "file_inv sample_date True sample_files"
    by (simp add: file_inv_def file_records_def)
  have "thread_valid sample_date (fst (recoverRecord (sample_thread ''a'') ''e''))"
    by (rule recoverRecord_valid) (simp_all add: sample_thread_valid)
  then have "fst (file_recover sample_date True 384 ''e'' sample_files) = returns 1"
    by (simp add: file_recover_def load Let_def file_write_def storeDocument_valid_def)
  with file_recovery_settles [OF inv, of "''e''" 384] show ?thesis by simp
qed

end
