(* ===== verification/PathGuard.thy ===== *)
theory PathGuard
  imports Prelude
begin

text \<open>
  Containment of files in a managed directory, \<^verbatim>\<open>isPathWithin\<close> of
  \<^verbatim>\<open>canvas-agent/src/codex-thread.ts\<close>, on POSIX paths: \<^verbatim>\<open>resolve\<close>, \<^verbatim>\<open>relative\<close> and \<^verbatim>\<open>isAbsolute\<close> of
  Node's \<^verbatim>\<open>path\<close> module are written out for absolute paths. A resolved path is the list of its
  segments.
\<close>

definition isAbsolute :: "string \<Rightarrow> bool" where
  "isAbsolute p = js_starts_with p ''/''"

text \<open>\<^verbatim>\<open>p.split("/")\<close>\<close>

fun split_slash :: "string \<Rightarrow> string list" where
  "split_slash [] = [[]]"
| "split_slash (c # cs) =
     (if c = CHR ''/'' then [] # split_slash cs
      else (case split_slash cs of [] \<Rightarrow> [[c]] | s # ss \<Rightarrow> (c # s) # ss))"

fun resolve_segments :: "string list \<Rightarrow> string list \<Rightarrow> string list" where
  "resolve_segments done [] = rev done"
| "resolve_segments done (s # ss) =
     (if s = [] \<or> s = ''.'' then resolve_segments done ss
      else if s = ''..'' then resolve_segments (tl done) ss
      else resolve_segments (s # done) ss)"

definition resolve_path :: "string \<Rightarrow> string list" where
  "resolve_path p = resolve_segments [] (split_slash p)"

fun join_slash :: "string list \<Rightarrow> string" where
  "join_slash [] = []"
| "join_slash [s] = s"
| "join_slash (s # ss) = s @ CHR ''/'' # join_slash ss"

text \<open>\<^verbatim>\<open>relative(from, to)\<close> of resolved paths.\<close>

fun relative_segments :: "string list \<Rightarrow> string list \<Rightarrow> string list" where
  "relative_segments (f # fs) (t # ts) =
     (if f = t then relative_segments fs ts else map (\<lambda>_. ''..'') (f # fs) @ t # ts)"
| "relative_segments fs ts = map (\<lambda>_. ''..'') fs @ ts"

definition relative_path :: "string list \<Rightarrow> string list \<Rightarrow> string" where
  "relative_path from to = join_slash (relative_segments from to)"

definition isPathWithin :: "string list \<Rightarrow> string list \<Rightarrow> bool" where
  "isPathWithin base target =
     (let child = relative_path base target
      in child \<noteq> [] \<and> child \<noteq> ''..'' \<and> \<not> js_starts_with child ''../'' \<and> \<not> isAbsolute child)"

text \<open>The segments a resolved path can have.\<close>

definition segment :: "string \<Rightarrow> bool" where
  "segment s \<longleftrightarrow> s \<noteq> [] \<and> s \<noteq> ''.'' \<and> s \<noteq> ''..'' \<and> CHR ''/'' \<notin> set s"

lemma split_slash_no_slash: "s \<in> set (split_slash p) \<Longrightarrow> CHR ''/'' \<notin> set s"
proof (induction p arbitrary: s)
  case (Cons c cs)
  then show ?case by (fastforce split: if_splits list.splits)
qed simp

lemma resolve_segments_segment:
  "list_all segment done \<Longrightarrow> \<forall>s \<in> set ss. CHR ''/'' \<notin> set s \<Longrightarrow>
   list_all segment (resolve_segments done ss)"
proof (induction ss arbitrary: "done")
  case (Cons s ss)
  have "list_all segment (tl done)" using Cons.prems(1) by (cases "done") auto
  moreover have "segment s" if "s \<noteq> []" "s \<noteq> ''.''" "s \<noteq> ''..''"
    using that Cons.prems(2) by (simp add: segment_def)
  ultimately show ?case using Cons by simp
qed (simp add: list_all_iff)

lemma resolve_path_segments: "list_all segment (resolve_path p)"
  by (simp add: resolve_path_def resolve_segments_segment split_slash_no_slash)

lemma relative_segments_prefix: "relative_segments base (base @ rest) = rest"
  by (induction base) (cases rest; simp)+

lemma relative_segments_other:
  assumes "\<nexists>rest. target = base @ rest"
  shows "\<exists>rest. relative_segments base target = ''..'' # rest"
  using assms
proof (induction base arbitrary: target)
  case Nil
  then show ?case by auto
next
  case (Cons f fs)
  then show ?case
  proof (cases target)
    case (Cons t ts)
    then show ?thesis using Cons.IH [of ts] Cons.prems by (cases "f = t") auto
  qed simp
qed

lemma join_slash_eq_Nil: "list_all segment ss \<Longrightarrow> join_slash ss = [] \<longleftrightarrow> ss = []"
  by (cases ss rule: join_slash.cases) (auto simp: segment_def)

lemma join_slash_head:
  "join_slash (s # ss) = s \<or> (\<exists>rest. join_slash (s # ss) = s @ CHR ''/'' # rest)"
  by (cases ss) auto

lemma segment_not_parent:
  assumes "segment s"
  shows "join_slash (s # ss) \<noteq> ''..''" and "\<not> js_starts_with (join_slash (s # ss)) ''../''"
    and "\<not> isAbsolute (join_slash (s # ss))"
proof -
  have s: "s \<noteq> []" "s \<noteq> ''..''" "CHR ''/'' \<notin> set s" using assms by (auto simp: segment_def)
  obtain j where j: "join_slash (s # ss) = j" and cases: "j = s \<or> (\<exists>rest. j = s @ CHR ''/'' # rest)"
    using join_slash_head by blast
  have dotdot: "s = ''..''" if "take 3 j = ''../''"
  proof (cases s)
    case (Cons a s')
    show ?thesis using that cases s Cons
      by (cases s'; cases "tl s'") (auto simp: take_Cons' split: if_splits)
  qed (use s in simp)
  show "join_slash (s # ss) \<noteq> ''..''" using cases s j
    by (auto simp: append_eq_Cons_conv)
  show "\<not> js_starts_with (join_slash (s # ss)) ''../''"
    using dotdot s(2) j by (auto simp: js_starts_with_def numeral_eq_Suc)
  show "\<not> isAbsolute (join_slash (s # ss))"
    using cases s j by (cases s) (auto simp: isAbsolute_def js_starts_with_def)
qed

lemma isPathWithin_iff:
  "isPathWithin (resolve_path base) (resolve_path target) \<longleftrightarrow>
     (\<exists>s rest. resolve_path target = resolve_path base @ s # rest)"
proof -
  let ?r = "resolve_path base" and ?t = "resolve_path target"
  have segs: "list_all segment ?t" by (rule resolve_path_segments)
  show ?thesis
  proof (cases "\<exists>rest. ?t = ?r @ rest")
    case True
    then obtain rest where rest: "?t = ?r @ rest" by blast
    then have child: "relative_path ?r ?t = join_slash rest"
      by (simp add: relative_path_def relative_segments_prefix)
    show ?thesis
    proof (cases rest)
      case Nil
      then show ?thesis using child rest by (simp add: isPathWithin_def)
    next
      case (Cons s ss)
      have "segment s" and "list_all segment rest" using segs rest Cons by auto
      then show ?thesis
        using child rest Cons segment_not_parent [of s ss] join_slash_eq_Nil [of rest]
        by (simp add: isPathWithin_def)
    qed
  next
    case False
    then obtain rest where "relative_segments ?r ?t = ''..'' # rest"
      using relative_segments_other by blast
    then have "\<not> isPathWithin ?r ?t"
      using join_slash_head [of "''..''" rest]
      by (auto simp: isPathWithin_def relative_path_def js_starts_with_def)
    with False show ?thesis by blast
  qed
qed

text \<open>
  The test the code applies to the relative path means what it should: the target lies
  strictly below the root, that is, the root's segments are a proper prefix of the target's.
  A segment such as \<^verbatim>\<open>..data\<close> is not mistaken for the parent directory.
\<close>

lemma isPathWithin_iff_below:
  "isPathWithin (resolve_path base) (resolve_path target) \<longleftrightarrow>
     (\<exists>s rest. resolve_path target = resolve_path base @ s # rest)"
  by (rule isPathWithin_iff)

end
