(* ===== verification/ThreadService.thy ===== *)
theory ThreadService
  imports ThreadStore PathGuard
begin

text \<open>
  The threads and turns of the local Codex, \<^verbatim>\<open>CodexThreadService\<close> of
  \<^verbatim>\<open>canvas-agent/src/codex-thread.ts\<close>. The service keeps the set of active turns in memory and
  the records in a store, which it reaches through the port it was given. What it asks of its
  environment is an argument: the workspace configured for a canvas (\<open>workspace_of\<close>), what the
  file system answers (\<open>fs\<close>), the clock and fresh identities, and what the Codex SDK did. An
  \<^verbatim>\<open>async\<close> method runs without interruption between two waits: \<open>begin_check\<close>, \<open>begin_save\<close> and
  \<open>begin_activate\<close> are the stretches of \<^verbatim>\<open>#beginTurn\<close> before the SDK is called, and \<open>beginTurn\<close>
  is their run without interleaving.
\<close>

datatype service_error =
  StoreFailed store_error
| ThreadNotFound | ThreadNotOwned | ThreadArchived | SdkThreadMissing | WorkspaceChanged
| TurnAlreadyActive | ThreadHasActiveTurn | EmptyTurnMessage | EmptyCanvasId
| WorkspaceNotConfigured | WorkspaceNotDirectory | FileSystemError
| TooManyAttachments | AttachmentIncomplete | AttachmentNotManaged | AttachmentNotFile
| SdkThreadConflict | McpToolsActive nat | FinalDecisionMissing
| TurnStartFailed string

record active_turn =
  at_threadId :: string
  at_aborted :: bool

record 's thread_service =
  svc_store :: 's
  activeTurns :: "(string, active_turn) js_map"

subsection \<open>The environment of the Codex process\<close>

definition CODEX_ENVIRONMENT_ALLOWLIST :: "string list" where
  "CODEX_ENVIRONMENT_ALLOWLIST =
     [''APPDATA'', ''CODEX_API_KEY'', ''CODEX_HOME'', ''COMSPEC'', ''HOME'', ''HOMEDRIVE'',
      ''HOMEPATH'', ''HTTP_PROXY'', ''HTTPS_PROXY'', ''LOCALAPPDATA'', ''NO_PROXY'',
      ''OPENAI_API_KEY'', ''OPENAI_BASE_URL'', ''PATH'', ''PATHEXT'', ''SHELL'', ''SSL_CERT_DIR'',
      ''SSL_CERT_FILE'', ''SystemRoot'', ''TEMP'', ''TMP'', ''TMPDIR'', ''USER'', ''USERPROFILE'',
      ''XDG_CACHE_HOME'', ''XDG_CONFIG_HOME'', ''http_proxy'', ''https_proxy'', ''no_proxy'']"

text \<open>An environment maps names to values, some \<^verbatim>\<open>undefined\<close>.\<close>

definition sanitizeCodexEnvironment ::
  "(string, string option) js_map \<Rightarrow> (string, string) js_map" where
  "sanitizeCodexEnvironment source =
     foldl (\<lambda>result (key, value).
         case value of
           Some v \<Rightarrow>
             if key \<in> set CODEX_ENVIRONMENT_ALLOWLIST then js_set result key v else result
         | None \<Rightarrow> result)
       [] source"

record mcp_process_config =
  mcp_command :: string
  mcp_args :: "string list"
  mcp_url :: string
  mcp_token :: string

record mcp_server =
  srv_command :: string
  srv_args :: "string list"
  srv_env :: "(string \<times> string) list"
  srv_env_vars :: "string list"
  srv_enabled_tools :: "string list"

record codex_options =
  co_env :: "(string, string) js_map"
  co_canvasId :: string \<comment> \<open>the canvas the developer instructions name\<close>
  co_server :: mcp_server

definition buildCodexOptions ::
  "mcp_process_config \<Rightarrow> string \<Rightarrow> (string, string) js_map \<Rightarrow> string \<Rightarrow> string \<Rightarrow> string \<Rightarrow>
     codex_options" where
  "buildCodexOptions mcp model environment canvasId threadId turnId =
     \<lparr>co_env = js_set environment ''HMAIGC_CANVAS_AGENT_TOKEN'' (mcp_token mcp),
      co_canvasId = canvasId,
      co_server =
        \<lparr>srv_command = mcp_command mcp,
         srv_args = mcp_args mcp @ [''--thread-id'', threadId, ''--turn-id'', turnId],
         srv_env = [(''HMAIGC_CANVAS_AGENT_URL'', mcp_url mcp), (''HMAIGC_CODEX_MODEL'', model)],
         srv_env_vars = [''HMAIGC_CANVAS_AGENT_TOKEN''],
         srv_enabled_tools = CANVAS_MCP_TOOL_NAMES\<rparr>\<rparr>"

subsection \<open>Workspaces and attachments\<close>

text \<open>
  What \<^verbatim>\<open>lstat\<close> and \<^verbatim>\<open>realpath\<close> answer for a path; no answer is a file system error.
\<close>

record file_facts =
  ff_isDirectory :: bool
  ff_isFile :: bool
  ff_isSymbolicLink :: bool
  ff_realpath :: string

type_synonym file_system = "string \<Rightarrow> file_facts option"

definition normalizeMessage :: "string \<Rightarrow> (service_error, string) result" where
  "normalizeMessage value =
     (let normalized = js_trim value
      in if normalized = [] then throws EmptyTurnMessage else returns normalized)"

definition resolveAndValidateWorkspace ::
  "(string \<Rightarrow> string option) \<Rightarrow> file_system \<Rightarrow> string \<Rightarrow> (service_error, string) result" where
  "resolveAndValidateWorkspace workspace_of fs canvasId =
     (let normalizedCanvasId = js_trim canvasId
      in if normalizedCanvasId = [] then throws EmptyCanvasId
         else
           case workspace_of normalizedCanvasId of
             None \<Rightarrow> throws WorkspaceNotConfigured
           | Some configured \<Rightarrow>
               if configured = [] \<or> \<not> isAbsolute configured then throws WorkspaceNotConfigured
               else
                 (case fs configured of
                    None \<Rightarrow> throws FileSystemError
                  | Some metadata \<Rightarrow>
                      if \<not> ff_isDirectory metadata \<or> ff_isSymbolicLink metadata
                      then throws WorkspaceNotDirectory
                      else returns (ff_realpath metadata)))"

record resolved_attachment =
  ra_kind :: attachment_kind
  ra_name :: string
  ra_mimeType :: string
  ra_localPath :: string

definition absolute_path :: "string list \<Rightarrow> string" where
  "absolute_path segments = CHR ''/'' # join_slash segments"

definition validateAttachment ::
  "string \<Rightarrow> file_system \<Rightarrow> resolved_attachment \<Rightarrow> (service_error, resolved_attachment) result"
where
  "validateAttachment attachmentRoot fs a =
     (if js_trim (ra_name a) = [] \<or> js_trim (ra_mimeType a) = [] \<or> \<not> isAbsolute (ra_localPath a)
      then throws AttachmentIncomplete
      else
        let normalizedPath = resolve_path (ra_localPath a)
        in if \<not> isPathWithin (resolve_path attachmentRoot) normalizedPath
           then throws AttachmentNotManaged
           else
             case fs (absolute_path normalizedPath) of
               None \<Rightarrow> throws FileSystemError
             | Some metadata \<Rightarrow>
                 if \<not> ff_isFile metadata \<or> ff_isSymbolicLink metadata
                 then throws AttachmentNotFile
                 else if \<not> isPathWithin (resolve_path attachmentRoot)
                             (resolve_path (ff_realpath metadata))
                 then throws AttachmentNotManaged
                 else returns (a\<lparr>ra_localPath := ff_realpath metadata\<rparr>))"

definition validateAttachments ::
  "string \<Rightarrow> file_system \<Rightarrow> resolved_attachment list \<Rightarrow>
     (service_error, resolved_attachment list) result" where
  "validateAttachments attachmentRoot fs attachments =
     (if length attachments > 16 then throws TooManyAttachments
      else map_result (validateAttachment attachmentRoot fs) attachments)"

text \<open>
  The input handed to the SDK: the text, with the names and paths of attached files, and the
  attached images.
\<close>

definition buildCodexInput ::
  "string \<Rightarrow> string \<Rightarrow> resolved_attachment list \<Rightarrow> string \<times> string list" where
  "buildCodexInput heading message attachments =
     (let files = filter (\<lambda>a. ra_kind a = FileAttachment) attachments;
          newline = [CHR 0x0A];
          text = (if files = [] then message
                  else message @ newline @ newline @ heading @ newline @
                       js_join newline
                         (map (\<lambda>a. ''- '' @ ra_name a @ '': '' @ ra_localPath a) files));
          images = map ra_localPath (filter (\<lambda>a. ra_kind a = ImageAttachment) attachments)
      in (text, images))"

subsection \<open>Records and turns\<close>

definition requireThread ::
  "'s store_port \<Rightarrow> string \<Rightarrow> 's thread_service \<Rightarrow> (service_error, thread_record) result" where
  "requireThread p threadId s =
     (case port_get p threadId (svc_store s) of
        Inl e \<Rightarrow> throws (StoreFailed e)
      | Inr None \<Rightarrow> throws ThreadNotFound
      | Inr (Some record) \<Rightarrow> returns record)"

definition requireOwnedThread ::
  "'s store_port \<Rightarrow> string \<Rightarrow> string \<Rightarrow> 's thread_service \<Rightarrow> (service_error, thread_record) result"
where
  "requireOwnedThread p canvasId threadId s =
     and_then (requireThread p threadId s)
       (\<lambda>record. if th_canvasId record \<noteq> canvasId then throws ThreadNotOwned else returns record)"

definition store_save ::
  "'s store_port \<Rightarrow> thread_record \<Rightarrow> 's thread_service \<Rightarrow>
     (service_error, unit) result \<times> 's thread_service" where
  "store_save p record s =
     (case port_save p record (svc_store s) of
        (Inl e, st) \<Rightarrow> (throws (StoreFailed e), s\<lparr>svc_store := st\<rparr>)
      | (Inr _, st) \<Rightarrow> (returns (), s\<lparr>svc_store := st\<rparr>))"

definition finish_turn_record ::
  "string \<Rightarrow> turn_status \<Rightarrow> codex_event list \<Rightarrow> string option \<Rightarrow> string \<Rightarrow> turn_record \<Rightarrow>
     turn_record" where
  "finish_turn_record turnId status events failure completedAt turn =
     (if tn_turnId turn \<noteq> turnId then turn
      else
        let base = turn\<lparr>tn_status := status, tn_events := events,
                        tn_completedAt := Some completedAt\<rparr>
        in case failure of None \<Rightarrow> base | Some m \<Rightarrow> base\<lparr>tn_errorMessage := Some m\<rparr>)"

definition finishTurn ::
  "'s store_port \<Rightarrow> string \<Rightarrow> string \<Rightarrow> string \<Rightarrow> turn_status \<Rightarrow> codex_event list \<Rightarrow> string option \<Rightarrow>
     's thread_service \<Rightarrow> (service_error, unit) result \<times> 's thread_service" where
  "finishTurn p now threadId turnId status events failure s =
     (case requireThread p threadId s of
        Inl e \<Rightarrow> (throws e, s)
      | Inr record \<Rightarrow>
          store_save p
            (record\<lparr>th_turns := map (finish_turn_record turnId status events failure now)
                                (th_turns record),
                    th_updatedAt := now\<rparr>) s)"

text \<open>
  \<open>begun_turn\<close> is a turn between the check that admits it and the end of \<^verbatim>\<open>#beginTurn\<close>. The
  record is the one the caller read, which may be out of date by then.
\<close>

record begun_turn =
  bt_record :: thread_record
  bt_turn :: turn_record
  bt_ephemeral :: bool

definition has_active_turn :: "string \<Rightarrow> 's thread_service \<Rightarrow> bool" where
  "has_active_turn threadId s = list_ex (\<lambda>a. at_threadId a = threadId) (js_values (activeTurns s))"

definition begin_check ::
  "string \<Rightarrow> string \<Rightarrow> thread_record \<Rightarrow> string \<Rightarrow> resolved_attachment list \<Rightarrow> bool \<Rightarrow>
     's thread_service \<Rightarrow> (service_error, begun_turn) result" where
  "begin_check turnId now record message attachments ephemeral s =
     and_then (normalizeMessage message) (\<lambda>normalizedMessage.
       if list_ex (\<lambda>t. tn_status t = Running) (th_turns record) \<or>
          has_active_turn (th_threadId record) s
       then throws TurnAlreadyActive
       else returns
         \<lparr>bt_record = record,
          bt_turn =
            \<lparr>tn_turnId = turnId, tn_status = Running, tn_message = normalizedMessage,
             tn_attachments =
               map (\<lambda>a. \<lparr>sa_kind = ra_kind a, sa_name = ra_name a, sa_mimeType = ra_mimeType a\<rparr>)
                 attachments,
             tn_events = [], tn_createdAt = now, tn_completedAt = None, tn_errorMessage = None\<rparr>,
          bt_ephemeral = ephemeral\<rparr>)"

definition begin_save ::
  "'s store_port \<Rightarrow> begun_turn \<Rightarrow> 's thread_service \<Rightarrow>
     (service_error, unit) result \<times> 's thread_service" where
  "begin_save p b s =
     (if bt_ephemeral b then (returns (), s)
      else store_save p
        ((bt_record b)\<lparr>th_updatedAt := tn_createdAt (bt_turn b),
                       th_turns := th_turns (bt_record b) @ [bt_turn b]\<rparr>) s)"

definition begin_activate :: "begun_turn \<Rightarrow> 's thread_service \<Rightarrow> 's thread_service" where
  "begin_activate b s =
     s\<lparr>activeTurns := js_set (activeTurns s) (tn_turnId (bt_turn b))
         \<lparr>at_threadId = th_threadId (bt_record b), at_aborted = False\<rparr>\<rparr>"

text \<open>
  The SDK did not start the turn; \<open>cause\<close> is the text of its error.
\<close>

definition begin_failed ::
  "'s store_port \<Rightarrow> string \<Rightarrow> begun_turn \<Rightarrow> string \<Rightarrow> 's thread_service \<Rightarrow>
     (service_error, string \<times> string) result \<times> 's thread_service" where
  "begin_failed p now b cause s =
     (let turnId = tn_turnId (bt_turn b);
          s1 = s\<lparr>activeTurns := js_delete (activeTurns s) turnId\<rparr>
      in if bt_ephemeral b then (throws (TurnStartFailed cause), s1)
         else
           case finishTurn p now (th_threadId (bt_record b)) turnId TurnError [] (Some cause) s1 of
             (Inl e, s2) \<Rightarrow> (throws e, s2)
           | (Inr _, s2) \<Rightarrow> (throws (TurnStartFailed cause), s2))"

text \<open>
  \<open>started\<close>: \<open>None\<close> if \<^verbatim>\<open>runStreamed\<close> answered a stream, \<open>Some cause\<close> if it threw.
\<close>

definition beginTurn ::
  "'s store_port \<Rightarrow> string \<Rightarrow> string \<Rightarrow> string \<Rightarrow> string option \<Rightarrow> thread_record \<Rightarrow> string \<Rightarrow>
     resolved_attachment list \<Rightarrow> bool \<Rightarrow> 's thread_service \<Rightarrow>
     (service_error, string \<times> string) result \<times> 's thread_service" where
  "beginTurn p turnId now finishedAt started record message attachments ephemeral s =
     (case begin_check turnId now record message attachments ephemeral s of
        Inl e \<Rightarrow> (throws e, s)
      | Inr b \<Rightarrow>
          (case begin_save p b s of
             (Inl e, s1) \<Rightarrow> (throws e, s1)
           | (Inr _, s1) \<Rightarrow>
               let s2 = begin_activate b s1
               in (case started of
                     None \<Rightarrow> (returns (th_threadId record, turnId), s2)
                   | Some cause \<Rightarrow> begin_failed p finishedAt b cause s2)))"

record turn_input =
  ci_canvasId :: string
  ci_message :: string
  ci_attachments :: "resolved_attachment list"

record service_config =
  sc_model :: string
  sc_attachmentRoot :: string
  sc_workspace_of :: "string \<Rightarrow> string option"

definition startTurn ::
  "service_config \<Rightarrow> 's store_port \<Rightarrow> file_system \<Rightarrow> string \<Rightarrow> string \<Rightarrow> string \<Rightarrow> string \<Rightarrow>
     string option \<Rightarrow> turn_input \<Rightarrow> 's thread_service \<Rightarrow>
     (service_error, string \<times> string) result \<times> 's thread_service" where
  "startTurn cfg p fs threadId turnId now finishedAt started input s =
     (case and_then (normalizeMessage (ci_message input)) (\<lambda>message.
             and_then (resolveAndValidateWorkspace (sc_workspace_of cfg) fs (ci_canvasId input))
               (\<lambda>workspaceRoot.
                  and_then (validateAttachments (sc_attachmentRoot cfg) fs (ci_attachments input))
                    (\<lambda>attachments. returns (message, workspaceRoot, attachments)))) of
        Inl e \<Rightarrow> (throws e, s)
      | Inr (message, workspaceRoot, attachments) \<Rightarrow>
          let record = \<lparr>th_threadId = threadId, th_sdkThreadId = None,
                        th_canvasId = ci_canvasId input, th_workspaceRoot = workspaceRoot,
                        th_model = sc_model cfg, th_createdAt = now, th_updatedAt = now,
                        th_archivedAt = None, th_turns = []\<rparr>
          in (case port_create p record (svc_store s) of
                (Inl e, st) \<Rightarrow> (throws (StoreFailed e), s\<lparr>svc_store := st\<rparr>)
              | (Inr _, st) \<Rightarrow>
                  beginTurn p turnId now finishedAt started record message attachments False
                    (s\<lparr>svc_store := st\<rparr>)))"

text \<open>
  The checks of \<^verbatim>\<open>resumeTurn\<close>, up to the call of \<^verbatim>\<open>#beginTurn\<close>.
\<close>

definition resume_prepare ::
  "service_config \<Rightarrow> 's store_port \<Rightarrow> file_system \<Rightarrow> string \<Rightarrow> turn_input \<Rightarrow> 's thread_service \<Rightarrow>
     (service_error, thread_record \<times> string \<times> resolved_attachment list) result" where
  "resume_prepare cfg p fs threadId input s =
     and_then (normalizeMessage (ci_message input)) (\<lambda>message.
       and_then (requireOwnedThread p (ci_canvasId input) threadId s) (\<lambda>record.
         if th_archivedAt record \<noteq> None \<and> th_archivedAt record \<noteq> Some [] then throws ThreadArchived
         else if th_sdkThreadId record = None \<or> th_sdkThreadId record = Some []
         then throws SdkThreadMissing
         else
           and_then (resolveAndValidateWorkspace (sc_workspace_of cfg) fs (ci_canvasId input))
             (\<lambda>currentWorkspace.
                if currentWorkspace \<noteq> th_workspaceRoot record then throws WorkspaceChanged
                else
                  and_then (validateAttachments (sc_attachmentRoot cfg) fs (ci_attachments input))
                    (\<lambda>attachments. returns (record, message, attachments)))))"

definition resumeTurn ::
  "service_config \<Rightarrow> 's store_port \<Rightarrow> file_system \<Rightarrow> string \<Rightarrow> string \<Rightarrow> string \<Rightarrow> string \<Rightarrow>
     string option \<Rightarrow> bool \<Rightarrow> turn_input \<Rightarrow> 's thread_service \<Rightarrow>
     (service_error, string \<times> string) result \<times> 's thread_service" where
  "resumeTurn cfg p fs threadId turnId now finishedAt started ephemeral input s =
     (case resume_prepare cfg p fs threadId input s of
        Inl e \<Rightarrow> (throws e, s)
      | Inr (record, message, attachments) \<Rightarrow>
          beginTurn p turnId now finishedAt started record message attachments ephemeral s)"

definition recoverInterruptedTurns ::
  "'s store_port \<Rightarrow> string \<Rightarrow> 's thread_service \<Rightarrow> (service_error, nat) result \<times> 's thread_service"
where
  "recoverInterruptedTurns p now s =
     (case port_recover p now (svc_store s) of
        (Inl e, st) \<Rightarrow> (throws (StoreFailed e), s\<lparr>svc_store := st\<rparr>)
      | (Inr n, st) \<Rightarrow> (returns n, s\<lparr>svc_store := st\<rparr>))"

definition listThreads ::
  "service_config \<Rightarrow> 's store_port \<Rightarrow> file_system \<Rightarrow> string \<Rightarrow> bool \<Rightarrow> 's thread_service \<Rightarrow>
     (service_error, thread_record list) result" where
  "listThreads cfg p fs canvasId includeArchived s =
     and_then (resolveAndValidateWorkspace (sc_workspace_of cfg) fs canvasId) (\<lambda>_.
       case port_list p canvasId (svc_store s) of
         Inl e \<Rightarrow> throws (StoreFailed e)
       | Inr records \<Rightarrow>
           returns (if includeArchived then records
                    else filter (\<lambda>r. th_archivedAt r = None \<or> th_archivedAt r = Some []) records))"

definition readThread ::
  "'s store_port \<Rightarrow> string \<Rightarrow> string \<Rightarrow> 's thread_service \<Rightarrow> (service_error, thread_record) result"
where
  "readThread p canvasId threadId s = requireOwnedThread p canvasId threadId s"

definition archiveThread ::
  "'s store_port \<Rightarrow> string \<Rightarrow> string \<Rightarrow> string \<Rightarrow> 's thread_service \<Rightarrow>
     (service_error, unit) result \<times> 's thread_service" where
  "archiveThread p now canvasId threadId s =
     (case requireOwnedThread p canvasId threadId s of
        Inl e \<Rightarrow> (throws e, s)
      | Inr record \<Rightarrow>
          if has_active_turn threadId s then (throws ThreadHasActiveTurn, s)
          else if th_archivedAt record \<noteq> None \<and> th_archivedAt record \<noteq> Some [] then (returns (), s)
          else store_save p (record\<lparr>th_archivedAt := Some now, th_updatedAt := now\<rparr>) s)"

definition cancelTurn :: "string \<Rightarrow> 's thread_service \<Rightarrow> bool \<times> 's thread_service" where
  "cancelTurn turnId s =
     (case js_get (activeTurns s) turnId of
        None \<Rightarrow> (False, s)
      | Some active \<Rightarrow>
          (True, s\<lparr>activeTurns := js_set (activeTurns s) turnId (active\<lparr>at_aborted := True\<rparr>)\<rparr>))"

subsection \<open>The environment\<close>

lemma sanitize_get:
  "distinct (js_keys source) \<Longrightarrow>
   js_get (sanitizeCodexEnvironment source) k =
     (if k \<in> set CODEX_ENVIRONMENT_ALLOWLIST then
        (case js_get source k of Some v \<Rightarrow> v | None \<Rightarrow> None) else None)"
proof (induction source rule: rev_induct)
  case Nil
  then show ?case by (simp add: sanitizeCodexEnvironment_def)
next
  case (snoc e source)
  obtain key v where e: "e = (key, v)" by force
  have new: "key \<notin> set (js_keys source)" using snoc.prems e by simp
  then have none: "js_get source key = None" by (simp add: js_get_None_iff)
  have step: "sanitizeCodexEnvironment (source @ [e]) =
      (case v of
         Some w \<Rightarrow> if key \<in> set CODEX_ENVIRONMENT_ALLOWLIST
                   then js_set (sanitizeCodexEnvironment source) key w
                   else sanitizeCodexEnvironment source
       | None \<Rightarrow> sanitizeCodexEnvironment source)"
    by (cases v) (simp_all add: sanitizeCodexEnvironment_def e)
  have get: "js_get (source @ [e]) k = (if k = key then Some v else js_get source k)"
    using none by (auto simp: e map_add_def split: option.splits)
  show ?case
    unfolding step get using snoc.IH snoc.prems none
    by (auto simp: js_get_set split: option.splits)
qed

text \<open>
  The Codex process sees the agent's token and, of the agent's own environment, exactly
  the variables of the allow list that have a value, unchanged.
\<close>

lemma codex_environment_is_allowlisted:
  assumes "distinct (js_keys source)"
  shows "js_get (co_env (buildCodexOptions mcp model (sanitizeCodexEnvironment source) canvasId
       threadId turnId)) k =
     (if k = ''HMAIGC_CANVAS_AGENT_TOKEN'' then Some (mcp_token mcp)
      else if k \<in> set CODEX_ENVIRONMENT_ALLOWLIST then
        (case js_get source k of Some v \<Rightarrow> v | None \<Rightarrow> None)
      else None)"
  using assms by (simp add: buildCodexOptions_def js_get_set sanitize_get)

theorem codex_environment_is_allowlisted_witness:
  "js_get (co_env (buildCodexOptions
       \<lparr>mcp_command = ''node'', mcp_args = [''mcp''], mcp_url = ''u'', mcp_token = ''t''\<rparr> ''m''
       (sanitizeCodexEnvironment [(''HOME'', Some ''/h''), (''AWS_SECRET'', Some ''s'')]) ''c'' ''a'' ''b''))
     ''AWS_SECRET'' = None"
  by (subst codex_environment_is_allowlisted) (simp_all add: CODEX_ENVIRONMENT_ALLOWLIST_def)

subsection \<open>Attachments\<close>

lemma validateAttachment_managed:
  assumes "validateAttachment base fs a = returns b"
  shows "(\<exists>s rest. resolve_path (ra_localPath b) = resolve_path base @ s # rest) \<and>
    ra_kind b = ra_kind a \<and> ra_name b = ra_name a \<and> ra_mimeType b = ra_mimeType a"
  using assms
  by (auto simp: validateAttachment_def Let_def isPathWithin_iff split: if_splits option.splits)

text \<open>
  The files handed to Codex are those of the request, in its order, and the real path of
  each lies strictly below the managed directory, whatever links the request's path follows.
\<close>

lemma validated_attachments_are_managed:
  assumes "validateAttachments base fs attachments = returns checked"
  shows "length checked \<le> 16 \<and>
    list_all2 (\<lambda>a b. (\<exists>s rest. resolve_path (ra_localPath b) = resolve_path base @ s # rest) \<and>
        ra_kind b = ra_kind a \<and> ra_name b = ra_name a \<and> ra_mimeType b = ra_mimeType a)
      attachments checked"
  using assms map_result_length [of "validateAttachment base fs" attachments checked]
  by (auto simp: validateAttachments_def map_result_Inr_iff
      elim!: list_all2_mono dest: validateAttachment_managed split: if_splits)

definition sample_fs :: file_system where
  "sample_fs p =
     (if p = ''/a/x'' then Some \<lparr>ff_isDirectory = False, ff_isFile = True, ff_isSymbolicLink = False,
        ff_realpath = ''/a/x''\<rparr>
      else if p = ''/w'' then Some \<lparr>ff_isDirectory = True, ff_isFile = False,
        ff_isSymbolicLink = False, ff_realpath = ''/w''\<rparr>
      else None)"

definition sample_attachment :: resolved_attachment where
  "sample_attachment = \<lparr>ra_kind = FileAttachment, ra_name = ''x'', ra_mimeType = ''t'',
     ra_localPath = ''/a/./x''\<rparr>"

lemma sample_attachment_checked:
  "validateAttachments ''/a'' sample_fs [sample_attachment] =
     returns [sample_attachment\<lparr>ra_localPath := ''/a/x''\<rparr>]"
  by code_simp

theorem validated_attachments_are_managed_witness:
  "\<exists>checked. validateAttachments ''/a'' sample_fs [sample_attachment] = returns checked \<and>
     length checked \<le> 16 \<and>
     list_all2 (\<lambda>a b. (\<exists>s rest. resolve_path (ra_localPath b) = resolve_path ''/a'' @ s # rest) \<and>
        ra_kind b = ra_kind a \<and> ra_name b = ra_name a \<and> ra_mimeType b = ra_mimeType a)
      [sample_attachment] checked"
  using validated_attachments_are_managed [OF sample_attachment_checked] sample_attachment_checked
  by blast

subsection \<open>Admission of turns\<close>

lemma begin_check_Inr_iff:
  "begin_check turnId now record message attachments ephemeral s = Inr b \<longleftrightarrow>
     js_trim message \<noteq> [] \<and> (\<forall>t \<in> set (th_turns record). tn_status t \<noteq> Running) \<and>
     \<not> has_active_turn (th_threadId record) s \<and>
     b = \<lparr>bt_record = record,
          bt_turn =
            \<lparr>tn_turnId = turnId, tn_status = Running, tn_message = js_trim message,
             tn_attachments =
               map (\<lambda>a. \<lparr>sa_kind = ra_kind a, sa_name = ra_name a, sa_mimeType = ra_mimeType a\<rparr>)
                 attachments,
             tn_events = [], tn_createdAt = now, tn_completedAt = None, tn_errorMessage = None\<rparr>,
          bt_ephemeral = ephemeral\<rparr>"
  by (auto simp: begin_check_def normalizeMessage_def Let_def list_ex_iff and_then_Inr_iff
      split: if_splits)

lemma requireOwnedThread_Inr_iff:
  "requireOwnedThread p canvasId threadId s = Inr r \<longleftrightarrow>
     port_get p threadId (svc_store s) = Inr (Some r) \<and> th_canvasId r = canvasId"
  by (auto simp: requireOwnedThread_def requireThread_def and_then_Inr_iff
      split: sum.splits option.splits if_splits)

lemma resume_prepare_Inr_iff:
  "resume_prepare cfg p fs threadId input s = Inr (record, message, attachments) \<longleftrightarrow>
     message = js_trim (ci_message input) \<and> message \<noteq> [] \<and>
     port_get p threadId (svc_store s) = Inr (Some record) \<and>
     th_canvasId record = ci_canvasId input \<and>
     (th_archivedAt record = None \<or> th_archivedAt record = Some []) \<and>
     th_sdkThreadId record \<noteq> None \<and> th_sdkThreadId record \<noteq> Some [] \<and>
     resolveAndValidateWorkspace (sc_workspace_of cfg) fs (ci_canvasId input) =
       Inr (th_workspaceRoot record) \<and>
     validateAttachments (sc_attachmentRoot cfg) fs (ci_attachments input) = Inr attachments"
  by (auto simp: resume_prepare_def normalizeMessage_def Let_def and_then_Inr_iff
      requireOwnedThread_Inr_iff split: if_splits)

lemma beginTurn_returns:
  assumes "beginTurn p turnId now finishedAt started record message attachments ephemeral s = (returns x, s')"
  shows "x = (th_threadId record, turnId) \<and> started = None \<and>
    (\<forall>t \<in> set (th_turns record). tn_status t \<noteq> Running) \<and> \<not> has_active_turn (th_threadId record) s \<and>
    js_get (activeTurns s') turnId = Some \<lparr>at_threadId = th_threadId record, at_aborted = False\<rparr>"
proof -
  have failed: "begin_failed p finishedAt b cause s2 \<noteq> (Inr x, s')" for b cause s2
    by (auto simp: begin_failed_def Let_def split: prod.splits sum.splits)
  show ?thesis
    using assms failed
    by (auto simp: beginTurn_def begin_check_Inr_iff begin_activate_def js_get_set Let_def
        split: sum.splits prod.splits option.splits)
qed

text \<open>
  A turn continues a thread only if the thread is stored, belongs to the canvas of the
  request, is not archived, is known to the SDK, still has the canvas's workspace, and has no turn
  under way in its record or in memory; then the turn is active and not cancelled.
\<close>

lemma resume_needs_own_open_thread:
  assumes "resumeTurn cfg p fs threadId turnId now finishedAt started ephemeral input s =
     (returns x, s')"
  shows "\<exists>record. port_get p threadId (svc_store s) = returns (Some record) \<and>
    th_canvasId record = ci_canvasId input \<and>
    (th_archivedAt record = None \<or> th_archivedAt record = Some []) \<and>
    th_sdkThreadId record \<noteq> None \<and> th_sdkThreadId record \<noteq> Some [] \<and>
    resolveAndValidateWorkspace (sc_workspace_of cfg) fs (ci_canvasId input) =
      returns (th_workspaceRoot record) \<and>
    (\<forall>t \<in> set (th_turns record). tn_status t \<noteq> Running) \<and>
    \<not> has_active_turn (th_threadId record) s \<and>
    x = (th_threadId record, turnId) \<and>
    js_get (activeTurns s') turnId = Some \<lparr>at_threadId = th_threadId record, at_aborted = False\<rparr>"
proof -
  obtain r message attachments where
    prepared: "resume_prepare cfg p fs threadId input s = Inr (r, message, attachments)" and
    begun: "beginTurn p turnId now finishedAt started r message attachments ephemeral s =
      (returns x, s')"
    using assms by (auto simp: resumeTurn_def split: sum.splits prod.splits)
  show ?thesis
    using beginTurn_returns [OF begun] prepared [unfolded resume_prepare_Inr_iff] by blast
qed

definition open_thread :: thread_record where
  "open_thread = \<lparr>th_threadId = ''k'', th_sdkThreadId = Some ''sdk'', th_canvasId = ''c'',
     th_workspaceRoot = ''/w'', th_model = ''m'', th_createdAt = ''d'', th_updatedAt = ''d'',
     th_archivedAt = None, th_turns = []\<rparr>"

definition open_config :: service_config where
  "open_config = \<lparr>sc_model = ''m'', sc_attachmentRoot = ''/a'', sc_workspace_of = (\<lambda>_. Some ''/w'')\<rparr>"

definition open_service :: "memory_store thread_service" where
  "open_service = \<lparr>svc_store = [(''k'', open_thread)], activeTurns = []\<rparr>"

abbreviation sample_port :: "memory_store store_port" where
  "sample_port \<equiv> memory_port (\<lambda>_. True) (\<lambda>_. 0)"

definition open_input :: turn_input where
  "open_input = \<lparr>ci_canvasId = ''c'', ci_message = '' hi '', ci_attachments = [sample_attachment]\<rparr>"

lemma open_prepared:
  "resume_prepare open_config sample_port sample_fs ''k'' open_input open_service =
     returns (open_thread, ''hi'', [sample_attachment\<lparr>ra_localPath := ''/a/x''\<rparr>])"
proof -
  have "resolveAndValidateWorkspace (\<lambda>_. Some ''/w'') sample_fs ''c'' = returns ''/w''" by code_simp
  moreover have "js_trim '' hi '' = ''hi''" by code_simp
  ultimately show ?thesis
    by (simp add: resume_prepare_Inr_iff open_config_def open_input_def open_service_def
        open_thread_def memory_port_def mem_get_def sample_attachment_checked)
qed

lemma open_resumed:
  "fst (resumeTurn open_config sample_port sample_fs ''k'' ''u'' ''d'' ''e'' None False open_input
     open_service) = returns (''k'', ''u'')"
proof -
  have "js_trim ''hi'' = ''hi''" by code_simp
  then show ?thesis
    unfolding resumeTurn_def open_prepared sum.case prod.case
    by (simp add: beginTurn_def begin_check_def normalizeMessage_def
        has_active_turn_def open_thread_def open_service_def begin_save_def store_save_def
        memory_port_def mem_save_def parseThreadRecord_def thread_valid_def turn_valid_def
        stored_attachment_valid_def sample_attachment_def bounded_text_def js_has_def)
qed

theorem resume_needs_own_open_thread_witness:
  "\<exists>s' record. resumeTurn open_config sample_port sample_fs ''k'' ''u'' ''d'' ''e'' None False
      open_input open_service = (returns (''k'', ''u''), s') \<and>
    port_get sample_port ''k'' (svc_store open_service) = returns (Some record) \<and>
    th_canvasId record = ''c''"
proof -
  obtain s' where r: "resumeTurn open_config sample_port sample_fs ''k'' ''u'' ''d'' ''e'' None
      False open_input open_service = (returns (''k'', ''u''), s')"
    using open_resumed by (metis prod.collapse)
  have "ci_canvasId open_input = ''c''" by (simp add: open_input_def)
  with r resume_needs_own_open_thread [OF r] show ?thesis by auto
qed

subsection \<open>The service on a store that keeps its contract\<close>

context thread_store
begin

lemma store_save_cases:
  assumes "inv (svc_store s)"
  shows "store_save port r s =
    (if \<not> thread_valid isodate r then (throws (StoreFailed RecordInvalid), s)
     else if th_threadId r \<notin> set (thread_ids (records (svc_store s)))
     then (throws (StoreFailed ThreadMissing), s)
     else (returns (), s\<lparr>svc_store := snd (port_save port r (svc_store s))\<rparr>))"
proof -
  have same: "s\<lparr>svc_store := svc_store s\<rparr> = s" by simp
  consider "\<not> thread_valid isodate r"
    | "thread_valid isodate r" "th_threadId r \<notin> set (thread_ids (records (svc_store s)))"
    | "thread_valid isodate r" "th_threadId r \<in> set (thread_ids (records (svc_store s)))"
    by blast
  then show ?thesis
  proof cases
    case 3
    then show ?thesis using save_old [OF assms 3]
      by (cases "port_save port r (svc_store s)") (simp add: store_save_def)
  qed (simp_all add: store_save_def save_invalid save_new assms)
qed

lemma saved_records:
  assumes "inv (svc_store s)" and "store_save port r s = (returns (), s')"
  shows "thread_valid isodate r \<and> th_threadId r \<in> set (thread_ids (records (svc_store s))) \<and>
    records (svc_store s') = replace_thread r (records (svc_store s)) \<and> inv (svc_store s') \<and>
    activeTurns s' = activeTurns s"
  using assms save_old [OF assms(1), of r] by (auto simp: store_save_cases split: if_splits)

lemma requireThread_Inr_iff:
  "inv (svc_store s) \<Longrightarrow>
   requireThread port k s = Inr r \<longleftrightarrow> find_thread k (records (svc_store s)) = Some r"
  by (simp add: requireThread_def get_records split: option.splits)

lemma find_thread_Some: "find_thread k rs = Some r \<Longrightarrow> th_threadId r = k \<and> r \<in> set rs"
  by (auto simp: find_thread_def find_Some_iff)

text \<open>
  Two requests for one thread, both admitted before either saved its turn: each saves the record it
  read with its own turn added, so the turn saved first is gone from the record, and both turns are
  active.
\<close>

lemma overlapping_begins:
  assumes inv: "inv (svc_store s)"
    and found: "find_thread k (records (svc_store s)) = Some r"
    and b1: "begin_check u1 now1 r m1 a1 False s = returns b1"
    and b2: "begin_check u2 now2 r m2 a2 False s = returns b2"
    and valid1: "thread_valid isodate (r\<lparr>th_updatedAt := now1, th_turns := th_turns r @ [bt_turn b1]\<rparr>)"
    and valid2: "thread_valid isodate (r\<lparr>th_updatedAt := now2, th_turns := th_turns r @ [bt_turn b2]\<rparr>)"
    and s1: "s1 = snd (begin_save port b1 s)"
    and s2: "s2 = begin_activate b2 (begin_activate b1 (snd (begin_save port b2 s1)))"
  shows "fst (begin_save port b1 s) = returns () \<and> fst (begin_save port b2 s1) = returns () \<and>
    inv (svc_store s2) \<and>
    find_thread k (records (svc_store s2)) =
      Some (r\<lparr>th_updatedAt := now2, th_turns := th_turns r @ [bt_turn b2]\<rparr>) \<and>
    js_get (activeTurns s2) u2 = Some \<lparr>at_threadId = k, at_aborted = False\<rparr> \<and>
    js_get (activeTurns s2) u1 = Some \<lparr>at_threadId = k, at_aborted = False\<rparr>"
proof -
  let ?r1 = "r\<lparr>th_updatedAt := now1, th_turns := th_turns r @ [bt_turn b1]\<rparr>"
  let ?r2 = "r\<lparr>th_updatedAt := now2, th_turns := th_turns r @ [bt_turn b2]\<rparr>"
  have id: "th_threadId r = k" and mem: "k \<in> set (thread_ids (records (svc_store s)))"
    using find_thread_Some [OF found] by auto
  have save1: "begin_save port b1 s = store_save port ?r1 s"
    and save2: "begin_save port b2 s' = store_save port ?r2 s'" for s'
    using b1 b2 by (auto simp: begin_check_Inr_iff begin_save_def)
  have ok1: "store_save port ?r1 s = (returns (), s1)"
    using valid1 id mem by (simp add: s1 save1 store_save_cases inv)
  from saved_records [OF inv this] have recs1: "records (svc_store s1) = replace_thread ?r1 (records (svc_store s))"
    and inv1: "inv (svc_store s1)" by auto
  obtain s1' where ok2: "store_save port ?r2 s1 = (returns (), s1')"
    using valid2 id mem by (simp add: store_save_cases inv1 recs1)
  from saved_records [OF inv1 this]
  have recs2: "records (svc_store s1') = replace_thread ?r2 (records (svc_store s1))"
    and inv2: "inv (svc_store s1')" by auto
  have "find_thread k (records (svc_store s1')) = Some ?r2"
    using find_thread_replace [of k ?r2 "records (svc_store s1)"] id mem
    by (simp add: recs2 recs1)
  moreover have "tn_turnId (bt_turn b1) = u1" "tn_turnId (bt_turn b2) = u2"
    "bt_record b1 = r" "bt_record b2 = r"
    using b1 b2 by (auto simp: begin_check_Inr_iff)
  ultimately show ?thesis
    using ok1 ok2 inv2 id by (simp add: s2 save1 save2 begin_activate_def js_get_set)
qed

end

text \<open>
  C38. The check that a thread has no turn under way does not cover the wait for the store: if
  two requests for one thread pass it before either has saved its turn, both go on, both turns are
  active on the thread at once, and the record keeps only the second.
\<close>

theorem overlapping_requests_lose_a_turn:
  assumes "mem_inv (svc_store s)" and "js_get (svc_store s) k = Some r"
    and "begin_check u1 now1 r m1 a1 False s = returns b1"
    and "begin_check u2 now2 r m2 a2 False s = returns b2"
    and "thread_valid isodate (r\<lparr>th_updatedAt := now1, th_turns := th_turns r @ [bt_turn b1]\<rparr>)"
    and "thread_valid isodate (r\<lparr>th_updatedAt := now2, th_turns := th_turns r @ [bt_turn b2]\<rparr>)"
    and "p = memory_port isodate collate"
    and "s2 = begin_activate b2 (begin_activate b1 (snd (begin_save p b2 (snd (begin_save p b1 s)))))"
  shows "fst (begin_save p b1 s) = returns () \<and>
    fst (begin_save p b2 (snd (begin_save p b1 s))) = returns () \<and>
    js_get (svc_store s2) k =
      Some (r\<lparr>th_updatedAt := now2, th_turns := th_turns r @ [bt_turn b2]\<rparr>) \<and>
    js_get (activeTurns s2) u2 = Some \<lparr>at_threadId = k, at_aborted = False\<rparr> \<and>
    js_get (activeTurns s2) u1 = Some \<lparr>at_threadId = k, at_aborted = False\<rparr>"
  using memory.overlapping_begins [OF assms(1) _ assms(3-6) refl assms(8) [unfolded assms(7)]]
    assms(1,2,7) by (simp add: mem_find)

theorem overlapping_requests_lose_a_turn_witness:
  "\<exists>b1 b2 s2. begin_check ''u'' ''d'' open_thread ''hi'' [] False open_service = returns b1 \<and>
     begin_check ''v'' ''d'' open_thread ''ho'' [] False open_service = returns b2 \<and>
     s2 = begin_activate b2 (begin_activate b1
        (snd (begin_save sample_port b2 (snd (begin_save sample_port b1 open_service))))) \<and>
     js_get (svc_store s2) ''k'' = Some (open_thread\<lparr>th_turns := [bt_turn b2]\<rparr>) \<and>
     length (activeTurns s2) = 2"
proof -
  let ?t = "\<lambda>u m. \<lparr>tn_turnId = u, tn_status = Running, tn_message = m, tn_attachments = [],
      tn_events = [], tn_createdAt = ''d'', tn_completedAt = None, tn_errorMessage = None\<rparr>"
  let ?b = "\<lambda>u m. \<lparr>bt_record = open_thread, bt_turn = ?t u m, bt_ephemeral = False\<rparr>"
  have trim: "js_trim ''hi'' = ''hi''" "js_trim ''ho'' = ''ho''" by code_simp+
  have b: "begin_check ''u'' ''d'' open_thread ''hi'' [] False open_service = returns (?b ''u'' ''hi'')"
    "begin_check ''v'' ''d'' open_thread ''ho'' [] False open_service = returns (?b ''v'' ''ho'')"
    by (simp_all add: begin_check_Inr_iff trim has_active_turn_def open_service_def open_thread_def)
  have inv: "mem_inv (svc_store open_service)" "js_get (svc_store open_service) ''k'' = Some open_thread"
    by (simp_all add: mem_inv_def open_service_def open_thread_def)
  have valid: "thread_valid (\<lambda>_. True) (open_thread\<lparr>th_updatedAt := ''d'',
      th_turns := th_turns open_thread @ [bt_turn (?b u m)]\<rparr>)" if "length u = 1" "length m = 2" for u m
    using that by (auto simp: thread_valid_def turn_valid_def open_thread_def bounded_text_def)
  have d: "open_thread\<lparr>th_updatedAt := ''d'', th_turns := th_turns open_thread @ [x]\<rparr> =
      open_thread\<lparr>th_turns := [x]\<rparr>" for x by (simp add: open_thread_def)
  define s2 where "s2 = begin_activate (?b ''v'' ''ho'') (begin_activate (?b ''u'' ''hi'')
      (snd (begin_save sample_port (?b ''v'' ''ho'') (snd (begin_save sample_port (?b ''u'' ''hi'')
        open_service)))))"
  have "js_get (svc_store s2) ''k'' = Some (open_thread\<lparr>th_turns := [?t ''v'' ''ho'']\<rparr>)"
    using overlapping_requests_lose_a_turn [OF inv b valid valid refl s2_def] by (simp add: d)
  moreover have "length (activeTurns s2) = 2"
    by (simp add: s2_def begin_activate_def begin_save_def store_save_def open_service_def
        split: prod.splits sum.splits)
  ultimately show ?thesis using b s2_def by auto
qed

end
