(* ===== verification/TurnStream.thy ===== *)
theory TurnStream
  imports ThreadService
begin

text \<open>
  The events of one turn, from the Codex SDK to the browser and the record: the generator
  \<^verbatim>\<open>#consumeEvents\<close> of \<^verbatim>\<open>canvas-agent/src/codex-thread.ts\<close> with \<^verbatim>\<open>#normalizeEvent\<close> and
  \<^verbatim>\<open>#finalizeConsumedTurn\<close>. Its local variables are the record \<open>turn_stream\<close>; \<open>ts_yielded\<close> is what
  the consumer was given. The generator is run to its end. \<open>parse\<close> reads a final decision from the
  text of an agent message, with the text of the error if it throws; \<open>describe\<close> is the message of
  a service error.
\<close>

record turn_stream =
  ts_events :: "codex_event list" \<comment> \<open>\<^verbatim>\<open>normalizedEvents\<close>\<close>
  ts_pending :: "final_decision option"
  ts_tools :: "string list" \<comment> \<open>\<^verbatim>\<open>activeMcpToolCallIds\<close>\<close>
  ts_terminal :: bool
  ts_finalized :: bool
  ts_yielded :: "codex_event list"

definition new_stream :: turn_stream where
  "new_stream = \<lparr>ts_events = [], ts_pending = None, ts_tools = [], ts_terminal = False,
     ts_finalized = False, ts_yielded = []\<rparr>"

datatype loop_end = LoopBroke | LoopThrew string

datatype stream_end = StreamEnded | StreamThrew string

definition push :: "codex_event \<Rightarrow> turn_stream \<Rightarrow> turn_stream" where
  "push e g = g\<lparr>ts_events := ts_events g @ [e]\<rparr>"

definition yield_event :: "codex_event \<Rightarrow> turn_stream \<Rightarrow> turn_stream" where
  "yield_event e g = g\<lparr>ts_yielded := ts_yielded g @ [e]\<rparr>"

text \<open>The tool call an event is about, and whether it is in progress.\<close>

fun mcp_tool_event :: "thread_event \<Rightarrow> (string \<times> bool) option" where
  "mcp_tool_event (SdkItemStarted (McpToolCall i p)) = Some (i, p)"
| "mcp_tool_event (SdkItemUpdated (McpToolCall i p)) = Some (i, p)"
| "mcp_tool_event (SdkItemCompleted (McpToolCall i p)) = Some (i, p)"
| "mcp_tool_event _ = None"

definition track_tools :: "thread_event \<Rightarrow> turn_stream \<Rightarrow> turn_stream" where
  "track_tools e g =
     (case mcp_tool_event e of
        None \<Rightarrow> g
      | Some (i, True) \<Rightarrow> g\<lparr>ts_tools := js_add (ts_tools g) i, ts_pending := None\<rparr>
      | Some (i, False) \<Rightarrow> g\<lparr>ts_tools := removeAll i (ts_tools g)\<rparr>)"

fun normalizeEvent ::
  "'s store_port \<Rightarrow> string \<Rightarrow> string \<Rightarrow> string \<Rightarrow> thread_event \<Rightarrow> 's thread_service \<Rightarrow>
     (service_error, codex_event) result \<times> 's thread_service" where
  "normalizeEvent p now t u (SdkThreadStarted thread_id) s =
     (case requireThread p t s of
        Inl e \<Rightarrow> (throws e, s)
      | Inr record \<Rightarrow>
          (case th_sdkThreadId record of
             Some (c # cs) \<Rightarrow>
               if c # cs \<noteq> thread_id then (throws SdkThreadConflict, s)
               else (returns (ThreadStarted t thread_id), s)
           | _ \<Rightarrow>
               (case store_save p (record\<lparr>th_sdkThreadId := Some thread_id, th_updatedAt := now\<rparr>) s of
                  (Inl e, s') \<Rightarrow> (throws e, s')
                | (Inr _, s') \<Rightarrow> (returns (ThreadStarted t thread_id), s'))))"
| "normalizeEvent p now t u SdkTurnStarted s = (returns (TurnStarted t u), s)"
| "normalizeEvent p now t u (SdkItemStarted i) s = (returns (ItemStarted t u (SdkItemStarted i)), s)"
| "normalizeEvent p now t u (SdkItemUpdated i) s = (returns (ItemUpdated t u (SdkItemUpdated i)), s)"
| "normalizeEvent p now t u (SdkItemCompleted i) s =
     (returns (ItemCompleted t u (SdkItemCompleted i)), s)"
| "normalizeEvent p now t u SdkTurnCompleted s = (returns (TurnCompleted t u SdkTurnCompleted), s)"
| "normalizeEvent p now t u (SdkTurnFailed m) s =
     (returns (TurnFailed t u m (Some (SdkTurnFailed m))), s)"
| "normalizeEvent p now t u (SdkError m) s = (returns (TurnFailed t u m (Some (SdkError m))), s)"

fun final_status :: "codex_event list \<Rightarrow> turn_status \<times> string option" where
  "final_status events =
     (if events = [] then (TurnError, None)
      else case last events of
        TurnCompleted t u e \<Rightarrow> (TurnDone, None)
      | TurnCancelled t u \<Rightarrow> (TurnStopped, None)
      | TurnFailed t u m e \<Rightarrow> (TurnError, Some m)
      | _ \<Rightarrow> (TurnError, None))"

declare final_status.simps [simp del] normalizeEvent.simps [simp del]

definition finalizeConsumedTurn ::
  "'s store_port \<Rightarrow> string \<Rightarrow> string \<Rightarrow> string \<Rightarrow> codex_event list \<Rightarrow> bool \<Rightarrow> 's thread_service \<Rightarrow>
     (service_error, unit) result \<times> 's thread_service" where
  "finalizeConsumedTurn p now t u events ephemeral s =
     (let s1 = s\<lparr>activeTurns := js_delete (activeTurns s) u\<rparr>
      in if ephemeral then (returns (), s1)
         else
           let (status, failure) = final_status events
           in finishTurn p now t u status events failure s1)"

definition stream_ended_notice :: string where
  "stream_ended_notice = ''the Codex event stream ended before a terminal event''"

text \<open>The body of the loop.\<close>

datatype 's body_end = Continue | Broke | Threw string

definition take_message ::
  "(string \<Rightarrow> (string, final_decision) result) \<Rightarrow> string \<Rightarrow> string \<Rightarrow> string \<Rightarrow> turn_stream \<Rightarrow>
     's thread_service \<Rightarrow> 's body_end \<times> turn_stream \<times> 's thread_service" where
  "take_message parse t u content g s =
     (let item = ItemCompleted t u (SdkItemCompleted (AgentMessage content))
      in if ts_tools g = []
         then (case parse content of
                 Inl m \<Rightarrow> (Threw m, g, s)
               | Inr d \<Rightarrow> (Continue, yield_event item (push item (g\<lparr>ts_pending := Some d\<rparr>)), s))
         else (Continue, yield_event item (push item g), s))"

definition complete_turn ::
  "(service_error \<Rightarrow> string) \<Rightarrow> 's store_port \<Rightarrow> string \<Rightarrow> string \<Rightarrow> string \<Rightarrow> bool \<Rightarrow> turn_stream \<Rightarrow>
     's thread_service \<Rightarrow> 's body_end \<times> turn_stream \<times> 's thread_service" where
  "complete_turn describe p now t u ephemeral g s =
     (if ts_tools g \<noteq> [] then (Threw (describe (McpToolsActive (length (ts_tools g)))), g, s)
      else
        case ts_pending g of
          None \<Rightarrow> (Threw (describe FinalDecisionMissing), g, s)
        | Some d \<Rightarrow>
            let final = FinalDecision t u (decision_message d) (decision_expectedDelivery d);
                completed = TurnCompleted t u SdkTurnCompleted;
                g1 = push completed (yield_event final (push final g))\<lparr>ts_terminal := True\<rparr>
            in case finalizeConsumedTurn p now t u (ts_events g1) ephemeral s of
                 (Inl err, s1) \<Rightarrow> (Threw (describe err), g1, s1)
               | (Inr _, s1) \<Rightarrow> (Broke, yield_event completed (g1\<lparr>ts_finalized := True\<rparr>), s1))"

definition pass_event ::
  "(service_error \<Rightarrow> string) \<Rightarrow> 's store_port \<Rightarrow> string \<Rightarrow> string \<Rightarrow> string \<Rightarrow> thread_event \<Rightarrow>
     turn_stream \<Rightarrow> 's thread_service \<Rightarrow> 's body_end \<times> turn_stream \<times> 's thread_service" where
  "pass_event describe p now t u e g s =
     (case normalizeEvent p now t u e s of
        (Inl err, s1) \<Rightarrow> (Threw (describe err), g, s1)
      | (Inr n, s1) \<Rightarrow>
          let terminal = (case n of TurnFailed _ _ _ _ \<Rightarrow> True | _ \<Rightarrow> False);
              g1 = yield_event n ((push n g)\<lparr>ts_terminal := terminal\<rparr>)
          in (if terminal then Broke else Continue, g1, s1))"

definition stream_body ::
  "(string \<Rightarrow> (string, final_decision) result) \<Rightarrow> (service_error \<Rightarrow> string) \<Rightarrow> 's store_port \<Rightarrow> string \<Rightarrow>
     string \<Rightarrow> string \<Rightarrow> bool \<Rightarrow> thread_event \<Rightarrow> turn_stream \<Rightarrow> 's thread_service \<Rightarrow>
     's body_end \<times> turn_stream \<times> 's thread_service" where
  "stream_body parse describe p now t u ephemeral e g s =
     (case e of
        SdkItemCompleted (AgentMessage content) \<Rightarrow>
          take_message parse t u content (track_tools e g) s
      | SdkTurnCompleted \<Rightarrow> complete_turn describe p now t u ephemeral (track_tools e g) s
      | _ \<Rightarrow> pass_event describe p now t u e (track_tools e g) s)"

fun stream_loop ::
  "(string \<Rightarrow> (string, final_decision) result) \<Rightarrow> (service_error \<Rightarrow> string) \<Rightarrow> 's store_port \<Rightarrow> string \<Rightarrow>
     string \<Rightarrow> string \<Rightarrow> bool \<Rightarrow> thread_event list \<Rightarrow> stream_end \<Rightarrow> turn_stream \<Rightarrow>
     's thread_service \<Rightarrow> loop_end \<times> turn_stream \<times> 's thread_service" where
  "stream_loop parse describe p now t u ephemeral [] StreamEnded g s = (LoopBroke, g, s)"
| "stream_loop parse describe p now t u ephemeral [] (StreamThrew m) g s = (LoopThrew m, g, s)"
| "stream_loop parse describe p now t u ephemeral (e # es) end g s =
     (case stream_body parse describe p now t u ephemeral e g s of
        (Threw m, g1, s1) \<Rightarrow> (LoopThrew m, g1, s1)
      | (Broke, g1, s1) \<Rightarrow> (LoopBroke, g1, s1)
      | (Continue, g1, s1) \<Rightarrow> stream_loop parse describe p now t u ephemeral es end g1 s1)"

definition deliver :: "codex_event \<Rightarrow> turn_stream \<Rightarrow> turn_stream" where
  "deliver e g = yield_event e (push e g)"

text \<open>
  The whole generator: the loop, the notice if the stream ended too early, the handler of what
  was thrown, and the \<^verbatim>\<open>finally\<close> block. \<open>aborted\<close> is the state of the turn's signal when the
  handler looks at it. The result is what \<^verbatim>\<open>finally\<close> throws, if it does.
\<close>

definition consumeEvents ::
  "(string \<Rightarrow> (string, final_decision) result) \<Rightarrow> (service_error \<Rightarrow> string) \<Rightarrow> 's store_port \<Rightarrow> string \<Rightarrow>
     string \<Rightarrow> string \<Rightarrow> bool \<Rightarrow> bool \<Rightarrow> thread_event list \<Rightarrow> stream_end \<Rightarrow>
     's thread_service \<Rightarrow> (service_error, unit) result \<times> turn_stream \<times> 's thread_service" where
  "consumeEvents parse describe p now t u ephemeral aborted es end s =
     (let (le, g, s1) = stream_loop parse describe p now t u ephemeral es end new_stream s;
          g1 = (case le of
                  LoopBroke \<Rightarrow>
                    if ts_terminal g then g else deliver (TurnFailed t u stream_ended_notice None) g
                | LoopThrew m \<Rightarrow>
                    if aborted then deliver (TurnCancelled t u) g
                    else deliver (TurnFailed t u m None) g)
      in if ts_finalized g1 then (returns (), g1, s1)
         else
           let (r, s2) = finalizeConsumedTurn p now t u (ts_events g1) ephemeral s1
           in (r, g1, s2))"

subsection \<open>What the loop keeps\<close>

fun terminal_event :: "codex_event \<Rightarrow> bool" where
  "terminal_event (TurnCompleted t u e) = True"
| "terminal_event (TurnFailed t u m e) = True"
| "terminal_event (TurnCancelled t u) = True"
| "terminal_event _ = False"

text \<open>
  A call is open when it was reported in progress and not reported otherwise since.
\<close>

definition open_tool :: "string \<Rightarrow> thread_event list \<Rightarrow> bool" where
  "open_tool i es \<longleftrightarrow> (\<exists>es1 e es2. es = es1 @ e # es2 \<and> mcp_tool_event e = Some (i, True) \<and>
     (\<forall>e' \<in> set es2. mcp_tool_event e' \<noteq> Some (i, False)))"

text \<open>
  The agent's last word: a message, read as a decision, after which no call was started.
\<close>

definition decided ::
  "(string \<Rightarrow> (string, final_decision) result) \<Rightarrow> thread_event list \<Rightarrow> final_decision \<Rightarrow> bool" where
  "decided parse es d \<longleftrightarrow> (\<exists>es1 text es2. es = es1 @ SdkItemCompleted (AgentMessage text) # es2 \<and>
     parse text = returns d \<and> (\<forall>i. \<not> open_tool i es1) \<and>
     (\<forall>e i. e \<in> set es2 \<longrightarrow> mcp_tool_event e \<noteq> Some (i, True)))"

definition stream_ok ::
  "(string \<Rightarrow> (string, final_decision) result) \<Rightarrow> thread_event list \<Rightarrow> turn_stream \<Rightarrow> bool" where
  "stream_ok parse es g \<longleftrightarrow>
     list_all (\<lambda>e. \<not> terminal_event e) (ts_yielded g) \<and> \<not> ts_finalized g \<and>
     ts_events g = ts_yielded g \<and> \<not> ts_terminal g \<and>
     set (ts_tools g) = {i. open_tool i es} \<and>
     (\<forall>d. ts_pending g = Some d \<longrightarrow> decided parse es d)"

lemma open_tool_snoc:
  "open_tool i (es @ [e]) \<longleftrightarrow>
     mcp_tool_event e = Some (i, True) \<or> open_tool i es \<and> mcp_tool_event e \<noteq> Some (i, False)"
proof
  assume "open_tool i (es @ [e])"
  then obtain es1 x es2 where split: "es @ [e] = es1 @ x # es2" and x: "mcp_tool_event x = Some (i, True)"
    and later: "\<forall>e' \<in> set es2. mcp_tool_event e' \<noteq> Some (i, False)"
    by (auto simp: open_tool_def)
  show "mcp_tool_event e = Some (i, True) \<or> open_tool i es \<and> mcp_tool_event e \<noteq> Some (i, False)"
  proof (cases es2 rule: rev_cases)
    case Nil
    then show ?thesis using split x by simp
  next
    case (snoc es3 y)
    then have "es = es1 @ x # es3" "e = y" using split by auto
    then show ?thesis using x later snoc by (auto simp: open_tool_def)
  qed
next
  assume "mcp_tool_event e = Some (i, True) \<or> open_tool i es \<and> mcp_tool_event e \<noteq> Some (i, False)"
  then show "open_tool i (es @ [e])"
  proof
    assume "mcp_tool_event e = Some (i, True)"
    then show ?thesis unfolding open_tool_def by (intro exI [of _ es] exI [of _ e] exI [of _ "[]"]) simp
  next
    assume a: "open_tool i es \<and> mcp_tool_event e \<noteq> Some (i, False)"
    then obtain es1 x es2 where "es = es1 @ x # es2" "mcp_tool_event x = Some (i, True)"
      "\<forall>e' \<in> set es2. mcp_tool_event e' \<noteq> Some (i, False)" by (auto simp: open_tool_def)
    with a show ?thesis unfolding open_tool_def
      by (intro exI [of _ es1] exI [of _ x] exI [of _ "es2 @ [e]"]) auto
  qed
qed

lemma decided_snoc:
  "decided parse es d \<Longrightarrow> (\<And>i. mcp_tool_event e \<noteq> Some (i, True)) \<Longrightarrow> decided parse (es @ [e]) d"
  unfolding decided_def by (elim exE conjE) (rule_tac x = es1 in exI, fastforce)

lemma track_tools_keeps [simp]:
  "ts_events (track_tools e g) = ts_events g" "ts_yielded (track_tools e g) = ts_yielded g"
  "ts_terminal (track_tools e g) = ts_terminal g" "ts_finalized (track_tools e g) = ts_finalized g"
  by (auto simp: track_tools_def split: option.splits bool.splits prod.splits)

lemma track_tools_ok: "stream_ok parse es g \<Longrightarrow> stream_ok parse (es @ [e]) (track_tools e g)"
  by (auto simp: stream_ok_def track_tools_def open_tool_snoc decided_snoc
      split: option.splits bool.splits)

lemma new_stream_ok: "stream_ok parse [] new_stream"
  by (simp add: stream_ok_def new_stream_def open_tool_def)

text \<open>An event other than the completion of the turn and the completion of a message.\<close>

lemma normalizeEvent_terminal:
  "normalizeEvent p now t u e s = (returns n, s') \<Longrightarrow> e \<noteq> SdkTurnCompleted \<Longrightarrow>
   terminal_event n = (case n of TurnFailed _ _ _ _ \<Rightarrow> True | _ \<Rightarrow> False) \<and>
   (\<forall>t' u' e'. n \<noteq> TurnCompleted t' u' e')"
  by (cases e) (auto simp: normalizeEvent.simps split: sum.splits option.splits list.splits prod.splits if_splits)

definition stream_ended ::
  "(string \<Rightarrow> (string, final_decision) result) \<Rightarrow> string \<Rightarrow> string \<Rightarrow> thread_event list \<Rightarrow>
     turn_stream \<Rightarrow> bool" where
  "stream_ended parse t u es g \<longleftrightarrow>
     ts_terminal g \<and> ts_events g = ts_yielded g \<and>
     (\<exists>front e. ts_yielded g = front @ [e] \<and> list_all (\<lambda>e. \<not> terminal_event e) front \<and>
        ((\<exists>m ev. e = TurnFailed t u m ev) \<and> \<not> ts_finalized g \<or>
         (\<exists>es1 d front'. es = es1 @ [SdkTurnCompleted] \<and> e = TurnCompleted t u SdkTurnCompleted \<and>
            decided parse es1 d \<and> (\<forall>i. \<not> open_tool i es1) \<and>
            front = front' @ [FinalDecision t u (decision_message d) (decision_expectedDelivery d)] \<and>
            ts_finalized g)))"

definition stream_threw :: "turn_stream \<Rightarrow> bool" where
  "stream_threw g \<longleftrightarrow> list_all (\<lambda>e. \<not> terminal_event e) (ts_yielded g) \<and> \<not> ts_finalized g"

text \<open>What one event does to the loop.\<close>

fun body_post ::
  "(string \<Rightarrow> (string, final_decision) result) \<Rightarrow> string \<Rightarrow> string \<Rightarrow> thread_event list \<Rightarrow>
     's body_end \<times> turn_stream \<times> 's thread_service \<Rightarrow> bool" where
  "body_post parse t u es (Continue, g, s) = stream_ok parse es g"
| "body_post parse t u es (Broke, g, s) = stream_ended parse t u es g"
| "body_post parse t u es (Threw m, g, s) = stream_threw g"

lemma stream_ok_threw: "stream_ok parse es g \<Longrightarrow> stream_threw g"
  by (simp add: stream_ok_def stream_threw_def)

lemma normalizeEvent_failed:
  "normalizeEvent p now t u e s = (returns (TurnFailed t' u' m ev), s') \<Longrightarrow> t' = t \<and> u' = u"
  by (cases e) (auto simp: normalizeEvent.simps split: sum.splits option.splits list.splits prod.splits if_splits)

text \<open>The three kinds of events.\<close>

lemma stream_body_cases [case_names message completion other]:
  assumes "\<And>content. \<lbrakk>e = SdkItemCompleted (AgentMessage content); track_tools e g = g;
      stream_body parse describe p now t u ephemeral e g s = take_message parse t u content g s\<rbrakk> \<Longrightarrow> P"
    and "\<lbrakk>e = SdkTurnCompleted; track_tools e g = g;
      stream_body parse describe p now t u ephemeral e g s =
        complete_turn describe p now t u ephemeral g s\<rbrakk> \<Longrightarrow> P"
    and "\<lbrakk>e \<noteq> SdkTurnCompleted; stream_body parse describe p now t u ephemeral e g s =
        pass_event describe p now t u e (track_tools e g) s\<rbrakk> \<Longrightarrow> P"
  shows P
proof (cases e)
  case (SdkItemCompleted i)
  then show ?thesis using assms
    by (cases i) (simp_all add: stream_body_def track_tools_def)
qed (use assms in \<open>simp_all add: stream_body_def track_tools_def\<close>)

lemma pass_event_post:
  assumes "stream_ok parse es g" and "e \<noteq> SdkTurnCompleted"
  shows "body_post parse t u es (pass_event describe p now t u e g s)"
proof (cases "normalizeEvent p now t u e s")
  case (Pair r s1)
  show ?thesis
  proof (cases r)
    case (Inl err)
    then show ?thesis using assms(1) Pair by (simp add: pass_event_def stream_ok_threw)
  next
    case (Inr n)
    note n = Pair [unfolded Inr]
    show ?thesis
    proof (cases "terminal_event n")
      case True
      then obtain t' u' m ev where f: "n = TurnFailed t' u' m ev"
        using normalizeEvent_terminal [OF n assms(2)] by (auto split: codex_event.splits)
      with n have "t' = t" "u' = u" using normalizeEvent_failed by blast+
      then show ?thesis using assms(1) f Pair Inr
        by (simp add: pass_event_def Let_def stream_ended_def stream_ok_def yield_event_def push_def)
    next
      case False
      then have "(case n of TurnFailed _ _ _ _ \<Rightarrow> True | _ \<Rightarrow> False) = False"
        using normalizeEvent_terminal [OF n assms(2)] by blast
      then show ?thesis using assms(1) Pair Inr False
        by (simp add: pass_event_def Let_def stream_ok_def yield_event_def push_def)
    qed
  qed
qed

lemma take_message_post:
  assumes "stream_ok parse es g" and "stream_ok parse (es @ [SdkItemCompleted (AgentMessage m)]) g"
  shows "body_post parse t u (es @ [SdkItemCompleted (AgentMessage m)]) (take_message parse t u m g s)"
proof -
  have "decided parse (es @ [SdkItemCompleted (AgentMessage m)]) d"
    if "parse m = returns d" "ts_tools g = []" for d
    unfolding decided_def
  proof (intro exI conjI)
    show "es @ [SdkItemCompleted (AgentMessage m)] = es @ SdkItemCompleted (AgentMessage m) # []" by simp
    show "\<forall>i. \<not> open_tool i es" using assms(1) that(2) by (simp add: stream_ok_def)
  qed (use that(1) in auto)
  with assms(2) show ?thesis
    by (auto simp: take_message_def Let_def stream_ok_def stream_threw_def yield_event_def push_def
        split: sum.splits)
qed

lemma complete_turn_post:
  assumes "stream_ok parse es g"
  shows "body_post parse t u (es @ [SdkTurnCompleted])
    (complete_turn describe p now t u ephemeral g s)"
proof (cases "ts_tools g = [] \<and> ts_pending g \<noteq> None")
  case True
  then obtain d where d: "ts_pending g = Some d" "ts_tools g = []" by auto
  with assms have "decided parse es d" "\<forall>i. \<not> open_tool i es" by (auto simp: stream_ok_def)
  with assms show ?thesis using d
    by (auto simp: complete_turn_def Let_def stream_ended_def stream_threw_def stream_ok_def
        yield_event_def push_def split: prod.splits sum.splits)
next
  case False
  then show ?thesis using stream_ok_threw [OF assms]
    by (auto simp: complete_turn_def split: option.splits)
qed

lemma stream_body_post:
  assumes "stream_ok parse es g"
  shows "body_post parse t u (es @ [e]) (stream_body parse describe p now t u ephemeral e g s)"
proof -
  note ok = track_tools_ok [OF assms, of e]
  show ?thesis
  proof (cases rule: stream_body_cases [of e g parse describe p now t u ephemeral s])
    case (message m)
    then show ?thesis using take_message_post [of parse es g m] assms ok by simp
  next
    case completion
    then show ?thesis using complete_turn_post [OF assms] by simp
  next
    case other
    then show ?thesis using pass_event_post [OF ok] by simp
  qed
qed

lemma stream_loop_post:
  "stream_ok parse es0 g \<Longrightarrow>
   stream_loop parse describe p now t u ephemeral es end g s = (le, g', s') \<Longrightarrow>
   (case le of
      LoopBroke \<Rightarrow> stream_ok parse (es0 @ es) g' \<or>
        (\<exists>es1 es2. es0 @ es = es1 @ es2 \<and> stream_ended parse t u es1 g')
    | LoopThrew m \<Rightarrow> stream_threw g')"
proof (induction es arbitrary: es0 g s)
  case Nil
  then show ?case by (cases "end") (auto simp: stream_ok_threw)
next
  case (Cons e es)
  obtain b g1 s1 where body: "stream_body parse describe p now t u ephemeral e g s = (b, g1, s1)"
    by (cases "stream_body parse describe p now t u ephemeral e g s") auto
  have post: "body_post parse t u (es0 @ [e]) (b, g1, s1)"
    using stream_body_post [OF Cons.prems(1)] body by metis
  show ?case
  proof (cases b)
    case Continue
    have "(es0 @ [e]) @ es = es0 @ e # es" by simp
    with Continue show ?thesis
      using Cons.IH [of "es0 @ [e]" g1 s1] Cons.prems(2) body post by (simp cong: loop_end.case_cong)
  next
    case Broke
    then have le: "le = LoopBroke" and ended: "stream_ended parse t u (es0 @ [e]) g'"
      using Cons.prems(2) body post by auto
    have "\<exists>es1 es2. es0 @ e # es = es1 @ es2 \<and> stream_ended parse t u es1 g'"
      by (intro exI [of _ "es0 @ [e]"] exI [of _ es] conjI ended) simp
    with le show ?thesis by simp
  next
    case (Threw m)
    then show ?thesis using Cons.prems(2) body post by auto
  qed
qed

lemma consumeEvents_split:
  assumes "consumeEvents parse describe p now t u ephemeral aborted es end s = (r, g, s')"
  obtains le g0 s1 where
    "stream_loop parse describe p now t u ephemeral es end new_stream s = (le, g0, s1)"
    and "g = (case le of
                LoopBroke \<Rightarrow>
                  if ts_terminal g0 then g0 else deliver (TurnFailed t u stream_ended_notice None) g0
              | LoopThrew m \<Rightarrow>
                  if aborted then deliver (TurnCancelled t u) g0
                  else deliver (TurnFailed t u m None) g0)"
    and "(r, s') = (if ts_finalized g then (returns (), s1)
                    else finalizeConsumedTurn p now t u (ts_events g) ephemeral s1)"
  using assms unfolding consumeEvents_def Let_def
  by (auto split: prod.splits if_splits)

text \<open>The two ways a run can end.\<close>

lemma consumeEvents_post:
  assumes "consumeEvents parse describe p now t u ephemeral aborted es end s = (r, g, s')"
  shows "(\<exists>es1 es2. es = es1 @ es2 \<and> stream_ended parse t u es1 g) \<or>
    (\<exists>front e. ts_yielded g = front @ [e] \<and> list_all (\<lambda>e. \<not> terminal_event e) front \<and>
       (e = TurnCancelled t u \<or> (\<exists>m. e = TurnFailed t u m None)) \<and> \<not> ts_finalized g \<and>
       last (ts_events g) = e)"
proof -
  obtain le g0 s1 where
    loop: "stream_loop parse describe p now t u ephemeral es end new_stream s = (le, g0, s1)"
    and g: "g = (case le of
                LoopBroke \<Rightarrow>
                  if ts_terminal g0 then g0 else deliver (TurnFailed t u stream_ended_notice None) g0
              | LoopThrew m \<Rightarrow>
                  if aborted then deliver (TurnCancelled t u) g0
                  else deliver (TurnFailed t u m None) g0)"
    using assms by (rule consumeEvents_split)
  note post = stream_loop_post [OF new_stream_ok loop]
  have delivered: "ts_yielded (deliver e g0) = ts_yielded g0 @ [e]"
    "ts_finalized (deliver e g0) = ts_finalized g0" "last (ts_events (deliver e g0)) = e" for e
    by (simp_all add: deliver_def push_def yield_event_def)
  show ?thesis
  proof (cases le)
    case LoopBroke
    show ?thesis
    proof (cases "ts_terminal g0")
      case True
      then show ?thesis using post g LoopBroke by (auto simp: stream_ok_def)
    next
      case False
      then have "stream_ok parse es g0" using post LoopBroke by (auto simp: stream_ended_def)
      then show ?thesis using False g LoopBroke by (simp add: stream_ok_def delivered)
    qed
  next
    case (LoopThrew m)
    then have "stream_threw g0" using post by simp
    then show ?thesis using g LoopThrew by (simp add: stream_threw_def delivered)
  qed
qed

lemma finalize_active:
  "activeTurns (snd (finalizeConsumedTurn p now t u events ephemeral s)) = js_delete (activeTurns s) u"
  by (auto simp: finalizeConsumedTurn_def finishTurn_def store_save_def Let_def
      split: prod.splits sum.splits)

lemma normalizeEvent_active:
  "activeTurns (snd (normalizeEvent p now t u e s)) = activeTurns s"
  by (cases e) (auto simp: normalizeEvent.simps store_save_def split: prod.splits sum.splits option.splits list.splits)

lemma stream_body_active:
  assumes "stream_body parse describe p now t u ephemeral e g s = (b, g1, s1)"
  shows "activeTurns s1 = activeTurns s \<and> ts_finalized g1 = ts_finalized g \<or>
    activeTurns s1 = js_delete (activeTurns s) u"
proof (cases rule: stream_body_cases [of e g parse describe p now t u ephemeral s])
  case (message m)
  then show ?thesis using assms
    by (auto simp: take_message_def Let_def yield_event_def push_def split: if_splits sum.splits)
next
  case completion
  have f: "finalizeConsumedTurn p now t u es ephemeral s = (r, x) \<Longrightarrow>
      activeTurns x = js_delete (activeTurns s) u" for es r x
    using finalize_active [of p now t u es ephemeral s] by simp
  show ?thesis using assms completion(3)
    by (auto simp: complete_turn_def Let_def yield_event_def push_def dest!: f
        split: if_splits option.splits sum.splits prod.splits)
next
  case other
  have n: "normalizeEvent p now t u e s = (r, x) \<Longrightarrow> activeTurns x = activeTurns s" for r x
    using normalizeEvent_active [of p now t u e s] by simp
  show ?thesis using assms other(2)
    by (auto simp: pass_event_def Let_def yield_event_def push_def
         dest!: n split: sum.splits prod.splits)
qed

lemma stream_loop_active:
  "stream_loop parse describe p now t u ephemeral es end g s = (le, g1, s1) \<Longrightarrow>
   activeTurns s1 = activeTurns s \<and> ts_finalized g1 = ts_finalized g \<or>
   activeTurns s1 = js_delete (activeTurns s) u"
proof (induction es arbitrary: g s)
  case Nil
  then show ?case by (cases "end") auto
next
  case (Cons e es)
  obtain b g2 s2 where body: "stream_body parse describe p now t u ephemeral e g s = (b, g2, s2)"
    by (cases "stream_body parse describe p now t u ephemeral e g s") auto
  have twice: "js_delete (js_delete m u) u = js_delete m u" for m :: "(string, active_turn) js_map"
    by (simp add: AList.delete_eq)
  show ?case
    using stream_body_active [OF body] Cons.prems body twice Cons.IH [of g2 s2]
    by (cases b) auto
qed

lemma consumeEvents_active:
  assumes "consumeEvents parse describe p now t u ephemeral aborted es end s = (r, g, s')"
  shows "activeTurns s' = js_delete (activeTurns s) u"
proof -
  obtain le g0 s1 where
    loop: "stream_loop parse describe p now t u ephemeral es end new_stream s = (le, g0, s1)"
    and g: "g = (case le of
                LoopBroke \<Rightarrow>
                  if ts_terminal g0 then g0 else deliver (TurnFailed t u stream_ended_notice None) g0
              | LoopThrew m \<Rightarrow>
                  if aborted then deliver (TurnCancelled t u) g0
                  else deliver (TurnFailed t u m None) g0)"
    and fin: "(r, s') = (if ts_finalized g then (returns (), s1)
                    else finalizeConsumedTurn p now t u (ts_events g) ephemeral s1)"
    using assms by (rule consumeEvents_split)
  have same: "ts_finalized g = ts_finalized g0"
    using g by (simp add: deliver_def push_def yield_event_def split: loop_end.splits)
  have s': "activeTurns s' = (if ts_finalized g then activeTurns s1 else js_delete (activeTurns s1) u)"
    using fin finalize_active [of p now t u "ts_events g" ephemeral s1]
    by (metis snd_conv)
  have twice: "js_delete (js_delete m u) u = js_delete m u" for m :: "(string, active_turn) js_map"
    by (simp add: AList.delete_eq)
  show ?thesis
    using stream_loop_active [OF loop] s' same twice by (auto simp: new_stream_def)
qed

text \<open>
  C2. However a turn goes (an error of the SDK, of the store, a cancellation, a stream that
  stops), its consumer is given exactly one terminal event, as the last one, and the turn is no
  longer active, the other turns being as before.
\<close>

theorem turn_ends_with_one_terminal_event:
  "case consumeEvents parse describe p now t u ephemeral aborted es end s of (r, g, s') \<Rightarrow>
     (\<exists>front e. ts_yielded g = front @ [e] \<and> terminal_event e \<and>
        list_all (\<lambda>e. \<not> terminal_event e) front) \<and>
     js_get (activeTurns s') v = (if v = u then None else js_get (activeTurns s) v)"
proof -
  obtain r g s' where run: "consumeEvents parse describe p now t u ephemeral aborted es end s = (r, g, s')"
    by (cases "consumeEvents parse describe p now t u ephemeral aborted es end s") auto
  have "\<exists>front e. ts_yielded g = front @ [e] \<and> terminal_event e \<and>
        list_all (\<lambda>e. \<not> terminal_event e) front"
    using consumeEvents_post [OF run] unfolding stream_ended_def by fastforce
  then show ?thesis using run consumeEvents_active [OF run] by (simp add: js_get_delete)
qed

text \<open>
  The reader of final decisions the service uses, with the texts of its errors.
\<close>

definition decision_reader ::
  "(decision_error \<Rightarrow> string) \<Rightarrow> (string \<Rightarrow> 'v option) \<Rightarrow> ('v \<Rightarrow> final_answer option) \<Rightarrow> string \<Rightarrow>
     (string, final_decision) result" where
  "decision_reader msg json_parse shape content =
     (case parseFinalCodexDecision json_parse shape content of
        Inl e \<Rightarrow> throws (msg e)
      | Inr d \<Rightarrow> returns d)"

lemma decided_delivery:
  "decided (decision_reader msg json_parse shape) es d \<Longrightarrow>
   expectedDelivery_valid (decision_expectedDelivery d) \<and> decision_message d \<noteq> []"
proof -
  have "expectedDelivery_valid (decision_expectedDelivery d) \<and> decision_message d \<noteq> []"
    if "decision_reader msg json_parse shape content = returns d" for content
    using that parseFinalCodexDecision_delivery [of json_parse shape content d]
    by (auto simp: decision_reader_def split: sum.splits)
  moreover assume "decided (decision_reader msg json_parse shape) es d"
  ultimately show ?thesis unfolding decided_def by blast
qed

text \<open>
  A turn is reported completed only if the SDK completed it, with no canvas tool call open,
  after a message that reads as a final decision, with no call started after that message. The
  decision is the last event before the completion, and satisfies the delivery contract.
\<close>

lemma completed_turn_has_decision:
  assumes "consumeEvents (decision_reader msg json_parse shape) describe p now t u ephemeral
      aborted es end s = (r, g, s')"
    and "TurnCompleted t' u' e \<in> set (ts_yielded g)"
  shows "\<exists>es1 es2 d front. es = es1 @ SdkTurnCompleted # es2 \<and>
    decided (decision_reader msg json_parse shape) es1 d \<and> (\<forall>i. \<not> open_tool i es1) \<and>
    ts_yielded g =
      front @ [FinalDecision t u (decision_message d) (decision_expectedDelivery d),
               TurnCompleted t u SdkTurnCompleted] \<and>
    expectedDelivery_valid (decision_expectedDelivery d) \<and> decision_message d \<noteq> []"
proof -
  let ?parse = "decision_reader msg json_parse shape"
  obtain front x where front: "ts_yielded g = front @ [x]" "list_all (\<lambda>e. \<not> terminal_event e) front"
    and x: "x = TurnCancelled t u \<or> (\<exists>m ev. x = TurnFailed t u m ev) \<or>
      (\<exists>es1 es2 d front'. es = (es1 @ [SdkTurnCompleted]) @ es2 \<and> x = TurnCompleted t u SdkTurnCompleted \<and>
        decided ?parse es1 d \<and> (\<forall>i. \<not> open_tool i es1) \<and>
        front = front' @ [FinalDecision t u (decision_message d) (decision_expectedDelivery d)])"
    using consumeEvents_post [OF assms(1)] unfolding stream_ended_def by blast
  have "\<forall>y \<in> set front. \<not> terminal_event y" using front(2) by (simp add: list_all_iff)
  then have "TurnCompleted t' u' e \<notin> set front" by auto
  then have "x = TurnCompleted t' u' e" using assms(2) front(1) by simp
  then obtain es1 es2 d front' where ends: "es = (es1 @ [SdkTurnCompleted]) @ es2"
    "x = TurnCompleted t u SdkTurnCompleted" "decided ?parse es1 d" "\<forall>i. \<not> open_tool i es1"
    "front = front' @ [FinalDecision t u (decision_message d) (decision_expectedDelivery d)]"
    using x by auto
  show ?thesis
  proof (intro exI conjI)
    show "es = es1 @ SdkTurnCompleted # es2" using ends(1) by simp
    show "ts_yielded g = front' @ [FinalDecision t u (decision_message d) (decision_expectedDelivery d),
        TurnCompleted t u SdkTurnCompleted]" using front(1) ends(2,5) by simp
  qed (use ends(3,4) decided_delivery [OF ends(3)] in auto)
qed

definition sample_stream :: "thread_event list" where
  "sample_stream = [SdkTurnStarted, SdkItemStarted (McpToolCall ''i'' True),
     SdkItemCompleted (McpToolCall ''i'' False), SdkItemCompleted (AgentMessage ''a''),
     SdkTurnCompleted]"

lemma sample_reader:
  "\<exists>d. decision_reader (\<lambda>_. ''bad'') Some (\<lambda>_. Some sample_answer) ''a'' = returns d"
  unfolding decision_reader_def parseFinalCodexDecision_def
  by (simp add: finalCodexDecision_valid_def sample_answer_def bounded_text_def
      finalCompletionCriterion_valid_def Let_def)

theorem completed_turn_has_decision_witness:
  "\<exists>r g s' front (d :: final_decision). consumeEvents (decision_reader (\<lambda>_. ''bad'') Some (\<lambda>_. Some sample_answer))
      (\<lambda>_. ''e'') sample_port ''d'' ''k'' ''u'' True False sample_stream StreamEnded open_service = (r, g, s') \<and>
     ts_yielded g =
       front @ [FinalDecision ''k'' ''u'' (decision_message d) (decision_expectedDelivery d),
                TurnCompleted ''k'' ''u'' SdkTurnCompleted]"
proof -
  let ?parse = "decision_reader (\<lambda>_. ''bad'') Some (\<lambda>_. Some sample_answer)"
  let ?run = "consumeEvents ?parse (\<lambda>_. ''e'') sample_port ''d'' ''k'' ''u'' True False
      sample_stream StreamEnded open_service"
  obtain d where "?parse ''a'' = returns d" using sample_reader by blast
  then have "TurnCompleted ''k'' ''u'' SdkTurnCompleted \<in> set (ts_yielded (fst (snd ?run)))"
    by (simp add: consumeEvents_def sample_stream_def stream_body_def pass_event_def take_message_def
        complete_turn_def track_tools_def new_stream_def js_add_def yield_event_def push_def
        finalizeConsumedTurn_def normalizeEvent.simps Let_def)
  moreover obtain r g s' where run: "?run = (r, g, s')" by (cases ?run) auto
  ultimately have "TurnCompleted ''k'' ''u'' SdkTurnCompleted \<in> set (ts_yielded g)" by simp
  from completed_turn_has_decision [OF run this] obtain front and d' :: final_decision where
    "ts_yielded g = front @ [FinalDecision ''k'' ''u'' (decision_message d') (decision_expectedDelivery d'),
      TurnCompleted ''k'' ''u'' SdkTurnCompleted]" by blast
  with run show ?thesis by blast
qed

subsection \<open>What the store holds of an ended turn\<close>

text \<open>The record of a turn whose events were \<open>events\<close>.\<close>

definition turn_recorded :: "string \<Rightarrow> string \<Rightarrow> codex_event list \<Rightarrow> thread_record \<Rightarrow> bool" where
  "turn_recorded now u events r \<longleftrightarrow>
     (\<forall>x \<in> set (th_turns r). tn_turnId x = u \<longrightarrow>
        tn_status x = fst (final_status events) \<and> tn_events x = events \<and>
        tn_completedAt x = Some now \<and>
        (\<forall>m. snd (final_status events) = Some m \<longrightarrow> tn_errorMessage x = Some m))"

lemma finish_turn_record_fields:
  "tn_turnId (finish_turn_record u status events failure now x) = tn_turnId x"
  "tn_turnId x = u \<Longrightarrow>
     tn_status (finish_turn_record u status events failure now x) = status \<and>
     tn_events (finish_turn_record u status events failure now x) = events \<and>
     tn_completedAt (finish_turn_record u status events failure now x) = Some now \<and>
     (\<forall>m. failure = Some m \<longrightarrow>
        tn_errorMessage (finish_turn_record u status events failure now x) = Some m)"
  by (cases failure; simp add: finish_turn_record_def Let_def)+

lemma finish_turn_record_recorded:
  "turn_recorded now u events
     (r\<lparr>th_turns := map (finish_turn_record u (fst (final_status events)) events
          (snd (final_status events)) now) turns, th_updatedAt := d\<rparr>)"
  by (simp add: turn_recorded_def finish_turn_record_fields)

context thread_store
begin

lemma store_save_inv: "inv (svc_store s) \<Longrightarrow> inv (svc_store (snd (store_save port r s)))"
  using save_old [of "svc_store s" r] by (auto simp: store_save_cases)

lemma store_save_inv': "inv (svc_store s) \<Longrightarrow> store_save port r s = (x, s2) \<Longrightarrow> inv (svc_store s2)"
  using store_save_inv [of s r] by simp

lemma finishTurn_inv: "inv (svc_store s) \<Longrightarrow>
    inv (svc_store (snd (finishTurn port now t u status events failure s)))"
  by (simp add: finishTurn_def store_save_inv split: sum.splits)

lemma finalize_inv: "inv (svc_store s) \<Longrightarrow>
    inv (svc_store (snd (finalizeConsumedTurn port now t u events ephemeral s)))"
  by (simp add: finalizeConsumedTurn_def Let_def finishTurn_inv split: prod.splits)

lemma normalizeEvent_inv:
  "inv (svc_store s) \<Longrightarrow> inv (svc_store (snd (normalizeEvent port now t u e s)))"
  by (cases e) (auto simp: normalizeEvent.simps split: sum.splits option.splits list.splits prod.splits
      dest: store_save_inv')

lemma finalize_recorded:
  assumes "inv (svc_store s)"
    and "finalizeConsumedTurn port now t u events False s = (returns (), s')"
  shows "\<exists>r. find_thread t (records (svc_store s')) = Some r \<and> turn_recorded now u events r"
proof -
  define s0 where "s0 = s\<lparr>activeTurns := js_delete (activeTurns s) u\<rparr>"
  have inv: "inv (svc_store s0)" using assms(1) by (simp add: s0_def)
  have "finishTurn port now t u (fst (final_status events)) events (snd (final_status events)) s0 =
      (returns (), s')"
    using assms(2) by (simp add: finalizeConsumedTurn_def s0_def Let_def split_beta)
  then obtain r where r: "requireThread port t s0 = returns r"
    and saved: "store_save port (r\<lparr>th_turns := map (finish_turn_record u (fst (final_status events))
        events (snd (final_status events)) now) (th_turns r), th_updatedAt := now\<rparr>) s0 = (returns (), s')"
    by (auto simp: finishTurn_def split: sum.splits)
  have id: "th_threadId r = t" and mem: "t \<in> set (thread_ids (records (svc_store s0)))"
    using find_thread_Some r by (auto simp: requireThread_Inr_iff [OF inv])
  have "find_thread t (records (svc_store s')) =
      Some (r\<lparr>th_turns := map (finish_turn_record u (fst (final_status events)) events
        (snd (final_status events)) now) (th_turns r), th_updatedAt := now\<rparr>)"
    using saved_records [OF inv saved] id mem by (simp add: find_thread_replace )
  then show ?thesis using finish_turn_record_recorded by blast
qed

lemma stream_body_recorded:
  assumes inv: "inv (svc_store s)" and "\<not> ts_finalized g"
    and run: "stream_body parse describe port now t u False e g s = (b, g1, s1)"
  shows "inv (svc_store s1) \<and> (ts_finalized g1 \<longrightarrow> b = Broke \<and>
    (\<exists>r. find_thread t (records (svc_store s1)) = Some r \<and> turn_recorded now u (ts_events g1) r))"
proof (cases rule: stream_body_cases [of e g parse describe port now t u False s])
  case (message m)
  then show ?thesis using assms
    by (auto simp: take_message_def Let_def yield_event_def push_def split: if_splits sum.splits)
next
  case completion
  have i: "finalizeConsumedTurn port now t u es False s = (x, s2) \<Longrightarrow> inv (svc_store s2)" for es x s2
    using finalize_inv [OF inv, of now t u es False] by simp
  show ?thesis using assms completion(3)
    by (auto simp: complete_turn_def Let_def yield_event_def push_def dest: i finalize_recorded [OF inv]
        split: if_splits option.splits sum.splits prod.splits)
next
  case other
  have n: "normalizeEvent port now t u e s = (x, s2) \<Longrightarrow> inv (svc_store s2)" for x s2
    using normalizeEvent_inv [OF inv, of now t u e] by simp
  show ?thesis using assms other(2)
    by (auto simp: pass_event_def Let_def yield_event_def push_def
         dest!: n split: sum.splits prod.splits)
qed

lemma stream_loop_recorded:
  "inv (svc_store s) \<Longrightarrow> \<not> ts_finalized g \<Longrightarrow>
   stream_loop parse describe port now t u False es end g s = (le, g1, s1) \<Longrightarrow>
   inv (svc_store s1) \<and> (ts_finalized g1 \<longrightarrow> le = LoopBroke \<and>
     (\<exists>r. find_thread t (records (svc_store s1)) = Some r \<and> turn_recorded now u (ts_events g1) r))"
proof (induction es arbitrary: g s)
  case Nil
  then show ?case by (cases "end") auto
next
  case (Cons e es)
  obtain b g2 s2 where body: "stream_body parse describe port now t u False e g s = (b, g2, s2)"
    by (cases "stream_body parse describe port now t u False e g s") auto
  note step = stream_body_recorded [OF Cons.prems(1,2) body]
  show ?case
  proof (cases b)
    case Continue
    then show ?thesis using step Cons.IH [of s2 g2] Cons.prems(3) body by auto
  qed (use step Cons.prems(3) body in auto)
qed

lemma consumeEvents_recorded:
  assumes inv: "inv (svc_store s)"
    and run: "consumeEvents parse describe port now t u False aborted es end s = (returns (), g, s')"
  shows "\<exists>r. find_thread t (records (svc_store s')) = Some r \<and> turn_recorded now u (ts_events g) r"
proof -
  obtain le g0 s1 where
    loop: "stream_loop parse describe port now t u False es end new_stream s = (le, g0, s1)"
    and g: "g = (case le of
                LoopBroke \<Rightarrow>
                  if ts_terminal g0 then g0 else deliver (TurnFailed t u stream_ended_notice None) g0
              | LoopThrew m \<Rightarrow>
                  if aborted then deliver (TurnCancelled t u) g0
                  else deliver (TurnFailed t u m None) g0)"
    and fin: "(returns (), s') = (if ts_finalized g then (returns (), s1)
                    else finalizeConsumedTurn port now t u (ts_events g) False s1)"
    using run by (rule consumeEvents_split)
  note kept = stream_loop_recorded [OF inv _ loop, simplified new_stream_def turn_stream.simps]
  have same: "ts_finalized g = ts_finalized g0"
    using g by (simp add: deliver_def push_def yield_event_def split: loop_end.splits)
  show ?thesis
  proof (cases "ts_finalized g")
    case False
    then show ?thesis using finalize_recorded [of s1 now t u "ts_events g" s'] fin kept by simp
  next
    case True
    then have "ts_terminal g0"
      using stream_loop_post [OF new_stream_ok loop] kept same
      by (auto simp: stream_ok_def stream_ended_def)
    then show ?thesis using True fin kept same g by auto
  qed
qed

text \<open>
  A failure whose text the record's schema refuses cannot be recorded: the save fails, and the
  turn stays running in the store.
\<close>

lemma unrecordable_failure:
  assumes inv: "inv (svc_store s)" and found: "find_thread t (records (svc_store s)) = Some r"
    and x: "x \<in> set (th_turns r)" "tn_turnId x = u" and m: "m = [] \<or> length m > 8192"
  shows "\<exists>g. consumeEvents parse describe port now t u False aborted [SdkTurnFailed m] end s =
    (throws (StoreFailed RecordInvalid), g, s\<lparr>activeTurns := js_delete (activeTurns s) u\<rparr>)"
proof -
  let ?e = "TurnFailed t u m (Some (SdkTurnFailed m))"
  let ?s = "s\<lparr>activeTurns := js_delete (activeTurns s) u\<rparr>"
  let ?r = "r\<lparr>th_turns := map (finish_turn_record u TurnError [?e] (Some m) now) (th_turns r),
      th_updatedAt := now\<rparr>"
  have "\<not> turn_valid isodate (finish_turn_record u TurnError [?e] (Some m) now x)"
    using x(2) m by (auto simp: turn_valid_def finish_turn_record_def Let_def bounded_text_def)
  then have invalid: "\<not> thread_valid isodate ?r"
    using x(1) by (auto simp: thread_valid_def list_all_iff)
  have "requireThread port t ?s = returns r" using inv found by (simp add: requireThread_Inr_iff)
  moreover have "store_save port ?r ?s = (throws (StoreFailed RecordInvalid), ?s)"
    using inv invalid by (simp add: store_save_cases)
  ultimately have "finishTurn port now t u TurnError [?e] (Some m) ?s =
      (throws (StoreFailed RecordInvalid), ?s)"
    by (simp add: finishTurn_def)
  then show ?thesis
    by (simp add: consumeEvents_def stream_body_def pass_event_def track_tools_def new_stream_def
        normalizeEvent.simps yield_event_def push_def finalizeConsumedTurn_def final_status.simps)
qed

end


definition file_service :: "store_files thread_service" where
  "file_service = \<lparr>svc_store = sample_files,
     activeTurns = [(''u'', \<lparr>at_threadId = ''a'', at_aborted = False\<rparr>)]\<rparr>"



definition busy_thread :: thread_record where
  "busy_thread = open_thread\<lparr>th_turns := [sample_turn\<lparr>tn_turnId := ''u'', tn_status := Running\<rparr>]\<rparr>"

definition busy_service :: "memory_store thread_service" where
  "busy_service = \<lparr>svc_store = [(''k'', busy_thread)],
     activeTurns = [(''u'', \<lparr>at_threadId = ''k'', at_aborted = False\<rparr>)]\<rparr>"


subsection \<open>The service as a machine\<close>

text \<open>
  Requests to the service one after another, and the ends of the turns it started.
\<close>

datatype service_event =
  StartEvent string string string string "string option" turn_input
| ResumeEvent string string string string "string option" bool turn_input
| ArchiveEvent string string string
| CancelEvent string
| RecoverEvent string
| ConsumeEvent string string string bool bool "thread_event list" stream_end

fun service_step ::
  "service_config \<Rightarrow> 's store_port \<Rightarrow> file_system \<Rightarrow>
     (string \<Rightarrow> (string, final_decision) result) \<Rightarrow> (service_error \<Rightarrow> string) \<Rightarrow>
     's thread_service \<Rightarrow> service_event \<Rightarrow> 's thread_service" where
  "service_step cfg p fs parse describe s (StartEvent threadId turnId now finishedAt started input) =
     snd (startTurn cfg p fs threadId turnId now finishedAt started input s)"
| "service_step cfg p fs parse describe s
     (ResumeEvent threadId turnId now finishedAt started ephemeral input) =
     snd (resumeTurn cfg p fs threadId turnId now finishedAt started ephemeral input s)"
| "service_step cfg p fs parse describe s (ArchiveEvent now canvasId threadId) =
     snd (archiveThread p now canvasId threadId s)"
| "service_step cfg p fs parse describe s (CancelEvent turnId) = snd (cancelTurn turnId s)"
| "service_step cfg p fs parse describe s (RecoverEvent now) = snd (recoverInterruptedTurns p now s)"
| "service_step cfg p fs parse describe s (ConsumeEvent now t u ephemeral aborted es end) =
     snd (snd (consumeEvents parse describe p now t u ephemeral aborted es end s))"

abbreviation active_threads :: "(string, active_turn) js_map \<Rightarrow> string list" where
  "active_threads m \<equiv> map (\<lambda>e. at_threadId (snd e)) m"

definition service_inv :: "'s thread_service \<Rightarrow> bool" where
  "service_inv s \<longleftrightarrow> distinct (js_keys (activeTurns s)) \<and> distinct (active_threads (activeTurns s))"

lemma active_threads_set_subset:
  "set (active_threads (js_set m u a)) \<subseteq> insert (at_threadId a) (set (active_threads m))"
  by (induction m) auto

lemma active_threads_set:
  "distinct (active_threads m) \<Longrightarrow> at_threadId a \<notin> set (active_threads m) \<Longrightarrow>
   distinct (active_threads (js_set m u a))"
proof (induction m)
  case (Cons e m)
  then have "at_threadId (snd e) \<notin> set (active_threads (js_set m u a))"
    using active_threads_set_subset [of u a m] by auto
  with Cons show ?case by (cases e) auto
qed simp

lemma active_threads_same:
  "js_get m u = Some a \<Longrightarrow> at_threadId b = at_threadId a \<Longrightarrow>
   active_threads (js_set m u b) = active_threads m"
  by (induction m) (auto split: if_splits)

lemma active_threads_delete:
  "distinct (active_threads m) \<Longrightarrow> distinct (active_threads (js_delete m u))"
  by (simp add: AList.delete_eq distinct_map_filter)

lemma service_inv_delete:
  "service_inv s \<Longrightarrow> activeTurns s' = js_delete (activeTurns s) u \<Longrightarrow> service_inv s'"
  by (simp only: service_inv_def active_threads_delete js_distinct_delete)

lemma service_inv_same: "service_inv s \<Longrightarrow> activeTurns s' = activeTurns s \<Longrightarrow> service_inv s'"
  by (simp only: service_inv_def)

lemma store_save_active: "activeTurns (snd (store_save p r s)) = activeTurns s"
  by (simp add: store_save_def split: prod.splits sum.splits)

lemma store_save_active': "store_save p r s = (x, s2) \<Longrightarrow> activeTurns s2 = activeTurns s"
  using store_save_active [of p r s] by simp

lemma finishTurn_active:
  "finishTurn p now t u status events failure s = (x, s2) \<Longrightarrow> activeTurns s2 = activeTurns s"
  by (auto simp: finishTurn_def split: sum.splits dest: store_save_active')

lemma begin_failed_active:
  "activeTurns (snd (begin_failed p now b cause s)) = js_delete (activeTurns s) (tn_turnId (bt_turn b))"
  by (auto simp: begin_failed_def Let_def dest: finishTurn_active split: prod.splits sum.splits)

lemma has_active_turn_iff: "has_active_turn k s \<longleftrightarrow> k \<in> set (active_threads (activeTurns s))"
  by (auto simp: has_active_turn_def list_ex_iff)

lemma beginTurn_inv:
  assumes "service_inv s"
  shows "service_inv (snd (beginTurn p turnId now finishedAt started r message attachments ephemeral s))"
proof (cases "begin_check turnId now r message attachments ephemeral s")
  case (Inl e)
  then show ?thesis using assms by (simp add: beginTurn_def)
next
  case (Inr b)
  then have fresh: "th_threadId r \<notin> set (active_threads (activeTurns s))"
    and b: "bt_record b = r" "tn_turnId (bt_turn b) = turnId"
    by (auto simp: begin_check_Inr_iff has_active_turn_iff)
  obtain x s1 where save: "begin_save p b s = (x, s1)" by (cases "begin_save p b s")
  have same: "activeTurns s1 = activeTurns s"
    using save by (auto simp: begin_save_def split: if_splits dest: store_save_active')
  let ?s2 = "begin_activate b s1"
  have inv: "service_inv ?s2"
    using assms fresh by (simp add: service_inv_def begin_activate_def b same active_threads_set)
  show ?thesis
  proof (cases x)
    case (Inl e)
    then show ?thesis using assms Inr save same by (simp add: beginTurn_def service_inv_same)
  next
    case (Inr u)
    have "service_inv (snd (begin_failed p finishedAt b cause ?s2))" for cause
      using service_inv_delete [OF inv begin_failed_active] .
    then show ?thesis
      using Inr \<open>begin_check turnId now r message attachments ephemeral s = Inr b\<close> save inv
      by (simp add: beginTurn_def Let_def split: option.splits)
  qed
qed

lemma service_step_inv: "service_inv s \<Longrightarrow> service_inv (service_step cfg p fs parse describe s ev)"
proof (induction cfg p fs parse describe s ev rule: service_step.induct)
  case (1 cfg p fs parse describe s threadId turnId now finishedAt started input)
  have "service_inv (s\<lparr>svc_store := st\<rparr>)" for st using 1 by (simp add: service_inv_def)
  with 1 show ?case
    by (simp add: startTurn_def Let_def beginTurn_inv split: sum.splits prod.splits)
next
  case (2 cfg p fs parse describe s threadId turnId now finishedAt started ephemeral input)
  then show ?case by (simp add: resumeTurn_def beginTurn_inv split: sum.splits prod.splits)
next
  case (3 cfg p fs parse describe s now canvasId threadId)
  then show ?case
    by (simp add: archiveThread_def service_inv_same [OF _ store_save_active] split: sum.splits)
next
  case (4 cfg p fs parse describe s turnId)
  show ?case
  proof (cases "js_get (activeTurns s) turnId")
    case (Some a)
    then show ?thesis using 4
      by (simp add: cancelTurn_def service_inv_def active_threads_same)
  qed (use 4 in \<open>simp add: cancelTurn_def\<close>)
next
  case (5 cfg p fs parse describe s now)
  then show ?case
    by (simp add: recoverInterruptedTurns_def service_inv_def split: sum.splits prod.splits)
next
  case (6 cfg p fs parse describe s now t u ephemeral aborted es "end")
  obtain r g s' where "consumeEvents parse describe p now t u ephemeral aborted es end s = (r, g, s')"
    by (cases "consumeEvents parse describe p now t u ephemeral aborted es end s") auto
  with 6 show ?case using consumeEvents_active service_inv_delete by fastforce
qed

interpretation service: machine "service_step cfg p fs parse describe" service_inv
  for cfg fs parse describe and p :: "'s store_port"
  by unfold_locales (rule service_step_inv)

text \<open>
  As long as requests are served one after another, a thread has at most one active turn,
  whatever the store, the file system and the SDK do.
\<close>

lemma served_in_turn_one_active_turn_per_thread:
  "distinct (map (\<lambda>e. at_threadId (snd e)) (activeTurns
     (foldl (service_step cfg p fs parse describe) \<lparr>svc_store = st, activeTurns = []\<rparr> events)))"
proof -
  have "service_inv \<lparr>svc_store = st, activeTurns = []\<rparr>" by (simp add: service_inv_def)
  then show ?thesis using service.run_inv unfolding service_inv_def by fastforce
qed

end
