(* ===== verification/AgentConfig.thy ===== *)
theory AgentConfig
  imports Contracts PathGuard "HOL-Library.Word"
begin

text \<open>
  The agent's configuration and the checks of requests, \<^verbatim>\<open>canvas-agent/src/config.ts\<close>. The URL parser
  is an argument (\<open>parse_url\<close>, \<open>None\<close> if \<^verbatim>\<open>new URL\<close> throws); its result is the record \<open>url\<close>. Hex,
  base64url and UTF-8 are written out as far as the code depends on them.
\<close>

record url =
  url_protocol :: string
  url_username :: string
  url_password :: string
  url_hostname :: string
  url_port :: "nat option" \<comment> \<open>\<open>None\<close> for the protocol's default port\<close>
  url_pathname :: string
  url_search :: string
  url_hash :: string
  url_origin :: string

type_synonym url_parser = "string \<Rightarrow> url option"

record agent_config =
  cfg_url :: string
  cfg_token :: string
  allowedOrigins :: "string list"
  allowedAttachmentOrigins :: "string list"
  cfg_model :: string
  cfg_effort :: "string option"
  canvases :: "(string, string) js_map"

datatype config_error =
  ConfigShape | UrlInvalid | UrlNotLoopback | PortInvalid
| TokenEncoding | TokenTooShort
| OriginWildcard | OriginInvalid | OriginNotExact | OriginNotPublic
| OriginsRepeat | AttachmentOriginsRepeat
| ConfigNotFile | ConfigFileMode | ConfigMissing
| TokenInQuery | OriginForbidden | TokenWrong

subsection \<open>Decimal numbers\<close>

fun show_nat :: "nat \<Rightarrow> string" where
  "show_nat n = (if n < 10 then [char_of (48 + n)] else show_nat (n div 10) @ [char_of (48 + n mod 10)])"

declare show_nat.simps [simp del]

definition digit :: "char \<Rightarrow> bool" where
  "digit c \<longleftrightarrow> 48 \<le> (of_char c :: nat) \<and> (of_char c :: nat) \<le> 57"

definition read_nat :: "string \<Rightarrow> nat" where
  "read_nat s = foldl (\<lambda>n c. 10 * n + (of_char c - 48)) 0 s"

lemma of_char_digit: "(d :: nat) < 10 \<Longrightarrow> (of_char (char_of (48 + d) :: char) :: nat) = 48 + d"
  by simp

lemma digit_char: "(d :: nat) < 10 \<Longrightarrow> digit (char_of (48 + d))"
  by (simp add: digit_def)

lemma read_show: "read_nat (show_nat n) = n"
proof (induction n rule: show_nat.induct)
  case (1 n)
  show ?case
  proof (cases "n < 10")
    case True
    then show ?thesis by (subst show_nat.simps) (simp add: read_nat_def)
  next
    case False
    then have "read_nat (show_nat n) = 10 * read_nat (show_nat (n div 10)) + n mod 10"
      by (subst show_nat.simps) (simp add: read_nat_def)
    with False 1 show ?thesis by simp
  qed
qed

lemma show_digits: "c \<in> set (show_nat n) \<Longrightarrow> digit c"
proof (induction n rule: show_nat.induct)
  case (1 n)
  then show ?case by (subst (asm) (2) show_nat.simps) (auto simp: digit_char split: if_splits)
qed

lemma show_nat_ne: "show_nat n \<noteq> []"
  by (subst show_nat.simps) auto

lemma show_nat_inject: "show_nat m = show_nat n \<longleftrightarrow> m = n"
  by (metis read_show)

subsection \<open>Tokens\<close>

definition hex_char :: "char \<Rightarrow> bool" where
  "hex_char c \<longleftrightarrow> (let n = of_char c :: nat in 48 \<le> n \<and> n \<le> 57 \<or> 65 \<le> n \<and> n \<le> 70 \<or> 97 \<le> n \<and> n \<le> 102)"

definition base64url_char :: "char \<Rightarrow> bool" where
  "base64url_char c \<longleftrightarrow> (let n = of_char c :: nat in
     48 \<le> n \<and> n \<le> 57 \<or> 65 \<le> n \<and> n \<le> 90 \<or> 97 \<le> n \<and> n \<le> 122 \<or> n = 95 \<or> n = 45)"

text \<open>The number of bytes \<^verbatim>\<open>Buffer.from\<close> decodes the token to.\<close>

definition assertTokenHasAtLeast256Bits :: "string \<Rightarrow> (config_error, unit) result" where
  "assertTokenHasAtLeast256Bits token =
     (and_then
        (if token \<noteq> [] \<and> list_all hex_char token \<and> length token mod 2 = 0
         then returns (length token div 2)
         else if token \<noteq> [] \<and> list_all base64url_char token then
           (if length token mod 4 = 1 then throws TokenEncoding else returns (length token * 3 div 4))
         else throws TokenEncoding)
        (\<lambda>bytes. if bytes < 32 then throws TokenTooShort else returns ()))"

text \<open>\<^verbatim>\<open>toString("base64url")\<close> of the random bytes.\<close>

definition base64url_digit :: "nat \<Rightarrow> char" where
  "base64url_digit n =
     (if n < 26 then char_of (65 + n) else if n < 52 then char_of (71 + n)
      else if n < 62 then char_of (n - 4) else if n = 62 then CHR ''-'' else CHR ''_'')"

fun base64url :: "8 word list \<Rightarrow> string" where
  "base64url (a # b # c # rest) =
     (let n = (unat a * 256 + unat b) * 256 + unat c
      in base64url_digit (n div 262144) # base64url_digit (n div 4096 mod 64) #
         base64url_digit (n div 64 mod 64) # base64url_digit (n mod 64) # base64url rest)"
| "base64url [a, b] =
     (let n = (unat a * 256 + unat b) * 4
      in [base64url_digit (n div 4096), base64url_digit (n div 64 mod 64), base64url_digit (n mod 64)])"
| "base64url [a] =
     (let n = unat a * 16 in [base64url_digit (n div 64), base64url_digit (n mod 64)])"
| "base64url [] = []"

definition generateLocalAgentToken :: "8 word list \<Rightarrow> string" where
  "generateLocalAgentToken random = base64url random"

lemma base64url_digit_char: "n < 64 \<Longrightarrow> base64url_char (base64url_digit n)"
  by (auto simp: base64url_char_def base64url_digit_def Let_def)

lemma unat8: "unat (w :: 8 word) \<le> 255"
  using unsigned_less [where ?'a = nat and w = w] by simp

lemma base64url_chars: "list_all base64url_char (base64url bytes)"
proof (induction bytes rule: base64url.induct)
  case (1 a b c rest)
  have "(unat a * 256 + unat b) * 256 + unat c \<le> (255 * 256 + 255) * 256 + 255"
    by (intro add_mono mult_right_mono unat8) simp_all
  with 1 show ?case by (simp add: Let_def base64url_digit_char less_mult_imp_div_less)
next
  case (2 a b)
  have "(unat a * 256 + unat b) * 4 \<le> (255 * 256 + 255) * 4"
    by (intro add_mono mult_right_mono unat8) simp_all
  then show ?case by (simp add: Let_def base64url_digit_char less_mult_imp_div_less)
next
  case (3 a)
  have "unat a * 16 < 4096" using unat8 [of a] by linarith
  then show ?case by (simp add: Let_def base64url_digit_char less_mult_imp_div_less)
qed simp

lemma base64url_length:
  "length (base64url bytes) = (4 * length bytes + 2) div 3"
  by (induction bytes rule: base64url.induct) (auto simp: Let_def)

lemma accepted_token_iff:
  "assertTokenHasAtLeast256Bits token = returns () \<longleftrightarrow>
     (if list_all hex_char token \<and> even (length token) then 64 \<le> length token
      else list_all base64url_char token \<and> length token mod 4 \<noteq> 1 \<and> 43 \<le> length token)"
  by (auto simp: assertTokenHasAtLeast256Bits_def and_then_Inr_iff even_iff_mod_2_eq_zero
      split: if_splits; presburger?)

text \<open>
  Every token the agent generates passes the check of its own configuration, whatever 32 bytes
  it was made of: it never looks like hex of even length, and its encoding is complete.
\<close>

lemma generated_token_is_accepted:
  assumes "length random = 32"
  shows "assertTokenHasAtLeast256Bits (generateLocalAgentToken random) = returns ()"
proof -
  have "length (base64url random) = 43" using assms by (simp add: base64url_length)
  then show ?thesis
    using base64url_chars [of random] by (simp add: accepted_token_iff generateLocalAgentToken_def)
qed

theorem generated_token_is_accepted_witness:
  "assertTokenHasAtLeast256Bits (generateLocalAgentToken (replicate 32 (255 :: 8 word))) = returns ()"
  by (rule generated_token_is_accepted) simp

subsection \<open>Hosts\<close>

fun split_on :: "char \<Rightarrow> string \<Rightarrow> string list" where
  "split_on d [] = [[]]"
| "split_on d (c # cs) =
     (if c = d then [] # split_on d cs
      else (case split_on d cs of [] \<Rightarrow> [[c]] | s # ss \<Rightarrow> (c # s) # ss))"

text \<open>\<^verbatim>\<open>isIP\<close>: a decimal octet, a group of hex digits, and addresses of them (a URL's host has no zone).\<close>

definition ipv4_octet :: "string \<Rightarrow> bool" where
  "ipv4_octet s \<longleftrightarrow> s \<noteq> [] \<and> length s \<le> 3 \<and> list_all digit s \<and> read_nat s \<le> 255 \<and>
     (length s > 1 \<longrightarrow> hd s \<noteq> CHR ''0'')"

definition isIPv4 :: "string \<Rightarrow> bool" where
  "isIPv4 s \<longleftrightarrow> (let os = split_on (CHR ''.'') s in length os = 4 \<and> list_all ipv4_octet os)"

definition ipv6_group :: "string \<Rightarrow> bool" where
  "ipv6_group s \<longleftrightarrow> s \<noteq> [] \<and> length s \<le> 4 \<and> list_all hex_char s"

text \<open>The number of groups of a part of an address, where an IPv4 address may come last.\<close>

fun ipv6_groups :: "string list \<Rightarrow> nat option" where
  "ipv6_groups [] = Some 0"
| "ipv6_groups [s] = (if ipv6_group s then Some 1 else if isIPv4 s then Some 2 else None)"
| "ipv6_groups (s # ss) = (if ipv6_group s then map_option Suc (ipv6_groups ss) else None)"

fun cut_double :: "string list \<Rightarrow> (string list \<times> string list) option" where
  "cut_double ([] # ss) = Some ([], ss)"
| "cut_double (s # ss) = map_option (\<lambda>(l, r). (s # l, r)) (cut_double ss)"
| "cut_double [] = None"

text \<open>
  The colon-separated parts; a \<^verbatim>\<open>::\<close> leaves an empty part, two at an end of the address.
\<close>

definition isIPv6 :: "string \<Rightarrow> bool" where
  "isIPv6 s \<longleftrightarrow>
     (let ss = split_on (CHR '':'') s;
          ss1 = (if take 2 ss = [[], []] then tl ss else ss);
          ss2 = (if drop (length ss1 - 2) ss1 = [[], []] \<and> 2 < length ss then butlast ss1 else ss1)
      in case cut_double ss2 of
           None \<Rightarrow> ipv6_groups ss2 = Some 8
         | Some (l, r) \<Rightarrow>
             list_all ipv6_group l \<and> 1 < length ss \<and> (l = [] \<longrightarrow> take 2 ss = [[], []]) \<and>
             (r = [] \<longrightarrow> drop (length ss - 2) ss = [[], []]) \<and>
             (case ipv6_groups r of None \<Rightarrow> False | Some n \<Rightarrow> length l + n \<le> 7))"

definition isIP :: "string \<Rightarrow> nat" where
  "isIP s = (if isIPv4 s then 4 else if isIPv6 s then 6 else 0)"

definition isPrivateAddress :: "string \<Rightarrow> bool" where
  "isPrivateAddress hostname =
     (if isIP hostname = 4 then
        let octets = map read_nat (split_on (CHR ''.'') hostname);
            first = octets ! 0; second = octets ! 1
        in first = 0 \<or> first = 10 \<or> first = 127 \<or> (first = 169 \<and> second = 254) \<or>
           (first = 172 \<and> 16 \<le> second \<and> second \<le> 31) \<or> (first = 192 \<and> second = 168)
      else if isIP hostname = 6 then
        hostname = ''::'' \<or> hostname = ''::1'' \<or>
        list_ex (js_starts_with hostname) [''fc'', ''fd'', ''fe8'', ''fe9'', ''fea'', ''feb'']
      else False)"

text \<open>The dotted form of an address, as the URL parser writes a host.\<close>

definition dotted :: "nat \<Rightarrow> nat \<Rightarrow> nat \<Rightarrow> nat \<Rightarrow> string" where
  "dotted a b c d = show_nat a @ ''.'' @ show_nat b @ ''.'' @ show_nat c @ ''.'' @ show_nat d"

lemma split_on_ne: "split_on d s \<noteq> []"
  by (induction s) (auto split: list.splits)

lemma split_on_append: "d \<notin> set s \<Longrightarrow> split_on d (s @ d # t) = s # split_on d t"
  by (induction s) auto

lemma split_on_none: "d \<notin> set s \<Longrightarrow> split_on d s = [s]"
  by (induction s) auto

lemma no_dot: "CHR ''.'' \<notin> set (show_nat n)"
  using show_digits [of "CHR ''.''" n] by (auto simp: digit_def)

lemma split_dotted:
  "split_on (CHR ''.'') (dotted a b c d) = [show_nat a, show_nat b, show_nat c, show_nat d]"
  by (simp add: dotted_def split_on_append split_on_none no_dot)

lemma show_octet: "n < 256 \<Longrightarrow> ipv4_octet (show_nat n)"
proof -
  assume n: "n < 256"
  have "length (show_nat n) \<le> 3"
    using n by (subst show_nat.simps, subst show_nat.simps, subst show_nat.simps) auto
  moreover have "1 < length (show_nat n) \<longrightarrow> hd (show_nat n) \<noteq> CHR ''0''"
  proof -
    have one: "show_nat k = [char_of (48 + k)]" if "k < 10" for k :: nat
      using that by (subst show_nat.simps) simp
    have lead: "char_of (48 + k) \<noteq> CHR ''0''" if "0 < k" "k < 10" for k :: nat
      using that of_char_digit [of k] by fastforce
    consider "n < 10" | "10 \<le> n" "n < 100" | "100 \<le> n" by linarith
    then show ?thesis
    proof cases
      case 2
      then have "show_nat n = [char_of (48 + n div 10), char_of (48 + n mod 10)]"
        by (subst show_nat.simps) (simp add: one)
      with 2 show ?thesis using lead [of "n div 10"] by simp
    next
      case 3
      then have "\<not> n < 10" "\<not> n div 10 < 10" by linarith+
      then have "show_nat n = show_nat (n div 10 div 10) @
          [char_of (48 + n div 10 mod 10), char_of (48 + n mod 10)]"
        using show_nat.simps [of n] show_nat.simps [of "n div 10"] by simp
      moreover have "show_nat (n div 10 div 10) = [char_of (48 + n div 10 div 10)]"
        using n by (intro one) simp
      ultimately show ?thesis using 3 n lead [of "n div 10 div 10"] by simp
    qed (simp add: one)
  qed
  ultimately show ?thesis
    using n show_digits [of _ n] by (auto simp: ipv4_octet_def show_nat_ne read_show list_all_iff)
qed

definition in_block :: "nat \<Rightarrow> nat \<Rightarrow> nat \<Rightarrow> bool" where
  "in_block n base bits \<longleftrightarrow> n div 2 ^ (32 - bits) = base div 2 ^ (32 - bits)"

text \<open>
  For an IPv4 host the test finds exactly the addresses of 0.0.0.0/8, 10.0.0.0/8, 127.0.0.0/8,
  169.254.0.0/16, 172.16.0.0/12 and 192.168.0.0/16, read as 32-bit numbers.
\<close>

lemma private_ipv4_blocks:
  assumes "a < 256" and "b < 256" and "c < 256" and "d < 256"
    and "n = ((a * 256 + b) * 256 + c) * 256 + d"
  shows "isPrivateAddress (dotted a b c d) \<longleftrightarrow>
    in_block n 0 8 \<or> in_block n 0x0A000000 8 \<or> in_block n 0x7F000000 8 \<or>
    in_block n 0xA9FE0000 16 \<or> in_block n 0xAC100000 12 \<or> in_block n 0xC0A80000 16"
proof -
  have "isIPv4 (dotted a b c d)"
    using assms(1-4) by (simp add: isIPv4_def split_dotted show_octet)
  then have test: "isPrivateAddress (dotted a b c d) \<longleftrightarrow>
      a = 0 \<or> a = 10 \<or> a = 127 \<or> (a = 169 \<and> b = 254) \<or> (a = 172 \<and> 16 \<le> b \<and> b \<le> 31) \<or>
      (a = 192 \<and> b = 168)"
    by (simp add: isPrivateAddress_def isIP_def split_dotted read_show Let_def)
  have low: "c * 256 + d < 65536" using assms(3,4) by linarith
  have n: "n = (a * 256 + b) * 65536 + (c * 256 + d)" using assms(5) by simp
  have d16: "n div 65536 = a * 256 + b" using low by (simp add: n)
  have d24: "n div 16777216 = a" using d16 assms(2) div_mult2_eq [of n 65536 256] by simp
  have d20: "n div 1048576 = a * 16 + b div 16"
    using d16 div_mult2_eq [of n 65536 16] by (simp add: div_plus_div_distrib_dvd_left)
  have b1: "a * 256 + b = 43518 \<longleftrightarrow> a = 169 \<and> b = 254"
    using assms(2) by (intro iffI conjI; arith)
  have b2: "a * 256 + b = 49320 \<longleftrightarrow> a = 192 \<and> b = 168"
    using assms(2) by (intro iffI conjI; arith)
  have "a * 16 + q = 2753 \<longleftrightarrow> a = 172 \<and> q = 1" if "q < 16" for q :: nat
    using that by (intro iffI conjI; arith)
  then have "a * 16 + b div 16 = 2753 \<longleftrightarrow> a = 172 \<and> b div 16 = 1" using assms(2) by simp
  moreover have "b div 16 = 1 \<longleftrightarrow> 16 \<le> b \<and> b \<le> 31" by (intro iffI conjI; arith)
  ultimately have b12: "a * 16 + b div 16 = 2753 \<longleftrightarrow> a = 172 \<and> 16 \<le> b \<and> b \<le> 31" by blast
  show ?thesis unfolding test in_block_def by (simp add: d16 d24 d20 b12 b1 b2)
qed

theorem private_ipv4_blocks_witness:
  "isPrivateAddress (dotted 172 31 0 1) \<longleftrightarrow>
    in_block 2887712769 0 8 \<or> in_block 2887712769 0x0A000000 8 \<or> in_block 2887712769 0x7F000000 8 \<or>
    in_block 2887712769 0xA9FE0000 16 \<or> in_block 2887712769 0xAC100000 12 \<or>
    in_block 2887712769 0xC0A80000 16"
  by (rule private_ipv4_blocks) simp_all

text \<open>
  An IPv6 address that maps an IPv4 address is not recognised: loopback and the private
  networks, written this way as the URL parser writes them, pass as public.
\<close>

lemma mapped_loopback_passes_as_public:
  "isIP ''::ffff:7f00:1'' = 6 \<and> \<not> isPrivateAddress ''::ffff:7f00:1'' \<and>
   isIP ''::ffff:c0a8:1'' = 6 \<and> \<not> isPrivateAddress ''::ffff:c0a8:1'' \<and>
   isIP ''::1'' = 6 \<and> isPrivateAddress ''::1''"
  by (simp add: isPrivateAddress_def isIP_def isIPv4_def isIPv6_def ipv6_group_def hex_char_def
      js_starts_with_def)

subsection \<open>Origins and URLs\<close>

definition parseLoopbackURL :: "url_parser \<Rightarrow> string \<Rightarrow> (config_error, string) result" where
  "parseLoopbackURL parse_url v =
     (case parse_url v of
        None \<Rightarrow> throws UrlInvalid
      | Some u \<Rightarrow>
          (case url_port u of
             None \<Rightarrow> throws UrlNotLoopback
           | Some port \<Rightarrow>
               if url_protocol u \<noteq> ''http:'' \<or> url_hostname u \<noteq> ''127.0.0.1'' \<or> url_username u \<noteq> [] \<or>
                  url_password u \<noteq> [] \<or> url_pathname u \<noteq> ''/'' \<or> url_search u \<noteq> [] \<or> url_hash u \<noteq> []
               then throws UrlNotLoopback
               else if \<not> safe_integer (int port) \<or> port < 1 \<or> port > 65535 then throws PortInvalid
               else returns (''http://127.0.0.1:'' @ show_nat port)))"

definition parseAllowedOrigin :: "url_parser \<Rightarrow> string \<Rightarrow> (config_error, string) result" where
  "parseAllowedOrigin parse_url v =
     (if v = ''null'' \<or> v = ''*'' then throws OriginWildcard
      else
        case parse_url v of
          None \<Rightarrow> throws OriginInvalid
        | Some u \<Rightarrow>
            if (url_protocol u \<noteq> ''http:'' \<and> url_protocol u \<noteq> ''https:'') \<or> url_username u \<noteq> [] \<or>
               url_password u \<noteq> [] \<or> url_pathname u \<noteq> ''/'' \<or> url_search u \<noteq> [] \<or>
               url_hash u \<noteq> [] \<or> v \<noteq> url_origin u
            then throws OriginNotExact
            else returns (url_origin u))"

text \<open>\<^verbatim>\<open>replace(/^\[|\]$/g, "")\<close>\<close>

definition strip_brackets :: "string \<Rightarrow> string" where
  "strip_brackets s =
     (let t = (if s \<noteq> [] \<and> hd s = CHR ''['' then tl s else s)
      in if t \<noteq> [] \<and> last t = CHR '']'' then butlast t else t)"

definition public_host :: "string \<Rightarrow> bool" where
  "public_host hostname \<longleftrightarrow> (let h = js_lower (strip_brackets hostname)
     in h \<noteq> ''localhost'' \<and> \<not> isPrivateAddress h)"

definition parsePublicAttachmentOrigin :: "url_parser \<Rightarrow> string \<Rightarrow> (config_error, string) result" where
  "parsePublicAttachmentOrigin parse_url v =
     and_then (parseAllowedOrigin parse_url v) (\<lambda>origin.
       case parse_url origin of
         None \<Rightarrow> throws OriginInvalid
       | Some u \<Rightarrow> if public_host (url_hostname u) then returns origin else throws OriginNotPublic)"

subsection \<open>The configuration\<close>

definition config_shape :: "agent_config \<Rightarrow> agent_config option" where
  "config_shape v =
     (let m = js_trim (cfg_model v)
      in if bounded_text 1 128 (cfg_url v) \<and> bounded_text 1 512 (cfg_token v) \<and>
            1 \<le> length (allowedOrigins v) \<and> length (allowedOrigins v) \<le> 16 \<and>
            list_all (bounded_text 1 512) (allowedOrigins v) \<and>
            1 \<le> length (allowedAttachmentOrigins v) \<and> length (allowedAttachmentOrigins v) \<le> 32 \<and>
            list_all (bounded_text 1 512) (allowedAttachmentOrigins v) \<and>
            bounded_text 1 240 m \<and>
            (case cfg_effort v of None \<Rightarrow> True
             | Some e \<Rightarrow> e \<in> {''minimal'', ''low'', ''medium'', ''high'', ''xhigh'', ''max'', ''ultra'',
                              ''persistent''}) \<and>
            list_all (\<lambda>(k, w). bounded_text 1 120 k \<and> bounded_text 1 4096 w \<and> isAbsolute w) (canvases v)
         then Some (v\<lparr>cfg_model := m\<rparr>) else None)"

definition parseLocalAgentConfig ::
  "url_parser \<Rightarrow> agent_config \<Rightarrow> (config_error, agent_config) result" where
  "parseLocalAgentConfig parse_url v =
     (case config_shape v of
        None \<Rightarrow> throws ConfigShape
      | Some parsed \<Rightarrow>
          and_then (parseLoopbackURL parse_url (cfg_url parsed)) (\<lambda>url.
          and_then (assertTokenHasAtLeast256Bits (cfg_token parsed)) (\<lambda>_.
          and_then (map_result (parseAllowedOrigin parse_url) (allowedOrigins parsed)) (\<lambda>origins.
          and_then (map_result (parsePublicAttachmentOrigin parse_url) (allowedAttachmentOrigins parsed))
            (\<lambda>attachmentOrigins.
               if length (js_set_of origins) \<noteq> length origins then throws OriginsRepeat
               else if length (js_set_of attachmentOrigins) \<noteq> length attachmentOrigins
               then throws AttachmentOriginsRepeat
               else returns (parsed\<lparr>cfg_url := url, allowedOrigins := origins,
                                    allowedAttachmentOrigins := attachmentOrigins\<rparr>))))))"

text \<open>The path of the configuration; \<open>384\<close> is \<^verbatim>\<open>0o600\<close>.\<close>

datatype config_path =
  NoConfig | ConfigDirectory | ConfigFile nat agent_config | ConfigLink config_path

fun put_config :: "bool \<Rightarrow> nat \<Rightarrow> agent_config \<Rightarrow> config_path \<Rightarrow> config_path option" where
  "put_config posix created_mode c NoConfig = Some (ConfigFile (if posix then 384 else created_mode) c)"
| "put_config posix created_mode c (ConfigFile m _) = Some (ConfigFile (if posix then 384 else m) c)"
| "put_config posix created_mode c (ConfigLink p) = map_option ConfigLink (put_config posix created_mode c p)"
| "put_config posix created_mode c ConfigDirectory = None"

definition writeLocalAgentConfig ::
  "url_parser \<Rightarrow> bool \<Rightarrow> nat \<Rightarrow> agent_config \<Rightarrow> config_path \<Rightarrow>
     (config_error, unit) result \<times> config_path" where
  "writeLocalAgentConfig parse_url posix created_mode config path =
     (case parseLocalAgentConfig parse_url config of
        Inl e \<Rightarrow> (throws e, path)
      | Inr validated \<Rightarrow>
          (case put_config posix created_mode validated path of
             None \<Rightarrow> (throws ConfigNotFile, path)
           | Some path' \<Rightarrow> (returns (), path')))"

definition loadLocalAgentConfig ::
  "url_parser \<Rightarrow> bool \<Rightarrow> config_path \<Rightarrow> (config_error, agent_config) result" where
  "loadLocalAgentConfig parse_url posix path =
     (case path of
        NoConfig \<Rightarrow> throws ConfigMissing
      | ConfigFile permissions c \<Rightarrow>
          if posix \<and> permissions \<noteq> 384 then throws ConfigFileMode
          else parseLocalAgentConfig parse_url c
      | _ \<Rightarrow> throws ConfigNotFile)"

text \<open>
  What the URL standard says of the parser: the address it was given for a loopback URL without
  path, query and user can be replaced by the one written from its port.
\<close>

definition url_serialises :: "url_parser \<Rightarrow> bool" where
  "url_serialises parse_url \<longleftrightarrow>
     (\<forall>v u p. parse_url v = Some u \<longrightarrow> url_protocol u = ''http:'' \<longrightarrow> url_hostname u = ''127.0.0.1'' \<longrightarrow>
        url_port u = Some p \<longrightarrow> url_username u = [] \<longrightarrow> url_password u = [] \<longrightarrow>
        url_pathname u = ''/'' \<longrightarrow> url_search u = [] \<longrightarrow> url_hash u = [] \<longrightarrow>
        parse_url (''http://127.0.0.1:'' @ show_nat p) = Some u)"

lemma parseAllowedOrigin_Inr:
  "parseAllowedOrigin parse_url v = returns w \<Longrightarrow> w = v \<and> v \<noteq> ''null'' \<and> v \<noteq> ''*''"
  by (auto simp: parseAllowedOrigin_def split: option.splits if_splits)

lemma parsePublicAttachmentOrigin_Inr:
  "parsePublicAttachmentOrigin parse_url v = returns w \<Longrightarrow>
   w = v \<and> (\<exists>u. parse_url v = Some u \<and> public_host (url_hostname u))"
  by (auto simp: parsePublicAttachmentOrigin_def and_then_Inr_iff dest!: parseAllowedOrigin_Inr
      split: option.splits if_splits)

lemma map_result_same: "(\<And>v w. f v = Inr w \<Longrightarrow> w = v) \<Longrightarrow> map_result f xs = Inr ys \<Longrightarrow> ys = xs"
  unfolding map_result_Inr_iff by (induction xs arbitrary: ys) (auto simp: list_all2_Cons1)

lemma length_show_nat: "n < 10 ^ k \<Longrightarrow> 0 < k \<Longrightarrow> length (show_nat n) \<le> k"
proof (induction n arbitrary: k rule: show_nat.induct)
  case (1 n)
  show ?case
  proof (cases "n < 10")
    case False
    then obtain j where k: "k = Suc j" and j: "0 < j"
      using 1(2,3) by (cases k; cases "k - 1") auto
    then have "length (show_nat (n div 10)) \<le> j" using 1 False by (auto simp: less_mult_imp_div_less)
    then show ?thesis using False k by (subst show_nat.simps) simp
  qed (use 1 in \<open>subst show_nat.simps, simp\<close>)
qed

lemma parseLoopbackURL_Inr:
  assumes "parseLoopbackURL parse_url v = returns w"
  shows "\<exists>port. 1 \<le> port \<and> port \<le> 65535 \<and> w = ''http://127.0.0.1:'' @ show_nat port \<and>
    (url_serialises parse_url \<longrightarrow> parseLoopbackURL parse_url w = returns w)"
proof -
  obtain u port where u: "parse_url v = Some u" "url_port u = Some port"
    and facts: "url_protocol u = ''http:''" "url_hostname u = ''127.0.0.1''" "url_username u = []"
      "url_password u = []" "url_pathname u = ''/''" "url_search u = []" "url_hash u = []"
    and port: "safe_integer (int port)" "1 \<le> port" "port \<le> 65535"
    and w: "w = ''http://127.0.0.1:'' @ show_nat port"
    using assms by (auto simp: parseLoopbackURL_def split: option.splits if_splits)
  have "parseLoopbackURL parse_url w = returns w" if "url_serialises parse_url"
  proof -
    have "parse_url w = Some u" using that u facts unfolding url_serialises_def w by blast
    then show ?thesis using u facts port by (simp add: parseLoopbackURL_def w)
  qed
  then show ?thesis using port w by blast
qed

lemma parseLocalAgentConfig_Inr:
  assumes "parseLocalAgentConfig parse_url v = returns c"
  shows "\<exists>port. 1 \<le> port \<and> port \<le> 65535 \<and> cfg_url c = ''http://127.0.0.1:'' @ show_nat port"
    and "assertTokenHasAtLeast256Bits (cfg_token c) = returns ()"
    and "distinct (allowedOrigins c) \<and> ''null'' \<notin> set (allowedOrigins c) \<and> ''*'' \<notin> set (allowedOrigins c)"
    and "\<forall>a \<in> set (allowedAttachmentOrigins c). \<exists>u. parse_url a = Some u \<and> public_host (url_hostname u)"
    and "url_serialises parse_url \<Longrightarrow> parseLocalAgentConfig parse_url c = returns c"
proof -
  obtain parsed url origins attachments where
    shape: "config_shape v = Some parsed" and
    url: "parseLoopbackURL parse_url (cfg_url parsed) = returns url" and
    token: "assertTokenHasAtLeast256Bits (cfg_token parsed) = returns ()" and
    origins: "map_result (parseAllowedOrigin parse_url) (allowedOrigins parsed) = returns origins" and
    attachments: "map_result (parsePublicAttachmentOrigin parse_url) (allowedAttachmentOrigins parsed) =
      returns attachments" and
    dist: "distinct origins" "distinct attachments" and
    c: "c = parsed\<lparr>cfg_url := url, allowedOrigins := origins, allowedAttachmentOrigins := attachments\<rparr>"
    using assms
    by (auto simp: parseLocalAgentConfig_def and_then_Inr_iff length_js_set_of_iff
        split: option.splits if_splits)
  have same_o: "origins = allowedOrigins parsed"
    by (rule map_result_same [OF _ origins]) (blast dest: parseAllowedOrigin_Inr)
  have same_a: "attachments = allowedAttachmentOrigins parsed"
    by (rule map_result_same [OF _ attachments]) (blast dest: parsePublicAttachmentOrigin_Inr)
  obtain port where port: "1 \<le> port" "port \<le> 65535" "url = ''http://127.0.0.1:'' @ show_nat port"
    and again: "url_serialises parse_url \<longrightarrow> parseLoopbackURL parse_url url = returns url"
    using parseLoopbackURL_Inr [OF url] by blast
  show "\<exists>port. 1 \<le> port \<and> port \<le> 65535 \<and> cfg_url c = ''http://127.0.0.1:'' @ show_nat port"
    using port by (auto simp: c)
  show "assertTokenHasAtLeast256Bits (cfg_token c) = returns ()" using token by (simp add: c)
  have all_o: "\<forall>x \<in> set origins. parseAllowedOrigin parse_url x = returns x"
    using origins unfolding map_result_Inr_iff same_o [symmetric]
    by (simp add: list_all2_same)
  then show "distinct (allowedOrigins c) \<and> ''null'' \<notin> set (allowedOrigins c) \<and> ''*'' \<notin> set (allowedOrigins c)"
    using dist by (auto simp: c dest: parseAllowedOrigin_Inr)
  have all_a: "\<forall>x \<in> set attachments. parsePublicAttachmentOrigin parse_url x = returns x"
    using attachments unfolding map_result_Inr_iff same_a [symmetric]
    by (simp add: list_all2_same)
  then show "\<forall>a \<in> set (allowedAttachmentOrigins c). \<exists>u. parse_url a = Some u \<and> public_host (url_hostname u)"
    by (auto simp: c dest: parsePublicAttachmentOrigin_Inr)
  show "parseLocalAgentConfig parse_url c = returns c" if "url_serialises parse_url"
  proof -
    have "bounded_text 1 128 url"
      using port length_show_nat [of port 5] by (simp add: bounded_text_def)
    then have "config_shape c = Some c"
      using shape by (auto simp: config_shape_def Let_def c same_o same_a split: if_splits)
    then show ?thesis
      using again that token dist origins attachments same_o same_a
      by (simp add: parseLocalAgentConfig_def c length_js_set_of_iff)
  qed
qed

text \<open>
  An accepted configuration binds the agent to a port of 127.0.0.1, has a token of at least
  256 bits of code, allows only exact origins (none \<^verbatim>\<open>null\<close> or a wildcard, none twice), and lets
  attachments come only from hosts that are neither \<^verbatim>\<open>localhost\<close> nor of a private block.
\<close>

lemma accepted_config_is_safe:
  assumes "parseLocalAgentConfig parse_url v = returns c"
  shows "(\<exists>port. 1 \<le> port \<and> port \<le> 65535 \<and> cfg_url c = ''http://127.0.0.1:'' @ show_nat port) \<and>
    assertTokenHasAtLeast256Bits (cfg_token c) = returns () \<and>
    distinct (allowedOrigins c) \<and> ''null'' \<notin> set (allowedOrigins c) \<and> ''*'' \<notin> set (allowedOrigins c) \<and>
    (\<forall>a \<in> set (allowedAttachmentOrigins c). \<exists>u. parse_url a = Some u \<and> public_host (url_hostname u))"
  using parseLocalAgentConfig_Inr(1-4) [OF assms] by blast

text \<open>
  A configuration written to a new or an existing plain file is read back as it was validated,
  on every platform and whatever mode the file had.
\<close>

lemma written_config_loads:
  assumes "url_serialises parse_url"
    and "writeLocalAgentConfig parse_url posix created_mode config path = (returns (), path')"
    and "path = NoConfig \<or> (\<exists>m old. path = ConfigFile m old)"
  shows "\<exists>c. parseLocalAgentConfig parse_url config = returns c \<and>
    loadLocalAgentConfig parse_url posix path' = returns c"
proof -
  obtain c where c: "parseLocalAgentConfig parse_url config = returns c"
    and "put_config posix created_mode c path = Some path'"
    using assms(2) by (auto simp: writeLocalAgentConfig_def split: sum.splits option.splits)
  then obtain m where "path' = ConfigFile m c" "posix \<longrightarrow> m = 384" using assms(3) by auto
  then show ?thesis
    using c parseLocalAgentConfig_Inr(5) [OF c assms(1)] by (auto simp: loadLocalAgentConfig_def)
qed

definition sample_url :: "string \<Rightarrow> string \<Rightarrow> nat option \<Rightarrow> string \<Rightarrow> url" where
  "sample_url protocol host port origin =
     \<lparr>url_protocol = protocol, url_username = [], url_password = [], url_hostname = host,
      url_port = port, url_pathname = ''/'', url_search = [], url_hash = [], url_origin = origin\<rparr>"

text \<open>A parser that knows two addresses.\<close>

definition sample_parser :: url_parser where
  "sample_parser v =
     (if v = ''http://127.0.0.1:17371'' then Some (sample_url ''http:'' ''127.0.0.1'' (Some 17371) v)
      else if v = ''https://a.b'' then Some (sample_url ''https:'' ''a.b'' None v)
      else None)"

definition sample_config :: agent_config where
  "sample_config = \<lparr>cfg_url = ''http://127.0.0.1:17371'', cfg_token = replicate 64 (CHR ''a''),
     allowedOrigins = [''https://a.b''], allowedAttachmentOrigins = [''https://a.b''],
     cfg_model = '' m '', cfg_effort = Some ''high'', canvases = [(''c'', ''/w'')]\<rparr>"

lemma show_17371: "show_nat 17371 = ''17371''"
  by (simp add: show_nat.simps char_of_def bit_0)

lemma sample_parser_serialises: "url_serialises sample_parser"
  unfolding url_serialises_def
  by (auto simp: sample_parser_def sample_url_def show_17371 split: if_splits)

lemma sample_config_parses:
  "parseLocalAgentConfig sample_parser sample_config = returns (sample_config\<lparr>cfg_model := ''m''\<rparr>)"
proof -
  have "js_trim '' m '' = ''m''" by (simp add: js_trim_def js_space_def)
  moreover have "assertTokenHasAtLeast256Bits (replicate 64 (CHR ''a'')) = returns ()"
    by (simp add: accepted_token_iff hex_char_def list_all_iff)
  moreover have "public_host ''a.b''"
    by (simp add: public_host_def strip_brackets_def js_lower_def lower_char_def isPrivateAddress_def
        isIP_def isIPv4_def isIPv6_def ipv6_group_def)
  ultimately show ?thesis
    by (simp add: parseLocalAgentConfig_def config_shape_def sample_config_def bounded_text_def
        isAbsolute_def js_starts_with_def parseLoopbackURL_def parseAllowedOrigin_def
        parsePublicAttachmentOrigin_def sample_parser_def sample_url_def show_17371 safe_integer_def
        js_set_of_def js_add_def)
qed

theorem accepted_config_is_safe_witness:
  "\<exists>c. parseLocalAgentConfig sample_parser sample_config = returns c \<and> distinct (allowedOrigins c)"
  using accepted_config_is_safe [OF sample_config_parses] sample_config_parses by blast

theorem written_config_loads_witness:
  "\<exists>path' c. writeLocalAgentConfig sample_parser True 420 sample_config NoConfig = (returns (), path') \<and>
     loadLocalAgentConfig sample_parser True path' = returns c"
proof -
  obtain path' where w: "writeLocalAgentConfig sample_parser True 420 sample_config NoConfig = (returns (), path')"
    by (simp add: writeLocalAgentConfig_def sample_config_parses)
  show ?thesis using w written_config_loads [OF sample_parser_serialises w] by blast
qed

subsection \<open>The checks of requests\<close>

text \<open>\<^verbatim>\<open>Buffer.from(text)\<close>, for code units below 256.\<close>

fun utf8 :: "string \<Rightarrow> nat list" where
  "utf8 [] = []"
| "utf8 (c # cs) =
     (let n = of_char c
      in if n < 128 then n # utf8 cs else (192 + n div 64) # (128 + n mod 64) # utf8 cs)"

definition constantTimeTextEqual :: "string \<Rightarrow> string \<Rightarrow> bool" where
  "constantTimeTextEqual left right =
     (let leftBytes = utf8 left; rightBytes = utf8 right
      in if length leftBytes \<noteq> length rightBytes then False else leftBytes = rightBytes)"

definition assertProtectedRequestSecurity ::
  "agent_config \<Rightarrow> string option \<Rightarrow> string option \<Rightarrow> string option \<Rightarrow> (config_error, unit) result"
where
  "assertProtectedRequestSecurity config origin tokenHeader queryToken =
     (if queryToken \<noteq> None then throws TokenInQuery
      else if (case origin of None \<Rightarrow> True
               | Some r \<Rightarrow> r = [] \<or> r = ''null'' \<or> r \<notin> set (allowedOrigins config))
      then throws OriginForbidden
      else if (case tokenHeader of None \<Rightarrow> True
               | Some t \<Rightarrow> t = [] \<or> \<not> constantTimeTextEqual t (cfg_token config))
      then throws TokenWrong
      else returns ())"

definition assertInternalRequestSecurity ::
  "agent_config \<Rightarrow> string option \<Rightarrow> string option \<Rightarrow> (config_error, unit) result" where
  "assertInternalRequestSecurity config tokenHeader queryToken =
     (if queryToken \<noteq> None then throws TokenInQuery
      else if (case tokenHeader of None \<Rightarrow> True
               | Some t \<Rightarrow> t = [] \<or> \<not> constantTimeTextEqual t (cfg_token config))
      then throws TokenWrong
      else returns ())"

lemma utf8_inject: "utf8 s = utf8 t \<longleftrightarrow> s = t"
proof (induction s arbitrary: t)
  case Nil
  then show ?case by (cases t) (auto simp: Let_def)
next
  case (Cons c cs)
  show ?case
  proof (cases t)
    case (Cons d ds)
    have "c = d" if "(of_char c :: nat) div 64 = of_char d div 64" "(of_char c :: nat) mod 64 = of_char d mod 64"
      using that by (metis div_mult_mod_eq of_char_eq_iff)
    then show ?thesis using Cons.IH [of ds] Cons by (auto simp: Let_def)
  qed (auto simp: Let_def)
qed

lemma constantTimeTextEqual_iff: "constantTimeTextEqual s t \<longleftrightarrow> s = t"
  by (auto simp: constantTimeTextEqual_def Let_def utf8_inject)

lemma accepted_token_ne: "assertTokenHasAtLeast256Bits t = returns () \<Longrightarrow> t \<noteq> []"
  by (auto simp: assertTokenHasAtLeast256Bits_def)

lemma internal_request_iff:
  "cfg_token c \<noteq> [] \<Longrightarrow>
   assertInternalRequestSecurity c token query = returns () \<longleftrightarrow> query = None \<and> token = Some (cfg_token c)"
  by (auto simp: assertInternalRequestSecurity_def constantTimeTextEqual_iff split: option.splits)

lemma protected_request_iff:
  "cfg_token c \<noteq> [] \<Longrightarrow>
   assertProtectedRequestSecurity c origin token query = returns () \<longleftrightarrow>
     query = None \<and> token = Some (cfg_token c) \<and>
     (\<exists>r. origin = Some r \<and> r \<noteq> [] \<and> r \<noteq> ''null'' \<and> r \<in> set (allowedOrigins c))"
  by (auto simp: assertProtectedRequestSecurity_def constantTimeTextEqual_iff split: option.splits)

end
