(* ===== verification/Attachments.thy ===== *)
theory Attachments
  imports AgentConfig ThreadService
begin

text \<open>
  The attachments of a turn, \<^verbatim>\<open>canvas-agent/src/attachment-manager.ts\<close>: they are downloaded from the
  allowed origins into a new directory under the managed root, and removed with it. The network is
  an argument, \<open>fetch n\<close> the answer to the \<open>n\<close>-th request (\<open>None\<close>: it throws); so is the resolution of
  a redirect against the current address. The file system is the state.
\<close>

datatype attachment_error =
  ManagerTooManyAttachments | UrlUnparsable | OriginNotAllowed | FetchFailed | LocationMissing
| HttpStatus nat | TypeMismatch | AttachmentTooLarge | BodyMissing | BodyBroken | TooManyRedirects
| TurnTooLarge | NotManagedDirectory | WriteFailed

definition MAX_ATTACHMENT_BYTES :: nat where "MAX_ATTACHMENT_BYTES = 25 * 1024 * 1024"
definition MAX_TURN_ATTACHMENT_BYTES :: nat where "MAX_TURN_ATTACHMENT_BYTES = 30 * 1024 * 1024"

text \<open>
  A response: \<open>rs_declaredSize\<close> is \<^verbatim>\<open>Number\<close> of its \<^verbatim>\<open>content-length\<close>, \<open>None\<close> if that is not finite;
  the body is what its reader answers, and whether the reader ends without an error.
\<close>

record http_response =
  rs_status :: nat
  rs_location :: "string option"
  rs_contentType :: "string option"
  rs_declaredSize :: "rat option"
  rs_body :: "(8 word list list \<times> bool) option"

type_synonym network = "nat \<Rightarrow> string \<Rightarrow> http_response option"

definition isRedirect :: "nat \<Rightarrow> bool" where
  "isRedirect status \<longleftrightarrow> status = 301 \<or> status = 302 \<or> status = 303 \<or> status = 307 \<or> status = 308"

definition parseAllowedURL ::
  "url_parser \<Rightarrow> string \<Rightarrow> string list \<Rightarrow> (attachment_error, string) result" where
  "parseAllowedURL parse_url v origins =
     (case parse_url v of
        None \<Rightarrow> throws UrlUnparsable
      | Some u \<Rightarrow>
          if url_protocol u \<noteq> ''https:'' \<or> url_username u \<noteq> [] \<or> url_password u \<noteq> [] \<or>
             url_origin u \<notin> set origins
          then throws OriginNotAllowed
          else returns v)"

text \<open>\<^verbatim>\<open>value.split(";", 1)[0].trim().toLowerCase()\<close>\<close>

definition media_type :: "string \<Rightarrow> string" where
  "media_type v = js_lower (js_trim (takeWhile (\<lambda>c. c \<noteq> CHR '';'') v))"

fun read_body :: "nat \<Rightarrow> 8 word list list \<Rightarrow> bool \<Rightarrow> (attachment_error, 8 word list) result" where
  "read_body bytes [] ends = (if ends then returns [] else throws BodyBroken)"
| "read_body bytes (chunk # chunks) ends =
     (if bytes + length chunk > MAX_ATTACHMENT_BYTES then throws AttachmentTooLarge
      else
        case read_body (bytes + length chunk) chunks ends of
          Inl e \<Rightarrow> throws e
        | Inr rest \<Rightarrow> returns (chunk @ rest))"

definition take_response ::
  "local_attachment \<Rightarrow> http_response \<Rightarrow> (attachment_error, 8 word list) result" where
  "take_response a r =
     (if \<not> (200 \<le> rs_status r \<and> rs_status r \<le> 299) then throws (HttpStatus (rs_status r))
      else if (case rs_contentType r of None \<Rightarrow> True
               | Some v \<Rightarrow> media_type v = [] \<or> media_type v \<noteq> js_lower (att_mimeType a))
      then throws TypeMismatch
      else if (case rs_declaredSize r of None \<Rightarrow> False | Some n \<Rightarrow> n > of_nat MAX_ATTACHMENT_BYTES)
      then throws AttachmentTooLarge
      else
        case rs_body r of
          None \<Rightarrow> throws BodyMissing
        | Some (chunks, ends) \<Rightarrow> read_body 0 chunks ends)"

text \<open>
  The loop over redirects, \<open>fuel\<close> the rounds left of its four. The second component is the list of
  addresses requested.
\<close>

fun download_loop ::
  "url_parser \<Rightarrow> (string \<Rightarrow> string \<Rightarrow> string option) \<Rightarrow> network \<Rightarrow> string list \<Rightarrow> local_attachment \<Rightarrow>
     nat \<Rightarrow> nat \<Rightarrow> string \<Rightarrow> (attachment_error, 8 word list) result \<times> string list" where
  "download_loop parse_url resolve_url fetch origins a n 0 current = (throws TooManyRedirects, [])"
| "download_loop parse_url resolve_url fetch origins a n (Suc fuel) current =
     (case fetch n current of
        None \<Rightarrow> (throws FetchFailed, [current])
      | Some response \<Rightarrow>
          if isRedirect (rs_status response) then
            (case rs_location response of
               None \<Rightarrow> (throws LocationMissing, [current])
             | Some [] \<Rightarrow> (throws LocationMissing, [current])
             | Some location \<Rightarrow>
                 (case resolve_url location current of
                    None \<Rightarrow> (throws UrlUnparsable, [current])
                  | Some v \<Rightarrow>
                      (case parseAllowedURL parse_url v origins of
                         Inl e \<Rightarrow> (throws e, [current])
                       | Inr current' \<Rightarrow>
                           (let (r, us) = download_loop parse_url resolve_url fetch origins a (Suc n)
                                            fuel current'
                            in (r, current # us)))))
          else (take_response a response, [current]))"

definition download ::
  "url_parser \<Rightarrow> (string \<Rightarrow> string \<Rightarrow> string option) \<Rightarrow> network \<Rightarrow> string list \<Rightarrow> local_attachment \<Rightarrow>
     nat \<Rightarrow> (attachment_error, 8 word list) result \<times> string list" where
  "download parse_url resolve_url fetch origins a n =
     (case parseAllowedURL parse_url (att_url a) origins of
        Inl e \<Rightarrow> (throws e, [])
      | Inr current \<Rightarrow> download_loop parse_url resolve_url fetch origins a n 4 current)"

subsection \<open>Names of files\<close>

text \<open>\<^verbatim>\<open>extname\<close> of the POSIX paths.\<close>

definition base_name :: "string \<Rightarrow> string" where
  "base_name p = rev (takeWhile (\<lambda>c. c \<noteq> CHR ''/'') (dropWhile (\<lambda>c. c = CHR ''/'') (rev p)))"

definition extname :: "string \<Rightarrow> string" where
  "extname p =
     (let b = base_name p;
          after = rev (takeWhile (\<lambda>c. c \<noteq> CHR ''.'') (rev b));
          before = take (length b - length after) b
      in if before = [] \<or> before = ''.'' \<or> (before = ''..'' \<and> after = []) then [] else CHR ''.'' # after)"

definition safeExtension :: "string \<Rightarrow> string" where
  "safeExtension name =
     (let suffix = js_lower (extname name)
      in if length suffix \<ge> 2 \<and> length suffix \<le> 11 \<and> hd suffix = CHR ''.'' \<and>
            list_all (\<lambda>c. let n = of_char c :: nat in 97 \<le> n \<and> n \<le> 122 \<or> 48 \<le> n \<and> n \<le> 57) (tl suffix)
         then suffix else [])"

subsection \<open>The managed directory\<close>

record attachment_disk =
  directories :: "string list"
  stored :: "(string, 8 word list) js_map"

definition join_path :: "string \<Rightarrow> string \<Rightarrow> string" where
  "join_path directory name = directory @ CHR ''/'' # name"

text \<open>\<^verbatim>\<open>rm(directory, { recursive: true, force: true })\<close>\<close>

definition remove_tree :: "string \<Rightarrow> attachment_disk \<Rightarrow> attachment_disk" where
  "remove_tree directory d =
     \<lparr>directories = filter (\<lambda>p. \<not> (p = directory \<or> js_starts_with p (directory @ ''/''))) (directories d),
      stored = filter (\<lambda>(p, _). \<not> (p = directory \<or> js_starts_with p (directory @ ''/''))) (stored d)\<rparr>"

definition attachment_cleanup ::
  "string \<Rightarrow> string \<Rightarrow> attachment_disk \<Rightarrow> (attachment_error, unit) result \<times> attachment_disk" where
  "attachment_cleanup managed directory d =
     (if \<not> js_starts_with directory (managed @ ''/'') then (throws NotManagedDirectory, d)
      else (returns (), remove_tree directory d))"

text \<open>
  The loop over the attachments. \<open>uuids\<close> are the fresh names, \<open>writes\<close> says whether a write succeeds.
\<close>

fun ingest_loop ::
  "(local_attachment \<Rightarrow> nat \<Rightarrow> (attachment_error, 8 word list) result) \<Rightarrow> (nat \<Rightarrow> string) \<Rightarrow>
     (string \<Rightarrow> bool) \<Rightarrow> string \<Rightarrow> local_attachment list \<Rightarrow> nat \<Rightarrow> nat \<Rightarrow> attachment_disk \<Rightarrow>
     (attachment_error, resolved_attachment list) result \<times> attachment_disk" where
  "ingest_loop get uuids writes directory [] k totalBytes d = (returns [], d)"
| "ingest_loop get uuids writes directory (a # as) k totalBytes d =
     (case get a k of
        Inl e \<Rightarrow> (throws e, d)
      | Inr content \<Rightarrow>
          let total = totalBytes + length content;
              localPath = join_path directory (uuids k @ safeExtension (att_name a));
              d1 = d\<lparr>stored := js_set (stored d) localPath content\<rparr>
          in if total > MAX_TURN_ATTACHMENT_BYTES then (throws TurnTooLarge, d)
             else if \<not> writes localPath then (throws WriteFailed, d)
             else
               case ingest_loop get uuids writes directory as (Suc k) total d1 of
                 (Inl e, d2) \<Rightarrow> (throws e, d2)
               | (Inr rest, d2) \<Rightarrow>
                   (returns (\<lparr>ra_kind = att_kind a, ra_name = att_name a,
                              ra_mimeType = att_mimeType a, ra_localPath = localPath\<rparr> # rest), d2))"

text \<open>
  \<open>fresh\<close> is what \<^verbatim>\<open>mkdtemp\<close> put after the prefix. The managed root has been resolved.
\<close>

definition ingest ::
  "(local_attachment \<Rightarrow> nat \<Rightarrow> (attachment_error, 8 word list) result) \<Rightarrow> (nat \<Rightarrow> string) \<Rightarrow>
     (string \<Rightarrow> bool) \<Rightarrow> string \<Rightarrow> string \<Rightarrow> local_attachment list \<Rightarrow> attachment_disk \<Rightarrow>
     (attachment_error, string \<times> resolved_attachment list) result \<times> attachment_disk" where
  "ingest get uuids writes managed fresh attachments d =
     (if length attachments > 16 then (throws ManagerTooManyAttachments, d)
      else
        let directory = join_path managed (''turn-'' @ fresh);
            d1 = d\<lparr>directories := directories d @ [directory]\<rparr>
        in case ingest_loop get uuids writes directory attachments 0 0 d1 of
             (Inr resolved, d2) \<Rightarrow> (returns (directory, resolved), d2)
           | (Inl e, d2) \<Rightarrow>
               (case attachment_cleanup managed directory d2 of
                  (Inl e', d3) \<Rightarrow> (throws e', d3)
                | (Inr _, d3) \<Rightarrow> (throws e, d3)))"

definition ingest_attachments ::
  "url_parser \<Rightarrow> (string \<Rightarrow> string \<Rightarrow> string option) \<Rightarrow> (nat \<Rightarrow> network) \<Rightarrow> string list \<Rightarrow>
     (nat \<Rightarrow> string) \<Rightarrow> (string \<Rightarrow> bool) \<Rightarrow> string \<Rightarrow> string \<Rightarrow> local_attachment list \<Rightarrow>
     attachment_disk \<Rightarrow>
     (attachment_error, string \<times> resolved_attachment list) result \<times> attachment_disk" where
  "ingest_attachments parse_url resolve_url net origins =
     ingest (\<lambda>a k. fst (download parse_url resolve_url (net k) origins a 0))"

subsection \<open>Downloads\<close>

definition allowed_address :: "url_parser \<Rightarrow> string list \<Rightarrow> string \<Rightarrow> bool" where
  "allowed_address parse_url origins v \<longleftrightarrow>
     (\<exists>u. parse_url v = Some u \<and> url_protocol u = ''https:'' \<and> url_username u = [] \<and>
        url_password u = [] \<and> url_origin u \<in> set origins)"

lemma parseAllowedURL_Inr:
  "parseAllowedURL parse_url v origins = Inr w \<longleftrightarrow> w = v \<and> allowed_address parse_url origins v"
  by (auto simp: parseAllowedURL_def allowed_address_def split: option.splits if_splits)

lemma read_body_bound:
  "read_body bytes chunks ends = returns content \<Longrightarrow> bytes \<le> MAX_ATTACHMENT_BYTES \<Longrightarrow>
   ends \<and> content = concat chunks \<and> bytes + length content \<le> MAX_ATTACHMENT_BYTES"
proof (induction bytes chunks ends arbitrary: content rule: read_body.induct)
  case (2 bytes chunk chunks ends)
  then show ?case by (auto split: if_splits sum.splits)
qed (auto split: if_splits)

definition acceptable_response :: "local_attachment \<Rightarrow> 8 word list \<Rightarrow> http_response \<Rightarrow> bool" where
  "acceptable_response a content r \<longleftrightarrow>
     200 \<le> rs_status r \<and> rs_status r \<le> 299 \<and>
     (\<exists>v. rs_contentType r = Some v \<and> media_type v = js_lower (att_mimeType a)) \<and>
     (\<exists>chunks. rs_body r = Some (chunks, True) \<and> content = concat chunks) \<and>
     length content \<le> MAX_ATTACHMENT_BYTES"

lemma take_response_Inr: "take_response a r = returns content \<Longrightarrow> acceptable_response a content r"
  using read_body_bound [of 0 _ _ content]
  by (auto simp: take_response_def acceptable_response_def split: if_splits option.splits prod.splits)

lemma download_loop_post:
  "download_loop parse_url resolve_url fetch origins a n fuel current = (r, us) \<Longrightarrow>
   allowed_address parse_url origins current \<Longrightarrow>
   length us \<le> fuel \<and> list_all (allowed_address parse_url origins) us \<and>
   (\<forall>content. r = returns content \<longrightarrow>
      (\<exists>response i. fetch i (last us) = Some response \<and> us \<noteq> [] \<and> acceptable_response a content response))"
proof (induction fuel arbitrary: n current r us)
  case (Suc fuel)
  consider "\<exists>v r' us'. r = r' \<and> us = current # us' \<and> allowed_address parse_url origins v \<and>
      download_loop parse_url resolve_url fetch origins a (Suc n) fuel v = (r', us')"
    | "us = [current]" "\<exists>e. r = throws e"
    | response where "us = [current]" "fetch n current = Some response" "r = take_response a response"
    using Suc.prems(1)
    by (auto simp: parseAllowedURL_Inr split: option.splits if_splits list.splits sum.splits prod.splits)
  then show ?case
  proof cases
    case 1
    then obtain v us' where us: "us = current # us'" and ok: "allowed_address parse_url origins v"
      and rest: "download_loop parse_url resolve_url fetch origins a (Suc n) fuel v = (r, us')" by blast
    show ?thesis using Suc.IH [OF rest ok] Suc.prems(2) us by auto
  next
    case 3
    then show ?thesis using Suc.prems(2) take_response_Inr by force
  qed (use Suc.prems(2) in auto)
qed auto

text \<open>
  C40. Downloading an attachment asks only https addresses of the allowed origins, without
  credentials, at most four of them however the servers redirect; content that is accepted came
  from the last of them, with the declared media type, complete, and no more than 25 MB.
\<close>

theorem download_stays_on_allowed_origins:
  "case download parse_url resolve_url fetch origins a n of (r, us) \<Rightarrow>
     length us \<le> 4 \<and> list_all (allowed_address parse_url origins) us \<and>
     (\<forall>content. r = returns content \<longrightarrow>
        (\<exists>response i. fetch i (last us) = Some response \<and> us \<noteq> [] \<and>
           acceptable_response a content response))"
proof -
  have loop: "case download_loop parse_url resolve_url fetch origins a n 4 v of (r, us) \<Rightarrow>
     length us \<le> 4 \<and> list_all (allowed_address parse_url origins) us \<and>
     (\<forall>content. r = returns content \<longrightarrow>
        (\<exists>response i. fetch i (last us) = Some response \<and> us \<noteq> [] \<and>
           acceptable_response a content response))" if "allowed_address parse_url origins v" for v
    using download_loop_post [OF _ that, of resolve_url fetch a n 4]
    by (cases "download_loop parse_url resolve_url fetch origins a n 4 v") blast
  show ?thesis
  proof (cases "parseAllowedURL parse_url (att_url a) origins")
    case (Inr w)
    then have "allowed_address parse_url origins w" by (simp add: parseAllowedURL_Inr)
    then show ?thesis using loop [of w] Inr by (simp add: download_def)
  qed (simp add: download_def)
qed

subsection \<open>Ingestion\<close>

definition below :: "string \<Rightarrow> string \<Rightarrow> bool" where
  "below directory p \<longleftrightarrow> p = directory \<or> js_starts_with p (directory @ ''/'')"

definition outside :: "string \<Rightarrow> attachment_disk \<Rightarrow> attachment_disk" where
  "outside directory d = \<lparr>directories = filter (\<lambda>p. \<not> below directory p) (directories d),
     stored = filter (\<lambda>(p, _). \<not> below directory p) (stored d)\<rparr>"

lemma remove_tree_outside: "remove_tree directory d = outside directory d"
  by (simp add: remove_tree_def outside_def below_def)

lemma starts_with_append [simp]: "js_starts_with (p @ q) p"
  by (simp add: js_starts_with_def)

lemma below_join: "below directory (join_path directory name)"
  by (simp add: below_def join_path_def js_starts_with_def)

lemma filter_js_set: "\<not> q k \<Longrightarrow> filter (\<lambda>(p, _). q p) (js_set m k v) = filter (\<lambda>(p, _). q p) m"
  by (induction m) auto

lemma ingest_loop_outside:
  "ingest_loop get uuids writes directory as k n d = (r, d') \<Longrightarrow> outside directory d' = outside directory d"
proof (induction get uuids writes directory as k n d arbitrary: r d' rule: ingest_loop.induct)
  case (2 get uuids writes directory a as k totalBytes d)
  have "filter (\<lambda>(p, _). \<not> below directory p)
      (js_set (stored d) (join_path directory (uuids k @ safeExtension (att_name a))) c) =
      filter (\<lambda>(p, _). \<not> below directory p) (stored d)" for c
    by (rule filter_js_set) (simp add: below_join)
  then have step: "outside directory (d\<lparr>stored := js_set (stored d)
      (join_path directory (uuids k @ safeExtension (att_name a))) c\<rparr>) = outside directory d" for c
    by (simp add: outside_def)
  show ?case using 2(2) 2(1) step
    by (auto simp: Let_def split: sum.splits prod.splits if_splits)
qed simp

lemma failed_ingestion:
  assumes "ingest_attachments parse_url resolve_url net origins uuids writes managed fresh as d =
      (throws e, d')"
    and "\<forall>p \<in> set (directories d) \<union> set (js_keys (stored d)). \<not> below (join_path managed (''turn-'' @ fresh)) p"
  shows "d' = d"
proof -
  let ?dir = "join_path managed (''turn-'' @ fresh)"
  let ?d1 = "d\<lparr>directories := directories d @ [?dir]\<rparr>"
  let ?loop = "ingest_loop (\<lambda>a k. fst (download parse_url resolve_url (net k) origins a 0)) uuids writes ?dir as 0 0 ?d1"
  have new: "outside ?dir ?d1 = d"
  proof -
    have "filter (\<lambda>p. \<not> below ?dir p) (directories d) = directories d"
      using assms(2) by (intro filter_True) blast
    moreover have "filter (\<lambda>(p, _). \<not> below ?dir p) (stored d) = stored d"
      using assms(2) by (intro filter_True) force
    moreover have "below ?dir ?dir" by (simp add: below_def)
    ultimately show ?thesis by (simp add: outside_def)
  qed
  have "js_starts_with ?dir (managed @ ''/'')"
    by (simp add: join_path_def js_starts_with_def)
  then have clean: "attachment_cleanup managed ?dir x = (returns (), outside ?dir x)" for x
    by (simp add: attachment_cleanup_def remove_tree_outside)
  show ?thesis
  proof (cases "length as > 16")
    case False
    obtain r d2 where loop: "?loop = (r, d2)" by (cases ?loop)
    have "outside ?dir d2 = d" using ingest_loop_outside [OF loop] new by simp
    then show ?thesis using assms(1) False loop clean
      by (auto simp: ingest_attachments_def ingest_def Let_def split: sum.splits)
  qed (use assms(1) in \<open>simp add: ingest_attachments_def ingest_def\<close>)
qed

text \<open>
  If a turn's attachments cannot all be taken, the ones already written are removed with their
  directory and nothing else is: the disk is as it was.
\<close>

lemma failed_ingestion_leaves_nothing:
  assumes "ingest_attachments parse_url resolve_url net origins uuids writes managed fresh as d =
      (throws e, d')"
    and "\<forall>p \<in> set (directories d) \<union> set (js_keys (stored d)). \<not> below (join_path managed (''turn-'' @ fresh)) p"
  shows "d' = d"
  using assms by (rule failed_ingestion)

definition sample_local_attachment :: local_attachment where
  "sample_local_attachment = \<lparr>att_kind = FileAttachment, att_name = ''x.png'', att_mimeType = ''a/b'',
     att_url = ''https://a.b''\<rparr>"

definition ok_response :: http_response where
  "ok_response = \<lparr>rs_status = 200, rs_location = None, rs_contentType = Some ''a/b; q'',
     rs_declaredSize = Some 2, rs_body = Some ([[1], [2]], True)\<rparr>"

text \<open>The first attachment is served, the second is not.\<close>

definition sample_net :: "nat \<Rightarrow> network" where
  "sample_net k n v = (if k = 0 then Some ok_response else None)"

definition sample_disk :: attachment_disk where
  "sample_disk = \<lparr>directories = [''/a/turn-old''], stored = [(''/a/turn-old/u'', [7])]\<rparr>"

lemmas download_loop_4 = download_loop.simps(2) [where fuel = 3, simplified]

lemma sample_download:
  "download sample_parser (\<lambda>_ _. None) (sample_net k) [''https://a.b''] sample_local_attachment 0 =
     ((if k = 0 then returns [1, 2] else throws FetchFailed), [''https://a.b''])"
proof -
  have "media_type ''a/b; q'' = js_lower ''a/b''" "js_lower ''a/b'' \<noteq> []"
    by (simp_all add: media_type_def js_trim_def js_space_def js_lower_def lower_char_def)
  then show ?thesis
    by (simp add: download_def parseAllowedURL_def sample_parser_def sample_url_def sample_net_def
        sample_local_attachment_def ok_response_def isRedirect_def take_response_def
        MAX_ATTACHMENT_BYTES_def download_loop_4)
qed

theorem download_stays_on_allowed_origins_witness:
  "\<exists>response i. sample_net 0 i ''https://a.b'' = Some response \<and>
     acceptable_response sample_local_attachment [1, 2] response"
  using download_stays_on_allowed_origins [where parse_url = sample_parser and resolve_url = "\<lambda>_ _. None"
      and fetch = "sample_net 0" and origins = "[''https://a.b'']" and a = sample_local_attachment and n = 0]
  by (simp add: sample_download)

theorem failed_ingestion_leaves_nothing_witness:
  "\<exists>e. ingest_attachments sample_parser (\<lambda>_ _. None) sample_net [''https://a.b''] show_nat (\<lambda>_. True)
     ''/a'' ''x'' [sample_local_attachment, sample_local_attachment] sample_disk = (throws e, sample_disk)"
proof -
  let ?run = "ingest_attachments sample_parser (\<lambda>_ _. None) sample_net [''https://a.b''] show_nat (\<lambda>_. True)
     ''/a'' ''x'' [sample_local_attachment, sample_local_attachment] sample_disk"
  have "fst ?run = throws FetchFailed"
    by (simp add: ingest_attachments_def ingest_def sample_download Let_def MAX_TURN_ATTACHMENT_BYTES_def
        attachment_cleanup_def join_path_def js_starts_with_def)
  then obtain d' where run: "?run = (throws FetchFailed, d')" by (metis prod.collapse)
  have "d' = sample_disk"
    by (rule failed_ingestion_leaves_nothing [OF run])
      (simp add: sample_disk_def join_path_def below_def js_starts_with_def)
  then show ?thesis using run by blast
qed

text \<open>Where the attachment at index \<open>k\<close> is stored. Fresh names differ, have one length and no separator.\<close>

definition attachment_path :: "(nat \<Rightarrow> string) \<Rightarrow> string \<Rightarrow> local_attachment \<Rightarrow> nat \<Rightarrow> string" where
  "attachment_path uuids directory a k = join_path directory (uuids k @ safeExtension (att_name a))"

definition fresh_names :: "(nat \<Rightarrow> string) \<Rightarrow> bool" where
  "fresh_names uuids \<longleftrightarrow>
     list_all (\<lambda>s. length s = length (uuids 0) \<and> s \<noteq> [] \<and> CHR ''/'' \<notin> set s \<and> CHR ''.'' \<notin> set s)
       (map uuids [0..<16]) \<and>
     distinct (map uuids [0..<16])"

lemma fresh_names_facts:
  assumes "fresh_names uuids" and "i < 16"
  shows "length (uuids i) = length (uuids 0)" and "uuids i \<noteq> []" and "CHR ''/'' \<notin> set (uuids i)"
    and "CHR ''.'' \<notin> set (uuids i)" and "j < 16 \<Longrightarrow> uuids i = uuids j \<Longrightarrow> i = j"
proof -
  have "uuids i \<in> set (map uuids [0..<16])" using assms(2) by (simp del: upt.simps upt_Suc)
  with assms(1) have "length (uuids i) = length (uuids 0) \<and> uuids i \<noteq> [] \<and>
      CHR ''/'' \<notin> set (uuids i) \<and> CHR ''.'' \<notin> set (uuids i)"
    unfolding fresh_names_def list_all_iff by blast
  then show "length (uuids i) = length (uuids 0)" and "uuids i \<noteq> []" and "CHR ''/'' \<notin> set (uuids i)"
    and "CHR ''.'' \<notin> set (uuids i)" by blast+
  have "inj_on uuids {0..<16}" using assms(1) by (simp only: fresh_names_def distinct_map set_upt)
  then show "j < 16 \<Longrightarrow> uuids i = uuids j \<Longrightarrow> i = j" using assms(2) by (auto dest: inj_onD)
qed

lemma attachment_path_inject:
  assumes "fresh_names uuids" and "i < 16" and "j < 16"
    and "attachment_path uuids directory a i = attachment_path uuids directory b j"
  shows "i = j"
proof -
  have "length (uuids i) = length (uuids j)"
    using fresh_names_facts(1) [OF assms(1)] assms(2,3) by metis
  then have "uuids i = uuids j" using assms(4) by (simp add: attachment_path_def join_path_def)
  then show ?thesis using fresh_names_facts(5) [OF assms(1-3)] by simp
qed

lemma ingest_loop_keeps:
  "ingest_loop get uuids writes directory as k n d = (r, d') \<Longrightarrow>
   \<forall>a i. k \<le> i \<and> i < k + length as \<longrightarrow> p \<noteq> attachment_path uuids directory a i \<Longrightarrow>
   js_get (stored d') p = js_get (stored d) p"
proof (induction get uuids writes directory as k n d arbitrary: r d' rule: ingest_loop.induct)
  case (2 get uuids writes directory a as k totalBytes d)
  have "p \<noteq> attachment_path uuids directory a k" using 2(3) by simp
  then have step: "js_get (js_set (stored d) (join_path directory (uuids k @ safeExtension (att_name a))) c) p =
      js_get (stored d) p" for c by (simp add: js_get_set attachment_path_def)
  have later: "\<forall>a i. Suc k \<le> i \<and> i < Suc k + length as \<longrightarrow> p \<noteq> attachment_path uuids directory a i"
    using 2(3) by simp
  show ?case using 2(2) 2(1) [OF _ refl refl refl] step later
    by (auto simp: Let_def split: sum.splits prod.splits if_splits)
qed simp

lemma ingest_loop_Inr:
  "ingest_loop get uuids writes directory as k n d = (returns res, d') \<Longrightarrow> fresh_names uuids \<Longrightarrow>
   k + length as \<le> 16 \<Longrightarrow> n \<le> MAX_TURN_ATTACHMENT_BYTES \<Longrightarrow>
   \<exists>contents. list_all2 (\<lambda>a b. ra_kind b = att_kind a \<and> ra_name b = att_name a \<and> ra_mimeType b = att_mimeType a \<and>
       (\<exists>j < 16. ra_localPath b = attachment_path uuids directory a j)) as res \<and>
     list_all2 (\<lambda>b c. js_get (stored d') (ra_localPath b) = Some c) res contents \<and>
     list_all2 (\<lambda>a c. \<exists>j. get a j = returns c) as contents \<and>
     n + sum_list (map length contents) \<le> MAX_TURN_ATTACHMENT_BYTES"
proof (induction as arbitrary: k n d res)
  case Nil
  then show ?case by (intro exI [of _ "[]"]) auto
next
  case (Cons a as)
  let ?p = "attachment_path uuids directory a k"
  obtain c rest where c: "get a k = returns c" and small: "n + length c \<le> MAX_TURN_ATTACHMENT_BYTES"
    and loop: "ingest_loop get uuids writes directory as (Suc k) (n + length c)
        (d\<lparr>stored := js_set (stored d) ?p c\<rparr>) = (returns rest, d')"
    and res: "res = \<lparr>ra_kind = att_kind a, ra_name = att_name a, ra_mimeType = att_mimeType a,
        ra_localPath = ?p\<rparr> # rest"
    using Cons.prems(1)
    by (auto simp: Let_def attachment_path_def split: sum.splits prod.splits if_splits)
  have "\<forall>b i. Suc k \<le> i \<and> i < Suc k + length as \<longrightarrow> ?p \<noteq> attachment_path uuids directory b i"
  proof (intro allI impI notI)
    fix b i
    assume i: "Suc k \<le> i \<and> i < Suc k + length as" and "?p = attachment_path uuids directory b i"
    then have "k = i" using Cons.prems(3) by (intro attachment_path_inject [OF Cons.prems(2)]) auto
    with i show False by simp
  qed
  from ingest_loop_keeps [OF loop this] have kept: "js_get (stored d') ?p = Some c"
    by (simp add: js_get_set)
  obtain contents where
    "list_all2 (\<lambda>a b. ra_kind b = att_kind a \<and> ra_name b = att_name a \<and> ra_mimeType b = att_mimeType a \<and>
       (\<exists>j < 16. ra_localPath b = attachment_path uuids directory a j)) as rest"
    "list_all2 (\<lambda>b c. js_get (stored d') (ra_localPath b) = Some c) rest contents"
    "list_all2 (\<lambda>a c. \<exists>j. get a j = returns c) as contents"
    "n + length c + sum_list (map length contents) \<le> MAX_TURN_ATTACHMENT_BYTES"
    using Cons.IH [OF loop Cons.prems(2) _ small] Cons.prems(3) by auto
  then show ?case using c kept
    by (intro exI [of _ "c # contents"]) (use Cons.prems(3) in \<open>auto simp: res intro!: exI [of _ k]\<close>)
qed

text \<open>A path below a directory, as the guard of the thread service reads it.\<close>

lemma split_slash_append: "split_slash (p @ CHR ''/'' # q) = split_slash p @ split_slash q"
proof (induction p)
  case (Cons c p)
  have "split_slash p \<noteq> []" by (cases p) (auto split: list.splits)
  with Cons show ?case by (auto split: list.splits)
qed simp

lemma split_slash_plain: "CHR ''/'' \<notin> set s \<Longrightarrow> split_slash s = [s]"
  by (induction s) auto

lemma resolve_segments_append:
  "resolve_segments acc (ss @ ts) = resolve_segments (rev (resolve_segments acc ss)) ts"
  by (induction acc ss rule: resolve_segments.induct) auto

lemma resolve_join:
  assumes "segment s"
  shows "resolve_path (join_path p s) = resolve_path p @ [s]"
  using assms by (simp add: resolve_path_def join_path_def split_slash_append resolve_segments_append
      split_slash_plain segment_def)

lemma safeExtension_no_slash: "CHR ''/'' \<notin> set (safeExtension name)"
proof -
  let ?x = "js_lower (extname name)"
  let ?ok = "\<lambda>c. let n = of_char c :: nat in 97 \<le> n \<and> n \<le> 122 \<or> 48 \<le> n \<and> n \<le> 57"
  have "CHR ''/'' \<notin> set (tl ?x)" if "list_all ?ok (tl ?x)"
  proof
    assume "CHR ''/'' \<in> set (tl ?x)"
    with that have "?ok (CHR ''/'')" by (simp only: list_all_iff)
    then show False by simp
  qed
  then show ?thesis by (cases ?x) (auto simp: safeExtension_def Let_def)
qed

lemma attachment_segment: "fresh_names uuids \<Longrightarrow> k < 16 \<Longrightarrow> segment (uuids k @ safeExtension name)"
proof -
  assume f: "fresh_names uuids" "k < 16"
  note u = fresh_names_facts(2-4) [OF f]
  then have "hd (uuids k @ safeExtension name) \<noteq> CHR ''.''" by (cases "uuids k") auto
  moreover have "CHR ''/'' \<notin> set (uuids k @ safeExtension name)"
    using u safeExtension_no_slash by simp
  moreover have "uuids k @ safeExtension name \<noteq> []" using u(1) by simp
  ultimately show ?thesis unfolding segment_def by (metis list.sel(1))
qed

text \<open>
  A turn whose attachments were taken has at most 16 of them and 30 MB in all; each was
  downloaded and is stored under its own path, in the order of the request; and each path lies
  below the managed root, as the thread service will demand.
\<close>

lemma ingested_attachments_are_stored:
  assumes "ingest_attachments parse_url resolve_url net origins uuids writes managed fresh as d =
      (returns (directory, res), d')"
    and "fresh_names uuids" and "CHR ''/'' \<notin> set fresh"
  shows "length as \<le> 16 \<and> directory = join_path managed (''turn-'' @ fresh) \<and>
    (\<exists>contents. sum_list (map length contents) \<le> MAX_TURN_ATTACHMENT_BYTES \<and>
       list_all2 (\<lambda>a c. \<exists>k. fst (download parse_url resolve_url (net k) origins a 0) = returns c) as contents \<and>
       list_all2 (\<lambda>b c. js_get (stored d') (ra_localPath b) = Some c) res contents) \<and>
    list_all2 (\<lambda>a b. ra_kind b = att_kind a \<and> ra_name b = att_name a \<and> ra_mimeType b = att_mimeType a \<and>
       isPathWithin (resolve_path managed) (resolve_path (ra_localPath b))) as res"
proof -
  have loop: "ingest_loop (\<lambda>a k. fst (download parse_url resolve_url (net k) origins a 0)) uuids writes directory
      as 0 0 (d\<lparr>directories := directories d @ [directory]\<rparr>) = (returns res, d')"
    and dir: "directory = join_path managed (''turn-'' @ fresh)" and len: "length as \<le> 16"
    using assms(1)
    by (auto simp: ingest_attachments_def ingest_def Let_def split: if_splits prod.splits sum.splits)
  have "segment (''turn-'' @ fresh)" using assms(3) by (simp add: segment_def)
  then have "resolve_path (attachment_path uuids directory a j) =
      resolve_path managed @ [''turn-'' @ fresh, uuids j @ safeExtension (att_name a)]" if "j < 16" for a j
    using that
    by (simp add: dir attachment_path_def resolve_join attachment_segment [OF assms(2)])
  then have "isPathWithin (resolve_path managed) (resolve_path (attachment_path uuids directory a j))"
    if "j < 16" for a j
    using that unfolding isPathWithin_iff by simp
  then show ?thesis
    using ingest_loop_Inr [OF loop assms(2)] dir len by (auto elim!: list_all2_mono intro!: exI)
qed

definition sample_names :: "nat \<Rightarrow> string" where
  "sample_names k = [char_of (97 + k)]"

lemma sample_names_fresh: "fresh_names sample_names"
  unfolding fresh_names_def by code_simp

theorem ingested_attachments_are_stored_witness:
  "\<exists>res d'. ingest_attachments sample_parser (\<lambda>_ _. None) sample_net [''https://a.b''] sample_names (\<lambda>_. True)
     ''/a'' ''x'' [sample_local_attachment] sample_disk = (returns (''/a/turn-x'', res), d') \<and>
     list_all2 (\<lambda>a b. ra_name b = att_name a \<and>
       isPathWithin (resolve_path ''/a'') (resolve_path (ra_localPath b))) [sample_local_attachment] res"
proof -
  let ?run = "ingest_attachments sample_parser (\<lambda>_ _. None) sample_net [''https://a.b''] sample_names (\<lambda>_. True)
     ''/a'' ''x'' [sample_local_attachment] sample_disk"
  have "\<exists>res. fst ?run = returns (''/a/turn-x'', res)"
    by (simp add: ingest_attachments_def ingest_def sample_download Let_def MAX_TURN_ATTACHMENT_BYTES_def
        join_path_def)
  then obtain res d' where run: "?run = (returns (''/a/turn-x'', res), d')" by (metis prod.collapse)
  from ingested_attachments_are_stored [OF run sample_names_fresh] show ?thesis
    using run by (auto elim!: list_all2_mono)
qed

lemma ingest_loop_disk:
  "ingest_loop get uuids writes directory as k n d = (r, d') \<Longrightarrow>
   directories d' = directories d \<and>
   (\<forall>p \<in> set (js_keys (stored d')). p \<in> set (js_keys (stored d)) \<or> below directory p)"
proof (induction get uuids writes directory as k n d arbitrary: r d' rule: ingest_loop.induct)
  case (2 get uuids writes directory a as k totalBytes d)
  let ?p = "join_path directory (uuids k @ safeExtension (att_name a))"
  show ?case
  proof (cases "get a k")
    case (Inr c)
    let ?d = "d\<lparr>stored := js_set (stored d) ?p c\<rparr>"
    have new: "\<forall>p \<in> set (js_keys (stored ?d)). p \<in> set (js_keys (stored d)) \<or> below directory p"
      using below_join by (auto simp: js_keys_set)
    show ?thesis
    proof (cases "totalBytes + length c > MAX_TURN_ATTACHMENT_BYTES \<or> \<not> writes ?p")
      case False
      obtain q d2 where loop: "ingest_loop get uuids writes directory as (Suc k) (totalBytes + length c) ?d = (q, d2)"
        by fastforce
      have "d' = d2" using 2(2) Inr False loop by (auto split: sum.splits)
      moreover have "directories d2 = directories d \<and>
          (\<forall>p \<in> set (js_keys (stored d2)). p \<in> set (js_keys (stored ?d)) \<or> below directory p)"
        using 2(1) [OF Inr refl refl refl] False loop by auto
      ultimately show ?thesis using new by blast
    qed (use 2(2) Inr in \<open>auto simp: Let_def split: if_splits\<close>)
  qed (use 2(2) in auto)
qed simp

text \<open>Directories made for turns; two of them are never one below the other.\<close>

definition turn_directory :: "string \<Rightarrow> string \<Rightarrow> bool" where
  "turn_directory managed p \<longleftrightarrow> (\<exists>f. p = join_path managed (''turn-'' @ f) \<and> CHR ''/'' \<notin> set f)"

lemma turn_directory_not_below:
  assumes "turn_directory managed p" and "turn_directory managed q" and "p \<noteq> q"
  shows "\<not> below p q"
proof
  assume "below p q"
  then have s: "js_starts_with q (p @ ''/'')" using assms(3) by (simp add: below_def)
  obtain f g where p: "p = join_path managed (''turn-'' @ f)" and q: "q = join_path managed (''turn-'' @ g)"
    and g: "CHR ''/'' \<notin> set g" using assms(1,2) by (auto simp: turn_directory_def)
  from s obtain r where "q = p @ ''/'' @ r"
    by (metis append.assoc append_take_drop_id js_starts_with_def)
  then have "g = f @ ''/'' @ r" by (simp add: p q join_path_def)
  with g show False by simp
qed

lemma turn_directory_managed: "turn_directory managed p \<Longrightarrow> js_starts_with p (managed @ ''/'')"
  by (auto simp: turn_directory_def join_path_def js_starts_with_def)

lemma below_two:
  assumes "turn_directory managed p" and "turn_directory managed q" and "below p x" and "below q x"
  shows "p = q"
proof -
  have prefix: "\<exists>r. x = p @ r \<and> (r = [] \<or> hd r = CHR ''/'')" if "below p x" for p
    using that unfolding below_def js_starts_with_def
    by (metis append.right_neutral append_take_drop_id append.assoc append_Cons list.sel(1))
  obtain f g where p: "p = join_path managed (''turn-'' @ f)" "CHR ''/'' \<notin> set f"
    and q: "q = join_path managed (''turn-'' @ g)" "CHR ''/'' \<notin> set g"
    using assms(1,2) by (auto simp: turn_directory_def)
  obtain r where r: "x = p @ r" "r = [] \<or> hd r = CHR ''/''" using prefix [OF assms(3)] by blast
  obtain t where t: "x = q @ t" "t = [] \<or> hd t = CHR ''/''" using prefix [OF assms(4)] by blast
  have same: "f @ r = g @ t" using r(1) t(1) by (simp add: p(1) q(1) join_path_def)
  have cut: "takeWhile (\<lambda>c. c \<noteq> CHR ''/'') (h @ u) = h" if "CHR ''/'' \<notin> set h" "u = [] \<or> hd u = CHR ''/''"
    for h u
  proof -
    have "takeWhile (\<lambda>c. c \<noteq> CHR ''/'') u = []" using that(2) by (cases u) auto
    moreover have "\<forall>c \<in> set h. c \<noteq> CHR ''/''" using that(1) by auto
    ultimately show ?thesis by (simp add: takeWhile_append2)
  qed
  have "f = g" using cut [OF p(2) r(2)] cut [OF q(2) t(2)] same by simp
  then show ?thesis by (simp add: p q)
qed

end
