(* ===== verification/RequestLedger.thy ===== *)
theory RequestLedger
  imports Prelude
begin

text \<open>
  The ledger that makes the start of a turn idempotent, \<^verbatim>\<open>startIdempotent\<close> and
  \<^verbatim>\<open>pruneSettledRequestLedger\<close> of \<^verbatim>\<open>canvas-agent/src/http-server.ts\<close>. The promise of an entry is
  known by the number of the execution it belongs to; the execution settles later, an event of its
  own. The ledger iterates in insertion order.
\<close>

definition REQUEST_LEDGER_COMPLETED_LIMIT :: nat where
  "REQUEST_LEDGER_COMPLETED_LIMIT = 4096"

record ledger_entry =
  le_fingerprint :: string
  le_execution :: nat
  le_settled :: bool

type_synonym request_ledger = "(string, ledger_entry) js_map"

definition settled_count :: "request_ledger \<Rightarrow> nat" where
  "settled_count ledger = length (filter le_settled (js_values ledger))"

fun drop_settled :: "nat \<Rightarrow> request_ledger \<Rightarrow> request_ledger" where
  "drop_settled 0 ledger = ledger"
| "drop_settled (Suc toDelete) [] = []"
| "drop_settled (Suc toDelete) ((requestId, e) # ledger) =
     (if le_settled e then drop_settled toDelete ledger
      else (requestId, e) # drop_settled (Suc toDelete) ledger)"

definition pruneSettledRequestLedger :: "request_ledger \<Rightarrow> request_ledger" where
  "pruneSettledRequestLedger ledger =
     drop_settled (settled_count ledger - REQUEST_LEDGER_COMPLETED_LIMIT) ledger"

text \<open>
  The number of executions started is the number of the next one. \<open>Started\<close> and \<open>Replayed\<close> carry the
  execution whose promise is returned.
\<close>

record ledger_state =
  ls_ledger :: request_ledger
  ls_started :: nat

datatype ledger_answer = Started nat | Replayed nat | ReplayConflicts

definition startIdempotent :: "string \<Rightarrow> string \<Rightarrow> ledger_state \<Rightarrow> ledger_answer \<times> ledger_state" where
  "startIdempotent requestId fingerprint s =
     (case js_get (ls_ledger s) requestId of
        Some existing \<Rightarrow>
          if le_fingerprint existing \<noteq> fingerprint then (ReplayConflicts, s)
          else (Replayed (le_execution existing), s)
      | None \<Rightarrow>
          let n = ls_started s;
              e = \<lparr>le_fingerprint = fingerprint, le_execution = n, le_settled = False\<rparr>
          in (Started n,
              \<lparr>ls_ledger = pruneSettledRequestLedger (js_set (ls_ledger s) requestId e),
               ls_started = Suc n\<rparr>))"

text \<open>The callback of the promise of execution \<open>n\<close>, whether it was fulfilled or rejected.\<close>

definition settle_execution :: "nat \<Rightarrow> ledger_state \<Rightarrow> ledger_state" where
  "settle_execution n s =
     s\<lparr>ls_ledger := pruneSettledRequestLedger
         (map (\<lambda>(k, e). (k, if le_execution e = n then e\<lparr>le_settled := True\<rparr> else e)) (ls_ledger s))\<rparr>"

datatype ledger_event = StartRequest string string | ExecutionSettled nat

fun ledger_step :: "ledger_state \<Rightarrow> ledger_event \<Rightarrow> ledger_state" where
  "ledger_step s (StartRequest r f) = snd (startIdempotent r f s)"
| "ledger_step s (ExecutionSettled n) = settle_execution n s"

subsection \<open>Pruning\<close>

lemma drop_settled_filter:
  "filter (\<lambda>(k, e). \<not> le_settled e) (drop_settled n m) = filter (\<lambda>(k, e). \<not> le_settled e) m"
  by (induction n m rule: drop_settled.induct) auto

lemma set_drop_settled: "set (drop_settled n m) \<subseteq> set m"
  by (induction n m rule: drop_settled.induct) auto

lemma drop_settled_keys:
  "distinct (js_keys m) \<Longrightarrow> distinct (js_keys (drop_settled n m))"
proof (induction n m rule: drop_settled.induct)
  case (3 n k e m)
  then show ?case using set_drop_settled [of "Suc n" m] by auto
qed auto

lemma settled_count_Cons:
  "settled_count ((k, e) # m) = (if le_settled e then Suc (settled_count m) else settled_count m)"
  by (simp add: settled_count_def)

lemma settled_count_drop: "settled_count (drop_settled n m) = settled_count m - n"
  by (induction n m rule: drop_settled.induct) (auto simp: settled_count_Cons, auto simp: settled_count_def)

lemma settled_count_prune:
  "settled_count (pruneSettledRequestLedger m) = min (settled_count m) REQUEST_LEDGER_COMPLETED_LIMIT"
  by (simp add: pruneSettledRequestLedger_def settled_count_drop min_def)

lemma settled_count_append: "settled_count (xs @ ys) = settled_count xs + settled_count ys"
  by (simp add: settled_count_def)

lemma settled_count_le: "settled_count m \<le> length m"
  unfolding settled_count_def by (metis length_filter_le length_map)

lemma drop_settled_append:
  "n \<le> settled_count xs \<Longrightarrow> drop_settled n (xs @ ys) = drop_settled n xs @ ys"
  by (induction n xs rule: drop_settled.induct) (auto simp: settled_count_def split: if_splits)

text \<open>What is among the last 4096 entries is not pruned.\<close>

lemma prune_keeps_recent:
  assumes "length ys \<le> REQUEST_LEDGER_COMPLETED_LIMIT"
  shows "\<exists>xs'. pruneSettledRequestLedger (xs @ ys) = xs' @ ys \<and> set xs' \<subseteq> set xs"
proof -
  let ?n = "settled_count (xs @ ys) - REQUEST_LEDGER_COMPLETED_LIMIT"
  have "?n \<le> settled_count xs"
    using settled_count_le [of ys] assms by (simp add: settled_count_append)
  then show ?thesis
    using set_drop_settled [of ?n xs]
    by (auto simp: pruneSettledRequestLedger_def drop_settled_append)
qed

subsection \<open>The ledger as a machine\<close>

definition ledger_inv :: "ledger_state \<Rightarrow> bool" where
  "ledger_inv s \<longleftrightarrow> distinct (js_keys (ls_ledger s)) \<and>
     distinct (map le_execution (js_values (ls_ledger s))) \<and>
     (\<forall>e \<in> set (js_values (ls_ledger s)). le_execution e < ls_started s) \<and>
     settled_count (ls_ledger s) \<le> REQUEST_LEDGER_COMPLETED_LIMIT"

lemma drop_settled_executions:
  "distinct (map le_execution (js_values m)) \<Longrightarrow>
   distinct (map le_execution (js_values (drop_settled n m)))"
proof (induction n m rule: drop_settled.induct)
  case (3 n k e m)
  then show ?case using set_drop_settled [of "Suc n" m] by force
qed auto

lemma prune_inv:
  assumes "distinct (js_keys m)" and "distinct (map le_execution (js_values m))"
    and "\<forall>e \<in> set (js_values m). le_execution e < n"
  shows "ledger_inv \<lparr>ls_ledger = pruneSettledRequestLedger m, ls_started = n\<rparr>"
  unfolding ledger_inv_def ledger_state.select_convs
proof (intro conjI)
  show "distinct (js_keys (pruneSettledRequestLedger m))"
    using assms(1) unfolding pruneSettledRequestLedger_def by (rule drop_settled_keys)
  show "distinct (map le_execution (js_values (pruneSettledRequestLedger m)))"
    using assms(2) unfolding pruneSettledRequestLedger_def by (rule drop_settled_executions)
  show "\<forall>e \<in> set (js_values (pruneSettledRequestLedger m)). le_execution e < n"
    using assms(3) set_drop_settled [of "settled_count m - REQUEST_LEDGER_COMPLETED_LIMIT" m]
    unfolding pruneSettledRequestLedger_def by auto
  show "settled_count (pruneSettledRequestLedger m) \<le> REQUEST_LEDGER_COMPLETED_LIMIT"
    by (simp add: settled_count_prune)
qed

lemma start_inv: "ledger_inv s \<Longrightarrow> ledger_inv (snd (startIdempotent r f s))"
proof (cases "js_get (ls_ledger s) r")
  case None
  assume inv: "ledger_inv s"
  let ?e = "\<lparr>le_fingerprint = f, le_execution = ls_started s, le_settled = False\<rparr>"
  have new: "r \<notin> set (js_keys (ls_ledger s))" using None by (simp add: js_get_None_iff)
  have "ledger_inv \<lparr>ls_ledger = pruneSettledRequestLedger (js_set (ls_ledger s) r ?e),
      ls_started = Suc (ls_started s)\<rparr>"
    using inv new by (intro prune_inv) (auto simp: ledger_inv_def js_set_new less_Suc_eq)
  then show ?thesis using None by (simp add: startIdempotent_def Let_def)
qed (auto simp: startIdempotent_def)

lemma settled_entry_inv: "ledger_inv s \<Longrightarrow> ledger_inv (settle_execution n s)"
proof -
  assume inv: "ledger_inv s"
  let ?f = "\<lambda>(k, e). (k, if le_execution e = n then e\<lparr>le_settled := True\<rparr> else e)"
  have keys: "js_keys (map ?f m) = js_keys m" for m by (induction m) auto
  have execs: "map le_execution (js_values (map ?f m)) = map le_execution (js_values m)" for m
    by (induction m) auto
  have bound: "\<forall>e \<in> set (js_values (map ?f (ls_ledger s))). le_execution e < ls_started s"
    using inv by (auto simp: ledger_inv_def)
  have "ledger_inv \<lparr>ls_ledger = pruneSettledRequestLedger (map ?f (ls_ledger s)), ls_started = ls_started s\<rparr>"
    by (rule prune_inv [OF _ _ bound]) (use inv in \<open>simp_all only: keys execs ledger_inv_def\<close>)
  then show ?thesis by (cases s) (simp add: settle_execution_def)
qed

interpretation ledger: monotone_machine ledger_step ledger_inv ls_started
proof
  fix s e
  assume inv: "ledger_inv s"
  show "ledger_inv (ledger_step s e)" using inv by (cases e) (simp_all add: start_inv settled_entry_inv)
  show "ls_started s \<le> ls_started (ledger_step s e)"
    by (cases e) (auto simp: startIdempotent_def settle_execution_def Let_def split: option.splits)
qed

subsection \<open>Replays\<close>

text \<open>Request \<open>r\<close> has its entry, with at most \<open>m\<close> entries after it.\<close>

definition recent :: "string \<Rightarrow> string \<Rightarrow> nat \<Rightarrow> nat \<Rightarrow> ledger_state \<Rightarrow> bool" where
  "recent r f n m s \<longleftrightarrow> distinct (js_keys (ls_ledger s)) \<and>
     (\<exists>xs e ys. ls_ledger s = xs @ (r, e) # ys \<and> le_fingerprint e = f \<and> le_execution e = n \<and>
        length ys \<le> m)"

lemma recent_mono: "recent r f n m s \<Longrightarrow> m \<le> m' \<Longrightarrow> recent r f n m' s"
  unfolding recent_def using le_trans by blast

lemma recent_get: "recent r f n m s \<Longrightarrow>
    \<exists>e. js_get (ls_ledger s) r = Some e \<and> le_fingerprint e = f \<and> le_execution e = n"
  by (auto simp: recent_def map_add_def split: option.splits)

lemma prune_recent:
  assumes "distinct (js_keys (xs @ (r, e) # ys))" and "le_fingerprint e = f" and "le_execution e = n"
    and "length ys \<le> m" and "m < REQUEST_LEDGER_COMPLETED_LIMIT"
  shows "recent r f n m \<lparr>ls_ledger = pruneSettledRequestLedger (xs @ (r, e) # ys), ls_started = k\<rparr>"
proof -
  have "length ((r, e) # ys) \<le> REQUEST_LEDGER_COMPLETED_LIMIT" using assms(4,5) by simp
  from prune_keeps_recent [OF this, of xs] obtain xs'
    where "pruneSettledRequestLedger (xs @ (r, e) # ys) = xs' @ (r, e) # ys" by blast
  moreover have "distinct (js_keys (pruneSettledRequestLedger (xs @ (r, e) # ys)))"
    unfolding pruneSettledRequestLedger_def by (rule drop_settled_keys [OF assms(1)])
  ultimately show ?thesis using assms(2-4) by (auto simp: recent_def)
qed

definition starts :: "ledger_event list \<Rightarrow> nat" where
  "starts es = length (filter (\<lambda>e. case e of StartRequest _ _ \<Rightarrow> True | _ \<Rightarrow> False) es)"

lemma ledger_step_recent:
  assumes "recent r f n m s" and "m + starts [e] < REQUEST_LEDGER_COMPLETED_LIMIT"
  shows "recent r f n (m + starts [e]) (ledger_step s e)"
proof -
  obtain xs x ys where split: "ls_ledger s = xs @ (r, x) # ys"
    and x: "le_fingerprint x = f" "le_execution x = n" and len: "length ys \<le> m"
    and dist: "distinct (js_keys (ls_ledger s))"
    using assms(1) by (auto simp: recent_def)
  show ?thesis
  proof (cases e)
    case (StartRequest r' f')
    show ?thesis
    proof (cases "js_get (ls_ledger s) r'")
      case None
      let ?e = "\<lparr>le_fingerprint = f', le_execution = ls_started s, le_settled = False\<rparr>"
      have new: "r' \<notin> set (js_keys (ls_ledger s))" using None by (simp add: js_get_None_iff)
      have "recent r f n (Suc m) \<lparr>ls_ledger = pruneSettledRequestLedger (xs @ (r, x) # (ys @ [(r', ?e)])),
          ls_started = Suc (ls_started s)\<rparr>"
        using dist new split x len assms(2) StartRequest
        by (intro prune_recent) (auto simp: starts_def)
      moreover have "ledger_step s e = \<lparr>ls_ledger = pruneSettledRequestLedger (ls_ledger s @ [(r', ?e)]),
          ls_started = Suc (ls_started s)\<rparr>"
        using None new StartRequest by (simp add: startIdempotent_def Let_def js_set_new)
      ultimately show ?thesis using StartRequest by (simp add: split starts_def)
    next
      case (Some y)
      then have "ledger_step s e = s" using StartRequest by (simp add: startIdempotent_def)
      then show ?thesis using recent_mono [OF assms(1)] by simp
    qed
  next
    case (ExecutionSettled k)
    let ?f = "\<lambda>(k', e). (k', if le_execution e = k then e\<lparr>le_settled := True\<rparr> else e)"
    have keys: "js_keys (map ?f m) = js_keys m" for m by (induction m) auto
    have eq: "map ?f (ls_ledger s) = map ?f xs @ (r, snd (?f (r, x))) # map ?f ys"
      by (simp add: split)
    have "recent r f n m \<lparr>ls_ledger = pruneSettledRequestLedger
        (map ?f xs @ (r, snd (?f (r, x))) # map ?f ys), ls_started = ls_started s\<rparr>"
    proof (rule prune_recent)
      show "distinct (js_keys (map ?f xs @ (r, snd (?f (r, x))) # map ?f ys))"
        unfolding eq [symmetric] keys by (rule dist)
    qed (use x len assms(2) in \<open>auto simp: starts_def\<close>)
    then show ?thesis using ExecutionSettled eq
      by (cases s) (simp add: settle_execution_def starts_def)
  qed
qed

lemma ledger_run_recent:
  "recent r f n m s \<Longrightarrow> m + starts es < REQUEST_LEDGER_COMPLETED_LIMIT \<Longrightarrow>
   recent r f n (m + starts es) (foldl ledger_step s es)"
proof (induction es arbitrary: m s)
  case (Cons e es)
  have "starts (e # es) = starts [e] + starts es" by (simp add: starts_def)
  then show ?case using Cons.IH [OF ledger_step_recent [OF Cons.prems(1)], of e] Cons.prems(2)
    by (simp add: add.assoc)
qed (simp add: starts_def)

text \<open>
  C4. A turn is started once per request: as long as fewer than 4096 further requests have
  come, whatever has settled in between, the same request is answered with the promise of the
  execution it started, and a different request under its identity is refused.
\<close>

theorem request_is_started_once:
  assumes "ledger_inv s" and "startIdempotent r f s = (Started n, s1)" and "starts es < 4096"
  shows "startIdempotent r f' (foldl ledger_step s1 es) =
    ((if f' = f then Replayed n else ReplayConflicts), foldl ledger_step s1 es)"
proof -
  have none: "js_get (ls_ledger s) r = None" and n: "n = ls_started s"
    and s1: "s1 = snd (startIdempotent r f s)"
    using assms(2) by (auto simp: startIdempotent_def Let_def split: option.splits if_splits)
  let ?e = "\<lparr>le_fingerprint = f, le_execution = n, le_settled = False\<rparr>"
  have new: "r \<notin> set (js_keys (ls_ledger s))" using none by (simp add: js_get_None_iff)
  have "recent r f n 0 \<lparr>ls_ledger = pruneSettledRequestLedger (ls_ledger s @ (r, ?e) # []),
      ls_started = Suc n\<rparr>"
    using assms(1) new
    by (intro prune_recent) (auto simp: ledger_inv_def REQUEST_LEDGER_COMPLETED_LIMIT_def)
  then have "recent r f n 0 s1"
    using none new n by (simp add: s1 startIdempotent_def Let_def js_set_new)
  from ledger_run_recent [OF this, of es] assms(3)
  obtain e where "js_get (ls_ledger (foldl ledger_step s1 es)) r = Some e" "le_fingerprint e = f"
    "le_execution e = n"
    using recent_get by (force simp: REQUEST_LEDGER_COMPLETED_LIMIT_def)
  then show ?thesis by (auto simp: startIdempotent_def)
qed

definition empty_ledger :: ledger_state where
  "empty_ledger = \<lparr>ls_ledger = [], ls_started = 0\<rparr>"

lemma empty_ledger_inv: "ledger_inv empty_ledger"
  by (simp add: ledger_inv_def empty_ledger_def settled_count_def)

theorem request_is_started_once_witness:
  "\<exists>s1. startIdempotent ''r'' ''f'' empty_ledger = (Started 0, s1) \<and>
     startIdempotent ''r'' ''g'' (foldl ledger_step s1 [ExecutionSettled 0, StartRequest ''q'' ''f'']) =
       (ReplayConflicts, foldl ledger_step s1 [ExecutionSettled 0, StartRequest ''q'' ''f''])"
proof -
  obtain s1 where start: "startIdempotent ''r'' ''f'' empty_ledger = (Started 0, s1)"
    by (simp add: startIdempotent_def empty_ledger_def)
  have "starts [ExecutionSettled 0, StartRequest ''q'' ''f''] < 4096" by (simp add: starts_def)
  from request_is_started_once [OF empty_ledger_inv start this, of "''g''"] start show ?thesis by simp
qed

text \<open>
  The ledger is bounded and never forgets a turn that is being started: over any run, it
  keeps at most 4096 settled entries, no two for one execution, and it starts each execution
  number only once.
\<close>

lemma ledger_is_bounded:
  "settled_count (ls_ledger (foldl ledger_step empty_ledger es)) \<le> 4096 \<and>
   distinct (map le_execution (js_values (ls_ledger (foldl ledger_step empty_ledger es)))) \<and>
   ls_started (foldl ledger_step empty_ledger es1) \<le> ls_started (foldl ledger_step empty_ledger (es1 @ es)) \<and>
   filter (\<lambda>(k, e). \<not> le_settled e) (pruneSettledRequestLedger m) = filter (\<lambda>(k, e). \<not> le_settled e) m"
proof -
  have "ledger_inv (foldl ledger_step empty_ledger es1)" by (rule ledger.run_inv [OF empty_ledger_inv])
  from ledger.run_level [OF this, of es]
  have "ls_started (foldl ledger_step empty_ledger es1) \<le>
      ls_started (foldl ledger_step empty_ledger (es1 @ es))" by simp
  then show ?thesis
    using ledger.run_inv [OF empty_ledger_inv, of es]
    by (simp add: ledger_inv_def REQUEST_LEDGER_COMPLETED_LIMIT_def pruneSettledRequestLedger_def
        drop_settled_filter)
qed

end
