(* ===== verification/AgentServer.thy ===== *)
theory AgentServer
  imports EventHub CanvasSession AgentConfig Attachments RequestLedger TurnStream
begin

text \<open>
  The HTTP application of the local agent, \<^verbatim>\<open>createLocalAgentHttpApp\<close> of
  \<^verbatim>\<open>canvas-agent/src/http-server.ts\<close>: which requests reach a handler, what the handlers do to the
  event hub, the tool sessions, the ledger, the turns in execution and the attachments, and the
  status and code of the answers. As in the code, the thread service and the attachment manager are
  reached through ports.
\<close>

subsection \<open>Answers\<close>

datatype http_answer = HttpOk nat | HttpRefused nat string

datatype handler_error =
  PayloadTooLarge | ZodFailure | SyntaxFailure | HttpFailure nat string | OtherFailure

definition error_answer :: "handler_error \<Rightarrow> http_answer" where
  "error_answer cause =
     (case cause of
        PayloadTooLarge \<Rightarrow> HttpRefused 413 ''body_too_large''
      | ZodFailure \<Rightarrow> HttpRefused 400 ''invalid_request''
      | SyntaxFailure \<Rightarrow> HttpRefused 400 ''invalid_request''
      | HttpFailure status code \<Rightarrow> HttpRefused status code
      | OtherFailure \<Rightarrow> HttpRefused 500 ''internal_error'')"

subsection \<open>The gate\<close>

datatype route =
  Health | Preflight | InternalTools | EventsRoute | WorkspaceRoute string | ListRoute | CreateRoute
| ReadRoute string | ResumeRoute string | ArchiveRoute string | TurnsRoute | CancelRoute string
| ResultsRoute string | UnknownRoute

text \<open>The query's \<^verbatim>\<open>token\<close>: absent, a string, several, or an object.\<close>

datatype query_value = NoQuery | OneQuery string | ManyQuery "string list" | ObjectQuery

record gate_request =
  rq_origin :: "string option"
  rq_token :: "string option"
  rq_query :: query_value

fun readQueryToken :: "query_value \<Rightarrow> string option" where
  "readQueryToken NoQuery = None"
| "readQueryToken (OneQuery s) = Some s"
| "readQueryToken (ManyQuery xs) = Some (js_join '','' xs)"
| "readQueryToken ObjectQuery = None"

text \<open>
  \<open>None\<close>: the request goes on to the handler of its route. The answer to a preflight, and to
  \<^verbatim>\<open>/health\<close>, is given here.
\<close>

definition known_origin :: "agent_config \<Rightarrow> string \<Rightarrow> bool" where
  "known_origin config r \<longleftrightarrow> r \<noteq> ''null'' \<and> r \<in> set (allowedOrigins config)"

definition health_gate :: "agent_config \<Rightarrow> gate_request \<Rightarrow> http_answer" where
  "health_gate config request =
     (case rq_origin request of
        Some (c # cs) \<Rightarrow>
          if \<not> known_origin config (c # cs) then HttpRefused 403 ''origin_forbidden'' else HttpOk 200
      | _ \<Rightarrow> HttpOk 200)"

definition preflight_gate :: "agent_config \<Rightarrow> gate_request \<Rightarrow> http_answer" where
  "preflight_gate config request =
     (case rq_origin request of
        Some (c # cs) \<Rightarrow>
          if \<not> known_origin config (c # cs) then HttpRefused 403 ''origin_forbidden'' else HttpOk 204
      | _ \<Rightarrow> HttpRefused 403 ''origin_forbidden'')"

definition internal_gate :: "agent_config \<Rightarrow> gate_request \<Rightarrow> http_answer option" where
  "internal_gate config request =
     (case assertInternalRequestSecurity config (rq_token request) (readQueryToken (rq_query request)) of
        Inl _ \<Rightarrow> Some (HttpRefused 403 ''internal_auth_failed'')
      | Inr _ \<Rightarrow> None)"

definition protected_gate :: "agent_config \<Rightarrow> gate_request \<Rightarrow> http_answer option" where
  "protected_gate config request =
     (case assertProtectedRequestSecurity config (rq_origin request) (rq_token request)
             (readQueryToken (rq_query request)) of
        Inl _ \<Rightarrow> Some (HttpRefused 403 ''request_forbidden'')
      | Inr _ \<Rightarrow> None)"

definition gate :: "agent_config \<Rightarrow> route \<Rightarrow> gate_request \<Rightarrow> http_answer option" where
  "gate config route request =
     (case route of
        Health \<Rightarrow> Some (health_gate config request)
      | Preflight \<Rightarrow> Some (preflight_gate config request)
      | InternalTools \<Rightarrow> internal_gate config request
      | _ \<Rightarrow> protected_gate config request)"

lemmas gate_defs = gate_def health_gate_def preflight_gate_def internal_gate_def protected_gate_def

text \<open>
  C33. Under an accepted configuration a request reaches a handler only with the agent's token in
  its header and none in its query; and, but for the route of the MCP process, only from an origin
  of the allow list. Everything else that is answered is \<^verbatim>\<open>/health\<close>, a preflight, or a 403.
\<close>

theorem only_authorised_requests_reach_handlers:
  assumes "parseLocalAgentConfig parse_url v = returns config"
  shows "gate config route request = None \<longleftrightarrow>
    route \<noteq> Health \<and> route \<noteq> Preflight \<and> rq_token request = Some (cfg_token config) \<and>
    readQueryToken (rq_query request) = None \<and>
    (route \<noteq> InternalTools \<longrightarrow>
       (\<exists>r. rq_origin request = Some r \<and> r \<noteq> [] \<and> r \<noteq> ''null'' \<and> r \<in> set (allowedOrigins config)))"
proof -
  have token: "cfg_token config \<noteq> []"
    using parseLocalAgentConfig_Inr(2) [OF assms] by (rule accepted_token_ne)
  have pass: "(case r of Inl _ \<Rightarrow> Some a | Inr _ \<Rightarrow> None) = None \<longleftrightarrow> r = returns ()"
    for r :: "(config_error, unit) result" and a :: http_answer
    by (cases r) auto
  show ?thesis
    by (cases route)
      (auto simp: gate_defs pass internal_request_iff [OF token] protected_request_iff [OF token]
        split: option.splits list.splits)
qed

theorem only_authorised_requests_reach_handlers_witness:
  "gate (sample_config\<lparr>cfg_model := ''m''\<rparr>) CreateRoute
     \<lparr>rq_origin = Some ''https://a.b'', rq_token = Some (replicate 64 (CHR ''a'')), rq_query = NoQuery\<rparr> = None"
  unfolding only_authorised_requests_reach_handlers [OF sample_config_parses]
  by (simp add: sample_config_def)

subsection \<open>Ports and state\<close>

text \<open>
  The attachment port keeps files in a state \<open>'d\<close>, the thread service in \<open>'s\<close>. \<open>pt_resume\<close> is given
  the thread and whether the turn is ephemeral.
\<close>

record 'd attachment_port =
  pt_ingest :: "local_attachment list \<Rightarrow> 'd \<Rightarrow>
    (handler_error, string \<times> resolved_attachment list) result \<times> 'd"
  pt_cleanup :: "string \<Rightarrow> 'd \<Rightarrow> (handler_error, unit) result \<times> 'd"

record 's service_port =
  pt_start :: "turn_input \<Rightarrow> 's \<Rightarrow> (handler_error, string \<times> string) result \<times> 's"
  pt_resume :: "string \<Rightarrow> bool \<Rightarrow> turn_input \<Rightarrow> 's \<Rightarrow> (handler_error, string \<times> string) result \<times> 's"
  pt_cancel :: "string \<Rightarrow> 's \<Rightarrow> bool \<times> 's"
  pt_list :: "string \<Rightarrow> bool \<Rightarrow> 's \<Rightarrow> (handler_error, thread_record list) result"
  pt_read :: "string \<Rightarrow> string \<Rightarrow> 's \<Rightarrow> (handler_error, thread_record) result"
  pt_archive :: "string \<Rightarrow> string \<Rightarrow> 's \<Rightarrow> (handler_error, unit) result \<times> 's"

record execution =
  ex_threadId :: string
  ex_turnId :: string
  ex_directory :: string

text \<open>
  \<open>ag_sessions\<close> are the tool sessions made so far, by number; \<open>ag_current\<close> the one the variable
  \<^verbatim>\<open>canvasSession\<close> refers to. \<open>ag_executions\<close> are the calls of \<^verbatim>\<open>consumeExecution\<close> still running.
\<close>

record ('s, 'd, 'e, 'j) agent =
  ag_service :: 's
  ag_files :: 'd
  ag_hub :: "'e hub"
  ag_sessions :: "(nat, 'j canvas_session) js_map"
  ag_current :: "nat option"
  activeTurnIds :: "string list"
  ag_executions :: "execution list"

definition cancel_all :: "'s service_port \<Rightarrow> string list \<Rightarrow> 's \<Rightarrow> 's" where
  "cancel_all svc turnIds s = foldl (\<lambda>t turnId. snd (pt_cancel svc turnId t)) s turnIds"

subsection \<open>Executions\<close>

definition call_service ::
  "'s service_port \<Rightarrow> start_turn_input \<Rightarrow> resolved_attachment list \<Rightarrow> 's \<Rightarrow>
     (handler_error, string \<times> string) result \<times> 's" where
  "call_service svc input attachments s =
     (let turn = \<lparr>ci_canvasId = sti_canvasId input, ci_message = sti_message input,
                  ci_attachments = attachments\<rparr>
      in case sti_threadId input of
           Some (c # cs) \<Rightarrow> pt_resume svc (c # cs) (sti_ephemeral input) turn s
         | _ \<Rightarrow> pt_start svc turn s)"

definition startExecution ::
  "'d attachment_port \<Rightarrow> 's service_port \<Rightarrow> start_turn_input \<Rightarrow> ('s, 'd, 'e, 'j) agent \<Rightarrow>
     (handler_error, string \<times> string) result \<times> ('s, 'd, 'e, 'j) agent" where
  "startExecution att svc input a =
     (if \<not> connected (ag_hub a) then (throws (HttpFailure 409 ''event_stream_required''), a)
      else
        case pt_ingest att (sti_attachments input) (ag_files a) of
          (Inl e, d) \<Rightarrow> (throws e, a\<lparr>ag_files := d\<rparr>)
        | (Inr (directory, attachments), d) \<Rightarrow>
            let a1 = a\<lparr>ag_files := d\<rparr>
            in case call_service svc input attachments (ag_service a1) of
                 (Inl e, s) \<Rightarrow>
                   let a2 = a1\<lparr>ag_service := s\<rparr>
                   in (case pt_cleanup att directory (ag_files a2) of
                         (Inl e', d') \<Rightarrow> (throws e', a2\<lparr>ag_files := d'\<rparr>)
                       | (Inr _, d') \<Rightarrow> (throws e, a2\<lparr>ag_files := d'\<rparr>))
               | (Inr (threadId, turnId), s) \<Rightarrow>
                   (returns (threadId, turnId),
                    a1\<lparr>ag_service := s, activeTurnIds := js_add (activeTurnIds a1) turnId,
                       ag_executions := ag_executions a1 @
                         [\<lparr>ex_threadId = threadId, ex_turnId = turnId, ex_directory = directory\<rparr>]\<rparr>))"

text \<open>
  The end of \<^verbatim>\<open>consumeExecution\<close>. \<open>failed\<close>: the events could not all be emitted.
\<close>

definition finishExecution ::
  "'d attachment_port \<Rightarrow> 's service_port \<Rightarrow> execution \<Rightarrow> bool \<Rightarrow> ('s, 'd, 'e, 'j) agent \<Rightarrow>
     ('s, 'd, 'e, 'j) agent" where
  "finishExecution att svc x failed a =
     (let s = (if failed then snd (pt_cancel svc (ex_turnId x) (ag_service a)) else ag_service a)
      in a\<lparr>ag_service := s, activeTurnIds := removeAll (ex_turnId x) (activeTurnIds a),
           ag_files := snd (pt_cleanup att (ex_directory x) (ag_files a)),
           ag_executions := remove1 x (ag_executions a)\<rparr>)"

subsection \<open>Tool sessions\<close>

definition close_listener ::
  "'s service_port \<Rightarrow> listener \<Rightarrow> ('s, 'd, 'e, 'j) agent \<Rightarrow> ('s, 'd, 'e, 'j) agent" where
  "close_listener svc n a =
     (let sessions = (case js_get (ag_sessions a) n of
                        None \<Rightarrow> ag_sessions a
                      | Some session \<Rightarrow>
                          js_set (ag_sessions a) n (snd (session_disconnect ''browser stream closed'' session)))
      in a\<lparr>ag_sessions := sessions,
           ag_current := (if ag_current a = Some n then None else ag_current a),
           ag_service := cancel_all svc (activeTurnIds a) (ag_service a)\<rparr>)"

text \<open>An operation of the hub, and the listeners it called.\<close>

definition with_hub ::
  "'s service_port \<Rightarrow> 'e hub \<Rightarrow> ('s, 'd, 'e, 'j) agent \<Rightarrow> ('s, 'd, 'e, 'j) agent" where
  "with_hub svc h a =
     foldl (\<lambda>b n. close_listener svc n b) (a\<lparr>ag_hub := h\<rparr>)
       (notified (drop (length (effects (ag_hub a))) (effects h)))"

text \<open>
  \<^verbatim>\<open>GET /events\<close>. The listener of a connection is known by the number of its session.
\<close>

definition open_events ::
  "'s service_port \<Rightarrow> conn \<Rightarrow> bool \<Rightarrow> ('s, 'd, 'e, 'j) agent \<Rightarrow>
     http_answer \<times> ('s, 'd, 'e, 'j) agent" where
  "open_events svc c accepted a =
     (if connected (ag_hub a) then (HttpRefused 409 ''event_stream_conflict'', a)
      else
        let n = length (ag_sessions a);
            session = \<lparr>pending = [], completed = [], disconnectReason = None, settled = [],
                       emitted = []\<rparr>;
            a1 = a\<lparr>ag_sessions := ag_sessions a @ [(n, session)], ag_current := Some n\<rparr>
        in case hub_connect c n accepted (ag_hub a1) of
             (Inl _, h) \<Rightarrow> (error_answer OtherFailure, a1\<lparr>ag_hub := h, ag_current := None\<rparr>)
           | (Inr _, h) \<Rightarrow> (HttpOk 200, with_hub svc h a1))"

definition close_connection ::
  "'s service_port \<Rightarrow> close_handle \<Rightarrow> ('s, 'd, 'e, 'j) agent \<Rightarrow> ('s, 'd, 'e, 'j) agent" where
  "close_connection svc k a = with_hub svc (hub_close k (ag_hub a)) a"

definition session_failure :: "session_error \<Rightarrow> handler_error" where
  "session_failure e = (case e of InvalidToolResult \<Rightarrow> ZodFailure | _ \<Rightarrow> OtherFailure)"

text \<open>\<^verbatim>\<open>POST /tools/:requestId/results\<close>; the body is the parsed result, if it is one.\<close>

definition take_tool_result ::
  "('j tool_result \<Rightarrow> string) \<Rightarrow> string \<Rightarrow> 'j tool_result option \<Rightarrow> ('s, 'd, 'e, 'j) agent \<Rightarrow>
     http_answer \<times> ('s, 'd, 'e, 'j) agent" where
  "take_tool_result fp requestId body a =
     (case ag_current a of
        None \<Rightarrow> (HttpRefused 409 ''event_stream_unavailable'', a)
      | Some n \<Rightarrow>
          (case body of
             None \<Rightarrow> (error_answer ZodFailure, a)
           | Some r \<Rightarrow>
               if \<not> toolResult_valid r then (error_answer ZodFailure, a)
               else if requestId = [] then (HttpRefused 400 ''missing_path_parameter'', a)
               else if tr_requestId r \<noteq> requestId then (HttpRefused 409 ''request_identity_conflict'', a)
               else
                 (case js_get (ag_sessions a) n of
                    None \<Rightarrow> (error_answer OtherFailure, a)
                  | Some session \<Rightarrow>
                      (case resolveToolResult fp r session of
                         (Inl e, session') \<Rightarrow>
                           (error_answer (session_failure e),
                            a\<lparr>ag_sessions := js_set (ag_sessions a) n session'\<rparr>)
                       | (Inr _, session') \<Rightarrow>
                           (HttpOk 204, a\<lparr>ag_sessions := js_set (ag_sessions a) n session'\<rparr>)))))"

text \<open>\<^verbatim>\<open>POST /internal/mcp/tools\<close>, up to the promise of the session.\<close>

definition request_canvas_tool ::
  "'j tool_request_input option \<Rightarrow> string \<Rightarrow> string option \<Rightarrow> ('s, 'd, 'e, 'j) agent \<Rightarrow>
     http_answer \<times> ('s, 'd, 'e, 'j) agent" where
  "request_canvas_tool body now emission a =
     (case ag_current a of
        None \<Rightarrow> (HttpRefused 503 ''event_stream_unavailable'', a)
      | Some n \<Rightarrow>
          (case body of
             None \<Rightarrow> (HttpRefused 400 ''invalid_request'', a)
           | Some q \<Rightarrow>
               if \<not> canvasToolRequest_valid q then (HttpRefused 400 ''invalid_request'', a)
               else
                 (case js_get (ag_sessions a) n of
                    None \<Rightarrow> (HttpRefused 500 ''internal_error'', a)
                  | Some session \<Rightarrow>
                      (case requestTool
                              \<lparr>rq_requestId = ti_requestId q, rq_threadId = ti_threadId q,
                               rq_turnId = ti_turnId q, rq_toolName = ti_toolName q,
                               rq_arguments = ti_arguments q,
                               rq_expectedDelivery = ti_expectedDelivery q, rq_aborted = Some False\<rparr>
                              now emission session of
                         (Inl _, session') \<Rightarrow>
                           (HttpRefused 500 ''internal_error'',
                            a\<lparr>ag_sessions := js_set (ag_sessions a) n session'\<rparr>)
                       | (Inr _, session') \<Rightarrow>
                           (HttpOk 200, a\<lparr>ag_sessions := js_set (ag_sessions a) n session'\<rparr>)))))"

text \<open>What the routes that start a turn make of the request.\<close>

definition truthy :: "string option \<Rightarrow> bool" where
  "truthy v \<longleftrightarrow> v \<noteq> None \<and> v \<noteq> Some []"

definition admit_create :: "start_turn_input \<Rightarrow> (handler_error, start_turn_input) result" where
  "admit_create input =
     (if truthy (sti_threadId input) \<or> sti_ephemeral input
      then throws (HttpFailure 400 ''unexpected_thread_identity'') else returns input)"

definition admit_turn :: "start_turn_input \<Rightarrow> (handler_error, start_turn_input) result" where
  "admit_turn input =
     (if truthy (sti_threadId input) then throws (HttpFailure 400 ''unexpected_thread_id'')
      else returns input)"

definition admit_resume :: "string \<Rightarrow> start_turn_input \<Rightarrow> (handler_error, start_turn_input) result" where
  "admit_resume threadId input =
     (if threadId = [] then throws (HttpFailure 400 ''missing_path_parameter'')
      else if truthy (sti_threadId input) \<and> sti_threadId input \<noteq> Some threadId
      then throws (HttpFailure 409 ''thread_identity_conflict'')
      else returns (input\<lparr>sti_threadId := Some threadId\<rparr>))"

definition admit_start ::
  "route \<Rightarrow> start_turn_input option \<Rightarrow> (handler_error, start_turn_input) result" where
  "admit_start route body =
     (case body of
        None \<Rightarrow> throws ZodFailure
      | Some input \<Rightarrow>
          if \<not> startCodexTurnInput_valid input then throws ZodFailure
          else
            case route of
              CreateRoute \<Rightarrow> admit_create input
            | TurnsRoute \<Rightarrow> admit_turn input
            | ResumeRoute threadId \<Rightarrow> admit_resume threadId input
            | _ \<Rightarrow> throws (HttpFailure 404 ''not_found''))"

text \<open>
  The answer \<open>Inr (n, Some input)\<close> starts execution \<open>n\<close>, \<open>Inr (n, None)\<close> waits for it. \<open>stringify\<close> is
  \<^verbatim>\<open>JSON.stringify\<close>.
\<close>

definition handle_start ::
  "(start_turn_input \<Rightarrow> string) \<Rightarrow> route \<Rightarrow> start_turn_input option \<Rightarrow> ledger_state \<Rightarrow>
     (handler_error, nat \<times> start_turn_input option) result \<times> ledger_state" where
  "handle_start stringify route body l =
     (case admit_start route body of
        Inl e \<Rightarrow> (throws e, l)
      | Inr input \<Rightarrow>
          (case startIdempotent (sti_requestId input) (stringify input) l of
             (ReplayConflicts, l1) \<Rightarrow> (throws (HttpFailure 409 ''request_replay_conflict''), l1)
           | (Started n, l1) \<Rightarrow> (returns (n, Some input), l1)
           | (Replayed n, l1) \<Rightarrow> (returns (n, None), l1)))"

definition handle_cancel ::
  "'s service_port \<Rightarrow> string \<Rightarrow> ('s, 'd, 'e, 'j) agent \<Rightarrow> http_answer \<times> ('s, 'd, 'e, 'j) agent" where
  "handle_cancel svc turnId a =
     (if turnId = [] then (HttpRefused 400 ''missing_path_parameter'', a)
      else
        case pt_cancel svc turnId (ag_service a) of
          (cancelled, s) \<Rightarrow>
            ((if cancelled then HttpOk 202 else HttpRefused 404 ''turn_not_active''),
             a\<lparr>ag_service := s\<rparr>))"

text \<open>
  The public form of a thread, without its workspace and its SDK identity.
\<close>

record public_thread =
  pub_threadId :: string
  pub_canvasId :: string
  pub_model :: string
  pub_createdAt :: string
  pub_updatedAt :: string
  pub_archivedAt :: "string option"
  pub_turns :: "turn_record list"

definition toPublicThreadRecord :: "thread_record \<Rightarrow> public_thread" where
  "toPublicThreadRecord r =
     \<lparr>pub_threadId = th_threadId r, pub_canvasId = th_canvasId r, pub_model = th_model r,
      pub_createdAt = th_createdAt r, pub_updatedAt = th_updatedAt r,
      pub_archivedAt = th_archivedAt r, pub_turns = th_turns r\<rparr>"

text \<open>
  The routes of threads and workspaces. Queries and bodies are the parsed objects, if they are objects
  of the schema's keys; \<open>cq_includeArchived\<close> is absent in bodies.
\<close>

record canvas_query =
  cq_canvasId :: string
  cq_includeArchived :: "string option"

definition canvasQuery_valid :: "canvas_query \<Rightarrow> bool" where
  "canvasQuery_valid q \<longleftrightarrow> bounded_text 1 120 (cq_canvasId q) \<and>
     (case cq_includeArchived q of None \<Rightarrow> True | Some v \<Rightarrow> v = ''true'' \<or> v = ''false'')"

definition canvasBody_valid :: "canvas_query \<Rightarrow> bool" where
  "canvasBody_valid q \<longleftrightarrow> bounded_text 1 120 (cq_canvasId q) \<and> cq_includeArchived q = None"

definition parsed :: "(canvas_query \<Rightarrow> bool) \<Rightarrow> canvas_query option \<Rightarrow> (handler_error, canvas_query) result" where
  "parsed valid q = (case q of None \<Rightarrow> throws ZodFailure | Some q \<Rightarrow> if valid q then returns q else throws ZodFailure)"

definition requireParam :: "string \<Rightarrow> (handler_error, string) result" where
  "requireParam v = (if v = [] then throws (HttpFailure 400 ''missing_path_parameter'') else returns v)"

definition handle_workspace :: "agent_config \<Rightarrow> string \<Rightarrow> http_answer" where
  "handle_workspace config canvasId =
     (if \<not> js_has (canvases config) canvasId then HttpRefused 404 ''workspace_not_configured'' else HttpOk 200)"

definition handle_list ::
  "'s service_port \<Rightarrow> canvas_query option \<Rightarrow> 's \<Rightarrow> (handler_error, public_thread list) result" where
  "handle_list svc query s =
     and_then (parsed canvasQuery_valid query) (\<lambda>q.
       and_then (pt_list svc (cq_canvasId q) (cq_includeArchived q = Some ''true'') s)
         (\<lambda>records. returns (map toPublicThreadRecord records)))"

definition handle_read ::
  "'s service_port \<Rightarrow> string \<Rightarrow> canvas_query option \<Rightarrow> 's \<Rightarrow> (handler_error, public_thread) result" where
  "handle_read svc threadId query s =
     and_then (parsed canvasQuery_valid query) (\<lambda>q.
       and_then (requireParam threadId) (\<lambda>t.
         and_then (pt_read svc (cq_canvasId q) t s) (\<lambda>record. returns (toPublicThreadRecord record))))"

definition handle_archive ::
  "'s service_port \<Rightarrow> string \<Rightarrow> canvas_query option \<Rightarrow> 's \<Rightarrow> (handler_error, unit) result \<times> 's" where
  "handle_archive svc threadId body s =
     (case and_then (parsed canvasBody_valid body) (\<lambda>q. and_then (requireParam threadId) (\<lambda>t. returns (q, t))) of
        Inl e \<Rightarrow> (throws e, s)
      | Inr (q, t) \<Rightarrow> pt_archive svc (cq_canvasId q) t s)"

text \<open>The limit of bodies the application is made with.\<close>

definition LOCAL_AGENT_BODY_LIMIT_BYTES :: int where
  "LOCAL_AGENT_BODY_LIMIT_BYTES = 30 * 1024 * 1024"

definition body_limit :: "int option \<Rightarrow> int option" where
  "body_limit bodyLimitBytes =
     (let limit = (case bodyLimitBytes of None \<Rightarrow> LOCAL_AGENT_BODY_LIMIT_BYTES | Some n \<Rightarrow> n)
      in if \<not> safe_integer limit \<or> limit < 1 \<or> limit > LOCAL_AGENT_BODY_LIMIT_BYTES then None
         else Some limit)"

subsection \<open>The attachments of executions\<close>

text \<open>The contract of the attachment port: \<open>dirs\<close> are the directories it manages.\<close>

locale attachment_store =
  fixes att :: "'d attachment_port"
    and dirs :: "'d \<Rightarrow> string list"
    and disk_inv :: "'d \<Rightarrow> bool"
  assumes ingest_ok: "\<lbrakk>disk_inv d; pt_ingest att as d = (returns (directory, res), d')\<rbrakk> \<Longrightarrow>
      disk_inv d' \<and> dirs d' = dirs d @ [directory] \<and> directory \<notin> set (dirs d)"
    and ingest_fails: "\<lbrakk>disk_inv d; pt_ingest att as d = (throws e, d')\<rbrakk> \<Longrightarrow>
      disk_inv d' \<and> dirs d' = dirs d"
    and cleanup_ok: "\<lbrakk>disk_inv d; directory \<in> set (dirs d)\<rbrakk> \<Longrightarrow>
      fst (pt_cleanup att directory d) = returns () \<and> disk_inv (snd (pt_cleanup att directory d)) \<and>
      dirs (snd (pt_cleanup att directory d)) = removeAll directory (dirs d)"
begin

definition agent_inv :: "('s, 'd, 'e, 'j) agent \<Rightarrow> bool" where
  "agent_inv a \<longleftrightarrow> disk_inv (ag_files a) \<and> distinct (map ex_directory (ag_executions a)) \<and>
     dirs (ag_files a) = map ex_directory (ag_executions a)"

lemma startExecution_inv:
  assumes "agent_inv a"
  shows "agent_inv (snd (startExecution att svc input a))"
proof (cases "connected (ag_hub a)")
  case True
  note inv = assms [unfolded agent_inv_def]
  obtain r d where ingest: "pt_ingest att (sti_attachments input) (ag_files a) = (r, d)" by fastforce
  show ?thesis
  proof (cases r)
    case (Inl e)
    then show ?thesis using True ingest inv ingest_fails [of "ag_files a" _ e d]
      by (simp add: startExecution_def agent_inv_def)
  next
    case (Inr x)
    obtain directory attachments where x: "x = (directory, attachments)" by (cases x)
    have d: "disk_inv d" "dirs d = dirs (ag_files a) @ [directory]" "directory \<notin> set (dirs (ag_files a))"
      using ingest_ok ingest inv Inr x by blast+
    have clean: "pt_cleanup att directory d = (returns (), snd (pt_cleanup att directory d)) \<and>
        disk_inv (snd (pt_cleanup att directory d)) \<and> dirs (snd (pt_cleanup att directory d)) = dirs (ag_files a)"
      using cleanup_ok [OF d(1), of directory] d(2,3) by (cases "pt_cleanup att directory d") simp
    obtain q s where call: "call_service svc input attachments (ag_service a) = (q, s)" by fastforce
    show ?thesis
    proof (cases q)
      case (Inl e)
      then have "snd (startExecution att svc input a) =
          a\<lparr>ag_files := snd (pt_cleanup att directory d), ag_service := s\<rparr>"
        using True ingest \<open>r = Inr x\<close> x call clean
        by (auto simp: startExecution_def Let_def split: prod.splits)
      then show ?thesis using clean inv by (simp add: agent_inv_def)
    next
      case (Inr y)
      obtain threadId turnId where y: "y = (threadId, turnId)" by (cases y)
      have "snd (startExecution att svc input a) =
          a\<lparr>ag_files := d, ag_service := s, activeTurnIds := js_add (activeTurnIds a) turnId,
            ag_executions := ag_executions a @
              [\<lparr>ex_threadId = threadId, ex_turnId = turnId, ex_directory = directory\<rparr>]\<rparr>"
        using True ingest \<open>r = Inr x\<close> x call Inr y by (simp add: startExecution_def Let_def)
      then show ?thesis using d inv by (simp add: agent_inv_def)
    qed
  qed
qed (use assms in \<open>simp add: startExecution_def\<close>)

lemma finishExecution_files:
    "ag_files (finishExecution att svc x failed a) = snd (pt_cleanup att (ex_directory x) (ag_files a))"
  and finishExecution_executions:
    "ag_executions (finishExecution att svc x failed a) = remove1 x (ag_executions a)"
  by (simp_all add: finishExecution_def Let_def)

lemma map_remove1: "distinct (map f xs) \<Longrightarrow> x \<in> set xs \<Longrightarrow> map f (remove1 x xs) = removeAll (f x) (map f xs)"
proof (induction xs)
  case (Cons y ys)
  have "removeAll (f y) (map f ys) = map f ys" if "f y \<notin> f ` set ys" using that by simp
  with Cons show ?case by (cases "x = y") (auto simp: image_iff)
qed simp

lemma finishExecution_inv:
  assumes "agent_inv a" and "x \<in> set (ag_executions a)"
  shows "agent_inv (finishExecution att svc x failed a)"
proof -
  note inv = assms(1) [unfolded agent_inv_def]
  have "ex_directory x \<in> set (dirs (ag_files a))" using inv assms(2) by simp
  with inv have "disk_inv (snd (pt_cleanup att (ex_directory x) (ag_files a)))"
    "dirs (snd (pt_cleanup att (ex_directory x) (ag_files a))) =
      removeAll (ex_directory x) (dirs (ag_files a))" using cleanup_ok by blast+
  then show ?thesis using inv assms(2)
    using map_remove1 [of ex_directory "ag_executions a" x] distinct_removeAll
    by (metis (no_types, lifting) finishExecution_files finishExecution_executions agent_inv_def)
qed

end

text \<open>The attachment manager as a port; \<open>mkdtemp\<close> chooses the suffix of a new directory.\<close>

definition attachment_manager_port ::
  "url_parser \<Rightarrow> (string \<Rightarrow> string \<Rightarrow> string option) \<Rightarrow> (nat \<Rightarrow> network) \<Rightarrow> string list \<Rightarrow>
     (nat \<Rightarrow> string) \<Rightarrow> (string \<Rightarrow> bool) \<Rightarrow> string \<Rightarrow> (attachment_disk \<Rightarrow> string) \<Rightarrow>
     attachment_disk attachment_port" where
  "attachment_manager_port parse_url resolve_url net origins uuids writes managed mkdtemp =
     \<lparr>pt_ingest = (\<lambda>as d.
        case ingest_attachments parse_url resolve_url net origins uuids writes managed (mkdtemp d) as d of
          (Inl e, d') \<Rightarrow> (throws OtherFailure, d')
        | (Inr x, d') \<Rightarrow> (returns x, d')),
      pt_cleanup = (\<lambda>directory d.
        case attachment_cleanup managed directory d of
          (Inl e, d') \<Rightarrow> (throws OtherFailure, d')
        | (Inr x, d') \<Rightarrow> (returns x, d'))\<rparr>"

definition manager_inv :: "string \<Rightarrow> attachment_disk \<Rightarrow> bool" where
  "manager_inv managed d \<longleftrightarrow> distinct (directories d) \<and>
     (\<forall>p \<in> set (directories d). turn_directory managed p) \<and>
     (\<forall>q \<in> set (js_keys (stored d)). \<exists>p \<in> set (directories d). below p q)"

text \<open>What \<^verbatim>\<open>mkdtemp\<close> promises: the directory it makes did not exist.\<close>

locale temporary_directories =
  fixes managed :: string
    and mkdtemp :: "attachment_disk \<Rightarrow> string"
  assumes new_directory: "join_path managed (''turn-'' @ mkdtemp d) \<notin> set (directories d)"
    and plain_name: "CHR ''/'' \<notin> set (mkdtemp d)"
begin

abbreviation fresh_directory :: "attachment_disk \<Rightarrow> string" where
  "fresh_directory d \<equiv> join_path managed (''turn-'' @ mkdtemp d)"

lemma fresh_turn_directory: "turn_directory managed (fresh_directory d)"
  using plain_name by (auto simp: turn_directory_def)

lemma fresh_not_below:
  assumes "manager_inv managed d"
  shows "\<forall>p \<in> set (directories d) \<union> set (js_keys (stored d)). \<not> below (fresh_directory d) p"
proof
  fix p
  assume "p \<in> set (directories d) \<union> set (js_keys (stored d))"
  then show "\<not> below (fresh_directory d) p"
  proof
    assume "p \<in> set (directories d)"
    then show ?thesis
      using assms new_directory [of d] turn_directory_not_below [OF fresh_turn_directory]
      by (metis manager_inv_def)
  next
    assume "p \<in> set (js_keys (stored d))"
    then obtain q where q: "q \<in> set (directories d)" "below q p" "turn_directory managed q"
      using assms by (auto simp: manager_inv_def)
    show ?thesis
    proof
      assume b: "below (fresh_directory d) p"
      have ne: "q \<noteq> fresh_directory d" using q(1) new_directory [of d] by auto
      show False using below_two [OF fresh_turn_directory q(3) b q(2)] ne by simp
    qed
  qed
qed

end

sublocale temporary_directories \<subseteq> manager: attachment_store
  "attachment_manager_port parse_url resolve_url net origins uuids writes managed mkdtemp"
  directories "manager_inv managed"
  for parse_url resolve_url net origins uuids writes
proof
  fix d as directory res d'
  assume inv: "manager_inv managed d" and run:
    "pt_ingest (attachment_manager_port parse_url resolve_url net origins uuids writes managed mkdtemp)
      as d = (returns (directory, res), d')"
  let ?dir = "fresh_directory d"
  let ?d1 = "d\<lparr>directories := directories d @ [?dir]\<rparr>"
  have "ingest_attachments parse_url resolve_url net origins uuids writes managed (mkdtemp d) as d =
      (returns (directory, res), d')"
    using run by (simp add: attachment_manager_port_def split: prod.splits sum.splits)
  then obtain r where dir: "directory = ?dir" and
    loop: "ingest_loop (\<lambda>a k. fst (download parse_url resolve_url (net k) origins a 0)) uuids writes ?dir
      as 0 0 ?d1 = (r, d')"
    by (auto simp: ingest_attachments_def ingest_def Let_def split: if_splits prod.splits sum.splits)
  from ingest_loop_disk [OF loop]
  have dirs: "directories d' = directories d @ [?dir]" and
    files: "\<forall>p \<in> set (js_keys (stored d')). p \<in> set (js_keys (stored d)) \<or> below ?dir p" by auto
  have "\<exists>p \<in> set (directories d @ [?dir]). below p q" if "q \<in> set (js_keys (stored d'))" for q
    using that files inv unfolding manager_inv_def by fastforce
  then have "manager_inv managed d'"
    using inv new_directory [of d] fresh_turn_directory [of d] unfolding manager_inv_def dirs by auto
  then show "manager_inv managed d' \<and> directories d' = directories d @ [directory] \<and>
      directory \<notin> set (directories d)"
    using dirs dir new_directory by simp
next
  fix d as e d'
  assume inv: "manager_inv managed d" and run:
    "pt_ingest (attachment_manager_port parse_url resolve_url net origins uuids writes managed mkdtemp)
      as d = (throws e, d')"
  then obtain e' where
    "ingest_attachments parse_url resolve_url net origins uuids writes managed (mkdtemp d) as d = (throws e', d')"
    by (auto simp: attachment_manager_port_def split: prod.splits sum.splits)
  then have "d' = d" using failed_ingestion fresh_not_below [OF inv] by blast
  then show "manager_inv managed d' \<and> directories d' = directories d" using inv by simp
next
  fix d directory
  assume inv: "manager_inv managed d" and dir: "directory \<in> set (directories d)"
  have t: "turn_directory managed directory" using inv dir by (simp add: manager_inv_def)
  have clean: "attachment_cleanup managed directory d = (returns (), outside directory d)"
    using turn_directory_managed [OF t] by (simp add: attachment_cleanup_def remove_tree_outside)
  have "\<forall>p \<in> set (directories d). below directory p \<longleftrightarrow> p = directory"
    using inv t turn_directory_not_below by (auto simp: manager_inv_def below_def)
  then have dirs: "directories (outside directory d) = removeAll directory (directories d)"
    by (auto simp: outside_def removeAll_filter_not_eq intro!: filter_cong)
  have "manager_inv managed (outside directory d)"
    unfolding manager_inv_def dirs
  proof (intro conjI)
    show "\<forall>q \<in> set (js_keys (stored (outside directory d))).
        \<exists>p \<in> set (removeAll directory (directories d)). below p q"
      using inv by (fastforce simp: outside_def manager_inv_def)
  qed (use inv in \<open>auto simp: manager_inv_def distinct_removeAll\<close>)
  then show "fst (pt_cleanup (attachment_manager_port parse_url resolve_url net origins uuids writes managed
        mkdtemp) directory d) = returns () \<and>
      manager_inv managed (snd (pt_cleanup (attachment_manager_port parse_url resolve_url net origins uuids
        writes managed mkdtemp) directory d)) \<and>
      directories (snd (pt_cleanup (attachment_manager_port parse_url resolve_url net origins uuids writes
        managed mkdtemp) directory d)) = removeAll directory (directories d)"
    using clean dirs by (simp add: attachment_manager_port_def)
qed

text \<open>A choice of names: one longer than every directory there is.\<close>

definition longer_name :: "attachment_disk \<Rightarrow> string" where
  "longer_name d = replicate (sum_list (map length (directories d))) (CHR ''x'')"

interpretation named: temporary_directories managed longer_name for managed
proof
  fix d
  have "length p \<le> sum_list (map length ps)" if "p \<in> set ps" for p :: string and ps
    using that by (simp add: member_le_sum_list)
  then show "join_path managed (''turn-'' @ longer_name d) \<notin> set (directories d)"
    by (fastforce simp: join_path_def longer_name_def)
  show "CHR ''/'' \<notin> set (longer_name d)" by (auto simp: longer_name_def)
qed

subsection \<open>Runs of the server\<close>

datatype agent_event =
  StartTurnEvent start_turn_input
| FinishEvent nat bool
| OpenEvent conn bool
| CloseEvent close_handle
| CancelTurnEvent string

fun agent_step ::
  "'d attachment_port \<Rightarrow> 's service_port \<Rightarrow> ('s, 'd, 'e, 'j) agent \<Rightarrow> agent_event \<Rightarrow>
     ('s, 'd, 'e, 'j) agent" where
  "agent_step att svc a (StartTurnEvent input) = snd (startExecution att svc input a)"
| "agent_step att svc a (FinishEvent i failed) =
     (if i < length (ag_executions a) then finishExecution att svc (ag_executions a ! i) failed a else a)"
| "agent_step att svc a (OpenEvent c accepted) = snd (open_events svc c accepted a)"
| "agent_step att svc a (CloseEvent k) = close_connection svc k a"
| "agent_step att svc a (CancelTurnEvent turnId) = snd (handle_cancel svc turnId a)"

lemma close_listeners_frame:
  "ag_files (foldl (\<lambda>b n. close_listener svc n b) a ns) = ag_files a \<and>
   ag_executions (foldl (\<lambda>b n. close_listener svc n b) a ns) = ag_executions a"
  by (induction ns arbitrary: a) (simp_all add: close_listener_def)

lemma with_hub_frame:
  "ag_files (with_hub svc h a) = ag_files a" "ag_executions (with_hub svc h a) = ag_executions a"
  by (simp_all add: with_hub_def close_listeners_frame)

lemma close_connection_frame:
  "ag_files (close_connection svc k a) = ag_files a"
  "ag_executions (close_connection svc k a) = ag_executions a"
  by (simp_all add: close_connection_def with_hub_frame)

lemma handle_cancel_frame:
  "ag_files (snd (handle_cancel svc turnId a)) = ag_files a"
  "ag_executions (snd (handle_cancel svc turnId a)) = ag_executions a"
  by (simp_all add: handle_cancel_def split: prod.splits)

lemma open_events_frame:
  "ag_files (snd (open_events svc c accepted a)) = ag_files a"
  "ag_executions (snd (open_events svc c accepted a)) = ag_executions a"
  by (simp_all add: open_events_def Let_def with_hub_frame split: prod.splits sum.splits)

context attachment_store
begin

lemma agent_inv_frame:
  "agent_inv a \<Longrightarrow> ag_files b = ag_files a \<Longrightarrow> ag_executions b = ag_executions a \<Longrightarrow> agent_inv b"
  by (simp add: agent_inv_def)

lemma agent_step_inv: "agent_inv a \<Longrightarrow> agent_inv (agent_step att svc a e)"
  by (cases e)
    (auto intro: startExecution_inv finishExecution_inv
      agent_inv_frame [OF _ open_events_frame] agent_inv_frame [OF _ close_connection_frame]
      agent_inv_frame [OF _ handle_cancel_frame])

lemma agent_run_inv: "agent_inv a \<Longrightarrow> agent_inv (foldl (agent_step att svc) a es)"
  by (induction es arbitrary: a) (simp_all add: agent_step_inv)

end

definition new_agent :: "'s \<Rightarrow> ('s, attachment_disk, 'e, 'j) agent" where
  "new_agent s = \<lparr>ag_service = s, ag_files = \<lparr>directories = [], stored = []\<rparr>, ag_hub = new_hub,
     ag_sessions = [], ag_current = None, activeTurnIds = [], ag_executions = []\<rparr>"

context temporary_directories
begin

lemma run_directories:
  assumes "a = foldl (agent_step (attachment_manager_port parse_url resolve_url net origins uuids writes
      managed mkdtemp) svc) (new_agent s) es"
  shows "manager_inv managed (ag_files a) \<and> distinct (map ex_directory (ag_executions a)) \<and>
    directories (ag_files a) = map ex_directory (ag_executions a)"
proof -
  have "manager.agent_inv (new_agent s)"
    by (simp add: manager.agent_inv_def new_agent_def manager_inv_def)
  from manager.agent_run_inv [OF this, of parse_url resolve_url net origins uuids writes svc es]
  show ?thesis by (simp add: assms manager.agent_inv_def)
qed

end


text \<open>A service that starts every turn.\<close>

definition willing_service :: "nat service_port" where
  "willing_service = \<lparr>pt_start = (\<lambda>_ n. (returns (''t'', show_nat n), Suc n)),
     pt_resume = (\<lambda>_ _ _ n. (throws OtherFailure, n)), pt_cancel = (\<lambda>_ n. (False, n)),
     pt_list = (\<lambda>_ _ _. returns []), pt_read = (\<lambda>_ _ _. throws OtherFailure),
     pt_archive = (\<lambda>_ _ n. (throws OtherFailure, n))\<rparr>"

definition sample_start :: start_turn_input where
  "sample_start = \<lparr>sti_requestId = ''r'', sti_canvasId = ''c'', sti_threadId = None, sti_message = ''m'',
     sti_attachments = [sample_local_attachment], sti_ephemeral = False\<rparr>"

abbreviation sample_manager :: "attachment_disk attachment_port" where
  "sample_manager \<equiv> attachment_manager_port sample_parser (\<lambda>_ _. None) sample_net [''https://a.b'']
     sample_names (\<lambda>_. True) ''/a'' longer_name"

definition sample_events :: "agent_event list" where
  "sample_events = [OpenEvent 0 True, StartTurnEvent sample_start, StartTurnEvent sample_start,
     FinishEvent 0 False]"


subsection \<open>The thread service behind the server\<close>

definition service_result :: "(service_error, 'a) result \<Rightarrow> (handler_error, 'a) result" where
  "service_result r = (case r of Inl e \<Rightarrow> throws OtherFailure | Inr x \<Rightarrow> returns x)"

definition service_answer ::
  "(service_error, 'a) result \<times> 's \<Rightarrow> (handler_error, 'a) result \<times> 's" where
  "service_answer r = (case r of (Inl e, s) \<Rightarrow> (throws OtherFailure, s) | (Inr x, s) \<Rightarrow> (returns x, s))"

text \<open>
  The port on \<^verbatim>\<open>CodexThreadService\<close>; fresh identities, the clock and the SDK's answer may depend on
  the state.
\<close>

definition codex_service_port ::
  "service_config \<Rightarrow> 's store_port \<Rightarrow> file_system \<Rightarrow> (nat \<Rightarrow> 's thread_service \<Rightarrow> string) \<Rightarrow>
     ('s thread_service \<Rightarrow> string) \<Rightarrow> ('s thread_service \<Rightarrow> string option) \<Rightarrow>
     's thread_service service_port" where
  "codex_service_port cfg p fs new_id clock started =
     \<lparr>pt_start = (\<lambda>input s. service_answer
        (startTurn cfg p fs (new_id 0 s) (new_id 1 s) (clock s) (clock s) (started s) input s)),
      pt_resume = (\<lambda>threadId ephemeral input s. service_answer
        (resumeTurn cfg p fs threadId (new_id 0 s) (clock s) (clock s) (started s) ephemeral input s)),
      pt_cancel = cancelTurn,
      pt_list = (\<lambda>canvasId includeArchived s. service_result (listThreads cfg p fs canvasId includeArchived s)),
      pt_read = (\<lambda>canvasId threadId s. service_result (readThread p canvasId threadId s)),
      pt_archive = (\<lambda>canvasId threadId s. service_answer (archiveThread p (clock s) canvasId threadId s))\<rparr>"

lemma cancel_all_get:
  "js_get (activeTurns (cancel_all (codex_service_port cfg p fs new_id clock started) us s)) u =
     (if u \<in> set us then map_option (\<lambda>t. t\<lparr>at_aborted := True\<rparr>) (js_get (activeTurns s) u)
      else js_get (activeTurns s) u)"
proof (induction us arbitrary: s)
  case (Cons v us)
  have step: "js_get (activeTurns (snd (cancelTurn v s))) u =
      (if u = v then map_option (\<lambda>t. t\<lparr>at_aborted := True\<rparr>) (js_get (activeTurns s) u)
       else js_get (activeTurns s) u)"
    by (simp add: cancelTurn_def js_get_set split: option.splits)
  have "cancel_all (codex_service_port cfg p fs new_id clock started) (v # us) s =
      cancel_all (codex_service_port cfg p fs new_id clock started) us (snd (cancelTurn v s))"
    by (simp add: cancel_all_def codex_service_port_def)
  then show ?case using Cons.IH [of "snd (cancelTurn v s)"] step
    by (auto simp: option.map_comp comp_def)
qed (simp add: cancel_all_def)

text \<open>
  When the browser's event connection closes, every turn the server is executing is
  cancelled (its abort signal is set), the connection's tool session is disconnected and no longer
  the current one, and a new connection can be made.
\<close>

lemma browser_close_cancels_turns:
  assumes "hub_inv (ag_hub a)" and "connection (ag_hub a) = Some (handle_conn k)"
    and "handle_id k \<notin> set (closed (ag_hub a))"
    and "a' = close_connection (codex_service_port cfg p fs new_id clock started) k a"
  shows "\<not> connected (ag_hub a') \<and>
    (\<forall>u \<in> set (activeTurnIds a). js_get (activeTurns (ag_service a')) u =
       map_option (\<lambda>t. t\<lparr>at_aborted := True\<rparr>) (js_get (activeTurns (ag_service a)) u)) \<and>
    (\<exists>n. disconnectListener (ag_hub a) = Some n \<and> ag_current a' \<noteq> Some n \<and>
       js_get (ag_sessions a') n =
         map_option (\<lambda>s. snd (session_disconnect ''browser stream closed'' s)) (js_get (ag_sessions a) n))"
proof -
  obtain n where n: "disconnectListener (ag_hub a) = Some n"
    using assms(1,2) by (auto simp: hub_inv_def)
  let ?h = "hub_close k (ag_hub a)"
  have h: "connection ?h = None" "effects ?h = effects (ag_hub a) @ [Notified n]"
    using assms(2,3) n by (simp_all add: hub_close_def Let_def)
  have a': "a' = close_listener (codex_service_port cfg p fs new_id clock started) n (a\<lparr>ag_hub := ?h\<rparr>)"
    by (simp add: assms(4) close_connection_def with_hub_def h)
  show ?thesis
    by (auto simp: a' close_listener_def Let_def connected_def h n cancel_all_get js_get_set
        split: option.splits)
qed

definition sample_agent :: "(memory_store thread_service, attachment_disk, nat, nat) agent" where
  "sample_agent = (new_agent busy_service)\<lparr>
     ag_hub := snd (hub_connect 7 0 True new_hub),
     ag_sessions := [(0, \<lparr>pending = [], completed = [], disconnectReason = None, settled = [],
       emitted = []\<rparr>)],
     ag_current := Some 0, activeTurnIds := [''u'']\<rparr>"

theorem browser_close_cancels_turns_witness:
  "js_get (activeTurns (ag_service (close_connection
      (codex_service_port open_config sample_port sample_fs (\<lambda>_ _. ''x'') (\<lambda>_. ''d'') (\<lambda>_. None))
      \<lparr>handle_id = 0, handle_conn = 7\<rparr> sample_agent))) ''u'' =
     Some \<lparr>at_threadId = ''k'', at_aborted = True\<rparr>"
proof -
  have pre: "hub_inv (ag_hub sample_agent)"
      "connection (ag_hub sample_agent) = Some (handle_conn \<lparr>handle_id = 0, handle_conn = 7\<rparr>)"
      "handle_id \<lparr>handle_id = 0, handle_conn = 7\<rparr> \<notin> set (closed (ag_hub sample_agent))"
    by (simp_all add: sample_agent_def connect_inv hub_inv_new, simp_all add: hub_connect_def new_hub_def)
  have "js_get (activeTurns (ag_service sample_agent)) ''u'' = Some \<lparr>at_threadId = ''k'', at_aborted = False\<rparr>"
    and "''u'' \<in> set (activeTurnIds sample_agent)"
    by (simp_all add: sample_agent_def new_agent_def busy_service_def)
  with browser_close_cancels_turns [OF pre refl] show ?thesis by simp
qed

end
