(* ===== verification/LocalBridge.thy ===== *)
theory LocalBridge
  imports AgentConfig
begin

text \<open>
  The bridge in the browser between the local Codex turn and its audit run on the server,
  \<^verbatim>\<open>LocalAgentBridge\<close> of \<^verbatim>\<open>web/src/services/local-agent/local-agent-bridge.ts\<close>. An operation gets, in a
  record \<open>answers\<close>, what the calls it makes were answered; the calls themselves, the views handed on
  and the states reported are the trace \<open>br_trace\<close>. Events and views are handled one at a time by
  the bridge's queue; \<^verbatim>\<open>start\<close> is three stretches, between which \<^verbatim>\<open>dispose\<close> may run. Messages made
  for people are the causes they quote.
\<close>

datatype run_status =
  RunQueued | RunRunning | WaitingInput | WaitingApproval | WaitingTool
| RunSucceeded | RunFailed | RunCancelled

record run_tool_result =
  rt_toolCallId :: string
  rt_actionVersion :: nat
  rt_succeeded :: bool
  rt_errorCode :: "string option"

record run_view =
  vw_runId :: string
  vw_local :: bool \<comment> \<open>\<^verbatim>\<open>run.reasoningHost === "local_codex"\<close>\<close>
  vw_version :: nat
  vw_status :: run_status
  vw_lastToolResult :: "run_tool_result option"
  vw_pendingToolCall :: "string option"
  vw_pendingApproval :: bool
  vw_feedback :: "(string \<times> string) option"
  vw_failureCode :: "string option"
  vw_repairable :: bool

definition isTerminalStatus :: "run_status \<Rightarrow> bool" where
  "isTerminalStatus s \<longleftrightarrow> s = RunSucceeded \<or> s = RunFailed \<or> s = RunCancelled"

datatype bridge_status =
  Idle
| Reasoning string string string
| AwaitingApproval string string string string
| DeliveringResult string string string string
| BridgeFailed string string

record bridge_tool_call =
  lc_requestId :: string
  lc_threadId :: string
  lc_turnId :: string

record active_run =
  ar_threadId :: string
  ar_turnId :: string
  ar_runId :: string
  ar_view :: run_view
  ar_pendingTool :: "bridge_tool_call option"
  ar_finalSubmitted :: bool
  ar_localTerminal :: bool
  ar_repair :: bool \<comment> \<open>whether a repair instruction is set\<close>

datatype bridge_effect =
  LocalTurnCancelled string bool \<comment> \<open>whether the call succeeded\<close>
| ToolResultDelivered string bool bool \<comment> \<open>\<^verbatim>\<open>succeeded\<close> of the result; whether the call succeeded\<close>
| ToolResultReported string
| ViewAdopted run_view
| StateReported bridge_status
| RepairTurnRequested string nat

datatype activation = ActivationPending | ActivationOpen | ActivationRefused

record bridge =
  br_active :: "active_run option"
  br_state :: bridge_status
  br_delivered :: "string list"
  br_reported :: "string list"
  br_activation :: activation
  br_closedTurn :: "(string \<times> string) option"
  br_disposed :: "string option"
  br_trace :: "bridge_effect list"

definition new_bridge :: bridge where
  "new_bridge = \<lparr>br_active = None, br_state = Idle, br_delivered = [], br_reported = [],
     br_activation = ActivationPending, br_closedTurn = None, br_disposed = None, br_trace = []\<rparr>"

text \<open>
  The answers of the calls: an error with code and message, or a value.
\<close>

type_synonym failure = "string \<times> string"

record answers =
  an_cancel :: "failure option"
  an_interrupt :: "(failure, run_view) result"
  an_deliver :: "failure option"
  an_arguments :: "failure option"
  an_sync :: "failure option"
  an_submit :: "(failure, run_view) result"
  an_repair :: "(failure, string \<times> string) result"

subsection \<open>Steps\<close>

definition trace_effect :: "bridge_effect \<Rightarrow> bridge \<Rightarrow> bridge" where
  "trace_effect e b = b\<lparr>br_trace := br_trace b @ [e]\<rparr>"

definition bridge_setState :: "bridge_status \<Rightarrow> bridge \<Rightarrow> bridge" where
  "bridge_setState s b = trace_effect (StateReported s) (b\<lparr>br_state := s\<rparr>)"

definition bridge_fail :: "string \<Rightarrow> string \<Rightarrow> bridge \<Rightarrow> bridge" where
  "bridge_fail code message = bridge_setState (BridgeFailed code message)"

definition reasoning :: "active_run \<Rightarrow> bridge \<Rightarrow> bridge" where
  "reasoning x = bridge_setState (Reasoning (ar_threadId x) (ar_turnId x) (ar_runId x))"

definition settleActivation :: "bool \<Rightarrow> bridge \<Rightarrow> bridge" where
  "settleActivation ok b =
     (if br_activation b \<noteq> ActivationPending then b
      else b\<lparr>br_activation := (if ok then ActivationOpen else ActivationRefused)\<rparr>)"

definition adoptView :: "run_view \<Rightarrow> bridge \<Rightarrow> bridge" where
  "adoptView v = trace_effect (ViewAdopted v)"

definition close_turn :: "active_run \<Rightarrow> bridge \<Rightarrow> bridge" where
  "close_turn x b = b\<lparr>br_closedTurn := Some (ar_threadId x, ar_turnId x), br_active := None\<rparr>"

text \<open>
  An assignment to the run object of a handler. It is the active run, unless the bridge has let
  it go while the handler waited.
\<close>

definition put_active :: "active_run \<Rightarrow> bridge \<Rightarrow> bridge" where
  "put_active x b = (if br_active b = None then b else b\<lparr>br_active := Some x\<rparr>)"

text \<open>
  \<open>bridge_interrupt x\<close> ends the audit run of the active run \<open>x\<close>; it answers \<open>x\<close> with the new view.
\<close>

definition bridge_interrupt ::
  "answers \<Rightarrow> active_run \<Rightarrow> bridge \<Rightarrow> (failure, active_run) result \<times> bridge" where
  "bridge_interrupt an x b =
     (if isTerminalStatus (vw_status (ar_view x)) then (returns x, b)
      else
        case an_interrupt an of
          Inl (code, m) \<Rightarrow> (throws (code, m), bridge_fail ''local_agent_audit_interrupt_failed'' m b)
        | Inr v \<Rightarrow>
            if vw_runId v \<noteq> ar_runId x \<or> \<not> vw_local v \<or> \<not> isTerminalStatus (vw_status v)
            then (throws (''local_agent_bridge_failed'', ''invalid interrupt''),
                  bridge_fail ''local_agent_audit_interrupt_invalid'' ''invalid interrupt'' b)
            else
              let x1 = x\<lparr>ar_view := v\<rparr>
              in (returns x1, adoptView v (put_active x1 b)))"

definition cancel_turn :: "answers \<Rightarrow> string \<Rightarrow> bridge \<Rightarrow> (failure, unit) result \<times> bridge" where
  "cancel_turn an turnId b =
     (case an_cancel an of
        None \<Rightarrow> (returns (), trace_effect (LocalTurnCancelled turnId True) b)
      | Some f \<Rightarrow> (throws f, trace_effect (LocalTurnCancelled turnId False) b))"

definition bridge_disposeActive ::
  "answers \<Rightarrow> active_run \<Rightarrow> string \<Rightarrow> bridge \<Rightarrow> (failure, unit) result \<times> bridge" where
  "bridge_disposeActive an x message b =
     (let (r1, b1) = (if ar_localTerminal x then (returns (), b) else cancel_turn an (ar_turnId x) b);
          (r2, b2) = bridge_interrupt an x b1;
          b3 = close_turn x b2
      in if isl r1 \<or> isl r2
         then (throws (''local_agent_bridge_failed'', message), bridge_fail ''local_agent_dispose_failed'' message b3)
         else (returns (), bridge_fail ''local_agent_disconnected'' message b3))"

definition bridge_dispose :: "answers \<Rightarrow> string \<Rightarrow> bridge \<Rightarrow> (failure, unit) result \<times> bridge" where
  "bridge_dispose an message b =
     (let reason = (case br_disposed b of None \<Rightarrow> message | Some m \<Rightarrow> m);
          b1 = settleActivation False (b\<lparr>br_disposed := Some reason\<rparr>)
      in case br_active b1 of
           None \<Rightarrow> (returns (), bridge_fail ''local_agent_disposed'' reason b1)
         | Some x \<Rightarrow> bridge_disposeActive an x reason b1)"

definition bridge_disconnect :: "answers \<Rightarrow> string \<Rightarrow> bridge \<Rightarrow> (failure, unit) result \<times> bridge" where
  "bridge_disconnect an message b =
     (let finish = (\<lambda>b. (returns (),
            bridge_fail ''local_agent_disconnected'' message
              (settleActivation False (b\<lparr>br_active := None\<rparr>))))
      in case br_active b of
           None \<Rightarrow> finish b
         | Some x \<Rightarrow>
             (case (if ar_localTerminal x then (returns (), b) else cancel_turn an (ar_turnId x) b) of
                (Inl (code, m), b1) \<Rightarrow>
                  (throws (''local_agent_bridge_failed'', m), bridge_fail ''local_agent_cancel_failed'' m b1)
              | (Inr _, b1) \<Rightarrow>
                  let x1 = x\<lparr>ar_localTerminal := True\<rparr>
                  in (case bridge_interrupt an x1 (put_active x1 b1) of
                        (Inl f, b2) \<Rightarrow> (throws f, b2)
                      | (Inr x2, b2) \<Rightarrow> finish (close_turn x2 b2))))"

subsection \<open>Starting\<close>

text \<open>\<^verbatim>\<open>if (this.#disposedReason)\<close>: an empty reason does not count.\<close>

definition disposedReason :: "bridge \<Rightarrow> string option" where
  "disposedReason b = (if br_disposed b = Some [] then None else br_disposed b)"

text \<open>
  \<^verbatim>\<open>start\<close> up to the call of the local client, from its answer to the call of the server, and
  from there to the end.
\<close>

definition start_check :: "bridge \<Rightarrow> (failure, unit) result" where
  "start_check b =
     (case disposedReason b of
        Some m \<Rightarrow> throws (''local_agent_bridge_failed'', m)
      | None \<Rightarrow>
          if br_active b \<noteq> None then throws (''local_agent_bridge_failed'', ''active turn'')
          else returns ())"

definition start_local ::
  "answers \<Rightarrow> (failure, string \<times> string) result \<Rightarrow> bridge \<Rightarrow>
     (failure, string \<times> string) result \<times> bridge" where
  "start_local an local b =
     (case local of
        Inl (code, m) \<Rightarrow> (throws (code, m), bridge_fail code m (settleActivation False b))
      | Inr (threadId, turnId) \<Rightarrow>
          (case disposedReason b of
             None \<Rightarrow> (returns (threadId, turnId), b)
           | Some reason \<Rightarrow>
               let b1 = snd (cancel_turn an turnId b)
               in (throws (''local_agent_bridge_failed'', reason),
                   bridge_fail ''local_agent_disposed'' reason (settleActivation False b1))))"

definition start_run ::
  "answers \<Rightarrow> string \<Rightarrow> string \<Rightarrow> (failure, run_view) result \<Rightarrow> bridge \<Rightarrow>
     (failure, run_view) result \<times> bridge" where
  "start_run an threadId turnId answer b =
     (case answer of
        Inl (code, m) \<Rightarrow>
          let b1 = snd (cancel_turn an turnId b);
              code' = (if an_cancel an = None then code else ''local_agent_bridge_failed'')
          in (throws (code', m), bridge_fail code' m (settleActivation False b1))
      | Inr v \<Rightarrow>
          let x = \<lparr>ar_threadId = threadId, ar_turnId = turnId, ar_runId = vw_runId v, ar_view = v,
                   ar_pendingTool = None, ar_finalSubmitted = False, ar_localTerminal = False,
                   ar_repair = False\<rparr>;
              b1 = b\<lparr>br_active := Some x\<rparr>
          in (case disposedReason b1 of
                Some reason \<Rightarrow>
                  (case bridge_disposeActive an x reason b1 of
                     (Inl f, b2) \<Rightarrow> (throws f, settleActivation False b2)
                   | (Inr _, b2) \<Rightarrow>
                       (throws (''local_agent_bridge_failed'', reason), settleActivation False b2))
              | None \<Rightarrow>
                  (returns v, reasoning x (adoptView v (settleActivation True b1)))))"

subsection \<open>Results of tools\<close>

definition reportToolResult :: "bridge_tool_call \<Rightarrow> bridge \<Rightarrow> bridge" where
  "reportToolResult q b =
     (if lc_requestId q \<in> set (br_reported b) then b
      else trace_effect (ToolResultReported (lc_requestId q))
             (b\<lparr>br_reported := js_add (br_reported b) (lc_requestId q)\<rparr>))"

definition deliverOnce ::
  "answers \<Rightarrow> active_run \<Rightarrow> bridge_tool_call \<Rightarrow> bool \<Rightarrow> bridge \<Rightarrow> (failure, unit) result \<times> bridge" where
  "deliverOnce an x q succeeded b =
     (if lc_requestId q \<in> set (br_delivered b) then (returns (), b)
      else
        let b1 = bridge_setState (DeliveringResult (ar_threadId x) (ar_turnId x) (ar_runId x)
                   (lc_requestId q)) b
        in case an_deliver an of
             None \<Rightarrow>
               (returns (), trace_effect (ToolResultDelivered (lc_requestId q) succeeded True)
                  (b1\<lparr>br_delivered := js_add (br_delivered b1) (lc_requestId q)\<rparr>))
           | Some (code, m) \<Rightarrow>
               (throws (code, m),
                bridge_fail ''local_agent_result_delivery_failed'' m
                  (trace_effect (ToolResultDelivered (lc_requestId q) succeeded False) b1)))"

definition deliverFailure ::
  "answers \<Rightarrow> active_run \<Rightarrow> bridge_tool_call \<Rightarrow> bridge \<Rightarrow> (failure, active_run) result \<times> bridge" where
  "deliverFailure an x q b =
     (case deliverOnce an x q False b of
        (Inl f, b1) \<Rightarrow> (throws f, b1)
      | (Inr _, b1) \<Rightarrow>
          let x1 = x\<lparr>ar_pendingTool := None\<rparr> in (returns x1, put_active x1 b1))"

definition deliverResult ::
  "answers \<Rightarrow> active_run \<Rightarrow> bridge_tool_call \<Rightarrow> run_tool_result \<Rightarrow> bridge \<Rightarrow>
     (failure, unit) result \<times> bridge" where
  "deliverResult an x q r b =
     (case deliverOnce an x q (rt_succeeded r) (reportToolResult q b) of
        (Inl f, b1) \<Rightarrow> (throws f, b1)
      | (Inr _, b1) \<Rightarrow>
          let x1 = x\<lparr>ar_pendingTool := None\<rparr> in (returns (), reasoning x1 (put_active x1 b1)))"

text \<open>A view with no result for the pending tool: it waits, or the run failed, or was refused.\<close>

definition bridge_pending ::
  "answers \<Rightarrow> run_view \<Rightarrow> active_run \<Rightarrow> bridge_tool_call \<Rightarrow> bridge \<Rightarrow> (failure, unit) result \<times> bridge"
where
  "bridge_pending an v x q b =
     (if vw_status v = WaitingApproval \<and> vw_pendingToolCall v = Some (lc_requestId q) \<and> vw_pendingApproval v
      then (returns (), bridge_setState (AwaitingApproval (ar_threadId x) (ar_turnId x) (ar_runId x)
              (lc_requestId q)) b)
      else if vw_status v = WaitingTool \<and> vw_pendingToolCall v = Some (lc_requestId q)
      then (returns (), bridge_setState (DeliveringResult (ar_threadId x) (ar_turnId x) (ar_runId x)
              (lc_requestId q)) b)
      else if vw_feedback v \<noteq> None then
        (case deliverFailure an x q b of
           (Inl f, b1) \<Rightarrow> (throws f, b1)
         | (Inr x1, b1) \<Rightarrow> (returns (), reasoning x1 b1))
      else if vw_status v = RunFailed \<or> vw_status v = RunCancelled then
        (let code = (case vw_failureCode v of
                       Some c \<Rightarrow> c
                     | None \<Rightarrow> if vw_status v = RunFailed then ''agent_run_failed'' else ''agent_run_cancelled'')
         in case deliverFailure an x q b of
              (Inl f, b1) \<Rightarrow> (throws f, b1)
            | (Inr _, b1) \<Rightarrow> (returns (), bridge_fail code ''run ended'' b1))
      else (throws (''local_agent_bridge_failed'', ''no result''), b))"

text \<open>\<^verbatim>\<open>#acceptRuntimeView\<close>\<close>

definition bridge_acceptView :: "answers \<Rightarrow> run_view \<Rightarrow> bridge \<Rightarrow> (failure, unit) result \<times> bridge" where
  "bridge_acceptView an v b =
     (case br_active b of
        None \<Rightarrow> (throws (''local_agent_bridge_failed'', ''foreign view''), b)
      | Some x0 \<Rightarrow>
          if vw_runId v \<noteq> ar_runId x0 \<or> \<not> vw_local v
          then (throws (''local_agent_bridge_failed'', ''foreign view''), b)
          else
            let x = x0\<lparr>ar_view := v\<rparr>;
                b1 = adoptView v (put_active x b)
            in case ar_pendingTool x of
                 None \<Rightarrow> (returns (), b1)
               | Some q \<Rightarrow>
                   (case vw_lastToolResult v of
                      Some r \<Rightarrow>
                        if rt_toolCallId r = lc_requestId q \<and> rt_actionVersion r = 1
                        then deliverResult an x q r b1
                        else bridge_pending an v x q b1
                    | None \<Rightarrow> bridge_pending an v x q b1))"

definition bridge_toolCall ::
  "answers \<Rightarrow> active_run \<Rightarrow> bridge_tool_call \<Rightarrow> bridge \<Rightarrow> (failure, unit) result \<times> bridge" where
  "bridge_toolCall an x q b =
     (let give_up = (case deliverFailure an x q b of
                       (Inl f, b1) \<Rightarrow> (throws f, b1)
                     | (Inr x1, b1) \<Rightarrow> (returns (), reasoning x1 b1))
      in if ar_pendingTool x \<noteq> None then (throws (''local_agent_bridge_failed'', ''tool pending''), b)
         else if an_arguments an \<noteq> None then give_up
         else if an_sync an \<noteq> None then give_up
         else
           let x1 = x\<lparr>ar_pendingTool := Some q\<rparr>;
               b1 = put_active x1 b
           in case an_submit an of
                Inl (code, m) \<Rightarrow>
                  (case deliverFailure an x1 q b1 of
                     (Inl f, b2) \<Rightarrow> (throws f, b2)
                   | (Inr _, b2) \<Rightarrow> (returns (), bridge_fail code m b2))
              | Inr v \<Rightarrow> bridge_acceptView an v b1)"

text \<open>Whether \<^verbatim>\<open>buildDeliveryRepairInstruction\<close> gives an instruction.\<close>

definition repair_needed :: "run_view \<Rightarrow> bool" where
  "repair_needed v \<longleftrightarrow> \<not> isTerminalStatus (vw_status v) \<and> (vw_repairable v \<or> vw_feedback v \<noteq> None)"

definition bridge_finalDecision ::
  "answers \<Rightarrow> active_run \<Rightarrow> bridge \<Rightarrow> (failure, unit) result \<times> bridge" where
  "bridge_finalDecision an x b =
     (if ar_pendingTool x \<noteq> None then (throws (''local_agent_bridge_failed'', ''tool pending''), b)
      else
        case an_submit an of
          Inl f \<Rightarrow> (throws f, b)
        | Inr v \<Rightarrow>
            let x1 = x\<lparr>ar_finalSubmitted := True, ar_view := v\<rparr>;
                b1 = adoptView v (put_active x1 b)
            in if vw_status v = RunSucceeded then (returns (), reasoning x1 b1)
               else if repair_needed v then
                 (let x2 = x1\<lparr>ar_repair := True\<rparr> in (returns (), reasoning x2 (put_active x2 b1)))
               else
                 (returns (), bridge_fail ''agent_delivery_requires_repair''
                    (case vw_feedback v of
                       Some (_, reason) \<Rightarrow> reason
                     | None \<Rightarrow> (case vw_failureCode v of Some c \<Rightarrow> c | None \<Rightarrow> ''not succeeded'')) b1))"

definition run_after :: "(failure, active_run) result \<Rightarrow> active_run \<Rightarrow> active_run" where
  "run_after r x = (case r of Inl _ \<Rightarrow> x | Inr y \<Rightarrow> y)"

text \<open>
  \<^verbatim>\<open>#continueRepair\<close> from the answer of the local client on. The local client is asked for a new
  turn first; \<^verbatim>\<open>dispose\<close> and \<^verbatim>\<open>disconnect\<close>, which do not wait for the queue, may run until it answers.
\<close>

definition repair_answered ::
  "answers \<Rightarrow> active_run \<Rightarrow> (failure, string \<times> string) result \<Rightarrow> bridge \<Rightarrow>
     (failure, unit) result \<times> bridge" where
  "repair_answered an x answer b =
     (let closedTurn = Some (ar_threadId x, ar_turnId x)
      in case answer of
           Inl (code, m) \<Rightarrow>
             (case bridge_interrupt an x b of
                (Inl f, b1) \<Rightarrow> (throws f, b1)
              | (Inr _, b1) \<Rightarrow>
                  (throws (code, m),
                   bridge_fail ''local_agent_repair_resume_failed'' m
                     (b1\<lparr>br_closedTurn := closedTurn, br_active := None\<rparr>)))
         | Inr (threadId, turnId) \<Rightarrow>
             if threadId \<noteq> ar_threadId x then
               (let x1 = x\<lparr>ar_threadId := threadId, ar_turnId := turnId, ar_localTerminal := False\<rparr>;
                    (r1, b1) = cancel_turn an turnId (put_active x1 b);
                    x2 = x1\<lparr>ar_localTerminal := (r1 = returns ())\<rparr>;
                    (r2, b2) = bridge_interrupt an x2 (put_active x2 b1);
                    x3 = run_after r2 x2;
                    b3 = b2\<lparr>br_closedTurn := closedTurn,
                            br_active := (if ar_localTerminal x3 \<and> isTerminalStatus (vw_status (ar_view x3))
                                          then None else br_active b2)\<rparr>
                in (throws (''local_agent_bridge_failed'', ''thread conflict''),
                    bridge_fail ''local_agent_repair_thread_conflict'' ''thread conflict'' b3))
             else
               (let x1 = x\<lparr>ar_turnId := turnId, ar_finalSubmitted := False, ar_localTerminal := False,
                          ar_repair := False\<rparr>
                in (returns (), reasoning x1 (put_active x1 (b\<lparr>br_closedTurn := closedTurn\<rparr>)))))"

definition bridge_continueRepair ::
  "answers \<Rightarrow> active_run \<Rightarrow> bridge \<Rightarrow> (failure, unit) result \<times> bridge" where
  "bridge_continueRepair an x b =
     repair_answered an x (an_repair an)
       (trace_effect (RepairTurnRequested (ar_runId x) (vw_version (ar_view x))) b)"

subsection \<open>Events\<close>

datatype local_event =
  LocalToolCall bridge_tool_call
| LocalFinalDecision string string
| LocalTurnFailed string string string
| LocalTurnCancelledEvent string string
| LocalTurnCompleted string string
| LocalProgress string "string option" \<comment> \<open>the other kinds, with their turn if they name one\<close>

fun local_event_thread :: "local_event \<Rightarrow> string" where
  "local_event_thread (LocalToolCall q) = lc_threadId q"
| "local_event_thread (LocalFinalDecision t u) = t"
| "local_event_thread (LocalTurnFailed t u m) = t"
| "local_event_thread (LocalTurnCancelledEvent t u) = t"
| "local_event_thread (LocalTurnCompleted t u) = t"
| "local_event_thread (LocalProgress t u) = t"

fun local_event_turn :: "local_event \<Rightarrow> string option" where
  "local_event_turn (LocalToolCall q) = Some (lc_turnId q)"
| "local_event_turn (LocalFinalDecision t u) = Some u"
| "local_event_turn (LocalTurnFailed t u m) = Some u"
| "local_event_turn (LocalTurnCancelledEvent t u) = Some u"
| "local_event_turn (LocalTurnCompleted t u) = Some u"
| "local_event_turn (LocalProgress t u) = u"

fun ends_turn :: "local_event \<Rightarrow> bool" where
  "ends_turn (LocalTurnFailed t u m) = True"
| "ends_turn (LocalTurnCancelledEvent t u) = True"
| "ends_turn (LocalTurnCompleted t u) = True"
| "ends_turn _ = False"

definition isLateTerminalEvent :: "local_event \<Rightarrow> bridge \<Rightarrow> bool" where
  "isLateTerminalEvent e b =
     (case br_closedTurn b of
        None \<Rightarrow> False
      | Some (t, u) \<Rightarrow>
          ends_turn e \<and> local_event_thread e = t \<and> local_event_turn e = Some u \<and>
          (case br_active b of
             None \<Rightarrow> True
           | Some x \<Rightarrow> local_event_thread e \<noteq> ar_threadId x \<or> local_event_turn e \<noteq> Some (ar_turnId x)))"

definition is_failed :: "bridge \<Rightarrow> bool" where
  "is_failed b = (case br_state b of BridgeFailed _ _ \<Rightarrow> True | _ \<Rightarrow> False)"

text \<open>
  The end of a turn: the audit run is interrupted, the turn closed, and \<open>report\<close> says what then.
\<close>

definition end_turn ::
  "answers \<Rightarrow> active_run \<Rightarrow> (bridge \<Rightarrow> bridge) \<Rightarrow> bridge \<Rightarrow> (failure, unit) result \<times> bridge" where
  "end_turn an x report b =
     (case bridge_interrupt an x b of
        (Inl f, b1) \<Rightarrow> (throws f, b1)
      | (Inr x1, b1) \<Rightarrow> (returns (), report (close_turn x1 b1)))"

definition bridge_handleEvent ::
  "answers \<Rightarrow> local_event \<Rightarrow> bridge \<Rightarrow> (failure, unit) result \<times> bridge" where
  "bridge_handleEvent an e b =
     (case br_active b of
        None \<Rightarrow> (throws (''local_agent_bridge_failed'', ''no active run''), b)
      | Some x \<Rightarrow>
          if local_event_thread e \<noteq> ar_threadId x \<or>
             (local_event_turn e \<noteq> None \<and> local_event_turn e \<noteq> Some (ar_turnId x))
          then (throws (''local_agent_bridge_failed'', ''foreign event''), b)
          else
            let y = x\<lparr>ar_localTerminal := True\<rparr>; c = put_active y b
            in case e of
                 LocalToolCall q \<Rightarrow> bridge_toolCall an x q b
               | LocalFinalDecision t u \<Rightarrow> bridge_finalDecision an x b
               | LocalTurnFailed t u m \<Rightarrow> end_turn an y (bridge_fail ''local_codex_turn_failed'' m) c
               | LocalTurnCancelledEvent t u \<Rightarrow>
                   end_turn an y
                     (\<lambda>d. if is_failed d then d
                          else bridge_fail ''local_codex_turn_cancelled'' ''cancelled'' d) c
               | LocalTurnCompleted t u \<Rightarrow>
                   if \<not> ar_finalSubmitted y then
                     end_turn an y
                       (bridge_fail ''local_codex_final_decision_missing'' ''no final decision'') c
                   else if ar_repair y then bridge_continueRepair an y c
                   else if \<not> isTerminalStatus (vw_status (ar_view y)) then
                     end_turn an y
                       (\<lambda>d. if is_failed d then d
                            else bridge_fail ''agent_delivery_requires_repair'' ''no repair fact'' d) c
                   else if \<not> is_failed c then (returns (), bridge_setState Idle (close_turn y c))
                   else (returns (), close_turn y c)
               | LocalProgress t u \<Rightarrow> (returns (), b))"

text \<open>An event from the queue: it waits for the activation, and late ends of a closed turn are dropped.\<close>

definition bridge_event ::
  "answers \<Rightarrow> local_event \<Rightarrow> bridge \<Rightarrow> (failure, unit) result \<times> bridge" where
  "bridge_event an e b =
     (if br_activation b \<noteq> ActivationOpen then (throws (''local_agent_bridge_failed'', ''not active''), b)
      else if isLateTerminalEvent e b then (returns (), b)
      else bridge_handleEvent an e b)"

subsection \<open>Invariant\<close>

fun delivered_ids :: "bridge_effect list \<Rightarrow> string list" where
  "delivered_ids [] = []"
| "delivered_ids (ToolResultDelivered r s True # es) = r # delivered_ids es"
| "delivered_ids (_ # es) = delivered_ids es"

fun reported_ids :: "bridge_effect list \<Rightarrow> string list" where
  "reported_ids [] = []"
| "reported_ids (ToolResultReported r # es) = r # reported_ids es"
| "reported_ids (_ # es) = reported_ids es"

fun last_view :: "bridge_effect list \<Rightarrow> run_view option" where
  "last_view [] = None"
| "last_view (ViewAdopted v # es) = (case last_view es of None \<Rightarrow> Some v | Some w \<Rightarrow> Some w)"
| "last_view (_ # es) = last_view es"

lemma delivered_ids_append [simp]: "delivered_ids (xs @ ys) = delivered_ids xs @ delivered_ids ys"
  by (induction xs rule: delivered_ids.induct) auto

lemma reported_ids_append [simp]: "reported_ids (xs @ ys) = reported_ids xs @ reported_ids ys"
  by (induction xs rule: reported_ids.induct) auto

lemma last_view_append [simp]:
  "last_view (xs @ ys) = (case last_view ys of None \<Rightarrow> last_view xs | Some v \<Rightarrow> Some v)"
  by (induction xs rule: last_view.induct) (auto split: option.splits)

definition deliveries_ok :: "bridge \<Rightarrow> bool" where
  "deliveries_ok b \<longleftrightarrow> delivered_ids (br_trace b) = br_delivered b \<and> distinct (br_delivered b) \<and>
     reported_ids (br_trace b) = br_reported b \<and> distinct (br_reported b)"

text \<open>The view of the active run is the one handed on last.\<close>

definition shows_view :: "active_run \<Rightarrow> bridge \<Rightarrow> bool" where
  "shows_view x b \<longleftrightarrow> last_view (br_trace b) = Some (ar_view x)"

definition bridge_inv :: "bridge \<Rightarrow> bool" where
  "bridge_inv b \<longleftrightarrow> deliveries_ok b \<and> (\<forall>x. br_active b = Some x \<longrightarrow> shows_view x b)"

lemmas bridge_steps = bridge_setState_def bridge_fail_def reasoning_def settleActivation_def
  adoptView_def close_turn_def put_active_def trace_effect_def

lemma bridge_frame [simp]:
  "deliveries_ok (bridge_setState s b) = deliveries_ok b"
  "deliveries_ok (bridge_fail c m b) = deliveries_ok b"
  "deliveries_ok (reasoning x b) = deliveries_ok b"
  "deliveries_ok (settleActivation ok b) = deliveries_ok b"
  "deliveries_ok (adoptView v b) = deliveries_ok b"
  "deliveries_ok (close_turn x b) = deliveries_ok b"
  "deliveries_ok (put_active x b) = deliveries_ok b"
  "deliveries_ok (b\<lparr>br_active := a\<rparr>) = deliveries_ok b"
  "deliveries_ok (b\<lparr>br_closedTurn := t\<rparr>) = deliveries_ok b"
  "deliveries_ok (b\<lparr>br_disposed := d\<rparr>) = deliveries_ok b"
  "deliveries_ok (trace_effect (LocalTurnCancelled u ok) b) = deliveries_ok b"
  "deliveries_ok (trace_effect (RepairTurnRequested r n) b) = deliveries_ok b"
  by (auto simp: deliveries_ok_def bridge_steps)

lemma view_frame [simp]:
  "shows_view y (bridge_setState s b) = shows_view y b"
  "shows_view y (bridge_fail c m b) = shows_view y b"
  "shows_view y (reasoning x b) = shows_view y b"
  "shows_view y (settleActivation ok b) = shows_view y b"
  "shows_view y (adoptView v b) \<longleftrightarrow> ar_view y = v"
  "shows_view y (close_turn x b) = shows_view y b"
  "shows_view y (put_active x b) = shows_view y b"
  "shows_view y (b\<lparr>br_active := a\<rparr>) = shows_view y b"
  "shows_view y (b\<lparr>br_closedTurn := t\<rparr>) = shows_view y b"
  "shows_view y (b\<lparr>br_disposed := d\<rparr>) = shows_view y b"
  "shows_view y (trace_effect (LocalTurnCancelled u ok) b) = shows_view y b"
  "shows_view y (trace_effect (RepairTurnRequested r n) b) = shows_view y b"
  "shows_view (x\<lparr>ar_pendingTool := pt\<rparr>) b = shows_view x b"
  "shows_view (x\<lparr>ar_localTerminal := lt\<rparr>) b = shows_view x b"
  "shows_view (x\<lparr>ar_finalSubmitted := fs\<rparr>) b = shows_view x b"
  "shows_view (x\<lparr>ar_repair := rp\<rparr>) b = shows_view x b"
  "shows_view (x\<lparr>ar_turnId := tu\<rparr>) b = shows_view x b"
  "shows_view (x\<lparr>ar_threadId := th\<rparr>) b = shows_view x b"
  by (auto simp: shows_view_def bridge_steps split: option.splits)

lemma active_frame [simp]:
  "br_active (bridge_setState s b) = br_active b"
  "br_active (bridge_fail c m b) = br_active b"
  "br_active (reasoning x b) = br_active b"
  "br_active (settleActivation ok b) = br_active b"
  "br_active (adoptView v b) = br_active b"
  "br_active (close_turn x b) = None"
  "br_active (put_active x b) = (if br_active b = None then None else Some x)"
  "br_active (trace_effect e b) = br_active b"
  by (auto simp: bridge_steps)

lemma disposed_frame [simp]:
  "br_disposed (bridge_setState s b) = br_disposed b"
  "br_disposed (bridge_fail c m b) = br_disposed b"
  "br_disposed (reasoning x b) = br_disposed b"
  "br_disposed (settleActivation ok b) = br_disposed b"
  "br_disposed (adoptView v b) = br_disposed b"
  "br_disposed (close_turn x b) = br_disposed b"
  "br_disposed (put_active x b) = br_disposed b"
  "br_disposed (trace_effect e b) = br_disposed b"
  by (auto simp: bridge_steps)

text \<open>A step that keeps the disposal, the deliveries and the view of the run it leaves active.\<close>

definition step_ok :: "bridge \<Rightarrow> bridge \<Rightarrow> bool" where
  "step_ok b b' \<longleftrightarrow> br_disposed b' = br_disposed b \<and> bridge_inv b'"

lemma interrupt_cases:
  assumes "bridge_interrupt an x b = (r, b')" and "deliveries_ok b" and "shows_view x b"
  shows "deliveries_ok b' \<and> br_disposed b' = br_disposed b \<and>
    (case r of
       Inl f \<Rightarrow> shows_view x b' \<and> br_active b' = br_active b
     | Inr y \<Rightarrow> shows_view y b' \<and> isTerminalStatus (vw_status (ar_view y)) \<and>
         y = x\<lparr>ar_view := ar_view y\<rparr> \<and>
         (br_active b' = (if br_active b = None then None else Some y) \<or> br_active b' = br_active b \<and> y = x))"
  using assms by (auto simp: bridge_interrupt_def Let_def split: if_splits sum.splits prod.splits)

lemma cancel_cases:
  assumes "cancel_turn an u b = (r, b')"
  shows "deliveries_ok b' = deliveries_ok b \<and> shows_view x b' = shows_view x b \<and>
    br_active b' = br_active b \<and> br_disposed b' = br_disposed b"
  using assms by (auto simp: cancel_turn_def split: option.splits)

lemma deliverOnce_cases:
  assumes "deliverOnce an x q ok b = (r, b')" and "deliveries_ok b"
  shows "deliveries_ok b' \<and> shows_view y b' = shows_view y b \<and> br_active b' = br_active b \<and>
    br_disposed b' = br_disposed b"
  using assms
  by (auto simp: deliverOnce_def Let_def deliveries_ok_def shows_view_def js_add_def bridge_steps
      split: if_splits option.splits)

lemma report_cases:
  assumes "deliveries_ok b"
  shows "deliveries_ok (reportToolResult q b)" and "shows_view y (reportToolResult q b) = shows_view y b"
    and "br_active (reportToolResult q b) = br_active b"
    and "br_disposed (reportToolResult q b) = br_disposed b"
  using assms
  by (auto simp: reportToolResult_def deliveries_ok_def shows_view_def js_add_def bridge_steps)

lemma deliverFailure_cases:
  assumes "deliverFailure an x q b = (r, b')" and "deliveries_ok b"
  shows "deliveries_ok b' \<and> (shows_view y b' = shows_view y b) \<and> br_disposed b' = br_disposed b \<and>
    (case r of Inl f \<Rightarrow> br_active b' = br_active b
     | Inr z \<Rightarrow> z = x\<lparr>ar_pendingTool := None\<rparr> \<and> br_active b' = (if br_active b = None then None else Some z))"
proof -
  obtain r1 b1 where once: "deliverOnce an x q False b = (r1, b1)" by fastforce
  show ?thesis
    using deliverOnce_cases [OF once assms(2), of y] assms(1) once
    by (cases r1) (simp_all add: deliverFailure_def Let_def, auto)
qed

lemma bridge_inv_active: "bridge_inv b \<Longrightarrow> br_active b = Some x \<Longrightarrow> deliveries_ok b \<and> shows_view x b"
  by (simp add: bridge_inv_def)

lemma bridge_invI: "deliveries_ok b \<Longrightarrow> (\<And>y. br_active b = Some y \<Longrightarrow> shows_view y b) \<Longrightarrow> bridge_inv b"
  by (simp add: bridge_inv_def)

lemma give_up_ok:
  assumes "(case deliverFailure an x q b of (Inl f, b1) \<Rightarrow> (throws f, b1) | (Inr x1, b1) \<Rightarrow> (returns (), report x1 b1))
      = (r, b')"
    and "deliveries_ok b" and "br_active b = Some x" and "shows_view x b"
    and report: "\<And>z c. deliveries_ok (report z c) = deliveries_ok c" "\<And>y z c. shows_view y (report z c) = shows_view y c"
      "\<And>z c. br_active (report z c) = br_active c" "\<And>z c. br_disposed (report z c) = br_disposed c"
  shows "step_ok b b' \<and> br_active b' \<noteq> None"
proof -
  obtain r1 b1 where d: "deliverFailure an x q b = (r1, b1)" by fastforce
  note c = deliverFailure_cases [OF d assms(2)]
  show ?thesis
  proof (cases r1)
    case (Inl f)
    then show ?thesis using assms(1,3,4) d c [of x] by (auto simp: step_ok_def bridge_inv_def)
  next
    case (Inr z)
    have "shows_view z b1" using Inr c [of x] assms(4) by (auto simp: shows_view_def)
    then show ?thesis using Inr assms(1,3) d c [of x] by (auto simp: step_ok_def bridge_inv_def report)
  qed
qed

lemma deliverResult_ok:
  assumes "deliverResult an x q t b = (r, b')" and "deliveries_ok b" and "br_active b = Some x"
    and "shows_view x b"
  shows "step_ok b b' \<and> br_active b' \<noteq> None"
proof -
  obtain r1 b1 where d: "deliverOnce an x q (rt_succeeded t) (reportToolResult q b) = (r1, b1)" by fastforce
  note rep = report_cases [OF assms(2)]
  note c = deliverOnce_cases [OF d rep(1), of x]
  show ?thesis using assms(1,3,4) d c rep(2) [of x q] rep(3,4) [of q]
    by (cases r1) (auto simp: deliverResult_def Let_def step_ok_def bridge_inv_def)
qed

lemma pending_ok:
  assumes "bridge_pending an v x q b = (r, b')" and "deliveries_ok b" and "br_active b = Some x"
    and "shows_view x b"
  shows "step_ok b b' \<and> br_active b' \<noteq> None"
proof -
  let ?code = "case vw_failureCode v of Some c \<Rightarrow> c
    | None \<Rightarrow> if vw_status v = RunFailed then ''agent_run_failed'' else ''agent_run_cancelled''"
  consider "step_ok b b' \<and> br_active b' \<noteq> None"
    | "(case deliverFailure an x q b of (Inl f, b1) \<Rightarrow> (throws f, b1)
        | (Inr x1, b1) \<Rightarrow> (returns (), reasoning x1 b1)) = (r, b')"
    | "(case deliverFailure an x q b of (Inl f, b1) \<Rightarrow> (throws f, b1)
        | (Inr x1, b1) \<Rightarrow> (returns (), bridge_fail ?code ''run ended'' b1)) = (r, b')"
    using assms unfolding bridge_pending_def Let_def
    by (auto simp: step_ok_def bridge_inv_def split: if_splits)
  then show ?thesis
  proof cases
    case 2
    then show ?thesis by (rule give_up_ok) (use assms in simp_all)
  next
    case 3
    then show ?thesis by (rule give_up_ok) (use assms in simp_all)
  qed
qed

lemma acceptView_ok:
  assumes "bridge_acceptView an v b = (r, b')" and "bridge_inv b"
  shows "step_ok b b' \<and> (br_active b' = None \<longleftrightarrow> br_active b = None)"
proof (cases "br_active b")
  case None
  then show ?thesis using assms by (auto simp: bridge_acceptView_def step_ok_def)
next
  case (Some x0)
  show ?thesis
  proof (cases "vw_runId v \<noteq> ar_runId x0 \<or> \<not> vw_local v")
    case True
    then show ?thesis using assms Some by (auto simp: bridge_acceptView_def step_ok_def)
  next
    case False
    let ?x = "x0\<lparr>ar_view := v\<rparr>"
    let ?b = "adoptView v (put_active ?x b)"
    have ok: "deliveries_ok ?b" "br_active ?b = Some ?x" "shows_view ?x ?b"
      using assms(2) Some by (simp_all add: bridge_inv_def)
    have disposed: "br_disposed ?b = br_disposed b" by simp
    have "step_ok ?b b' \<and> br_active b' \<noteq> None"
    proof (cases "ar_pendingTool ?x")
      case None
      then have "b' = ?b" using assms(1) Some False by (auto simp: bridge_acceptView_def Let_def)
      then show ?thesis using ok by (auto simp: step_ok_def bridge_inv_def)
    next
      case (Some q)
      consider t where "deliverResult an ?x q t ?b = (r, b')" | "bridge_pending an v ?x q ?b = (r, b')"
        using assms(1) \<open>br_active b = Some x0\<close> False Some
        by (auto simp: bridge_acceptView_def Let_def split: option.splits if_splits)
      then show ?thesis
        by cases (simp_all add: deliverResult_ok [OF _ ok] pending_ok [OF _ ok])
    qed
    then show ?thesis using Some disposed by (auto simp: step_ok_def)
  qed
qed

lemma toolCall_ok:
  assumes "bridge_toolCall an x q b = (r, b')" and "bridge_inv b" and "br_active b = Some x"
  shows "step_ok b b' \<and> br_active b' \<noteq> None"
proof -
  have ok: "deliveries_ok b" "shows_view x b" using bridge_inv_active [OF assms(2,3)] by auto
  let ?x1 = "x\<lparr>ar_pendingTool := Some q\<rparr>"
  let ?b1 = "put_active ?x1 b"
  have ok1: "deliveries_ok ?b1" "br_active ?b1 = Some ?x1" "shows_view ?x1 ?b1" using ok assms(3) by simp_all
  then have inv1: "bridge_inv ?b1" by (simp add: bridge_inv_def)
  consider "b' = b"
    | "(case deliverFailure an x q b of (Inl f, b1) \<Rightarrow> (throws f, b1)
        | (Inr x1, b1) \<Rightarrow> (returns (), reasoning x1 b1)) = (r, b')"
    | c m where "(case deliverFailure an ?x1 q ?b1 of (Inl f, b1) \<Rightarrow> (throws f, b1)
        | (Inr x1, b1) \<Rightarrow> (returns (), bridge_fail c m b1)) = (r, b')"
    | v where "bridge_acceptView an v ?b1 = (r, b')"
    using assms(1) unfolding bridge_toolCall_def Let_def
    by (cases "an_submit an") (auto split: if_splits)
  then show ?thesis
  proof cases
    case 1
    then show ?thesis using assms(2,3) by (simp add: step_ok_def)
  next
    case 2
    then show ?thesis by (rule give_up_ok) (use ok assms(3) in simp_all)
  next
    case 3
    then have "step_ok ?b1 b' \<and> br_active b' \<noteq> None"
      by (rule give_up_ok) (use ok1 in simp_all)
    then show ?thesis by (simp add: step_ok_def)
  next
    case 4
    then show ?thesis using acceptView_ok [OF 4 inv1] assms(3) by (simp add: step_ok_def)
  qed
qed

lemma finalDecision_ok:
  assumes "bridge_finalDecision an x b = (r, b')" and "bridge_inv b" and "br_active b = Some x"
  shows "step_ok b b' \<and> br_active b' \<noteq> None"
proof (cases "ar_pendingTool x \<noteq> None \<or> (\<exists>f. an_submit an = Inl f)")
  case True
  then have "b' = b" using assms(1)
    by (cases "an_submit an") (auto simp: bridge_finalDecision_def split: if_splits)
  then show ?thesis using assms(2,3) by (simp add: step_ok_def)
next
  case False
  then obtain v where v: "an_submit an = Inr v" "ar_pendingTool x = None" by (cases "an_submit an") auto
  have ok: "deliveries_ok b" using assms(2) by (simp add: bridge_inv_def)
  consider z y s where "b' = bridge_setState s (put_active z (adoptView v (put_active y b)))" "ar_view z = v"
    | z s where "b' = bridge_setState s (adoptView v (put_active z b))" "ar_view z = v"
    using assms(1) v by (fastforce simp: bridge_finalDecision_def Let_def reasoning_def bridge_fail_def split: if_splits)
  then show ?thesis by cases (use ok assms(3) in \<open>simp_all add: step_ok_def bridge_inv_def\<close>)
qed

text \<open>The run last shown has ended.\<close>

definition run_ended :: "bridge \<Rightarrow> bool" where
  "run_ended b \<longleftrightarrow> (\<exists>v. last_view (br_trace b) = Some v \<and> isTerminalStatus (vw_status v))"

lemma run_ended_frame [simp]:
  "run_ended (bridge_setState s b) = run_ended b"
  "run_ended (bridge_fail c m b) = run_ended b"
  "run_ended (close_turn x b) = run_ended b"
  "run_ended (settleActivation ok b) = run_ended b"
  "run_ended (b\<lparr>br_active := a\<rparr>) = run_ended b"
  "run_ended (b\<lparr>br_closedTurn := t\<rparr>) = run_ended b"
  by (auto simp: run_ended_def bridge_steps)

lemma shows_ended: "shows_view x b \<Longrightarrow> isTerminalStatus (vw_status (ar_view x)) \<Longrightarrow> run_ended b"
  by (simp add: shows_view_def run_ended_def)

definition plain_report :: "(bridge \<Rightarrow> bridge) \<Rightarrow> bool" where
  "plain_report report \<longleftrightarrow> (\<forall>c. deliveries_ok (report c) = deliveries_ok c \<and> run_ended (report c) = run_ended c \<and>
     br_active (report c) = br_active c \<and> br_disposed (report c) = br_disposed c)"

lemma plain_report_fail: "plain_report (bridge_fail c m)"
  "plain_report (\<lambda>d. if is_failed d then d else bridge_fail c m d)"
  by (simp_all add: plain_report_def)

lemma end_turn_ok:
  assumes "end_turn an x report b = (r, b')" and "deliveries_ok b" and "br_active b = Some x"
    and "shows_view x b" and "plain_report report"
  shows "step_ok b b' \<and> (r = returns () \<longrightarrow> br_active b' = None \<and> run_ended b') \<and>
    (r \<noteq> returns () \<longrightarrow> br_active b' \<noteq> None)"
proof -
  obtain r1 b1 where i: "bridge_interrupt an x b = (r1, b1)" by fastforce
  note c = interrupt_cases [OF i assms(2,4)]
  show ?thesis
  proof (cases r1)
    case (Inl f)
    then show ?thesis using assms(1,3) i c by (auto simp: end_turn_def step_ok_def bridge_inv_def)
  next
    case (Inr y)
    have "run_ended b1" using Inr c shows_ended [of y b1] by auto
    moreover have "r = returns ()" "b' = report (close_turn y b1)"
      using Inr assms(1) i by (simp_all add: end_turn_def)
    moreover note assms(5) [unfolded plain_report_def, rule_format, of "close_turn y b1"]
    ultimately show ?thesis using c by (simp add: step_ok_def bridge_inv_def)
  qed
qed

lemma repair_answered_ok:
  assumes "repair_answered an x answer b = (r, b')" and "deliveries_ok b" and "br_active b = Some x"
    and "shows_view x b"
  shows "step_ok b b' \<and> (br_active b' = None \<longrightarrow> run_ended b')"
proof (cases answer)
  case (Inl f)
  obtain code m where f: "f = (code, m)" by fastforce
  obtain r1 b1 where i: "bridge_interrupt an x b = (r1, b1)" by fastforce
  note c = interrupt_cases [OF i assms(2,4)]
  show ?thesis
  proof (cases r1)
    case (Inl g)
    then show ?thesis using assms(1,3) \<open>answer = Inl f\<close> f i c
      by (auto simp: repair_answered_def step_ok_def bridge_inv_def)
  next
    case (Inr y)
    have "run_ended b1" using Inr c shows_ended [of y b1] by auto
    then show ?thesis using Inr assms(1) \<open>answer = Inl f\<close> f i c
      by (auto simp: repair_answered_def step_ok_def bridge_inv_def)
  qed
next
  case (Inr tu)
  obtain t u where tu: "tu = (t, u)" by fastforce
  show ?thesis
  proof (cases "t = ar_threadId x")
    case True
    then have "b' = (let x1 = x\<lparr>ar_turnId := u, ar_finalSubmitted := False, ar_localTerminal := False,
                          ar_repair := False\<rparr>
                     in reasoning x1 (put_active x1 (b\<lparr>br_closedTurn := Some (ar_threadId x, ar_turnId x)\<rparr>)))"
      using assms(1) Inr tu by (simp add: repair_answered_def Let_def)
    then show ?thesis using assms(2-4) by (simp add: Let_def step_ok_def bridge_inv_def)
  next
    case False
    let ?x1 = "x\<lparr>ar_threadId := t, ar_turnId := u, ar_localTerminal := False\<rparr>"
    obtain r1 b1 where cancel: "cancel_turn an u (put_active ?x1 b) = (r1, b1)" by fastforce
    let ?x2 = "?x1\<lparr>ar_localTerminal := (r1 = returns ())\<rparr>"
    obtain r2 b2 where i: "bridge_interrupt an ?x2 (put_active ?x2 b1) = (r2, b2)" by fastforce
    have ok1: "deliveries_ok (put_active ?x2 b1)" "shows_view ?x2 (put_active ?x2 b1)"
      "br_active (put_active ?x2 b1) = Some ?x2" "br_disposed (put_active ?x2 b1) = br_disposed b"
      using cancel_cases [OF cancel, of x] assms(2-4) by simp_all
    note c = interrupt_cases [OF i ok1(1,2)]
    let ?x3 = "run_after r2 ?x2"
    have x3: "shows_view ?x3 b2" "br_active b2 = Some ?x3" using c ok1(3) by (cases r2; auto simp: run_after_def)+
    have b': "b' = bridge_fail ''local_agent_repair_thread_conflict'' ''thread conflict''
        (b2\<lparr>br_closedTurn := Some (ar_threadId x, ar_turnId x),
            br_active := (if ar_localTerminal ?x3 \<and> isTerminalStatus (vw_status (ar_view ?x3))
                          then None else br_active b2)\<rparr>)"
      using assms(1) Inr tu False cancel i by (simp add: repair_answered_def Let_def)
    have "br_disposed b2 = br_disposed b" "deliveries_ok b2" using c ok1(4) by simp_all
    then show ?thesis
      using x3 shows_ended [OF x3(1)] unfolding b' by (simp add: step_ok_def bridge_inv_def)
  qed
qed

lemma continueRepair_ok:
  assumes "bridge_continueRepair an x b = (r, b')" and "deliveries_ok b" and "br_active b = Some x"
    and "shows_view x b"
  shows "step_ok b b' \<and> (br_active b' = None \<longrightarrow> run_ended b')"
  using repair_answered_ok [OF assms(1) [unfolded bridge_continueRepair_def]] assms(2-4)
  by (simp add: step_ok_def)

lemma handleEvent_ok:
  assumes "bridge_handleEvent an e b = (r, b')" and "bridge_inv b"
  shows "step_ok b b' \<and> (br_active b = None \<longrightarrow> br_active b' = None) \<and>
    (br_active b \<noteq> None \<and> br_active b' = None \<longrightarrow> run_ended b')"
proof (cases "br_active b")
  case None
  then show ?thesis using assms by (auto simp: bridge_handleEvent_def step_ok_def)
next
  case (Some x)
  note inv = bridge_inv_active [OF assms(2) Some]
  let ?y = "x\<lparr>ar_localTerminal := True\<rparr>"
  let ?c = "put_active ?y b"
  have ok: "deliveries_ok ?c" "br_active ?c = Some ?y" "shows_view ?y ?c" using inv Some by simp_all
  have invc: "bridge_inv ?c" using ok by (simp add: bridge_inv_def)
  consider "b' = b"
    | q where "bridge_toolCall an x q b = (r, b')"
    | "bridge_finalDecision an x b = (r, b')"
    | report where "end_turn an ?y report ?c = (r, b')" "plain_report report"
    | "bridge_continueRepair an ?y ?c = (r, b')"
    | "isTerminalStatus (vw_status (ar_view ?y))" "b' = bridge_setState Idle (close_turn ?y ?c) \<or> b' = close_turn ?y ?c"
    using assms(1) Some plain_report_fail unfolding bridge_handleEvent_def Let_def
    by (cases e) (auto split: if_splits)
  then show ?thesis
  proof cases
    case 1
    then show ?thesis using assms(2) Some by (simp add: step_ok_def)
  next
    case 2
    then show ?thesis using toolCall_ok [OF 2 assms(2) Some] Some by auto
  next
    case 3
    then show ?thesis using finalDecision_ok [OF 3 assms(2) Some] Some by auto
  next
    case 4
    then show ?thesis using end_turn_ok [OF 4(1) ok 4(2)] Some by (auto simp: step_ok_def)
  next
    case 5
    then show ?thesis using continueRepair_ok [OF 5 ok] Some by (auto simp: step_ok_def)
  next
    case 6
    then show ?thesis using ok shows_ended [OF ok(3)] Some by (auto simp: step_ok_def bridge_inv_def)
  qed
qed

text \<open>What ending a run keeps, whatever object the caller still holds.\<close>

lemma interrupt_frame:
  assumes "bridge_interrupt an x b = (r, b')"
  shows "deliveries_ok b' = deliveries_ok b \<and> br_disposed b' = br_disposed b \<and>
    (br_active b' = None \<longleftrightarrow> br_active b = None)"
  using assms by (auto simp: bridge_interrupt_def Let_def split: if_splits sum.splits prod.splits)

lemma cancel_active: "cancel_turn an u b = (r, b') \<Longrightarrow> br_active b' = br_active b"
  using cancel_cases by blast

lemma disposeActive_ok:
  assumes "bridge_disposeActive an x m b = (r, b')" and "deliveries_ok b"
  shows "deliveries_ok b' \<and> br_active b' = None \<and> br_disposed b' = br_disposed b"
proof -
  obtain r1 b1 where c1: "(if ar_localTerminal x then (returns (), b) else cancel_turn an (ar_turnId x) b) = (r1, b1)"
    by fastforce
  have ok1: "deliveries_ok b1" "br_disposed b1 = br_disposed b"
    using c1 assms(2) cancel_cases [of an "ar_turnId x" b r1 b1 x] by (auto split: if_splits)
  obtain r2 b2 where i: "bridge_interrupt an x b1 = (r2, b2)" by fastforce
  show ?thesis
    using assms(1) c1 i interrupt_frame [OF i] ok1
    by (auto simp: bridge_disposeActive_def Let_def split: if_splits)
qed

lemma dispose_ok:
  assumes "bridge_dispose an m b = (r, b')" and "deliveries_ok b"
  shows "deliveries_ok b' \<and> br_active b' = None \<and>
    br_disposed b' = Some (case br_disposed b of None \<Rightarrow> m | Some m' \<Rightarrow> m')"
proof -
  let ?reason = "case br_disposed b of None \<Rightarrow> m | Some m' \<Rightarrow> m'"
  let ?b1 = "settleActivation False (b\<lparr>br_disposed := Some ?reason\<rparr>)"
  have b1: "deliveries_ok ?b1" "br_active ?b1 = br_active b" "br_disposed ?b1 = Some ?reason"
    using assms(2) by simp_all
  show ?thesis
  proof (cases "br_active b")
    case None
    then show ?thesis using assms(1) b1 by (auto simp: bridge_dispose_def Let_def)
  next
    case (Some x)
    then have "bridge_disposeActive an x ?reason ?b1 = (r, b')"
      using assms(1) b1 by (simp add: bridge_dispose_def Let_def)
    from disposeActive_ok [OF this b1(1)] b1(3) show ?thesis by simp
  qed
qed

lemma disconnect_ok:
  assumes "bridge_disconnect an m b = (r, b')" and "bridge_inv b"
  shows "step_ok b b' \<and> (br_active b = None \<longrightarrow> br_active b' = None)"
proof (cases "br_active b")
  case None
  then show ?thesis using assms by (auto simp: bridge_disconnect_def step_ok_def bridge_inv_def)
next
  case (Some x)
  note inv = bridge_inv_active [OF assms(2) Some]
  obtain r1 b1 where c1: "(if ar_localTerminal x then (returns (), b) else cancel_turn an (ar_turnId x) b) = (r1, b1)"
    by fastforce
  have ok1: "deliveries_ok b1" "shows_view x b1" "br_active b1 = Some x" "br_disposed b1 = br_disposed b"
    using c1 inv Some cancel_cases [of an "ar_turnId x" b r1 b1 x] by (auto split: if_splits)
  show ?thesis
  proof (cases r1)
    case (Inl f)
    then show ?thesis using assms(1) Some c1 ok1
      by (cases f) (auto simp: bridge_disconnect_def Let_def step_ok_def bridge_inv_def)
  next
    case (Inr a)
    let ?x1 = "x\<lparr>ar_localTerminal := True\<rparr>"
    obtain r2 b2 where i: "bridge_interrupt an ?x1 (put_active ?x1 b1) = (r2, b2)" by fastforce
    have "deliveries_ok (put_active ?x1 b1)" "shows_view ?x1 (put_active ?x1 b1)"
      "br_active (put_active ?x1 b1) = Some ?x1" "br_disposed (put_active ?x1 b1) = br_disposed b"
      using ok1 by simp_all
    note c = interrupt_cases [OF i this(1,2)] this
    show ?thesis
      using assms(1) Some c1 i c Inr
      by (cases r2) (auto simp: bridge_disconnect_def Let_def step_ok_def bridge_inv_def)
  qed
qed

lemma start_local_ok:
  assumes "start_local an local b = (r, b')" and "bridge_inv b"
  shows "step_ok b b' \<and> br_active b' = br_active b"
proof -
  have cancel: "deliveries_ok (snd (cancel_turn an u b)) = deliveries_ok b"
    "shows_view x (snd (cancel_turn an u b)) = shows_view x b"
    "br_active (snd (cancel_turn an u b)) = br_active b"
    "br_disposed (snd (cancel_turn an u b)) = br_disposed b" for u x
    using cancel_cases [of an u b "fst (cancel_turn an u b)" "snd (cancel_turn an u b)" x] by simp_all
  show ?thesis
    using assms by (auto simp: start_local_def Let_def step_ok_def bridge_inv_def cancel
        split: sum.splits prod.splits option.splits)
qed

lemma start_run_ok:
  assumes "start_run an t u answer b = (r, b')" and "bridge_inv b"
  shows "step_ok b b' \<and> (disposedReason b \<noteq> None \<and> br_active b = None \<longrightarrow> br_active b' = None)"
proof (cases answer)
  case (Inl f)
  have cancel: "deliveries_ok (snd (cancel_turn an u b)) = deliveries_ok b"
    "shows_view x (snd (cancel_turn an u b)) = shows_view x b"
    "br_active (snd (cancel_turn an u b)) = br_active b"
    "br_disposed (snd (cancel_turn an u b)) = br_disposed b" for x
    using cancel_cases [of an u b "fst (cancel_turn an u b)" "snd (cancel_turn an u b)" x] by simp_all
  show ?thesis
    using assms Inl by (auto simp: start_run_def Let_def step_ok_def bridge_inv_def cancel split: prod.splits)
next
  case (Inr v)
  define x where "x = \<lparr>ar_threadId = t, ar_turnId = u, ar_runId = vw_runId v, ar_view = v,
                   ar_pendingTool = None, ar_finalSubmitted = False, ar_localTerminal = False,
                   ar_repair = False\<rparr>"
  let ?b1 = "b\<lparr>br_active := Some x\<rparr>"
  have b1: "deliveries_ok ?b1" "disposedReason ?b1 = disposedReason b"
    using assms(2) by (simp_all add: bridge_inv_def disposedReason_def)
  show ?thesis
  proof (cases "disposedReason b")
    case None
    then show ?thesis using assms(1) Inr b1
      by (auto simp: start_run_def Let_def x_def step_ok_def bridge_inv_def)
  next
    case (Some m)
    obtain r2 b2 where d: "bridge_disposeActive an x m ?b1 = (r2, b2)" by fastforce
    show ?thesis using assms(1) Inr Some b1 d disposeActive_ok [OF d b1(1)]
      by (cases r2) (auto simp: start_run_def Let_def x_def step_ok_def bridge_inv_def)
  qed
qed

lemma repair_stale_ok:
  assumes "repair_answered an x answer b = (r, b')" and "deliveries_ok b" and "br_active b = None"
  shows "deliveries_ok b' \<and> br_active b' = None \<and> br_disposed b' = br_disposed b"
proof (cases answer)
  case (Inl f)
  obtain r1 b1 where i: "bridge_interrupt an x b = (r1, b1)" by fastforce
  show ?thesis using assms i interrupt_frame [OF i] Inl
    by (cases r1; cases f) (auto simp: repair_answered_def Let_def)
next
  case (Inr tu)
  obtain t u where tu: "tu = (t, u)" by fastforce
  show ?thesis
  proof (cases "t = ar_threadId x")
    case True
    then show ?thesis using assms Inr tu by (auto simp: repair_answered_def Let_def)
  next
    case False
    let ?x1 = "x\<lparr>ar_threadId := t, ar_turnId := u, ar_localTerminal := False\<rparr>"
    obtain r1 b1 where cancel: "cancel_turn an u (put_active ?x1 b) = (r1, b1)" by fastforce
    let ?x2 = "?x1\<lparr>ar_localTerminal := (r1 = returns ())\<rparr>"
    obtain r2 b2 where i: "bridge_interrupt an ?x2 (put_active ?x2 b1) = (r2, b2)" by fastforce
    show ?thesis
      using assms Inr tu False cancel i interrupt_frame [OF i] cancel_cases [OF cancel]
      by (auto simp: repair_answered_def Let_def)
  qed
qed

subsection \<open>The bridge as a machine\<close>

text \<open>
  The stretches of code that run without waiting. \<open>RepairResumed\<close> is the rest of a repair whose
  bridge let the run go while the local client answered; its run object is whatever the handler holds.
\<close>

datatype bridge_input =
  StartLocal answers "(failure, string \<times> string) result"
| StartRun answers string string "(failure, run_view) result"
| LocalEventArrived answers local_event
| ViewArrived answers run_view
| RepairResumed answers active_run "(failure, string \<times> string) result"
| Disconnect answers string
| Dispose answers string

fun bridge_step :: "bridge \<Rightarrow> bridge_input \<Rightarrow> bridge" where
  "bridge_step b (StartLocal an local) = snd (start_local an local b)"
| "bridge_step b (StartRun an t u answer) = snd (start_run an t u answer b)"
| "bridge_step b (LocalEventArrived an e) = snd (bridge_event an e b)"
| "bridge_step b (ViewArrived an v) = snd (bridge_acceptView an v b)"
| "bridge_step b (RepairResumed an x answer) =
     (if br_active b = None then snd (repair_answered an x answer b) else b)"
| "bridge_step b (Disconnect an m) = snd (bridge_disconnect an m b)"
| "bridge_step b (Dispose an m) = snd (bridge_dispose an m b)"

lemma event_ok:
  assumes "bridge_event an e b = (r, b')" and "bridge_inv b"
  shows "step_ok b b' \<and> (br_active b = None \<longrightarrow> br_active b' = None) \<and>
    (br_active b \<noteq> None \<and> br_active b' = None \<longrightarrow> run_ended b')"
proof (cases "br_activation b \<noteq> ActivationOpen \<or> isLateTerminalEvent e b")
  case True
  then have "b' = b" using assms(1) by (simp add: bridge_event_def split: if_splits)
  then show ?thesis using assms(2) by (auto simp: step_ok_def)
next
  case False
  then have "bridge_handleEvent an e b = (r, b')" using assms(1) by (simp add: bridge_event_def)
  then show ?thesis using assms(2) by (rule handleEvent_ok)
qed

text \<open>Once disposed of, a bridge without a run stays without one.\<close>

definition closed_for_good :: "bridge \<Rightarrow> bool" where
  "closed_for_good b \<longleftrightarrow> bridge_inv b \<and> disposedReason b \<noteq> None \<and> br_active b = None"

lemma step_keeps:
  assumes "step_ok b b'" and "closed_for_good b \<Longrightarrow> br_active b' = None"
  shows "bridge_inv b' \<and> (closed_for_good b \<longrightarrow> closed_for_good b')"
  using assms by (simp add: closed_for_good_def step_ok_def disposedReason_def)

lemma step_facts:
  assumes "bridge_inv b"
  shows "bridge_inv (bridge_step b i) \<and> (closed_for_good b \<longrightarrow> closed_for_good (bridge_step b i))"
proof (cases i)
  case (StartLocal an local)
  note start_local_ok [OF prod.collapse [symmetric] assms, of an local]
  then show ?thesis by (intro step_keeps) (simp_all add: StartLocal closed_for_good_def)
next
  case (StartRun an t u answer)
  note start_run_ok [OF prod.collapse [symmetric] assms, of an t u answer]
  then show ?thesis by (intro step_keeps) (simp_all add: StartRun closed_for_good_def)
next
  case (LocalEventArrived an e)
  note event_ok [OF prod.collapse [symmetric] assms, of an e]
  then show ?thesis by (intro step_keeps) (simp_all add: LocalEventArrived closed_for_good_def)
next
  case (ViewArrived an v)
  note acceptView_ok [OF prod.collapse [symmetric] assms, of an v]
  then show ?thesis by (intro step_keeps) (simp_all add: ViewArrived closed_for_good_def)
next
  case (RepairResumed an x answer)
  have ok: "deliveries_ok b" using assms by (simp add: bridge_inv_def)
  note stale = repair_stale_ok [OF prod.collapse [symmetric] ok, of an x answer]
  show ?thesis
  proof (cases "br_active b")
    case None
    then show ?thesis using stale
      by (intro step_keeps) (simp_all add: RepairResumed closed_for_good_def step_ok_def bridge_inv_def)
  qed (use assms RepairResumed in \<open>simp add: closed_for_good_def\<close>)
next
  case (Disconnect an m)
  note disconnect_ok [OF prod.collapse [symmetric] assms, of an m]
  then show ?thesis by (intro step_keeps) (simp_all add: Disconnect closed_for_good_def)
next
  case (Dispose an m)
  have ok: "deliveries_ok b" using assms by (simp add: bridge_inv_def)
  note dispose_ok [OF prod.collapse [symmetric] ok, of an m]
  then show ?thesis
    by (auto simp: Dispose closed_for_good_def bridge_inv_def disposedReason_def split: option.splits if_splits)
qed

interpretation bridge: machine bridge_step bridge_inv
  by unfold_locales (simp add: step_facts)

interpretation closed_bridge: machine bridge_step closed_for_good
  by unfold_locales (use step_facts in \<open>auto simp: closed_for_good_def\<close>)

lemma new_bridge_inv: "bridge_inv new_bridge"
  by (simp add: new_bridge_def bridge_inv_def deliveries_ok_def)

lemma dispose_closes:
  assumes "bridge_inv b" and "br_disposed b = None" and "m \<noteq> []"
  shows "closed_for_good (bridge_step b (Dispose an m))"
  using dispose_ok [of an m b] assms
  by (cases "bridge_dispose an m b") (auto simp: closed_for_good_def bridge_inv_def disposedReason_def)

text \<open>
  C34. Whatever happens, and in whatever order: no result of a tool call is handed successfully to
  the local agent twice, and none is reported to the page twice.
\<close>

theorem tool_results_delivered_once:
  "distinct (delivered_ids (br_trace (foldl bridge_step new_bridge es))) \<and>
   distinct (reported_ids (br_trace (foldl bridge_step new_bridge es)))"
  using bridge.run_inv [OF new_bridge_inv, of es] by (simp_all add: bridge_inv_def deliveries_ok_def)


text \<open>
  When the handling of an event lets the active run go, the run had ended: the view of it
  handed on last has a terminal status.
\<close>

lemma run_is_left_only_when_ended:
  assumes "br_active (foldl bridge_step new_bridge es) \<noteq> None"
    and "br_active (foldl bridge_step new_bridge (es @ [LocalEventArrived an e])) = None"
  shows "run_ended (foldl bridge_step new_bridge (es @ [LocalEventArrived an e]))"
  using event_ok [of an e "foldl bridge_step new_bridge es"] assms
    bridge.run_inv [OF new_bridge_inv, of es]
  by (cases "bridge_event an e (foldl bridge_step new_bridge es)") auto

text \<open>
  A repair turn whose start overtakes \<^verbatim>\<open>dispose\<close> is left running. The bridge has asked the local
  client for the turn; \<^verbatim>\<open>dispose\<close> ends the audit run and lets the run go without cancelling
  anything, since the finished local turn counts as over; then the client answers with the new turn.
  The handler returns normally and reports that the agent is reasoning, no run is active, and the
  new turn is not cancelled.
\<close>

lemma repair_outlives_disposal:
  assumes "br_active b = Some x" and "ar_localTerminal x"
    and "bridge_dispose an m b = (returns (), b1)"
    and "ar_threadId y = ar_threadId x" and "ar_runId y = ar_runId x"
    and "repair_answered an' y (returns (ar_threadId x, u)) b1 = (r, b2)"
  shows "r = returns () \<and> br_active b2 = None \<and>
    br_state b2 = Reasoning (ar_threadId x) u (ar_runId x) \<and>
    (LocalTurnCancelled u ok \<in> set (br_trace b2) \<longrightarrow> LocalTurnCancelled u ok \<in> set (br_trace b))"
proof -
  have eff: "LocalTurnCancelled u ok \<in> set (br_trace (snd (bridge_interrupt an x c))) \<longleftrightarrow>
      LocalTurnCancelled u ok \<in> set (br_trace c)" for c
    by (auto simp: bridge_interrupt_def bridge_steps Let_def split: sum.splits)
  have "br_active b1 = None \<and>
      (LocalTurnCancelled u ok \<in> set (br_trace b1) \<longrightarrow> LocalTurnCancelled u ok \<in> set (br_trace b))"
    using assms(1-3) eff [of "settleActivation False (b\<lparr>br_disposed := Some (case br_disposed b of None \<Rightarrow> m | Some m' \<Rightarrow> m')\<rparr>)"]
    by (auto simp: bridge_dispose_def bridge_disposeActive_def Let_def bridge_steps
        split: prod.splits if_splits)
  then show ?thesis
    using assms(4-6) by (auto simp: repair_answered_def bridge_steps Let_def)
qed

definition sample_view :: "run_status \<Rightarrow> run_view" where
  "sample_view s = \<lparr>vw_runId = ''r'', vw_local = True, vw_version = 1, vw_status = s,
     vw_lastToolResult = None, vw_pendingToolCall = None, vw_pendingApproval = False,
     vw_feedback = Some (''incomplete'', ''image missing''), vw_failureCode = None, vw_repairable = True\<rparr>"

definition sample_answers :: "run_status \<Rightarrow> answers" where
  "sample_answers s = \<lparr>an_cancel = None, an_interrupt = returns (sample_view RunCancelled), an_deliver = None,
     an_arguments = None, an_sync = None, an_submit = returns (sample_view s),
     an_repair = returns (''t'', ''u2'')\<rparr>"

definition sample_start :: bridge_input where
  "sample_start = StartRun (sample_answers RunRunning) ''t'' ''u1'' (returns (sample_view RunRunning))"

lemmas sample_defs = sample_view_def sample_answers_def sample_start_def new_bridge_def start_run_def
  disposedReason_def bridge_steps isTerminalStatus_def repair_needed_def


theorem run_is_left_only_when_ended_witness:
  "run_ended (foldl bridge_step new_bridge ([sample_start] @
     [LocalEventArrived (sample_answers RunRunning) (LocalTurnCompleted ''t'' ''u1'')]))"
  by (rule run_is_left_only_when_ended)
    (simp_all add: sample_defs bridge_event_def isLateTerminalEvent_def bridge_handleEvent_def
      end_turn_def bridge_interrupt_def is_failed_def Let_def)

theorem repair_outlives_disposal_witness:
  "let b0 = foldl bridge_step new_bridge
              [sample_start, LocalEventArrived (sample_answers RunRunning) (LocalFinalDecision ''t'' ''u1'')];
       x = the (br_active b0)\<lparr>ar_localTerminal := True\<rparr>;
       b = put_active x b0;
       b1 = snd (bridge_dispose (sample_answers RunRunning) ''gone'' b);
       b2 = snd (repair_answered (sample_answers RunRunning) x (returns (''t'', ''u2'')) b1)
   in ar_repair x \<and> br_state b2 = Reasoning ''t'' ''u2'' ''r''"
proof -
  define b0 where "b0 = foldl bridge_step new_bridge
              [sample_start, LocalEventArrived (sample_answers RunRunning) (LocalFinalDecision ''t'' ''u1'')]"
  define x where "x = the (br_active b0)\<lparr>ar_localTerminal := True\<rparr>"
  define b where "b = put_active x b0"
  have x: "ar_repair x \<and> ar_threadId x = ''t'' \<and> ar_runId x = ''r'' \<and> ar_localTerminal x \<and> br_active b = Some x \<and>
      br_disposed b = None \<and> br_activation b = ActivationOpen \<and> ar_view x = sample_view RunRunning"
    unfolding b_def x_def b0_def
    by (simp add: sample_defs bridge_event_def isLateTerminalEvent_def bridge_handleEvent_def bridge_finalDecision_def)
  have d: "bridge_dispose (sample_answers RunRunning) ''gone'' b =
      (returns (), snd (bridge_dispose (sample_answers RunRunning) ''gone'' b))"
    using x by (simp add: bridge_dispose_def bridge_disposeActive_def bridge_interrupt_def Let_def
        sample_defs split: prod.splits)
  have "br_state (snd (repair_answered (sample_answers RunRunning) x (returns (ar_threadId x, ''u2''))
      (snd (bridge_dispose (sample_answers RunRunning) ''gone'' b)))) = Reasoning ''t'' ''u2'' ''r''"
    using repair_outlives_disposal [OF _ _ d _ _ prod.collapse [symmetric], of x x "sample_answers RunRunning" "''u2''"] x
    by simp
  then show ?thesis using x unfolding b_def x_def b0_def Let_def by simp
qed

end
