(* ===== verification/Capabilities.thy ===== *)
theory Capabilities
  imports AgentConfig
begin

text \<open>
  What the browser accepts as arguments of an agent tool: \<^verbatim>\<open>web/src/services/api/strict-contract.ts\<close>
  and \<^verbatim>\<open>web/src/services/api/agent-capabilities.ts\<close>. A value is a JSON value or \<^verbatim>\<open>undefined\<close>, which is
  \<open>None\<close>. The labels that error messages carry are left out: an error is the kind of failure. The
  URL parser of the platform is a parameter.
\<close>

datatype contract_error =
  NotAnObject | UnknownField string | NotAnArray | NotText | TextTooLong nat | NotAnInteger | NotAFlag
| UnsupportedTool | UnsupportedMedia | UnsupportedDetail | UnsupportedOperation | UnsupportedNodeType
| UnsupportedNodeStatus | BadCount | DuplicateIdentifier | BadIdentifier | ResourceIsUrl | BadNumber
| OutOfRange | SelfConnection | EmptyPatch | BadChecksum | BadUsage

type_synonym 'a contract = "(contract_error, 'a) result"
type_synonym properties = "(string \<times> json) list"

subsection \<open>Strict contracts\<close>

fun object_value :: "json option \<Rightarrow> properties contract" where
  "object_value (Some (JObj ps)) = returns ps"
| "object_value _ = throws NotAnObject"

text \<open>
  \<^verbatim>\<open>find\<close> answers the first unknown key; the test \<^verbatim>\<open>if (unknownKey)\<close> does not see an empty one.
\<close>

definition exactObject :: "string list \<Rightarrow> json option \<Rightarrow> properties contract" where
  "exactObject allowed value =
     and_then (object_value value) (\<lambda>ps.
       case List.find (\<lambda>k. k \<notin> set allowed) (map fst ps) of
         Some (c # cs) \<Rightarrow> throws (UnknownField (c # cs))
       | _ \<Rightarrow> returns ps)"

fun array_value :: "json option \<Rightarrow> json list contract" where
  "array_value (Some (JArr xs)) = returns xs"
| "array_value _ = throws NotAnArray"

fun text_value :: "bool \<Rightarrow> json option \<Rightarrow> string contract" where
  "text_value allowEmpty (Some (JStr s)) =
     (if \<not> allowEmpty \<and> js_trim s = [] then throws NotText else returns s)"
| "text_value allowEmpty _ = throws NotText"

definition boundedTextOr :: "bool \<Rightarrow> nat \<Rightarrow> json option \<Rightarrow> string contract" where
  "boundedTextOr allowEmpty maxLength value =
     and_then (text_value allowEmpty value) (\<lambda>s.
       if length s > maxLength then throws (TextTooLong maxLength) else returns s)"

text \<open>With the default of its last parameter.\<close>

definition boundedText :: "nat \<Rightarrow> json option \<Rightarrow> string contract" where
  "boundedText = boundedTextOr False"

definition whole :: "rat \<Rightarrow> bool" where
  "whole q \<longleftrightarrow> of_int \<lfloor>q\<rfloor> = q"

fun integer_value :: "bool \<Rightarrow> json option \<Rightarrow> int contract" where
  "integer_value allowZero (Some (JNum q)) =
     (if \<not> whole q \<or> \<not> safe_integer \<lfloor>q\<rfloor> \<or> \<lfloor>q\<rfloor> < (if allowZero then 0 else 1) then throws NotAnInteger
      else returns \<lfloor>q\<rfloor>)"
| "integer_value allowZero _ = throws NotAnInteger"

fun flag_value :: "json option \<Rightarrow> bool contract" where
  "flag_value (Some (JBool b)) = returns b"
| "flag_value _ = throws NotAFlag"

text \<open>A field that may be absent.\<close>

definition optional_value :: "(json option \<Rightarrow> ('e, 'a) result) \<Rightarrow> json option \<Rightarrow> ('e, 'a option) result" where
  "optional_value read v =
     (case v of None \<Rightarrow> returns None | Some _ \<Rightarrow> and_then (read v) (\<lambda>x. returns (Some x)))"

lemma optional_value_simps [simp]:
  "optional_value read None = Inr None"
  "optional_value read (Some v) = and_then (read (Some v)) (\<lambda>x. Inr (Some x))"
  by (simp_all add: optional_value_def)

subsection \<open>Identifiers, numbers and types\<close>

definition identifier_char :: "char \<Rightarrow> bool" where
  "identifier_char c \<longleftrightarrow> \<not> js_space c \<and> \<not> (of_char c :: nat) < 32 \<and> (of_char c :: nat) \<noteq> 127"

definition capabilityIdentifier :: "json option \<Rightarrow> string contract" where
  "capabilityIdentifier value =
     and_then (boundedText 120 value) (\<lambda>s.
       if list_ex (\<lambda>c. \<not> identifier_char c) s then throws BadIdentifier else returns s)"

definition is_absolute_url :: "url_parser \<Rightarrow> string \<Rightarrow> bool" where
  "is_absolute_url parse_url s = (case parse_url s of None \<Rightarrow> False | Some u \<Rightarrow> url_protocol u \<noteq> [])"

definition capabilityResourceIdentifier :: "url_parser \<Rightarrow> json option \<Rightarrow> string contract" where
  "capabilityResourceIdentifier parse_url value =
     and_then (capabilityIdentifier value) (\<lambda>s.
       if is_absolute_url parse_url s then throws ResourceIsUrl else returns s)"

definition identifier_list ::
  "(json option \<Rightarrow> string contract) \<Rightarrow> nat \<Rightarrow> bool \<Rightarrow> json option \<Rightarrow> string list contract" where
  "identifier_list read limit allowEmpty value =
     and_then (array_value value) (\<lambda>values.
       if length values > limit \<or> (\<not> allowEmpty \<and> values = []) then throws BadCount
       else
         and_then (map_result (\<lambda>v. read (Some v)) values) (\<lambda>ids.
           if length (js_set_of ids) \<noteq> length ids then throws DuplicateIdentifier else returns ids))"

definition capabilityIdentifierList :: "nat \<Rightarrow> bool \<Rightarrow> json option \<Rightarrow> string list contract" where
  "capabilityIdentifierList = identifier_list capabilityIdentifier"

definition capabilityResourceIdentifierList ::
  "url_parser \<Rightarrow> nat \<Rightarrow> bool \<Rightarrow> json option \<Rightarrow> string list contract" where
  "capabilityResourceIdentifierList parse_url = identifier_list (capabilityResourceIdentifier parse_url)"

fun capabilityNumber :: "json option \<Rightarrow> rat contract" where
  "capabilityNumber (Some (JNum q)) = returns q"
| "capabilityNumber _ = throws BadNumber"

definition ranged :: "rat \<Rightarrow> rat \<Rightarrow> json option \<Rightarrow> rat contract" where
  "ranged low high value =
     and_then (capabilityNumber value) (\<lambda>q. if q < low \<or> q > high then throws OutOfRange else returns q)"

definition capabilityCoordinate :: "json option \<Rightarrow> rat contract" where
  "capabilityCoordinate = ranged (-1000000) 1000000"

definition capabilityDimension :: "json option \<Rightarrow> rat contract" where
  "capabilityDimension = ranged 1 20000"

definition capabilityPoint :: "json option \<Rightarrow> (rat \<times> rat) contract" where
  "capabilityPoint value =
     and_then (exactObject [''x'', ''y''] value) (\<lambda>ps.
       and_then (capabilityCoordinate (map_of ps ''x'')) (\<lambda>x.
         and_then (capabilityCoordinate (map_of ps ''y'')) (\<lambda>y. returns (x, y))))"

definition capabilityViewport :: "json option \<Rightarrow> (rat \<times> rat \<times> rat) contract" where
  "capabilityViewport value =
     and_then (exactObject [''x'', ''y'', ''zoom''] value) (\<lambda>ps.
       and_then (ranged (1 / 100) 16 (map_of ps ''zoom'')) (\<lambda>zoom.
         and_then (capabilityCoordinate (map_of ps ''x'')) (\<lambda>x.
           and_then (capabilityCoordinate (map_of ps ''y'')) (\<lambda>y. returns (x, y, zoom)))))"

datatype canvas_node_type =
  ImageNode | TextNode | ScriptNode | SkillNode | ConfigNode | VideoNode | AudioNode | FrameNode

definition canvas_node_types :: "(string \<times> canvas_node_type) list" where
  "canvas_node_types =
     [(''image'', ImageNode), (''text'', TextNode), (''script'', ScriptNode), (''skill'', SkillNode),
      (''config'', ConfigNode), (''video'', VideoNode), (''audio'', AudioNode), (''frame'', FrameNode)]"

definition capabilityCanvasNodeType :: "json option \<Rightarrow> canvas_node_type contract" where
  "capabilityCanvasNodeType value =
     and_then (boundedText 64 value) (\<lambda>s.
       case map_of canvas_node_types s of None \<Rightarrow> throws UnsupportedNodeType | Some t \<Rightarrow> returns t)"

definition capabilityCanvasNodeStatus :: "json option \<Rightarrow> string contract" where
  "capabilityCanvasNodeStatus value =
     and_then (boundedText 32 value) (\<lambda>s.
       if s \<in> {''idle'', ''success'', ''loading'', ''error''} then returns s else throws UnsupportedNodeStatus)"

definition capabilityCanvasNodeMetadata :: "json option \<Rightarrow> properties contract" where
  "capabilityCanvasNodeMetadata value =
     and_then (object_value value) (\<lambda>ps.
       and_then (optional_value capabilityCanvasNodeStatus (map_of ps ''status'')) (\<lambda>_. returns ps))"

definition validCapabilityChecksum :: "string \<Rightarrow> bool" where
  "validCapabilityChecksum s \<longleftrightarrow> length s = 64 \<and>
     list_all (\<lambda>c. let n = of_char c :: nat in 48 \<le> n \<and> n \<le> 57 \<or> 97 \<le> n \<and> n \<le> 102) s"

subsection \<open>Canvas operations\<close>

record operation_node =
  on_id :: string
  on_type :: canvas_node_type
  on_title :: string
  on_position :: "rat \<times> rat"
  on_width :: rat
  on_height :: rat
  on_metadata :: "properties option"

record operation_connection =
  oc_id :: string
  oc_fromNodeId :: string
  oc_toNodeId :: string
  oc_fromHandleId :: "string option"
  oc_toHandleId :: "string option"

datatype canvas_operation =
  AddNode string operation_node
| UpdateNode string string properties
| DeleteNode string string
| ConnectNodes string operation_connection
| DeleteConnections string "string list"
| SetViewport string "rat \<times> rat \<times> rat"
| SelectNodes string "string list"

fun operationId :: "canvas_operation \<Rightarrow> string" where
  "operationId (AddNode i n) = i"
| "operationId (UpdateNode i n ps) = i"
| "operationId (DeleteNode i n) = i"
| "operationId (ConnectNodes i c) = i"
| "operationId (DeleteConnections i cs) = i"
| "operationId (SetViewport i v) = i"
| "operationId (SelectNodes i ns) = i"

definition parse_add_node :: "json option \<Rightarrow> canvas_operation contract" where
  "parse_add_node value =
     and_then (exactObject [''operationId'', ''type'', ''node''] value) (\<lambda>source.
     and_then (exactObject [''id'', ''type'', ''title'', ''position'', ''width'', ''height'', ''metadata'']
                 (map_of source ''node'')) (\<lambda>node.
     and_then (capabilityIdentifier (map_of source ''operationId'')) (\<lambda>i.
     and_then (capabilityIdentifier (map_of node ''id'')) (\<lambda>nodeId.
     and_then (capabilityCanvasNodeType (map_of node ''type'')) (\<lambda>t.
     and_then (boundedText 240 (map_of node ''title'')) (\<lambda>title.
     and_then (capabilityPoint (map_of node ''position'')) (\<lambda>position.
     and_then (capabilityDimension (map_of node ''width'')) (\<lambda>width.
     and_then (capabilityDimension (map_of node ''height'')) (\<lambda>height.
     and_then (optional_value capabilityCanvasNodeMetadata (map_of node ''metadata'')) (\<lambda>metadata.
       returns (AddNode i \<lparr>on_id = nodeId, on_type = t, on_title = title, on_position = position,
         on_width = width, on_height = height, on_metadata = metadata\<rparr>)))))))))))"

definition parse_update_node :: "json option \<Rightarrow> canvas_operation contract" where
  "parse_update_node value =
     and_then (exactObject [''operationId'', ''type'', ''nodeId'', ''patch''] value) (\<lambda>source.
     and_then (object_value (map_of source ''patch'')) (\<lambda>patch.
     if patch = [] then throws EmptyPatch
     else
       and_then (optional_value capabilityCanvasNodeType (map_of patch ''type'')) (\<lambda>_.
       and_then (optional_value capabilityCanvasNodeMetadata (map_of patch ''metadata'')) (\<lambda>_.
       and_then (capabilityIdentifier (map_of source ''operationId'')) (\<lambda>i.
       and_then (capabilityIdentifier (map_of source ''nodeId'')) (\<lambda>n.
         returns (UpdateNode i n patch)))))))"

definition parse_delete_node :: "json option \<Rightarrow> canvas_operation contract" where
  "parse_delete_node value =
     and_then (exactObject [''operationId'', ''type'', ''nodeId''] value) (\<lambda>source.
     and_then (capabilityIdentifier (map_of source ''operationId'')) (\<lambda>i.
     and_then (capabilityIdentifier (map_of source ''nodeId'')) (\<lambda>n. returns (DeleteNode i n))))"

definition parse_connect_nodes :: "json option \<Rightarrow> canvas_operation contract" where
  "parse_connect_nodes value =
     and_then (exactObject [''operationId'', ''type'', ''connection''] value) (\<lambda>source.
     and_then (exactObject [''id'', ''fromNodeId'', ''toNodeId'', ''fromHandleId'', ''toHandleId'']
                 (map_of source ''connection'')) (\<lambda>connection.
     and_then (capabilityIdentifier (map_of connection ''fromNodeId'')) (\<lambda>fromNodeId.
     and_then (capabilityIdentifier (map_of connection ''toNodeId'')) (\<lambda>toNodeId.
     if fromNodeId = toNodeId then throws SelfConnection
     else
       and_then (capabilityIdentifier (map_of connection ''id'')) (\<lambda>connectionId.
       and_then (optional_value capabilityIdentifier (map_of connection ''fromHandleId'')) (\<lambda>fromHandleId.
       and_then (optional_value capabilityIdentifier (map_of connection ''toHandleId'')) (\<lambda>toHandleId.
       and_then (capabilityIdentifier (map_of source ''operationId'')) (\<lambda>i.
         returns (ConnectNodes i \<lparr>oc_id = connectionId, oc_fromNodeId = fromNodeId,
           oc_toNodeId = toNodeId, oc_fromHandleId = fromHandleId, oc_toHandleId = toHandleId\<rparr>)))))))))"

definition parse_delete_connections :: "json option \<Rightarrow> canvas_operation contract" where
  "parse_delete_connections value =
     and_then (exactObject [''operationId'', ''type'', ''connectionIds''] value) (\<lambda>source.
     and_then (capabilityIdentifier (map_of source ''operationId'')) (\<lambda>i.
     and_then (capabilityIdentifierList 100 False (map_of source ''connectionIds'')) (\<lambda>cs.
       returns (DeleteConnections i cs))))"

definition parse_set_viewport :: "json option \<Rightarrow> canvas_operation contract" where
  "parse_set_viewport value =
     and_then (exactObject [''operationId'', ''type'', ''viewport''] value) (\<lambda>source.
     and_then (capabilityIdentifier (map_of source ''operationId'')) (\<lambda>i.
     and_then (capabilityViewport (map_of source ''viewport'')) (\<lambda>v. returns (SetViewport i v))))"

definition parse_select_nodes :: "json option \<Rightarrow> canvas_operation contract" where
  "parse_select_nodes value =
     and_then (exactObject [''operationId'', ''type'', ''nodeIds''] value) (\<lambda>source.
     and_then (capabilityIdentifier (map_of source ''operationId'')) (\<lambda>i.
     and_then (capabilityIdentifierList 100 True (map_of source ''nodeIds'')) (\<lambda>ns.
       returns (SelectNodes i ns))))"

definition parseCanvasOperation :: "json option \<Rightarrow> canvas_operation contract" where
  "parseCanvasOperation value =
     and_then (object_value value) (\<lambda>header.
       case map_of header ''type'' of
         Some (JStr t) \<Rightarrow>
           if t = ''add_node'' then parse_add_node value
           else if t = ''update_node'' then parse_update_node value
           else if t = ''delete_node'' then parse_delete_node value
           else if t = ''connect_nodes'' then parse_connect_nodes value
           else if t = ''delete_connections'' then parse_delete_connections value
           else if t = ''set_viewport'' then parse_set_viewport value
           else if t = ''select_nodes'' then parse_select_nodes value
           else throws UnsupportedOperation
       | _ \<Rightarrow> throws UnsupportedOperation)"

subsection \<open>Arguments of tools\<close>

datatype agent_tool =
  CanvasReadTool | ApplyOpsTool | AssetsReadTool | AssetsPublishTool | MediaGenerateTool
| VisionAnalyzeTool | SkillsLoadTool

definition toolNames :: "(string \<times> agent_tool) list" where
  "toolNames =
     [(''canvas.read'', CanvasReadTool), (''canvas.apply_ops'', ApplyOpsTool),
      (''assets.read'', AssetsReadTool), (''assets.publish'', AssetsPublishTool),
      (''media.generate'', MediaGenerateTool), (''vision.analyze'', VisionAnalyzeTool),
      (''skills.load'', SkillsLoadTool)]"

fun isAgentToolName :: "json option \<Rightarrow> bool" where
  "isAgentToolName (Some (JStr s)) = (map_of toolNames s \<noteq> None)"
| "isAgentToolName _ = False"

datatype media_kind = ImageMedia | VideoMedia | AudioMedia

record media_request =
  mr_kind :: media_kind
  mr_modelRecordId :: string
  mr_modelKey :: string
  mr_parameters :: properties
  mr_sourceResourceIds :: "string list"
  mr_targetCanvasNodeId :: string
  mr_clientRequestId :: string

record vision_request =
  vr_modelRecordId :: string
  vr_modelKey :: string
  vr_sourceResourceIds :: "string list"
  vr_prompt :: string
  vr_original :: bool \<comment> \<open>\<^verbatim>\<open>detail === "original"\<close>, else \<^verbatim>\<open>"low"\<close>\<close>
  vr_clientRequestId :: string

datatype capability_arguments =
  CanvasReadArguments string "string list" bool
| ApplyOpsArguments string int string "canvas_operation list"
| AssetsReadArguments string "string list" int
| AssetsPublishArguments string string string string
| MediaArguments media_request
| VisionArguments vision_request
| SkillsArguments string int string

definition parse_canvas_read :: "json option \<Rightarrow> capability_arguments contract" where
  "parse_canvas_read value =
     and_then (exactObject [''canvasId'', ''selectedNodeIds'', ''includeViewport''] value) (\<lambda>source.
     and_then (capabilityIdentifier (map_of source ''canvasId'')) (\<lambda>canvasId.
     and_then (capabilityIdentifierList 100 True (map_of source ''selectedNodeIds'')) (\<lambda>ids.
     and_then (flag_value (map_of source ''includeViewport'')) (\<lambda>viewport.
       returns (CanvasReadArguments canvasId ids viewport)))))"

definition parse_apply_ops :: "json option \<Rightarrow> capability_arguments contract" where
  "parse_apply_ops value =
     and_then (exactObject [''canvasId'', ''baseRevision'', ''clientMutationId'', ''operations''] value) (\<lambda>source.
     and_then (array_value (map_of source ''operations'')) (\<lambda>raw.
     if length raw < 1 \<or> length raw > 100 then throws BadCount
     else
       and_then (map_result (\<lambda>v. parseCanvasOperation (Some v)) raw) (\<lambda>operations.
       if length (js_set_of (map operationId operations)) \<noteq> length operations then throws DuplicateIdentifier
       else
         and_then (capabilityIdentifier (map_of source ''canvasId'')) (\<lambda>canvasId.
         and_then (integer_value True (map_of source ''baseRevision'')) (\<lambda>revision.
         and_then (capabilityIdentifier (map_of source ''clientMutationId'')) (\<lambda>mutation.
           returns (ApplyOpsArguments canvasId revision mutation operations)))))))"

definition parse_assets_read :: "url_parser \<Rightarrow> json option \<Rightarrow> capability_arguments contract" where
  "parse_assets_read parse_url value =
     and_then (exactObject [''domainProjectId'', ''resourceIds'', ''limit''] value) (\<lambda>source.
     and_then (integer_value False (map_of source ''limit'')) (\<lambda>limit.
     if limit > 100 then throws OutOfRange
     else
       and_then (capabilityIdentifier (map_of source ''domainProjectId'')) (\<lambda>project.
       and_then (capabilityResourceIdentifierList parse_url 100 True (map_of source ''resourceIds'')) (\<lambda>ids.
         returns (AssetsReadArguments project ids limit)))))"

definition parse_assets_publish :: "url_parser \<Rightarrow> json option \<Rightarrow> capability_arguments contract" where
  "parse_assets_publish parse_url value =
     and_then (exactObject [''resourceId'', ''domainProjectId'', ''displayName'', ''clientMutationId''] value) (\<lambda>source.
     and_then (capabilityResourceIdentifier parse_url (map_of source ''resourceId'')) (\<lambda>resource.
     and_then (capabilityIdentifier (map_of source ''domainProjectId'')) (\<lambda>project.
     and_then (boundedText 240 (map_of source ''displayName'')) (\<lambda>name.
     and_then (capabilityIdentifier (map_of source ''clientMutationId'')) (\<lambda>mutation.
       returns (AssetsPublishArguments resource project name mutation))))))"

definition media_kinds :: "(string \<times> media_kind) list" where
  "media_kinds = [(''image'', ImageMedia), (''video'', VideoMedia), (''audio'', AudioMedia)]"

definition parse_media_generate :: "url_parser \<Rightarrow> json option \<Rightarrow> capability_arguments contract" where
  "parse_media_generate parse_url value =
     and_then (exactObject [''mediaKind'', ''modelRecordId'', ''modelKey'', ''parameters'', ''sourceResourceIds'',
                 ''targetCanvasNodeId'', ''clientRequestId''] value) (\<lambda>source.
     and_then (case map_of source ''mediaKind'' of
                 Some (JStr s) \<Rightarrow> (case map_of media_kinds s of None \<Rightarrow> throws UnsupportedMedia | Some k \<Rightarrow> returns k)
               | _ \<Rightarrow> throws UnsupportedMedia) (\<lambda>kind.
     and_then (capabilityIdentifier (map_of source ''modelRecordId'')) (\<lambda>recordId.
     and_then (boundedText 120 (map_of source ''modelKey'')) (\<lambda>key.
     and_then (object_value (map_of source ''parameters'')) (\<lambda>parameters.
     and_then (capabilityResourceIdentifierList parse_url 100 True (map_of source ''sourceResourceIds'')) (\<lambda>ids.
     and_then (capabilityIdentifier (map_of source ''targetCanvasNodeId'')) (\<lambda>node.
     and_then (capabilityIdentifier (map_of source ''clientRequestId'')) (\<lambda>client.
       returns (MediaArguments \<lparr>mr_kind = kind, mr_modelRecordId = recordId, mr_modelKey = key,
         mr_parameters = parameters, mr_sourceResourceIds = ids, mr_targetCanvasNodeId = node,
         mr_clientRequestId = client\<rparr>)))))))))"

definition vision_detail :: "json option \<Rightarrow> bool contract" where
  "vision_detail v =
     (if v = Some (JStr ''low'') then returns False
      else if v = Some (JStr ''original'') then returns True
      else throws UnsupportedDetail)"

definition parse_vision :: "url_parser \<Rightarrow> json option \<Rightarrow> capability_arguments contract" where
  "parse_vision parse_url value =
     and_then (exactObject [''modelRecordId'', ''modelKey'', ''sourceResourceIds'', ''prompt'', ''detail'',
                 ''clientRequestId''] value) (\<lambda>source.
     and_then (vision_detail (map_of source ''detail'')) (\<lambda>original.
     and_then (capabilityIdentifier (map_of source ''modelRecordId'')) (\<lambda>recordId.
     and_then (boundedText 120 (map_of source ''modelKey'')) (\<lambda>key.
     and_then (capabilityResourceIdentifierList parse_url 12 False (map_of source ''sourceResourceIds'')) (\<lambda>ids.
     and_then (boundedText (64 * 1024) (map_of source ''prompt'')) (\<lambda>prompt.
     and_then (capabilityIdentifier (map_of source ''clientRequestId'')) (\<lambda>client.
       returns (VisionArguments \<lparr>vr_modelRecordId = recordId, vr_modelKey = key, vr_sourceResourceIds = ids,
         vr_prompt = prompt, vr_original = original, vr_clientRequestId = client\<rparr>))))))))"

definition parse_skills_load :: "json option \<Rightarrow> capability_arguments contract" where
  "parse_skills_load value =
     and_then (exactObject [''skillDir'', ''version'', ''checksum''] value) (\<lambda>source.
     and_then (text_value False (map_of source ''checksum'')) (\<lambda>checksum.
     if \<not> validCapabilityChecksum checksum then throws BadChecksum
     else
       and_then (boundedText 240 (map_of source ''skillDir'')) (\<lambda>dir.
       and_then (integer_value False (map_of source ''version'')) (\<lambda>version.
         returns (SkillsArguments dir version checksum)))))"

definition parseAgentCapabilityArguments ::
  "url_parser \<Rightarrow> string \<Rightarrow> json option \<Rightarrow> capability_arguments contract" where
  "parseAgentCapabilityArguments parse_url toolName value =
     (case map_of toolNames toolName of
        None \<Rightarrow> throws UnsupportedTool
      | Some CanvasReadTool \<Rightarrow> parse_canvas_read value
      | Some ApplyOpsTool \<Rightarrow> parse_apply_ops value
      | Some AssetsReadTool \<Rightarrow> parse_assets_read parse_url value
      | Some AssetsPublishTool \<Rightarrow> parse_assets_publish parse_url value
      | Some MediaGenerateTool \<Rightarrow> parse_media_generate parse_url value
      | Some VisionAnalyzeTool \<Rightarrow> parse_vision parse_url value
      | Some SkillsLoadTool \<Rightarrow> parse_skills_load value)"

subsection \<open>Results of tools\<close>

record vision_result =
  vs_taskId :: string
  vs_billingOrderId :: string
  vs_modelRecordId :: string
  vs_modelKey :: string
  vs_clientRequestId :: string
  vs_sourceResourceIds :: "string list"
  vs_original :: bool
  vs_analysis :: string
  vs_inputTokens :: int
  vs_cachedTokens :: int
  vs_outputTokens :: int

datatype capability_result = ObjectResult properties | VisionResult vision_result

definition parse_vision_result :: "url_parser \<Rightarrow> json option \<Rightarrow> capability_result contract" where
  "parse_vision_result parse_url value =
     and_then (exactObject [''taskId'', ''billingOrderId'', ''modelRecordId'', ''modelKey'', ''clientRequestId'',
                 ''sourceResourceIds'', ''detail'', ''analysis'', ''usage''] value) (\<lambda>source.
     and_then (vision_detail (map_of source ''detail'')) (\<lambda>original.
     and_then (exactObject [''inputTokens'', ''cachedTokens'', ''outputTokens''] (map_of source ''usage'')) (\<lambda>usage.
     and_then (integer_value True (map_of usage ''inputTokens'')) (\<lambda>input.
     and_then (integer_value True (map_of usage ''cachedTokens'')) (\<lambda>cached.
     and_then (integer_value True (map_of usage ''outputTokens'')) (\<lambda>output.
     if cached > input then throws BadUsage
     else
       and_then (capabilityIdentifier (map_of source ''taskId'')) (\<lambda>taskId.
       and_then (capabilityIdentifier (map_of source ''billingOrderId'')) (\<lambda>orderId.
       and_then (capabilityIdentifier (map_of source ''modelRecordId'')) (\<lambda>recordId.
       and_then (boundedText 120 (map_of source ''modelKey'')) (\<lambda>key.
       and_then (capabilityIdentifier (map_of source ''clientRequestId'')) (\<lambda>client.
       and_then (capabilityResourceIdentifierList parse_url 12 False (map_of source ''sourceResourceIds'')) (\<lambda>ids.
       and_then (boundedText (64 * 1024) (map_of source ''analysis'')) (\<lambda>analysis.
         returns (VisionResult \<lparr>vs_taskId = taskId, vs_billingOrderId = orderId, vs_modelRecordId = recordId,
           vs_modelKey = key, vs_clientRequestId = client, vs_sourceResourceIds = ids, vs_original = original,
           vs_analysis = analysis, vs_inputTokens = input, vs_cachedTokens = cached,
           vs_outputTokens = output\<rparr>))))))))))))))"

definition parseAgentCapabilityResult ::
  "url_parser \<Rightarrow> string \<Rightarrow> json option \<Rightarrow> capability_result contract" where
  "parseAgentCapabilityResult parse_url toolName value =
     (case map_of toolNames toolName of
        None \<Rightarrow> throws UnsupportedTool
      | Some VisionAnalyzeTool \<Rightarrow> parse_vision_result parse_url value
      | Some _ \<Rightarrow> and_then (object_value value) (\<lambda>ps. returns (ObjectResult ps)))"

section \<open>What is accepted\<close>

text \<open>
  A reader that answers only valid values, and answers every valid value when it reads the object
  the code builds for it. The contract is stated once; every reader is an instance.
\<close>

locale codec =
  fixes read :: "json option \<Rightarrow> ('e, 'a) result"
    and print :: "'a \<Rightarrow> json"
    and valid :: "'a \<Rightarrow> bool"
  assumes read_valid: "read v = Inr a \<Longrightarrow> valid a"
    and read_print: "valid a \<Longrightarrow> read (Some (print a)) = Inr a"
begin

lemma accepted_iff: "(\<exists>v. read v = Inr a) \<longleftrightarrow> valid a"
  using read_valid read_print by blast

lemma reread: "read v = Inr a \<Longrightarrow> read (Some (print a)) = Inr a"
  by (blast intro: read_print read_valid)

lemma read_list_valid: "map_result (\<lambda>v. read (Some v)) vs = Inr as \<Longrightarrow> list_all valid as"
  by (fastforce simp: map_result_Inr_iff list_all2_conv_all_nth list_all_length dest: read_valid)

lemma read_list_print: "list_all valid as \<Longrightarrow> map_result (\<lambda>v. read (Some v)) (map print as) = Inr as"
  by (auto simp: map_result_Inr_iff list_all2_conv_all_nth list_all_length read_print)

lemma optional_valid: "optional_value read v = Inr r \<Longrightarrow> pred_option valid r"
  by (auto simp: optional_value_def and_then_Inr_iff split: option.splits dest: read_valid)

lemma optional_print: "pred_option valid r \<Longrightarrow> optional_value read (map_option print r) = Inr r"
  by (cases r) (simp_all add: optional_value_def read_print)

end

lemma guarded_Inr [simp]: "(if c then Inl e else r) = Inr y \<longleftrightarrow> \<not> c \<and> r = Inr y"
  by simp

lemma lookup_Inr: "(case r of None \<Rightarrow> Inl e | Some x \<Rightarrow> Inr x) = Inr y \<longleftrightarrow> r = Some y"
  by (cases r) auto

lemma exactObject_Inr: "exactObject allowed v = Inr ps \<Longrightarrow> v = Some (JObj ps)"
  by (cases v rule: object_value.cases)
    (auto simp: exactObject_def split: option.splits list.splits)

lemma object_value_Inr: "object_value v = Inr ps \<longleftrightarrow> v = Some (JObj ps)"
  by (cases v rule: object_value.cases) auto

lemma array_value_Inr: "array_value v = Inr xs \<longleftrightarrow> v = Some (JArr xs)"
  by (cases v rule: array_value.cases) auto

lemma flag_value_Inr: "flag_value v = Inr b \<longleftrightarrow> v = Some (JBool b)"
  by (cases v rule: flag_value.cases) auto

lemma text_value_Inr: "text_value e v = Inr s \<longleftrightarrow> v = Some (JStr s) \<and> (e \<or> js_trim s \<noteq> [])"
  by (cases "(e, v)" rule: text_value.cases) auto

definition text_within :: "nat \<Rightarrow> string \<Rightarrow> bool" where
  "text_within n s \<longleftrightarrow> js_trim s \<noteq> [] \<and> length s \<le> n"

lemma boundedText_Inr: "boundedText n v = Inr s \<longleftrightarrow> v = Some (JStr s) \<and> text_within n s"
  by (auto simp: boundedText_def boundedTextOr_def text_within_def and_then_Inr_iff text_value_Inr)

definition integer_valid :: "bool \<Rightarrow> int \<Rightarrow> bool" where
  "integer_valid allowZero n \<longleftrightarrow> safe_integer n \<and> (if allowZero then 0 else 1) \<le> n"

lemma integer_value_Inr:
  "integer_value z v = Inr n \<longleftrightarrow> v = Some (JNum (of_int n)) \<and> integer_valid z n"
  by (cases "(z, v)" rule: integer_value.cases) (auto simp: whole_def integer_valid_def)

definition identifier_valid :: "string \<Rightarrow> bool" where
  "identifier_valid s \<longleftrightarrow> s \<noteq> [] \<and> length s \<le> 120 \<and> list_all identifier_char s"

lemma identifier_valid_iff:
  "identifier_valid s \<longleftrightarrow> text_within 120 s \<and> list_all identifier_char s"
  by (cases s)
    (auto simp: identifier_valid_def text_within_def js_trim_eq_Nil_iff identifier_char_def)

lemma capabilityIdentifier_Inr:
  "capabilityIdentifier v = Inr s \<longleftrightarrow> v = Some (JStr s) \<and> identifier_valid s"
  by (auto simp: capabilityIdentifier_def and_then_Inr_iff boundedText_Inr identifier_valid_iff
      list_ex_iff list_all_iff)

definition resource_valid :: "url_parser \<Rightarrow> string \<Rightarrow> bool" where
  "resource_valid parse_url s \<longleftrightarrow> identifier_valid s \<and> \<not> is_absolute_url parse_url s"

lemma capabilityResourceIdentifier_Inr:
  "capabilityResourceIdentifier u v = Inr s \<longleftrightarrow> v = Some (JStr s) \<and> resource_valid u s"
  by (auto simp: capabilityResourceIdentifier_def and_then_Inr_iff capabilityIdentifier_Inr resource_valid_def)

interpretation ident: codec capabilityIdentifier JStr identifier_valid
  by unfold_locales (auto simp: capabilityIdentifier_Inr)

interpretation resource: codec "capabilityResourceIdentifier u" JStr "resource_valid u" for u
  by unfold_locales (auto simp: capabilityResourceIdentifier_Inr)

lemma identifier_list_Inr:
  assumes "\<And>w x. read w = Inr x \<longleftrightarrow> w = Some (JStr x) \<and> ok x"
  shows "identifier_list read limit e v = Inr ids \<longleftrightarrow>
    v = Some (JArr (map JStr ids)) \<and> length ids \<le> limit \<and> (e \<or> ids \<noteq> []) \<and> list_all ok ids \<and> distinct ids"
proof -
  have r: "map_result (\<lambda>v. read (Some v)) vs = Inr ids \<longleftrightarrow> vs = map JStr ids \<and> list_all ok ids" for vs
    by (induction ids arbitrary: vs)
      (auto simp: map_result_Inr_iff assms list_all2_Cons2)
  show ?thesis
    by (auto simp: identifier_list_def and_then_Inr_iff array_value_Inr r length_js_set_of_iff)
qed

definition ids_valid :: "(string \<Rightarrow> bool) \<Rightarrow> nat \<Rightarrow> bool \<Rightarrow> string list \<Rightarrow> bool" where
  "ids_valid ok limit allowEmpty ids \<longleftrightarrow>
     length ids \<le> limit \<and> (allowEmpty \<or> ids \<noteq> []) \<and> list_all ok ids \<and> distinct ids"

lemma capabilityIdentifierList_Inr:
  "capabilityIdentifierList n e v = Inr ids \<longleftrightarrow>
     v = Some (JArr (map JStr ids)) \<and> ids_valid identifier_valid n e ids"
  by (auto simp: capabilityIdentifierList_def ids_valid_def
      identifier_list_Inr [where read = capabilityIdentifier, OF capabilityIdentifier_Inr])

lemma capabilityResourceIdentifierList_Inr:
  "capabilityResourceIdentifierList u n e v = Inr ids \<longleftrightarrow>
     v = Some (JArr (map JStr ids)) \<and> ids_valid (resource_valid u) n e ids"
  by (auto simp: capabilityResourceIdentifierList_def ids_valid_def
      identifier_list_Inr [where read = "capabilityResourceIdentifier u", OF capabilityResourceIdentifier_Inr])

lemma capabilityNumber_Inr: "capabilityNumber v = Inr q \<longleftrightarrow> v = Some (JNum q)"
  by (cases v rule: capabilityNumber.cases) auto

lemma ranged_Inr: "ranged l h v = Inr q \<longleftrightarrow> v = Some (JNum q) \<and> l \<le> q \<and> q \<le> h"
  by (auto simp: ranged_def and_then_Inr_iff capabilityNumber_Inr not_less)

lemma type_table:
  "map_of canvas_node_types s = Some t \<Longrightarrow> text_within 64 s"
  by (auto simp: canvas_node_types_def text_within_def js_trim_eq_Nil_iff js_space_def split: if_splits)

definition type_name :: "canvas_node_type \<Rightarrow> string" where
  "type_name t = the (map_of (map prod.swap canvas_node_types) t)"

lemma type_name_iff: "map_of canvas_node_types s = Some t \<longleftrightarrow> s = type_name t"
  by (cases t) (auto simp: canvas_node_types_def type_name_def split: if_splits)

lemma capabilityCanvasNodeType_Inr:
  "capabilityCanvasNodeType v = Inr t \<longleftrightarrow> v = Some (JStr (type_name t))"
  using type_table [of "type_name t" t]
  by (auto simp: capabilityCanvasNodeType_def and_then_Inr_iff boundedText_Inr lookup_Inr type_name_iff)

subsection \<open>Accepted operations\<close>

definition point_json :: "rat \<times> rat \<Rightarrow> json" where
  "point_json p = JObj [(''x'', JNum (fst p)), (''y'', JNum (snd p))]"

definition viewport_json :: "rat \<times> rat \<times> rat \<Rightarrow> json" where
  "viewport_json p =
     JObj [(''x'', JNum (fst p)), (''y'', JNum (fst (snd p))), (''zoom'', JNum (snd (snd p)))]"

definition opt_field :: "string \<Rightarrow> ('a \<Rightarrow> json) \<Rightarrow> 'a option \<Rightarrow> properties" where
  "opt_field k f r = (case r of None \<Rightarrow> [] | Some x \<Rightarrow> [(k, f x)])"

text \<open>The object literals \<^verbatim>\<open>parseCanvasOperation\<close> returns.\<close>

fun operation_json :: "canvas_operation \<Rightarrow> json" where
  "operation_json (AddNode i n) =
     JObj [(''operationId'', JStr i), (''type'', JStr ''add_node''),
       (''node'', JObj ([(''id'', JStr (on_id n)), (''type'', JStr (type_name (on_type n))),
          (''title'', JStr (on_title n)), (''position'', point_json (on_position n)),
          (''width'', JNum (on_width n)), (''height'', JNum (on_height n))]
          @ opt_field ''metadata'' JObj (on_metadata n)))]"
| "operation_json (UpdateNode i n patch) =
     JObj [(''operationId'', JStr i), (''type'', JStr ''update_node''), (''nodeId'', JStr n),
       (''patch'', JObj patch)]"
| "operation_json (DeleteNode i n) =
     JObj [(''operationId'', JStr i), (''type'', JStr ''delete_node''), (''nodeId'', JStr n)]"
| "operation_json (ConnectNodes i c) =
     JObj [(''operationId'', JStr i), (''type'', JStr ''connect_nodes''),
       (''connection'', JObj ([(''id'', JStr (oc_id c)), (''fromNodeId'', JStr (oc_fromNodeId c)),
          (''toNodeId'', JStr (oc_toNodeId c))]
          @ opt_field ''fromHandleId'' JStr (oc_fromHandleId c)
          @ opt_field ''toHandleId'' JStr (oc_toHandleId c)))]"
| "operation_json (DeleteConnections i cs) =
     JObj [(''operationId'', JStr i), (''type'', JStr ''delete_connections''),
       (''connectionIds'', JArr (map JStr cs))]"
| "operation_json (SetViewport i v) =
     JObj [(''operationId'', JStr i), (''type'', JStr ''set_viewport''), (''viewport'', viewport_json v)]"
| "operation_json (SelectNodes i ns) =
     JObj [(''operationId'', JStr i), (''type'', JStr ''select_nodes''), (''nodeIds'', JArr (map JStr ns))]"

definition status_names :: "string list" where
  "status_names = [''idle'', ''success'', ''loading'', ''error'']"

definition metadata_valid :: "properties \<Rightarrow> bool" where
  "metadata_valid ps \<longleftrightarrow>
     map_of ps ''status'' \<in> set (None # map (\<lambda>s. Some (JStr s)) status_names)"

definition patch_valid :: "properties \<Rightarrow> bool" where
  "patch_valid ps \<longleftrightarrow> ps \<noteq> [] \<and>
     (case map_of ps ''type'' of
        None \<Rightarrow> True | Some (JStr t) \<Rightarrow> map_of canvas_node_types t \<noteq> None | _ \<Rightarrow> False) \<and>
     (case map_of ps ''metadata'' of None \<Rightarrow> True | Some (JObj m) \<Rightarrow> metadata_valid m | _ \<Rightarrow> False)"

definition coordinate_valid :: "rat \<Rightarrow> bool" where
  "coordinate_valid q \<longleftrightarrow> - 1000000 \<le> q \<and> q \<le> 1000000"

definition dimension_valid :: "rat \<Rightarrow> bool" where
  "dimension_valid q \<longleftrightarrow> 1 \<le> q \<and> q \<le> 20000"

fun operation_valid :: "canvas_operation \<Rightarrow> bool" where
  "operation_valid (AddNode i n) \<longleftrightarrow> identifier_valid i \<and> identifier_valid (on_id n) \<and>
     text_within 240 (on_title n) \<and> coordinate_valid (fst (on_position n)) \<and>
     coordinate_valid (snd (on_position n)) \<and> dimension_valid (on_width n) \<and>
     dimension_valid (on_height n) \<and> pred_option metadata_valid (on_metadata n)"
| "operation_valid (UpdateNode i n patch) \<longleftrightarrow> identifier_valid i \<and> identifier_valid n \<and> patch_valid patch"
| "operation_valid (DeleteNode i n) \<longleftrightarrow> identifier_valid i \<and> identifier_valid n"
| "operation_valid (ConnectNodes i c) \<longleftrightarrow> identifier_valid i \<and> identifier_valid (oc_id c) \<and>
     identifier_valid (oc_fromNodeId c) \<and> identifier_valid (oc_toNodeId c) \<and>
     oc_fromNodeId c \<noteq> oc_toNodeId c \<and> pred_option identifier_valid (oc_fromHandleId c) \<and>
     pred_option identifier_valid (oc_toHandleId c)"
| "operation_valid (DeleteConnections i cs) \<longleftrightarrow>
     identifier_valid i \<and> ids_valid identifier_valid 100 False cs"
| "operation_valid (SetViewport i v) \<longleftrightarrow> identifier_valid i \<and> coordinate_valid (fst v) \<and>
     coordinate_valid (fst (snd v)) \<and> 1 / 100 \<le> snd (snd v) \<and> snd (snd v) \<le> 16"
| "operation_valid (SelectNodes i ns) \<longleftrightarrow> identifier_valid i \<and> ids_valid identifier_valid 100 True ns"

lemma capabilityCoordinate_Inr:
  "capabilityCoordinate v = Inr q \<longleftrightarrow> v = Some (JNum q) \<and> coordinate_valid q"
  by (auto simp: capabilityCoordinate_def ranged_Inr coordinate_valid_def)

lemma capabilityDimension_Inr:
  "capabilityDimension v = Inr q \<longleftrightarrow> v = Some (JNum q) \<and> dimension_valid q"
  by (auto simp: capabilityDimension_def ranged_Inr dimension_valid_def)

declare integer_value.simps [simp del]

lemmas reader_simps = capabilityIdentifier_Inr capabilityResourceIdentifier_Inr
  capabilityIdentifierList_Inr capabilityResourceIdentifierList_Inr boundedText_Inr integer_value_Inr
  flag_value_Inr object_value_Inr array_value_Inr text_value_Inr capabilityCanvasNodeType_Inr
  capabilityCoordinate_Inr capabilityDimension_Inr ranged_Inr

lemma exactObject_known [simp]:
  "set (map fst ps) \<subseteq> set allowed \<Longrightarrow> exactObject allowed (Some (JObj ps)) = Inr ps"
proof -
  assume "set (map fst ps) \<subseteq> set allowed"
  then have "List.find (\<lambda>k. k \<notin> set allowed) (map fst ps) = None"
    unfolding find_None_iff by blast
  then show ?thesis by (simp add: exactObject_def)
qed

lemma status_read:
  "capabilityCanvasNodeStatus v = Inr s \<longleftrightarrow> v = Some (JStr s) \<and> s \<in> set status_names"
  by (auto simp: capabilityCanvasNodeStatus_def and_then_Inr_iff boundedText_Inr status_names_def
      text_within_def js_trim_eq_Nil_iff js_space_def)

lemma metadata_read: "capabilityCanvasNodeMetadata v = Inr ps \<longleftrightarrow> v = Some (JObj ps) \<and> metadata_valid ps"
  by (auto simp: capabilityCanvasNodeMetadata_def and_then_Inr_iff object_value_Inr optional_value_def
      status_read metadata_valid_def split: option.splits)

interpretation metadata: codec capabilityCanvasNodeMetadata JObj metadata_valid
  by unfold_locales (auto simp: metadata_read)

lemma point_valid:
  "capabilityPoint v = Inr p \<Longrightarrow> coordinate_valid (fst p) \<and> coordinate_valid (snd p)"
  by (auto simp: capabilityPoint_def and_then_Inr_iff reader_simps)

lemma point_print:
  "coordinate_valid (fst p) \<Longrightarrow> coordinate_valid (snd p) \<Longrightarrow> capabilityPoint (Some (point_json p)) = Inr p"
  by (auto simp: capabilityPoint_def point_json_def and_then_Inr_iff reader_simps)

lemma viewport_valid: "capabilityViewport v = Inr p \<Longrightarrow>
    coordinate_valid (fst p) \<and> coordinate_valid (fst (snd p)) \<and> 1 / 100 \<le> snd (snd p) \<and> snd (snd p) \<le> 16"
  by (auto simp: capabilityViewport_def and_then_Inr_iff reader_simps)

lemma viewport_print:
  "\<lbrakk>coordinate_valid (fst p); coordinate_valid (fst (snd p)); 1 / 100 \<le> snd (snd p); snd (snd p) \<le> 16\<rbrakk>
   \<Longrightarrow> capabilityViewport (Some (viewport_json p)) = Inr p"
  by (auto simp: capabilityViewport_def viewport_json_def and_then_Inr_iff reader_simps)

lemma add_node_valid: "parse_add_node v = Inr a \<Longrightarrow> operation_valid a"
  by (auto simp: parse_add_node_def and_then_Inr_iff reader_simps
      dest!: point_valid metadata.optional_valid)

lemma update_patch:
  "optional_value capabilityCanvasNodeType (map_of ps ''type'') = Inr r \<Longrightarrow>
   optional_value capabilityCanvasNodeMetadata (map_of ps ''metadata'') = Inr r' \<Longrightarrow>
   ps \<noteq> [] \<Longrightarrow> patch_valid ps"
  by (auto simp: patch_valid_def optional_value_def and_then_Inr_iff reader_simps metadata_read
      type_name_iff split: option.splits)

lemma update_node_valid: "parse_update_node v = Inr a \<Longrightarrow> operation_valid a"
  by (auto simp: parse_update_node_def and_then_Inr_iff reader_simps dest: update_patch)

lemma connect_nodes_valid: "parse_connect_nodes v = Inr a \<Longrightarrow> operation_valid a"
  by (auto simp: parse_connect_nodes_def and_then_Inr_iff reader_simps dest!: ident.optional_valid)

lemma other_operations_valid:
  "parse_delete_node v = Inr a \<Longrightarrow> operation_valid a"
  "parse_delete_connections v = Inr a \<Longrightarrow> operation_valid a"
  "parse_set_viewport v = Inr a \<Longrightarrow> operation_valid a"
  "parse_select_nodes v = Inr a \<Longrightarrow> operation_valid a"
  by (auto simp: parse_delete_node_def parse_delete_connections_def parse_set_viewport_def
      parse_select_nodes_def and_then_Inr_iff reader_simps dest!: viewport_valid)

lemma if_elim: "\<lbrakk>(if c then p else q) = r; p = r \<Longrightarrow> P; q = r \<Longrightarrow> P\<rbrakk> \<Longrightarrow> P"
  by (cases c) auto

lemma parseCanvasOperation_valid:
  assumes "parseCanvasOperation v = Inr a"
  shows "operation_valid a"
proof -
  obtain header where h: "(case map_of header ''type'' of
      Some (JStr t) \<Rightarrow>
        if t = ''add_node'' then parse_add_node v
        else if t = ''update_node'' then parse_update_node v
        else if t = ''delete_node'' then parse_delete_node v
        else if t = ''connect_nodes'' then parse_connect_nodes v
        else if t = ''delete_connections'' then parse_delete_connections v
        else if t = ''set_viewport'' then parse_set_viewport v
        else if t = ''select_nodes'' then parse_select_nodes v
        else throws UnsupportedOperation
    | _ \<Rightarrow> throws UnsupportedOperation) = Inr a"
    using assms unfolding parseCanvasOperation_def and_then_Inr_iff by blast
  show ?thesis
  proof (cases "\<exists>t. map_of header ''type'' = Some (JStr t)")
    case True
    then obtain t where "map_of header ''type'' = Some (JStr t)" by blast
    from h [unfolded this option.case json.case] show ?thesis
      by (elim if_elim)
        (assumption | rule add_node_valid update_node_valid connect_nodes_valid other_operations_valid
          | simp)+
  next
    case False
    then show ?thesis using h by (auto split: option.splits json.splits)
  qed
qed

lemma map_of_opt_field [simp]:
  "map_of (opt_field k f r) k' = (if k' = k then map_option f r else None)"
  by (auto simp: opt_field_def split: option.splits)

lemma opt_field_keys [simp]: "fst ` set (opt_field k f r) \<subseteq> A \<longleftrightarrow> r = None \<or> k \<in> A"
  by (cases r) (auto simp: opt_field_def)

lemma identifier_print [simp]: "identifier_valid s \<Longrightarrow> capabilityIdentifier (Some (JStr s)) = Inr s"
  and resource_print [simp]: "resource_valid u s \<Longrightarrow> capabilityResourceIdentifier u (Some (JStr s)) = Inr s"
  and text_print [simp]: "text_within m s \<Longrightarrow> boundedText m (Some (JStr s)) = Inr s"
  and integer_print [simp]: "integer_valid z n \<Longrightarrow> integer_value z (Some (JNum (of_int n))) = Inr n"
  and type_print [simp]: "capabilityCanvasNodeType (Some (JStr (type_name t))) = Inr t"
  and dimension_print [simp]: "dimension_valid q \<Longrightarrow> capabilityDimension (Some (JNum q)) = Inr q"
  and ids_print [simp]: "ids_valid identifier_valid m e ids \<Longrightarrow>
    capabilityIdentifierList m e (Some (JArr (map JStr ids))) = Inr ids"
  and resources_print [simp]: "ids_valid (resource_valid u) m e ids \<Longrightarrow>
    capabilityResourceIdentifierList u m e (Some (JArr (map JStr ids))) = Inr ids"
  unfolding reader_simps by simp_all

lemmas optional_prints [simp] = ident.optional_print metadata.optional_print

lemma add_node_print:
  "operation_valid (AddNode i n) \<Longrightarrow> parse_add_node (Some (operation_json (AddNode i n))) = Inr (AddNode i n)"
  by (simp add: parse_add_node_def point_print map_add_def)

lemma update_node_print:
  "operation_valid (UpdateNode i n ps) \<Longrightarrow>
   parse_update_node (Some (operation_json (UpdateNode i n ps))) = Inr (UpdateNode i n ps)"
  by (auto simp: parse_update_node_def patch_valid_def optional_value_def type_name_iff metadata_read [THEN iffD2]
      split: option.splits json.splits)

lemma connect_nodes_print:
  "operation_valid (ConnectNodes i c) \<Longrightarrow>
   parse_connect_nodes (Some (operation_json (ConnectNodes i c))) = Inr (ConnectNodes i c)"
  by (cases "oc_fromHandleId c"; cases "oc_toHandleId c"; cases c) (simp_all add: parse_connect_nodes_def map_add_def)

lemma parseCanvasOperation_print:
  "operation_valid a \<Longrightarrow> parseCanvasOperation (Some (operation_json a)) = Inr a"
  using add_node_print update_node_print connect_nodes_print
  by (cases a)
    (simp_all add: parseCanvasOperation_def parse_delete_node_def parse_delete_connections_def
      parse_set_viewport_def parse_select_nodes_def viewport_print)

interpretation operation: codec parseCanvasOperation operation_json operation_valid
  by unfold_locales (rule parseCanvasOperation_valid parseCanvasOperation_print; assumption)+

subsection \<open>Accepted arguments\<close>

definition media_name :: "media_kind \<Rightarrow> string" where
  "media_name k = the (map_of (map prod.swap media_kinds) k)"

lemma media_name_iff: "map_of media_kinds s = Some k \<longleftrightarrow> s = media_name k"
  by (cases k) (auto simp: media_kinds_def media_name_def split: if_splits)

definition detail_json :: "bool \<Rightarrow> json" where
  "detail_json original = JStr (if original then ''original'' else ''low'')"

text \<open>The object literals \<^verbatim>\<open>parseAgentCapabilityArguments\<close> returns.\<close>

fun arguments_json :: "capability_arguments \<Rightarrow> json" where
  "arguments_json (CanvasReadArguments canvas ids viewport) =
     JObj [(''canvasId'', JStr canvas), (''selectedNodeIds'', JArr (map JStr ids)),
       (''includeViewport'', JBool viewport)]"
| "arguments_json (ApplyOpsArguments canvas revision mutation ops) =
     JObj [(''canvasId'', JStr canvas), (''baseRevision'', JNum (of_int revision)),
       (''clientMutationId'', JStr mutation), (''operations'', JArr (map operation_json ops))]"
| "arguments_json (AssetsReadArguments project ids limit) =
     JObj [(''domainProjectId'', JStr project), (''resourceIds'', JArr (map JStr ids)),
       (''limit'', JNum (of_int limit))]"
| "arguments_json (AssetsPublishArguments resource project name mutation) =
     JObj [(''resourceId'', JStr resource), (''domainProjectId'', JStr project),
       (''displayName'', JStr name), (''clientMutationId'', JStr mutation)]"
| "arguments_json (MediaArguments m) =
     JObj [(''mediaKind'', JStr (media_name (mr_kind m))), (''modelRecordId'', JStr (mr_modelRecordId m)),
       (''modelKey'', JStr (mr_modelKey m)), (''parameters'', JObj (mr_parameters m)),
       (''sourceResourceIds'', JArr (map JStr (mr_sourceResourceIds m))),
       (''targetCanvasNodeId'', JStr (mr_targetCanvasNodeId m)),
       (''clientRequestId'', JStr (mr_clientRequestId m))]"
| "arguments_json (VisionArguments r) =
     JObj [(''modelRecordId'', JStr (vr_modelRecordId r)), (''modelKey'', JStr (vr_modelKey r)),
       (''sourceResourceIds'', JArr (map JStr (vr_sourceResourceIds r))), (''prompt'', JStr (vr_prompt r)),
       (''detail'', detail_json (vr_original r)), (''clientRequestId'', JStr (vr_clientRequestId r))]"
| "arguments_json (SkillsArguments dir version digest) =
     JObj [(''skillDir'', JStr dir), (''version'', JNum (of_int version)), (''checksum'', JStr digest)]"

fun arguments_tool :: "capability_arguments \<Rightarrow> string" where
  "arguments_tool (CanvasReadArguments canvas ids viewport) = ''canvas.read''"
| "arguments_tool (ApplyOpsArguments canvas revision mutation ops) = ''canvas.apply_ops''"
| "arguments_tool (AssetsReadArguments project ids limit) = ''assets.read''"
| "arguments_tool (AssetsPublishArguments resource project name mutation) = ''assets.publish''"
| "arguments_tool (MediaArguments m) = ''media.generate''"
| "arguments_tool (VisionArguments r) = ''vision.analyze''"
| "arguments_tool (SkillsArguments dir version digest) = ''skills.load''"

fun arguments_valid :: "url_parser \<Rightarrow> capability_arguments \<Rightarrow> bool" where
  "arguments_valid u (CanvasReadArguments canvas ids viewport) \<longleftrightarrow>
     identifier_valid canvas \<and> ids_valid identifier_valid 100 True ids"
| "arguments_valid u (ApplyOpsArguments canvas revision mutation ops) \<longleftrightarrow>
     identifier_valid canvas \<and> integer_valid True revision \<and> identifier_valid mutation \<and>
     1 \<le> length ops \<and> length ops \<le> 100 \<and> list_all operation_valid ops \<and> distinct (map operationId ops)"
| "arguments_valid u (AssetsReadArguments project ids limit) \<longleftrightarrow>
     identifier_valid project \<and> ids_valid (resource_valid u) 100 True ids \<and> 1 \<le> limit \<and> limit \<le> 100"
| "arguments_valid u (AssetsPublishArguments resource project name mutation) \<longleftrightarrow>
     resource_valid u resource \<and> identifier_valid project \<and> text_within 240 name \<and>
     identifier_valid mutation"
| "arguments_valid u (MediaArguments m) \<longleftrightarrow>
     identifier_valid (mr_modelRecordId m) \<and> text_within 120 (mr_modelKey m) \<and>
     ids_valid (resource_valid u) 100 True (mr_sourceResourceIds m) \<and>
     identifier_valid (mr_targetCanvasNodeId m) \<and> identifier_valid (mr_clientRequestId m)"
| "arguments_valid u (VisionArguments r) \<longleftrightarrow>
     identifier_valid (vr_modelRecordId r) \<and> text_within 120 (vr_modelKey r) \<and>
     ids_valid (resource_valid u) 12 False (vr_sourceResourceIds r) \<and>
     text_within 65536 (vr_prompt r) \<and> identifier_valid (vr_clientRequestId r)"
| "arguments_valid u (SkillsArguments dir version digest) \<longleftrightarrow>
     text_within 240 dir \<and> integer_valid False version \<and> validCapabilityChecksum digest"

lemma vision_detail_Inr: "vision_detail v = Inr b \<longleftrightarrow> v = Some (detail_json b)"
  by (cases b) (auto simp: vision_detail_def detail_json_def)

lemma detail_print [simp]: "vision_detail (Some (detail_json b)) = Inr b"
  by (simp add: vision_detail_Inr)

lemma checksum_text: "validCapabilityChecksum s \<Longrightarrow> js_trim s \<noteq> []"
  by (cases s) (auto simp: validCapabilityChecksum_def js_trim_eq_Nil_iff js_space_def Let_def)

lemma canvas_read_valid: "parse_canvas_read v = Inr a \<Longrightarrow> arguments_valid u a \<and> arguments_tool a = ''canvas.read''"
  by (auto simp: parse_canvas_read_def and_then_Inr_iff reader_simps)

lemma operations_read:
  "map_result (\<lambda>v. parseCanvasOperation (Some v)) vs = Inr ops \<Longrightarrow>
   list_all operation_valid ops \<and> length vs = length ops"
  by (auto dest: operation.read_list_valid map_result_length)

lemma apply_ops_valid: "parse_apply_ops v = Inr a \<Longrightarrow> arguments_valid u a \<and> arguments_tool a = ''canvas.apply_ops''"
  by (auto simp: parse_apply_ops_def and_then_Inr_iff reader_simps Suc_le_eq
      length_js_set_of_iff [where xs = "map operationId _", simplified]
      dest!: operations_read)

lemma assets_read_valid: "parse_assets_read u v = Inr a \<Longrightarrow> arguments_valid u a \<and> arguments_tool a = ''assets.read''"
  by (auto simp: parse_assets_read_def and_then_Inr_iff reader_simps integer_valid_def)

lemma assets_publish_valid:
  "parse_assets_publish u v = Inr a \<Longrightarrow> arguments_valid u a \<and> arguments_tool a = ''assets.publish''"
  by (auto simp: parse_assets_publish_def and_then_Inr_iff reader_simps)

lemma media_generate_valid:
  "parse_media_generate u v = Inr a \<Longrightarrow> arguments_valid u a \<and> arguments_tool a = ''media.generate''"
  by (auto simp: parse_media_generate_def and_then_Inr_iff reader_simps)

lemma vision_valid: "parse_vision u v = Inr a \<Longrightarrow> arguments_valid u a \<and> arguments_tool a = ''vision.analyze''"
  by (auto simp: parse_vision_def and_then_Inr_iff reader_simps)

lemma skills_load_valid: "parse_skills_load v = Inr a \<Longrightarrow> arguments_valid u a \<and> arguments_tool a = ''skills.load''"
  by (auto simp: parse_skills_load_def and_then_Inr_iff reader_simps)

lemmas arguments_valid_rules = canvas_read_valid apply_ops_valid assets_read_valid assets_publish_valid
  media_generate_valid vision_valid skills_load_valid

definition tool_text :: "agent_tool \<Rightarrow> string" where
  "tool_text t = the (map_of (map prod.swap toolNames) t)"

lemma tool_text_iff: "map_of toolNames s = Some t \<longleftrightarrow> s = tool_text t"
  by (cases t) (auto simp: toolNames_def tool_text_def split: if_splits)

lemma parse_arguments_valid:
  "parseAgentCapabilityArguments u t v = Inr a \<Longrightarrow> arguments_tool a = t \<and> arguments_valid u a"
proof -
  assume p: "parseAgentCapabilityArguments u t v = Inr a"
  then obtain tool where t: "t = tool_text tool"
    by (auto simp: parseAgentCapabilityArguments_def tool_text_iff split: option.splits)
  then have "map_of toolNames t = Some tool" by (simp add: tool_text_iff)
  from p [unfolded parseAgentCapabilityArguments_def this option.case] show ?thesis
    by (cases tool) (auto simp: t tool_text_def toolNames_def dest!: arguments_valid_rules [where u = u])
qed

lemma parse_arguments_print:
  "arguments_valid u a \<Longrightarrow> parseAgentCapabilityArguments u (arguments_tool a) (Some (arguments_json a)) = Inr a"
proof (cases a)
  case (MediaArguments m)
  moreover assume "arguments_valid u a"
  ultimately show ?thesis
    using media_name_iff [of "media_name (mr_kind m)" "mr_kind m"]
    by (cases m) (simp add: parseAgentCapabilityArguments_def toolNames_def parse_media_generate_def)
next
  case (ApplyOpsArguments canvas revision mutation ops)
  moreover assume "arguments_valid u a"
  moreover from this have "ops \<noteq> []" using ApplyOpsArguments by auto
  ultimately show ?thesis
    by (simp add: parseAgentCapabilityArguments_def toolNames_def parse_apply_ops_def
        operation.read_list_print length_js_set_of_iff [where xs = "map operationId ops", simplified])
next
  case (AssetsReadArguments project ids limit)
  moreover assume "arguments_valid u a"
  moreover from this have "integer_valid False limit"
    using AssetsReadArguments by (simp add: integer_valid_def safe_integer_def)
  ultimately show ?thesis
    by (simp add: parseAgentCapabilityArguments_def toolNames_def parse_assets_read_def)
next
  case (SkillsArguments dir version digest)
  moreover assume "arguments_valid u a"
  ultimately show ?thesis
    by (simp add: parseAgentCapabilityArguments_def toolNames_def parse_skills_load_def checksum_text)
next
  case (VisionArguments r)
  moreover assume "arguments_valid u a"
  ultimately show ?thesis
    by (simp add: parseAgentCapabilityArguments_def toolNames_def parse_vision_def)
qed (simp_all add: parseAgentCapabilityArguments_def toolNames_def parse_canvas_read_def
    parse_assets_publish_def)

interpretation arguments: codec "parseAgentCapabilityArguments u t" arguments_json
  "\<lambda>a. arguments_tool a = t \<and> arguments_valid u a" for u t
  by unfold_locales (use parse_arguments_valid parse_arguments_print in blast)+


text \<open>
  What the parser of tool arguments returns is accepted again and read as the same arguments,
  so arguments validated once can be validated again on their way without change.
\<close>

lemma accepted_arguments_reread:
  assumes "parseAgentCapabilityArguments u tool v = returns a"
  shows "parseAgentCapabilityArguments u tool (Some (arguments_json a)) = returns a"
  using assms by (rule arguments.reread)

lemma accepted_arguments_reread_witness:
  "parseAgentCapabilityArguments (\<lambda>_. None) ''canvas.read'' (Some (arguments_json (CanvasReadArguments ''c1'' [''n1''] True))) =
   returns (CanvasReadArguments ''c1'' [''n1''] True)"
  by (rule accepted_arguments_reread [where v = "Some (JObj [(''canvasId'', JStr ''c1''),
        (''selectedNodeIds'', JArr [JStr ''n1'']), (''includeViewport'', JBool True)])"]) code_simp

text \<open>
  The test for unknown fields does not see an unknown field whose name is empty, and such a
  field hides every unknown field after it, so contracts that are meant to be exact let arbitrary
  further fields through.
\<close>

lemma empty_key_defeats_strictness:
  "let base = [(''canvasId'', JStr ''c1''), (''selectedNodeIds'', JArr []), (''includeViewport'', JBool True)]
   in parseAgentCapabilityArguments u ''canvas.read'' (Some (JObj (base @ ([], j) # extra))) =
        returns (CanvasReadArguments ''c1'' [] True) \<and>
      parseAgentCapabilityArguments u ''canvas.read'' (Some (JObj (base @ (''secret'', j) # extra))) =
        throws (UnknownField ''secret'')"
proof -
  have "identifier_valid ''c1''" by code_simp
  then show ?thesis
    using ids_print [of 100 True "[]"]
    by (simp add: parseAgentCapabilityArguments_def toolNames_def parse_canvas_read_def exactObject_def
        ids_valid_def)
qed

end
