(* ===== verification/WireEvents.thy ===== *)
theory WireEvents
  imports Capabilities AgentServer
begin

text \<open>
  What the browser reads from the local agent: \<^verbatim>\<open>web/src/services/local-agent/local-agent-contracts.ts\<close>
  and the delivery contract of \<^verbatim>\<open>web/src/services/api/agent-runtime.ts\<close>. Enumerated texts stay
  strings, as the code keeps them. \<^verbatim>\<open>Date.parse\<close> is the parameter \<open>is_date\<close>.
\<close>

datatype wire_error = Contract contract_error | BadInstant | BadKind | BadProtocol | BadFact | BadArtifact

type_synonym 'a wire = "(wire_error, 'a) result"

fun strict :: "'a contract \<Rightarrow> 'a wire" where
  "strict (Inl e) = throws (Contract e)"
| "strict (Inr x) = returns x"

lemma strict_Inr [simp]: "strict r = Inr x \<longleftrightarrow> r = Inr x"
  by (cases r) auto

subsection \<open>Delivery contracts\<close>

record wire_rule =
  wc_fact :: string
  wc_artifact :: "string option"

record wire_delivery =
  wd_kind :: string
  wd_completionCriteria :: "wire_rule list"
  wd_requiredArtifacts :: "string list option"
  wd_targetCanvasId :: "string option"

definition deliveryFacts :: "string list" where
  "deliveryFacts =
     [''final_message'', ''canvas_revision'', ''artifact'', ''artifact_revision'', ''resource'',
      ''task_backed_resource'', ''canvas_bound_resource'', ''publication'']"

definition artifactKinds :: "string list" where
  "artifactKinds = [''image'', ''video'', ''audio'', ''text'', ''canvas_revision'']"

definition wire_artifact :: "json option \<Rightarrow> string wire" where
  "wire_artifact value =
     and_then (strict (text_value False value)) (\<lambda>kind.
       if kind \<notin> set artifactKinds then throws BadArtifact else returns kind)"

definition wire_criterion :: "json option \<Rightarrow> wire_rule wire" where
  "wire_criterion value =
     and_then (strict (exactObject [''fact'', ''artifact''] value)) (\<lambda>source.
     and_then (strict (text_value False (map_of source ''fact''))) (\<lambda>f.
     if f \<notin> set deliveryFacts then throws BadFact
     else
       and_then (optional_value wire_artifact (map_of source ''artifact'')) (\<lambda>a.
         returns \<lparr>wc_fact = f, wc_artifact = a\<rparr>)))"

definition delivery_kinds :: "string list" where
  "delivery_kinds = [''answer'', ''canvas_change'', ''generated_asset'', ''mixed'']"

definition wire_required :: "json option \<Rightarrow> string list wire" where
  "wire_required value =
     and_then (strict (array_value value)) (\<lambda>required.
       if length required > 5 then throws (Contract BadCount)
       else map_result (\<lambda>v. wire_artifact (Some v)) required)"

definition parseAgentExpectedDelivery :: "json option \<Rightarrow> wire_delivery wire" where
  "parseAgentExpectedDelivery value =
     and_then (strict (exactObject [''kind'', ''requiredArtifacts'', ''targetCanvasId'', ''completionCriteria''] value)) (\<lambda>source.
     and_then (case map_of source ''kind'' of
                 Some (JStr k) \<Rightarrow> if k \<in> set delivery_kinds then returns k else throws BadKind
               | _ \<Rightarrow> throws BadKind) (\<lambda>kind.
     and_then (strict (array_value (map_of source ''completionCriteria''))) (\<lambda>raw.
     if length raw < 1 \<or> length raw > 20 then throws (Contract BadCount)
     else
       and_then (map_result (\<lambda>v. wire_criterion (Some v)) raw) (\<lambda>criteria.
       and_then (optional_value wire_required (map_of source ''requiredArtifacts'')) (\<lambda>required.
       and_then (optional_value (strict \<circ> text_value False) (map_of source ''targetCanvasId'')) (\<lambda>target.
         returns \<lparr>wd_kind = kind, wd_completionCriteria = criteria, wd_requiredArtifacts = required,
           wd_targetCanvasId = target\<rparr>))))))"

subsection \<open>Events\<close>

datatype wire_event =
  WireConnected
| WireThreadStarted string string
| WireTurnStarted string string
| WireTurnCancelled string string
| WireItem string string string properties \<comment> \<open>items and \<^verbatim>\<open>turn_completed\<close>, by kind\<close>
| WireTurnFailed string string string "properties option"
| WireToolCall string string string string properties wire_delivery string
| WireFinalDecision string string string wire_delivery

definition wire_text :: "json option \<Rightarrow> string wire" where
  "wire_text value = strict (text_value False value)"

definition parseInstant :: "(string \<Rightarrow> bool) \<Rightarrow> json option \<Rightarrow> string wire" where
  "parseInstant is_date value =
     and_then (wire_text value) (\<lambda>source.
       if \<not> is_date source \<or> \<not> (source \<noteq> [] \<and> last source = CHR ''Z'') then throws BadInstant
       else returns source)"

text \<open>The identity every event of a turn carries.\<close>

definition turn_fields :: "string list \<Rightarrow> json option \<Rightarrow> (properties \<times> string \<times> string) wire" where
  "turn_fields keys value =
     and_then (strict (exactObject ([''kind'', ''threadId'', ''turnId''] @ keys) value)) (\<lambda>source.
     and_then (wire_text (map_of source ''threadId'')) (\<lambda>t.
     and_then (wire_text (map_of source ''turnId'')) (\<lambda>u.
       returns (source, t, u))))"

definition item_kinds :: "string list" where
  "item_kinds = [''item_started'', ''item_updated'', ''item_completed'', ''turn_completed'']"

definition parse_tool_call :: "(string \<Rightarrow> bool) \<Rightarrow> json option \<Rightarrow> wire_event wire" where
  "parse_tool_call is_date value =
     and_then (strict (exactObject [''protocolVersion'', ''kind'', ''requestId'', ''threadId'', ''turnId'',
                 ''toolName'', ''arguments'', ''expectedDelivery'', ''createdAt''] value)) (\<lambda>source.
     if map_of source ''protocolVersion'' \<noteq> Some (JNum 1) then throws BadProtocol
     else if \<not> isAgentToolName (map_of source ''toolName'') then throws (Contract UnsupportedTool)
     else
       and_then (wire_text (map_of source ''requestId'')) (\<lambda>r.
       and_then (wire_text (map_of source ''threadId'')) (\<lambda>t.
       and_then (wire_text (map_of source ''turnId'')) (\<lambda>u.
       and_then (strict (object_value (map_of source ''arguments''))) (\<lambda>args.
       and_then (parseAgentExpectedDelivery (map_of source ''expectedDelivery'')) (\<lambda>d.
       and_then (parseInstant is_date (map_of source ''createdAt'')) (\<lambda>created.
         case map_of source ''toolName'' of
           Some (JStr name) \<Rightarrow> returns (WireToolCall r t u name args d created)
         | _ \<Rightarrow> throws (Contract UnsupportedTool))))))))"

definition parseLocalAgentEvent :: "(string \<Rightarrow> bool) \<Rightarrow> json option \<Rightarrow> wire_event wire" where
  "parseLocalAgentEvent is_date value =
     and_then (strict (object_value value)) (\<lambda>header.
       case map_of header ''kind'' of
         Some (JStr kind) \<Rightarrow>
           if kind = ''connected'' then
             and_then (strict (exactObject [''kind''] value)) (\<lambda>_. returns WireConnected)
           else if kind = ''thread_started'' then
             and_then (strict (exactObject [''kind'', ''threadId'', ''sdkThreadId''] value)) (\<lambda>source.
             and_then (wire_text (map_of source ''threadId'')) (\<lambda>t.
             and_then (wire_text (map_of source ''sdkThreadId'')) (\<lambda>sdk.
               returns (WireThreadStarted t sdk))))
           else if kind = ''turn_started'' then
             and_then (turn_fields [] value) (\<lambda>(_, t, u). returns (WireTurnStarted t u))
           else if kind = ''turn_cancelled'' then
             and_then (turn_fields [] value) (\<lambda>(_, t, u). returns (WireTurnCancelled t u))
           else if kind \<in> set item_kinds then
             and_then (turn_fields [''event''] value) (\<lambda>(source, t, u).
             and_then (strict (object_value (map_of source ''event''))) (\<lambda>ev.
               returns (WireItem kind t u ev)))
           else if kind = ''turn_failed'' then
             and_then (turn_fields [''message'', ''event''] value) (\<lambda>(source, t, u).
             and_then (wire_text (map_of source ''message'')) (\<lambda>m.
             and_then (optional_value (strict \<circ> object_value) (map_of source ''event'')) (\<lambda>ev.
               returns (WireTurnFailed t u m ev))))
           else if kind = ''tool_call'' then parse_tool_call is_date value
           else if kind = ''final_decision'' then
             and_then (turn_fields [''message'', ''expectedDelivery''] value) (\<lambda>(source, t, u).
             and_then (wire_text (map_of source ''message'')) (\<lambda>m.
             and_then (parseAgentExpectedDelivery (map_of source ''expectedDelivery'')) (\<lambda>d.
               returns (WireFinalDecision t u m d))))
           else throws BadKind
       | _ \<Rightarrow> throws BadKind)"

subsection \<open>Threads\<close>

definition parseLocalAgentStartResponse :: "json option \<Rightarrow> (string \<times> string) wire" where
  "parseLocalAgentStartResponse value =
     and_then (strict (exactObject [''threadId'', ''turnId''] value)) (\<lambda>source.
     and_then (wire_text (map_of source ''threadId'')) (\<lambda>t.
     and_then (wire_text (map_of source ''turnId'')) (\<lambda>u. returns (t, u))))"

record wire_turn =
  wt_turnId :: string
  wt_status :: string
  wt_message :: string
  wt_createdAt :: string
  wt_completedAt :: "string option"
  wt_errorMessage :: "string option"

record wire_thread =
  wh_threadId :: string
  wh_canvasId :: string
  wh_model :: string
  wh_createdAt :: string
  wh_updatedAt :: string
  wh_turns :: "wire_turn list"
  wh_archivedAt :: "string option"

definition turn_statuses :: "string list" where
  "turn_statuses = [''running'', ''completed'', ''failed'', ''cancelled'']"

definition parseLocalAgentThreadTurn :: "(string \<Rightarrow> bool) \<Rightarrow> json option \<Rightarrow> wire_turn wire" where
  "parseLocalAgentThreadTurn is_date value =
     and_then (strict (exactObject [''turnId'', ''status'', ''message'', ''attachments'', ''events'', ''createdAt'',
                 ''completedAt'', ''errorMessage''] value)) (\<lambda>source.
     and_then (case map_of source ''status'' of
                 Some (JStr s) \<Rightarrow> if s \<in> set turn_statuses then returns s else throws BadKind
               | _ \<Rightarrow> throws BadKind) (\<lambda>status.
     and_then (strict (array_value (map_of source ''attachments''))) (\<lambda>_.
     and_then (strict (array_value (map_of source ''events''))) (\<lambda>_.
     and_then (wire_text (map_of source ''turnId'')) (\<lambda>u.
     and_then (wire_text (map_of source ''message'')) (\<lambda>m.
     and_then (parseInstant is_date (map_of source ''createdAt'')) (\<lambda>created.
     and_then (optional_value (parseInstant is_date) (map_of source ''completedAt'')) (\<lambda>finished.
     and_then (optional_value wire_text (map_of source ''errorMessage'')) (\<lambda>error.
       returns \<lparr>wt_turnId = u, wt_status = status, wt_message = m, wt_createdAt = created,
         wt_completedAt = finished, wt_errorMessage = error\<rparr>)))))))))"

definition parseLocalAgentThread :: "(string \<Rightarrow> bool) \<Rightarrow> json option \<Rightarrow> wire_thread wire" where
  "parseLocalAgentThread is_date value =
     and_then (strict (exactObject [''threadId'', ''canvasId'', ''model'', ''createdAt'', ''updatedAt'',
                 ''archivedAt'', ''turns''] value)) (\<lambda>source.
     and_then (wire_text (map_of source ''threadId'')) (\<lambda>t.
     and_then (wire_text (map_of source ''canvasId'')) (\<lambda>c.
     and_then (wire_text (map_of source ''model'')) (\<lambda>model.
     and_then (parseInstant is_date (map_of source ''createdAt'')) (\<lambda>created.
     and_then (parseInstant is_date (map_of source ''updatedAt'')) (\<lambda>updated.
     and_then (strict (array_value (map_of source ''turns''))) (\<lambda>turns.
     and_then (map_result (\<lambda>v. parseLocalAgentThreadTurn is_date (Some v)) turns) (\<lambda>ts.
     and_then (optional_value (parseInstant is_date) (map_of source ''archivedAt'')) (\<lambda>archived.
       returns \<lparr>wh_threadId = t, wh_canvasId = c, wh_model = model, wh_createdAt = created,
         wh_updatedAt = updated, wh_turns = ts, wh_archivedAt = archived\<rparr>)))))))))"

definition parseLocalAgentThreadList :: "(string \<Rightarrow> bool) \<Rightarrow> json option \<Rightarrow> wire_thread list wire" where
  "parseLocalAgentThreadList is_date value =
     and_then (strict (exactObject [''threads''] value)) (\<lambda>source.
     and_then (strict (array_value (map_of source ''threads''))) (\<lambda>threads.
       map_result (\<lambda>v. parseLocalAgentThread is_date (Some v)) threads))"

section \<open>Reading what the agent writes\<close>

definition nonblank :: "string \<Rightarrow> bool" where
  "nonblank s \<longleftrightarrow> js_trim s \<noteq> []"

definition wire_criterion_of :: "criterion \<Rightarrow> wire_rule" where
  "wire_criterion_of c =
     \<lparr>wc_fact = fact_name (fact c), wc_artifact = map_option artifact_name (artifact c)\<rparr>"

definition wire_delivery_of :: "expected_delivery \<Rightarrow> wire_delivery" where
  "wire_delivery_of d =
     \<lparr>wd_kind = delivery_kind_name (delivery_kind d),
      wd_completionCriteria = map wire_criterion_of (completionCriteria d),
      wd_requiredArtifacts = map_option (map artifact_name) (requiredArtifacts d),
      wd_targetCanvasId = targetCanvasId d\<rparr>"

definition delivery_readable :: "expected_delivery \<Rightarrow> bool" where
  "delivery_readable d \<longleftrightarrow>
     1 \<le> length (completionCriteria d) \<and> length (completionCriteria d) \<le> 20 \<and>
     pred_option (\<lambda>as. length as \<le> 5) (requiredArtifacts d) \<and> pred_option nonblank (targetCanvasId d)"

lemma wire_text_Inr [simp]: "wire_text v = Inr s \<longleftrightarrow> v = Some (JStr s) \<and> nonblank s"
  by (auto simp: wire_text_def text_value_Inr nonblank_def)

lemma map_of_optional_prop [simp]:
  "map_of (optional_prop k f r) k' = (if k' = k then map_option f r else None)"
  by (cases r) auto

lemma optional_prop_keys [simp]: "fst ` set (optional_prop k f r) \<subseteq> A \<longleftrightarrow> r = None \<or> k \<in> A"
  by (cases r) auto

lemma artifact_name_text [simp]: "js_trim (artifact_name a) \<noteq> []" "artifact_name a \<in> set artifactKinds"
  by (cases a; simp add: js_trim_eq_Nil_iff js_space_def artifactKinds_def)+

lemma fact_name_text [simp]: "js_trim (fact_name f) \<noteq> []" "fact_name f \<in> set deliveryFacts"
  by (cases f; simp add: js_trim_eq_Nil_iff js_space_def deliveryFacts_def)+

lemma delivery_kind_name_text [simp]: "delivery_kind_name k \<in> set delivery_kinds"
  by (cases k) (simp_all add: delivery_kinds_def)

lemma wire_artifact_name [simp]: "wire_artifact (Some (JStr (artifact_name a))) = Inr (artifact_name a)"
  by (simp add: wire_artifact_def)

lemma wire_criterion_json [simp]:
  "wire_criterion (Some (criterion_json c)) = Inr (wire_criterion_of c)"
  by (cases "artifact c") (simp_all add: wire_criterion_def criterion_json_def wire_criterion_of_def)

lemma wire_criteria_json [simp]:
  "map_result (\<lambda>v. wire_criterion (Some v)) (map criterion_json cs) = Inr (map wire_criterion_of cs)"
  by (induction cs) simp_all

lemma wire_artifacts_json [simp]:
  "map_result (\<lambda>v. wire_artifact (Some v)) (map (JStr \<circ> artifact_name) as) = Inr (map artifact_name as)"
  by (induction as) simp_all

lemma wire_required_json:
  "optional_value wire_required (map_option (\<lambda>as. JArr (map (JStr \<circ> artifact_name) as)) r) = Inr w \<longleftrightarrow>
     pred_option (\<lambda>as. length as \<le> 5) r \<and> w = map_option (map artifact_name) r"
  by (cases r) (auto simp: wire_required_def)

lemma wire_target_json:
  "optional_value (strict \<circ> text_value False) (map_option JStr r) = Inr w \<longleftrightarrow> pred_option nonblank r \<and> w = r"
  by (cases r) (auto simp: nonblank_def)

lemma delivery_json_lookup:
  "exactObject [''kind'', ''requiredArtifacts'', ''targetCanvasId'', ''completionCriteria''] (Some (delivery_json d)) =
     Inr (case delivery_json d of JObj ps \<Rightarrow> ps)"
  "map_of (case delivery_json d of JObj ps \<Rightarrow> ps) ''kind'' = Some (JStr (delivery_kind_name (delivery_kind d)))"
  "map_of (case delivery_json d of JObj ps \<Rightarrow> ps) ''completionCriteria'' =
     Some (JArr (map criterion_json (completionCriteria d)))"
  "map_of (case delivery_json d of JObj ps \<Rightarrow> ps) ''requiredArtifacts'' =
     map_option (\<lambda>as. JArr (map (JStr \<circ> artifact_name) as)) (requiredArtifacts d)"
  "map_of (case delivery_json d of JObj ps \<Rightarrow> ps) ''targetCanvasId'' = map_option JStr (targetCanvasId d)"
  by (cases "requiredArtifacts d"; simp add: delivery_json_def)+

lemma wire_delivery_json:
  "parseAgentExpectedDelivery (Some (delivery_json d)) = Inr w \<longleftrightarrow>
     delivery_readable d \<and> w = wire_delivery_of d"
  unfolding parseAgentExpectedDelivery_def
  by (auto simp: delivery_json_lookup and_then_Inr_iff wire_required_json wire_target_json
      delivery_readable_def wire_delivery_of_def Suc_le_eq not_less)

text \<open>The event the browser should read of each event of a turn.\<close>

fun json_properties :: "json \<Rightarrow> properties" where
  "json_properties (JObj ps) = ps"
| "json_properties _ = []"

lemma thread_event_object [simp]: "thread_event_json e = JObj (json_properties (thread_event_json e))"
  by (cases e) simp_all

declare thread_event_object [simp del]

fun wire_event_of :: "codex_event \<Rightarrow> wire_event" where
  "wire_event_of (ThreadStarted t sdk) = WireThreadStarted t sdk"
| "wire_event_of (TurnStarted t u) = WireTurnStarted t u"
| "wire_event_of (ItemStarted t u e) = WireItem ''item_started'' t u (json_properties (thread_event_json e))"
| "wire_event_of (ItemUpdated t u e) = WireItem ''item_updated'' t u (json_properties (thread_event_json e))"
| "wire_event_of (ItemCompleted t u e) = WireItem ''item_completed'' t u (json_properties (thread_event_json e))"
| "wire_event_of (FinalDecision t u m d) = WireFinalDecision t u m (wire_delivery_of d)"
| "wire_event_of (TurnCompleted t u e) = WireItem ''turn_completed'' t u (json_properties (thread_event_json e))"
| "wire_event_of (TurnFailed t u m e) =
     WireTurnFailed t u m (map_option (json_properties \<circ> thread_event_json) e)"
| "wire_event_of (TurnCancelled t u) = WireTurnCancelled t u"

fun event_readable :: "codex_event \<Rightarrow> bool" where
  "event_readable (ThreadStarted t sdk) \<longleftrightarrow> nonblank t \<and> nonblank sdk"
| "event_readable (FinalDecision t u m d) \<longleftrightarrow> nonblank t \<and> nonblank u \<and> nonblank m \<and> delivery_readable d"
| "event_readable (TurnFailed t u m e) \<longleftrightarrow> nonblank t \<and> nonblank u \<and> nonblank m"
| "event_readable (TurnStarted t u) \<longleftrightarrow> nonblank t \<and> nonblank u"
| "event_readable (TurnCancelled t u) \<longleftrightarrow> nonblank t \<and> nonblank u"
| "event_readable (ItemStarted t u e) \<longleftrightarrow> nonblank t \<and> nonblank u"
| "event_readable (ItemUpdated t u e) \<longleftrightarrow> nonblank t \<and> nonblank u"
| "event_readable (ItemCompleted t u e) \<longleftrightarrow> nonblank t \<and> nonblank u"
| "event_readable (TurnCompleted t u e) \<longleftrightarrow> nonblank t \<and> nonblank u"

lemma turn_fields_json:
  assumes "fst ` set ps \<subseteq> {''turnId''} \<union> set keys" and "map_of ps ''turnId'' = Some (JStr u)"
  shows "turn_fields keys (Some (event_object kind t ps)) = Inr r \<longleftrightarrow>
     nonblank t \<and> nonblank u \<and> r = ((''kind'', JStr kind) # (''threadId'', JStr t) # ps, t, u)"
proof -
  let ?ps = "(''kind'', JStr kind) # (''threadId'', JStr t) # ps"
  have "exactObject ([''kind'', ''threadId'', ''turnId''] @ keys) (Some (JObj ?ps)) = Inr ?ps"
    using assms(1) by (intro exactObject_known) auto
  then show ?thesis
    using assms(2) by (cases r) (auto simp: turn_fields_def event_object_def and_then_Inr_iff)
qed

lemma object_event [simp]:
  "object_value (Some (thread_event_json e)) = Inr (json_properties (thread_event_json e))"
  by (subst thread_event_object) simp

lemma optional_event [simp]:
  "optional_value (strict \<circ> object_value) (map_option thread_event_json r) =
     Inr (map_option (json_properties \<circ> thread_event_json) r)"
  by (cases r) simp_all

lemma event_kind [simp]:
  "object_value (Some (event_object kind t ps)) = Inr ((''kind'', JStr kind) # (''threadId'', JStr t) # ps)"
  by (simp add: event_object_def)

lemma wire_event_json:
  "parseLocalAgentEvent is_date (Some (codex_event_json e)) = returns w \<longleftrightarrow>
     event_readable e \<and> w = wire_event_of e"
proof (cases e)
  case (ThreadStarted t sdk)
  then show ?thesis by (auto simp: parseLocalAgentEvent_def and_then_Inr_iff event_object_def)
next
  case (TurnFailed t u m ev)
  then show ?thesis
    by (auto simp: parseLocalAgentEvent_def and_then_Inr_iff turn_fields_json item_kinds_def)
next
  case (FinalDecision t u m d)
  then show ?thesis
    by (auto simp: parseLocalAgentEvent_def and_then_Inr_iff turn_fields_json item_kinds_def wire_delivery_json)
qed (auto simp: parseLocalAgentEvent_def and_then_Inr_iff turn_fields_json item_kinds_def)

text \<open>
  C7. The browser reads an event of a turn exactly if its texts are not blank and, for a final
  decision, the delivery contract fits the browser's bounds; it then reads what the agent wrote.
\<close>

theorem emitted_events_are_read:
  "parseLocalAgentEvent is_date (Some (codex_event_json e)) = returns w \<longleftrightarrow>
     event_readable e \<and> w = wire_event_of e"
  by (rule wire_event_json)

text \<open>
  A final decision whose message is a single blank satisfies the agent's contract, yet the
  browser does not accept the event that carries it, and the same holds of a turn that fails with
  an empty message.
\<close>

lemma blank_message_breaks_stream:
  "\<exists>answer d. parseFinalCodexDecision Some (\<lambda>_. Some answer) text = returns d \<and>
     (\<forall>w. parseLocalAgentEvent is_date (Some (codex_event_json (FinalDecision t u (decision_message d)
        (decision_expectedDelivery d)))) \<noteq> returns w) \<and>
     (\<forall>w. parseLocalAgentEvent is_date (Some (codex_event_json (TurnFailed t u [] e))) \<noteq> returns w)"
proof -
  let ?answer = "sample_answer\<lparr>f_message := '' ''\<rparr>"
  have v: "finalCodexDecision_valid ?answer"
    by (simp add: finalCodexDecision_valid_def sample_answer_def Contracts.bounded_text_def
        finalCompletionCriterion_valid_def)
  then obtain d where d: "parseFinalCodexDecision Some (\<lambda>_. Some ?answer) text = returns d"
    and m: "decision_message d = '' ''"
    by (simp add: parseFinalCodexDecision_def Let_def)
  have "\<not> nonblank '' ''" and "\<not> nonblank []"
    by (simp_all add: nonblank_def js_trim_eq_Nil_iff js_space_def)
  with d m show ?thesis
    by (intro exI [of _ ?answer] exI [of _ d]) (simp add: wire_event_json del: codex_event_json.simps)
qed

subsection \<open>Tool calls\<close>

definition tool_wire_name :: "tool_name \<Rightarrow> string" where
  "tool_wire_name t = the (map_of CANONICAL_TOOL_NAMES t)"

definition tool_call_json :: "properties tool_call_event \<Rightarrow> json" where
  "tool_call_json ev =
     JObj [(''protocolVersion'', JNum 1), (''kind'', JStr ''tool_call''), (''requestId'', JStr (ev_requestId ev)),
       (''threadId'', JStr (ev_threadId ev)), (''turnId'', JStr (ev_turnId ev)),
       (''toolName'', JStr (tool_wire_name (ev_toolName ev))), (''arguments'', JObj (ev_arguments ev)),
       (''expectedDelivery'', delivery_json (ev_expectedDelivery ev)), (''createdAt'', JStr (ev_createdAt ev))]"

definition instant_readable :: "(string \<Rightarrow> bool) \<Rightarrow> string \<Rightarrow> bool" where
  "instant_readable is_date s \<longleftrightarrow> nonblank s \<and> is_date s \<and> last s = CHR ''Z''"

lemma parseInstant_Inr [simp]:
  "parseInstant is_date v = Inr s \<longleftrightarrow> v = Some (JStr s) \<and> instant_readable is_date s"
  by (auto simp: parseInstant_def and_then_Inr_iff instant_readable_def nonblank_def)

lemma tool_wire_name_known [simp]: "isAgentToolName (Some (JStr (tool_wire_name t)))"
  by (cases t) (simp_all add: tool_wire_name_def CANONICAL_TOOL_NAMES_def toolNames_def)

text \<open>
  The browser knows every tool the agent can call, and reads a tool call the session emits
  exactly if its identities are not blank, its delivery contract fits the browser's bounds and its
  time is a date in UTC.
\<close>

lemma tool_calls_are_read:
  "parseLocalAgentEvent is_date (Some (tool_call_json ev)) = returns w \<longleftrightarrow>
     nonblank (ev_requestId ev) \<and> nonblank (ev_threadId ev) \<and> nonblank (ev_turnId ev) \<and>
     delivery_readable (ev_expectedDelivery ev) \<and> instant_readable is_date (ev_createdAt ev) \<and>
     w = WireToolCall (ev_requestId ev) (ev_threadId ev) (ev_turnId ev) (tool_wire_name (ev_toolName ev))
           (ev_arguments ev) (wire_delivery_of (ev_expectedDelivery ev)) (ev_createdAt ev)"
  by (auto simp: parseLocalAgentEvent_def item_kinds_def tool_call_json_def parse_tool_call_def
      and_then_Inr_iff wire_delivery_json simp del: isAgentToolName.simps)

subsection \<open>Threads\<close>

fun turn_status_name :: "turn_status \<Rightarrow> string" where
  "turn_status_name Running = ''running''"
| "turn_status_name TurnDone = ''completed''"
| "turn_status_name TurnError = ''failed''"
| "turn_status_name TurnStopped = ''cancelled''"

definition attachment_json :: "stored_attachment \<Rightarrow> json" where
  "attachment_json a =
     JObj [(''kind'', JStr (case sa_kind a of ImageAttachment \<Rightarrow> ''image'' | FileAttachment \<Rightarrow> ''file'')),
       (''name'', JStr (sa_name a)), (''mimeType'', JStr (sa_mimeType a))]"

definition turn_json :: "turn_record \<Rightarrow> json" where
  "turn_json t =
     JObj ([(''turnId'', JStr (tn_turnId t)), (''status'', JStr (turn_status_name (tn_status t))),
       (''message'', JStr (tn_message t)), (''attachments'', JArr (map attachment_json (tn_attachments t))),
       (''events'', JArr (map codex_event_json (tn_events t))), (''createdAt'', JStr (tn_createdAt t))]
       @ optional_prop ''completedAt'' JStr (tn_completedAt t)
       @ optional_prop ''errorMessage'' JStr (tn_errorMessage t))"

definition public_thread_json :: "public_thread \<Rightarrow> json" where
  "public_thread_json p =
     JObj ([(''threadId'', JStr (pub_threadId p)), (''canvasId'', JStr (pub_canvasId p)),
       (''model'', JStr (pub_model p)), (''createdAt'', JStr (pub_createdAt p)),
       (''updatedAt'', JStr (pub_updatedAt p))]
       @ optional_prop ''archivedAt'' JStr (pub_archivedAt p)
       @ [(''turns'', JArr (map turn_json (pub_turns p)))])"

definition wire_turn_of :: "turn_record \<Rightarrow> wire_turn" where
  "wire_turn_of t =
     \<lparr>wt_turnId = tn_turnId t, wt_status = turn_status_name (tn_status t), wt_message = tn_message t,
      wt_createdAt = tn_createdAt t, wt_completedAt = tn_completedAt t, wt_errorMessage = tn_errorMessage t\<rparr>"

definition wire_thread_of :: "public_thread \<Rightarrow> wire_thread" where
  "wire_thread_of p =
     \<lparr>wh_threadId = pub_threadId p, wh_canvasId = pub_canvasId p, wh_model = pub_model p,
      wh_createdAt = pub_createdAt p, wh_updatedAt = pub_updatedAt p,
      wh_turns = map wire_turn_of (pub_turns p), wh_archivedAt = pub_archivedAt p\<rparr>"

definition turn_readable :: "(string \<Rightarrow> bool) \<Rightarrow> turn_record \<Rightarrow> bool" where
  "turn_readable is_date t \<longleftrightarrow>
     nonblank (tn_turnId t) \<and> nonblank (tn_message t) \<and> instant_readable is_date (tn_createdAt t) \<and>
     pred_option (instant_readable is_date) (tn_completedAt t) \<and> pred_option nonblank (tn_errorMessage t)"

definition thread_readable :: "(string \<Rightarrow> bool) \<Rightarrow> public_thread \<Rightarrow> bool" where
  "thread_readable is_date p \<longleftrightarrow>
     nonblank (pub_threadId p) \<and> nonblank (pub_canvasId p) \<and> nonblank (pub_model p) \<and>
     instant_readable is_date (pub_createdAt p) \<and> instant_readable is_date (pub_updatedAt p) \<and>
     pred_option (instant_readable is_date) (pub_archivedAt p) \<and>
     list_all (turn_readable is_date) (pub_turns p)"

lemma turn_status_name_known [simp]: "turn_status_name s \<in> set turn_statuses"
  by (cases s) (simp_all add: turn_statuses_def)

lemma optional_instant [simp]:
  "optional_value (parseInstant is_date) (map_option JStr r) = Inr w \<longleftrightarrow>
     pred_option (instant_readable is_date) r \<and> w = r"
  by (cases r) (auto simp: and_then_Inr_iff)

lemma optional_text [simp]:
  "optional_value wire_text (map_option JStr r) = Inr w \<longleftrightarrow> pred_option nonblank r \<and> w = r"
  by (cases r) (auto simp: and_then_Inr_iff)

lemma turn_json_read:
  "parseLocalAgentThreadTurn is_date (Some (turn_json t)) = Inr w \<longleftrightarrow>
     turn_readable is_date t \<and> w = wire_turn_of t"
  by (cases "tn_completedAt t")
    (auto simp: parseLocalAgentThreadTurn_def turn_json_def and_then_Inr_iff turn_readable_def wire_turn_of_def)

lemma map_result_read:
  assumes "\<And>x y. read (print x) = Inr y \<longleftrightarrow> ok x \<and> y = value x"
  shows "map_result read (map print xs) = Inr ys \<longleftrightarrow> list_all ok xs \<and> ys = map value xs"
  unfolding map_result_Inr_iff
  by (induction xs arbitrary: ys) (auto simp: list_all2_Cons1 assms)

lemma turns_json_read [simp]:
  "map_result (\<lambda>v. parseLocalAgentThreadTurn is_date (Some v)) (map turn_json ts) = Inr ws \<longleftrightarrow>
     list_all (turn_readable is_date) ts \<and> ws = map wire_turn_of ts"
  by (rule map_result_read) (rule turn_json_read)

lemma thread_json_read:
  "parseLocalAgentThread is_date (Some (public_thread_json p)) = Inr w \<longleftrightarrow>
     thread_readable is_date p \<and> w = wire_thread_of p"
  by (cases "pub_archivedAt p")
    (auto simp: parseLocalAgentThread_def public_thread_json_def and_then_Inr_iff thread_readable_def
      wire_thread_of_def)

definition threads_json :: "thread_record list \<Rightarrow> json" where
  "threads_json rs = JObj [(''threads'', JArr (map (public_thread_json \<circ> toPublicThreadRecord) rs))]"

text \<open>
  The browser reads a list of threads of the agent exactly if every thread and every turn in it
  is readable: no blank text, every time in UTC. One unreadable turn hides the whole list.
\<close>

lemma thread_list_is_read:
  "parseLocalAgentThreadList is_date (Some (threads_json rs)) = returns ws \<longleftrightarrow>
     list_all (thread_readable is_date \<circ> toPublicThreadRecord) rs \<and>
     ws = map (wire_thread_of \<circ> toPublicThreadRecord) rs"
proof -
  have "map_result (\<lambda>v. parseLocalAgentThread is_date (Some v)) (map (public_thread_json \<circ> toPublicThreadRecord) rs)
      = Inr ws \<longleftrightarrow> list_all (thread_readable is_date \<circ> toPublicThreadRecord) rs \<and>
          ws = map (wire_thread_of \<circ> toPublicThreadRecord) rs"
    by (rule map_result_read) (simp add: thread_json_read)
  then show ?thesis
    by (simp add: parseLocalAgentThreadList_def threads_json_def)
qed

end
