(* ===== verification/LocalClient.thy ===== *)
theory LocalClient
  imports WireEvents "HOL-Library.Sublist"
begin

text \<open>
  The browser's side of the connection to the local agent: \<^verbatim>\<open>web/src/services/local-agent/local-agent-session.ts\<close>
  (the stored connection) and \<^verbatim>\<open>local-agent-client.ts\<close> (requests, the event stream). The network is an
  argument: a request is a value, an answer is its status and the JSON of its body, the event stream
  is the list of decoded texts the reader yields. \<^verbatim>\<open>JSON.parse\<close> and \<^verbatim>\<open>JSON.stringify\<close> are parameters.
\<close>

datatype client_error =
  AddressUnparsable | AddressNotLoopback | AddressWithoutPort
| TokenFormat | TokenTooWeak
| ConnectionInvalid | ConnectionUnknownField | ConnectionAddress | ConnectionNotJson

type_synonym 'a client = "(client_error, 'a) result"

record connection =
  cn_baseUrl :: string
  cn_token :: string

subsection \<open>The stored connection\<close>

definition validateLocalAgentBaseUrl :: "url_parser \<Rightarrow> string \<Rightarrow> string client" where
  "validateLocalAgentBaseUrl parse_url value =
     (case parse_url value of
        None \<Rightarrow> throws AddressUnparsable
      | Some u \<Rightarrow>
          if url_protocol u \<noteq> ''http:'' \<or> url_hostname u \<noteq> ''127.0.0.1'' \<or> url_username u \<noteq> [] \<or>
             url_password u \<noteq> [] \<or> url_search u \<noteq> [] \<or> url_hash u \<noteq> [] \<or> url_pathname u \<noteq> ''/''
          then throws AddressNotLoopback
          else if url_port u = None then throws AddressWithoutPort
          else returns (url_origin u))"

text \<open>The number of bytes of a base64url text of \<open>n\<close> characters.\<close>

definition client_bytes :: "nat \<Rightarrow> nat" where
  "client_bytes n =
     n div 4 * 3 + (if n mod 4 = 2 then 1 else if n mod 4 = 3 then 2 else 0)"

definition validateLocalAgentToken :: "string \<Rightarrow> string client" where
  "validateLocalAgentToken value =
     (if value = [] \<or> length value > 512 then throws TokenFormat
      else
        and_then
          (if list_all hex_char value \<and> length value mod 2 = 0 then returns (length value div 2)
           else if list_all base64url_char value then
             (if length value mod 4 = 1 then throws TokenFormat else returns (client_bytes (length value)))
           else throws TokenFormat)
          (\<lambda>byteLength. if byteLength < 32 then throws TokenTooWeak else returns value))"

definition parseConnection :: "url_parser \<Rightarrow> json \<Rightarrow> connection client" where
  "parseConnection parse_url value =
     (case value of
        JObj ps \<Rightarrow>
          if list_ex (\<lambda>k. k \<noteq> ''baseUrl'' \<and> k \<noteq> ''token'') (map fst ps) then throws ConnectionUnknownField
          else
            (case map_of ps ''baseUrl'' of
               Some (JStr baseUrl) \<Rightarrow>
                 (case map_of ps ''token'' of
                    Some (JStr token) \<Rightarrow>
                      and_then (validateLocalAgentBaseUrl parse_url baseUrl) (\<lambda>b.
                      and_then (validateLocalAgentToken token) (\<lambda>t.
                        returns \<lparr>cn_baseUrl = b, cn_token = t\<rparr>))
                  | _ \<Rightarrow> throws TokenFormat)
             | _ \<Rightarrow> throws ConnectionAddress)
      | _ \<Rightarrow> throws ConnectionInvalid)"

definition connection_json :: "connection \<Rightarrow> json" where
  "connection_json c = JObj [(''baseUrl'', JStr (cn_baseUrl c)), (''token'', JStr (cn_token c))]"

text \<open>The storage's entry under the session's key: \<open>None\<close> if there is none.\<close>

definition session_load ::
  "url_parser \<Rightarrow> (string \<Rightarrow> json option) \<Rightarrow> string option \<Rightarrow> connection option client" where
  "session_load parse_url json_parse entry =
     (case entry of
        None \<Rightarrow> returns None
      | Some encoded \<Rightarrow>
          if encoded = [] then returns None
          else
            (case json_parse encoded of
               None \<Rightarrow> throws ConnectionNotJson
             | Some v \<Rightarrow> and_then (parseConnection parse_url v) (\<lambda>c. returns (Some c))))"

definition session_save ::
  "url_parser \<Rightarrow> (json \<Rightarrow> string) \<Rightarrow> connection \<Rightarrow> string option \<Rightarrow> unit client \<times> string option" where
  "session_save parse_url stringify c entry =
     (case parseConnection parse_url (connection_json c) of
        Inl e \<Rightarrow> (throws e, entry)
      | Inr c' \<Rightarrow> (returns (), Some (stringify (connection_json c'))))"

definition session_clear :: "string option \<Rightarrow> string option" where
  "session_clear entry = None"

subsection \<open>The event stream\<close>

abbreviation newline :: char where
  "newline \<equiv> CHR 0x0A"

text \<open>\<^verbatim>\<open>indexOf\<close> of two line breaks, with what is before and what is behind them.\<close>

fun split_frame :: "string \<Rightarrow> (string \<times> string) option" where
  "split_frame (a # b # s) =
     (if a = newline \<and> b = newline then Some ([], s)
      else map_option (\<lambda>(f, r). (a # f, r)) (split_frame (b # s)))"
| "split_frame _ = None"

lemma split_frame_length: "split_frame s = Some (f, r) \<Longrightarrow> length r < length s"
  by (induction s arbitrary: f rule: split_frame.induct) (force split: if_splits)+

function frames :: "string \<Rightarrow> string list \<times> string" where
  "frames buffer =
     (case split_frame buffer of
        None \<Rightarrow> ([], buffer)
      | Some (frame, rest) \<Rightarrow> let (fs, tail) = frames rest in (frame # fs, tail))"
  by pat_completeness auto
termination by (relation "measure length") (auto dest: split_frame_length)

declare frames.simps [simp del]

definition frame_payload :: "string \<Rightarrow> string" where
  "frame_payload frame =
     js_join [newline]
       (map (\<lambda>line. dropWhile js_space (drop 5 line))
         (filter (\<lambda>line. js_starts_with line ''data:'') (split_on newline frame)))"

text \<open>
  \<open>read\<close> parses a payload and hands the event on; \<open>on_frames\<close> is the inner loop over the complete
  frames of the buffer, which ends at the first payload that is not an event.
\<close>

fun on_frames :: "(string \<Rightarrow> ('x, 'a) result) \<Rightarrow> string list \<Rightarrow> 'a list \<times> 'x option" where
  "on_frames read [] = ([], None)"
| "on_frames read (frame # fs) =
     (let payload = frame_payload frame
      in if payload = [] then on_frames read fs
         else
           (case read payload of
              Inl e \<Rightarrow> ([], Some e)
            | Inr a \<Rightarrow> (case on_frames read fs of (as, r) \<Rightarrow> (a # as, r))))"

datatype 'x stream_end = StreamClosed | StreamCut | StreamRefused 'x

fun streamEvents ::
  "(string \<Rightarrow> ('x, 'a) result) \<Rightarrow> string \<Rightarrow> string list \<Rightarrow> 'a list \<times> 'x stream_end" where
  "streamEvents read buffer [] = ([], if js_trim buffer \<noteq> [] then StreamCut else StreamClosed)"
| "streamEvents read buffer (chunk # chunks) =
     (let (fs, rest) = frames (buffer @ chunk)
      in case on_frames read fs of
           (as, Some e) \<Rightarrow> (as, StreamRefused e)
         | (as, None) \<Rightarrow> (case streamEvents read rest chunks of (bs, r) \<Rightarrow> (as @ bs, r)))"

lemma split_frame_append: "split_frame s = Some (f, r) \<Longrightarrow> split_frame (s @ t) = Some (f, r @ t)"
  by (induction s arbitrary: f rule: split_frame.induct) (auto split: if_splits)

lemma frames_append:
  "frames (s @ t) =
     (case frames s of (fs, rest) \<Rightarrow> (case frames (rest @ t) of (gs, rest') \<Rightarrow> (fs @ gs, rest')))"
proof (induction s rule: frames.induct)
  case (1 s)
  show ?case
  proof (cases "split_frame s")
    case None
    then show ?thesis by (simp add: frames.simps [of s] split: prod.splits)
  next
    case (Some fr)
    obtain f r where fr: "fr = (f, r)" by (cases fr)
    with Some have s: "split_frame s = Some (f, r)" by simp
    have "frames (s @ t) = (case frames (r @ t) of (fs, tail) \<Rightarrow> (f # fs, tail))"
      using split_frame_append [OF s] by (simp add: frames.simps [of "s @ t"])
    also have "\<dots> = (case frames s of (fs, rest) \<Rightarrow>
        (case frames (rest @ t) of (gs, rest') \<Rightarrow> (fs @ gs, rest')))"
      using 1 [OF s refl] by (simp add: frames.simps [of s] s split: prod.splits)
    finally show ?thesis .
  qed
qed

lemma on_frames_append:
  "on_frames read (fs @ gs) =
     (case on_frames read fs of
        (as, Some e) \<Rightarrow> (as, Some e)
      | (as, None) \<Rightarrow> (case on_frames read gs of (bs, r) \<Rightarrow> (as @ bs, r)))"
  by (induction fs) (auto simp: Let_def split: sum.splits prod.splits option.splits)

lemma frames_rest: "snd (frames (snd (frames s))) = snd (frames s) \<and> fst (frames (snd (frames s))) = []"
proof (induction s rule: frames.induct)
  case (1 s)
  show ?case
  proof (cases "split_frame s")
    case None
    then show ?thesis by (simp add: frames.simps [of s])
  next
    case (Some fr)
    obtain f r where fr: "fr = (f, r)" by (cases fr)
    with Some 1 [of "(f, r)" f r] show ?thesis
      by (cases "frames r") (simp add: frames.simps [of s])
  qed
qed

fun stream_outcome :: "(string \<Rightarrow> ('x, 'a) result) \<Rightarrow> string list \<times> string \<Rightarrow> 'a list \<times> 'x stream_end" where
  "stream_outcome read (fs, rest) =
     (case on_frames read fs of
        (as, Some e) \<Rightarrow> (as, StreamRefused e)
      | (as, None) \<Rightarrow> (as, if js_trim rest \<noteq> [] then StreamCut else StreamClosed))"

lemma streamEvents_frames:
  "frames buffer = ([], buffer) \<Longrightarrow>
   streamEvents read buffer chunks = stream_outcome read (frames (buffer @ concat chunks))"
proof (induction chunks arbitrary: buffer)
  case Nil
  then show ?case by simp
next
  case (Cons chunk chunks)
  obtain fs rest where fr: "frames (buffer @ chunk) = (fs, rest)" by (cases "frames (buffer @ chunk)")
  then have drained: "frames rest = ([], rest)"
    using frames_rest [of "buffer @ chunk"] by (simp add: prod_eq_iff)
  obtain gs tail where gr: "frames (rest @ concat chunks) = (gs, tail)" by (cases "frames (rest @ concat chunks)")
  have "frames (buffer @ concat (chunk # chunks)) = (fs @ gs, tail)"
    using frames_append [of "buffer @ chunk" "concat chunks"] fr gr by simp
  then show ?case
    using Cons.IH [OF drained] fr gr
    by (auto simp: on_frames_append split: prod.splits option.splits)
qed

lemma frames_Nil [simp]: "frames [] = ([], [])"
  by (simp add: frames.simps)

text \<open>
  What the page gets of the event stream does not depend on how the network cuts the text into
  pieces.
\<close>

lemma stream_ignores_chunking:
  "streamEvents read [] chunks = streamEvents read [] [concat chunks]"
proof -
  have "streamEvents read [] cs = stream_outcome read (frames (concat cs))" for cs
    using streamEvents_frames [of "[]" read cs] by simp
  from this [of chunks] this [of "[concat chunks]"] show ?thesis by simp
qed

subsection \<open>The stream the agent writes\<close>

definition heartbeat :: string where
  "heartbeat = '': heartbeat'' @ [newline, newline]"

definition written_stream :: "('e \<Rightarrow> string) \<Rightarrow> 'e option list \<Rightarrow> string" where
  "written_stream stringify items =
     concat (map (\<lambda>i. case i of None \<Rightarrow> heartbeat | Some e \<Rightarrow> formatSse stringify e) items)"

fun written_events :: "'e option list \<Rightarrow> 'e list" where
  "written_events [] = []"
| "written_events (None # is) = written_events is"
| "written_events (Some e # is) = e # written_events is"

text \<open>A JSON text: on one line, not empty, and without space before it.\<close>

definition one_line :: "string \<Rightarrow> bool" where
  "one_line s \<longleftrightarrow> newline \<notin> set s \<and> s \<noteq> [] \<and> \<not> js_space (hd s)"

lemma split_frame_line: "newline \<notin> set x \<Longrightarrow> split_frame (x @ [newline, newline] @ t) = Some (x, t)"
proof (induction x)
  case (Cons a x)
  then show ?case by (cases x) auto
qed simp

lemma split_on_absent: "d \<notin> set s \<Longrightarrow> split_on d s = [s]"
  by (induction s) auto

definition event_frame :: "string \<Rightarrow> string" where
  "event_frame p = ''data: '' @ p"

lemma payload_of_event: "one_line p \<Longrightarrow> frame_payload (event_frame p) = p"
proof -
  assume p: "one_line p"
  then have "split_on newline (event_frame p) = [event_frame p]"
    by (intro split_on_absent) (simp add: event_frame_def one_line_def)
  moreover have "js_starts_with (event_frame p) ''data:''" and "drop 5 (event_frame p) = CHR '' '' # p"
    by (simp_all add: event_frame_def js_starts_with_def)
  moreover have "dropWhile js_space (CHR '' '' # p) = p"
    using p by (cases p) (simp_all add: one_line_def js_space_def)
  ultimately show ?thesis by (simp add: frame_payload_def)
qed

lemma payload_of_heartbeat: "frame_payload '': heartbeat'' = []"
  by (simp add: frame_payload_def js_starts_with_def)

lemma frames_event:
  assumes "one_line p"
  shows "frames (event_frame p @ [newline, newline] @ t) = (case frames t of (fs, rest) \<Rightarrow> (event_frame p # fs, rest))"
proof -
  have "newline \<notin> set (event_frame p)" using assms by (simp add: event_frame_def one_line_def)
  from split_frame_line [OF this] show ?thesis by (simp add: frames.simps [of "event_frame p @ _"])
qed

lemma frames_heartbeat:
  "frames (heartbeat @ t) = (case frames t of (fs, rest) \<Rightarrow> ('': heartbeat'' # fs, rest))"
  using split_frame_line [of "'': heartbeat''" t]
  by (simp add: heartbeat_def frames.simps [of "CHR '':'' # _"])

lemma stream_outcome_written:
  assumes "\<forall>e \<in> set (written_events items). one_line (stringify e) \<and> read (stringify e) = Inr (value e)"
  shows "stream_outcome read (frames (written_stream stringify items @ rest)) =
    (case stream_outcome read (frames rest) of (as, r) \<Rightarrow> (map value (written_events items) @ as, r))"
  using assms
proof (induction items rule: written_events.induct)
  case 1
  then show ?case by (simp add: written_stream_def split: prod.splits)
next
  case (2 items)
  then show ?case
    by (cases "frames (written_stream stringify items @ rest)")
      (simp add: written_stream_def frames_heartbeat payload_of_heartbeat)
next
  case (3 e items)
  let ?tail = "written_stream stringify items @ rest"
  have w: "written_stream stringify (Some e # items) @ rest = event_frame (stringify e) @ [newline, newline] @ ?tail"
    by (simp add: written_stream_def formatSse_def event_frame_def)
  have e: "one_line (stringify e)" "read (stringify e) = Inr (value e)" using 3 by simp_all
  then have "stringify e \<noteq> []" by (simp add: one_line_def)
  with e have "on_frames read (event_frame (stringify e) # fs) = (case on_frames read fs of (as, r) \<Rightarrow> (value e # as, r))"
    for fs by (simp add: payload_of_event)
  then show ?case
    using 3 frames_event [OF e(1), of ?tail] unfolding w
    by (cases "frames ?tail"; cases "on_frames read (fst (frames ?tail))")
      (auto split: prod.splits option.splits)
qed

text \<open>
  C6. However the network cuts what the agent wrote into pieces, the page gets exactly the events the
  agent emitted, once each and in order; heartbeats between them are passed over, and a stream that
  ends between frames ends without error.
\<close>

theorem stream_delivers_what_was_emitted:
  assumes "concat chunks = written_stream stringify items"
    and "\<forall>e \<in> set (written_events items). one_line (stringify e) \<and> read (stringify e) = returns (value e)"
  shows "streamEvents read [] chunks = (map value (written_events items), StreamClosed)"
  using streamEvents_frames [of "[]" read chunks] stream_outcome_written [OF assms(2), of "[]"] assms(1)
  by simp

lemma sample_lines: "one_line ''{}''" "one_line ''[1]''"
  by code_simp+

lemma stream_delivers_what_was_emitted_witness:
  "streamEvents (\<lambda>s. returns (length s) :: (unit, nat) result) [] [''data: {}'' @ [newline], newline # '': heart'',
     ''beat'' @ [newline, newline] @ ''da'', ''ta: [1]'' @ [newline, newline]] = ([2, 3], StreamClosed)"
proof -
  have w: "concat [''data: {}'' @ [newline], newline # '': heart'', ''beat'' @ [newline, newline] @ ''da'',
      ''ta: [1]'' @ [newline, newline]] = written_stream id [Some ''{}'', None, Some ''[1]'']"
    by code_simp
  have r: "\<forall>e \<in> set (written_events [Some ''{}'', None, Some ''[1]'']).
      one_line (id e) \<and> (returns (length (id e)) :: (unit, nat) result) = returns (length e)"
    by (simp add: sample_lines)
  show ?thesis
    using stream_delivers_what_was_emitted [OF w r] by (simp only: written_events.simps list.map) simp
qed

text \<open>
  A stream that is cut inside a frame delivers the whole events before the cut and then ends in
  an error: a part of an event is never taken for an event.
\<close>

lemma cut_stream_is_noticed:
  assumes "concat chunks = written_stream stringify items @ part"
    and "\<forall>e \<in> set (written_events items). one_line (stringify e) \<and> read (stringify e) = returns (value e)"
    and "prefix part (formatSse stringify e)" and "part \<noteq> formatSse stringify e" and "part \<noteq> []"
    and "one_line (stringify e)"
  shows "streamEvents read [] chunks = (map value (written_events items), StreamCut)"
proof -
  obtain tail where t: "formatSse stringify e = part @ tail" using assms(3) by (auto simp: prefix_def)
  have ne: "tail \<noteq> []" using assms(4) t by auto
  have "\<not> (\<exists>f r. split_frame part = Some (f, r))"
  proof
    assume "\<exists>f r. split_frame part = Some (f, r)"
    then obtain f r where "split_frame part = Some (f, r)" by blast
    from split_frame_append [OF this, of tail] have "split_frame (formatSse stringify e) = Some (f, r @ tail)"
      by (simp add: t)
    moreover have "formatSse stringify e = event_frame (stringify e) @ [newline, newline] @ []"
      by (simp add: formatSse_def event_frame_def)
    moreover have "newline \<notin> set (event_frame (stringify e))"
      using assms(6) by (simp add: event_frame_def one_line_def)
    ultimately show False using split_frame_line [of "event_frame (stringify e)" "[]"] ne by simp
  qed
  then have "split_frame part = None" by (cases "split_frame part") auto
  then have f: "frames part = ([], part)" by (simp add: frames.simps [of part])
  have "hd part = CHR ''d''" using assms(5) t by (cases part) (auto simp: formatSse_def)
  then have "js_trim part \<noteq> []"
    using assms(5) by (cases part) (auto simp: js_trim_eq_Nil_iff js_space_def)
  then have "stream_outcome read (frames part) = ([], StreamCut)" by (simp add: f)
  then show ?thesis
    using streamEvents_frames [of "[]" read chunks] stream_outcome_written [OF assms(2), of part] assms(1)
    by simp
qed

lemma cut_stream_is_noticed_witness:
  "streamEvents (\<lambda>s. returns (length s) :: (unit, nat) result) [] [''data: {}'' @ [newline, newline], ''data: [1'']
   = ([2], StreamCut)"
proof -
  have c: "concat [''data: {}'' @ [newline, newline], ''data: [1''] = written_stream id [Some ''{}''] @ ''data: [1''"
    by code_simp
  have r: "\<forall>e \<in> set (written_events [Some ''{}'']).
      one_line (id e) \<and> (returns (length (id e)) :: (unit, nat) result) = returns (length e)"
    by (simp add: sample_lines)
  have p: "prefix ''data: [1'' (formatSse id ''[1]'')" "''data: [1'' \<noteq> formatSse id ''[1]''" "one_line (id ''[1]'')"
    by (simp_all add: formatSse_def sample_lines)
  show ?thesis
    using cut_stream_is_noticed [OF c r p(1,2) _ p(3)] by (simp only: written_events.simps list.map) simp
qed

subsection \<open>Connections\<close>

lemma client_bytes: "n mod 4 \<noteq> 1 \<Longrightarrow> client_bytes n = n * 3 div 4"
proof -
  assume n: "n mod 4 \<noteq> 1"
  define q r where "q = n div 4" and "r = n mod 4"
  then have q: "n = 4 * q + r" and "r < 4" by simp_all
  then have r: "r = 0 \<or> r = 2 \<or> r = 3" using n r_def by auto
  have "n * 3 div 4 = (r * 3 + 4 * (q * 3)) div 4" by (simp add: q)
  also have "\<dots> = r * 3 div 4 + q * 3" by simp
  finally have "n * 3 div 4 = q * 3 + r * 3 div 4" by simp
  then show ?thesis
    using r unfolding client_bytes_def q_def [symmetric] r_def [symmetric] by auto
qed

lemma client_token_iff:
  "validateLocalAgentToken token = returns t \<longleftrightarrow>
     t = token \<and> length token \<le> 512 \<and> assertTokenHasAtLeast256Bits token = returns ()"
proof -
  let ?hex = "list_all hex_char token \<and> length token mod 2 = 0"
  have b: "(if length token mod 4 = 1 then throws TokenFormat else returns (client_bytes (length token))) =
      (if length token mod 4 = 1 then throws TokenFormat else returns (length token * 3 div 4))"
    by (simp add: client_bytes)
  show ?thesis
    unfolding validateLocalAgentToken_def assertTokenHasAtLeast256Bits_def b
    by (cases ?hex; cases "list_all base64url_char token"; cases "length token mod 4 = 1"; cases "token = []")
      (simp_all add: and_then_Inr_iff, fastforce+)
qed

text \<open>
  The browser and the agent agree about tokens: the browser's check, with its own count of the
  decoded bytes, passes exactly the tokens of at most 512 characters that pass the agent's.
\<close>

lemma token_checks_agree:
  "validateLocalAgentToken token = returns t \<longleftrightarrow>
     t = token \<and> length token \<le> 512 \<and> assertTokenHasAtLeast256Bits token = returns ()"
  by (rule client_token_iff)

definition address_of :: "nat \<Rightarrow> string" where
  "address_of port = ''http://127.0.0.1:'' @ show_nat port"

text \<open>What the URL standard says of the parser: the origin of a loopback address, and that it is read back.\<close>

definition url_origins :: "url_parser \<Rightarrow> bool" where
  "url_origins parse_url \<longleftrightarrow>
     (\<forall>v u p. parse_url v = Some u \<longrightarrow> url_protocol u = ''http:'' \<longrightarrow> url_hostname u = ''127.0.0.1'' \<longrightarrow>
        url_port u = Some p \<longrightarrow> url_origin u = address_of p)"

lemma parse_connection_iff:
  "parseConnection parse_url (connection_json c) = returns d \<longleftrightarrow>
     validateLocalAgentBaseUrl parse_url (cn_baseUrl c) = returns (cn_baseUrl d) \<and>
     validateLocalAgentToken (cn_token c) = returns (cn_token d)"
  by (cases d) (auto simp: parseConnection_def connection_json_def and_then_Inr_iff)

lemma base_url_again:
  assumes "url_serialises parse_url" and "url_origins parse_url"
    and "validateLocalAgentBaseUrl parse_url v = returns b"
  shows "validateLocalAgentBaseUrl parse_url b = returns b"
proof -
  obtain u p where u: "parse_url v = Some u" "url_port u = Some p" "url_protocol u = ''http:''"
    "url_hostname u = ''127.0.0.1''" "url_username u = []" "url_password u = []" "url_search u = []"
    "url_hash u = []" "url_pathname u = ''/''" "b = url_origin u"
    using assms(3) by (auto simp: validateLocalAgentBaseUrl_def split: option.splits if_splits)
  have b: "b = ''http://127.0.0.1:'' @ show_nat p"
    using assms(2) u unfolding url_origins_def address_of_def by metis
  have "parse_url b = Some u"
    using assms(1) u unfolding b url_serialises_def by metis
  then show ?thesis using u by (simp add: validateLocalAgentBaseUrl_def)
qed

text \<open>
  A connection the page saved is the one it loads: saving stores the checked address and token,
  and loading accepts and returns exactly these. \<^verbatim>\<open>JSON.parse\<close> is only assumed to read back what
  \<^verbatim>\<open>JSON.stringify\<close> wrote.
\<close>

lemma saved_connection_loads:
  assumes "url_serialises parse_url" and "url_origins parse_url"
    and "session_save parse_url stringify c entry = (returns (), entry')"
    and "\<forall>d. parseConnection parse_url (connection_json c) = returns d \<longrightarrow>
           stringify (connection_json d) \<noteq> [] \<and>
           json_parse (stringify (connection_json d)) = Some (connection_json d)"
  shows "\<exists>d. session_load parse_url json_parse entry' = returns (Some d) \<and>
    validateLocalAgentBaseUrl parse_url (cn_baseUrl c) = returns (cn_baseUrl d) \<and> cn_token d = cn_token c"
proof -
  obtain d where d: "parseConnection parse_url (connection_json c) = returns d"
    and e: "entry' = Some (stringify (connection_json d))"
    using assms(3) by (auto simp: session_save_def split: sum.splits)
  have v: "validateLocalAgentBaseUrl parse_url (cn_baseUrl c) = returns (cn_baseUrl d)"
    "validateLocalAgentToken (cn_token c) = returns (cn_token d)"
    using d by (simp_all add: parse_connection_iff)
  then have "cn_token d = cn_token c" by (simp add: client_token_iff)
  moreover have "parseConnection parse_url (connection_json d) = returns d"
    using base_url_again [OF assms(1,2) v(1)] v(2) calculation by (simp add: parse_connection_iff)
  ultimately show ?thesis using assms(4) d e v by (auto simp: session_load_def)
qed

lemma sample_parser_origins: "url_origins sample_parser"
  unfolding url_origins_def
  by (auto simp: sample_parser_def sample_url_def show_17371 address_of_def split: if_splits)

lemma sample_token: "validateLocalAgentToken (replicate 64 (CHR ''a'')) = returns (replicate 64 (CHR ''a''))"
  by (simp add: client_token_iff accepted_token_iff hex_char_def list_all_iff)

lemma saved_connection_loads_witness:
  "\<exists>d. session_load sample_parser (\<lambda>_. Some (connection_json
      \<lparr>cn_baseUrl = ''http://127.0.0.1:17371'', cn_token = replicate 64 (CHR ''a'')\<rparr>)) (Some ''x'') = returns (Some d) \<and>
    cn_token d = replicate 64 (CHR ''a'')"
proof -
  let ?c = "\<lparr>cn_baseUrl = ''http://127.0.0.1:17371'', cn_token = replicate 64 (CHR ''a'')\<rparr>"
  have p: "parseConnection sample_parser (connection_json ?c) = returns d \<longleftrightarrow> d = ?c" for d
    unfolding parse_connection_iff
    by (cases d) (auto simp: sample_token validateLocalAgentBaseUrl_def sample_parser_def sample_url_def)
  then have "parseConnection sample_parser (connection_json ?c) = returns ?c" by blast
  then have s: "session_save sample_parser (\<lambda>_. ''x'') ?c None = (returns (), Some ''x'')"
    by (simp add: session_save_def)
  show ?thesis
    using saved_connection_loads [OF sample_parser_serialises sample_parser_origins s,
        where json_parse = "\<lambda>_. Some (connection_json ?c)"] p by auto
qed

subsection \<open>Requests\<close>

text \<open>
  A response is its status and the JSON of its body (\<open>None\<close>: not JSON). The requests that answer
  JSON and those that answer nothing differ in what they read of an accepted response.
\<close>

record response =
  rs_status :: nat
  rs_json :: "json option"

datatype request_error =
  RequestFailed nat string | UnparsableResponse nat | InvalidHealth | InvalidStream | InvalidAnswer wire_error

definition response_ok :: "response \<Rightarrow> bool" where
  "response_ok r \<longleftrightarrow> 200 \<le> rs_status r \<and> rs_status r \<le> 299"

definition readJson :: "response \<Rightarrow> (request_error, json) result" where
  "readJson r = (case rs_json r of None \<Rightarrow> throws (UnparsableResponse (rs_status r)) | Some v \<Rightarrow> returns v)"

definition parseRequestError :: "nat \<Rightarrow> json \<Rightarrow> request_error" where
  "parseRequestError status value =
     (case js_prop value ''error'' of
        Some e \<Rightarrow>
          (case js_prop e ''code'' of
             Some (JStr code) \<Rightarrow>
               if is_string (js_prop e ''message'') then RequestFailed status code
               else RequestFailed status ''local_agent_request_failed''
           | _ \<Rightarrow> RequestFailed status ''local_agent_request_failed'')
      | None \<Rightarrow> RequestFailed status ''local_agent_request_failed'')"

definition client_json :: "response \<Rightarrow> (request_error, json) result" where
  "client_json r =
     and_then (readJson r) (\<lambda>payload.
       if \<not> response_ok r then throws (parseRequestError (rs_status r) payload) else returns payload)"

definition client_void :: "response \<Rightarrow> (request_error, unit) result" where
  "client_void r =
     (if response_ok r then returns ()
      else and_then (readJson r) (\<lambda>payload. throws (parseRequestError (rs_status r) payload)))"

fun answered :: "'a wire \<Rightarrow> (request_error, 'a) result" where
  "answered (Inl e) = throws (InvalidAnswer e)"
| "answered (Inr x) = returns x"

definition client_health :: "response \<Rightarrow> (request_error, string) result" where
  "client_health r =
     and_then (client_json r) (\<lambda>payload.
       case js_prop payload ''version'' of
         Some (JStr version) \<Rightarrow>
           if js_prop payload ''protocolVersion'' \<noteq> Some (JNum 1) \<or> js_prop payload ''ready'' \<noteq> Some (JBool True)
           then throws InvalidHealth else returns version
       | _ \<Rightarrow> throws InvalidHealth)"

definition client_startTurn :: "response \<Rightarrow> (request_error, string \<times> string) result" where
  "client_startTurn r = and_then (client_json r) (\<lambda>v. answered (parseLocalAgentStartResponse (Some v)))"

definition client_listThreads :: "(string \<Rightarrow> bool) \<Rightarrow> response \<Rightarrow> (request_error, wire_thread list) result" where
  "client_listThreads is_date r =
     and_then (client_json r) (\<lambda>v. answered (parseLocalAgentThreadList is_date (Some v)))"

definition client_readThread :: "(string \<Rightarrow> bool) \<Rightarrow> response \<Rightarrow> (request_error, wire_thread) result" where
  "client_readThread is_date r =
     and_then (client_json r) (\<lambda>v. answered (parseLocalAgentThread is_date (Some v)))"

definition client_stream ::
  "(string \<Rightarrow> bool) \<Rightarrow> (string \<Rightarrow> json option) \<Rightarrow> response \<Rightarrow> string option \<Rightarrow> string list \<Rightarrow>
     (request_error, wire_event list \<times> wire_error option stream_end) result" where
  "client_stream is_date json_parse r contentType chunks =
     (if \<not> response_ok r then
        and_then (readJson r) (\<lambda>payload. throws (parseRequestError (rs_status r) payload))
      else
        case contentType of
          None \<Rightarrow> throws InvalidStream
        | Some t \<Rightarrow>
            if \<not> js_starts_with t ''text/event-stream'' then throws InvalidStream
            else returns (streamEvents
                   (\<lambda>payload. case json_parse payload of
                      None \<Rightarrow> throws None
                    | Some v \<Rightarrow> (case parseLocalAgentEvent is_date (Some v) of
                        Inl e \<Rightarrow> throws (Some e) | Inr x \<Rightarrow> returns x)) [] chunks))"

text \<open>The request of a client with a connection, as it reaches the agent's gate.\<close>

definition client_gate_request :: "connection \<Rightarrow> string \<Rightarrow> gate_request" where
  "client_gate_request c origin = \<lparr>rq_origin = Some origin, rq_token = Some (cn_token c), rq_query = NoQuery\<rparr>"

text \<open>The agent's answers, as the error handler writes them.\<close>

fun refusal_response :: "http_answer \<Rightarrow> string \<Rightarrow> response" where
  "refusal_response (HttpOk status) message = \<lparr>rs_status = status, rs_json = Some (JObj [])\<rparr>"
| "refusal_response (HttpRefused status code) message =
     \<lparr>rs_status = status,
      rs_json = Some (JObj [(''error'', JObj [(''code'', JStr code), (''message'', JStr message)])])\<rparr>"

lemma error_answer_status:
  "error_answer cause = HttpRefused status code \<Longrightarrow> (\<forall>s c. cause = HttpFailure s c \<longrightarrow> 400 \<le> s) \<Longrightarrow> 400 \<le> status"
  by (auto simp: error_answer_def split: handler_error.splits)

text \<open>
  Every refusal of the agent reaches the page's code as an error with the agent's status and code,
  whatever the request was to answer.
\<close>

lemma refusals_keep_their_code:
  assumes "\<forall>s c. cause = HttpFailure s c \<longrightarrow> 400 \<le> s" and "error_answer cause = HttpRefused status code"
  shows "client_json (refusal_response (error_answer cause) message) = throws (RequestFailed status code) \<and>
    client_void (refusal_response (error_answer cause) message) = throws (RequestFailed status code)"
  using error_answer_status [OF assms(2,1)]
  by (simp add: assms(2) client_json_def client_void_def readJson_def response_ok_def parseRequestError_def)

lemma refusals_keep_their_code_witness:
  "client_void (refusal_response (error_answer PayloadTooLarge) ''m'') = throws (RequestFailed 413 ''body_too_large'')"
  using refusals_keep_their_code [of PayloadTooLarge 413 "''body_too_large''" "''m''"]
  by (simp add: error_answer_def)

lemma loopback_accepted:
  "parseLoopbackURL parse_url v = returns b \<Longrightarrow> url_origins parse_url \<Longrightarrow>
   validateLocalAgentBaseUrl parse_url v = returns b"
  by (auto simp: parseLoopbackURL_def validateLocalAgentBaseUrl_def url_origins_def address_of_def
      split: option.splits if_splits)

lemma shape_bounds:
  "config_shape config = Some m \<Longrightarrow> cfg_url m = cfg_url config \<and> length (cfg_token config) \<le> 512"
  unfolding config_shape_def Let_def Contracts.bounded_text_def
  by (metis (no_types, lifting) agent_config.select_convs(1) agent_config.surjective
      agent_config.update_convs(5) option.distinct(1) option.inject)

text \<open>
  A page that is given the address and the token of an accepted configuration accepts both as they
  are, and from an allowed origin its requests pass the agent's gate on every route that needs it.
\<close>

lemma configured_page_is_admitted:
  assumes "parseLocalAgentConfig parse_url v = returns config"
    and "url_serialises parse_url" and "url_origins parse_url"
    and "origin \<in> set (allowedOrigins config)" and "origin \<noteq> []"
    and "route \<noteq> Health" and "route \<noteq> Preflight"
  shows "let c = \<lparr>cn_baseUrl = cfg_url config, cn_token = cfg_token config\<rparr>
    in parseConnection parse_url (connection_json c) = returns c \<and>
       gate config route (client_gate_request c origin) = None"
proof -
  have again: "parseLocalAgentConfig parse_url config = returns config"
    using parseLocalAgentConfig_Inr(5) [OF assms(1,2)] .
  then obtain m where m: "config_shape config = Some m" "parseLoopbackURL parse_url (cfg_url m) = returns (cfg_url config)"
    by (auto simp: parseLocalAgentConfig_def and_then_Inr_iff split: option.splits if_splits)
  have shape: "cfg_url m = cfg_url config \<and> length (cfg_token config) \<le> 512"
    by (rule shape_bounds [OF m(1)])
  have "validateLocalAgentBaseUrl parse_url (cfg_url config) = returns (cfg_url config)"
    using loopback_accepted [OF m(2) assms(3)] shape by simp
  moreover have "validateLocalAgentToken (cfg_token config) = returns (cfg_token config)"
    using shape parseLocalAgentConfig_Inr(2) [OF assms(1)] by (simp add: client_token_iff)
  moreover have "cfg_token config \<noteq> []"
    using parseLocalAgentConfig_Inr(2) [OF assms(1)] by (rule accepted_token_ne)
  moreover have "origin \<noteq> ''null''" using parseLocalAgentConfig_Inr(3) [OF assms(1)] assms(4) by auto
  ultimately show ?thesis
    using assms(4-7)
    by (cases route)
      (simp_all add: Let_def parse_connection_iff gate_defs client_gate_request_def
        internal_request_iff [THEN iffD2] protected_request_iff [THEN iffD2])
qed

lemma configured_page_is_admitted_witness:
  "gate (sample_config\<lparr>cfg_model := ''m''\<rparr>) CreateRoute (client_gate_request
     \<lparr>cn_baseUrl = ''http://127.0.0.1:17371'', cn_token = replicate 64 (CHR ''a'')\<rparr> ''https://a.b'') = None"
  using configured_page_is_admitted [OF sample_config_parses sample_parser_serialises sample_parser_origins,
      of "''https://a.b''" CreateRoute]
  by (simp add: sample_config_def Let_def)

end
