(* ===== verification/Clarification.thy ===== *)
theory Clarification
  imports WireEvents
begin

text \<open>
  Questions the agent asks back, \<^verbatim>\<open>web/src/services/api/agent-clarification.ts\<close>: what the browser
  accepts as a request with its answers. The parser of delivery contracts is a parameter here as it
  is in the code. The sets of identities seen so far are arguments of the loops that extend them.
\<close>

datatype clarification_error =
  Shape wire_error
| QuestionCount | DuplicateQuestion | QuestionType | FreeTextWithOptions | OptionCount | DuplicateOption
| UnknownQuestion | DuplicateAnswer | RepeatedSelection
| SkippedWithContent | FreeTextAnswer | UnknownOption | TooManySelected | CustomNotAllowed | EmptyAnswer
| HistoryRepeats | HistoryIncomplete | CompletionUnknown

type_synonym 'a clar = "(clarification_error, 'a) result"

fun shaped :: "'a wire \<Rightarrow> 'a clar" where
  "shaped (Inl e) = throws (Shape e)"
| "shaped (Inr x) = returns x"

lemma shaped_Inr [simp]: "shaped r = Inr x \<longleftrightarrow> r = Inr x"
  by (cases r) auto

abbreviation exact :: "string list \<Rightarrow> json option \<Rightarrow> properties clar" where
  "exact keys v \<equiv> shaped (strict (exactObject keys v))"

abbreviation bounded :: "nat \<Rightarrow> json option \<Rightarrow> string clar" where
  "bounded n v \<equiv> shaped (strict (boundedText n v))"

datatype question_type = SingleChoice | MultiChoice | FreeText

record clarification_option =
  co_id :: string
  co_label :: string

record clarification_question =
  cq_id :: string
  cq_prompt :: string
  cq_type :: question_type
  cq_options :: "clarification_option list"
  cq_allowCustom :: bool

record 'd clarification_request =
  cr_requestId :: string
  cr_questions :: "clarification_question list"
  cr_delivery :: 'd

record clarification_answer =
  ca_questionId :: string
  ca_selected :: "string list"
  ca_customText :: string
  ca_skipped :: bool

record 'd pending_clarification =
  pc_request :: "'d clarification_request"
  pc_answers :: "clarification_answer list"

record 'd completed_clarification =
  cc_request :: "'d clarification_request"
  cc_answers :: "clarification_answer list"
  cc_questionId :: string
  cc_stateVersion :: int

definition question_types :: "(string \<times> question_type) list" where
  "question_types =
     [(''single_choice'', SingleChoice), (''multi_choice'', MultiChoice), (''free_text'', FreeText)]"

definition clarificationQuestionType :: "json option \<Rightarrow> question_type clar" where
  "clarificationQuestionType value =
     (case value of
        Some (JStr s) \<Rightarrow> (case map_of question_types s of None \<Rightarrow> throws QuestionType | Some t \<Rightarrow> returns t)
      | _ \<Rightarrow> throws QuestionType)"

fun parse_options :: "string list \<Rightarrow> json list \<Rightarrow> clarification_option list clar" where
  "parse_options ids [] = returns []"
| "parse_options ids (item # items) =
     and_then (exact [''id'', ''label''] (Some item)) (\<lambda>source.
     and_then (bounded 120 (map_of source ''id'')) (\<lambda>i.
     if i \<in> set ids then throws DuplicateOption
     else
       and_then (bounded 80 (map_of source ''label'')) (\<lambda>l.
       and_then (parse_options (js_add ids i) items) (\<lambda>os.
         returns (\<lparr>co_id = i, co_label = l\<rparr> # os)))))"

definition parseClarificationOptions :: "json option \<Rightarrow> clarification_option list clar" where
  "parseClarificationOptions value =
     and_then (shaped (strict (array_value value))) (\<lambda>items. parse_options [] items)"

fun with_default :: "'a \<Rightarrow> 'a option clar \<Rightarrow> 'a clar" where
  "with_default d (Inl e) = throws e"
| "with_default d (Inr r) = returns (case r of None \<Rightarrow> d | Some x \<Rightarrow> x)"

fun parse_questions :: "string list \<Rightarrow> json list \<Rightarrow> clarification_question list clar" where
  "parse_questions ids [] = returns []"
| "parse_questions ids (item # items) =
     and_then (exact [''id'', ''prompt'', ''type'', ''options'', ''allowCustomAnswer''] (Some item)) (\<lambda>question.
     and_then (bounded 120 (map_of question ''id'')) (\<lambda>i.
     if i \<in> set ids then throws DuplicateQuestion
     else
       and_then (clarificationQuestionType (map_of question ''type'')) (\<lambda>t.
       and_then (with_default [] (optional_value parseClarificationOptions (map_of question ''options''))) (\<lambda>os.
       and_then (with_default False (optional_value (shaped \<circ> strict \<circ> flag_value) (map_of question ''allowCustomAnswer''))) (\<lambda>custom.
       if t = FreeText \<and> (length os \<noteq> 0 \<or> custom) then throws FreeTextWithOptions
       else if t \<noteq> FreeText \<and> (length os < 2 \<or> length os > 6) then throws OptionCount
       else
         and_then (bounded 240 (map_of question ''prompt'')) (\<lambda>p.
         and_then (parse_questions (js_add ids i) items) (\<lambda>qs.
           returns (\<lparr>cq_id = i, cq_prompt = p, cq_type = t, cq_options = os, cq_allowCustom = custom\<rparr> # qs))))))))"

definition parseClarificationRequest ::
  "(json option \<Rightarrow> 'd wire) \<Rightarrow> json option \<Rightarrow> 'd clarification_request clar" where
  "parseClarificationRequest parse_delivery value =
     and_then (exact [''requestId'', ''questions'', ''expectedDelivery''] value) (\<lambda>source.
     and_then (shaped (strict (array_value (map_of source ''questions'')))) (\<lambda>items.
     if length items < 1 \<or> length items > 3 then throws QuestionCount
     else
       and_then (parse_questions [] items) (\<lambda>qs.
       and_then (bounded 120 (map_of source ''requestId'')) (\<lambda>r.
       and_then (shaped (parse_delivery (map_of source ''expectedDelivery''))) (\<lambda>d.
         returns \<lparr>cr_requestId = r, cr_questions = qs, cr_delivery = d\<rparr>)))))"

definition validateClarificationAnswer ::
  "clarification_question \<Rightarrow> clarification_answer \<Rightarrow> unit clar" where
  "validateClarificationAnswer question answer =
     (if ca_skipped answer then
        if ca_selected answer \<noteq> [] \<or> ca_customText answer \<noteq> [] then throws SkippedWithContent else returns ()
      else if cq_type question = FreeText then
        if ca_selected answer \<noteq> [] \<or> js_trim (ca_customText answer) = [] then throws FreeTextAnswer
        else returns ()
      else if list_ex (\<lambda>i. i \<notin> set (map co_id (cq_options question))) (ca_selected answer)
      then throws UnknownOption
      else if cq_type question = SingleChoice \<and> length (ca_selected answer) > 1 then throws TooManySelected
      else if ca_customText answer \<noteq> [] \<and> \<not> cq_allowCustom question then throws CustomNotAllowed
      else if ca_selected answer = [] \<and> js_trim (ca_customText answer) = [] then throws EmptyAnswer
      else returns ())"

definition selected_ids :: "json option \<Rightarrow> string list clar" where
  "selected_ids value =
     and_then (shaped (strict (array_value value))) (\<lambda>items. map_result (\<lambda>v. bounded 120 (Some v)) items)"

fun parse_answers ::
  "clarification_question list \<Rightarrow> string list \<Rightarrow> json list \<Rightarrow> clarification_answer list clar" where
  "parse_answers questions ids [] = returns []"
| "parse_answers questions ids (item # items) =
     and_then (exact [''questionId'', ''selectedOptionIds'', ''customText'', ''skipped''] (Some item)) (\<lambda>source.
     and_then (bounded 120 (map_of source ''questionId'')) (\<lambda>i.
     case js_get (js_map_of (map (\<lambda>q. (cq_id q, q)) questions)) i of
       None \<Rightarrow> throws UnknownQuestion
     | Some question \<Rightarrow>
         if i \<in> set ids then throws DuplicateAnswer
         else
           and_then (with_default [] (optional_value selected_ids (map_of source ''selectedOptionIds''))) (\<lambda>sel.
           if length (js_set_of sel) \<noteq> length sel then throws RepeatedSelection
           else
             and_then (with_default [] (optional_value (shaped \<circ> strict \<circ> boundedTextOr True 1000)
                 (map_of source ''customText''))) (\<lambda>custom.
             and_then (shaped (strict (flag_value (map_of source ''skipped'')))) (\<lambda>skipped.
             let answer = \<lparr>ca_questionId = i, ca_selected = sel, ca_customText = custom, ca_skipped = skipped\<rparr>
             in and_then (validateClarificationAnswer question answer) (\<lambda>_.
                and_then (parse_answers questions (js_add ids i) items) (\<lambda>as.
                  returns (answer # as))))))))"

definition parseClarificationAnswers ::
  "'d clarification_request \<Rightarrow> json option \<Rightarrow> clarification_answer list clar" where
  "parseClarificationAnswers request value =
     and_then (shaped (strict (array_value value))) (\<lambda>items. parse_answers (cr_questions request) [] items)"

definition parsePendingClarification ::
  "(json option \<Rightarrow> 'd wire) \<Rightarrow> json option \<Rightarrow> 'd pending_clarification clar" where
  "parsePendingClarification parse_delivery value =
     and_then (exact [''request'', ''answers''] value) (\<lambda>source.
     and_then (parseClarificationRequest parse_delivery (map_of source ''request'')) (\<lambda>request.
     and_then (parseClarificationAnswers request (map_of source ''answers'')) (\<lambda>as.
       returns \<lparr>pc_request = request, pc_answers = as\<rparr>)))"

fun parse_history ::
  "(json option \<Rightarrow> 'd wire) \<Rightarrow> string list \<Rightarrow> json list \<Rightarrow> 'd completed_clarification list clar" where
  "parse_history parse_delivery requests [] = returns []"
| "parse_history parse_delivery requests (item # items) =
     and_then (exact [''request'', ''answers'', ''completionQuestionId'', ''completionExpectedStateVersion''] (Some item)) (\<lambda>source.
     and_then (parseClarificationRequest parse_delivery (map_of source ''request'')) (\<lambda>request.
     if cr_requestId request \<in> set requests then throws HistoryRepeats
     else
       and_then (parseClarificationAnswers request (map_of source ''answers'')) (\<lambda>as.
       if length as \<noteq> length (cr_questions request) then throws HistoryIncomplete
       else
         and_then (bounded 120 (map_of source ''completionQuestionId'')) (\<lambda>q.
         if \<not> list_ex (\<lambda>a. ca_questionId a = q) as then throws CompletionUnknown
         else
           and_then (shaped (strict (integer_value False (map_of source ''completionExpectedStateVersion'')))) (\<lambda>version.
           and_then (parse_history parse_delivery (js_add requests (cr_requestId request)) items) (\<lambda>cs.
             returns (\<lparr>cc_request = request, cc_answers = as, cc_questionId = q, cc_stateVersion = version\<rparr> # cs)))))))"

definition parseClarificationHistory ::
  "(json option \<Rightarrow> 'd wire) \<Rightarrow> json option \<Rightarrow> 'd completed_clarification list clar" where
  "parseClarificationHistory parse_delivery value =
     and_then (shaped (strict (array_value value))) (\<lambda>items. parse_history parse_delivery [] items)"

section \<open>What is accepted\<close>

definition option_ok :: "clarification_option \<Rightarrow> bool" where
  "option_ok o' \<longleftrightarrow> text_within 120 (co_id o') \<and> text_within 80 (co_label o')"

definition question_ok :: "clarification_question \<Rightarrow> bool" where
  "question_ok q \<longleftrightarrow>
     text_within 120 (cq_id q) \<and> text_within 240 (cq_prompt q) \<and>
     list_all option_ok (cq_options q) \<and> distinct (map co_id (cq_options q)) \<and>
     (if cq_type q = FreeText then cq_options q = [] \<and> \<not> cq_allowCustom q
      else 2 \<le> length (cq_options q) \<and> length (cq_options q) \<le> 6)"

definition request_ok :: "('d \<Rightarrow> bool) \<Rightarrow> 'd clarification_request \<Rightarrow> bool" where
  "request_ok delivery_ok r \<longleftrightarrow>
     text_within 120 (cr_requestId r) \<and> 1 \<le> length (cr_questions r) \<and> length (cr_questions r) \<le> 3 \<and>
     list_all question_ok (cr_questions r) \<and> distinct (map cq_id (cr_questions r)) \<and>
     delivery_ok (cr_delivery r)"

definition answer_ok :: "clarification_question list \<Rightarrow> clarification_answer \<Rightarrow> bool" where
  "answer_ok questions a \<longleftrightarrow>
     text_within 120 (ca_questionId a) \<and> list_all (text_within 120) (ca_selected a) \<and>
     distinct (ca_selected a) \<and> length (ca_customText a) \<le> 1000 \<and>
     (\<exists>q \<in> set questions. cq_id q = ca_questionId a \<and> validateClarificationAnswer q a = returns ())"

definition answers_ok :: "clarification_question list \<Rightarrow> clarification_answer list \<Rightarrow> bool" where
  "answers_ok questions as \<longleftrightarrow> list_all (answer_ok questions) as \<and> distinct (map ca_questionId as)"

lemma with_default_Inr: "with_default d r = Inr x \<longleftrightarrow> (\<exists>m. r = Inr m \<and> x = (case m of None \<Rightarrow> d | Some y \<Rightarrow> y))"
  by (cases r) auto

lemma question_type_Inr:
  "clarificationQuestionType v = Inr t \<longleftrightarrow> (\<exists>s. v = Some (JStr s) \<and> map_of question_types s = Some t)"
  by (auto simp: clarificationQuestionType_def split: option.splits json.splits)

lemma parse_options_Inr:
  "parse_options ids items = Inr os \<Longrightarrow>
     list_all option_ok os \<and> distinct (map co_id os) \<and> set (map co_id os) \<inter> set ids = {}"
proof (induction items arbitrary: ids os)
  case (Cons item items)
  then obtain i l rest where
    "text_within 120 i" "i \<notin> set ids" "text_within 80 l" and r: "parse_options (js_add ids i) items = Inr rest"
    and "os = \<lparr>co_id = i, co_label = l\<rparr> # rest"
    by (auto simp: and_then_Inr_iff boundedText_Inr)
  with Cons.IH [OF r] show ?case by (auto simp: option_ok_def)
qed simp

lemma options_Inr:
  "with_default [] (optional_value parseClarificationOptions v) = Inr os \<Longrightarrow>
     list_all option_ok os \<and> distinct (map co_id os)"
  by (cases v) (auto simp: parseClarificationOptions_def and_then_Inr_iff with_default_Inr dest!: parse_options_Inr)

lemma parse_questions_Inr:
  "parse_questions ids items = Inr qs \<Longrightarrow>
     list_all question_ok qs \<and> distinct (map cq_id qs) \<and> set (map cq_id qs) \<inter> set ids = {} \<and>
     length qs = length items"
proof (induction items arbitrary: ids qs)
  case (Cons item items)
  then obtain i t os custom p rest question where
    "text_within 120 i" "i \<notin> set ids" "text_within 240 p"
    and os: "with_default [] (optional_value parseClarificationOptions (map_of question ''options'')) = Inr os"
    and "\<not> (t = FreeText \<and> (length os \<noteq> 0 \<or> custom))" "\<not> (t \<noteq> FreeText \<and> (length os < 2 \<or> length os > 6))"
    and r: "parse_questions (js_add ids i) items = Inr rest"
    and "qs = \<lparr>cq_id = i, cq_prompt = p, cq_type = t, cq_options = os, cq_allowCustom = custom\<rparr> # rest"
    by (auto simp: and_then_Inr_iff boundedText_Inr)
  with Cons.IH [OF r] options_Inr [OF os] show ?case by (auto simp: question_ok_def)
qed simp

lemma parse_answers_Inr:
  "distinct (map cq_id qs) \<Longrightarrow> parse_answers qs ids items = Inr as \<Longrightarrow>
     answers_ok qs as \<and> set (map ca_questionId as) \<inter> set ids = {}"
proof (induction items arbitrary: ids as)
  case (Cons item items)
  have keys: "js_map_of (map (\<lambda>q. (cq_id q, q)) qs) = map (\<lambda>q. (cq_id q, q)) qs"
    using Cons.prems(1) by (intro js_map_of_distinct) (simp add: comp_def)
  from Cons.prems(2) obtain i question sel custom skipped rest source where
    i: "text_within 120 i" "map_of (map (\<lambda>q. (cq_id q, q)) qs) i = Some question" "i \<notin> set ids"
    and sel: "with_default [] (optional_value selected_ids (map_of source ''selectedOptionIds'')) = Inr sel"
      "length (js_set_of sel) = length sel"
    and custom: "with_default [] (optional_value (shaped \<circ> strict \<circ> boundedTextOr True 1000)
                 (map_of source ''customText'')) = Inr custom"
    and a: "validateClarificationAnswer question
      \<lparr>ca_questionId = i, ca_selected = sel, ca_customText = custom, ca_skipped = skipped\<rparr> = Inr ()"
    and r: "parse_answers qs (js_add ids i) items = Inr rest"
    and as: "as = \<lparr>ca_questionId = i, ca_selected = sel, ca_customText = custom, ca_skipped = skipped\<rparr> # rest"
    by (auto simp: and_then_Inr_iff boundedText_Inr keys Let_def split: option.splits)
  have "length custom \<le> 1000"
    using custom by (cases "map_of source ''customText''")
      (auto simp: with_default_Inr boundedTextOr_def and_then_Inr_iff text_value_Inr not_less)
  moreover have "list_all (text_within 120) sel"
    using sel(1) by (cases "map_of source ''selectedOptionIds''")
      (auto simp: with_default_Inr selected_ids_def and_then_Inr_iff map_result_Inr_iff boundedText_Inr
        list_all2_conv_all_nth list_all_length)
  moreover have "question \<in> set qs" "cq_id question = i" using i(2) by (auto dest: map_of_SomeD)
  ultimately have "answer_ok qs (hd as)" using i sel(2) a by (auto simp: answer_ok_def as length_js_set_of_iff)
  then show ?case using Cons.IH [OF Cons.prems(1) r] i(3) as by (auto simp: answers_ok_def)
qed (simp add: answers_ok_def)

definition pending_ok :: "('d \<Rightarrow> bool) \<Rightarrow> 'd pending_clarification \<Rightarrow> bool" where
  "pending_ok delivery_ok p \<longleftrightarrow>
     request_ok delivery_ok (pc_request p) \<and> answers_ok (cr_questions (pc_request p)) (pc_answers p)"

definition completed_ok :: "('d \<Rightarrow> bool) \<Rightarrow> 'd completed_clarification \<Rightarrow> bool" where
  "completed_ok delivery_ok c \<longleftrightarrow>
     request_ok delivery_ok (cc_request c) \<and> answers_ok (cr_questions (cc_request c)) (cc_answers c) \<and>
     length (cc_answers c) = length (cr_questions (cc_request c)) \<and>
     cc_questionId c \<in> set (map ca_questionId (cc_answers c)) \<and> integer_valid False (cc_stateVersion c)"

lemma answers_Inr:
  "parseClarificationAnswers r v = Inr as \<Longrightarrow> distinct (map cq_id (cr_questions r)) \<Longrightarrow>
   answers_ok (cr_questions r) as"
  by (auto simp: parseClarificationAnswers_def and_then_Inr_iff dest!: parse_answers_Inr [rotated])

lemma request_ok_distinct: "request_ok delivery_ok r \<Longrightarrow> distinct (map cq_id (cr_questions r))"
  by (simp add: request_ok_def)

text \<open>The contract with the parser of deliveries the module is given.\<close>

locale delivery_reader =
  fixes parse_delivery :: "json option \<Rightarrow> 'd wire"
    and delivery_ok :: "'d \<Rightarrow> bool"
  assumes delivery_read: "parse_delivery w = Inr d \<Longrightarrow> delivery_ok d"
begin

lemma request_Inr: "parseClarificationRequest parse_delivery v = Inr r \<Longrightarrow> request_ok delivery_ok r"
  by (auto simp: parseClarificationRequest_def request_ok_def and_then_Inr_iff boundedText_Inr Suc_le_eq not_less
      dest!: parse_questions_Inr delivery_read)

lemma pending_Inr:
  assumes "parsePendingClarification parse_delivery v = Inr p"
  shows "pending_ok delivery_ok p"
proof -
  obtain vr va where r: "parseClarificationRequest parse_delivery vr = Inr (pc_request p)"
    and a: "parseClarificationAnswers (pc_request p) va = Inr (pc_answers p)"
    using assms by (auto simp: parsePendingClarification_def and_then_Inr_iff)
  have "request_ok delivery_ok (pc_request p)" by (rule request_Inr [OF r])
  with answers_Inr [OF a] show ?thesis by (simp add: pending_ok_def request_ok_distinct)
qed

lemma parse_history_Inr:
  "parse_history parse_delivery ids items = Inr cs \<Longrightarrow>
    list_all (completed_ok delivery_ok) cs \<and> distinct (map (cr_requestId \<circ> cc_request) cs) \<and>
    set (map (cr_requestId \<circ> cc_request) cs) \<inter> set ids = {}"
proof (induction items arbitrary: ids cs)
  case (Cons item items)
  from Cons.prems obtain request as q version rest va vr where
    req: "parseClarificationRequest parse_delivery vr = Inr request" "cr_requestId request \<notin> set ids"
    and as: "parseClarificationAnswers request va = Inr as" "length as = length (cr_questions request)"
    and q: "list_ex (\<lambda>a. ca_questionId a = q) as" and "integer_valid False version"
    and r: "parse_history parse_delivery (js_add ids (cr_requestId request)) items = Inr rest"
    and cs: "cs = \<lparr>cc_request = request, cc_answers = as, cc_questionId = q, cc_stateVersion = version\<rparr> # rest"
    by (auto simp: and_then_Inr_iff boundedText_Inr integer_value_Inr)
  moreover have "request_ok delivery_ok request" by (rule request_Inr [OF req(1)])
  moreover from this have "answers_ok (cr_questions request) as"
    using answers_Inr [OF as(1)] by (simp add: request_ok_distinct)
  ultimately have "completed_ok delivery_ok (hd cs)"
    by (auto simp: completed_ok_def list_ex_iff)
  then show ?case using Cons.IH [OF r] req(2) cs by auto
qed simp

lemma history_Inr:
  "parseClarificationHistory parse_delivery v = Inr cs \<Longrightarrow>
   list_all (completed_ok delivery_ok) cs \<and> distinct (map (cr_requestId \<circ> cc_request) cs)"
  by (auto simp: parseClarificationHistory_def and_then_Inr_iff dest: parse_history_Inr)

end

text \<open>
  In a completed clarification the answers are a permutation of the questions: none is missing, none
  is answered twice, none is foreign.
\<close>

lemma completed_answers:
  assumes "completed_ok delivery_ok c"
  shows "set (map ca_questionId (cc_answers c)) = set (map cq_id (cr_questions (cc_request c)))"
proof (rule card_subset_eq)
  let ?as = "map ca_questionId (cc_answers c)" and ?qs = "map cq_id (cr_questions (cc_request c))"
  show "set ?as \<subseteq> set ?qs"
  proof
    fix i assume "i \<in> set ?as"
    then obtain a where "a \<in> set (cc_answers c)" "i = ca_questionId a" by auto
    then obtain q where "q \<in> set (cr_questions (cc_request c))" "cq_id q = i"
      using assms by (auto simp: completed_ok_def answers_ok_def answer_ok_def list_all_iff)
    then show "i \<in> set ?qs" by force
  qed
  have "distinct ?as" "distinct ?qs" "length ?as = length ?qs"
    using assms by (auto simp: completed_ok_def answers_ok_def dest: request_ok_distinct)
  then show "card (set ?as) = card (set ?qs)" by (simp only: distinct_card)
qed simp

subsection \<open>Delivery contracts\<close>

definition wire_criterion_ok :: "wire_rule \<Rightarrow> bool" where
  "wire_criterion_ok c \<longleftrightarrow>
     wc_fact c \<in> set deliveryFacts \<and> pred_option (\<lambda>a. a \<in> set artifactKinds) (wc_artifact c)"

definition wire_delivery_ok :: "wire_delivery \<Rightarrow> bool" where
  "wire_delivery_ok d \<longleftrightarrow>
     wd_kind d \<in> set delivery_kinds \<and> 1 \<le> length (wd_completionCriteria d) \<and>
     length (wd_completionCriteria d) \<le> 20 \<and> list_all wire_criterion_ok (wd_completionCriteria d) \<and>
     pred_option (\<lambda>as. length as \<le> 5 \<and> list_all (\<lambda>a. a \<in> set artifactKinds) as) (wd_requiredArtifacts d) \<and>
     pred_option nonblank (wd_targetCanvasId d)"

lemma wire_artifact_Inr: "wire_artifact v = Inr a \<Longrightarrow> a \<in> set artifactKinds"
  by (auto simp: wire_artifact_def and_then_Inr_iff)

lemma wire_criterion_Inr: "wire_criterion v = Inr c \<Longrightarrow> wire_criterion_ok c"
  unfolding wire_criterion_def wire_criterion_ok_def
  by (auto simp: and_then_Inr_iff optional_value_def dest!: wire_artifact_Inr split: option.splits)

lemma map_result_all:
  "map_result f xs = Inr ys \<Longrightarrow> (\<And>x y. f x = Inr y \<Longrightarrow> P y) \<Longrightarrow> list_all P ys"
  by (fastforce simp: map_result_Inr_iff list_all2_conv_all_nth list_all_length)

lemma wire_artifacts_ok:
  "map_result (\<lambda>v. wire_artifact (Some v)) vs = Inr as \<Longrightarrow>
   list_all (\<lambda>a. a \<in> set artifactKinds) as \<and> length vs = length as"
  by (blast intro: map_result_all wire_artifact_Inr map_result_length [symmetric])

lemma wire_required_ok:
  "optional_value wire_required v = Inr r \<Longrightarrow>
   pred_option (\<lambda>as. length as \<le> 5 \<and> list_all (\<lambda>a. a \<in> set artifactKinds) as) r"
  by (cases v) (auto simp: wire_required_def and_then_Inr_iff not_less dest!: wire_artifacts_ok)

lemma wire_target_ok: "optional_value (strict \<circ> text_value False) v = Inr r \<Longrightarrow> pred_option nonblank r"
  by (cases v) (auto simp: and_then_Inr_iff text_value_Inr nonblank_def)

lemma wire_criteria_ok:
  "map_result (\<lambda>v. wire_criterion (Some v)) raw = Inr cs \<Longrightarrow> list_all wire_criterion_ok cs \<and> length raw = length cs"
  by (blast intro: map_result_all wire_criterion_Inr map_result_length [symmetric])

lemma wire_kind_ok:
  "(case v of Some (JStr k) \<Rightarrow> if k \<in> set delivery_kinds then returns k else throws BadKind | _ \<Rightarrow> throws BadKind) = Inr k
   \<Longrightarrow> k \<in> set delivery_kinds"
  by (auto split: option.splits json.splits if_splits)

lemma wire_delivery_Inr: "parseAgentExpectedDelivery v = Inr d \<Longrightarrow> wire_delivery_ok d"
  unfolding parseAgentExpectedDelivery_def wire_delivery_ok_def and_then_Inr_iff guarded_Inr
  by (elim exE conjE, drule wire_required_ok, drule wire_target_ok, drule wire_criteria_ok, drule wire_kind_ok)
    (auto simp: Suc_le_eq not_less)

interpretation wire_deliveries: delivery_reader parseAgentExpectedDelivery wire_delivery_ok
  by unfold_locales (rule wire_delivery_Inr)

text \<open>
  A clarification the browser accepts from the server is consistent: one to three questions with
  distinct identities, two to six distinct options for a choice and none for free text, and every
  answer belongs to one question, selects only its options and fits its type.
\<close>

lemma accepted_clarification_is_consistent:
  assumes "parsePendingClarification parseAgentExpectedDelivery v = returns p"
  shows "pending_ok wire_delivery_ok p"
  using assms by (rule wire_deliveries.pending_Inr)

lemma and_then_first: "r = r' \<Longrightarrow> and_then r f = and_then r' f"
  by simp

definition sample_request :: json where
  "sample_request = JObj [(''requestId'', JStr ''r1''),
     (''questions'', JArr [JObj [(''id'', JStr ''q1''), (''prompt'', JStr ''Which?''), (''type'', JStr ''free_text'')]]),
     (''expectedDelivery'', delivery_json sample_delivery)]"

definition sample_answers :: json where
  "sample_answers = JArr [JObj [(''questionId'', JStr ''q1''), (''customText'', JStr ''both''), (''skipped'', JBool False)]]"

definition sample_clarification :: json where
  "sample_clarification = JObj [(''request'', sample_request), (''answers'', sample_answers)]"

lemma sample_texts:
  "text_within 120 ''r1''" "text_within 120 ''q1''" "text_within 240 ''Which?''" "js_trim ''both'' = ''both''"  by code_simp+

lemma sample_request_read:
  "parseClarificationRequest parseAgentExpectedDelivery (Some sample_request) = returns
     \<lparr>cr_requestId = ''r1'', cr_questions = [\<lparr>cq_id = ''q1'', cq_prompt = ''Which?'', cq_type = FreeText,
        cq_options = [], cq_allowCustom = False\<rparr>],
      cr_delivery = wire_delivery_of sample_delivery\<rparr>"
proof -
  have q: "parse_questions [] [JObj [(''id'', JStr ''q1''), (''prompt'', JStr ''Which?''), (''type'', JStr ''free_text'')]] =
      returns [\<lparr>cq_id = ''q1'', cq_prompt = ''Which?'', cq_type = FreeText, cq_options = [], cq_allowCustom = False\<rparr>]"
    by (simp add: clarificationQuestionType_def question_types_def sample_texts cong: and_then_first)
  have d: "parseAgentExpectedDelivery (Some (delivery_json sample_delivery)) = returns (wire_delivery_of sample_delivery)"
    by (simp add: wire_delivery_json delivery_readable_def sample_delivery_def)
  show ?thesis
    by (simp add: sample_request_def parseClarificationRequest_def q d sample_texts
        del: parse_questions.simps cong: and_then_first)
qed

lemma sample_answers_read:
  "parse_answers [\<lparr>cq_id = ''q1'', cq_prompt = ''Which?'', cq_type = FreeText, cq_options = [], cq_allowCustom = False\<rparr>] []
     [JObj [(''questionId'', JStr ''q1''), (''customText'', JStr ''both''), (''skipped'', JBool False)]] =
   returns [\<lparr>ca_questionId = ''q1'', ca_selected = [], ca_customText = ''both'', ca_skipped = False\<rparr>]"
  by (subst parse_answers.simps)
    (simp add: sample_texts js_map_of_def js_set_of_def boundedTextOr_def validateClarificationAnswer_def
      del: parse_answers.simps cong: and_then_first, simp add: Let_def)

lemma accepted_clarification_is_consistent_witness:
  "\<exists>p. parsePendingClarification parseAgentExpectedDelivery (Some sample_clarification) = returns p \<and>
     pending_ok wire_delivery_ok p \<and> map ca_customText (pc_answers p) = [''both'']"
proof -
  obtain request where r: "parseClarificationRequest parseAgentExpectedDelivery (Some sample_request) = returns request"
    and q: "cr_questions request = [\<lparr>cq_id = ''q1'', cq_prompt = ''Which?'', cq_type = FreeText,
        cq_options = [], cq_allowCustom = False\<rparr>]"
    unfolding sample_request_read by simp
  let ?p = "\<lparr>pc_request = request, pc_answers = [\<lparr>ca_questionId = ''q1'', ca_selected = [],
      ca_customText = ''both'', ca_skipped = False\<rparr>]\<rparr>"
  have p: "parsePendingClarification parseAgentExpectedDelivery (Some sample_clarification) = returns ?p"
    by (simp add: sample_clarification_def parsePendingClarification_def parseClarificationAnswers_def
        sample_answers_def r q sample_answers_read del: parse_answers.simps cong: and_then_first)
  show ?thesis using p accepted_clarification_is_consistent [OF p] by auto
qed

end
