(* ===== verification/RuntimeState.thy ===== *)
theory RuntimeState
  imports Clarification LocalBridge
begin

text \<open>
  The checkpoint of an agent run as the browser accepts it from the server: \<^verbatim>\<open>parseState\<close> of
  \<^verbatim>\<open>web/src/services/api/agent-runtime.ts\<close> with the parsers it calls and the consistency checks of
  \<^verbatim>\<open>validateStateFacts\<close>. The tool's arguments and the delivery contract are those of the theories
  \<open>Capabilities\<close> and \<open>WireEvents\<close>.
\<close>

datatype view_error =
  ClarificationFailed clarification_error
| EnumUnknown | ChecksumInvalid | InstantInvalid
| ApprovalWithoutTool | ToolWithoutFacts | ToolOutsideWait | StartedOutsideWait
| ClarificationMismatch | ClarificationWithTool | HistoryIdentityRepeats | PendingIdentityUsed
| DeliveryConflict | SuccessUnverified | FailureWithoutCode | VerificationConflict
| RunStateConflict | ManagedWithoutModel | LocalWithModel | VersionConflict | HistoricalMode
| ContractUnsupported | VisionMissing | ApprovalMismatch | EffectMismatch | VisionQuoteMismatch
| ApprovalOutsideWait | ApprovalTool | ProposalHash | EffectKind | EffectTargets
| QuoteMissing | QuoteUnexpected | HostUnknown
| EventProtocol | EventKind | RunEventWithItemKind | EventStatus | EventWithoutItem | EventWithoutItemId
| HistoryTooLong | ThreadStatus | TurnRunMismatch | OrdinalGap | SequenceBeyondRun
| ItemRunMismatch | CompletedTooEarly | CompletedMissing
| TransientLocator | LocatorMismatch | ContentConflict | EventNameMismatch | EventForeign | EventNotJson
| HandleConflict | CanvasBlank | LimitOutOfRange

type_synonym 'a view = "(view_error, 'a) result"

fun viewed :: "'a clar \<Rightarrow> 'a view" where
  "viewed (Inl e) = throws (ClarificationFailed e)"
| "viewed (Inr x) = returns x"

lemma viewed_Inr [simp]: "viewed r = Inr x \<longleftrightarrow> r = Inr x"
  by (cases r) auto

abbreviation vkeys :: "string list \<Rightarrow> json option \<Rightarrow> properties view" where
  "vkeys keys v \<equiv> viewed (exact keys v)"

abbreviation vobject :: "json option \<Rightarrow> properties view" where
  "vobject v \<equiv> viewed (shaped (strict (object_value v)))"

abbreviation varray :: "json option \<Rightarrow> json list view" where
  "varray v \<equiv> viewed (shaped (strict (array_value v)))"

definition vtext :: "json option \<Rightarrow> string view" where
  "vtext v = viewed (shaped (wire_text v))"

definition vint :: "bool \<Rightarrow> json option \<Rightarrow> int view" where
  "vint allowZero v = viewed (shaped (strict (integer_value allowZero v)))"

definition vflag :: "json option \<Rightarrow> bool view" where
  "vflag v = viewed (shaped (strict (flag_value v)))"

lemma vtext_Inr [simp]: "vtext v = Inr s \<longleftrightarrow> v = Some (JStr s) \<and> nonblank s"
  by (simp add: vtext_def)

lemma vint_Inr [simp]: "vint z v = Inr n \<longleftrightarrow> v = Some (JNum (of_int n)) \<and> integer_valid z n"
  by (simp add: vint_def integer_value_Inr)

lemma vflag_Inr [simp]: "vflag v = Inr b \<longleftrightarrow> v = Some (JBool b)"
  by (simp add: vflag_def flag_value_Inr)

text \<open>A value that must be one of a table of texts.\<close>

definition venum :: "view_error \<Rightarrow> (string \<times> 'a) list \<Rightarrow> json option \<Rightarrow> 'a view" where
  "venum error table value =
     (case value of
        Some (JStr s) \<Rightarrow> (case map_of table s of None \<Rightarrow> throws error | Some x \<Rightarrow> returns x)
      | _ \<Rightarrow> throws error)"

lemma venum_Inr: "venum e table v = Inr x \<longleftrightarrow> (\<exists>s. v = Some (JStr s) \<and> map_of table s = Some x)"
  by (auto simp: venum_def split: option.splits json.splits)

definition runStatuses :: "(string \<times> run_status) list" where
  "runStatuses =
     [(''queued'', RunQueued), (''running'', RunRunning), (''waiting_input'', WaitingInput),
      (''waiting_approval'', WaitingApproval), (''waiting_tool'', WaitingTool),
      (''succeeded'', RunSucceeded), (''failed'', RunFailed), (''cancelled'', RunCancelled)]"

definition runStatus :: "json option \<Rightarrow> run_status view" where
  "runStatus = venum EnumUnknown runStatuses"

subsection \<open>Tools, results and verification\<close>

record run_tool_call =
  tc_toolCallId :: string
  tc_toolName :: string
  tc_actionVersion :: int
  tc_arguments :: capability_arguments
  tc_delivery :: wire_delivery

definition parseToolCall :: "url_parser \<Rightarrow> json option \<Rightarrow> run_tool_call view" where
  "parseToolCall parse_url value =
     and_then (vkeys [''toolCallId'', ''toolName'', ''actionVersion'', ''arguments'', ''expectedDelivery''] value) (\<lambda>source.
     if \<not> isAgentToolName (map_of source ''toolName'') then throws ApprovalTool
     else
       let name = (case map_of source ''toolName'' of Some (JStr s) \<Rightarrow> s | _ \<Rightarrow> [])
       in
         and_then (vtext (map_of source ''toolCallId'')) (\<lambda>i.
         and_then (vint False (map_of source ''actionVersion'')) (\<lambda>version.
         and_then (viewed (shaped (strict (parseAgentCapabilityArguments parse_url name (map_of source ''arguments''))))) (\<lambda>args.
         and_then (viewed (shaped (parseAgentExpectedDelivery (map_of source ''expectedDelivery'')))) (\<lambda>d.
           returns \<lparr>tc_toolCallId = i, tc_toolName = name, tc_actionVersion = version,
             tc_arguments = args, tc_delivery = d\<rparr>)))))"

datatype verification_status = Satisfied | Repairable | VerificationFailed

record verification =
  vf_status :: verification_status
  vf_rationale :: string
  vf_missing :: "wire_rule list option"

definition parseVerification :: "json option \<Rightarrow> verification view" where
  "parseVerification value =
     and_then (vobject value) (\<lambda>source.
     and_then (venum EnumUnknown [(''satisfied'', Satisfied), (''repairable'', Repairable), (''failed'', VerificationFailed)]
                 (map_of source ''status'')) (\<lambda>status.
     and_then (vtext (map_of source ''rationale'')) (\<lambda>rationale.
     and_then (optional_value (\<lambda>v. and_then (varray v) (\<lambda>items.
                 map_result (\<lambda>item. viewed (shaped (wire_criterion (Some item)))) items)) (map_of source ''missingCriteria'')) (\<lambda>missing.
       returns \<lparr>vf_status = status, vf_rationale = rationale, vf_missing = missing\<rparr>))))"

record run_result =
  rr_toolCallId :: string
  rr_actionVersion :: int
  rr_succeeded :: bool
  rr_output :: properties
  rr_errorCode :: "string option"

definition parseToolResult :: "json option \<Rightarrow> run_result view" where
  "parseToolResult value =
     and_then (vobject value) (\<lambda>source.
     and_then (vtext (map_of source ''toolCallId'')) (\<lambda>i.
     and_then (vint False (map_of source ''actionVersion'')) (\<lambda>version.
     and_then (vflag (map_of source ''succeeded'')) (\<lambda>succeeded.
     and_then (vobject (map_of source ''output'')) (\<lambda>output.
     and_then (optional_value vtext (map_of source ''errorCode'')) (\<lambda>code.
       returns \<lparr>rr_toolCallId = i, rr_actionVersion = version, rr_succeeded = succeeded,
         rr_output = output, rr_errorCode = code\<rparr>))))))"

definition feedback_codes :: "string list" where
  "feedback_codes =
     [''model_decision_invalid'', ''delivery_contract_changed'', ''required_skill_not_loaded'',
      ''clarification_identity_reused'']"

definition parseDecisionFeedback :: "json option \<Rightarrow> (string \<times> string) view" where
  "parseDecisionFeedback value =
     and_then (vobject value) (\<lambda>source.
     and_then (venum EnumUnknown (map (\<lambda>c. (c, c)) feedback_codes) (map_of source ''code'')) (\<lambda>code.
     and_then (vtext (map_of source ''reason'')) (\<lambda>reason. returns (code, reason))))"

subsection \<open>Configurations\<close>

record generation_model =
  gm_channelId :: string
  gm_model :: string

record vision_model =
  vm_channelId :: string
  vm_modelRecordId :: string
  vm_model :: string
  vm_priceVersion :: int

record run_models =
  rm_image :: "generation_model option"
  rm_video :: "generation_model option"
  rm_audio :: "generation_model option"
  rm_vision :: "vision_model option"

record skill_selection =
  sk_dir :: string
  sk_name :: string
  sk_description :: string
  sk_instructions :: string
  sk_version :: int
  sk_checksum :: string

record frozen_resource =
  fr_resourceId :: string
  fr_name :: string
  fr_mimeType :: string
  fr_width :: "int option"
  fr_height :: "int option"

datatype execution_mode = Guided | Automatic | Historical

record run_configuration =
  rc_models :: run_models
  rc_skills :: "skill_selection list"
  rc_attachments :: "frozen_resource list"
  rc_mode :: execution_mode

definition parseGenerationModelSelection :: "json option \<Rightarrow> generation_model view" where
  "parseGenerationModelSelection value =
     and_then (vkeys [''channelId'', ''model''] value) (\<lambda>source.
     and_then (vtext (map_of source ''channelId'')) (\<lambda>c.
     and_then (vtext (map_of source ''model'')) (\<lambda>m. returns \<lparr>gm_channelId = c, gm_model = m\<rparr>)))"

definition parseFrozenVisionModelSelection :: "json option \<Rightarrow> vision_model view" where
  "parseFrozenVisionModelSelection value =
     and_then (vkeys [''channelId'', ''modelRecordId'', ''model'', ''priceVersion''] value) (\<lambda>source.
     and_then (vtext (map_of source ''channelId'')) (\<lambda>c.
     and_then (vtext (map_of source ''modelRecordId'')) (\<lambda>r.
     and_then (vtext (map_of source ''model'')) (\<lambda>m.
     and_then (vint False (map_of source ''priceVersion'')) (\<lambda>p.
       returns \<lparr>vm_channelId = c, vm_modelRecordId = r, vm_model = m, vm_priceVersion = p\<rparr>)))))"

definition parseRunGenerationModelSelections :: "json option \<Rightarrow> run_models view" where
  "parseRunGenerationModelSelections value =
     and_then (vkeys [''image'', ''video'', ''audio'', ''vision''] value) (\<lambda>source.
     and_then (optional_value parseGenerationModelSelection (map_of source ''image'')) (\<lambda>i.
     and_then (optional_value parseGenerationModelSelection (map_of source ''video'')) (\<lambda>v.
     and_then (optional_value parseGenerationModelSelection (map_of source ''audio'')) (\<lambda>a.
     and_then (optional_value parseFrozenVisionModelSelection (map_of source ''vision'')) (\<lambda>w.
       returns \<lparr>rm_image = i, rm_video = v, rm_audio = a, rm_vision = w\<rparr>)))))"

definition parseSkill :: "json option \<Rightarrow> skill_selection view" where
  "parseSkill value =
     and_then (vobject value) (\<lambda>skill.
     and_then (vtext (map_of skill ''checksum'')) (\<lambda>checksum.
     if \<not> validCapabilityChecksum checksum then throws ChecksumInvalid
     else
       and_then (vtext (map_of skill ''dir'')) (\<lambda>dir.
       and_then (vtext (map_of skill ''name'')) (\<lambda>name.
       and_then (viewed (shaped (strict (text_value True (map_of skill ''description''))))) (\<lambda>description.
       and_then (vtext (map_of skill ''instructions'')) (\<lambda>instructions.
       and_then (vint True (map_of skill ''version'')) (\<lambda>version.
         returns \<lparr>sk_dir = dir, sk_name = name, sk_description = description,
           sk_instructions = instructions, sk_version = version, sk_checksum = checksum\<rparr>)))))))"

definition parseResourceReference :: "json option \<Rightarrow> (string \<times> string) view" where
  "parseResourceReference value =
     and_then (vobject value) (\<lambda>source.
     and_then (vtext (map_of source ''resourceId'')) (\<lambda>r.
     and_then (vtext (map_of source ''name'')) (\<lambda>n. returns (r, n))))"

definition parseFrozenResource :: "json option \<Rightarrow> frozen_resource view" where
  "parseFrozenResource value =
     and_then (vobject value) (\<lambda>source.
     and_then (parseResourceReference value) (\<lambda>(r, n).
     and_then (vtext (map_of source ''mimeType'')) (\<lambda>m.
     and_then (optional_value (vint False) (map_of source ''width'')) (\<lambda>w.
     and_then (optional_value (vint False) (map_of source ''height'')) (\<lambda>h.
       returns \<lparr>fr_resourceId = r, fr_name = n, fr_mimeType = m, fr_width = w, fr_height = h\<rparr>)))))"

definition executionMode :: "json option \<Rightarrow> execution_mode view" where
  "executionMode = venum EnumUnknown [(''guided'', Guided), (''automatic'', Automatic)]"

definition runExecutionMode :: "json option \<Rightarrow> execution_mode view" where
  "runExecutionMode value = (if value = Some (JStr ''historical'') then returns Historical else executionMode value)"

definition parseRunConfiguration :: "json option \<Rightarrow> run_configuration view" where
  "parseRunConfiguration value =
     and_then (vkeys [''generationModels'', ''skills'', ''attachments'', ''executionMode''] value) (\<lambda>source.
     and_then (parseRunGenerationModelSelections (map_of source ''generationModels'')) (\<lambda>models.
     and_then (varray (map_of source ''skills'')) (\<lambda>skills.
     and_then (map_result (\<lambda>v. parseSkill (Some v)) skills) (\<lambda>ss.
     and_then (varray (map_of source ''attachments'')) (\<lambda>attachments.
     and_then (map_result (\<lambda>v. parseFrozenResource (Some v)) attachments) (\<lambda>as.
     and_then (runExecutionMode (map_of source ''executionMode'')) (\<lambda>mode.
       returns \<lparr>rc_models = models, rc_skills = ss, rc_attachments = as, rc_mode = mode\<rparr>)))))))"

subsection \<open>The state\<close>

record agent_state =
  as_stateVersion :: int
  as_stepNumber :: int
  as_maxSteps :: int
  as_status :: run_status
  as_userMessage :: string
  as_configuration :: run_configuration
  as_history :: "wire_delivery completed_clarification list"
  as_toolCall :: "run_tool_call option"
  as_toolStarted :: "bool option"
  as_clarification :: "wire_delivery pending_clarification option"
  as_finalMessage :: "string option"
  as_failureCode :: "string option"
  as_delivery :: "wire_delivery option"
  as_verification :: "verification option"
  as_lastResult :: "run_result option"
  as_feedback :: "(string \<times> string) option"

text \<open>
  Contracts of deliveries are compared by their JSON texts; both were built by one parser, with the
  keys in one order, so the texts are equal exactly if the contracts are.
\<close>

definition sameExpectedDelivery :: "wire_delivery \<Rightarrow> wire_delivery \<Rightarrow> bool" where
  "sameExpectedDelivery left right \<longleftrightarrow> left = right"

definition clarification_deliveries :: "agent_state \<Rightarrow> wire_delivery list" where
  "clarification_deliveries s =
     map (cr_delivery \<circ> cc_request) (as_history s) @
     (case as_clarification s of None \<Rightarrow> [] | Some p \<Rightarrow> [cr_delivery (pc_request p)])"

definition verification_is :: "verification_status \<Rightarrow> agent_state \<Rightarrow> bool" where
  "verification_is status s \<longleftrightarrow> (case as_verification s of None \<Rightarrow> False | Some v \<Rightarrow> vf_status v = status)"

definition validateStateFacts :: "agent_state \<Rightarrow> unit view" where
  "validateStateFacts s =
     (let waitingForInput = (as_status s = WaitingInput);
          waitingForApproval = (as_status s = WaitingApproval);
          waitingForTool = (as_status s = WaitingTool);
          started = (as_toolStarted s = Some True);
          requestIds = js_set_of (map (cr_requestId \<circ> cc_request) (as_history s))
      in if waitingForApproval \<and> (as_toolCall s = None \<or> started) then throws ApprovalWithoutTool
         else if waitingForTool \<and> as_toolCall s = None then throws ToolWithoutFacts
         else if \<not> waitingForApproval \<and> \<not> waitingForTool \<and> as_toolCall s \<noteq> None then throws ToolOutsideWait
         else if started \<and> \<not> waitingForTool then throws StartedOutsideWait
         else if waitingForInput \<noteq> (as_clarification s \<noteq> None) then throws ClarificationMismatch
         else if waitingForInput \<and> as_toolCall s \<noteq> None then throws ClarificationWithTool
         else if length requestIds \<noteq> length (as_history s) then throws HistoryIdentityRepeats
         else if (case as_clarification s of None \<Rightarrow> False | Some p \<Rightarrow> cr_requestId (pc_request p) \<in> set requestIds)
         then throws PendingIdentityUsed
         else if list_ex (\<lambda>d. case as_delivery s of None \<Rightarrow> True | Some e \<Rightarrow> \<not> sameExpectedDelivery d e)
                   (clarification_deliveries s)
         then throws DeliveryConflict
         else if as_status s = RunSucceeded \<and>
                 (as_finalMessage s = None \<or> \<not> verification_is Satisfied s \<or> as_delivery s = None)
         then throws SuccessUnverified
         else if as_status s = RunFailed \<and> as_failureCode s = None then throws FailureWithoutCode
         else if as_status s \<noteq> RunSucceeded \<and> verification_is Satisfied s then throws VerificationConflict
         else returns ())"

definition parseState :: "url_parser \<Rightarrow> json option \<Rightarrow> agent_state view" where
  "parseState parse_url value =
     and_then (vobject value) (\<lambda>source.
     and_then (vint False (map_of source ''stateVersion'')) (\<lambda>version.
     and_then (vint True (map_of source ''stepNumber'')) (\<lambda>step.
     and_then (vint False (map_of source ''maxSteps'')) (\<lambda>maxSteps.
     and_then (runStatus (map_of source ''status'')) (\<lambda>status.
     and_then (vtext (map_of source ''userMessage'')) (\<lambda>message.
     and_then (parseRunConfiguration (map_of source ''configuration'')) (\<lambda>configuration.
     and_then (viewed (parseClarificationHistory parseAgentExpectedDelivery (map_of source ''clarificationHistory''))) (\<lambda>history.
     and_then (optional_value (parseToolCall parse_url) (map_of source ''pendingToolCall'')) (\<lambda>call.
     and_then (optional_value vflag (map_of source ''pendingToolStarted'')) (\<lambda>started.
     and_then (optional_value (viewed \<circ> parsePendingClarification parseAgentExpectedDelivery)
                 (map_of source ''pendingClarification'')) (\<lambda>clarification.
     and_then (optional_value vtext (map_of source ''finalMessage'')) (\<lambda>final.
     and_then (optional_value vtext (map_of source ''failureCode'')) (\<lambda>failure.
     and_then (optional_value (viewed \<circ> shaped \<circ> parseAgentExpectedDelivery) (map_of source ''expectedDelivery'')) (\<lambda>delivery.
     and_then (optional_value parseVerification (map_of source ''verification'')) (\<lambda>verification.
     and_then (optional_value parseToolResult (map_of source ''lastToolResult'')) (\<lambda>result.
     and_then (optional_value parseDecisionFeedback (map_of source ''decisionFeedback'')) (\<lambda>feedback.
     let s = \<lparr>as_stateVersion = version, as_stepNumber = step, as_maxSteps = maxSteps, as_status = status,
            as_userMessage = message, as_configuration = configuration, as_history = history,
            as_toolCall = call, as_toolStarted = started, as_clarification = clarification,
            as_finalMessage = final, as_failureCode = failure, as_delivery = delivery,
            as_verification = verification, as_lastResult = result, as_feedback = feedback\<rparr>
     in and_then (validateStateFacts s) (\<lambda>_. returns s))))))))))))))))))"

section \<open>Consistent states\<close>

definition clarification_ids :: "agent_state \<Rightarrow> string list" where
  "clarification_ids s =
     map (cr_requestId \<circ> cc_request) (as_history s) @
     (case as_clarification s of None \<Rightarrow> [] | Some p \<Rightarrow> [cr_requestId (pc_request p)])"

text \<open>What the checks mean, fact by fact.\<close>

definition state_consistent :: "agent_state \<Rightarrow> bool" where
  "state_consistent s \<longleftrightarrow>
     (as_toolCall s \<noteq> None \<longleftrightarrow> as_status s \<in> {WaitingApproval, WaitingTool}) \<and>
     (as_toolStarted s = Some True \<longrightarrow> as_status s = WaitingTool) \<and>
     (as_clarification s \<noteq> None \<longleftrightarrow> as_status s = WaitingInput) \<and>
     distinct (clarification_ids s) \<and>
     (\<forall>d \<in> set (clarification_deliveries s). as_delivery s = Some d) \<and>
     (as_status s = RunSucceeded \<longleftrightarrow> verification_is Satisfied s) \<and>
     (as_status s = RunSucceeded \<longrightarrow> as_finalMessage s \<noteq> None \<and> as_delivery s \<noteq> None) \<and>
     (as_status s = RunFailed \<longrightarrow> as_failureCode s \<noteq> None)"

lemma deliveries_agree:
  "list_ex (\<lambda>d. case r of None \<Rightarrow> True | Some e \<Rightarrow> \<not> sameExpectedDelivery d e) ds \<longleftrightarrow>
     \<not> (\<forall>d \<in> set ds. r = Some d)"
  by (induction ds; cases r) (auto simp: sameExpectedDelivery_def)

lemma clarification_ids_distinct:
  "distinct (clarification_ids s) \<longleftrightarrow>
     distinct (map (cr_requestId \<circ> cc_request) (as_history s)) \<and>
     \<not> (case as_clarification s of None \<Rightarrow> False
         | Some p \<Rightarrow> cr_requestId (pc_request p) \<in> set (map (cr_requestId \<circ> cc_request) (as_history s)))"
  by (auto simp: clarification_ids_def split: option.splits)

lemma validateStateFacts_iff: "validateStateFacts s = returns () \<longleftrightarrow> state_consistent s"
proof -
  have len: "length (js_set_of (map (cr_requestId \<circ> cc_request) (as_history s))) = length (as_history s) \<longleftrightarrow>
      distinct (map (cr_requestId \<circ> cc_request) (as_history s))"
    using length_js_set_of_iff [of "map (cr_requestId \<circ> cc_request) (as_history s)"] by simp
  show ?thesis
    unfolding validateStateFacts_def Let_def guarded_Inr deliveries_agree state_consistent_def
      clarification_ids_distinct set_js_set_of len
    by (cases "as_status s") auto
qed

text \<open>
  The chain of checks on a run's checkpoint accepts exactly the consistent states: a frozen tool
  call while and only while a tool or its approval is waited for, an open question while and only
  while input is waited for, no clarification identity used twice, all clarifications about the
  run's delivery contract, success exactly with a satisfied verification.
\<close>

lemma state_checks_are_exact:
  "validateStateFacts s = returns () \<longleftrightarrow> state_consistent s"
  by (rule validateStateFacts_iff)

text \<open>What holds of the parts of an accepted state.\<close>

definition tool_call_ok :: "url_parser \<Rightarrow> run_tool_call \<Rightarrow> bool" where
  "tool_call_ok parse_url c \<longleftrightarrow>
     nonblank (tc_toolCallId c) \<and> integer_valid False (tc_actionVersion c) \<and>
     arguments_tool (tc_arguments c) = tc_toolName c \<and> arguments_valid parse_url (tc_arguments c) \<and>
     wire_delivery_ok (tc_delivery c)"

definition state_parts_ok :: "url_parser \<Rightarrow> agent_state \<Rightarrow> bool" where
  "state_parts_ok parse_url s \<longleftrightarrow>
     pred_option (tool_call_ok parse_url) (as_toolCall s) \<and>
     pred_option (pending_ok wire_delivery_ok) (as_clarification s) \<and>
     list_all (completed_ok wire_delivery_ok) (as_history s) \<and>
     pred_option wire_delivery_ok (as_delivery s)"

lemma parseToolCall_Inr: "parseToolCall parse_url v = Inr c \<Longrightarrow> tool_call_ok parse_url c"
  unfolding parseToolCall_def and_then_Inr_iff guarded_Inr Let_def viewed_Inr shaped_Inr strict_Inr vtext_Inr vint_Inr
  by (elim exE conjE, drule parse_arguments_valid, drule wire_delivery_Inr) (auto simp: tool_call_ok_def)

lemma optional_Inr_all:
  "optional_value read v = Inr r \<Longrightarrow> (\<And>w x. read w = Inr x \<Longrightarrow> P x) \<Longrightarrow> pred_option P r"
  by (auto simp: optional_value_def and_then_Inr_iff split: option.splits)

lemma parseState_parts:
  assumes "parseState parse_url v = Inr s"
  shows "state_parts_ok parse_url s \<and> state_consistent s"
proof -
  obtain call clarification history delivery vc vq vh vd where
    "optional_value (parseToolCall parse_url) vc = Inr call"
    "viewed (parseClarificationHistory parseAgentExpectedDelivery vh) = Inr history"
    "optional_value (viewed \<circ> parsePendingClarification parseAgentExpectedDelivery) vq = Inr clarification"
    "optional_value (viewed \<circ> shaped \<circ> parseAgentExpectedDelivery) vd = Inr delivery"
    and s: "as_toolCall s = call" "as_clarification s = clarification" "as_history s = history"
      "as_delivery s = delivery" and facts: "validateStateFacts s = Inr ()"
    using assms unfolding parseState_def Let_def and_then_Inr_iff
    by (elim exE conjE) (drule sum.inject(2) [THEN iffD1], auto)
  moreover from this have "pred_option (tool_call_ok parse_url) call"
    by (blast intro: optional_Inr_all parseToolCall_Inr)
  moreover have "pred_option (pending_ok wire_delivery_ok) clarification"
    using calculation(3) by (rule optional_Inr_all) (auto intro: wire_deliveries.pending_Inr)
  moreover have "list_all (completed_ok wire_delivery_ok) history"
    using calculation(2) by (auto dest: wire_deliveries.history_Inr)
  moreover have "pred_option wire_delivery_ok delivery"
    using calculation(4) by (rule optional_Inr_all) (auto intro: wire_delivery_Inr)
  ultimately show ?thesis by (simp add: state_parts_ok_def validateStateFacts_iff)
qed

end
