(* ===== verification/RuntimeView.thy ===== *)
theory RuntimeView
  imports RuntimeState
begin

text \<open>
  The view of a run the browser accepts from the server, \<^verbatim>\<open>parseAgentRuntimeView\<close> of
  \<^verbatim>\<open>web/src/services/api/agent-runtime.ts\<close>: the run, its checkpoint, a pending approval, and the
  checks between them. \<open>bridge_view\<close> is the part of a view that the bridge to the local agent reads.
\<close>

subsection \<open>Instants\<close>

text \<open>
  \<^verbatim>\<open>isoInstantPattern\<close>, and the comparison of its groups with the date the platform reads: the
  calendar is the Gregorian one, hours, minutes and seconds are in range.
\<close>

definition iso_fraction :: "string \<Rightarrow> bool" where
  "iso_fraction t \<longleftrightarrow>
     t \<noteq> [] \<and> last t = CHR ''Z'' \<and>
     (butlast t = [] \<or>
      hd t = CHR ''.'' \<and> 1 \<le> length (tl (butlast t)) \<and> length (tl (butlast t)) \<le> 9 \<and>
      list_all digit (tl (butlast t)))"

definition iso_shape :: "string \<Rightarrow> bool" where
  "iso_shape s \<longleftrightarrow>
     20 \<le> length s \<and>
     list_all (\<lambda>i. digit (s ! i)) [0, 1, 2, 3, 5, 6, 8, 9, 11, 12, 14, 15, 17, 18] \<and>
     s ! 4 = CHR ''-'' \<and> s ! 7 = CHR ''-'' \<and> s ! 10 = CHR ''T'' \<and> s ! 13 = CHR '':'' \<and> s ! 16 = CHR '':'' \<and>
     iso_fraction (drop 19 s)"

definition iso_group :: "nat \<Rightarrow> nat \<Rightarrow> string \<Rightarrow> nat" where
  "iso_group start n s = read_nat (take n (drop start s))"

definition leap_year :: "nat \<Rightarrow> bool" where
  "leap_year y \<longleftrightarrow> y mod 4 = 0 \<and> (y mod 100 \<noteq> 0 \<or> y mod 400 = 0)"

definition days_in_month :: "nat \<Rightarrow> nat \<Rightarrow> nat" where
  "days_in_month y m =
     (if m = 2 then if leap_year y then 29 else 28
      else if m \<in> {4, 6, 9, 11} then 30 else 31)"

definition iso_valid :: "string \<Rightarrow> bool" where
  "iso_valid s \<longleftrightarrow>
     iso_shape s \<and>
     (let y = iso_group 0 4 s; m = iso_group 5 2 s; d = iso_group 8 2 s
      in 1 \<le> m \<and> m \<le> 12 \<and> 1 \<le> d \<and> d \<le> days_in_month y m) \<and>
     iso_group 11 2 s \<le> 23 \<and> iso_group 14 2 s \<le> 59 \<and> iso_group 17 2 s \<le> 59"

definition isoInstant :: "json option \<Rightarrow> string view" where
  "isoInstant value =
     and_then (vtext value) (\<lambda>source. if \<not> iso_valid source then throws InstantInvalid else returns source)"

subsection \<open>Approvals\<close>

datatype effect_kind = CanvasMutation | AssetPublish | MediaGeneration | VisionAnalysis

definition effect_kinds :: "(string \<times> effect_kind) list" where
  "effect_kinds =
     [(''canvas_mutation'', CanvasMutation), (''asset_publish'', AssetPublish),
      (''media_generation'', MediaGeneration), (''vision_analysis'', VisionAnalysis)]"

record cost_quote =
  qu_modelRecordId :: string
  qu_modelKey :: string
  qu_priceVersion :: int
  qu_amount :: int

record pending_approval =
  pa_toolCallId :: string
  pa_toolName :: string
  pa_actionVersion :: int
  pa_proposalHash :: string
  pa_expiresAt :: string
  pa_effect :: effect_kind
  pa_summary :: string
  pa_targetIds :: "string list"
  pa_quote :: "cost_quote option"

definition approvalEffectKindForTool :: "string \<Rightarrow> effect_kind option" where
  "approvalEffectKindForTool t =
     (if t = ''canvas.apply_ops'' then Some CanvasMutation
      else if t = ''assets.publish'' then Some AssetPublish
      else if t = ''media.generate'' then Some MediaGeneration
      else if t = ''vision.analyze'' then Some VisionAnalysis
      else None)"

definition parseApprovalCostQuote :: "json option \<Rightarrow> cost_quote view" where
  "parseApprovalCostQuote value =
     and_then (vkeys [''modelRecordId'', ''modelKey'', ''priceVersion'', ''amountMicrocredits''] value) (\<lambda>source.
     and_then (vtext (map_of source ''modelRecordId'')) (\<lambda>r.
     and_then (vtext (map_of source ''modelKey'')) (\<lambda>k.
     and_then (vint False (map_of source ''priceVersion'')) (\<lambda>p.
     and_then (vint False (map_of source ''amountMicrocredits'')) (\<lambda>a.
       returns \<lparr>qu_modelRecordId = r, qu_modelKey = k, qu_priceVersion = p, qu_amount = a\<rparr>)))))"

definition parsePendingApproval :: "json option \<Rightarrow> pending_approval view" where
  "parsePendingApproval value =
     and_then (vkeys [''toolCallId'', ''toolName'', ''actionVersion'', ''proposalHash'', ''expiresAt'',
                 ''effect'', ''quote''] value) (\<lambda>source.
     if \<not> isAgentToolName (map_of source ''toolName'') then throws ApprovalTool
     else
       let toolName = (case map_of source ''toolName'' of Some (JStr s) \<Rightarrow> s | _ \<Rightarrow> [])
       in
       and_then (vtext (map_of source ''proposalHash'')) (\<lambda>proposalHash.
       if \<not> validCapabilityChecksum proposalHash then throws ProposalHash
       else
         and_then (vkeys [''kind'', ''summary'', ''targetIds''] (map_of source ''effect'')) (\<lambda>effectSource.
         and_then (venum EffectKind effect_kinds (map_of effectSource ''kind'')) (\<lambda>kind.
         and_then (varray (map_of effectSource ''targetIds'')) (\<lambda>targets.
         and_then (map_result (\<lambda>v. vtext (Some v)) targets) (\<lambda>targetIds.
         if targetIds = [] \<or> length (js_set_of targetIds) \<noteq> length targetIds then throws EffectTargets
         else
           and_then (optional_value parseApprovalCostQuote (map_of source ''quote'')) (\<lambda>qt.
           let paidTool = (toolName = ''media.generate'' \<or> toolName = ''vision.analyze'')
           in
           if paidTool \<and> qt = None then throws QuoteMissing
           else if \<not> paidTool \<and> qt \<noteq> None then throws QuoteUnexpected
           else
             and_then (vtext (map_of source ''toolCallId'')) (\<lambda>i.
             and_then (vint False (map_of source ''actionVersion'')) (\<lambda>version.
             and_then (isoInstant (map_of source ''expiresAt'')) (\<lambda>expires.
             and_then (vtext (map_of effectSource ''summary'')) (\<lambda>summary.
               returns \<lparr>pa_toolCallId = i, pa_toolName = toolName, pa_actionVersion = version,
                 pa_proposalHash = proposalHash, pa_expiresAt = expires, pa_effect = kind,
                 pa_summary = summary, pa_targetIds = targetIds, pa_quote = qt\<rparr>)))))))))))"

subsection \<open>Views\<close>

record agent_run =
  ag_id :: string
  ag_threadId :: string
  ag_local :: bool \<comment> \<open>\<^verbatim>\<open>reasoningHost === "local_codex"\<close>, else \<^verbatim>\<open>"managed"\<close>\<close>
  ag_actorUserId :: string
  ag_clientRequestId :: string
  ag_status :: run_status
  ag_lastSequence :: int
  ag_stateVersion :: int
  ag_stepNumber :: int
  ag_maxSteps :: int
  ag_modelRecordId :: string
  ag_modelKey :: string
  ag_toolSchemaVersion :: int
  ag_runtimeVersion :: int
  ag_policyVersion :: int
  ag_createdAt :: string
  ag_updatedAt :: string
  ag_completedAt :: "string option"

record agent_view =
  av_run :: agent_run
  av_state :: agent_state
  av_approval :: "pending_approval option"

definition parseReasoningHost :: "json option \<Rightarrow> bool view" where
  "parseReasoningHost = venum HostUnknown [(''managed'', False), (''local_codex'', True)]"

definition vtext_or_empty :: "json option \<Rightarrow> string view" where
  "vtext_or_empty v = viewed (shaped (strict (text_value True v)))"

definition parse_run :: "json option \<Rightarrow> agent_run view" where
  "parse_run value =
     and_then (vobject value) (\<lambda>run.
     and_then (vtext (map_of run ''id'')) (\<lambda>i.
     and_then (vtext (map_of run ''threadId'')) (\<lambda>t.
     and_then (parseReasoningHost (map_of run ''reasoningHost'')) (\<lambda>host.
     and_then (vtext (map_of run ''actorUserId'')) (\<lambda>actor.
     and_then (vtext (map_of run ''clientRequestId'')) (\<lambda>client.
     and_then (runStatus (map_of run ''status'')) (\<lambda>status.
     and_then (vint True (map_of run ''lastEventSequence'')) (\<lambda>sequence.
     and_then (vint False (map_of run ''stateVersion'')) (\<lambda>version.
     and_then (vint True (map_of run ''stepNumber'')) (\<lambda>step.
     and_then (vint False (map_of run ''maxSteps'')) (\<lambda>maxSteps.
     and_then (vtext_or_empty (map_of run ''modelRecordId'')) (\<lambda>recordId.
     and_then (vtext_or_empty (map_of run ''modelKey'')) (\<lambda>key.
     and_then (vint False (map_of run ''toolSchemaVersion'')) (\<lambda>schema.
     and_then (vint False (map_of run ''runtimeVersion'')) (\<lambda>runtime.
     and_then (vint False (map_of run ''policyVersion'')) (\<lambda>policy.
     and_then (vtext (map_of run ''createdAt'')) (\<lambda>created.
     and_then (vtext (map_of run ''updatedAt'')) (\<lambda>updated.
     and_then (optional_value vtext (map_of run ''completedAt'')) (\<lambda>completed.
       returns \<lparr>ag_id = i, ag_threadId = t, ag_local = host, ag_actorUserId = actor,
         ag_clientRequestId = client, ag_status = status, ag_lastSequence = sequence,
         ag_stateVersion = version, ag_stepNumber = step, ag_maxSteps = maxSteps,
         ag_modelRecordId = recordId, ag_modelKey = key, ag_toolSchemaVersion = schema,
         ag_runtimeVersion = runtime, ag_policyVersion = policy, ag_createdAt = created,
         ag_updatedAt = updated, ag_completedAt = completed\<rparr>)))))))))))))))))))"

definition isTerminalRun :: "agent_run \<Rightarrow> bool" where
  "isTerminalRun r \<longleftrightarrow> isTerminalStatus (ag_status r) \<and> ag_completedAt r \<noteq> None"

definition isCurrentContract :: "agent_run \<Rightarrow> bool" where
  "isCurrentContract r \<longleftrightarrow> ag_runtimeVersion r = 5 \<and> ag_policyVersion r = 5 \<and> ag_toolSchemaVersion r = 8"

definition isRetiredReadOnlyContract :: "agent_run \<Rightarrow> bool" where
  "isRetiredReadOnlyContract r \<longleftrightarrow>
     isTerminalRun r \<and> ag_runtimeVersion r = 3 \<and> ag_policyVersion r = 3 \<and> ag_toolSchemaVersion r = 4"

text \<open>The checks of a run against its checkpoint, and of the approval against both.\<close>

definition check_run :: "agent_run \<Rightarrow> agent_state \<Rightarrow> unit view" where
  "check_run r s =
     (if ag_status r \<noteq> as_status s then throws RunStateConflict
      else if \<not> ag_local r \<and> (ag_modelRecordId r = [] \<or> ag_modelKey r = []) then throws ManagedWithoutModel
      else if ag_local r \<and> (ag_modelRecordId r \<noteq> [] \<or> ag_modelKey r \<noteq> []) then throws LocalWithModel
      else if ag_stateVersion r \<noteq> as_stateVersion s \<or> ag_stepNumber r \<noteq> as_stepNumber s \<or>
              ag_maxSteps r \<noteq> as_maxSteps s
      then throws VersionConflict
      else if rc_mode (as_configuration s) = Historical \<and>
              (\<not> isTerminalRun r \<or> ag_toolSchemaVersion r \<noteq> 1 \<or> ag_runtimeVersion r \<noteq> 1 \<or> ag_policyVersion r \<noteq> 1)
      then throws HistoricalMode
      else if rc_mode (as_configuration s) \<noteq> Historical \<and> \<not> isCurrentContract r \<and> \<not> isRetiredReadOnlyContract r
      then throws ContractUnsupported
      else if isCurrentContract r \<and> \<not> ag_local r \<and> rm_vision (rc_models (as_configuration s)) = None
      then throws VisionMissing
      else returns ())"

definition vision_quote_fits :: "vision_model option \<Rightarrow> run_tool_call \<Rightarrow> cost_quote option \<Rightarrow> bool" where
  "vision_quote_fits frozen call qt \<longleftrightarrow>
     (case (tc_arguments call, frozen, qt) of
        (VisionArguments a, Some m, Some q) \<Rightarrow>
          vr_modelRecordId a = vm_modelRecordId m \<and> vr_modelKey a = vm_model m \<and>
          qu_modelRecordId q = vm_modelRecordId m \<and> qu_modelKey q = vm_model m \<and>
          qu_priceVersion q = vm_priceVersion m
      | _ \<Rightarrow> False)"

definition check_approval :: "agent_state \<Rightarrow> pending_approval option \<Rightarrow> unit view" where
  "check_approval s approval =
     (if as_status s = WaitingApproval then
        (case (approval, as_toolCall s) of
           (Some p, Some c) \<Rightarrow>
             if pa_toolCallId p \<noteq> tc_toolCallId c \<or> pa_toolName p \<noteq> tc_toolName c \<or>
                pa_actionVersion p \<noteq> tc_actionVersion c
             then throws ApprovalMismatch
             else if approvalEffectKindForTool (tc_toolName c) \<noteq> Some (pa_effect p) then throws EffectMismatch
             else if tc_toolName c = ''vision.analyze'' \<and>
                     \<not> vision_quote_fits (rm_vision (rc_models (as_configuration s))) c (pa_quote p)
             then throws VisionQuoteMismatch
             else returns ()
         | _ \<Rightarrow> throws ApprovalMismatch)
      else if approval \<noteq> None then throws ApprovalOutsideWait
      else returns ())"

definition parseAgentRuntimeView :: "url_parser \<Rightarrow> json option \<Rightarrow> agent_view view" where
  "parseAgentRuntimeView parse_url value =
     and_then (vkeys [''run'', ''state'', ''pendingApproval''] value) (\<lambda>root.
     and_then (vobject (map_of root ''run'')) (\<lambda>_.
     and_then (parseState parse_url (map_of root ''state'')) (\<lambda>s.
     and_then (parse_run (map_of root ''run'')) (\<lambda>r.
     and_then (check_run r s) (\<lambda>_.
     and_then (optional_value parsePendingApproval (map_of root ''pendingApproval'')) (\<lambda>approval.
     and_then (check_approval s approval) (\<lambda>_.
       returns \<lparr>av_run = r, av_state = s, av_approval = approval\<rparr>)))))))"

section \<open>What an accepted view guarantees\<close>

definition paid_tool :: "string \<Rightarrow> bool" where
  "paid_tool t \<longleftrightarrow> t = ''media.generate'' \<or> t = ''vision.analyze''"

text \<open>The approval is about the frozen call, says what the call does, and quotes a price if it costs.\<close>

definition approval_fits :: "run_tool_call \<Rightarrow> pending_approval \<Rightarrow> bool" where
  "approval_fits c p \<longleftrightarrow>
     pa_toolCallId p = tc_toolCallId c \<and> pa_toolName p = tc_toolName c \<and>
     pa_actionVersion p = tc_actionVersion c \<and>
     approvalEffectKindForTool (arguments_tool (tc_arguments c)) = Some (pa_effect p) \<and>
     (pa_quote p \<noteq> None \<longleftrightarrow> paid_tool (tc_toolName c)) \<and>
     pa_targetIds p \<noteq> [] \<and> distinct (pa_targetIds p)"

definition view_consistent :: "url_parser \<Rightarrow> agent_view \<Rightarrow> bool" where
  "view_consistent parse_url w \<longleftrightarrow>
     (let r = av_run w; s = av_state w
      in state_consistent s \<and> state_parts_ok parse_url s \<and>
         ag_status r = as_status s \<and> ag_stateVersion r = as_stateVersion s \<and>
         (if ag_local r then ag_modelRecordId r = [] \<and> ag_modelKey r = []
          else ag_modelRecordId r \<noteq> [] \<and> ag_modelKey r \<noteq> []) \<and>
         (\<not> isTerminalRun r \<longrightarrow> isCurrentContract r \<and> rc_mode (as_configuration s) \<noteq> Historical) \<and>
         (case av_approval w of
            None \<Rightarrow> as_status s \<noteq> WaitingApproval
          | Some p \<Rightarrow> as_status s = WaitingApproval \<and> (\<exists>c. as_toolCall s = Some c \<and> approval_fits c p)))"

lemma parsePendingApproval_Inr:
  assumes "parsePendingApproval v = Inr p"
  shows "(pa_quote p \<noteq> None \<longleftrightarrow> paid_tool (pa_toolName p)) \<and> pa_targetIds p \<noteq> [] \<and> distinct (pa_targetIds p)"
  using assms unfolding parsePendingApproval_def and_then_Inr_iff guarded_Inr Let_def
  by (elim exE conjE) (auto simp: paid_tool_def length_js_set_of_iff)

lemma check_approval_Inr:
  "check_approval s (Some p) = Inr () \<Longrightarrow>
     as_status s = WaitingApproval \<and>
     (\<exists>c. as_toolCall s = Some c \<and> pa_toolCallId p = tc_toolCallId c \<and> pa_toolName p = tc_toolName c \<and>
        pa_actionVersion p = tc_actionVersion c \<and>
        approvalEffectKindForTool (tc_toolName c) = Some (pa_effect p))"
  "check_approval s None = Inr () \<Longrightarrow> as_status s \<noteq> WaitingApproval"
  by (auto simp: check_approval_def split: option.splits if_splits)

lemma check_run_Inr:
  "check_run r s = Inr () \<Longrightarrow>
     ag_status r = as_status s \<and> ag_stateVersion r = as_stateVersion s \<and>
     (if ag_local r then ag_modelRecordId r = [] \<and> ag_modelKey r = []
      else ag_modelRecordId r \<noteq> [] \<and> ag_modelKey r \<noteq> []) \<and>
     (\<not> isTerminalRun r \<longrightarrow> isCurrentContract r \<and> rc_mode (as_configuration s) \<noteq> Historical)"
  unfolding check_run_def guarded_Inr by (auto simp: isRetiredReadOnlyContract_def)

lemma parse_view_parts:
  assumes "parseAgentRuntimeView parse_url v = Inr w"
  obtains vs va where "parseState parse_url vs = Inr (av_state w)"
    and "check_run (av_run w) (av_state w) = Inr ()"
    and "optional_value parsePendingApproval va = Inr (av_approval w)"
    and "check_approval (av_state w) (av_approval w) = Inr ()"
  using assms unfolding parseAgentRuntimeView_def and_then_Inr_iff by auto

lemma accepted_view:
  assumes "parseAgentRuntimeView parse_url v = Inr w"
  shows "view_consistent parse_url w"
proof -
  obtain vs va where s: "parseState parse_url vs = Inr (av_state w)"
    and r: "check_run (av_run w) (av_state w) = Inr ()"
    and a: "optional_value parsePendingApproval va = Inr (av_approval w)"
    and c: "check_approval (av_state w) (av_approval w) = Inr ()"
    by (rule parse_view_parts [OF assms])
  have state: "state_parts_ok parse_url (av_state w) \<and> state_consistent (av_state w)"
    by (rule parseState_parts [OF s])
  have approval: "case av_approval w of
      None \<Rightarrow> as_status (av_state w) \<noteq> WaitingApproval
    | Some p \<Rightarrow> as_status (av_state w) = WaitingApproval \<and> (\<exists>c. as_toolCall (av_state w) = Some c \<and> approval_fits c p)"
  proof (cases "av_approval w")
    case None
    then show ?thesis using c check_approval_Inr(2) by simp
  next
    case (Some p)
    obtain call where call: "as_toolCall (av_state w) = Some call" "pa_toolCallId p = tc_toolCallId call"
      "pa_toolName p = tc_toolName call" "pa_actionVersion p = tc_actionVersion call"
      "approvalEffectKindForTool (tc_toolName call) = Some (pa_effect p)"
      and status: "as_status (av_state w) = WaitingApproval"
      using check_approval_Inr(1) c Some by metis
    have "tool_call_ok parse_url call" using state call(1) by (simp add: state_parts_ok_def)
    moreover have "(pa_quote p \<noteq> None \<longleftrightarrow> paid_tool (pa_toolName p)) \<and> pa_targetIds p \<noteq> [] \<and> distinct (pa_targetIds p)"
      using a Some by (auto simp: optional_value_def and_then_Inr_iff dest: parsePendingApproval_Inr split: option.splits)
    ultimately have "approval_fits call p" using call by (simp add: approval_fits_def tool_call_ok_def)
    then show ?thesis using Some status call(1) by simp
  qed
  show ?thesis
    using state approval check_run_Inr [OF r] unfolding view_consistent_def Let_def by blast
qed

subsection \<open>The bridge's reading of a view\<close>

definition bridge_view :: "agent_view \<Rightarrow> run_view" where
  "bridge_view w =
     (let s = av_state w
      in \<lparr>vw_runId = ag_id (av_run w), vw_local = ag_local (av_run w), vw_version = nat (as_stateVersion s),
          vw_status = as_status s,
          vw_lastToolResult = map_option (\<lambda>r. \<lparr>rt_toolCallId = rr_toolCallId r,
            rt_actionVersion = nat (rr_actionVersion r), rt_succeeded = rr_succeeded r,
            rt_errorCode = rr_errorCode r\<rparr>) (as_lastResult s),
          vw_pendingToolCall = map_option tc_toolCallId (as_toolCall s),
          vw_pendingApproval = (av_approval w \<noteq> None), vw_feedback = as_feedback s,
          vw_failureCode = as_failureCode s, vw_repairable = verification_is Repairable s\<rparr>)"


text \<open>
  What the bridge reads of an accepted view cannot mislead it: a run that has ended has neither a
  pending call nor a pending approval, and while an approval is pending for the call it has in hand,
  the bridge reports that it awaits it and does nothing else.
\<close>

lemma bridge_awaits_accepted_approval:
  assumes "parseAgentRuntimeView parse_url v = returns w"
  shows "(if isTerminalStatus (vw_status (bridge_view w))
          then vw_pendingToolCall (bridge_view w) = None \<and> \<not> vw_pendingApproval (bridge_view w)
          else vw_pendingApproval (bridge_view w) = (vw_status (bridge_view w) = WaitingApproval)) \<and>
    (case av_approval w of
       None \<Rightarrow> True
     | Some p \<Rightarrow>
         bridge_pending an (bridge_view w) x (q\<lparr>lc_requestId := pa_toolCallId p\<rparr>) b =
           (returns (), bridge_setState (AwaitingApproval (ar_threadId x) (ar_turnId x) (ar_runId x)
              (pa_toolCallId p)) b))"
proof -
  let ?s = "av_state w"
  have c: "view_consistent parse_url w" by (rule accepted_view [OF assms])
  then have call: "as_toolCall ?s \<noteq> None \<longleftrightarrow> as_status ?s \<in> {WaitingApproval, WaitingTool}"
    by (simp add: view_consistent_def Let_def state_consistent_def)
  have approval: "av_approval w \<noteq> None \<longleftrightarrow> as_status ?s = WaitingApproval"
    using c by (cases "av_approval w") (simp_all add: view_consistent_def Let_def)
  have fits: "\<exists>c. as_toolCall ?s = Some c \<and> tc_toolCallId c = pa_toolCallId p" if "av_approval w = Some p" for p
    using c that by (auto simp: view_consistent_def Let_def approval_fits_def)
  have "as_status ?s \<noteq> WaitingApproval" "as_toolCall ?s = None" if "isTerminalStatus (as_status ?s)"
    using that call by (auto simp: isTerminalStatus_def)
  then show ?thesis
    using approval fits by (auto simp: bridge_view_def Let_def bridge_pending_def split: option.split)
qed

subsection \<open>A concrete view\<close>

definition sample_call_json :: json where
  "sample_call_json = JObj [(''toolCallId'', JStr ''x''), (''toolName'', JStr ''canvas.apply_ops''),
     (''actionVersion'', JNum 1),
     (''arguments'', arguments_json (ApplyOpsArguments ''x'' 0 ''x'' [DeleteNode ''x'' ''x''])),
     (''expectedDelivery'', delivery_json sample_delivery)]"

definition sample_state_json :: json where
  "sample_state_json = JObj [(''stateVersion'', JNum 1), (''stepNumber'', JNum 0), (''maxSteps'', JNum 5),
     (''status'', JStr ''waiting_approval''), (''userMessage'', JStr ''x''),
     (''configuration'', JObj [(''generationModels'', JObj []), (''skills'', JArr []), (''attachments'', JArr []),
        (''executionMode'', JStr ''guided'')]),
     (''clarificationHistory'', JArr []), (''pendingToolCall'', sample_call_json)]"

definition sample_run_json :: json where
  "sample_run_json = JObj [(''id'', JStr ''x''), (''threadId'', JStr ''x''), (''reasoningHost'', JStr ''local_codex''),
     (''actorUserId'', JStr ''x''), (''clientRequestId'', JStr ''x''), (''status'', JStr ''waiting_approval''),
     (''lastEventSequence'', JNum 0), (''stateVersion'', JNum 1), (''stepNumber'', JNum 0), (''maxSteps'', JNum 5),
     (''modelRecordId'', JStr []), (''modelKey'', JStr []), (''toolSchemaVersion'', JNum 8),
     (''runtimeVersion'', JNum 5), (''policyVersion'', JNum 5), (''createdAt'', JStr ''x''), (''updatedAt'', JStr ''x'')]"

definition sample_hash :: string where
  "sample_hash = replicate 64 (CHR ''0'')"

definition sample_approval_json :: json where
  "sample_approval_json = JObj [(''toolCallId'', JStr ''x''), (''toolName'', JStr ''canvas.apply_ops''),
     (''actionVersion'', JNum 1), (''proposalHash'', JStr sample_hash),
     (''expiresAt'', JStr ''2028-02-29T23:59:59.5Z''),
     (''effect'', JObj [(''kind'', JStr ''canvas_mutation''), (''summary'', JStr ''x''), (''targetIds'', JArr [JStr ''x''])])]"

definition sample_view_json :: json where
  "sample_view_json = JObj [(''run'', sample_run_json), (''state'', sample_state_json),
     (''pendingApproval'', sample_approval_json)]"

lemma vtext_print: "nonblank s \<Longrightarrow> vtext (Some (JStr s)) = Inr s"
  by simp

lemma sample_values:
  "nonblank ''x''" "identifier_valid ''x''" "iso_valid ''2028-02-29T23:59:59.5Z''"
  "nonblank ''2028-02-29T23:59:59.5Z''" "validCapabilityChecksum sample_hash"
  by code_simp+

lemma sample_hash_text: "nonblank sample_hash"
  unfolding nonblank_def by (rule checksum_text [OF sample_values(5)])

lemma sample_numbers:
  "vint True (Some (JNum 0)) = Inr 0" "vint z (Some (JNum 1)) = Inr 1" "vint z (Some (JNum 5)) = Inr 5"
  "vint z (Some (JNum 8)) = Inr 8"
  by (simp_all add: integer_valid_def safe_integer_def)

lemmas sample_simps = sample_values sample_hash_text sample_numbers vtext_print venum_def

lemma sample_call_read:
  "\<exists>c. parseToolCall u (Some sample_call_json) = Inr c \<and> tc_toolCallId c = ''x'' \<and> tc_actionVersion c = 1 \<and>
     tc_toolName c = ''canvas.apply_ops''"
proof -
  let ?a = "ApplyOpsArguments ''x'' 0 ''x'' [DeleteNode ''x'' ''x'']"
  have v: "arguments_valid u ?a" by (simp add: sample_values integer_valid_def safe_integer_def)
  have a: "parseAgentCapabilityArguments u ''canvas.apply_ops'' (Some (arguments_json ?a)) = Inr ?a"
    using parse_arguments_print [OF v] by simp
  have d: "parseAgentExpectedDelivery (Some (delivery_json sample_delivery)) = Inr (wire_delivery_of sample_delivery)"
    by (simp add: wire_delivery_json delivery_readable_def sample_delivery_def)
  have t: "isAgentToolName (Some (JStr ''canvas.apply_ops''))" by (simp add: toolNames_def)
  show ?thesis
    unfolding parseToolCall_def sample_call_json_def
    by (simp add: a d t sample_simps del: arguments_json.simps isAgentToolName.simps cong: and_then_first)
qed

lemma sample_state_read:
  "\<exists>s c. parseState u (Some sample_state_json) = Inr s \<and> as_toolCall s = Some c \<and> tc_toolCallId c = ''x'' \<and>
     tc_actionVersion c = 1 \<and> tc_toolName c = ''canvas.apply_ops'' \<and> as_status s = WaitingApproval \<and>
     as_stateVersion s = 1 \<and> as_stepNumber s = 0 \<and> as_maxSteps s = 5 \<and> rc_mode (as_configuration s) = Guided"
proof -
  obtain c where c: "parseToolCall u (Some sample_call_json) = Inr c" "tc_toolCallId c = ''x''"
    "tc_actionVersion c = 1" "tc_toolName c = ''canvas.apply_ops''"
    using sample_call_read [of u] by blast
  have conf: "parseRunConfiguration (Some (JObj [(''generationModels'', JObj []), (''skills'', JArr []),
      (''attachments'', JArr []), (''executionMode'', JStr ''guided'')])) =
    Inr \<lparr>rc_models = \<lparr>rm_image = None, rm_video = None, rm_audio = None, rm_vision = None\<rparr>, rc_skills = [],
      rc_attachments = [], rc_mode = Guided\<rparr>"
    by (simp add: parseRunConfiguration_def parseRunGenerationModelSelections_def runExecutionMode_def
        executionMode_def sample_simps cong: and_then_first)
  have status: "runStatus (Some (JStr ''waiting_approval'')) = Inr WaitingApproval"
    by (simp add: runStatus_def runStatuses_def venum_def)
  have history: "parseClarificationHistory parseAgentExpectedDelivery (Some (JArr [])) = Inr []"
    by (simp add: parseClarificationHistory_def)
  show ?thesis
    unfolding parseState_def sample_state_json_def
    by (simp add: c conf status history sample_simps validateStateFacts_def Let_def js_set_of_def
        clarification_deliveries_def verification_is_def cong: and_then_first)
qed

lemma sample_run_read:
  "\<exists>r. parse_run (Some sample_run_json) = Inr r \<and> ag_status r = WaitingApproval \<and> ag_local r \<and>
     ag_modelRecordId r = [] \<and> ag_modelKey r = [] \<and> ag_stateVersion r = 1 \<and> ag_stepNumber r = 0 \<and>
     ag_maxSteps r = 5 \<and> isCurrentContract r"
proof -
  have status: "runStatus (Some (JStr ''waiting_approval'')) = Inr WaitingApproval"
    by (simp add: runStatus_def runStatuses_def venum_def)
  have host: "parseReasoningHost (Some (JStr ''local_codex'')) = Inr True"
    by (simp add: parseReasoningHost_def venum_def)
  have empty: "vtext_or_empty (Some (JStr [])) = Inr []" by (simp add: vtext_or_empty_def)
  show ?thesis
    unfolding parse_run_def sample_run_json_def
    by (simp add: status host empty sample_simps isCurrentContract_def cong: and_then_first)
qed

lemma sample_approval_read:
  "\<exists>p. parsePendingApproval (Some sample_approval_json) = Inr p \<and> pa_toolCallId p = ''x'' \<and>
     pa_toolName p = ''canvas.apply_ops'' \<and> pa_actionVersion p = 1 \<and> pa_effect p = CanvasMutation"
proof -
  have t: "isAgentToolName (Some (JStr ''canvas.apply_ops''))" by (simp add: toolNames_def)
  have i: "isoInstant (Some (JStr ''2028-02-29T23:59:59.5Z'')) = Inr ''2028-02-29T23:59:59.5Z''"
    by (simp add: isoInstant_def sample_simps)
  show ?thesis
    unfolding parsePendingApproval_def sample_approval_json_def
    by (simp add: t i sample_simps effect_kinds_def js_set_of_def js_add_def
        del: isAgentToolName.simps cong: and_then_first)
qed

lemma sample_view_read:
  "\<exists>w p. parseAgentRuntimeView u (Some sample_view_json) = Inr w \<and> av_approval w = Some p \<and> pa_toolCallId p = ''x''"
proof -
  obtain s c where s: "parseState u (Some sample_state_json) = Inr s" "as_toolCall s = Some c" "tc_toolCallId c = ''x''"
     "tc_actionVersion c = 1" "tc_toolName c = ''canvas.apply_ops''" "as_status s = WaitingApproval"
     "as_stateVersion s = 1" "as_stepNumber s = 0" "as_maxSteps s = 5" "rc_mode (as_configuration s) = Guided"
    using sample_state_read [of u] by blast
  obtain r where r: "parse_run (Some sample_run_json) = Inr r" "ag_status r = WaitingApproval" "ag_local r"
     "ag_modelRecordId r = []" "ag_modelKey r = []" "ag_stateVersion r = 1" "ag_stepNumber r = 0"
     "ag_maxSteps r = 5" "isCurrentContract r"
    using sample_run_read by blast
  obtain p where p: "parsePendingApproval (Some sample_approval_json) = Inr p" "pa_toolCallId p = ''x''"
     "pa_toolName p = ''canvas.apply_ops''" "pa_actionVersion p = 1" "pa_effect p = CanvasMutation"
    using sample_approval_read by blast
  have run: "check_run r s = Inr ()" using s r by (simp add: check_run_def)
  have approval: "check_approval s (Some p) = Inr ()"
    using s p by (simp add: check_approval_def approvalEffectKindForTool_def)
  have o: "vobject (Some sample_run_json) = Inr (json_properties sample_run_json)"
    by (simp add: sample_run_json_def)
  have "parseAgentRuntimeView u (Some sample_view_json) = Inr \<lparr>av_run = r, av_state = s, av_approval = Some p\<rparr>"
    unfolding parseAgentRuntimeView_def sample_view_json_def
    by (simp add: o s(1) r(1) p(1) run approval cong: and_then_first)
  then show ?thesis using p(2) by auto
qed


lemma bridge_awaits_accepted_approval_witness:
  "\<exists>w. parseAgentRuntimeView (\<lambda>_. None) (Some sample_view_json) = returns w \<and>
     vw_pendingApproval (bridge_view w) \<and> vw_status (bridge_view w) = WaitingApproval"
proof -
  obtain w p where w: "parseAgentRuntimeView (\<lambda>_. None) (Some sample_view_json) = Inr w" "av_approval w = Some p"
    using sample_view_read by blast
  then have "vw_pendingApproval (bridge_view w)" by (simp add: bridge_view_def Let_def)
  with bridge_awaits_accepted_approval [OF w(1), THEN conjunct1] w(1) show ?thesis by (auto split: if_splits)
qed

end
