(* ===== verification/AgentTimeline.thy ===== *)
theory AgentTimeline
  imports RuntimeView
begin

text \<open>
  The timeline of a run as the browser accepts it, from \<^verbatim>\<open>web/src/services/api/agent-runtime.ts\<close>: items and
  their contents, events of the run's stream, the history of a thread. A content is the object the
  code builds. \<open>rejectTransientMediaLocator\<close> walks through a content and refuses media addresses that
  expire.
\<close>

subsection \<open>Media addresses\<close>

definition resource_id :: "properties \<Rightarrow> string" where
  "resource_id ps = (case map_of ps ''resourceId'' of Some (JStr s) \<Rightarrow> js_trim s | _ \<Rightarrow> [])"

definition resource_prefix :: string where
  "resource_prefix = ''/api/resources/''"

definition resource_url :: "string \<Rightarrow> string" where
  "resource_url resourceId = (if resourceId \<noteq> [] then resource_prefix @ resourceId @ ''/file'' else [])"

fun locator_failure :: "json \<Rightarrow> view_error" where
  "locator_failure (JStr s) = (if js_starts_with s resource_prefix then LocatorMismatch else TransientLocator)"
| "locator_failure _ = TransientLocator"

fun rejectTransientMediaLocator :: "json \<Rightarrow> unit view"
  and reject_items :: "json list \<Rightarrow> unit view"
  and reject_entries :: "string \<Rightarrow> properties \<Rightarrow> unit view" where
  "rejectTransientMediaLocator (JArr xs) = reject_items xs"
| "rejectTransientMediaLocator (JObj ps) = reject_entries (resource_id ps) ps"
| "rejectTransientMediaLocator _ = returns ()"
| "reject_items [] = returns ()"
| "reject_items (x # xs) = and_then (rejectTransientMediaLocator x) (\<lambda>_. reject_items xs)"
| "reject_entries r [] = returns ()"
| "reject_entries r ((k, v) # ps) =
     (if k = ''signedUrl'' then throws TransientLocator
      else if k = ''url'' then
        if v \<noteq> JStr (resource_url r) then throws (locator_failure v) else reject_entries r ps
      else and_then (rejectTransientMediaLocator v) (\<lambda>_. reject_entries r ps))"

subsection \<open>Contents\<close>

datatype item_kind =
  UserMessageItem | AgentMessageItem | StatusItem | ClarificationItem | ToolCallItem | ToolResultItem
| ApprovalItem | ArtifactItem | ErrorItem

datatype item_status = ItemInProgress | ItemDone | ItemFailed | ItemDeclined | ItemInterrupted

definition timelineItemKinds :: "(string \<times> item_kind) list" where
  "timelineItemKinds =
     [(''user_message'', UserMessageItem), (''agent_message'', AgentMessageItem), (''status'', StatusItem),
      (''clarification'', ClarificationItem), (''tool_call'', ToolCallItem), (''tool_result'', ToolResultItem),
      (''approval'', ApprovalItem), (''artifact'', ArtifactItem), (''error'', ErrorItem)]"

definition timelineItemStatuses :: "(string \<times> item_status) list" where
  "timelineItemStatuses =
     [(''in_progress'', ItemInProgress), (''completed'', ItemDone), (''failed'', ItemFailed),
      (''declined'', ItemDeclined), (''interrupted'', ItemInterrupted)]"

definition timelineItemKind :: "json option \<Rightarrow> item_kind view" where
  "timelineItemKind = venum EnumUnknown timelineItemKinds"

definition timelineItemStatus :: "json option \<Rightarrow> item_status view" where
  "timelineItemStatus = venum EnumUnknown timelineItemStatuses"

definition enumText :: "string list \<Rightarrow> json option \<Rightarrow> string view" where
  "enumText allowed value =
     and_then (vtext value) (\<lambda>parsed. if parsed \<notin> set allowed then throws EnumUnknown else returns parsed)"

definition parseTimelineRevisionRef :: "json option \<Rightarrow> json view" where
  "parseTimelineRevisionRef value =
     and_then (vkeys [''artifactId'', ''revisionId''] value) (\<lambda>source.
     and_then (vtext (map_of source ''artifactId'')) (\<lambda>a.
     and_then (vtext (map_of source ''revisionId'')) (\<lambda>r.
       returns (JObj [(''artifactId'', JStr a), (''revisionId'', JStr r)]))))"

text \<open>Several text fields of one object, in the order they are read.\<close>

fun text_fields :: "string list \<Rightarrow> properties \<Rightarrow> properties view" where
  "text_fields [] source = returns []"
| "text_fields (k # ks) source =
     and_then (vtext (map_of source k)) (\<lambda>s.
     and_then (text_fields ks source) (\<lambda>ps. returns ((k, JStr s) # ps)))"

definition parse_assembly_output :: "json option \<Rightarrow> (properties \<times> string) view" where
  "parse_assembly_output value =
     and_then (vkeys [''artifactKey'', ''container'', ''videoCodec'', ''audioCodec'', ''width'', ''height'', ''frameRate''] value) (\<lambda>source.
     and_then (vtext (map_of source ''artifactKey'')) (\<lambda>key.
     and_then (enumText [''mp4''] (map_of source ''container'')) (\<lambda>container.
     and_then (enumText [''h264''] (map_of source ''videoCodec'')) (\<lambda>video.
     and_then (enumText [''none'', ''aac''] (map_of source ''audioCodec'')) (\<lambda>audio.
     and_then (vint False (map_of source ''width'')) (\<lambda>w.
     and_then (vint False (map_of source ''height'')) (\<lambda>h.
     and_then (vint False (map_of source ''frameRate'')) (\<lambda>rate.
       returns ([(''artifactKey'', JStr key), (''container'', JStr container), (''videoCodec'', JStr video),
         (''audioCodec'', JStr audio), (''width'', JNum (of_int w)), (''height'', JNum (of_int h)),
         (''frameRate'', JNum (of_int rate))], audio)))))))))"

definition parse_assembly_final :: "json option \<Rightarrow> json view" where
  "parse_assembly_final value =
     and_then (vkeys [''artifactRevision'', ''resourceId'', ''adopted''] value) (\<lambda>final.
     and_then (parseTimelineRevisionRef (map_of final ''artifactRevision'')) (\<lambda>revision.
     and_then (vtext (map_of final ''resourceId'')) (\<lambda>r.
     and_then (vflag (map_of final ''adopted'')) (\<lambda>adopted.
       returns (JObj [(''artifactRevision'', revision), (''resourceId'', JStr r), (''adopted'', JBool adopted)])))))"

definition assembly_facts_fit :: "string \<Rightarrow> bool \<Rightarrow> bool \<Rightarrow> bool" where
  "assembly_facts_fit taskStatus hasFinal hasError \<longleftrightarrow>
     \<not> ((taskStatus = ''queued'' \<or> taskStatus = ''running'') \<and> (hasFinal \<or> hasError)) \<and>
     \<not> (taskStatus = ''succeeded'' \<and> (\<not> hasFinal \<or> hasError)) \<and>
     \<not> ((taskStatus = ''failed'' \<or> taskStatus = ''cancelled'') \<and> (hasFinal \<or> \<not> hasError))"

definition parseMediaAssemblyTimelineContent :: "properties \<Rightarrow> properties view" where
  "parseMediaAssemblyTimelineContent source =
     and_then (vkeys [''contentType'', ''toolCallId'', ''actionVersion'', ''taskId'', ''taskStatus'', ''stage'',
                 ''clipCount'', ''audioMode'', ''output'', ''planRevision'', ''final'', ''errorCode'']
                 (Some (JObj source))) (\<lambda>content.
     and_then (enumText [''queued'', ''running'', ''succeeded'', ''failed'', ''cancelled'']
                 (map_of content ''taskStatus'')) (\<lambda>status.
     and_then (enumText [''none'', ''native'', ''independent''] (map_of content ''audioMode'')) (\<lambda>mode.
     and_then (parse_assembly_output (map_of content ''output'')) (\<lambda>(output, codec).
     if (mode = ''none'') \<noteq> (codec = ''none'') then throws ContentConflict
     else
       and_then (vtext (map_of content ''toolCallId'')) (\<lambda>call.
       and_then (vint False (map_of content ''actionVersion'')) (\<lambda>version.
       and_then (vtext (map_of content ''taskId'')) (\<lambda>task.
       and_then (vtext (map_of content ''stage'')) (\<lambda>stage.
       and_then (vint False (map_of content ''clipCount'')) (\<lambda>clips.
       and_then (parseTimelineRevisionRef (map_of content ''planRevision'')) (\<lambda>plan.
       and_then (optional_value parse_assembly_final (map_of content ''final'')) (\<lambda>final.
       and_then (optional_value vtext (map_of content ''errorCode'')) (\<lambda>code.
       if \<not> assembly_facts_fit status (final \<noteq> None) (code \<noteq> None) then throws ContentConflict
       else
         returns ([(''contentType'', JStr ''media_assembly''), (''toolCallId'', JStr call),
           (''actionVersion'', JNum (of_int version)), (''taskId'', JStr task), (''taskStatus'', JStr status),
           (''stage'', JStr stage), (''clipCount'', JNum (of_int clips)), (''audioMode'', JStr mode),
           (''output'', JObj output), (''planRevision'', plan)]
           @ opt_field ''final'' id final @ opt_field ''errorCode'' JStr code)))))))))))))"

definition publication_fields :: "string list" where
  "publication_fields =
     [''publicationId'', ''artifactRevisionId'', ''resourceId'', ''assetId'', ''assetVersionId'',
      ''projectAssetLinkId'', ''representationId'', ''publicationPurpose'']"

definition parse_publication :: "properties \<Rightarrow> properties view" where
  "parse_publication source =
     and_then (vkeys ([''contentType''] @ publication_fields @ [''targetCategory'', ''targetBindingKey''])
                 (Some (JObj source))) (\<lambda>content.
     and_then (text_fields publication_fields content) (\<lambda>fields.
     and_then (enumText [''character'', ''environment'', ''wardrobe'', ''prop'', ''weapon'', ''style'', ''other'']
                 (map_of content ''targetCategory'')) (\<lambda>category.
     and_then (vtext (map_of content ''targetBindingKey'')) (\<lambda>key.
       returns ([(''contentType'', JStr ''asset_publication'')] @ fields @
         [(''targetCategory'', JStr category), (''targetBindingKey'', JStr key)])))))"

definition parse_publication_failed :: "properties \<Rightarrow> properties view" where
  "parse_publication_failed source =
     and_then (vkeys [''contentType'', ''publicationId'', ''artifactRevisionId'', ''errorCode''] (Some (JObj source))) (\<lambda>content.
     and_then (text_fields [''publicationId'', ''artifactRevisionId'', ''errorCode''] content) (\<lambda>fields.
       returns ((''contentType'', JStr ''asset_publication_failed'') # fields)))"

definition parseAgentV5TimelineContent :: "item_kind \<Rightarrow> properties \<Rightarrow> properties view" where
  "parseAgentV5TimelineContent kind source =
     (case map_of source ''contentType'' of
        Some (JStr t) \<Rightarrow>
          if t = ''stage_review_resolution'' \<or> t = ''artifact_review'' then throws ContractUnsupported
          else if t = ''media_assembly'' then
            if kind \<noteq> ToolCallItem then throws ContentConflict else parseMediaAssemblyTimelineContent source
          else if t = ''asset_publication'' then
            if kind \<noteq> ArtifactItem then throws ContentConflict else parse_publication source
          else if t = ''asset_publication_failed'' then
            if kind \<noteq> ArtifactItem then throws ContentConflict else parse_publication_failed source
          else throws ContractUnsupported
      | _ \<Rightarrow> throws ContractUnsupported)"

text \<open>\<^verbatim>\<open>parseToolTimelineActivity\<close>: what a tool call reports, at most one change of its state at a time.\<close>

definition vision_json :: "vision_result \<Rightarrow> properties" where
  "vision_json r =
     [(''taskId'', JStr (vs_taskId r)), (''billingOrderId'', JStr (vs_billingOrderId r)),
      (''modelRecordId'', JStr (vs_modelRecordId r)), (''modelKey'', JStr (vs_modelKey r)),
      (''clientRequestId'', JStr (vs_clientRequestId r)),
      (''sourceResourceIds'', JArr (map JStr (vs_sourceResourceIds r))),
      (''detail'', detail_json (vs_original r)), (''analysis'', JStr (vs_analysis r)),
      (''usage'', JObj [(''inputTokens'', JNum (of_int (vs_inputTokens r))),
         (''cachedTokens'', JNum (of_int (vs_cachedTokens r))),
         (''outputTokens'', JNum (of_int (vs_outputTokens r)))])]"

fun capability_output :: "capability_result \<Rightarrow> properties" where
  "capability_output (ObjectResult ps) = ps"
| "capability_output (VisionResult r) = vision_json r"

definition activity_output :: "url_parser \<Rightarrow> string option \<Rightarrow> json option \<Rightarrow> properties view" where
  "activity_output parse_url toolName value =
     and_then (vobject value) (\<lambda>output.
       if toolName = Some ''vision.analyze'' then
         and_then (viewed (shaped (strict (parseAgentCapabilityResult parse_url ''vision.analyze'' (Some (JObj output))))))
           (\<lambda>r. returns (capability_output r))
       else returns output)"

definition activity_tool :: "json option \<Rightarrow> string view" where
  "activity_tool value =
     (if \<not> isAgentToolName value then throws ApprovalTool
      else returns (case value of Some (JStr s) \<Rightarrow> s | _ \<Rightarrow> []))"

definition activity_facts_fit ::
  "bool option \<Rightarrow> bool option \<Rightarrow> string option \<Rightarrow> string option \<Rightarrow> properties option \<Rightarrow> bool" where
  "activity_facts_fit started succeeded decision errorCode output \<longleftrightarrow>
     of_bool (started \<noteq> None) + of_bool (succeeded \<noteq> None) + of_bool (decision \<noteq> None) \<le> (1 :: nat) \<and>
     started \<noteq> Some False \<and>
     (output \<noteq> None \<longrightarrow> succeeded = Some True) \<and>
     (errorCode \<noteq> None \<longrightarrow> succeeded = Some False)"

definition parseToolTimelineActivity :: "url_parser \<Rightarrow> properties \<Rightarrow> properties view" where
  "parseToolTimelineActivity parse_url value =
     and_then (vkeys [''toolCallId'', ''toolName'', ''actionVersion'', ''started'', ''succeeded'', ''errorCode'',
                 ''output'', ''decision''] (Some (JObj value))) (\<lambda>source.
     and_then (vtext (map_of source ''toolCallId'')) (\<lambda>call.
     and_then (vint False (map_of source ''actionVersion'')) (\<lambda>version.
     and_then (optional_value activity_tool (map_of source ''toolName'')) (\<lambda>tool.
     and_then (optional_value vflag (map_of source ''started'')) (\<lambda>started.
     and_then (optional_value vflag (map_of source ''succeeded'')) (\<lambda>succeeded.
     and_then (optional_value vtext (map_of source ''errorCode'')) (\<lambda>code.
     and_then (optional_value (activity_output parse_url tool) (map_of source ''output'')) (\<lambda>output.
     and_then (optional_value (enumText [''approved'', ''rejected'']) (map_of source ''decision'')) (\<lambda>decision.
     if \<not> activity_facts_fit started succeeded decision code output then throws ContentConflict
     else
       returns ([(''toolCallId'', JStr call), (''actionVersion'', JNum (of_int version))]
         @ opt_field ''toolName'' JStr tool @ opt_field ''started'' JBool started
         @ opt_field ''succeeded'' JBool succeeded @ opt_field ''errorCode'' JStr code
         @ opt_field ''output'' JObj output @ opt_field ''decision'' JStr decision))))))))))"

definition timeline_body :: "url_parser \<Rightarrow> item_kind \<Rightarrow> properties \<Rightarrow> properties view" where
  "timeline_body parse_url kind source =
     (if map_of source ''contentType'' \<noteq> None then parseAgentV5TimelineContent kind source
      else if kind = ArtifactItem then
        vkeys [''artifactId'', ''kind'', ''planKey'', ''planVersion'', ''referenceKey'', ''shotKey'',
          ''resourceId'', ''status''] (Some (JObj source))
      else if kind = ToolCallItem then parseToolTimelineActivity parse_url source
      else returns source)"

definition parseTimelineContent :: "url_parser \<Rightarrow> item_kind \<Rightarrow> json option \<Rightarrow> properties view" where
  "parseTimelineContent parse_url kind value =
     and_then (vobject value) (\<lambda>source.
     and_then (timeline_body parse_url kind source) (\<lambda>content.
     and_then (rejectTransientMediaLocator (JObj content)) (\<lambda>_. returns content)))"

subsection \<open>Events of a run\<close>

record event_item =
  ei_kind :: item_kind
  ei_status :: item_status
  ei_content :: properties

record run_payload =
  ep_status :: run_status
  ep_stateVersion :: int
  ep_failureCode :: "string option"
  ep_item :: "event_item option"

datatype runtime_event_kind =
  RunStartedEvent | RunCompletedEvent | RunFailedEvent | RunInterruptedEvent | ItemStarted | ItemDelta | ItemCompleted
| ItemFailedEvent | ApprovalRequested | ApprovalResolved | StateSnapshot

definition eventKinds :: "(string \<times> runtime_event_kind) list" where
  "eventKinds =
     [(''run.started'', RunStartedEvent), (''run.completed'', RunCompletedEvent), (''run.failed'', RunFailedEvent),
      (''run.interrupted'', RunInterruptedEvent), (''item.started'', ItemStarted), (''item.delta'', ItemDelta),
      (''item.completed'', ItemCompleted), (''item.failed'', ItemFailedEvent),
      (''approval.requested'', ApprovalRequested), (''approval.resolved'', ApprovalResolved),
      (''state.snapshot'', StateSnapshot)]"

definition runEventKinds :: "runtime_event_kind list" where
  "runEventKinds = [RunStartedEvent, RunCompletedEvent, RunFailedEvent, RunInterruptedEvent, StateSnapshot]"

datatype event_payload = RunPayload run_payload | ItemPayload item_kind properties

record runtime_event =
  ue_threadId :: string
  ue_runId :: string
  ue_sequence :: int
  ue_createdAt :: string
  ue_kind :: runtime_event_kind
  ue_itemId :: "string option"
  ue_payload :: event_payload

definition parse_event_item :: "url_parser \<Rightarrow> json option \<Rightarrow> event_item view" where
  "parse_event_item parse_url value =
     and_then (vkeys [''kind'', ''status'', ''content''] value) (\<lambda>item.
     and_then (timelineItemKind (map_of item ''kind'')) (\<lambda>kind.
     and_then (timelineItemStatus (map_of item ''status'')) (\<lambda>status.
     and_then (parseTimelineContent parse_url kind (map_of item ''content'')) (\<lambda>content.
       returns \<lparr>ei_kind = kind, ei_status = status, ei_content = content\<rparr>))))"

definition parseRunEventPayload :: "url_parser \<Rightarrow> json option \<Rightarrow> run_payload view" where
  "parseRunEventPayload parse_url value =
     and_then (vkeys [''status'', ''stateVersion'', ''failureCode'', ''item''] value) (\<lambda>source.
     and_then (runStatus (map_of source ''status'')) (\<lambda>status.
     and_then (vint False (map_of source ''stateVersion'')) (\<lambda>version.
     and_then (optional_value vtext (map_of source ''failureCode'')) (\<lambda>code.
     and_then (optional_value (parse_event_item parse_url) (map_of source ''item'')) (\<lambda>item.
       returns \<lparr>ep_status = status, ep_stateVersion = version, ep_failureCode = code, ep_item = item\<rparr>)))))"

fun expected_status :: "runtime_event_kind \<Rightarrow> run_status option" where
  "expected_status RunCompletedEvent = Some RunSucceeded"
| "expected_status RunFailedEvent = Some RunFailed"
| "expected_status RunInterruptedEvent = Some RunCancelled"
| "expected_status _ = None"

definition validateRunUIEvent :: "runtime_event_kind \<Rightarrow> string option \<Rightarrow> run_payload \<Rightarrow> unit view" where
  "validateRunUIEvent kind itemId payload =
     (let expected = expected_status kind
      in if expected \<noteq> None \<and> Some (ep_status payload) \<noteq> expected then throws EventStatus
         else if expected \<noteq> None \<and> (itemId = None \<or> ep_item payload = None) then throws EventWithoutItem
         else if ep_item payload \<noteq> None \<and> itemId = None then throws EventWithoutItemId
         else returns ())"

text \<open>The two shapes of an event; \<open>event\<close> adds the identifier of its item and its payload to the base.\<close>

definition parse_run_event ::
  "url_parser \<Rightarrow> properties \<Rightarrow> runtime_event_kind \<Rightarrow> (string option \<Rightarrow> event_payload \<Rightarrow> runtime_event) \<Rightarrow>
   runtime_event view" where
  "parse_run_event parse_url source kind event =
     (if map_of source ''itemKind'' \<noteq> None then throws RunEventWithItemKind
      else
        and_then (optional_value vtext (map_of source ''itemId'')) (\<lambda>itemId.
        and_then (parseRunEventPayload parse_url (map_of source ''payload'')) (\<lambda>payload.
        and_then (validateRunUIEvent kind itemId payload) (\<lambda>_.
          returns (event itemId (RunPayload payload))))))"

definition parse_item_event ::
  "url_parser \<Rightarrow> properties \<Rightarrow> (string option \<Rightarrow> event_payload \<Rightarrow> runtime_event) \<Rightarrow> runtime_event view" where
  "parse_item_event parse_url source event =
     and_then (vtext (map_of source ''itemId'')) (\<lambda>itemId.
     and_then (timelineItemKind (map_of source ''itemKind'')) (\<lambda>itemKind.
     and_then (parseTimelineContent parse_url itemKind (map_of source ''payload'')) (\<lambda>payload.
       returns (event (Some itemId) (ItemPayload itemKind payload)))))"

definition parseAgentRuntimeEvent :: "url_parser \<Rightarrow> json option \<Rightarrow> runtime_event view" where
  "parseAgentRuntimeEvent parse_url value =
     and_then (vkeys [''protocolVersion'', ''threadId'', ''runId'', ''sequence'', ''kind'', ''itemId'', ''itemKind'',
                 ''payload'', ''createdAt''] value) (\<lambda>source.
     if map_of source ''protocolVersion'' \<noteq> Some (JNum 5) then throws EventProtocol
     else
       and_then (venum EventKind eventKinds (map_of source ''kind'')) (\<lambda>kind.
       and_then (vtext (map_of source ''threadId'')) (\<lambda>thread.
       and_then (vtext (map_of source ''runId'')) (\<lambda>run.
       and_then (vint False (map_of source ''sequence'')) (\<lambda>sequence.
       and_then (isoInstant (map_of source ''createdAt'')) (\<lambda>created.
         let event = (\<lambda>itemId payload.
           \<lparr>ue_threadId = thread, ue_runId = run, ue_sequence = sequence, ue_createdAt = created,
             ue_kind = kind, ue_itemId = itemId, ue_payload = payload\<rparr>)
         in if kind \<in> set runEventKinds then parse_run_event parse_url source kind event
            else parse_item_event parse_url source event))))))"

text \<open>
  A subscription: what the page is told, message by message. \<open>data\<close> is the message's text as JSON,
  \<open>None\<close> where it is none. A message that cannot be accepted closes the source, and a closed source
  dispatches nothing more. The page's own handlers are taken to return; the connection errors the
  platform reports between messages are not part of the sequence.
\<close>

datatype subscription_call = OnEvent runtime_event | OnError view_error

record subscription =
  sb_open :: bool
  sb_calls :: "subscription_call list"

definition receive_event :: "url_parser \<Rightarrow> string \<Rightarrow> runtime_event_kind \<Rightarrow> json option \<Rightarrow> runtime_event view" where
  "receive_event parse_url runId kind data =
     (case data of
        None \<Rightarrow> throws EventNotJson
      | Some _ \<Rightarrow>
          and_then (parseAgentRuntimeEvent parse_url data) (\<lambda>parsed.
            if ue_kind parsed \<noteq> kind then throws EventNameMismatch
            else if ue_runId parsed \<noteq> runId then throws EventForeign
            else returns parsed))"

definition subscription_message ::
  "url_parser \<Rightarrow> string \<Rightarrow> string \<times> json option \<Rightarrow> subscription \<Rightarrow> subscription" where
  "subscription_message parse_url runId m b =
     (if \<not> sb_open b then b
      else case map_of eventKinds (fst m) of
        None \<Rightarrow> b
      | Some kind \<Rightarrow>
          (case receive_event parse_url runId kind (snd m) of
             Inl e \<Rightarrow> \<lparr>sb_open = False, sb_calls = sb_calls b @ [OnError e]\<rparr>
           | Inr event \<Rightarrow> b\<lparr>sb_calls := sb_calls b @ [OnEvent event]\<rparr>))"

definition new_subscription :: subscription where
  "new_subscription = \<lparr>sb_open = True, sb_calls = []\<rparr>"

definition subscribe :: "url_parser \<Rightarrow> string \<Rightarrow> (string \<times> json option) list \<Rightarrow> subscription" where
  "subscribe parse_url runId ms = fold (subscription_message parse_url runId) ms new_subscription"

subsection \<open>The history of a canvas\<close>

record timeline_item =
  ti_id :: string
  ti_runId :: string
  ti_kind :: item_kind
  ti_status :: item_status
  ti_ordinal :: int
  ti_sequence :: int
  ti_content :: properties
  ti_startedAt :: string
  ti_completedAt :: "string option"
  ti_createdAt :: string
  ti_updatedAt :: string

definition parseAgentTimelineItem :: "url_parser \<Rightarrow> string \<Rightarrow> json option \<Rightarrow> timeline_item view" where
  "parseAgentTimelineItem parse_url runId value =
     and_then (vkeys [''id'', ''runId'', ''kind'', ''status'', ''ordinal'', ''sourceEventSequence'', ''content'',
                 ''startedAt'', ''completedAt'', ''createdAt'', ''updatedAt''] value) (\<lambda>source.
     and_then (vtext (map_of source ''runId'')) (\<lambda>itemRunId.
     if itemRunId \<noteq> runId then throws ItemRunMismatch
     else
       and_then (timelineItemKind (map_of source ''kind'')) (\<lambda>kind.
       and_then (vtext (map_of source ''id'')) (\<lambda>i.
       and_then (timelineItemStatus (map_of source ''status'')) (\<lambda>status.
       and_then (vint False (map_of source ''ordinal'')) (\<lambda>ordinal.
       and_then (vint False (map_of source ''sourceEventSequence'')) (\<lambda>sequence.
       and_then (parseTimelineContent parse_url kind (map_of source ''content'')) (\<lambda>content.
       and_then (isoInstant (map_of source ''startedAt'')) (\<lambda>started.
       and_then (isoInstant (map_of source ''createdAt'')) (\<lambda>created.
       and_then (isoInstant (map_of source ''updatedAt'')) (\<lambda>updated.
       and_then (optional_value isoInstant (map_of source ''completedAt'')) (\<lambda>completed.
       if status = ItemInProgress \<and> completed \<noteq> None then throws CompletedTooEarly
       else if status \<noteq> ItemInProgress \<and> completed = None then throws CompletedMissing
       else
         returns \<lparr>ti_id = i, ti_runId = itemRunId, ti_kind = kind, ti_status = status, ti_ordinal = ordinal,
           ti_sequence = sequence, ti_content = content, ti_startedAt = started, ti_completedAt = completed,
           ti_createdAt = created, ti_updatedAt = updated\<rparr>))))))))))))"

record history_run =
  hr_id :: string
  hr_threadId :: string
  hr_status :: run_status
  hr_lastSequence :: int
  hr_stateVersion :: int
  hr_stepNumber :: int
  hr_maxSteps :: int
  hr_modelKey :: string
  hr_toolSchemaVersion :: int
  hr_runtimeVersion :: int
  hr_policyVersion :: int
  hr_createdAt :: string
  hr_updatedAt :: string
  hr_completedAt :: "string option"

definition parseAgentThreadHistoryRun :: "json option \<Rightarrow> history_run view" where
  "parseAgentThreadHistoryRun value =
     and_then (vkeys [''id'', ''threadId'', ''status'', ''lastEventSequence'', ''stateVersion'', ''stepNumber'',
                 ''maxSteps'', ''modelKey'', ''toolSchemaVersion'', ''runtimeVersion'', ''policyVersion'',
                 ''createdAt'', ''updatedAt'', ''completedAt''] value) (\<lambda>source.
     and_then (vtext (map_of source ''id'')) (\<lambda>i.
     and_then (vtext (map_of source ''threadId'')) (\<lambda>t.
     and_then (runStatus (map_of source ''status'')) (\<lambda>status.
     and_then (vint True (map_of source ''lastEventSequence'')) (\<lambda>sequence.
     and_then (vint False (map_of source ''stateVersion'')) (\<lambda>version.
     and_then (vint True (map_of source ''stepNumber'')) (\<lambda>step.
     and_then (vint False (map_of source ''maxSteps'')) (\<lambda>steps.
     and_then (vtext_or_empty (map_of source ''modelKey'')) (\<lambda>key.
     and_then (vint False (map_of source ''toolSchemaVersion'')) (\<lambda>schema.
     and_then (vint False (map_of source ''runtimeVersion'')) (\<lambda>runtime.
     and_then (vint False (map_of source ''policyVersion'')) (\<lambda>policy.
     and_then (isoInstant (map_of source ''createdAt'')) (\<lambda>created.
     and_then (isoInstant (map_of source ''updatedAt'')) (\<lambda>updated.
     and_then (optional_value isoInstant (map_of source ''completedAt'')) (\<lambda>completed.
       returns \<lparr>hr_id = i, hr_threadId = t, hr_status = status, hr_lastSequence = sequence,
         hr_stateVersion = version, hr_stepNumber = step, hr_maxSteps = steps, hr_modelKey = key,
         hr_toolSchemaVersion = schema, hr_runtimeVersion = runtime, hr_policyVersion = policy,
         hr_createdAt = created, hr_updatedAt = updated, hr_completedAt = completed\<rparr>)))))))))))))))"

record history_turn =
  ht_run :: history_run
  ht_items :: "timeline_item list"

text \<open>The loop over the items of a turn; \<open>n\<close> is \<^verbatim>\<open>index + 1\<close>.\<close>

fun check_items :: "int \<Rightarrow> int \<Rightarrow> timeline_item list \<Rightarrow> unit view" where
  "check_items lastSequence n [] = returns ()"
| "check_items lastSequence n (i # is) =
     (if ti_ordinal i \<noteq> n then throws OrdinalGap
      else if ti_sequence i > lastSequence then throws SequenceBeyondRun
      else check_items lastSequence (n + 1) is)"

definition parseAgentThreadHistoryTurn :: "url_parser \<Rightarrow> string \<Rightarrow> json option \<Rightarrow> history_turn view" where
  "parseAgentThreadHistoryTurn parse_url threadId value =
     and_then (vkeys [''run'', ''items''] value) (\<lambda>source.
     and_then (parseAgentThreadHistoryRun (map_of source ''run'')) (\<lambda>run.
     if hr_threadId run \<noteq> threadId then throws TurnRunMismatch
     else
       and_then (varray (map_of source ''items'')) (\<lambda>values.
       and_then (map_result (\<lambda>v. parseAgentTimelineItem parse_url (hr_id run) (Some v)) values) (\<lambda>items.
       and_then (check_items (hr_lastSequence run) 1 items) (\<lambda>_.
         returns \<lparr>ht_run = run, ht_items = items\<rparr>)))))"

record history_thread =
  hh_id :: string
  hh_canvasId :: string
  hh_createdAt :: string
  hh_updatedAt :: string
  hh_activityAt :: string
  hh_turns :: "history_turn list"

definition parseAgentThreadHistoryItem :: "url_parser \<Rightarrow> json option \<Rightarrow> history_thread view" where
  "parseAgentThreadHistoryItem parse_url value =
     and_then (vkeys [''thread'', ''activityAt'', ''turns''] value) (\<lambda>source.
     and_then (vkeys [''id'', ''canvasId'', ''status'', ''createdAt'', ''updatedAt''] (map_of source ''thread'')) (\<lambda>t.
     if map_of t ''status'' \<noteq> Some (JStr ''active'') then throws ThreadStatus
     else
       and_then (vtext (map_of t ''id'')) (\<lambda>i.
       and_then (vtext (map_of t ''canvasId'')) (\<lambda>canvas.
       and_then (isoInstant (map_of t ''createdAt'')) (\<lambda>created.
       and_then (isoInstant (map_of t ''updatedAt'')) (\<lambda>updated.
       and_then (varray (map_of source ''turns'')) (\<lambda>values.
       and_then (map_result (\<lambda>v. parseAgentThreadHistoryTurn parse_url i (Some v)) values) (\<lambda>turns.
       and_then (isoInstant (map_of source ''activityAt'')) (\<lambda>activity.
         returns \<lparr>hh_id = i, hh_canvasId = canvas, hh_createdAt = created, hh_updatedAt = updated,
           hh_activityAt = activity, hh_turns = turns\<rparr>)))))))))"

definition parseAgentThreadHistory :: "url_parser \<Rightarrow> json option \<Rightarrow> history_thread list view" where
  "parseAgentThreadHistory parse_url value =
     and_then (vobject value) (\<lambda>root.
     and_then (varray (map_of root ''items'')) (\<lambda>values.
     if length values > 20 then throws HistoryTooLong
     else map_result (\<lambda>v. parseAgentThreadHistoryItem parse_url (Some v)) values))"

section \<open>What is accepted\<close>

subsection \<open>Only addresses that last\<close>

inductive part_of :: "json \<Rightarrow> json \<Rightarrow> bool" where
  part_self: "part_of j j"
| part_element: "x \<in> set xs \<Longrightarrow> part_of p x \<Longrightarrow> part_of p (JArr xs)"
| part_entry: "(k, v) \<in> set ps \<Longrightarrow> part_of p v \<Longrightarrow> part_of p (JObj ps)"

inductive_simps part_of_simps:
  "part_of p JNull" "part_of p (JBool b)" "part_of p (JNum n)" "part_of p (JStr s)"
  "part_of p (JArr xs)" "part_of p (JObj ps)"

text \<open>
  No object of the value carries a signed address, and an address beside a resource is the one this
  site serves that resource at.
\<close>

definition object_safe :: "properties \<Rightarrow> bool" where
  "object_safe ps \<longleftrightarrow>
     list_all (\<lambda>(k, v). k \<noteq> ''signedUrl'' \<and> (k = ''url'' \<longrightarrow> v = JStr (resource_url (resource_id ps)))) ps"

definition media_safe :: "json \<Rightarrow> bool" where
  "media_safe j \<longleftrightarrow> (\<forall>ps. part_of (JObj ps) j \<longrightarrow> object_safe ps)"

lemma media_safe_atoms [simp]:
  "media_safe JNull" "media_safe (JBool b)" "media_safe (JNum n)" "media_safe (JStr s)"
  by (simp_all add: media_safe_def part_of_simps)

lemma media_safe_arr [simp]: "media_safe (JArr xs) \<longleftrightarrow> list_all media_safe xs"
  by (auto simp: media_safe_def part_of_simps list_all_iff)

lemma media_safe_obj [simp]:
  "media_safe (JObj ps) \<longleftrightarrow> object_safe ps \<and> list_all (\<lambda>(k, v). media_safe v) ps"
  by (auto simp: media_safe_def part_of_simps list_all_iff)

definition entry_accepted :: "string \<Rightarrow> string \<times> json \<Rightarrow> bool" where
  "entry_accepted r e \<longleftrightarrow>
     fst e \<noteq> ''signedUrl'' \<and>
     (if fst e = ''url'' then snd e = JStr (resource_url r) else rejectTransientMediaLocator (snd e) = Inr ())"

lemma reject_entries_Inr: "reject_entries r ps = Inr () \<longleftrightarrow> list_all (entry_accepted r) ps"
proof (induction ps)
  case (Cons e ps)
  then show ?case by (cases e) (auto simp: and_then_Inr_iff entry_accepted_def)
qed simp

lemma reject_items_Inr: "reject_items xs = Inr () \<longleftrightarrow> list_all (\<lambda>x. rejectTransientMediaLocator x = Inr ()) xs"
  by (induction xs) (auto simp: and_then_Inr_iff)

lemma rejectTransient_exact: "rejectTransientMediaLocator j = Inr () \<longleftrightarrow> media_safe j"
proof (induction j)
  case (JArr xs)
  then show ?case by (simp add: reject_items_Inr list_all_iff)
next
  case (JObj ps)
  have "rejectTransientMediaLocator v = Inr () \<longleftrightarrow> media_safe v" if "(k, v) \<in> set ps" for k v
    using JObj [of "(k, v)" v] that by simp
  then show ?case
    by (auto simp: reject_entries_Inr entry_accepted_def object_safe_def list_all_iff)
qed simp_all

lemma content_safe: "parseTimelineContent u kind v = Inr ps \<Longrightarrow> media_safe (JObj ps)"
  unfolding parseTimelineContent_def and_then_Inr_iff by (auto simp: rejectTransient_exact simp del: media_safe_obj rejectTransientMediaLocator.simps)

subsection \<open>Turns of a history\<close>

definition item_sound :: "history_run \<Rightarrow> timeline_item \<Rightarrow> bool" where
  "item_sound r i \<longleftrightarrow>
     ti_runId i = hr_id r \<and> ti_sequence i \<le> hr_lastSequence r \<and>
     (ti_completedAt i = None \<longleftrightarrow> ti_status i = ItemInProgress) \<and> media_safe (JObj (ti_content i))"

definition turn_sound :: "string \<Rightarrow> history_turn \<Rightarrow> bool" where
  "turn_sound threadId t \<longleftrightarrow>
     hr_threadId (ht_run t) = threadId \<and>
     map ti_ordinal (ht_items t) = [1..int (length (ht_items t))] \<and>
     list_all (item_sound (ht_run t)) (ht_items t)"

lemma check_items_Inr:
  "check_items m n xs = Inr () \<longleftrightarrow>
     map ti_ordinal xs = [n..n + int (length xs) - 1] \<and> list_all (\<lambda>i. ti_sequence i \<le> m) xs"
proof (induction xs arbitrary: n)
  case (Cons i xs)
  have "[n..n + int (length (i # xs)) - 1] = n # [n + 1..(n + 1) + int (length xs) - 1]"
    by (subst upto.simps) (simp add: algebra_simps)
  with Cons show ?case by auto
qed simp

lemma timeline_item_Inr:
  "parseAgentTimelineItem u r v = Inr i \<Longrightarrow>
     ti_runId i = r \<and> (ti_completedAt i = None \<longleftrightarrow> ti_status i = ItemInProgress) \<and> media_safe (JObj (ti_content i))"
  unfolding parseAgentTimelineItem_def and_then_Inr_iff guarded_Inr
  by (elim exE conjE) (auto dest: content_safe simp del: media_safe_obj)

lemma history_turn_Inr: "parseAgentThreadHistoryTurn u t v = Inr x \<Longrightarrow> turn_sound t x"
proof -
  assume "parseAgentThreadHistoryTurn u t v = Inr x"
  then obtain vs where t: "hr_threadId (ht_run x) = t"
    and items: "map_result (\<lambda>v. parseAgentTimelineItem u (hr_id (ht_run x)) (Some v)) vs = Inr (ht_items x)"
    and checked: "check_items (hr_lastSequence (ht_run x)) 1 (ht_items x) = Inr ()"
    unfolding parseAgentThreadHistoryTurn_def and_then_Inr_iff guarded_Inr by auto
  have "list_all (\<lambda>i. ti_runId i = hr_id (ht_run x) \<and> (ti_completedAt i = None \<longleftrightarrow> ti_status i = ItemInProgress) \<and>
      media_safe (JObj (ti_content i))) (ht_items x)"
    by (rule map_result_all [OF items timeline_item_Inr])
  then show ?thesis
    using t checked by (auto simp: turn_sound_def item_sound_def check_items_Inr list_all_iff simp del: media_safe_obj)
qed

lemma history_thread_Inr:
  "parseAgentThreadHistoryItem u v = Inr h \<Longrightarrow> list_all (turn_sound (hh_id h)) (hh_turns h)"
  unfolding parseAgentThreadHistoryItem_def and_then_Inr_iff guarded_Inr
  by (elim exE conjE) (auto elim!: map_result_all dest: history_turn_Inr)

text \<open>
  C31. In a history the browser accepts, of at most twenty threads, every turn belongs to its thread
  and lists the items of its own run under the ordinals 1, 2, 3 and so on without a gap, none of them
  later than the run's cursor; an item has a completion time exactly if it is no longer in progress,
  and no content carries a media address that expires.
\<close>

theorem accepted_history_is_sound:
  assumes "parseAgentThreadHistory u v = returns h"
  shows "length h \<le> 20 \<and> list_all (\<lambda>t. list_all (turn_sound (hh_id t)) (hh_turns t)) h"
  using assms unfolding parseAgentThreadHistory_def and_then_Inr_iff guarded_Inr
  by (auto dest: map_result_length elim!: map_result_all history_thread_Inr)

subsection \<open>Events\<close>

definition payload_item_safe :: "run_payload \<Rightarrow> bool" where
  "payload_item_safe p \<longleftrightarrow> (case ep_item p of None \<Rightarrow> True | Some i \<Rightarrow> media_safe (JObj (ei_content i)))"

text \<open>
  An event that ends a run says so with the status that belongs to it and carries the item that ends
  the timeline; whatever carries an item names it.
\<close>

definition event_sound :: "runtime_event \<Rightarrow> bool" where
  "event_sound e \<longleftrightarrow>
     (case ue_payload e of
        RunPayload p \<Rightarrow>
          ue_kind e \<in> set runEventKinds \<and> payload_item_safe p \<and>
          (ep_item p \<noteq> None \<longrightarrow> ue_itemId e \<noteq> None) \<and>
          (case expected_status (ue_kind e) of None \<Rightarrow> True | Some s \<Rightarrow> ep_status p = s \<and> ep_item p \<noteq> None)
      | ItemPayload k c \<Rightarrow>
          ue_kind e \<notin> set runEventKinds \<and> ue_itemId e \<noteq> None \<and> media_safe (JObj c))"

lemma event_item_safe: "parse_event_item u v = Inr i \<Longrightarrow> media_safe (JObj (ei_content i))"
  unfolding parse_event_item_def and_then_Inr_iff by (auto dest: content_safe simp del: media_safe_obj)

lemma run_payload_safe: "parseRunEventPayload u v = Inr p \<Longrightarrow> payload_item_safe p"
  unfolding parseRunEventPayload_def and_then_Inr_iff
  by (elim exE conjE)
    (auto simp: payload_item_safe_def optional_value_def and_then_Inr_iff dest: event_item_safe
       simp del: media_safe_obj split: option.splits)

lemma validateRunUIEvent_Inr:
  "validateRunUIEvent k i p = Inr () \<Longrightarrow>
     (ep_item p \<noteq> None \<longrightarrow> i \<noteq> None) \<and>
     (case expected_status k of None \<Rightarrow> True | Some s \<Rightarrow> ep_status p = s \<and> ep_item p \<noteq> None)"
  unfolding validateRunUIEvent_def Let_def guarded_Inr by (auto split: option.splits)

lemma run_event_Inr:
  assumes "parse_run_event u source kind event = Inr e" "kind \<in> set runEventKinds"
    and shape: "\<And>i p. ue_kind (event i p) = kind \<and> ue_itemId (event i p) = i \<and> ue_payload (event i p) = p"
  shows "event_sound e"
proof -
  obtain i p where p: "e = event i (RunPayload p)" "parseRunEventPayload u (map_of source ''payload'') = Inr p"
    "validateRunUIEvent kind i p = Inr ()"
    using assms(1) unfolding parse_run_event_def guarded_Inr and_then_Inr_iff by auto
  then show ?thesis
    using shape assms(2) run_payload_safe [OF p(2)] validateRunUIEvent_Inr [OF p(3)] by (simp add: event_sound_def)
qed

lemma item_event_Inr:
  assumes "parse_item_event u source event = Inr e" "kind \<notin> set runEventKinds"
    and shape: "\<And>i p. ue_kind (event i p) = kind \<and> ue_itemId (event i p) = i \<and> ue_payload (event i p) = p"
  shows "event_sound e"
proof -
  obtain i k c where c: "e = event (Some i) (ItemPayload k c)"
    "parseTimelineContent u k (map_of source ''payload'') = Inr c"
    using assms(1) unfolding parse_item_event_def and_then_Inr_iff by auto
  then show ?thesis
    using shape assms(2) content_safe [OF c(2)] by (simp add: event_sound_def del: media_safe_obj)
qed

lemma event_Inr: "parseAgentRuntimeEvent u v = Inr e \<Longrightarrow> event_sound e"
  unfolding parseAgentRuntimeEvent_def and_then_Inr_iff guarded_Inr Let_def
  by (elim exE conjE) (auto elim: run_event_Inr item_event_Inr split: if_splits)

subsection \<open>What a subscriber is told\<close>

lemma subscribe_snoc:
  "subscribe u r (ms @ [m]) = subscription_message u r m (subscribe u r ms)"
  by (simp add: subscribe_def)

text \<open>What the reading of one message would give; \<open>None\<close> for a name nobody listens to.\<close>

definition reading :: "url_parser \<Rightarrow> string \<Rightarrow> string \<times> json option \<Rightarrow> runtime_event view option" where
  "reading u r m = map_option (\<lambda>kind. receive_event u r kind (snd m)) (map_of eventKinds (fst m))"

definition readings :: "url_parser \<Rightarrow> string \<Rightarrow> (string \<times> json option) list \<Rightarrow> runtime_event view list" where
  "readings u r ms = List.map_filter (reading u r) ms"

fun told :: "runtime_event view list \<Rightarrow> subscription_call list" where
  "told [] = []"
| "told (Inr e # rs) = OnEvent e # told rs"
| "told (Inl x # rs) = [OnError x]"

definition own_event :: "string \<Rightarrow> subscription_call \<Rightarrow> bool" where
  "own_event r x = (case x of OnError e \<Rightarrow> True | OnEvent e \<Rightarrow> ue_runId e = r \<and> event_sound e)"

lemma told_append:
  "told (rs @ [x]) = (if list_all (\<lambda>x. \<not> isl x) rs then told rs @ told [x] else told rs)"
  by (induction rs rule: told.induct) (auto split: sum.split)

lemma subscribe_state:
  "sb_calls (subscribe u r ms) = told (readings u r ms) \<and> sb_open (subscribe u r ms) = list_all (\<lambda>x. \<not> isl x) (readings u r ms)"
proof (induction ms rule: rev_induct)
  case Nil
  then show ?case by (simp add: subscribe_def new_subscription_def readings_def map_filter_simps)
next
  case (snoc m ms)
  have "readings u r (ms @ [m]) = readings u r ms @ (case reading u r m of None \<Rightarrow> [] | Some x \<Rightarrow> [x])"
    by (simp add: readings_def List.map_filter_def split: option.split)
  with snoc show ?case
    by (auto simp: subscribe_snoc subscription_message_def reading_def told_append split: option.splits sum.splits)
qed

lemma receive_own: "receive_event u r k v = Inr e \<Longrightarrow> ue_runId e = r \<and> event_sound e"
  unfolding receive_event_def by (auto simp: and_then_Inr_iff event_Inr split: option.splits)

lemma told_own: "list_all (\<lambda>x. \<forall>e. x = Inr e \<longrightarrow> ue_runId e = r \<and> event_sound e) rs \<Longrightarrow> list_all (own_event r) (told rs)"
  by (induction rs rule: told.induct) (auto simp: own_event_def)

text \<open>
  C30. A subscriber to a run is told exactly the events that the messages of the run's event stream
  read as, in order, up to the first message that cannot be accepted; that one is reported and the
  stream is closed. Every event told belongs to the run subscribed to, and is sound: an end of the run
  comes with the matching status and item, and no content carries an address that expires.
\<close>

theorem subscription_tells_own_events:
  "sb_calls (subscribe u r ms) = told (readings u r ms) \<and>
   sb_open (subscribe u r ms) = list_all (\<lambda>x. \<not> isl x) (readings u r ms) \<and>
   list_all (own_event r) (sb_calls (subscribe u r ms))"
proof -
  have "list_all (\<lambda>x. \<forall>e. x = Inr e \<longrightarrow> ue_runId e = r \<and> event_sound e) (readings u r ms)"
    by (auto simp: list_all_iff readings_def List.map_filter_def reading_def receive_own)
  then show ?thesis using subscribe_state told_own by simp
qed

subsection \<open>A concrete history\<close>

definition instant_json :: json where
  "instant_json = JStr ''2028-02-29T23:59:59.5Z''"

definition sample_content :: properties where
  "sample_content = [(''resourceId'', JStr ''x''), (''url'', JStr ''/api/resources/x/file'')]"

definition sample_item_json :: json where
  "sample_item_json = JObj [(''id'', JStr ''x''), (''runId'', JStr ''x''), (''kind'', JStr ''status''),
     (''status'', JStr ''in_progress''), (''ordinal'', JNum 1), (''sourceEventSequence'', JNum 1),
     (''content'', JObj sample_content), (''startedAt'', instant_json), (''createdAt'', instant_json),
     (''updatedAt'', instant_json)]"

definition sample_history_run_json :: json where
  "sample_history_run_json = JObj [(''id'', JStr ''x''), (''threadId'', JStr ''x''), (''status'', JStr ''running''),
     (''lastEventSequence'', JNum 1), (''stateVersion'', JNum 1), (''stepNumber'', JNum 1), (''maxSteps'', JNum 5),
     (''modelKey'', JStr ''x''), (''toolSchemaVersion'', JNum 8), (''runtimeVersion'', JNum 5),
     (''policyVersion'', JNum 5), (''createdAt'', instant_json), (''updatedAt'', instant_json)]"

definition sample_history_json :: json where
  "sample_history_json = JObj [(''items'', JArr [JObj [
     (''thread'', JObj [(''id'', JStr ''x''), (''canvasId'', JStr ''x''), (''status'', JStr ''active''),
        (''createdAt'', instant_json), (''updatedAt'', instant_json)]),
     (''activityAt'', instant_json),
     (''turns'', JArr [JObj [(''run'', sample_history_run_json), (''items'', JArr [sample_item_json])]])]])]"

lemma instant_read [simp]: "isoInstant (Some instant_json) = Inr ''2028-02-29T23:59:59.5Z''"
  by (simp add: isoInstant_def instant_json_def sample_simps)

lemma sample_item_read:
  "\<exists>i. parseAgentTimelineItem u ''x'' (Some sample_item_json) = Inr i \<and> ti_ordinal i = 1 \<and> ti_sequence i = 1"
proof -
  have k: "timelineItemKind (Some (JStr ''status'')) = Inr StatusItem"
    by (simp add: timelineItemKind_def timelineItemKinds_def venum_def)
  have st: "timelineItemStatus (Some (JStr ''in_progress'')) = Inr ItemInProgress"
    by (simp add: timelineItemStatus_def timelineItemStatuses_def venum_def)
  have trim: "js_trim ''x'' = ''x''" by code_simp
  have c: "parseTimelineContent u StatusItem (Some (JObj sample_content)) = Inr sample_content"
    by (simp add: parseTimelineContent_def timeline_body_def sample_content_def resource_id_def resource_url_def
        resource_prefix_def trim)
  show ?thesis
    unfolding parseAgentTimelineItem_def sample_item_json_def
    by (simp add: k st c sample_simps cong: and_then_first)
qed

lemma sample_history_run_read:
  "\<exists>r. parseAgentThreadHistoryRun (Some sample_history_run_json) = Inr r \<and> hr_id r = ''x'' \<and> hr_threadId r = ''x'' \<and>
     hr_lastSequence r = 1"
proof -
  have status: "runStatus (Some (JStr ''running'')) = Inr RunRunning"
    by (simp add: runStatus_def runStatuses_def venum_def)
  have key: "vtext_or_empty (Some (JStr ''x'')) = Inr ''x''"
    by (simp add: vtext_or_empty_def sample_values)
  show ?thesis
    unfolding parseAgentThreadHistoryRun_def sample_history_run_json_def
    by (simp add: status key sample_simps cong: and_then_first)
qed

lemma sample_history_read: "\<exists>h. parseAgentThreadHistory u (Some sample_history_json) = Inr [h] \<and> length (hh_turns h) = 1"
proof -
  obtain i where i: "parseAgentTimelineItem u ''x'' (Some sample_item_json) = Inr i" "ti_ordinal i = 1" "ti_sequence i = 1"
    using sample_item_read by blast
  obtain r where r: "parseAgentThreadHistoryRun (Some sample_history_run_json) = Inr r" "hr_id r = ''x''"
    "hr_threadId r = ''x''" "hr_lastSequence r = 1"
    using sample_history_run_read by blast
  have "parseAgentThreadHistoryTurn u ''x'' (Some (JObj [(''run'', sample_history_run_json), (''items'', JArr [sample_item_json])]))
      = Inr \<lparr>ht_run = r, ht_items = [i]\<rparr>"
    by (simp add: parseAgentThreadHistoryTurn_def r i cong: and_then_first)
  then show ?thesis
    unfolding parseAgentThreadHistory_def sample_history_json_def
    by (simp add: parseAgentThreadHistoryItem_def sample_simps cong: and_then_first)
qed

lemma accepted_history_is_sound_witness:
  "\<exists>h. parseAgentThreadHistory (\<lambda>_. None) (Some sample_history_json) = returns h \<and> length h \<le> 20 \<and>
     list_all (\<lambda>t. list_all (turn_sound (hh_id t)) (hh_turns t)) h"
  using sample_history_read [of "\<lambda>_. None"] accepted_history_is_sound by blast

end
