(* ===== verification/RuntimeClient.thy ===== *)
theory RuntimeClient
  imports AgentTimeline
begin

text \<open>
  The rest of the browser's client of the agent service, from \<^verbatim>\<open>web/src/services/api/agent-runtime.ts\<close>: the
  envelope of an answer, the creation and listing of threads, and the handle by which the page finds a
  run again after it was reloaded. The network is the answer a request gets; JSON and the browser's
  storage are parameters.
\<close>

subsection \<open>Answers\<close>

record request_error =
  re_message :: "string option" \<comment> \<open>\<open>None\<close> is the client's own text for a refusal without one\<close>
  re_status :: nat
  re_code :: string
  re_latestStateVersion :: "int option"

datatype request_failure = NotJson nat | NoEnvelope view_error | Refused request_error

definition success_status :: "nat \<Rightarrow> bool" where
  "success_status s \<longleftrightarrow> 200 \<le> s \<and> s \<le> 299"

text \<open>\<open>answer\<close> is the status of the response and its body as JSON, \<open>None\<close> where the body is none.\<close>

definition refusal :: "nat \<Rightarrow> properties \<Rightarrow> request_error" where
  "refusal status envelope =
     (let payload = (case map_of envelope ''data'' of Some (JObj ps) \<Rightarrow> ps | _ \<Rightarrow> []);
          code = (case map_of payload ''errorCode'' of
                    Some (JStr s) \<Rightarrow> if js_trim s \<noteq> [] then s else ''agent_request_failed''
                  | _ \<Rightarrow> ''agent_request_failed'');
          latest = (case map_of payload ''latestStateVersion'' of
                      Some (JNum q) \<Rightarrow>
                        if q = of_int \<lfloor>q\<rfloor> \<and> safe_integer \<lfloor>q\<rfloor> \<and> \<lfloor>q\<rfloor> > 0 then Some \<lfloor>q\<rfloor> else None
                    | _ \<Rightarrow> None)
      in \<lparr>re_message = (case map_of envelope ''msg'' of Some (JStr s) \<Rightarrow> Some s | _ \<Rightarrow> None),
          re_status = status, re_code = code, re_latestStateVersion = latest\<rparr>)"

definition request :: "nat \<times> json option \<Rightarrow> (request_failure, json option) result" where
  "request answer =
     (case snd answer of
        None \<Rightarrow> throws (NotJson (fst answer))
      | Some payload \<Rightarrow>
          (case vobject (Some payload) of
             Inl e \<Rightarrow> throws (NoEnvelope e)
           | Inr envelope \<Rightarrow>
               if \<not> success_status (fst answer) \<or> map_of envelope ''code'' \<noteq> Some (JNum 0)
               then throws (Refused (refusal (fst answer) envelope))
               else returns (map_of envelope ''data'')))"

text \<open>An operation of the client is a request and the reading of its data.\<close>

datatype client_failure = RequestFailed request_failure | AnswerRefused view_error

definition asks :: "(json option \<Rightarrow> 'a view) \<Rightarrow> nat \<times> json option \<Rightarrow> (client_failure, 'a) result" where
  "asks read answer =
     (case request answer of
        Inl e \<Rightarrow> throws (RequestFailed e)
      | Inr data \<Rightarrow> (case read data of Inl e \<Rightarrow> throws (AnswerRefused e) | Inr x \<Rightarrow> returns x))"

text \<open>\<^verbatim>\<open>startRun\<close>, \<^verbatim>\<open>getRun\<close>, \<^verbatim>\<open>steer\<close>, \<^verbatim>\<open>interrupt\<close>, \<^verbatim>\<open>submitApproval\<close> and the local operations read alike.\<close>

definition ask_view :: "url_parser \<Rightarrow> nat \<times> json option \<Rightarrow> (client_failure, agent_view) result" where
  "ask_view parse_url = asks (parseAgentRuntimeView parse_url)"

definition parse_thread :: "json option \<Rightarrow> (string \<times> string) view" where
  "parse_thread value =
     and_then (vobject value) (\<lambda>source.
     if map_of source ''status'' \<noteq> Some (JStr ''active'') then throws ThreadStatus
     else
       and_then (vtext (map_of source ''id'')) (\<lambda>i.
       and_then (vtext (map_of source ''canvasId'')) (\<lambda>c. returns (i, c))))"

definition createThread :: "nat \<times> json option \<Rightarrow> (client_failure, string \<times> string) result" where
  "createThread = asks parse_thread"

text \<open>\<open>listThreads\<close> checks its arguments before it asks; \<open>limit\<close> is any number.\<close>

definition listThreads ::
  "url_parser \<Rightarrow> string \<Rightarrow> rat \<Rightarrow> nat \<times> json option \<Rightarrow> (client_failure, history_thread list) result" where
  "listThreads parse_url canvasId limit answer =
     (if js_trim canvasId = [] then throws (AnswerRefused CanvasBlank)
      else if \<not> (limit = of_int \<lfloor>limit\<rfloor> \<and> safe_integer \<lfloor>limit\<rfloor>) \<or> limit < 1 \<or> limit > 20
      then throws (AnswerRefused LimitOutOfRange)
      else asks (parseAgentThreadHistory parse_url) answer)"

subsection \<open>The recovery handle\<close>

record start_configuration =
  sc_image :: "generation_model option"
  sc_video :: "generation_model option"
  sc_skillDirs :: "string list"
  sc_attachments :: "(string \<times> string) list"
  sc_mode :: execution_mode

record pending_run =
  pr_clientRequestId :: string
  pr_userMessage :: string
  pr_configuration :: start_configuration

record runtime_handle =
  rh_threadId :: string
  rh_activeRunId :: "string option"
  rh_lastSequence :: int
  rh_pendingRun :: "pending_run option"

definition parseGenerationModelSelections ::
  "json option \<Rightarrow> (generation_model option \<times> generation_model option) view" where
  "parseGenerationModelSelections value =
     and_then (vkeys [''image'', ''video''] value) (\<lambda>source.
     and_then (optional_value parseGenerationModelSelection (map_of source ''image'')) (\<lambda>image.
     and_then (optional_value parseGenerationModelSelection (map_of source ''video'')) (\<lambda>video.
       returns (image, video))))"

definition parseStartConfiguration :: "json option \<Rightarrow> start_configuration view" where
  "parseStartConfiguration value =
     and_then (vkeys [''generationModels'', ''skillDirs'', ''attachments'', ''executionMode''] value) (\<lambda>source.
     and_then (parseGenerationModelSelections (map_of source ''generationModels'')) (\<lambda>(image, video).
     and_then (varray (map_of source ''skillDirs'')) (\<lambda>dirs.
     and_then (map_result (\<lambda>v. vtext (Some v)) dirs) (\<lambda>skillDirs.
     and_then (varray (map_of source ''attachments'')) (\<lambda>resources.
     and_then (map_result (\<lambda>v. parseResourceReference (Some v)) resources) (\<lambda>attachments.
     and_then (executionMode (map_of source ''executionMode'')) (\<lambda>mode.
       returns \<lparr>sc_image = image, sc_video = video, sc_skillDirs = skillDirs, sc_attachments = attachments,
         sc_mode = mode\<rparr>)))))))"

definition parse_pending_run :: "json option \<Rightarrow> pending_run view" where
  "parse_pending_run value =
     and_then (vobject value) (\<lambda>pending.
     and_then (vtext (map_of pending ''clientRequestId'')) (\<lambda>i.
     and_then (vtext (map_of pending ''userMessage'')) (\<lambda>m.
     and_then (parseStartConfiguration (map_of pending ''configuration'')) (\<lambda>c.
       returns \<lparr>pr_clientRequestId = i, pr_userMessage = m, pr_configuration = c\<rparr>))))"

definition parse_handle :: "json option \<Rightarrow> runtime_handle view" where
  "parse_handle value =
     and_then (vobject value) (\<lambda>source.
     and_then (vtext (map_of source ''threadId'')) (\<lambda>t.
     and_then (vint True (map_of source ''lastSequence'')) (\<lambda>n.
     and_then (optional_value vtext (map_of source ''activeRunId'')) (\<lambda>active.
     and_then (optional_value parse_pending_run (map_of source ''pendingRun'')) (\<lambda>pending.
     if active \<noteq> None \<and> pending \<noteq> None then throws HandleConflict
     else
       returns \<lparr>rh_threadId = t, rh_activeRunId = active, rh_lastSequence = n, rh_pendingRun = pending\<rparr>)))))"

text \<open>The objects \<^verbatim>\<open>JSON.stringify\<close> writes.\<close>

definition model_json :: "generation_model \<Rightarrow> json" where
  "model_json m = JObj [(''channelId'', JStr (gm_channelId m)), (''model'', JStr (gm_model m))]"

definition reference_json :: "string \<times> string \<Rightarrow> json" where
  "reference_json r = JObj [(''resourceId'', JStr (fst r)), (''name'', JStr (snd r))]"

fun mode_name :: "execution_mode \<Rightarrow> string" where
  "mode_name Guided = ''guided''"
| "mode_name Automatic = ''automatic''"
| "mode_name Historical = ''historical''"

definition configuration_json :: "start_configuration \<Rightarrow> json" where
  "configuration_json c =
     JObj [(''generationModels'', JObj (opt_field ''image'' model_json (sc_image c) @ opt_field ''video'' model_json (sc_video c))),
       (''skillDirs'', JArr (map JStr (sc_skillDirs c))),
       (''attachments'', JArr (map reference_json (sc_attachments c))),
       (''executionMode'', JStr (mode_name (sc_mode c)))]"

definition pending_run_json :: "pending_run \<Rightarrow> json" where
  "pending_run_json p =
     JObj [(''clientRequestId'', JStr (pr_clientRequestId p)), (''userMessage'', JStr (pr_userMessage p)),
       (''configuration'', configuration_json (pr_configuration p))]"

definition handle_json :: "runtime_handle \<Rightarrow> json" where
  "handle_json h =
     JObj ([(''threadId'', JStr (rh_threadId h))] @ opt_field ''activeRunId'' JStr (rh_activeRunId h)
       @ [(''lastSequence'', JNum (of_int (rh_lastSequence h)))]
       @ opt_field ''pendingRun'' pending_run_json (rh_pendingRun h))"

type_synonym browser_storage = "string \<Rightarrow> string option"

definition handleKey :: "string \<Rightarrow> string" where
  "handleKey canvasId = ''agent-runtime-handle:'' @ canvasId"

text \<open>\<open>json_parse\<close> answers \<open>None\<close> where the platform throws.\<close>

definition handle_load ::
  "(string \<Rightarrow> json option) \<Rightarrow> string \<Rightarrow> browser_storage \<Rightarrow> runtime_handle option view" where
  "handle_load json_parse canvasId storage =
     (case storage (handleKey canvasId) of
        None \<Rightarrow> returns None
      | Some encoded \<Rightarrow>
          if encoded = [] then returns None
          else
            (case json_parse encoded of
               None \<Rightarrow> throws EventNotJson
             | Some v \<Rightarrow> and_then (parse_handle (Some v)) (\<lambda>h. returns (Some h))))"

definition handle_save ::
  "(json \<Rightarrow> string) \<Rightarrow> string \<Rightarrow> runtime_handle \<Rightarrow> browser_storage \<Rightarrow> browser_storage" where
  "handle_save stringify canvasId h storage = storage(handleKey canvasId := Some (stringify (handle_json h)))"

definition handle_clear :: "string \<Rightarrow> browser_storage \<Rightarrow> browser_storage" where
  "handle_clear canvasId storage = storage(handleKey canvasId := None)"

section \<open>What is loaded is what was saved\<close>

definition model_valid :: "generation_model \<Rightarrow> bool" where
  "model_valid m \<longleftrightarrow> nonblank (gm_channelId m) \<and> nonblank (gm_model m)"

definition reference_valid :: "string \<times> string \<Rightarrow> bool" where
  "reference_valid r \<longleftrightarrow> nonblank (fst r) \<and> nonblank (snd r)"

definition configuration_valid :: "start_configuration \<Rightarrow> bool" where
  "configuration_valid c \<longleftrightarrow>
     pred_option model_valid (sc_image c) \<and> pred_option model_valid (sc_video c) \<and>
     list_all nonblank (sc_skillDirs c) \<and> list_all reference_valid (sc_attachments c) \<and> sc_mode c \<noteq> Historical"

definition pending_run_valid :: "pending_run \<Rightarrow> bool" where
  "pending_run_valid p \<longleftrightarrow>
     nonblank (pr_clientRequestId p) \<and> nonblank (pr_userMessage p) \<and> configuration_valid (pr_configuration p)"

definition handle_valid :: "runtime_handle \<Rightarrow> bool" where
  "handle_valid h \<longleftrightarrow>
     nonblank (rh_threadId h) \<and> integer_valid True (rh_lastSequence h) \<and>
     pred_option nonblank (rh_activeRunId h) \<and> pred_option pending_run_valid (rh_pendingRun h) \<and>
     (rh_activeRunId h = None \<or> rh_pendingRun h = None)"

text \<open>
  A codec that reads from what was written nothing but what was written, valid or not: then an invalid
  value is refused when it is read back.
\<close>

locale faithful_codec = codec read print valid
  for read :: "json option \<Rightarrow> ('e, 'a) result" and print :: "'a \<Rightarrow> json" and valid :: "'a \<Rightarrow> bool" +
  assumes read_own: "read (Some (print a)) = Inr b \<Longrightarrow> b = a"
begin

lemma read_back: "read (Some (print a)) = Inr b \<longleftrightarrow> valid a \<and> b = a"
  using read_valid read_print read_own by blast

lemma read_list_back: "map_result (\<lambda>v. read (Some v)) (map print as) = Inr bs \<longleftrightarrow> list_all valid as \<and> bs = as"
proof -
  have "list_all2 (\<lambda>v b. read (Some v) = Inr b) (map print as) bs \<longleftrightarrow> list_all valid as \<and> bs = as"
    by (induction as arbitrary: bs) (auto simp: list_all2_Cons1 read_back)
  then show ?thesis by (simp add: map_result_Inr_iff)
qed

lemma optional_back: "optional_value read (map_option print r) = Inr q \<longleftrightarrow> pred_option valid r \<and> q = r"
  by (cases r) (auto simp: and_then_Inr_iff read_back)

end

interpretation view_text: faithful_codec vtext JStr nonblank
  by unfold_locales auto

interpretation model: faithful_codec parseGenerationModelSelection model_json model_valid
  by unfold_locales
    (auto simp: parseGenerationModelSelection_def model_json_def model_valid_def and_then_Inr_iff vtext_print)

interpretation reference: faithful_codec parseResourceReference reference_json reference_valid
  by unfold_locales
    (auto simp: parseResourceReference_def reference_json_def reference_valid_def and_then_Inr_iff vtext_print)

lemma mode_table:
  "map_of [(''guided'', Guided), (''automatic'', Automatic)] s = Some m \<longleftrightarrow> s = mode_name m \<and> m \<noteq> Historical"
  by (cases m) simp_all

lemma execution_mode_Inr: "executionMode v = Inr m \<longleftrightarrow> v = Some (JStr (mode_name m)) \<and> m \<noteq> Historical"
  unfolding executionMode_def venum_Inr mode_table by blast

lemma mode_name_inject [simp]: "mode_name m = mode_name n \<longleftrightarrow> m = n"
  by (cases m; cases n) simp_all

interpretation mode: faithful_codec executionMode "\<lambda>m. JStr (mode_name m)" "\<lambda>m. m \<noteq> Historical"
  by unfold_locales (auto simp: execution_mode_Inr)

lemma models_back:
  "parseGenerationModelSelections (Some (JObj (opt_field ''image'' model_json i @ opt_field ''video'' model_json w)))
     = Inr r \<longleftrightarrow> pred_option model_valid i \<and> pred_option model_valid w \<and> r = (i, w)"
  by (cases i; cases w)
    (auto simp: parseGenerationModelSelections_def opt_field_def and_then_Inr_iff model.read_back)

lemma models_valid:
  "parseGenerationModelSelections v = Inr (i, w) \<Longrightarrow> pred_option model_valid i \<and> pred_option model_valid w"
  unfolding parseGenerationModelSelections_def and_then_Inr_iff by (auto dest: model.optional_valid)

lemma configuration_back:
  "parseStartConfiguration (Some (configuration_json c)) = Inr d \<longleftrightarrow> configuration_valid c \<and> d = c"
  by (auto simp: configuration_valid_def parseStartConfiguration_def configuration_json_def models_back
      view_text.read_list_back reference.read_list_back mode.read_back and_then_Inr_iff)

lemma configuration_read_valid: "parseStartConfiguration v = Inr c \<Longrightarrow> configuration_valid c"
  unfolding parseStartConfiguration_def and_then_Inr_iff configuration_valid_def
  by (auto simp: and_then_Inr_iff dest: models_valid view_text.read_list_valid reference.read_list_valid
      mode.read_valid)

interpretation configuration: faithful_codec parseStartConfiguration configuration_json configuration_valid
  by unfold_locales (auto simp: configuration_back configuration_read_valid)

lemma pending_run_back:
  "parse_pending_run (Some (pending_run_json p)) = Inr q \<longleftrightarrow> pending_run_valid p \<and> q = p"
  by (auto simp: pending_run_valid_def parse_pending_run_def pending_run_json_def configuration.read_back
      and_then_Inr_iff)

lemma pending_run_read_valid: "parse_pending_run v = Inr p \<Longrightarrow> pending_run_valid p"
  unfolding parse_pending_run_def and_then_Inr_iff pending_run_valid_def
  by (auto dest: configuration.read_valid)

interpretation pending_run: faithful_codec parse_pending_run pending_run_json pending_run_valid
  by unfold_locales (auto simp: pending_run_back pending_run_read_valid)

lemma handle_read_valid: "parse_handle v = Inr h \<Longrightarrow> handle_valid h"
  unfolding parse_handle_def and_then_Inr_iff guarded_Inr handle_valid_def
  by (auto dest: view_text.optional_valid pending_run.optional_valid)

lemma handle_back: "parse_handle (Some (handle_json h)) = Inr g \<longleftrightarrow> handle_valid h \<and> g = h"
  by (cases "rh_activeRunId h"; cases "rh_pendingRun h")
    (auto simp: handle_valid_def parse_handle_def handle_json_def opt_field_def pending_run.read_back
       and_then_Inr_iff)

interpretation handle: faithful_codec parse_handle handle_json handle_valid
  by unfold_locales (auto simp: handle_back handle_read_valid)

lemma handleKey_inject [simp]: "handleKey c = handleKey c' \<longleftrightarrow> c = c'"
  by (simp add: handleKey_def)

text \<open>
  The handle saved for a canvas is what the page loads for it afterwards if it is valid: its texts
  are not blank, its cursor is a whole number from zero, and it does not name an active run and a
  pending one at once. An invalid handle is saved all the same, and then loading it fails. The handles
  of other canvases stay as they were.
\<close>

lemma saved_handle_loads:
  assumes "json_parse (stringify (handle_json h)) = Some (handle_json h)" and "stringify (handle_json h) \<noteq> []"
  shows "(case handle_load json_parse c (handle_save stringify c h storage) of
            Inr loaded \<Rightarrow> handle_valid h \<and> loaded = Some h
          | Inl e \<Rightarrow> \<not> handle_valid h) \<and>
    (c' = c \<or> handle_load json_parse c' (handle_save stringify c h storage) = handle_load json_parse c' storage)"
proof -
  have "handle_load json_parse c (handle_save stringify c h storage) =
      and_then (parse_handle (Some (handle_json h))) (\<lambda>h. returns (Some h))"
    using assms by (simp add: handle_load_def handle_save_def)
  then show ?thesis
    using handle.read_back [of h]
    by (cases "parse_handle (Some (handle_json h))") (auto simp: handle_load_def handle_save_def)
qed

definition sample_handle :: runtime_handle where
  "sample_handle =
     \<lparr>rh_threadId = ''x'', rh_activeRunId = None, rh_lastSequence = 0,
      rh_pendingRun = Some \<lparr>pr_clientRequestId = ''x'', pr_userMessage = ''x'',
        pr_configuration = \<lparr>sc_image = None, sc_video = None, sc_skillDirs = [''x''],
          sc_attachments = [(''x'', ''x'')], sc_mode = Guided\<rparr>\<rparr>\<rparr>"

lemma saved_handle_loads_witness:
  "handle_load (\<lambda>_. Some (handle_json sample_handle)) ''a'' (handle_save (\<lambda>_. ''x'') ''a'' sample_handle Map.empty)
     = returns (Some sample_handle)"
proof -
  have "handle_valid sample_handle"
    by (simp add: handle_valid_def sample_handle_def pending_run_valid_def configuration_valid_def
        reference_valid_def sample_values integer_valid_def safe_integer_def)
  then show ?thesis
    using saved_handle_loads [where h = sample_handle and json_parse = "\<lambda>_. Some (handle_json sample_handle)"
        and stringify = "\<lambda>_. ''x''" and c = "''a''" and storage = Map.empty and c' = "''a''"]
    by (auto split: sum.splits)
qed

end
