(* ===== verification/CanvasDocument.thy ===== *)
theory CanvasDocument
  imports Prelude
begin

text \<open>
  The document a canvas shares between its editors, \<^verbatim>\<open>web/src/lib/canvas/canvas-collaboration-document.ts\<close>:
  what changed between two documents as a patch, and the patch applied to a document. A node or a
  connection is its identifier and the rest of its object, as \<^verbatim>\<open>JSON.stringify\<close> would write it, which is
  what the code compares.
\<close>

subsection \<open>Entities\<close>

record 'v entity =
  en_id :: string
  en_value :: 'v

definition by_id :: "'v entity list \<Rightarrow> (string, 'v entity) js_map" where
  "by_id es = js_map_of (map (\<lambda>e. (en_id e, e)) es)"

definition diffEntities :: "'v entity list \<Rightarrow> 'v entity list \<Rightarrow> 'v entity list \<times> string list" where
  "diffEntities base current =
     (let baseByID = by_id base; currentByID = by_id current
      in (filter (\<lambda>item. case js_get baseByID (en_id item) of None \<Rightarrow> True | Some previous \<Rightarrow> previous \<noteq> item) current,
          map en_id (filter (\<lambda>item. \<not> js_has currentByID (en_id item)) base)))"

definition applyEntityPatch :: "'v entity list \<Rightarrow> 'v entity list \<Rightarrow> string list \<Rightarrow> 'v entity list" where
  "applyEntityPatch source upserts deletes =
     (let deleteSet = js_set_of deletes; upsertByID = by_id upserts;
          kept = filter (\<lambda>item. en_id item \<notin> set deleteSet) source;
          result = map (\<lambda>item. case js_get upsertByID (en_id item) of None \<Rightarrow> item | Some u \<Rightarrow> u) kept;
          seen = js_set_of (map en_id kept)
      in result @ filter (\<lambda>item. en_id item \<notin> set seen) upserts)"

subsection \<open>Documents and patches\<close>

record document =
  dc_title :: string
  dc_nodes :: "json entity list"
  dc_connections :: "json entity list"
  dc_background :: string
  dc_showImageInfo :: bool
  dc_scenes :: "json list"

record document_patch =
  dp_title :: "string option"
  dp_background :: "string option"
  dp_showImageInfo :: "bool option"
  dp_scenes :: "json list option"

record canvas_patch =
  cp_upsertNodes :: "json entity list option"
  cp_deleteNodeIds :: "string list option"
  cp_upsertConnections :: "json entity list option"
  cp_deleteConnectionIds :: "string list option"
  cp_document :: "document_patch option"

definition listed :: "'a list option \<Rightarrow> 'a list" where
  "listed r = (case r of None \<Rightarrow> [] | Some xs \<Rightarrow> xs)"

definition given :: "'a option \<Rightarrow> 'a \<Rightarrow> 'a" where
  "given r d = (case r of None \<Rightarrow> d | Some x \<Rightarrow> x)"

definition some_items :: "'a list option \<Rightarrow> 'a list option" where
  "some_items r = (case r of Some (x # xs) \<Rightarrow> Some (x # xs) | _ \<Rightarrow> None)"

definition no_document_changes :: document_patch where
  "no_document_changes = \<lparr>dp_title = None, dp_background = None, dp_showImageInfo = None, dp_scenes = None\<rparr>"

definition compactCanvasMutationPatch :: "canvas_patch \<Rightarrow> canvas_patch" where
  "compactCanvasMutationPatch p =
     \<lparr>cp_upsertNodes = some_items (cp_upsertNodes p), cp_deleteNodeIds = some_items (cp_deleteNodeIds p),
      cp_upsertConnections = some_items (cp_upsertConnections p),
      cp_deleteConnectionIds = some_items (cp_deleteConnectionIds p),
      cp_document = (if cp_document p = Some no_document_changes then None else cp_document p)\<rparr>"

definition changed :: "'a \<Rightarrow> 'a \<Rightarrow> 'a option" where
  "changed old new = (if old \<noteq> new then Some new else None)"

definition diffCanvasCollaborationDocument :: "document \<Rightarrow> document \<Rightarrow> canvas_patch" where
  "diffCanvasCollaborationDocument base current =
     (let nodeChanges = diffEntities (dc_nodes base) (dc_nodes current);
          connectionChanges = diffEntities (dc_connections base) (dc_connections current);
          doc = \<lparr>dp_title = changed (dc_title base) (dc_title current),
                 dp_background = changed (dc_background base) (dc_background current),
                 dp_showImageInfo = changed (dc_showImageInfo base) (dc_showImageInfo current),
                 dp_scenes = changed (dc_scenes base) (dc_scenes current)\<rparr>
      in compactCanvasMutationPatch
           \<lparr>cp_upsertNodes = Some (fst nodeChanges), cp_deleteNodeIds = Some (snd nodeChanges),
            cp_upsertConnections = Some (fst connectionChanges),
            cp_deleteConnectionIds = Some (snd connectionChanges), cp_document = Some doc\<rparr>)"

definition applyCanvasMutationPatch :: "document \<Rightarrow> canvas_patch \<Rightarrow> document" where
  "applyCanvasMutationPatch source patch =
     (let doc = given (cp_document patch) no_document_changes
      in \<lparr>dc_title = given (dp_title doc) (dc_title source),
          dc_nodes = applyEntityPatch (dc_nodes source) (listed (cp_upsertNodes patch)) (listed (cp_deleteNodeIds patch)),
          dc_connections = applyEntityPatch (dc_connections source) (listed (cp_upsertConnections patch))
            (listed (cp_deleteConnectionIds patch)),
          dc_background = given (dp_background doc) (dc_background source),
          dc_showImageInfo = given (dp_showImageInfo doc) (dc_showImageInfo source),
          dc_scenes = given (dp_scenes doc) (dc_scenes source)\<rparr>)"

definition isEmptyCanvasMutationPatch :: "canvas_patch \<Rightarrow> bool" where
  "isEmptyCanvasMutationPatch patch \<longleftrightarrow>
     listed (cp_upsertNodes patch) = [] \<and> listed (cp_deleteNodeIds patch) = [] \<and>
     listed (cp_upsertConnections patch) = [] \<and> listed (cp_deleteConnectionIds patch) = [] \<and>
     cp_document patch = None"

section \<open>Contents\<close>

text \<open>
  The content of a document, without the order of its entities: a value in every slot. A patch changes
  slots one by one, so two editors' changes to different slots never touch each other.
\<close>

datatype slot = TitleSlot | BackgroundSlot | ImageInfoSlot | ScenesSlot | NodeSlot string | ConnectionSlot string

datatype slot_value = TextValue string | FlagValue bool | ScenesValue "json list" | EntityValue "json entity"

definition entity_at :: "'v entity list \<Rightarrow> string \<Rightarrow> 'v entity option" where
  "entity_at es k = js_get (by_id es) k"

fun content :: "document \<Rightarrow> slot \<Rightarrow> slot_value option" where
  "content d TitleSlot = Some (TextValue (dc_title d))"
| "content d BackgroundSlot = Some (TextValue (dc_background d))"
| "content d ImageInfoSlot = Some (FlagValue (dc_showImageInfo d))"
| "content d ScenesSlot = Some (ScenesValue (dc_scenes d))"
| "content d (NodeSlot k) = map_option EntityValue (entity_at (dc_nodes d) k)"
| "content d (ConnectionSlot k) = map_option EntityValue (entity_at (dc_connections d) k)"

text \<open>The slots \<open>mine\<close> changed since \<open>base\<close> keep the changed value, every other one follows \<open>theirs\<close>.\<close>

definition merged ::
  "(slot \<Rightarrow> slot_value option) \<Rightarrow> (slot \<Rightarrow> slot_value option) \<Rightarrow> (slot \<Rightarrow> slot_value option) \<Rightarrow> slot \<Rightarrow> slot_value option" where
  "merged base mine theirs s = (if mine s = base s then theirs s else mine s)"

text \<open>Identifiers are distinct: what every array of a document is to satisfy.\<close>

definition ids_distinct :: "'v entity list \<Rightarrow> bool" where
  "ids_distinct es \<longleftrightarrow> distinct (map en_id es)"

definition document_ok :: "document \<Rightarrow> bool" where
  "document_ok d \<longleftrightarrow> ids_distinct (dc_nodes d) \<and> ids_distinct (dc_connections d)"

definition patch_ok :: "canvas_patch \<Rightarrow> bool" where
  "patch_ok p \<longleftrightarrow> ids_distinct (listed (cp_upsertNodes p)) \<and> ids_distinct (listed (cp_upsertConnections p))"

lemma by_id_distinct: "ids_distinct es \<Longrightarrow> by_id es = map (\<lambda>e. (en_id e, e)) es"
  unfolding by_id_def by (rule js_map_of_distinct) (simp add: ids_distinct_def comp_def)

lemma entity_at_Some: "ids_distinct es \<Longrightarrow> entity_at es k = Some e \<longleftrightarrow> e \<in> set es \<and> en_id e = k"
  by (auto simp: entity_at_def by_id_distinct ids_distinct_def comp_def)

lemma entity_at_None: "ids_distinct es \<Longrightarrow> entity_at es k = None \<longleftrightarrow> k \<notin> en_id ` set es"
  by (force simp: entity_at_def by_id_distinct js_get_None_iff)

lemma entity_atI: "ids_distinct es \<Longrightarrow> e \<in> set es \<Longrightarrow> entity_at es (en_id e) = Some e"
  by (simp add: entity_at_Some)

lemma ids_distinct_filter [simp]: "ids_distinct es \<Longrightarrow> ids_distinct (filter P es)"
  by (simp add: ids_distinct_def distinct_map_filter)

text \<open>The patch of an entity list, with its sets and maps resolved.\<close>

definition replacing :: "'v entity list \<Rightarrow> 'v entity \<Rightarrow> 'v entity" where
  "replacing upserts item = given (entity_at upserts (en_id item)) item"

lemma applyEntityPatch_alt:
  "applyEntityPatch source upserts deletes =
     (let kept = filter (\<lambda>item. en_id item \<notin> set deletes) source
      in map (replacing upserts) kept @ filter (\<lambda>item. en_id item \<notin> en_id ` set kept) upserts)"
  by (simp add: applyEntityPatch_def Let_def replacing_def given_def entity_at_def)

lemma replacing_id [simp]: "ids_distinct upserts \<Longrightarrow> en_id (replacing upserts e) = en_id e"
  by (auto simp: replacing_def given_def entity_at_Some split: option.split)

lemma replacing_comp: "ids_distinct upserts \<Longrightarrow> en_id \<circ> replacing upserts = en_id"
  by (simp add: fun_eq_iff)

lemma applyEntityPatch_distinct:
  assumes "ids_distinct source" "ids_distinct upserts"
  shows "ids_distinct (applyEntityPatch source upserts deletes)"
proof -
  define kept where "kept = filter (\<lambda>item. en_id item \<notin> set deletes) source"
  define rest where "rest = filter (\<lambda>item. en_id item \<notin> en_id ` set kept) upserts"
  have "ids_distinct kept" "ids_distinct rest" using assms by (simp_all add: kept_def rest_def)
  moreover have "en_id ` set kept \<inter> en_id ` set rest = {}" unfolding rest_def disjoint_iff image_iff set_filter mem_Collect_eq by blast
  ultimately have "ids_distinct (map (replacing upserts) kept @ rest)"
    by (simp add: ids_distinct_def replacing_comp [OF assms(2)] image_image assms(2))
  then show ?thesis by (simp only: applyEntityPatch_alt Let_def kept_def rest_def)
qed

lemma applyEntityPatch_member:
  assumes "ids_distinct source" "ids_distinct upserts"
  shows "e \<in> set (applyEntityPatch source upserts deletes) \<longleftrightarrow>
    e \<in> set upserts \<or> e \<in> set source \<and> en_id e \<notin> set deletes \<and> entity_at upserts (en_id e) = None"
proof
  assume "e \<in> set (applyEntityPatch source upserts deletes)"
  then consider (new) "e \<in> set upserts"
    | (old) f where "f \<in> set source" "en_id f \<notin> set deletes" "e = replacing upserts f"
    by (auto simp: applyEntityPatch_alt Let_def)
  then show "e \<in> set upserts \<or> e \<in> set source \<and> en_id e \<notin> set deletes \<and> entity_at upserts (en_id e) = None"
  proof cases
    case old
    then show ?thesis
      using assms(2) by (cases "entity_at upserts (en_id f)") (auto simp: replacing_def given_def entity_at_Some)
  qed simp
next
  assume e: "e \<in> set upserts \<or> e \<in> set source \<and> en_id e \<notin> set deletes \<and> entity_at upserts (en_id e) = None"
  define kept where "kept = filter (\<lambda>item. en_id item \<notin> set deletes) source"
  have "e \<in> replacing upserts ` set kept \<or> e \<in> set upserts \<and> en_id e \<notin> en_id ` set kept"
  proof (cases "\<exists>f \<in> set kept. en_id f = en_id e")
    case True
    then obtain f where f: "f \<in> set kept" "en_id f = en_id e" by blast
    have "replacing upserts f = e"
    proof (cases "e \<in> set upserts")
      case True
      then show ?thesis using entity_atI [OF assms(2) True] f(2) by (simp add: replacing_def given_def)
    next
      case False
      then have "e \<in> set source" "f \<in> set source" using e f(1) by (simp_all add: kept_def)
      then have "f = e" using entity_atI [OF assms(1)] f(2) by (metis option.inject)
      then show ?thesis using e False by (simp add: replacing_def given_def)
    qed
    then show ?thesis using f(1) by blast
  next
    case False
    then have "e \<notin> set kept" "en_id e \<notin> en_id ` set kept" by auto
    then show ?thesis using e by (auto simp: kept_def)
  qed
  then show "e \<in> set (applyEntityPatch source upserts deletes)"
    unfolding applyEntityPatch_alt Let_def kept_def [symmetric] by simp
qed

lemma entity_at_eqI:
  assumes "\<And>e. a = Some e \<longleftrightarrow> b = Some e"
  shows "a = b"
  by (metis assms option.exhaust)

lemma entity_at_apply:
  assumes "ids_distinct source" "ids_distinct upserts"
  shows "entity_at (applyEntityPatch source upserts deletes) k =
    (case entity_at upserts k of
       Some e \<Rightarrow> Some e
     | None \<Rightarrow> if k \<in> set deletes then None else entity_at source k)"
proof (cases "entity_at upserts k")
  case None
  have "entity_at (applyEntityPatch source upserts deletes) k = Some e \<longleftrightarrow>
      k \<notin> set deletes \<and> entity_at source k = Some e" for e
  proof -
    have "f \<notin> set upserts" if "en_id f = k" for f using entity_atI [OF assms(2), of f] None that by auto
    then show ?thesis
      unfolding entity_at_Some [OF applyEntityPatch_distinct [OF assms]] entity_at_Some [OF assms(1)]
        applyEntityPatch_member [OF assms]
      using None by blast
  qed
  then show ?thesis using None by (auto intro: entity_at_eqI)
next
  case (Some f)
  then have "entity_at (applyEntityPatch source upserts deletes) k = Some f"
    using assms by (simp add: entity_at_Some applyEntityPatch_distinct applyEntityPatch_member)
  then show ?thesis using Some by simp
qed

lemma diffEntities_parts:
  "diffEntities base current =
     (filter (\<lambda>item. entity_at base (en_id item) \<noteq> Some item) current,
      map en_id (filter (\<lambda>item. entity_at current (en_id item) = None) base))"
  by (simp add: diffEntities_def Let_def entity_at_def js_has_def)
    (auto intro!: filter_cong split: option.splits)

lemma entity_at_filter:
  "ids_distinct es \<Longrightarrow> entity_at (filter P es) k = Some e \<longleftrightarrow> entity_at es k = Some e \<and> P e"
  by (auto simp: entity_at_Some)

lemma entity_at_id: "ids_distinct es \<Longrightarrow> entity_at es k = Some e \<Longrightarrow> en_id e = k"
  by (simp add: entity_at_Some)

lemma entity_at_upserts:
  assumes "ids_distinct current"
  shows "entity_at (fst (diffEntities base current)) k =
    (if entity_at base k = entity_at current k then None else entity_at current k)"
  by (rule entity_at_eqI)
    (use assms in \<open>auto simp: diffEntities_parts entity_at_filter dest: entity_at_id\<close>)

lemma diffEntities_deletes:
  assumes "ids_distinct base"
  shows "k \<in> set (snd (diffEntities base current)) \<longleftrightarrow> entity_at current k = None \<and> entity_at base k \<noteq> None"
  using assms by (auto simp: diffEntities_parts entity_at_None)

lemma entities_merge:
  assumes "ids_distinct base" "ids_distinct current" "ids_distinct theirs"
  shows "entity_at (applyEntityPatch theirs (fst (diffEntities base current)) (snd (diffEntities base current))) k =
    (if entity_at current k = entity_at base k then entity_at theirs k else entity_at current k)"
proof -
  have "ids_distinct (fst (diffEntities base current))" using assms(2) by (simp add: diffEntities_parts)
  then show ?thesis
    using assms by (auto simp: entity_at_apply entity_at_upserts diffEntities_deletes split: option.split)
qed

subsection \<open>Patches of documents\<close>

lemma listed_some_items [simp]: "listed (some_items r) = listed r"
  by (simp add: some_items_def listed_def split: option.split list.split)

lemma listed_Some [simp]: "listed (Some xs) = xs"
  by (simp add: listed_def)

lemma given_simps [simp]: "given None d = d" "given (Some x) d = x"
  by (simp_all add: given_def)

lemma given_changed [simp]: "given (changed old new) d = (if new = old then d else new)"
  by (auto simp: changed_def)

lemma changed_None [simp]: "changed old new = None \<longleftrightarrow> new = old"
  by (auto simp: changed_def)

definition document_changes :: "document \<Rightarrow> document \<Rightarrow> document_patch" where
  "document_changes base current =
     \<lparr>dp_title = changed (dc_title base) (dc_title current),
      dp_background = changed (dc_background base) (dc_background current),
      dp_showImageInfo = changed (dc_showImageInfo base) (dc_showImageInfo current),
      dp_scenes = changed (dc_scenes base) (dc_scenes current)\<rparr>"

lemma diff_parts [simp]:
  "listed (cp_upsertNodes (diffCanvasCollaborationDocument b c)) = fst (diffEntities (dc_nodes b) (dc_nodes c))"
  "listed (cp_deleteNodeIds (diffCanvasCollaborationDocument b c)) = snd (diffEntities (dc_nodes b) (dc_nodes c))"
  "listed (cp_upsertConnections (diffCanvasCollaborationDocument b c)) =
     fst (diffEntities (dc_connections b) (dc_connections c))"
  "listed (cp_deleteConnectionIds (diffCanvasCollaborationDocument b c)) =
     snd (diffEntities (dc_connections b) (dc_connections c))"
  "given (cp_document (diffCanvasCollaborationDocument b c)) no_document_changes = document_changes b c"
  "cp_document (diffCanvasCollaborationDocument b c) = None \<longleftrightarrow> document_changes b c = no_document_changes"
  by (simp_all add: diffCanvasCollaborationDocument_def compactCanvasMutationPatch_def Let_def document_changes_def)

lemma apply_parts:
  "dc_title (applyCanvasMutationPatch d p) = given (dp_title (given (cp_document p) no_document_changes)) (dc_title d)"
  "dc_nodes (applyCanvasMutationPatch d p) =
     applyEntityPatch (dc_nodes d) (listed (cp_upsertNodes p)) (listed (cp_deleteNodeIds p))"
  "dc_connections (applyCanvasMutationPatch d p) =
     applyEntityPatch (dc_connections d) (listed (cp_upsertConnections p)) (listed (cp_deleteConnectionIds p))"
  "dc_background (applyCanvasMutationPatch d p) =
     given (dp_background (given (cp_document p) no_document_changes)) (dc_background d)"
  "dc_showImageInfo (applyCanvasMutationPatch d p) =
     given (dp_showImageInfo (given (cp_document p) no_document_changes)) (dc_showImageInfo d)"
  "dc_scenes (applyCanvasMutationPatch d p) = given (dp_scenes (given (cp_document p) no_document_changes)) (dc_scenes d)"
  by (simp_all add: applyCanvasMutationPatch_def Let_def)

lemma apply_ok: "document_ok d \<Longrightarrow> patch_ok p \<Longrightarrow> document_ok (applyCanvasMutationPatch d p)"
  by (simp add: document_ok_def patch_ok_def apply_parts applyEntityPatch_distinct)

lemma diff_ok: "document_ok c \<Longrightarrow> patch_ok (diffCanvasCollaborationDocument b c)"
  by (simp add: document_ok_def patch_ok_def diffEntities_parts)

text \<open>A patch acts on contents alone: where two documents have the same content, so have the patched ones.\<close>

lemma apply_content:
  assumes "document_ok d" "document_ok d'" "patch_ok p" "content d = content d'"
  shows "content (applyCanvasMutationPatch d p) = content (applyCanvasMutationPatch d' p)"
proof
  fix s
  have same: "content d s = content d' s" for s using assms(4) by simp
  have nodes: "entity_at (dc_nodes d) k = entity_at (dc_nodes d') k" for k
    using same [of "NodeSlot k"] by (simp add: option.inj_map_strong inj_def option.map_ident split: option.splits)
      (metis option.inj_map_strong slot_value.inject(4))
  have connections: "entity_at (dc_connections d) k = entity_at (dc_connections d') k" for k
    using same [of "ConnectionSlot k"] by simp (metis option.inj_map_strong slot_value.inject(4))
  show "content (applyCanvasMutationPatch d p) s = content (applyCanvasMutationPatch d' p) s"
    using assms(1-3) same [of TitleSlot] same [of BackgroundSlot] same [of ImageInfoSlot] same [of ScenesSlot]
    by (cases s)
      (simp_all add: apply_parts document_ok_def patch_ok_def entity_at_apply nodes connections split: option.split)
qed

text \<open>The central law of the component: a difference applied to a third document is the slot-wise merge.\<close>

lemma entity_value_eq [simp]: "map_option EntityValue a = map_option EntityValue b \<longleftrightarrow> a = b"
  by (metis option.inj_map_strong slot_value.inject(4))

lemma content_merge:
  assumes "document_ok base" "document_ok mine" "document_ok theirs"
  shows "content (applyCanvasMutationPatch theirs (diffCanvasCollaborationDocument base mine)) =
    merged (content base) (content mine) (content theirs)"
proof
  fix s
  show "content (applyCanvasMutationPatch theirs (diffCanvasCollaborationDocument base mine)) s =
    merged (content base) (content mine) (content theirs) s"
    using assms
    by (cases s) (simp_all add: merged_def apply_parts document_changes_def document_ok_def entities_merge)
qed

lemma diffEntities_empty:
  assumes "ids_distinct b" "ids_distinct c"
  shows "fst (diffEntities b c) = [] \<and> snd (diffEntities b c) = [] \<longleftrightarrow> (\<forall>k. entity_at b k = entity_at c k)"
proof
  assume e: "fst (diffEntities b c) = [] \<and> snd (diffEntities b c) = []"
  have "entity_at (applyEntityPatch b [] []) k = entity_at b k" for k
    using assms(1) entity_at_apply [of b "[]" "[]" k] by (simp add: ids_distinct_def entity_at_def by_id_def js_map_of_def)
  moreover have "entity_at (applyEntityPatch b [] []) k = entity_at c k" for k
    using entities_merge [OF assms assms(1), of k] e by simp
  ultimately show "\<forall>k. entity_at b k = entity_at c k" by simp
next
  assume same: "\<forall>k. entity_at b k = entity_at c k"
  have "entity_at b (en_id e) = Some e" if "e \<in> set c" for e using same entity_atI [OF assms(2) that] by simp
  moreover have "entity_at c (en_id e) \<noteq> None" if "e \<in> set b" for e using same entity_atI [OF assms(1) that] by auto
  ultimately show "fst (diffEntities b c) = [] \<and> snd (diffEntities b c) = []"
    by (auto simp: diffEntities_parts filter_empty_conv)
qed

lemma content_eq_iff:
  "content b = content c \<longleftrightarrow>
     dc_title b = dc_title c \<and> dc_background b = dc_background c \<and> dc_showImageInfo b = dc_showImageInfo c \<and>
     dc_scenes b = dc_scenes c \<and> (\<forall>k. entity_at (dc_nodes b) k = entity_at (dc_nodes c) k) \<and>
     (\<forall>k. entity_at (dc_connections b) k = entity_at (dc_connections c) k)" (is "_ \<longleftrightarrow> ?parts")
proof
  assume "content b = content c"
  then have "content b s = content c s" for s by simp
  from this [of TitleSlot] this [of BackgroundSlot] this [of ImageInfoSlot] this [of ScenesSlot]
    this [of "NodeSlot _"] this [of "ConnectionSlot _"]
  show ?parts by simp
next
  assume ?parts
  show "content b = content c"
  proof
    fix s show "content b s = content c s" using \<open>?parts\<close> by (cases s) simp_all
  qed
qed

lemma diff_empty:
  assumes "document_ok b" "document_ok c"
  shows "isEmptyCanvasMutationPatch (diffCanvasCollaborationDocument b c) \<longleftrightarrow> content b = content c"
  using assms diffEntities_empty [of "dc_nodes b" "dc_nodes c"] diffEntities_empty [of "dc_connections b" "dc_connections c"]
  by (auto simp: isEmptyCanvasMutationPatch_def content_eq_iff document_ok_def document_changes_def no_document_changes_def)

text \<open>
  C13. The patch between two documents of a canvas, applied to any third one, changes there exactly what
  was changed, slot by slot: the entities and settings that differ between the two get the value of the
  second, and everything else stays. The patch is empty exactly if nothing differs but the order of the
  entities, and the patched document keeps its identifiers distinct.
\<close>

theorem patch_is_slotwise_merge:
  assumes "document_ok base" and "document_ok mine" and "document_ok theirs"
  shows "content (applyCanvasMutationPatch theirs (diffCanvasCollaborationDocument base mine)) =
      merged (content base) (content mine) (content theirs) \<and>
    isEmptyCanvasMutationPatch (diffCanvasCollaborationDocument base mine) = (content base = content mine) \<and>
    document_ok (applyCanvasMutationPatch theirs (diffCanvasCollaborationDocument base mine))"
  using assms by (simp add: content_merge diff_empty apply_ok diff_ok)

definition sample_document :: "string \<Rightarrow> json \<Rightarrow> document" where
  "sample_document title v =
     \<lparr>dc_title = title, dc_nodes = [\<lparr>en_id = ''a'', en_value = v\<rparr>], dc_connections = [], dc_background = ''dots'',
      dc_showImageInfo = False, dc_scenes = []\<rparr>"

lemma sample_document_ok [simp]: "document_ok (sample_document t v)"
  by (simp add: document_ok_def sample_document_def ids_distinct_def)

lemma patch_is_slotwise_merge_witness:
  "content (applyCanvasMutationPatch (sample_document ''theirs'' JNull)
      (diffCanvasCollaborationDocument (sample_document ''base'' JNull) (sample_document ''base'' (JBool True)))) (NodeSlot ''a'')
     = Some (EntityValue \<lparr>en_id = ''a'', en_value = JBool True\<rparr>)"
  using patch_is_slotwise_merge [of "sample_document ''base'' JNull" "sample_document ''base'' (JBool True)"
      "sample_document ''theirs'' JNull"]
  by (simp add: merged_def) (simp add: sample_document_def entity_at_def by_id_def js_map_of_def)

end
