(* ===== verification/CanvasCollaboration.thy ===== *)
theory CanvasCollaboration
  imports CanvasDocument
begin

text \<open>
  An editor of a shared canvas, \<^verbatim>\<open>web/src/pages/canvas/use-canvas-collaboration.ts\<close>, with its checks from
  \<^verbatim>\<open>lib/canvas/canvas-collaboration-preflight.ts\<close>. The state is what the hook keeps in its references and
  in React's state; a step is a message, a timer, an answer, or an edit by the user, followed by the
  effects React then runs. Messages shown to the user are left out. \<open>co_access\<close> is \<^verbatim>\<open>access?.canEdit\<close>.
\<close>

subsection \<open>State\<close>

record in_flight =
  fl_id :: string
  fl_patch :: canvas_patch
  fl_target :: document

datatype collaboration_status = Personal | Connecting | Online | Reconnecting | ReadOnly | CollaborationError

record collaboration =
  co_base :: "document option"
  co_current :: "document option"
  co_revision :: nat
  co_inFlight :: "in_flight option"
  co_access :: "bool option"
  co_status :: collaboration_status
  co_open :: bool \<comment> \<open>there is a socket and it is open\<close>
  co_attempts :: nat
  co_timer :: bool \<comment> \<open>a mutation is scheduled\<close>
  co_sent :: "(nat \<times> string \<times> canvas_patch) list"
  co_resyncs :: "canvas_patch list" \<comment> \<open>what each call of \<^verbatim>\<open>resync\<close> in progress keeps as pending\<close>
  co_presence :: "(string, json) js_map"
  co_connectionId :: string
  co_cursor :: "(rat \<times> rat) option"
  co_selected :: "string list"
  co_presenceTimer :: bool
  co_presenceSent :: "((rat \<times> rat) option \<times> string list) list"
  co_disposed :: bool

record canvas_project =
  pj_title :: string
  pj_nodes :: "json entity list option"
  pj_connections :: "json entity list option"
  pj_background :: string
  pj_showImageInfo :: "bool option"
  pj_scenes :: "json list option"
  pj_revision :: "nat option"

record project_state =
  ps_project :: canvas_project
  ps_canEdit :: bool

record mutation_result =
  mr_revision :: nat
  mr_clientMutationId :: string
  mr_patch :: canvas_patch

datatype envelope =
  Unrecognised
| SnapshotEnvelope string project_state
| MutationEnvelope mutation_result
| PresenceEnvelope string bool json
| ErrorEnvelope nat

definition collaborationDocumentFromProject :: "canvas_project \<Rightarrow> document" where
  "collaborationDocumentFromProject p =
     \<lparr>dc_title = pj_title p, dc_nodes = given (pj_nodes p) [], dc_connections = given (pj_connections p) [],
      dc_background = pj_background p, dc_showImageInfo = given (pj_showImageInfo p) False,
      dc_scenes = given (pj_scenes p) []\<rparr>"

definition state_document :: "project_state \<Rightarrow> document" where
  "state_document st = collaborationDocumentFromProject (ps_project st)"

definition state_revision :: "project_state \<Rightarrow> nat" where
  "state_revision st = given (pj_revision (ps_project st)) 0"

subsection \<open>Operations\<close>

definition applyDocument :: "document \<Rightarrow> collaboration \<Rightarrow> collaboration" where
  "applyDocument d c = c\<lparr>co_current := Some d\<rparr>"

definition empty_patch :: canvas_patch where
  "empty_patch = \<lparr>cp_upsertNodes = None, cp_deleteNodeIds = None, cp_upsertConnections = None,
     cp_deleteConnectionIds = None, cp_document = None\<rparr>"

definition pending_patch :: "document option \<Rightarrow> document option \<Rightarrow> canvas_patch" where
  "pending_patch base desired =
     (case (base, desired) of (Some b, Some d) \<Rightarrow> diffCanvasCollaborationDocument b d | _ \<Rightarrow> empty_patch)"

definition editing_status :: "bool \<Rightarrow> collaboration_status" where
  "editing_status canEdit = (if canEdit then Online else ReadOnly)"

text \<open>What every acceptance of a state from the server does to the references.\<close>

definition adopt_state :: "project_state \<Rightarrow> collaboration \<Rightarrow> collaboration" where
  "adopt_state st c =
     c\<lparr>co_base := Some (state_document st), co_revision := state_revision st, co_inFlight := None,
       co_access := Some (ps_canEdit st), co_status := editing_status (ps_canEdit st)\<rparr>"

definition scheduleMutation :: "collaboration \<Rightarrow> collaboration" where
  "scheduleMutation c = c\<lparr>co_timer := True\<rparr>"

text \<open>
  The two effects that watch the document and the access: one schedules a mutation for an editor, the
  other takes back what somebody without the right to edit has changed.
\<close>

definition schedule_effect :: "collaboration \<Rightarrow> collaboration" where
  "schedule_effect c =
     (if co_current c \<noteq> None \<and> co_base c \<noteq> None \<and> co_access c = Some True then scheduleMutation c else c)"

definition readonly_effect :: "collaboration \<Rightarrow> collaboration" where
  "readonly_effect c =
     (case (co_base c, co_current c) of
        (Some base, Some current) \<Rightarrow>
          if co_access c \<noteq> Some False \<or> isEmptyCanvasMutationPatch (diffCanvasCollaborationDocument base current) then c
          else applyDocument base c
      | _ \<Rightarrow> c)"

definition run_effects :: "collaboration \<Rightarrow> collaboration" where
  "run_effects c = readonly_effect (schedule_effect c)"

definition applySnapshot :: "project_state \<Rightarrow> collaboration \<Rightarrow> collaboration" where
  "applySnapshot st c =
     (let remote = state_document st;
          pending = pending_patch (co_base c) (co_current c);
          canPreservePending = (ps_canEdit st \<and> \<not> isEmptyCanvasMutationPatch pending);
          nextDocument = (if canPreservePending then applyCanvasMutationPatch remote pending else remote)
      in run_effects (applyDocument nextDocument ((adopt_state st c)\<lparr>co_presence := []\<rparr>)))"

text \<open>\<open>resync\<close> up to its request, and what it does with the answer; \<open>None\<close> is a request that failed.\<close>

definition resync_start :: "collaboration \<Rightarrow> collaboration" where
  "resync_start c = c\<lparr>co_resyncs := co_resyncs c @ [pending_patch (co_base c) (co_current c)]\<rparr>"

definition resync_finish :: "canvas_patch \<Rightarrow> project_state option \<Rightarrow> collaboration \<Rightarrow> collaboration" where
  "resync_finish pending answer c =
     (case answer of
        None \<Rightarrow> c\<lparr>co_status := CollaborationError\<rparr>
      | Some st \<Rightarrow>
          let remote = state_document st;
              result = (if isEmptyCanvasMutationPatch pending then remote else applyCanvasMutationPatch remote pending)
          in run_effects (applyDocument result (adopt_state st c)))"

text \<open>\<open>i\<close> is the identifier \<^verbatim>\<open>nanoid\<close> draws.\<close>

definition sendPendingMutation :: "string \<Rightarrow> collaboration \<Rightarrow> collaboration" where
  "sendPendingMutation i c =
     (case (co_base c, co_current c) of
        (Some base, Some current) \<Rightarrow>
          if \<not> co_open c \<or> co_inFlight c \<noteq> None \<or> co_access c \<noteq> Some True then c
          else
            let patch = diffCanvasCollaborationDocument base current
            in if isEmptyCanvasMutationPatch patch then c
               else
                 let target = applyCanvasMutationPatch base patch
                 in c\<lparr>co_inFlight := Some \<lparr>fl_id = i, fl_patch = patch, fl_target = target\<rparr>,
                      co_sent := co_sent c @ [(co_revision c, i, patch)]\<rparr>
      | _ \<Rightarrow> c)"

definition own_mutation :: "collaboration \<Rightarrow> mutation_result \<Rightarrow> bool" where
  "own_mutation c m \<longleftrightarrow> (case co_inFlight c of None \<Rightarrow> False | Some f \<Rightarrow> fl_id f = mr_clientMutationId m)"

definition applyMutation :: "mutation_result \<Rightarrow> collaboration \<Rightarrow> collaboration" where
  "applyMutation m c =
     (case (co_base c, co_current c) of
        (Some base, Some current) \<Rightarrow>
          if mr_revision m \<le> co_revision c then c
          else if mr_revision m \<noteq> co_revision c + 1 then resync_start c
          else
            let own = own_mutation c m;
                pending = (case co_inFlight c of
                             Some f \<Rightarrow>
                               if own then diffCanvasCollaborationDocument (fl_target f) current
                               else diffCanvasCollaborationDocument base current
                           | None \<Rightarrow> diffCanvasCollaborationDocument base current);
                remote = applyCanvasMutationPatch base (mr_patch m);
                result = (if isEmptyCanvasMutationPatch pending then remote else applyCanvasMutationPatch remote pending);
                c' = applyDocument result
                       (c\<lparr>co_base := Some remote, co_revision := mr_revision m,
                          co_inFlight := (if own then None else co_inFlight c)\<rparr>)
            in run_effects (if isEmptyCanvasMutationPatch pending then c' else scheduleMutation c')
      | _ \<Rightarrow> c)"

definition handleEnvelope :: "envelope \<Rightarrow> collaboration \<Rightarrow> collaboration" where
  "handleEnvelope e c =
     (case e of
        Unrecognised \<Rightarrow> c\<lparr>co_status := CollaborationError\<rparr>
      | SnapshotEnvelope connectionId st \<Rightarrow>
          applySnapshot st (c\<lparr>co_connectionId := connectionId, co_attempts := 0\<rparr>)
      | MutationEnvelope m \<Rightarrow> applyMutation m c
      | PresenceEnvelope connectionId active presence \<Rightarrow>
          c\<lparr>co_presence := (if active then js_set (co_presence c) connectionId presence
                             else js_delete (co_presence c) connectionId)\<rparr>
      | ErrorEnvelope status \<Rightarrow>
          if status = 409 then resync_start c
          else
            let c' = c\<lparr>co_inFlight := None\<rparr>
            in if status = 402 \<or> status = 403
               then run_effects (c'\<lparr>co_access := map_option (\<lambda>_. False) (co_access c'), co_status := ReadOnly\<rparr>)
               else c')"

text \<open>Milliseconds until the page connects again.\<close>

definition reconnect_delay :: "nat \<Rightarrow> nat" where
  "reconnect_delay attempt = min (1000 * 2 ^ min (attempt - 1) 5) 30000"

definition connect_socket :: "collaboration \<Rightarrow> collaboration" where
  "connect_socket c =
     (if co_disposed c then c
      else c\<lparr>co_open := False, co_status := (if co_attempts c \<noteq> 0 then Reconnecting else Connecting)\<rparr>)"

definition close_socket :: "collaboration \<Rightarrow> collaboration" where
  "close_socket c =
     (if co_disposed c then c
      else c\<lparr>co_open := False, co_status := Reconnecting, co_attempts := co_attempts c + 1\<rparr>)"

text \<open>The cleanup of the effect that holds the connection.\<close>

definition dispose_editor :: "collaboration \<Rightarrow> collaboration" where
  "dispose_editor c =
     c\<lparr>co_disposed := True, co_timer := False, co_presenceTimer := False, co_open := False, co_presence := []\<rparr>"

definition schedulePresence :: "collaboration \<Rightarrow> collaboration" where
  "schedulePresence c = (if \<not> co_open c \<or> co_connectionId c = [] then c else c\<lparr>co_presenceTimer := True\<rparr>)"

definition send_presence :: "collaboration \<Rightarrow> collaboration" where
  "send_presence c =
     (if \<not> co_open c then c
      else c\<lparr>co_presenceSent := co_presenceSent c @ [(co_cursor c, take 100 (co_selected c))]\<rparr>)"

definition updateCursor :: "(rat \<times> rat) option \<Rightarrow> collaboration \<Rightarrow> collaboration" where
  "updateCursor next c = schedulePresence (c\<lparr>co_cursor := next\<rparr>)"

definition refreshManagementState :: "project_state \<Rightarrow> collaboration \<Rightarrow> collaboration" where
  "refreshManagementState st c = run_effects (c\<lparr>co_access := Some (ps_canEdit st)\<rparr>)"

datatype collaboration_event =
  Edited document
| TimerFired string
| Received envelope
| ResyncAnswered nat "project_state option"
| SocketConnecting
| SocketOpened
| SocketClosed
| SocketFailed
| CursorMoved "(rat \<times> rat) option"
| SelectionChanged "string list"
| PresenceTimerFired
| ManagementRefreshed project_state
| Disposed

definition collaboration_step :: "collaboration \<Rightarrow> collaboration_event \<Rightarrow> collaboration" where
  "collaboration_step c e =
     (case e of
        Edited d \<Rightarrow> run_effects (applyDocument d c)
      | TimerFired i \<Rightarrow> if co_timer c then sendPendingMutation i (c\<lparr>co_timer := False\<rparr>) else c
      | Received v \<Rightarrow> handleEnvelope v c
      | ResyncAnswered n answer \<Rightarrow>
          if n < length (co_resyncs c)
          then resync_finish (co_resyncs c ! n) answer
                 (c\<lparr>co_resyncs := take n (co_resyncs c) @ drop (Suc n) (co_resyncs c)\<rparr>)
          else c
      | SocketConnecting \<Rightarrow> connect_socket c
      | SocketOpened \<Rightarrow> c\<lparr>co_open := True\<rparr>
      | SocketClosed \<Rightarrow> close_socket c
      | SocketFailed \<Rightarrow> if co_open c then c\<lparr>co_status := CollaborationError\<rparr> else c
      | CursorMoved next \<Rightarrow> updateCursor next c
      | SelectionChanged ids \<Rightarrow> schedulePresence (c\<lparr>co_selected := ids\<rparr>)
      | PresenceTimerFired \<Rightarrow> if co_presenceTimer c then send_presence (c\<lparr>co_presenceTimer := False\<rparr>) else c
      | ManagementRefreshed st \<Rightarrow> refreshManagementState st c
      | Disposed \<Rightarrow> dispose_editor c)"

definition new_collaboration :: "document option \<Rightarrow> collaboration" where
  "new_collaboration d =
     \<lparr>co_base = None, co_current = d, co_revision = 0, co_inFlight = None, co_access = None, co_status = Connecting,
      co_open = False, co_attempts = 0, co_timer = False, co_sent = [], co_resyncs = [], co_presence = [],
      co_connectionId = [], co_cursor = None, co_selected = [], co_presenceTimer = False, co_presenceSent = [],
      co_disposed = False\<rparr>"

subsection \<open>Waiting until everything is saved\<close>

datatype collaboration_failure = NoEditPermission | LoadFailed | RevisionBehind | NoConnection | SaveTimeout

definition requireEditableCanvasCollaboration ::
  "bool option \<Rightarrow> bool \<Rightarrow> project_state option \<Rightarrow> (collaboration_failure, project_state option) result" where
  "requireEditableCanvasCollaboration currentAccess hasBaseline answer =
     (case (currentAccess, hasBaseline) of
        (Some canEdit, True) \<Rightarrow> if \<not> canEdit then throws NoEditPermission else returns None
      | _ \<Rightarrow>
          (case answer of
             None \<Rightarrow> throws LoadFailed
           | Some st \<Rightarrow> if \<not> ps_canEdit st then throws NoEditPermission else returns (Some st)))"

definition requireCanvasCollaborationRevision ::
  "project_state \<Rightarrow> nat \<Rightarrow> (collaboration_failure, project_state) result" where
  "requireCanvasCollaborationRevision st expected =
     (if state_revision st < expected then throws RevisionBehind else returns st)"

definition refreshRemoteState ::
  "nat option \<Rightarrow> project_state \<Rightarrow> collaboration \<Rightarrow> (collaboration_failure, project_state) result \<times> collaboration" where
  "refreshRemoteState expected loaded c =
     (case (case expected of None \<Rightarrow> returns loaded | Some n \<Rightarrow> requireCanvasCollaborationRevision loaded n) of
        Inl e \<Rightarrow> (throws e, c)
      | Inr st \<Rightarrow>
          if state_revision st < co_revision c then (returns st, c)
          else (returns st, applySnapshot st c))"

definition adoptAuthoritativeBaseline :: "project_state \<Rightarrow> collaboration \<Rightarrow> collaboration" where
  "adoptAuthoritativeBaseline st c = run_effects (adopt_state st c)"

datatype flush_round = FlushSaved | FlushFailed collaboration_failure | FlushWaits

definition flush_check :: "collaboration \<Rightarrow> flush_round" where
  "flush_check c =
     (case (co_base c, co_current c) of
        (Some base, Some current) \<Rightarrow>
          if co_inFlight c = None \<and> isEmptyCanvasMutationPatch (diffCanvasCollaborationDocument base current) then FlushSaved
          else if \<not> co_open c then FlushFailed NoConnection else FlushWaits
      | _ \<Rightarrow> if \<not> co_open c then FlushFailed NoConnection else FlushWaits)"

text \<open>
  The loop; a round is what happens during its wait and the identifier drawn after it. The clock allows
  finitely many rounds: the list.
\<close>

fun flush_loop :: "(collaboration_event list \<times> string) list \<Rightarrow> collaboration \<Rightarrow> flush_round \<times> collaboration" where
  "flush_loop [] c = (FlushFailed SaveTimeout, c)"
| "flush_loop ((es, i) # rounds) c =
     (case flush_check c of
        FlushWaits \<Rightarrow> flush_loop rounds (sendPendingMutation i (foldl collaboration_step c es))
      | r \<Rightarrow> (r, c))"

definition flushPendingChanges ::
  "project_state option \<Rightarrow> string \<Rightarrow> (collaboration_event list \<times> string) list \<Rightarrow> collaboration \<Rightarrow>
   flush_round \<times> collaboration" where
  "flushPendingChanges answer i rounds c =
     (case requireEditableCanvasCollaboration (co_access c) (co_base c \<noteq> None) answer of
        Inl e \<Rightarrow> (FlushFailed e, c)
      | Inr loaded \<Rightarrow>
          let c' = (case loaded of None \<Rightarrow> c | Some st \<Rightarrow> adoptAuthoritativeBaseline st c)
          in flush_loop rounds (sendPendingMutation i (c'\<lparr>co_timer := False\<rparr>)))"

section \<open>The editor and the server agree\<close>

text \<open>
  What the server is relied on: it keeps one document per revision, the next revision is the patch it
  accepted applied to the last, and what it sends of a revision is what it keeps of it.
\<close>

definition server_ok :: "(nat \<Rightarrow> document) \<Rightarrow> (nat \<Rightarrow> canvas_patch) \<Rightarrow> bool" where
  "server_ok project patches \<longleftrightarrow>
     (\<forall>n. document_ok (project n) \<and> patch_ok (patches n) \<and>
        content (project (Suc n)) = content (applyCanvasMutationPatch (project n) (patches (Suc n))))"

definition state_served :: "(nat \<Rightarrow> document) \<Rightarrow> project_state \<Rightarrow> bool" where
  "state_served project st \<longleftrightarrow>
     document_ok (state_document st) \<and> content (state_document st) = content (project (state_revision st))"

fun served :: "(nat \<Rightarrow> document) \<Rightarrow> (nat \<Rightarrow> canvas_patch) \<Rightarrow> collaboration_event \<Rightarrow> bool" where
  "served project patches (Edited d) = document_ok d"
| "served project patches (Received (SnapshotEnvelope i st)) = state_served project st"
| "served project patches (Received (MutationEnvelope m)) = (mr_patch m = patches (mr_revision m))"
| "served project patches (ResyncAnswered n (Some st)) = state_served project st"
| "served project patches _ = True"

definition base_served :: "(nat \<Rightarrow> document) \<Rightarrow> collaboration \<Rightarrow> bool" where
  "base_served project c \<longleftrightarrow>
     pred_option (\<lambda>b. document_ok b \<and> content b = content (project (co_revision c))) (co_base c)"

definition collaboration_inv :: "(nat \<Rightarrow> document) \<Rightarrow> (nat \<Rightarrow> canvas_patch) \<Rightarrow> collaboration \<Rightarrow> bool" where
  "collaboration_inv project patches c \<longleftrightarrow>
     server_ok project patches \<and> base_served project c \<and> pred_option document_ok (co_current c) \<and>
     pred_option (\<lambda>f. document_ok (fl_target f)) (co_inFlight c) \<and> list_all patch_ok (co_resyncs c)"

lemmas connection_defs = connect_socket_def close_socket_def dispose_editor_def updateCursor_def schedulePresence_def
  send_presence_def

lemma effects_keep [simp]:
  "co_base (run_effects c) = co_base c" "co_revision (run_effects c) = co_revision c"
  "co_inFlight (run_effects c) = co_inFlight c" "co_resyncs (run_effects c) = co_resyncs c"
  "co_access (run_effects c) = co_access c" "co_sent (run_effects c) = co_sent c" "co_open (run_effects c) = co_open c"
  by (simp_all add: run_effects_def readonly_effect_def schedule_effect_def scheduleMutation_def applyDocument_def
      split: option.split)

lemma effects_current:
  "co_current (run_effects c) = co_current c \<or> co_current (run_effects c) = co_base c"
  by (auto simp: run_effects_def readonly_effect_def schedule_effect_def scheduleMutation_def applyDocument_def
      split: option.split)

lemma effects_inv: "collaboration_inv project patches c \<Longrightarrow> collaboration_inv project patches (run_effects c)"
  using effects_current [of c] by (auto simp: collaboration_inv_def base_served_def option.pred_set)

lemma empty_patch_ok [simp]: "patch_ok empty_patch"
  by (simp add: patch_ok_def empty_patch_def listed_def ids_distinct_def)

lemma pending_patch_ok [simp]: "pred_option document_ok d \<Longrightarrow> patch_ok (pending_patch b d)"
  by (auto simp: pending_patch_def diff_ok split: option.split)

lemma snapshot_inv:
  assumes "collaboration_inv project patches c" "state_served project st"
  shows "collaboration_inv project patches (applySnapshot st c)"
  unfolding applySnapshot_def Let_def
  by (rule effects_inv)
    (use assms in \<open>simp add: collaboration_inv_def base_served_def applyDocument_def adopt_state_def state_served_def
       apply_ok\<close>)

lemma resync_start_inv: "collaboration_inv project patches c \<Longrightarrow> collaboration_inv project patches (resync_start c)"
  by (simp add: collaboration_inv_def base_served_def resync_start_def)

lemma resync_finish_inv:
  assumes "collaboration_inv project patches c" "patch_ok pending" "pred_option (state_served project) answer"
  shows "collaboration_inv project patches (resync_finish pending answer c)"
proof (cases answer)
  case None
  then show ?thesis using assms(1) by (simp add: resync_finish_def collaboration_inv_def base_served_def)
next
  case (Some st)
  have "collaboration_inv project patches (applyDocument
      (if isEmptyCanvasMutationPatch pending then state_document st
       else applyCanvasMutationPatch (state_document st) pending) (adopt_state st c))"
    using assms Some
    by (simp add: collaboration_inv_def base_served_def applyDocument_def adopt_state_def state_served_def apply_ok)
  then show ?thesis using Some by (simp add: resync_finish_def Let_def effects_inv)
qed

lemma send_inv: "collaboration_inv project patches c \<Longrightarrow> collaboration_inv project patches (sendPendingMutation i c)"
  by (auto simp: sendPendingMutation_def Let_def collaboration_inv_def base_served_def apply_ok diff_ok
      split: option.split)

lemma served_next:
  assumes "server_ok project patches" "document_ok b" "content b = content (project n)"
  shows "document_ok (applyCanvasMutationPatch b (patches (Suc n)))"
    and "content (applyCanvasMutationPatch b (patches (Suc n))) = content (project (Suc n))"
  using assms apply_content [of b "project n" "patches (Suc n)"] by (simp_all add: server_ok_def apply_ok)

text \<open>An accepted mutation, with the case distinctions of the code resolved.\<close>

definition known_target :: "collaboration \<Rightarrow> mutation_result \<Rightarrow> document \<Rightarrow> document" where
  "known_target c m base =
     (case co_inFlight c of None \<Rightarrow> base | Some f \<Rightarrow> if own_mutation c m then fl_target f else base)"

lemma applyMutation_accepted:
  assumes "co_base c = Some base" "co_current c = Some current" "mr_revision m = Suc (co_revision c)"
  shows "\<exists>c'. applyMutation m c = run_effects c' \<and>
    co_base c' = Some (applyCanvasMutationPatch base (mr_patch m)) \<and> co_revision c' = mr_revision m \<and>
    co_inFlight c' = (if own_mutation c m then None else co_inFlight c) \<and> co_access c' = co_access c \<and>
    co_resyncs c' = co_resyncs c \<and> co_open c' = co_open c \<and> co_sent c' = co_sent c \<and>
    co_current c' = Some (let pending = diffCanvasCollaborationDocument (known_target c m base) current;
       remote = applyCanvasMutationPatch base (mr_patch m)
     in if isEmptyCanvasMutationPatch pending then remote else applyCanvasMutationPatch remote pending)"
proof -
  have known: "(case co_inFlight c of
      Some f \<Rightarrow> if own_mutation c m then diffCanvasCollaborationDocument (fl_target f) current
                else diffCanvasCollaborationDocument base current
    | None \<Rightarrow> diffCanvasCollaborationDocument base current) =
    diffCanvasCollaborationDocument (known_target c m base) current"
    by (simp add: known_target_def split: option.split)
  show ?thesis
    unfolding applyMutation_def assms option.case prod.case Let_def known
    using assms(3)
    by (cases "isEmptyCanvasMutationPatch (diffCanvasCollaborationDocument (known_target c m base) current)")
      (force simp: applyDocument_def scheduleMutation_def)+
qed

lemma mutation_inv:
  assumes c: "collaboration_inv project patches c" and m: "mr_patch m = patches (mr_revision m)"
  shows "collaboration_inv project patches (applyMutation m c)"
proof (cases "\<exists>base current. co_base c = Some base \<and> co_current c = Some current \<and> mr_revision m = Suc (co_revision c)")
  case True
  then obtain base current where b: "co_base c = Some base" "co_current c = Some current"
    "mr_revision m = Suc (co_revision c)" by blast
  obtain c' where c': "applyMutation m c = run_effects c'"
    "co_base c' = Some (applyCanvasMutationPatch base (mr_patch m))" "co_revision c' = mr_revision m"
    "co_inFlight c' = (if own_mutation c m then None else co_inFlight c)" "co_resyncs c' = co_resyncs c"
    "co_current c' = Some (let pending = diffCanvasCollaborationDocument (known_target c m base) current;
       remote = applyCanvasMutationPatch base (mr_patch m)
     in if isEmptyCanvasMutationPatch pending then remote else applyCanvasMutationPatch remote pending)"
    using applyMutation_accepted [OF b] by blast
  have base: "document_ok base" "content base = content (project (co_revision c))"
    using c b(1) by (simp_all add: collaboration_inv_def base_served_def)
  have "server_ok project patches" using c by (simp add: collaboration_inv_def)
  note next_base = served_next [OF this base]
  have "collaboration_inv project patches c'"
    using c c' b(2,3) m next_base
    by (auto simp: collaboration_inv_def base_served_def Let_def apply_ok diff_ok option.pred_set)
  then show ?thesis using c'(1) effects_inv by simp
next
  case False
  then show ?thesis
    using c resync_start_inv [OF c] by (auto simp: applyMutation_def split: option.split)
qed

lemma collaboration_step_inv:
  assumes "collaboration_inv project patches c" "served project patches e"
  shows "collaboration_inv project patches (collaboration_step c e)"
proof (cases e)
  case (Edited d)
  then have "collaboration_inv project patches (applyDocument d c)"
    using assms by (simp add: applyDocument_def collaboration_inv_def base_served_def)
  then show ?thesis using Edited by (simp add: collaboration_step_def effects_inv)
next
  case (TimerFired i)
  have "collaboration_inv project patches (c\<lparr>co_timer := False\<rparr>)"
    using assms(1) by (simp add: collaboration_inv_def base_served_def)
  then show ?thesis using TimerFired assms(1) by (simp add: collaboration_step_def send_inv)
next
  case (Received v)
  show ?thesis
  proof (cases v)
    case (SnapshotEnvelope i st)
    have "collaboration_inv project patches (c\<lparr>co_connectionId := i, co_attempts := 0\<rparr>)"
      using assms(1) by (simp add: collaboration_inv_def base_served_def)
    then show ?thesis
      using Received SnapshotEnvelope assms(2) by (simp add: collaboration_step_def handleEnvelope_def snapshot_inv)
  next
    case (ErrorEnvelope status)
    have "collaboration_inv project patches (c\<lparr>co_inFlight := None\<rparr>)"
      "collaboration_inv project patches
        (c\<lparr>co_inFlight := None, co_access := map_option (\<lambda>_. False) (co_access c), co_status := ReadOnly\<rparr>)"
      using assms(1) by (simp_all add: collaboration_inv_def base_served_def)
    then show ?thesis
      using Received ErrorEnvelope resync_start_inv [OF assms(1)]
      by (simp add: collaboration_step_def handleEnvelope_def Let_def effects_inv)
  next
    case (MutationEnvelope m)
    then show ?thesis
      using mutation_inv [OF assms(1)] Received assms(2) by (simp add: collaboration_step_def handleEnvelope_def)
  qed (use assms Received in \<open>simp_all add: collaboration_step_def handleEnvelope_def collaboration_inv_def
         base_served_def\<close>)
next
  case (ResyncAnswered n answer)
  have "collaboration_inv project patches (c\<lparr>co_resyncs := take n (co_resyncs c) @ drop (Suc n) (co_resyncs c)\<rparr>)"
    using assms(1) by (auto simp: collaboration_inv_def base_served_def list_all_iff dest: in_set_takeD in_set_dropD)
  moreover have "patch_ok (co_resyncs c ! n)" if "n < length (co_resyncs c)"
    using assms(1) that by (simp add: collaboration_inv_def list_all_length)
  moreover have "pred_option (state_served project) answer" using assms(2) ResyncAnswered by (cases answer) simp_all
  ultimately show ?thesis using ResyncAnswered assms(1) by (simp add: collaboration_step_def resync_finish_inv)
next
  case (ManagementRefreshed st)
  have "collaboration_inv project patches (c\<lparr>co_access := Some (ps_canEdit st)\<rparr>)"
    using assms(1) by (simp add: collaboration_inv_def base_served_def)
  then show ?thesis
    using ManagementRefreshed by (simp add: collaboration_step_def refreshManagementState_def effects_inv)
qed (use assms(1) in \<open>simp_all add: collaboration_step_def connection_defs collaboration_inv_def base_served_def\<close>)

interpretation editor: guarded_machine collaboration_step "collaboration_inv project patches" "served project patches"
  for project patches
  by unfold_locales (rule collaboration_step_inv)

definition editor_run :: "document option \<Rightarrow> collaboration_event list \<Rightarrow> collaboration" where
  "editor_run d es = foldl collaboration_step (new_collaboration d) es"

lemma editor_run_inv:
  assumes "server_ok project patches" "pred_option document_ok d" "list_all (served project patches) es"
  shows "collaboration_inv project patches (editor_run d es)"
  unfolding editor_run_def
  by (rule editor.guarded_run [OF _ assms(3)])
    (use assms(1,2) in \<open>simp add: collaboration_inv_def base_served_def new_collaboration_def\<close>)

text \<open>An editor that has nothing to save: what it shows is what it takes for the server's document.\<close>

definition nothing_pending :: "collaboration \<Rightarrow> bool" where
  "nothing_pending c \<longleftrightarrow>
     (case (co_base c, co_current c) of
        (Some base, Some current) \<Rightarrow> isEmptyCanvasMutationPatch (diffCanvasCollaborationDocument base current)
      | _ \<Rightarrow> False)"

definition shows_revision :: "(nat \<Rightarrow> document) \<Rightarrow> collaboration \<Rightarrow> bool" where
  "shows_revision project c \<longleftrightarrow>
     pred_option (\<lambda>current. content current = content (project (co_revision c))) (co_current c)"

lemma nothing_pending_shows:
  "collaboration_inv project patches c \<Longrightarrow> nothing_pending c \<Longrightarrow> shows_revision project c"
  by (auto simp: nothing_pending_def shows_revision_def collaboration_inv_def base_served_def diff_empty
      split: option.splits)

text \<open>
  C10. Whatever edits, messages, answers, timers and losses of the connection happen in whatever order,
  the document an editor takes for the server's is the one the server has at the editor's revision.
  So an editor with nothing left to save shows that document, and two such editors at one revision show
  the same.
\<close>

theorem editors_agree_with_server:
  assumes "server_ok project patches" and "pred_option document_ok d" and "pred_option document_ok d'"
    and "list_all (served project patches) es" and "list_all (served project patches) es'"
  shows "base_served project (editor_run d es) \<and>
    (nothing_pending (editor_run d es) \<longrightarrow> shows_revision project (editor_run d es)) \<and>
    (nothing_pending (editor_run d es) \<and> nothing_pending (editor_run d' es') \<and>
       co_revision (editor_run d es) = co_revision (editor_run d' es') \<longrightarrow>
     map_option content (co_current (editor_run d es)) = map_option content (co_current (editor_run d' es')))"
proof -
  have inv: "collaboration_inv project patches (editor_run d es)" "collaboration_inv project patches (editor_run d' es')"
    using assms by (simp_all add: editor_run_inv)
  have some: "\<exists>x. co_current c = Some x" if "nothing_pending c" for c
    using that by (auto simp: nothing_pending_def split: option.splits)
  show ?thesis
    using inv nothing_pending_shows [OF inv(1)] nothing_pending_shows [OF inv(2)]
      some [of "editor_run d es"] some [of "editor_run d' es'"]
    by (auto simp: collaboration_inv_def shows_revision_def)
qed

subsection \<open>Local edits survive\<close>

lemma accepted_current:
  assumes c: "collaboration_inv project patches c" and m: "mr_patch m = patches (mr_revision m)"
    and b: "co_base c = Some base" "co_current c = Some current" "mr_revision m = Suc (co_revision c)"
    and edit: "co_access c \<noteq> Some False"
  shows "\<exists>shown. co_current (applyMutation m c) = Some shown \<and> document_ok shown \<and>
    content shown = merged (content (known_target c m base)) (content current) (content (project (mr_revision m)))"
proof -
  obtain c' where c': "applyMutation m c = run_effects c'" "co_access c' = co_access c"
    "co_current c' = Some (let pending = diffCanvasCollaborationDocument (known_target c m base) current;
       remote = applyCanvasMutationPatch base (mr_patch m)
     in if isEmptyCanvasMutationPatch pending then remote else applyCanvasMutationPatch remote pending)"
    using applyMutation_accepted [OF b] by blast
  have kept: "co_current (run_effects c') = co_current c'"
    using edit c'(2)
    by (simp add: run_effects_def readonly_effect_def schedule_effect_def scheduleMutation_def split: option.split)
  have base: "document_ok base" "content base = content (project (co_revision c))" and ok: "document_ok current"
    and known: "document_ok (known_target c m base)" and srv: "server_ok project patches"
    using c b by (auto simp: collaboration_inv_def base_served_def known_target_def split: option.split)
  define remote where "remote = applyCanvasMutationPatch base (mr_patch m)"
  have remote: "document_ok remote" "content remote = content (project (mr_revision m))"
    using served_next [OF srv base] m b(3) by (simp_all add: remote_def)
  define shown where "shown = (if isEmptyCanvasMutationPatch (diffCanvasCollaborationDocument (known_target c m base) current)
      then remote else applyCanvasMutationPatch remote (diffCanvasCollaborationDocument (known_target c m base) current))"
  have "content shown = merged (content (known_target c m base)) (content current) (content remote)"
    using diff_empty [OF known ok] content_merge [OF known ok remote(1)]
    by (auto simp: shown_def merged_def fun_eq_iff)
  moreover have "co_current (applyMutation m c) = Some shown"
    using c'(1,3) kept by (simp add: Let_def remote_def shown_def)
  moreover have "document_ok shown" using remote(1) ok by (simp add: shown_def apply_ok diff_ok)
  ultimately show ?thesis using remote(2) by simp
qed

text \<open>
  C12. A mutation of somebody else that arrives in its turn never touches what the user of this page has
  changed and not yet saved: of every entity and setting that differs from the last known server
  document the page keeps its own value, and all others it takes over from the server's new document.
\<close>

theorem foreign_mutation_keeps_edits:
  assumes "server_ok project patches" and "pred_option document_ok d" and "list_all (served project patches) es"
    and "c = editor_run d es" and "co_base c = Some base" and "co_current c = Some current"
    and "mr_revision m = Suc (co_revision c)" and "mr_patch m = patches (mr_revision m)"
    and "\<not> own_mutation c m" and "co_access c \<noteq> Some False"
  shows "\<exists>shown. co_current (collaboration_step c (Received (MutationEnvelope m))) = Some shown \<and>
    content shown = merged (content base) (content current) (content (project (mr_revision m)))"
proof -
  have c: "collaboration_inv project patches c" using assms(1-4) by (simp add: editor_run_inv)
  have "known_target c m base = base" using assms(9) by (simp add: known_target_def split: option.split)
  then show ?thesis
    using accepted_current [OF c assms(8,5,6,7,10)] by (auto simp: collaboration_step_def handleEnvelope_def)
qed

subsection \<open>Edits are saved\<close>

lemma sendPendingMutation_sends:
  assumes "co_base c = Some base" "co_current c = Some current" "co_open c" "co_inFlight c = None"
    "co_access c = Some True" "\<not> isEmptyCanvasMutationPatch (diffCanvasCollaborationDocument base current)"
  shows "sendPendingMutation i c =
    c\<lparr>co_inFlight := Some \<lparr>fl_id = i, fl_patch = diffCanvasCollaborationDocument base current,
        fl_target = applyCanvasMutationPatch base (diffCanvasCollaborationDocument base current)\<rparr>,
      co_sent := co_sent c @ [(co_revision c, i, diffCanvasCollaborationDocument base current)]\<rparr>"
  using assms by (simp add: sendPendingMutation_def Let_def)


subsection \<open>Waiting for the save\<close>

lemma flush_check_saved: "flush_check c = FlushSaved \<Longrightarrow> co_inFlight c = None \<and> nothing_pending c"
  by (auto simp: flush_check_def nothing_pending_def split: option.splits if_splits)

lemma flush_loop_saved:
  assumes "flush_loop rounds c = (FlushSaved, c')" "collaboration_inv project patches c"
    and "list_all (\<lambda>r. list_all (served project patches) (fst r)) rounds"
  shows "collaboration_inv project patches c' \<and> flush_check c' = FlushSaved"
  using assms
proof (induction rounds arbitrary: c)
  case (Cons r rounds)
  obtain es i where r: "r = (es, i)" by (cases r)
  show ?case
  proof (cases "flush_check c")
    case FlushWaits
    then show ?thesis
      using Cons.IH [of "sendPendingMutation i (foldl collaboration_step c es)"] Cons.prems r
        editor.guarded_run [OF Cons.prems(2), of es] by (simp add: send_inv)
  qed (use Cons.prems r in auto)
qed simp

lemma adopt_inv:
  "collaboration_inv project patches c \<Longrightarrow> state_served project st \<Longrightarrow>
     collaboration_inv project patches (adoptAuthoritativeBaseline st c)"
  unfolding adoptAuthoritativeBaseline_def
  by (rule effects_inv) (simp add: collaboration_inv_def base_served_def adopt_state_def state_served_def)

text \<open>
  When waiting for the save of a canvas reports success, it is saved: nothing is in flight and the
  page shows the document the server has at the page's revision. The wait ends after the rounds the
  clock allows, whatever happens in them.
\<close>

lemma flush_means_saved:
  assumes "server_ok project patches" and "pred_option document_ok d" and "list_all (served project patches) es"
    and "pred_option (state_served project) answer"
    and "list_all (\<lambda>r. list_all (served project patches) (fst r)) rounds"
    and "flushPendingChanges answer i rounds (editor_run d es) = (FlushSaved, c)"
  shows "co_inFlight c = None \<and> nothing_pending c \<and> shows_revision project c"
proof -
  let ?c = "editor_run d es"
  have inv: "collaboration_inv project patches ?c" using assms(1-3) by (rule editor_run_inv)
  obtain loaded where loaded: "requireEditableCanvasCollaboration (co_access ?c) (co_base ?c \<noteq> None) answer = Inr loaded"
    using assms(6) by (auto simp: flushPendingChanges_def split: sum.splits)
  define c' where "c' = (case loaded of None \<Rightarrow> ?c | Some st \<Rightarrow> adoptAuthoritativeBaseline st ?c)"
  have "pred_option (state_served project) loaded"
    using loaded assms(4)
    by (auto simp: requireEditableCanvasCollaboration_def split: option.splits bool.splits if_splits)
  then have "collaboration_inv project patches c'" using inv by (auto simp: c'_def adopt_inv split: option.split)
  then have "collaboration_inv project patches (c'\<lparr>co_timer := False\<rparr>)"
    by (simp add: collaboration_inv_def base_served_def)
  moreover have "flush_loop rounds (sendPendingMutation i (c'\<lparr>co_timer := False\<rparr>)) = (FlushSaved, c)"
    using assms(6) loaded by (simp add: flushPendingChanges_def c'_def)
  ultimately have "collaboration_inv project patches c \<and> flush_check c = FlushSaved"
    using flush_loop_saved assms(5) send_inv by blast
  then show ?thesis using flush_check_saved nothing_pending_shows by blast
qed

subsection \<open>What goes wrong around a resync\<close>

lemma snoc_entry [simp]: "take (length xs) (xs @ [x]) = xs" "drop (Suc (length xs)) (xs @ [x]) = []"
  by simp_all

text \<open>
  C21. What the user changes while a resync waits for its answer is lost: the answer replaces the document
  by one that was merged from the pending changes at the start of the resync, so the edit leaves no
  trace in the document shown, nor in what is sent.
\<close>

theorem edits_during_resync_are_lost:
  assumes "co_base c = Some base" and "co_inFlight c \<noteq> None"
    and "c1 = foldl collaboration_step c
           [Received (ErrorEnvelope 409), Edited edited, TimerFired i, ResyncAnswered (length (co_resyncs c)) (Some st)]"
    and "c2 = foldl collaboration_step c
           [Received (ErrorEnvelope 409), ResyncAnswered (length (co_resyncs c)) (Some st)]"
  shows "co_current c1 = co_current c2 \<and> co_base c1 = co_base c2 \<and> co_sent c1 = co_sent c2"
proof -
  define started where "started = resync_start c"
  define edited_state where
    "edited_state = collaboration_step (collaboration_step started (Edited edited)) (TimerFired i)"
  have st: "co_resyncs started = co_resyncs c @ [pending_patch (co_base c) (co_current c)]"
    "co_inFlight started = co_inFlight c" "co_sent started = co_sent c"
    by (simp_all add: started_def resync_start_def)
  have ed: "co_resyncs edited_state = co_resyncs started" "co_sent edited_state = co_sent c"
    using assms(2) st
    by (simp_all add: edited_state_def collaboration_step_def sendPendingMutation_def applyDocument_def Let_def
        split: option.split)
  have same: "co_current (run_effects (applyDocument r (adopt_state st a))) =
      co_current (run_effects (applyDocument r (adopt_state st b)))" for r a b
    by (simp add: run_effects_def readonly_effect_def schedule_effect_def scheduleMutation_def applyDocument_def
        adopt_state_def)
  have "c1 = collaboration_step edited_state (ResyncAnswered (length (co_resyncs c)) (Some st))"
    "c2 = collaboration_step started (ResyncAnswered (length (co_resyncs c)) (Some st))"
    using assms(3,4) by (simp_all add: edited_state_def started_def collaboration_step_def handleEnvelope_def)
  then show ?thesis
    using st ed same
    by (simp add: collaboration_step_def resync_finish_def Let_def applyDocument_def adopt_state_def nth_append)
qed

text \<open>What happens to an editor while the server sends no fresh state and does not speak of its mutation.\<close>

fun quiet_event :: "string \<Rightarrow> collaboration_event \<Rightarrow> bool" where
  "quiet_event i (Received (SnapshotEnvelope k st)) = False"
| "quiet_event i (Received (MutationEnvelope m)) = (mr_clientMutationId m \<noteq> i)"
| "quiet_event i (Received (ErrorEnvelope status)) = (status = 409)"
| "quiet_event i (ResyncAnswered n (Some st)) = False"
| "quiet_event i _ = True"

lemma quiet_step:
  assumes "co_inFlight c = Some f" "quiet_event (fl_id f) e"
  shows "co_inFlight (collaboration_step c e) = Some f \<and> co_sent (collaboration_step c e) = co_sent c"
  using assms
  by (cases "(fl_id f, e)" rule: quiet_event.cases)
    (auto simp: collaboration_step_def handleEnvelope_def applyMutation_def own_mutation_def resync_start_def
      resync_finish_def sendPendingMutation_def applyDocument_def scheduleMutation_def connection_defs
      refreshManagementState_def Let_def split: option.splits)

text \<open>
  C22. After a conflict whose resync fails, the editor is stuck: the refused mutation stays in flight, so
  nothing the user does afterwards is ever sent, whatever timers fire, mutations of others arrive or
  further resyncs fail, until the server sends a fresh state.
\<close>

theorem failed_resync_blocks_saving:
  assumes "co_inFlight c = Some f" and "list_all (quiet_event (fl_id f)) es"
  shows "co_sent (foldl collaboration_step c
      ([Received (ErrorEnvelope 409), ResyncAnswered n None] @ es)) = co_sent c"
proof -
  have "co_inFlight (foldl collaboration_step c es) = Some f \<and> co_sent (foldl collaboration_step c es) = co_sent c"
    if "co_inFlight c = Some f" "list_all (quiet_event (fl_id f)) es" for c es
    using that
  proof (induction es arbitrary: c)
    case (Cons e es)
    then show ?case using quiet_step [of c f e] by simp
  qed simp
  from this [OF assms(1), of "[Received (ErrorEnvelope 409), ResyncAnswered n None] @ es"] show ?thesis
    using assms(2) by simp
qed

lemma reconnect_delay_bounds: "1000 \<le> reconnect_delay n \<and> reconnect_delay n \<le> 30000"
proof -
  have "(1 :: nat) \<le> 2 ^ min (n - 1) 5" by simp
  then show ?thesis unfolding reconnect_delay_def by linarith
qed

subsection \<open>A concrete canvas\<close>

definition old_document :: document where
  "old_document = sample_document ''a'' JNull"

definition new_document :: document where
  "new_document = sample_document ''b'' JNull"

definition sample_project :: "nat \<Rightarrow> document" where
  "sample_project n = (if n = 0 then old_document else new_document)"

definition sample_patches :: "nat \<Rightarrow> canvas_patch" where
  "sample_patches n = (if n = 1 then diffCanvasCollaborationDocument old_document new_document else empty_patch)"

definition sample_state :: project_state where
  "sample_state = \<lparr>ps_project = \<lparr>pj_title = ''a'', pj_nodes = Some (dc_nodes old_document), pj_connections = None,
     pj_background = ''dots'', pj_showImageInfo = None, pj_scenes = None, pj_revision = None\<rparr>, ps_canEdit = True\<rparr>"

lemma sample_documents [simp]: "document_ok old_document" "document_ok new_document"
  by (simp_all add: old_document_def new_document_def)

lemma sample_state_document [simp]: "state_document sample_state = old_document" "state_revision sample_state = 0"
  by (simp_all add: state_document_def collaborationDocumentFromProject_def sample_state_def old_document_def
      sample_document_def state_revision_def)

lemma sample_server: "server_ok sample_project sample_patches"
proof -
  have "content (applyCanvasMutationPatch d empty_patch) = content d" if "document_ok d" for d
    unfolding content_eq_iff
    using that by (auto simp: apply_parts empty_patch_def document_ok_def listed_def no_document_changes_def
        entity_at_apply ids_distinct_def) (auto simp: entity_at_def by_id_def js_map_of_def)
  moreover have "content (applyCanvasMutationPatch old_document (diffCanvasCollaborationDocument old_document new_document))
      = content new_document"
    by (auto simp: content_merge merged_def)
  ultimately show ?thesis
    by (simp add: server_ok_def sample_project_def sample_patches_def diff_ok)
qed

definition sample_events :: "collaboration_event list" where
  "sample_events = [SocketOpened, Received (SnapshotEnvelope ''s'' sample_state), Edited new_document]"

lemma sample_events_served: "list_all (served sample_project sample_patches) sample_events"
  by (simp add: sample_events_def state_served_def sample_project_def)

lemma sample_difference: "\<not> isEmptyCanvasMutationPatch (diffCanvasCollaborationDocument old_document new_document)"
  by (simp add: diff_empty content_eq_iff) (simp add: old_document_def new_document_def sample_document_def)

lemma sample_same: "isEmptyCanvasMutationPatch (diffCanvasCollaborationDocument old_document old_document)"
  by (simp add: diff_empty)

lemma empty_patch_empty: "isEmptyCanvasMutationPatch empty_patch"
  by (simp add: isEmptyCanvasMutationPatch_def empty_patch_def listed_def)

lemmas sample_run_simps = editor_run_def collaboration_step_def new_collaboration_def handleEnvelope_def
  applySnapshot_def Let_def adopt_state_def run_effects_def schedule_effect_def readonly_effect_def
  scheduleMutation_def applyDocument_def pending_patch_def empty_patch_empty nothing_pending_def sample_same sample_difference

lemma sample_state_edit [simp]: "ps_canEdit sample_state"
  by (simp add: sample_state_def)

lemma sample_editor:
  "co_base (editor_run None sample_events) = Some old_document"
  "co_current (editor_run None sample_events) = Some new_document" "co_open (editor_run None sample_events)"
  "co_inFlight (editor_run None sample_events) = None" "co_access (editor_run None sample_events) = Some True"
  "co_timer (editor_run None sample_events)" "co_revision (editor_run None sample_events) = 0"
  "\<not> nothing_pending (editor_run None sample_events)"
  by (simp_all add: sample_events_def sample_run_simps)


lemma editors_agree_with_server_witness:
  "base_served sample_project (editor_run None sample_events)"
  using editors_agree_with_server [where d = None and d' = None, OF sample_server _ _ sample_events_served
      sample_events_served] by simp

lemma foreign_mutation_keeps_edits_witness:
  "\<exists>shown. co_current (collaboration_step (editor_run None sample_events) (Received (MutationEnvelope
      \<lparr>mr_revision = 1, mr_clientMutationId = ''j'', mr_patch = sample_patches 1\<rparr>))) = Some shown \<and>
    content shown = merged (content old_document) (content new_document) (content (sample_project 1))"
  using foreign_mutation_keeps_edits [where d = None and m = "\<lparr>mr_revision = 1, mr_clientMutationId = ''j'',
      mr_patch = sample_patches 1\<rparr>", OF sample_server _ sample_events_served refl sample_editor(1,2)] sample_editor
  by (simp add: own_mutation_def)

definition calm_events :: "collaboration_event list" where
  "calm_events = [SocketOpened, Received (SnapshotEnvelope ''s'' sample_state)]"

lemma flush_means_saved_witness:
  "\<exists>c. flushPendingChanges None ''i'' [([], ''j'')] (editor_run None calm_events) = (FlushSaved, c) \<and>
     shows_revision sample_project c"
proof -
  have calm: "co_base (editor_run None calm_events) = Some old_document"
    "co_current (editor_run None calm_events) = Some old_document" "co_access (editor_run None calm_events) = Some True"
    "co_inFlight (editor_run None calm_events) = None"
    by (simp_all add: calm_events_def sample_run_simps)
  then have f: "flushPendingChanges None ''i'' [([], ''j'')] (editor_run None calm_events) =
      (FlushSaved, (editor_run None calm_events)\<lparr>co_timer := False\<rparr>)"
    by (simp add: flushPendingChanges_def requireEditableCanvasCollaboration_def sendPendingMutation_def flush_check_def
        sample_same Let_def)
  have e: "list_all (served sample_project sample_patches) calm_events"
    by (simp add: calm_events_def state_served_def sample_project_def)
  from flush_means_saved [where d = None, OF sample_server _ e _ _ f] f show ?thesis by simp
qed

definition conflicting :: collaboration where
  "conflicting = collaboration_step (editor_run None sample_events) (TimerFired ''i'')"

lemma conflicting: "co_base conflicting = Some old_document"
  "co_inFlight conflicting = Some \<lparr>fl_id = ''i'', fl_patch = diffCanvasCollaborationDocument old_document new_document,
     fl_target = applyCanvasMutationPatch old_document (diffCanvasCollaborationDocument old_document new_document)\<rparr>"
  using sample_editor
  by (simp_all add: conflicting_def collaboration_step_def sendPendingMutation_def Let_def sample_difference)

lemma edits_during_resync_are_lost_witness:
  "co_current (foldl collaboration_step conflicting [Received (ErrorEnvelope 409), Edited new_document, TimerFired ''j'',
      ResyncAnswered (length (co_resyncs conflicting)) (Some sample_state)]) =
    co_current (foldl collaboration_step conflicting [Received (ErrorEnvelope 409),
      ResyncAnswered (length (co_resyncs conflicting)) (Some sample_state)])"
  using edits_during_resync_are_lost [OF conflicting(1) _ refl refl, of new_document "''j''" sample_state] conflicting(2)
  by simp

lemma failed_resync_blocks_saving_witness:
  "co_sent (foldl collaboration_step conflicting
     ([Received (ErrorEnvelope 409), ResyncAnswered 0 None] @ [Edited old_document, TimerFired ''j''])) = co_sent conflicting"
  by (rule failed_resync_blocks_saving [OF conflicting(2)]) simp

end
