(* ===== verification/CanvasHistory.thy ===== *)
theory CanvasHistory
  imports CanvasDocument
begin

text \<open>
  Undo and redo on a canvas, \<^verbatim>\<open>web/src/pages/canvas/use-canvas-history.ts\<close>. An entity is its identifier and
  the object itself: the code compares entities by identity, and objects are never changed in place,
  so \<open>'v\<close> is any type of objects told apart. \<open>hy_shown\<close> is the snapshot React last rendered; a change
  of it runs the hook's effect. The selection and menus that undo clears are left out.
\<close>

subsection \<open>Patches\<close>

record 'v history_snapshot =
  hs_nodes :: "'v entity list"
  hs_connections :: "'v entity list"
  hs_chatSessions :: "'v entity list"
  hs_activeChatId :: "string option"
  hs_background :: string
  hs_showImageInfo :: bool

record 'v entity_change =
  ch_id :: string
  ch_before :: "'v entity option"
  ch_after :: "'v entity option"

record 'v entity_patch =
  ec_changes :: "'v entity_change list"
  ec_beforeOrder :: "string list option"
  ec_afterOrder :: "string list option"

record 'v history_patch =
  hp_nodes :: "'v entity_patch option"
  hp_connections :: "'v entity_patch option"
  hp_chatSessions :: "'v entity_patch option"
  hp_activeChatId :: "(string option \<times> string option) option"
  hp_background :: "(string \<times> string) option"
  hp_showImageInfo :: "(bool \<times> bool) option"

datatype side = BeforeSide | AfterSide

fun at_side :: "side \<Rightarrow> 'a \<times> 'a \<Rightarrow> 'a" where
  "at_side BeforeSide p = fst p"
| "at_side AfterSide p = snd p"

fun change_value :: "side \<Rightarrow> 'v entity_change \<Rightarrow> 'v entity option" where
  "change_value BeforeSide c = ch_before c"
| "change_value AfterSide c = ch_after c"

fun side_order :: "side \<Rightarrow> 'v entity_patch \<Rightarrow> string list option" where
  "side_order BeforeSide p = ec_beforeOrder p"
| "side_order AfterSide p = ec_afterOrder p"

definition createEntityPatch :: "'v entity list \<Rightarrow> 'v entity list \<Rightarrow> 'v entity_patch option" where
  "createEntityPatch before after =
     (let beforeById = by_id before; afterById = by_id after;
          ids = js_set_of (js_keys beforeById @ js_keys afterById);
          changes = filter (\<lambda>c. ch_before c \<noteq> ch_after c)
            (map (\<lambda>i. \<lparr>ch_id = i, ch_before = js_get beforeById i, ch_after = js_get afterById i\<rparr>) ids);
          beforeOrder = map en_id before; afterOrder = map en_id after;
          orderChanged = (length beforeOrder \<noteq> length afterOrder \<or>
            list_ex (\<lambda>(i, j). i \<noteq> j) (zip beforeOrder afterOrder))
      in if changes = [] \<and> \<not> orderChanged then None
         else Some \<lparr>ec_changes = changes, ec_beforeOrder = (if orderChanged then Some beforeOrder else None),
                ec_afterOrder = (if orderChanged then Some afterOrder else None)\<rparr>)"

definition apply_change :: "side \<Rightarrow> (string, 'v entity) js_map \<Rightarrow> 'v entity_change \<Rightarrow> (string, 'v entity) js_map" where
  "apply_change side byId c =
     (case change_value side c of Some v \<Rightarrow> js_set byId (ch_id c) v | None \<Rightarrow> js_delete byId (ch_id c))"

definition applyHistoryEntityPatch :: "'v entity list \<Rightarrow> 'v entity_patch \<Rightarrow> side \<Rightarrow> 'v entity list" where
  "applyHistoryEntityPatch current patch side =
     (let byId = foldl (apply_change side) (by_id current) (ec_changes patch);
          order = (case side_order side patch of None \<Rightarrow> map en_id current | Some ids \<Rightarrow> ids)
      in List.map_filter (js_get byId) order)"

definition value_patch :: "'a \<Rightarrow> 'a \<Rightarrow> ('a \<times> 'a) option" where
  "value_patch before after = (if before \<noteq> after then Some (before, after) else None)"

definition createCanvasHistoryPatch ::
  "'v history_snapshot \<Rightarrow> 'v history_snapshot \<Rightarrow> 'v history_patch option" where
  "createCanvasHistoryPatch before after =
     (let patch = \<lparr>hp_nodes = createEntityPatch (hs_nodes before) (hs_nodes after),
            hp_connections = createEntityPatch (hs_connections before) (hs_connections after),
            hp_chatSessions = createEntityPatch (hs_chatSessions before) (hs_chatSessions after),
            hp_activeChatId = value_patch (hs_activeChatId before) (hs_activeChatId after),
            hp_background = value_patch (hs_background before) (hs_background after),
            hp_showImageInfo = value_patch (hs_showImageInfo before) (hs_showImageInfo after)\<rparr>
      in if hp_nodes patch = None \<and> hp_connections patch = None \<and> hp_chatSessions patch = None \<and>
            hp_activeChatId patch = None \<and> hp_background patch = None \<and> hp_showImageInfo patch = None
         then None else Some patch)"

definition patched_entities :: "'v entity_patch option \<Rightarrow> side \<Rightarrow> 'v entity list \<Rightarrow> 'v entity list" where
  "patched_entities patch side current =
     (case patch of None \<Rightarrow> current | Some p \<Rightarrow> applyHistoryEntityPatch current p side)"

definition patched_value :: "('a \<times> 'a) option \<Rightarrow> side \<Rightarrow> 'a \<Rightarrow> 'a" where
  "patched_value patch side current = (case patch of None \<Rightarrow> current | Some p \<Rightarrow> at_side side p)"

definition applyCanvasHistoryPatch :: "'v history_snapshot \<Rightarrow> 'v history_patch \<Rightarrow> side \<Rightarrow> 'v history_snapshot" where
  "applyCanvasHistoryPatch s patch side =
     \<lparr>hs_nodes = patched_entities (hp_nodes patch) side (hs_nodes s),
      hs_connections = patched_entities (hp_connections patch) side (hs_connections s),
      hs_chatSessions = patched_entities (hp_chatSessions patch) side (hs_chatSessions s),
      hs_activeChatId = patched_value (hp_activeChatId patch) side (hs_activeChatId s),
      hs_background = patched_value (hp_background patch) side (hs_background s),
      hs_showImageInfo = patched_value (hp_showImageInfo patch) side (hs_showImageInfo s)\<rparr>"

subsection \<open>The hook\<close>

record 'v history =
  hy_past :: "'v history_patch list"
  hy_future :: "'v history_patch list"
  hy_last :: "'v history_snapshot option"
  hy_shown :: "'v history_snapshot"
  hy_loaded :: bool
  hy_commitTimer :: bool
  hy_applyTimer :: bool
  hy_applying :: bool
  hy_paused :: bool
  hy_canUndo :: bool
  hy_canRedo :: bool

definition resetHistory :: "'v history_snapshot \<Rightarrow> 'v history \<Rightarrow> 'v history" where
  "resetHistory s h =
     h\<lparr>hy_commitTimer := False, hy_applyTimer := False, hy_past := [], hy_future := [], hy_last := Some s,
       hy_applying := False, hy_paused := False, hy_canUndo := False, hy_canRedo := False\<rparr>"

text \<open>
  The effect of a change of what is shown: the cleanup of its last run stops the commit timer, and a
  change to record starts it again.
\<close>

definition snapshot_effect :: "'v history \<Rightarrow> 'v history" where
  "snapshot_effect h =
     (let h' = h\<lparr>hy_commitTimer := False\<rparr>
      in if \<not> hy_loaded h' \<or> hy_applying h' \<or> hy_paused h' \<or> hy_last h' = None \<or> hy_last h' = Some (hy_shown h')
         then h' else h'\<lparr>hy_commitTimer := True\<rparr>)"

definition show_snapshot :: "'v history_snapshot \<Rightarrow> 'v history \<Rightarrow> 'v history" where
  "show_snapshot s h = snapshot_effect (h\<lparr>hy_shown := s\<rparr>)"

definition applyHistorySnapshot :: "'v history_snapshot \<Rightarrow> 'v history \<Rightarrow> 'v history" where
  "applyHistorySnapshot s h =
     show_snapshot s (h\<lparr>hy_commitTimer := False, hy_applying := True, hy_last := Some s, hy_applyTimer := True\<rparr>)"

definition undoCanvas :: "'v history \<Rightarrow> 'v history" where
  "undoCanvas h =
     (if hy_past h = [] then h
      else
        let patch = last (hy_past h); h' = h\<lparr>hy_past := butlast (hy_past h)\<rparr>
        in case hy_last h of
             None \<Rightarrow> h'
           | Some current \<Rightarrow>
               applyHistorySnapshot (applyCanvasHistoryPatch current patch BeforeSide)
                 (h'\<lparr>hy_future := hy_future h' @ [patch]\<rparr>))"

definition redoCanvas :: "'v history \<Rightarrow> 'v history" where
  "redoCanvas h =
     (if hy_future h = [] then h
      else
        let patch = last (hy_future h); h' = h\<lparr>hy_future := butlast (hy_future h)\<rparr>
        in case hy_last h of
             None \<Rightarrow> h'
           | Some current \<Rightarrow>
               applyHistorySnapshot (applyCanvasHistoryPatch current patch AfterSide)
                 (h'\<lparr>hy_past := hy_past h' @ [patch]\<rparr>))"

definition commit_timer :: "'v history \<Rightarrow> 'v history" where
  "commit_timer h =
     (case hy_last h of
        None \<Rightarrow> h\<lparr>hy_commitTimer := False\<rparr>
      | Some before \<Rightarrow>
          let current = hy_shown h; h' = h\<lparr>hy_commitTimer := False, hy_last := Some current\<rparr>
          in case createCanvasHistoryPatch before current of
               None \<Rightarrow> h'
             | Some patch \<Rightarrow>
                 h'\<lparr>hy_past := last_n 49 (hy_past h') @ [patch], hy_future := [], hy_canUndo := True, hy_canRedo := False\<rparr>)"

definition apply_timer :: "'v history \<Rightarrow> 'v history" where
  "apply_timer h =
     h\<lparr>hy_applying := False, hy_applyTimer := False, hy_canUndo := (hy_past h \<noteq> []), hy_canRedo := (hy_future h \<noteq> [])\<rparr>"

datatype 'v history_event =
  HistoryReset "'v history_snapshot"
| CanvasChanged "'v history_snapshot"
| CommitTimerFired
| ApplyTimerFired
| Undo
| Redo
| SetPaused bool
| SetLoaded bool

definition history_step :: "'v history \<Rightarrow> 'v history_event \<Rightarrow> 'v history" where
  "history_step h e =
     (case e of
        HistoryReset s \<Rightarrow> resetHistory s h
      | CanvasChanged s \<Rightarrow> show_snapshot s h
      | CommitTimerFired \<Rightarrow> if hy_commitTimer h then commit_timer h else h
      | ApplyTimerFired \<Rightarrow> if hy_applyTimer h then apply_timer h else h
      | Undo \<Rightarrow> undoCanvas h
      | Redo \<Rightarrow> redoCanvas h
      | SetPaused b \<Rightarrow> h\<lparr>hy_paused := b\<rparr>
      | SetLoaded b \<Rightarrow> snapshot_effect (h\<lparr>hy_loaded := b\<rparr>))"

definition new_history :: "'v history_snapshot \<Rightarrow> 'v history" where
  "new_history s =
     \<lparr>hy_past = [], hy_future = [], hy_last = None, hy_shown = s, hy_loaded = False, hy_commitTimer = False,
      hy_applyTimer = False, hy_applying = False, hy_paused = False, hy_canUndo = False, hy_canRedo = False\<rparr>"

section \<open>Patches undo and redo exactly\<close>

lemma apply_changes_lookup:
  assumes "\<And>c. c \<in> set cs \<Longrightarrow> change_value side c = V (ch_id c)"
  shows "js_get (foldl (apply_change side) m cs) k = (if k \<in> ch_id ` set cs then V k else js_get m k)"
  using assms
proof (induction cs arbitrary: m)
  case (Cons c cs)
  have "js_get (apply_change side m c) k = (if k = ch_id c then V k else js_get m k)"
    using Cons.prems [of c] by (auto simp: apply_change_def js_simps split: option.split)
  then show ?case using Cons by auto
qed simp

lemma by_id_keys: "ids_distinct es \<Longrightarrow> js_keys (by_id es) = map en_id es"
  by (simp add: by_id_distinct comp_def)

lemma collect_entities:
  assumes "ids_distinct es" "\<And>k. f k = entity_at es k"
  shows "List.map_filter f (map en_id es) = es"
proof -
  have "f (en_id e) = Some e" if "e \<in> set es" for e using assms entity_atI [OF assms(1) that] by simp
  then have "List.map_filter f (map en_id xs) = xs" if "set xs \<subseteq> set es" for xs
    using that by (induction xs) (auto simp: map_filter_simps)
  then show ?thesis by simp
qed

lemma order_differs: "(length xs \<noteq> length ys \<or> list_ex (\<lambda>(i, j). i \<noteq> j) (zip xs ys)) \<longleftrightarrow> xs \<noteq> ys"
proof -
  have "length xs = length ys \<Longrightarrow> (\<not> list_ex (\<lambda>(i, j). i \<noteq> j) (zip xs ys)) \<longleftrightarrow> xs = ys"
    by (induction xs ys rule: list_induct2) auto
  then show ?thesis by auto
qed

definition entity_changes :: "'v entity list \<Rightarrow> 'v entity list \<Rightarrow> 'v entity_change list" where
  "entity_changes before after =
     filter (\<lambda>c. ch_before c \<noteq> ch_after c)
       (map (\<lambda>i. \<lparr>ch_id = i, ch_before = entity_at before i, ch_after = entity_at after i\<rparr>)
          (js_set_of (js_keys (by_id before) @ js_keys (by_id after))))"

lemma createEntityPatch_alt:
  "createEntityPatch before after =
     (let changes = entity_changes before after; moved = (map en_id before \<noteq> map en_id after)
      in if changes = [] \<and> \<not> moved then None
         else Some \<lparr>ec_changes = changes, ec_beforeOrder = (if moved then Some (map en_id before) else None),
                ec_afterOrder = (if moved then Some (map en_id after) else None)\<rparr>)"
  unfolding createEntityPatch_def Let_def order_differs entity_changes_def entity_at_def by simp

fun version :: "side \<Rightarrow> 'a \<Rightarrow> 'a \<Rightarrow> 'a" where
  "version BeforeSide before after = before"
| "version AfterSide before after = after"

lemma entity_changes_value:
  "c \<in> set (entity_changes before after) \<Longrightarrow> change_value side c = entity_at (version side before after) (ch_id c)"
  by (cases side) (auto simp: entity_changes_def)

lemma entity_changes_ids:
  assumes "ids_distinct before" "ids_distinct after"
  shows "k \<in> ch_id ` set (entity_changes before after) \<longleftrightarrow> entity_at before k \<noteq> entity_at after k"
proof -
  have "entity_at before k = None" "entity_at after k = None"
    if "k \<notin> en_id ` set before \<union> en_id ` set after"
    using that assms by (auto simp: entity_at_None)
  then show ?thesis using assms by (force simp: entity_changes_def by_id_keys image_iff)
qed

lemma changes_applied:
  assumes "ids_distinct before" "ids_distinct after" "current = version other before after"
  shows "js_get (foldl (apply_change side) (by_id current) (entity_changes before after)) k =
    entity_at (version side before after) k"
proof -
  have "js_get (foldl (apply_change side) (by_id current) (entity_changes before after)) k =
      (if k \<in> ch_id ` set (entity_changes before after) then entity_at (version side before after) k
       else js_get (by_id current) k)"
    by (rule apply_changes_lookup) (rule entity_changes_value)
  then show ?thesis
    using assms by (cases side; cases other) (auto simp: entity_changes_ids entity_at_def [symmetric])
qed

lemma entity_patch_exact:
  assumes "ids_distinct before" "ids_distinct after"
  shows "patched_entities (createEntityPatch before after) side (version other before after) = version side before after"
proof -
  let ?f = "js_get (foldl (apply_change side) (by_id (version other before after)) (entity_changes before after))"
  have ok: "ids_distinct (version side before after)" using assms by (cases side) simp_all
  have collect: "List.map_filter ?f (map en_id (version side before after)) = version side before after"
    using collect_entities [OF ok] changes_applied [OF assms refl] by blast
  show ?thesis
  proof (cases "map en_id before = map en_id after")
    case same: True
    then have ids: "map en_id (version other before after) = map en_id (version side before after)"
      by (cases side; cases other) simp_all
    show ?thesis
    proof (cases "entity_changes before after = []")
      case True
      then have "entity_at before k = entity_at after k" for k using entity_changes_ids [OF assms, of k] by simp
      then have "List.map_filter (entity_at after) (map en_id before) = before"
        using collect_entities [OF assms(1), of "entity_at after"] by metis
      then have "before = after" unfolding same using collect_entities [OF assms(2) refl] by metis
      then show ?thesis
        using True same by (cases side; cases other) (simp_all add: patched_entities_def createEntityPatch_alt)
    next
      case False
      then show ?thesis
        using collect same ids
        by (cases side) (simp_all add: patched_entities_def createEntityPatch_alt applyHistoryEntityPatch_def Let_def)
    qed
  next
    case False
    then show ?thesis
      using collect
      by (cases side) (simp_all add: patched_entities_def createEntityPatch_alt applyHistoryEntityPatch_def Let_def)
  qed
qed

lemma value_patch_exact: "patched_value (value_patch before after) side (version other before after) = version side before after"
  by (cases side; cases other) (auto simp: patched_value_def value_patch_def)

definition snapshot_ok :: "'v history_snapshot \<Rightarrow> bool" where
  "snapshot_ok s \<longleftrightarrow> ids_distinct (hs_nodes s) \<and> ids_distinct (hs_connections s) \<and> ids_distinct (hs_chatSessions s)"

lemma createEntityPatch_None:
  assumes "ids_distinct before" "ids_distinct after" "createEntityPatch before after = None"
  shows "before = after"
  using entity_patch_exact [OF assms(1,2), of BeforeSide AfterSide] assms(3) by (simp add: patched_entities_def)

lemma history_patch_None:
  assumes "snapshot_ok before" "snapshot_ok after" "createCanvasHistoryPatch before after = None"
  shows "before = after"
proof -
  have "createEntityPatch (hs_nodes before) (hs_nodes after) = None"
    "createEntityPatch (hs_connections before) (hs_connections after) = None"
    "createEntityPatch (hs_chatSessions before) (hs_chatSessions after) = None"
    "value_patch (hs_activeChatId before) (hs_activeChatId after) = None"
    "value_patch (hs_background before) (hs_background after) = None"
    "value_patch (hs_showImageInfo before) (hs_showImageInfo after) = None"
    using assms(3) by (simp_all add: createCanvasHistoryPatch_def split: if_splits)
  moreover have "hs_nodes before = hs_nodes after" "hs_connections before = hs_connections after"
    "hs_chatSessions before = hs_chatSessions after"
    using calculation assms(1,2) by (auto simp: snapshot_ok_def intro: createEntityPatch_None)
  ultimately show ?thesis by (intro history_snapshot.equality) (simp_all add: value_patch_def split: if_splits)
qed

lemma history_patch_exact:
  assumes "snapshot_ok before" "snapshot_ok after" "createCanvasHistoryPatch before after = Some p"
  shows "applyCanvasHistoryPatch (version other before after) p side = version side before after"
proof -
  have p: "p = \<lparr>hp_nodes = createEntityPatch (hs_nodes before) (hs_nodes after),
      hp_connections = createEntityPatch (hs_connections before) (hs_connections after),
      hp_chatSessions = createEntityPatch (hs_chatSessions before) (hs_chatSessions after),
      hp_activeChatId = value_patch (hs_activeChatId before) (hs_activeChatId after),
      hp_background = value_patch (hs_background before) (hs_background after),
      hp_showImageInfo = value_patch (hs_showImageInfo before) (hs_showImageInfo after)\<rparr>"
    using assms(3) by (auto simp: createCanvasHistoryPatch_def Let_def split: if_splits)
  have sel: "hs_nodes (version o' before after) = version o' (hs_nodes before) (hs_nodes after)"
    "hs_connections (version o' before after) = version o' (hs_connections before) (hs_connections after)"
    "hs_chatSessions (version o' before after) = version o' (hs_chatSessions before) (hs_chatSessions after)"
    "hs_activeChatId (version o' before after) = version o' (hs_activeChatId before) (hs_activeChatId after)"
    "hs_background (version o' before after) = version o' (hs_background before) (hs_background after)"
    "hs_showImageInfo (version o' before after) = version o' (hs_showImageInfo before) (hs_showImageInfo after)" for o'
    by (cases o'; simp)+
  show ?thesis
    using assms(1,2) unfolding p applyCanvasHistoryPatch_def history_patch.select_convs sel snapshot_ok_def
    by (cases side) (simp_all add: entity_patch_exact value_patch_exact)
qed

section \<open>The stacks replay the history\<close>

text \<open>The patches of a stack, top first, lead from the present snapshot to earlier ones, and to later ones.\<close>

fun undo_chain :: "'v history_patch list \<Rightarrow> 'v history_snapshot \<Rightarrow> bool" where
  "undo_chain [] s = True"
| "undo_chain (p # ps) s =
     (let r = applyCanvasHistoryPatch s p BeforeSide
      in snapshot_ok r \<and> createCanvasHistoryPatch r s = Some p \<and> undo_chain ps r)"

fun redo_chain :: "'v history_patch list \<Rightarrow> 'v history_snapshot \<Rightarrow> bool" where
  "redo_chain [] s = True"
| "redo_chain (p # ps) s =
     (let r = applyCanvasHistoryPatch s p AfterSide
      in snapshot_ok r \<and> createCanvasHistoryPatch s r = Some p \<and> redo_chain ps r)"

fun stacks_ok :: "'v history_patch list \<Rightarrow> 'v history_patch list \<Rightarrow> 'v history_snapshot option \<Rightarrow> bool" where
  "stacks_ok past future None = (past = [] \<and> future = [])"
| "stacks_ok past future (Some s) = (snapshot_ok s \<and> undo_chain (rev past) s \<and> redo_chain (rev future) s)"

definition history_inv :: "'v history \<Rightarrow> bool" where
  "history_inv h \<longleftrightarrow>
     snapshot_ok (hy_shown h) \<and> length (hy_past h) + length (hy_future h) \<le> 50 \<and>
     stacks_ok (hy_past h) (hy_future h) (hy_last h)"

fun history_event_ok :: "'v history_event \<Rightarrow> bool" where
  "history_event_ok (HistoryReset s) = snapshot_ok s"
| "history_event_ok (CanvasChanged s) = snapshot_ok s"
| "history_event_ok _ = True"

lemma undo_chain_take: "undo_chain ps s \<Longrightarrow> undo_chain (take n ps) s"
  by (induction ps s arbitrary: n rule: undo_chain.induct) (auto simp: take_Cons' Let_def)

lemma rev_last_n: "rev (last_n n xs) = take n (rev xs)"
  by (cases "length xs \<le> n") (simp_all add: last_n_def rev_drop)

lemma snapshot_effect_fields [simp]:
  "hy_past (snapshot_effect h) = hy_past h" "hy_future (snapshot_effect h) = hy_future h"
  "hy_last (snapshot_effect h) = hy_last h" "hy_shown (snapshot_effect h) = hy_shown h"
  by (simp_all add: snapshot_effect_def Let_def)

lemma applyHistorySnapshot_fields [simp]:
  "hy_past (applyHistorySnapshot s h) = hy_past h" "hy_future (applyHistorySnapshot s h) = hy_future h"
  "hy_last (applyHistorySnapshot s h) = Some s" "hy_shown (applyHistorySnapshot s h) = s"
  by (simp_all add: applyHistorySnapshot_def show_snapshot_def)

lemma stack_top: "xs \<noteq> [] \<Longrightarrow> rev xs = last xs # rev (butlast xs)"
  by (cases xs rule: rev_cases) simp_all

lemma undo_fields:
  assumes "hy_past h \<noteq> []" "hy_last h = Some s" "r = applyCanvasHistoryPatch s (last (hy_past h)) BeforeSide"
  shows "hy_past (undoCanvas h) = butlast (hy_past h)" "hy_future (undoCanvas h) = hy_future h @ [last (hy_past h)]"
    "hy_last (undoCanvas h) = Some r" "hy_shown (undoCanvas h) = r"
  using assms by (simp_all add: undoCanvas_def Let_def)

lemma redo_fields:
  assumes "hy_future h \<noteq> []" "hy_last h = Some s" "r = applyCanvasHistoryPatch s (last (hy_future h)) AfterSide"
  shows "hy_past (redoCanvas h) = hy_past h @ [last (hy_future h)]" "hy_future (redoCanvas h) = butlast (hy_future h)"
    "hy_last (redoCanvas h) = Some r" "hy_shown (redoCanvas h) = r"
  using assms by (simp_all add: redoCanvas_def Let_def)

lemma inv_last:
  assumes "history_inv h" "hy_past h \<noteq> [] \<or> hy_future h \<noteq> []"
  obtains s where "hy_last h = Some s" "snapshot_ok s" "undo_chain (rev (hy_past h)) s" "redo_chain (rev (hy_future h)) s"
  using assms by (cases "hy_last h") (auto simp: history_inv_def)

text \<open>One step again or forth along the chains, and the way again.\<close>

lemma undo_step:
  assumes "history_inv h" "hy_past h \<noteq> []"
  obtains s r where "hy_last h = Some s" "r = applyCanvasHistoryPatch s (last (hy_past h)) BeforeSide"
    "snapshot_ok s" "snapshot_ok r" "createCanvasHistoryPatch r s = Some (last (hy_past h))"
    "applyCanvasHistoryPatch r (last (hy_past h)) AfterSide = s"
    "undo_chain (rev (butlast (hy_past h))) r" "redo_chain (rev (hy_future h)) s"
proof -
  obtain s where s: "hy_last h = Some s" "snapshot_ok s" "undo_chain (rev (hy_past h)) s" "redo_chain (rev (hy_future h)) s"
    using assms by (rule inv_last [OF _ disjI1])
  define r where "r = applyCanvasHistoryPatch s (last (hy_past h)) BeforeSide"
  have r: "snapshot_ok r" "createCanvasHistoryPatch r s = Some (last (hy_past h))" "undo_chain (rev (butlast (hy_past h))) r"
    using s(3) unfolding stack_top [OF assms(2)] r_def by (simp_all add: Let_def)
  have "applyCanvasHistoryPatch r (last (hy_past h)) AfterSide = s"
    using history_patch_exact [OF r(1) s(2) r(2), of BeforeSide AfterSide] by simp
  then show ?thesis using that s r r_def by blast
qed

lemma redo_step:
  assumes "history_inv h" "hy_future h \<noteq> []"
  obtains s r where "hy_last h = Some s" "r = applyCanvasHistoryPatch s (last (hy_future h)) AfterSide"
    "snapshot_ok s" "snapshot_ok r" "createCanvasHistoryPatch s r = Some (last (hy_future h))"
    "applyCanvasHistoryPatch r (last (hy_future h)) BeforeSide = s"
    "undo_chain (rev (hy_past h)) s" "redo_chain (rev (butlast (hy_future h))) r"
proof -
  obtain s where s: "hy_last h = Some s" "snapshot_ok s" "undo_chain (rev (hy_past h)) s" "redo_chain (rev (hy_future h)) s"
    using assms by (rule inv_last [OF _ disjI2])
  define r where "r = applyCanvasHistoryPatch s (last (hy_future h)) AfterSide"
  have r: "snapshot_ok r" "createCanvasHistoryPatch s r = Some (last (hy_future h))"
    "redo_chain (rev (butlast (hy_future h))) r"
    using s(4) unfolding stack_top [OF assms(2)] r_def by (simp_all add: Let_def)
  have "applyCanvasHistoryPatch r (last (hy_future h)) BeforeSide = s"
    using history_patch_exact [OF s(2) r(1,2), of AfterSide BeforeSide] by simp
  then show ?thesis using that s r r_def by blast
qed

lemma length_pop: "xs \<noteq> [] \<Longrightarrow> length xs = Suc (length (butlast xs))"
  by (cases xs rule: rev_cases) simp_all

lemma undo_inv:
  assumes "history_inv h"
  shows "history_inv (undoCanvas h)"
proof (cases "hy_past h = []")
  case False
  obtain s r where r: "hy_last h = Some s" "r = applyCanvasHistoryPatch s (last (hy_past h)) BeforeSide"
    "snapshot_ok s" "snapshot_ok r" "createCanvasHistoryPatch r s = Some (last (hy_past h))"
    "applyCanvasHistoryPatch r (last (hy_past h)) AfterSide = s"
    "undo_chain (rev (butlast (hy_past h))) r" "redo_chain (rev (hy_future h)) s"
    using undo_step [OF assms False] .
  have "length (hy_past h) + length (hy_future h) \<le> 50" using assms by (simp add: history_inv_def)
  then show ?thesis
    unfolding history_inv_def undo_fields [OF False r(1,2)]
    using r length_pop [OF False] by (simp add: Let_def del: length_butlast)
qed (use assms in \<open>simp add: undoCanvas_def\<close>)

lemma redo_inv:
  assumes "history_inv h"
  shows "history_inv (redoCanvas h)"
proof (cases "hy_future h = []")
  case False
  obtain s r where r: "hy_last h = Some s" "r = applyCanvasHistoryPatch s (last (hy_future h)) AfterSide"
    "snapshot_ok s" "snapshot_ok r" "createCanvasHistoryPatch s r = Some (last (hy_future h))"
    "applyCanvasHistoryPatch r (last (hy_future h)) BeforeSide = s"
    "undo_chain (rev (hy_past h)) s" "redo_chain (rev (butlast (hy_future h))) r"
    using redo_step [OF assms False] .
  have "length (hy_past h) + length (hy_future h) \<le> 50" using assms by (simp add: history_inv_def)
  then show ?thesis
    unfolding history_inv_def redo_fields [OF False r(1,2)]
    using r length_pop [OF False] by (simp add: Let_def del: length_butlast)
qed (use assms in \<open>simp add: redoCanvas_def\<close>)

lemma commit_inv:
  assumes "history_inv h"
  shows "history_inv (commit_timer h)"
proof (cases "hy_last h")
  case None
  then show ?thesis using assms by (simp add: commit_timer_def history_inv_def)
next
  case (Some s)
  have ok: "snapshot_ok s" "snapshot_ok (hy_shown h)" "undo_chain (rev (hy_past h)) s"
    using assms Some by (simp_all add: history_inv_def)
  show ?thesis
  proof (cases "createCanvasHistoryPatch s (hy_shown h)")
    case None
    then show ?thesis
      using history_patch_None [OF ok(1,2) None] assms Some by (simp add: commit_timer_def history_inv_def Let_def)
  next
    case (Some p)
    have "applyCanvasHistoryPatch (hy_shown h) p BeforeSide = s"
      using history_patch_exact [OF ok(1,2) Some, of AfterSide BeforeSide] by simp
    then show ?thesis
      using ok Some \<open>hy_last h = Some s\<close>
      by (simp add: commit_timer_def history_inv_def Let_def rev_last_n undo_chain_take length_last_n)
  qed
qed

lemma history_step_inv: "history_inv h \<Longrightarrow> history_event_ok e \<Longrightarrow> history_inv (history_step h e)"
proof (cases e)
  case Undo
  then show "history_inv h \<Longrightarrow> history_inv (history_step h e)" by (simp add: history_step_def undo_inv)
next
  case Redo
  then show "history_inv h \<Longrightarrow> history_inv (history_step h e)" by (simp add: history_step_def redo_inv)
next
  case CommitTimerFired
  then show "history_inv h \<Longrightarrow> history_inv (history_step h e)" by (simp add: history_step_def commit_inv)
qed (simp_all add: history_step_def history_inv_def resetHistory_def show_snapshot_def apply_timer_def)

interpretation canvas_history: guarded_machine history_step history_inv history_event_ok
  by unfold_locales (rule history_step_inv)

definition canvas_run :: "'v history_snapshot \<Rightarrow> 'v history_event list \<Rightarrow> 'v history" where
  "canvas_run s es = foldl history_step (new_history s) es"

lemma canvas_run_inv: "snapshot_ok s \<Longrightarrow> list_all history_event_ok es \<Longrightarrow> history_inv (canvas_run s es)"
  unfolding canvas_run_def by (rule canvas_history.guarded_run) (simp_all add: history_inv_def new_history_def)

text \<open>
  C20. Whatever has happened on a canvas, undo and redo are inverse: undo followed by redo brings again
  exactly the recorded snapshot, entities, order and settings included, with both stacks as they were,
  and so does redo followed by undo. The two stacks together never hold more than fifty steps.
\<close>

theorem undo_and_redo_are_inverse:
  assumes "snapshot_ok s" and "list_all history_event_ok es" and "h = canvas_run s es"
  shows "length (hy_past h) + length (hy_future h) \<le> 50 \<and>
    (hy_past h = [] \<or>
       hy_last (redoCanvas (undoCanvas h)) = hy_last h \<and> Some (hy_shown (redoCanvas (undoCanvas h))) = hy_last h \<and>
       hy_past (redoCanvas (undoCanvas h)) = hy_past h \<and> hy_future (redoCanvas (undoCanvas h)) = hy_future h) \<and>
    (hy_future h = [] \<or>
       hy_last (undoCanvas (redoCanvas h)) = hy_last h \<and> Some (hy_shown (undoCanvas (redoCanvas h))) = hy_last h \<and>
       hy_past (undoCanvas (redoCanvas h)) = hy_past h \<and> hy_future (undoCanvas (redoCanvas h)) = hy_future h)"
proof -
  have inv: "history_inv h" using assms by (simp add: canvas_run_inv)
  have undo: "hy_last (redoCanvas (undoCanvas h)) = hy_last h \<and> Some (hy_shown (redoCanvas (undoCanvas h))) = hy_last h \<and>
      hy_past (redoCanvas (undoCanvas h)) = hy_past h \<and> hy_future (redoCanvas (undoCanvas h)) = hy_future h"
    if "hy_past h \<noteq> []"
    by (rule undo_step [OF inv that])
      (use that in \<open>simp add: undo_fields redo_fields [where h = "undoCanvas h"]\<close>)
  have redo: "hy_last (undoCanvas (redoCanvas h)) = hy_last h \<and> Some (hy_shown (undoCanvas (redoCanvas h))) = hy_last h \<and>
      hy_past (undoCanvas (redoCanvas h)) = hy_past h \<and> hy_future (undoCanvas (redoCanvas h)) = hy_future h"
    if "hy_future h \<noteq> []"
    by (rule redo_step [OF inv that])
      (use that in \<open>simp add: redo_fields undo_fields [where h = "redoCanvas h"]\<close>)
  show ?thesis using inv undo redo by (auto simp: history_inv_def)
qed

text \<open>
  A recorded change is undone exactly: when the commit timer fires after the canvas changed from its
  last snapshot, undo shows that snapshot again and redo the changed one.
\<close>

lemma undo_reverts_the_last_change:
  assumes "snapshot_ok s" and "list_all history_event_ok es" and "h = canvas_run s es"
    and "hy_last h = Some earlier" and "hy_commitTimer h" and "hy_shown h \<noteq> earlier"
    and "undone = history_step (history_step h CommitTimerFired) Undo"
  shows "hy_shown undone = earlier \<and> hy_last undone = Some earlier \<and>
    hy_shown (history_step undone Redo) = hy_shown h"
proof -
  have inv: "history_inv h" using assms by (simp add: canvas_run_inv)
  then have ok: "snapshot_ok earlier" "snapshot_ok (hy_shown h)" using assms(4) by (simp_all add: history_inv_def)
  obtain p where p: "createCanvasHistoryPatch earlier (hy_shown h) = Some p"
    using history_patch_None [OF ok] assms(6) by (cases "createCanvasHistoryPatch earlier (hy_shown h)") auto
  have again: "applyCanvasHistoryPatch (hy_shown h) p BeforeSide = earlier"
    "applyCanvasHistoryPatch earlier p AfterSide = hy_shown h"
    using history_patch_exact [OF ok p, of AfterSide BeforeSide] history_patch_exact [OF ok p, of BeforeSide AfterSide]
    by simp_all
  let ?c = "history_step h CommitTimerFired"
  have c: "hy_past ?c = last_n 49 (hy_past h) @ [p]" "hy_last ?c = Some (hy_shown h)" "hy_future ?c = []"
    using assms(4,5) p by (simp_all add: history_step_def commit_timer_def Let_def)
  have undone: "undone = undoCanvas ?c" using assms(7) by (simp add: history_step_def)
  have u: "hy_last undone = Some earlier" "hy_shown undone = earlier" "hy_future undone = [p]"
    using c again undone by (simp_all add: undo_fields [where h = ?c])
  then show ?thesis using again by (simp add: history_step_def redo_fields [where h = undone])
qed

text \<open>
  C23. An undo shortly after a change, before the commit timer has fired, takes away more than that change:
  the change itself is dropped for good, and the recorded change before it is undone; redo then brings
  again only the latter.
\<close>

theorem early_undo_drops_a_change:
  assumes "snapshot_ok s" and "list_all history_event_ok es" and "h = canvas_run s es"
    and "hy_last h = Some earlier" and "hy_commitTimer h" and "hy_shown h \<noteq> earlier" and "hy_past h \<noteq> []"
    and "undone = history_step h Undo"
  shows "createCanvasHistoryPatch (hy_shown undone) earlier = Some (last (hy_past h)) \<and>
    hy_shown (history_step undone Redo) = earlier \<and> \<not> hy_commitTimer undone \<and>
    \<not> hy_commitTimer (history_step undone Redo)"
proof -
  have inv: "history_inv h" using assms by (simp add: canvas_run_inv)
  have undone: "undone = undoCanvas h" using assms(8) by (simp add: history_step_def)
  have idle: "\<not> hy_commitTimer (applyHistorySnapshot r g)" for r and g :: "'a history"
    by (simp add: applyHistorySnapshot_def show_snapshot_def snapshot_effect_def Let_def)
  show ?thesis
  proof (rule undo_step [OF inv assms(7)])
    fix a r
    assume a: "hy_last h = Some a" and r: "r = applyCanvasHistoryPatch a (last (hy_past h)) BeforeSide"
      and ok: "snapshot_ok a" "snapshot_ok r"
      and p: "createCanvasHistoryPatch r a = Some (last (hy_past h))"
      and again: "applyCanvasHistoryPatch r (last (hy_past h)) AfterSide = a"
    have "a = earlier" using a assms(4) by simp
    have u: "hy_shown undone = r" "hy_last undone = Some r" "hy_future undone \<noteq> []"
      "last (hy_future undone) = last (hy_past h)"
      using undone undo_fields [OF assms(7) a r] by simp_all
    then have "hy_shown (redoCanvas undone) = a" using redo_fields(4) [OF u(3,2) refl] again by simp
    moreover have "\<not> hy_commitTimer undone" using undone assms(7) a idle by (simp add: undoCanvas_def Let_def)
    moreover have "\<not> hy_commitTimer (redoCanvas undone)" using u idle by (simp add: redoCanvas_def Let_def)
    ultimately show ?thesis using u(1) p \<open>a = earlier\<close> by (simp add: history_step_def)
  qed
qed

subsection \<open>A concrete canvas\<close>

definition sample_snapshot :: "nat list \<Rightarrow> string \<Rightarrow> nat history_snapshot" where
  "sample_snapshot vs background =
     \<lparr>hs_nodes = map (\<lambda>v. \<lparr>en_id = ''n'' @ replicate v (CHR ''x''), en_value = v\<rparr>) vs, hs_connections = [],
      hs_chatSessions = [], hs_activeChatId = None, hs_background = background, hs_showImageInfo = False\<rparr>"

definition sample_edits :: "nat history_event list" where
  "sample_edits =
     [SetLoaded True, HistoryReset (sample_snapshot [1] ''dots''), CanvasChanged (sample_snapshot [1, 2] ''dots''),
      CommitTimerFired, CanvasChanged (sample_snapshot [2] ''lines'')]"

lemma sample_edits_ok: "snapshot_ok (sample_snapshot [1] ''dots'')" "list_all history_event_ok sample_edits"
  by (simp_all add: sample_edits_def sample_snapshot_def snapshot_ok_def ids_distinct_def numeral_eq_Suc)

lemma sample_history:
  "hy_last (canvas_run (sample_snapshot [1] ''dots'') sample_edits) = Some (sample_snapshot [1, 2] ''dots'') \<and>
   hy_shown (canvas_run (sample_snapshot [1] ''dots'') sample_edits) = sample_snapshot [2] ''lines'' \<and>
   hy_commitTimer (canvas_run (sample_snapshot [1] ''dots'') sample_edits) \<and>
   hy_past (canvas_run (sample_snapshot [1] ''dots'') sample_edits) \<noteq> [] \<and>
   sample_snapshot [2] ''lines'' \<noteq> sample_snapshot [1, 2] ''dots''"
  by code_simp

lemma undo_and_redo_are_inverse_witness:
  "hy_past (redoCanvas (undoCanvas (canvas_run (sample_snapshot [1] ''dots'') sample_edits))) =
   hy_past (canvas_run (sample_snapshot [1] ''dots'') sample_edits)"
  using undo_and_redo_are_inverse [OF sample_edits_ok refl] sample_history by blast

lemma undo_reverts_the_last_change_witness:
  "hy_shown (history_step (history_step (canvas_run (sample_snapshot [1] ''dots'') sample_edits) CommitTimerFired) Undo)
   = sample_snapshot [1, 2] ''dots''"
  using undo_reverts_the_last_change [OF sample_edits_ok refl _ _ _ refl] sample_history by auto

lemma early_undo_drops_a_change_witness:
  "hy_shown (history_step (history_step (canvas_run (sample_snapshot [1] ''dots'') sample_edits) Undo) Redo)
   = sample_snapshot [1, 2] ''dots''"
  using early_undo_drops_a_change [OF sample_edits_ok refl _ _ _ _ refl] sample_history by auto

end
