(* ===== verification/MembershipOrder.thy ===== *)
theory MembershipOrder
  imports Capabilities
begin

text \<open>
  What a membership order costs: \<^verbatim>\<open>web/src/pages/payment/membership-order-validation.ts\<close>, the plans
  and orders of \<^verbatim>\<open>membership-order-facts-domain.ts\<close>, and the seats of
  \<^verbatim>\<open>pages/membership/membership-formatters.ts\<close>. Amounts are numbers of an answer of the backend, so
  rationals; the product of two integers is the double nearest to it, and the code refuses it when it
  is not a safe integer. \<^verbatim>\<open>JSON.parse\<close> is a parameter.
\<close>

subsection \<open>Products of doubles\<close>

text \<open>
  The double nearest to a natural number, ties to the even one: 53 binary digits are kept. A number
  of this size never overflows to infinity here, since both factors are safe.
\<close>

fun surplus_bits :: "nat \<Rightarrow> nat" where
  "surplus_bits n = (if n < 2 ^ 53 then 0 else Suc (surplus_bits (n div 2)))"

declare surplus_bits.simps [simp del]

definition double_of_nat :: "nat \<Rightarrow> nat" where
  "double_of_nat n =
     (let k = surplus_bits n; q = n div 2 ^ k; r = 2 * (n mod 2 ^ k)
      in (if r > 2 ^ k \<or> (r = 2 ^ k \<and> odd q \<and> 0 < k) then Suc q else q) * 2 ^ k)"

definition js_product :: "int \<Rightarrow> int \<Rightarrow> int" where
  "js_product a b = sgn (a * b) * int (double_of_nat (nat \<bar>a * b\<bar>))"

definition isSafeInteger :: "rat \<Rightarrow> bool" where
  "isSafeInteger q \<longleftrightarrow> whole q \<and> safe_integer \<lfloor>q\<rfloor>"

text \<open>\<open>surplus_bits\<close> is the number of digits beyond 53.\<close>

lemma surplus_bits_small: "n < 2 ^ 53 \<Longrightarrow> surplus_bits n = 0"
  by (simp add: surplus_bits.simps)

lemma surplus_bits_large: "2 ^ 53 \<le> n \<Longrightarrow> 0 < surplus_bits n \<and> 2 ^ 52 \<le> n div 2 ^ surplus_bits n"
proof (induction n rule: surplus_bits.induct)
  case (1 n)
  have s: "surplus_bits n = Suc (surplus_bits (n div 2))"
    using 1(2) by (subst surplus_bits.simps) simp
  show ?case
  proof (cases "n div 2 < 2 ^ 53")
    case True
    have "(2 :: nat) ^ 52 \<le> n div 2" using div_le_mono [OF 1(2), of 2] by simp
    then show ?thesis using True by (simp add: s surplus_bits_small)
  next
    case False
    then show ?thesis using 1 by (simp add: s div_mult2_eq)
  qed
qed

lemma double_of_nat_small: "n < 2 ^ 53 \<Longrightarrow> double_of_nat n = n"
  by (simp add: double_of_nat_def surplus_bits_small)

lemma double_of_nat_large:
  assumes "2 ^ 53 \<le> n"
  shows "2 ^ 53 \<le> double_of_nat n"
proof -
  let ?k = "surplus_bits n"
  have k: "0 < ?k" and q: "2 ^ 52 \<le> n div 2 ^ ?k" using surplus_bits_large [OF assms] by auto
  have "(2 :: nat) ^ 53 = 2 ^ 52 * 2 ^ 1" by simp
  also have "\<dots> \<le> n div 2 ^ ?k * 2 ^ ?k"
    using k by (intro mult_le_mono q power_increasing) auto
  also have "\<dots> \<le> double_of_nat n" by (simp add: double_of_nat_def Let_def)
  finally show ?thesis .
qed

text \<open>The test after the multiplication sees exactly the products that are exact.\<close>

lemma js_product_exact:
  assumes "safe_integer (a * b)"
  shows "js_product a b = a * b"
proof -
  have "nat \<bar>a * b\<bar> < 2 ^ 53" using assms by (simp add: safe_integer_def)
  then have "js_product a b = sgn (a * b) * \<bar>a * b\<bar>" by (simp only: js_product_def double_of_nat_small int_nat_eq abs_ge_zero if_True)
  then show ?thesis by (simp only: sgn_mult_abs)
qed

lemma js_product_safe_iff: "safe_integer (js_product a b) \<longleftrightarrow> safe_integer (a * b)"
proof (cases "safe_integer (a * b)")
  case False
  then have "2 ^ 53 \<le> nat \<bar>a * b\<bar>" by (simp add: safe_integer_def)
  then have "2 ^ 53 \<le> double_of_nat (nat \<bar>a * b\<bar>)" by (rule double_of_nat_large)
  moreover have "\<bar>js_product a b\<bar> = int (double_of_nat (nat \<bar>a * b\<bar>))"
    using False by (auto simp: js_product_def abs_mult abs_sgn_eq safe_integer_def)
  ultimately show ?thesis using False by (simp add: safe_integer_def)
qed (simp add: js_product_exact)

subsection \<open>The facts of an order\<close>

datatype order_field =
  OrderNumberField | CodeField | NameField | TierField | CurrencyField | SeatsField | PaidTotalField
| PaidUnitField | OriginalTotalField | OriginalUnitField | UnitCreditsField | TotalCreditsField

datatype order_error =
  OrderIdEmpty | FieldBlank order_field | CycleInvalid | AudienceInvalid | PersonalSeats | TeamSeats
| FrozenSeatBounds | SeatsOutsideBounds | NotSafePositive order_field | NotSafeNonNegative order_field
| UnsafeOperand order_field | BeyondSafeRange order_field | NotPerSeat order_field
| PaidTotalMismatch | OriginalTotalMismatch | TotalCreditsMismatch
| PlanTotalMismatch | SnapshotMissing | SnapshotNotJson | SnapshotNotRecord | SnapshotText string
| SnapshotNumber string | SnapshotKind | SnapshotOtherPlan | SnapshotOtherCurrency | PersonalWithTeam
| TeamWithoutTeam | FrozenPriceMismatch | TopupIsNoMembership

text \<open>Where the facts are from: a frozen order has its identifier and the least and most seats.\<close>

datatype order_source = CheckoutSource | FrozenOrder string rat rat

record order_facts =
  of_audience :: string
  of_billingCycle :: string
  of_code :: string
  of_creditsPerPeriod :: rat
  of_currency :: string
  of_name :: string
  of_orderNumber :: string
  of_originalPriceCents :: rat
  of_originalUnitPriceCents :: "rat option"
  of_seats :: rat
  of_tier :: string
  of_totalCredits :: rat
  of_totalPriceCents :: rat
  of_unitPriceCents :: "rat option"
  of_source :: order_source

record validated_order =
  vo_input :: order_facts
  vo_originalUnitPriceCents :: rat
  vo_unitPriceCents :: rat

type_synonym 'a order_result = "(order_error, 'a) result"

definition requireNonBlank :: "order_field \<Rightarrow> string \<Rightarrow> unit order_result" where
  "requireNonBlank field s = ensure (js_trim s \<noteq> []) (FieldBlank field)"

definition requireSafeNonNegativeInteger :: "order_field \<Rightarrow> rat \<Rightarrow> unit order_result" where
  "requireSafeNonNegativeInteger field q = ensure (isSafeInteger q \<and> 0 \<le> q) (NotSafeNonNegative field)"

definition requireSafePositiveInteger :: "order_field \<Rightarrow> rat \<Rightarrow> unit order_result" where
  "requireSafePositiveInteger field q = ensure (isSafeInteger q \<and> 1 \<le> q) (NotSafePositive field)"

text \<open>Every caller has checked both factors to be safe integers.\<close>

definition js_times :: "rat \<Rightarrow> rat \<Rightarrow> rat" where
  "js_times left right = of_int (js_product \<lfloor>left\<rfloor> \<lfloor>right\<rfloor>)"

definition checkedProduct :: "order_field \<Rightarrow> rat \<Rightarrow> rat \<Rightarrow> rat order_result" where
  "checkedProduct field left right =
     (let product = js_times left right
      in if \<not> isSafeInteger product then throws (BeyondSafeRange field) else returns product)"

text \<open>
  For safe integers \<^verbatim>\<open>total % seats !== 0\<close> says that the exact quotient is no integer; if it is one, the
  division is exact.
\<close>

definition exactUnitValue :: "order_field \<Rightarrow> rat \<Rightarrow> rat \<Rightarrow> rat order_result" where
  "exactUnitValue field amount seats =
     (if \<not> whole (amount / seats) then throws (NotPerSeat field) else returns (amount / seats))"

definition validateFrozenSeats :: "order_source \<Rightarrow> rat \<Rightarrow> unit order_result" where
  "validateFrozenSeats source seats =
     (case source of
        CheckoutSource \<Rightarrow> returns ()
      | FrozenOrder _ minSeats maxSeats \<Rightarrow>
          if \<not> isSafeInteger minSeats \<or> \<not> isSafeInteger maxSeats \<or> minSeats < 2 \<or> maxSeats < minSeats
          then throws FrozenSeatBounds
          else ensure (minSeats \<le> seats \<and> seats \<le> maxSeats) SeatsOutsideBounds)"

definition validateAudienceAndSeats :: "order_facts \<Rightarrow> unit order_result" where
  "validateAudienceAndSeats input =
     and_then (requireSafePositiveInteger SeatsField (of_seats input)) (\<lambda>_.
     if of_audience input = ''personal'' then ensure (of_seats input = 1) PersonalSeats
     else if of_audience input \<noteq> ''team'' then throws AudienceInvalid
     else if of_seats input < 2 then throws TeamSeats
     else validateFrozenSeats (of_source input) (of_seats input))"

definition validateTexts :: "order_facts \<Rightarrow> unit order_result" where
  "validateTexts input =
     and_then (case of_source input of
                 FrozenOrder orderId _ _ \<Rightarrow> ensure (js_trim orderId \<noteq> []) OrderIdEmpty
               | CheckoutSource \<Rightarrow> returns ()) (\<lambda>_.
     and_then (requireNonBlank OrderNumberField (of_orderNumber input)) (\<lambda>_.
     and_then (requireNonBlank CodeField (of_code input)) (\<lambda>_.
     and_then (requireNonBlank NameField (of_name input)) (\<lambda>_.
     and_then (requireNonBlank TierField (of_tier input)) (\<lambda>_.
     and_then (requireNonBlank CurrencyField (of_currency input)) (\<lambda>_.
       ensure (of_billingCycle input = ''month'' \<or> of_billingCycle input = ''year'') CycleInvalid))))))"

text \<open>\<^verbatim>\<open>unit ?? exactUnitValue(...)\<close>\<close>

definition unit_value :: "order_field \<Rightarrow> rat option \<Rightarrow> rat \<Rightarrow> rat \<Rightarrow> rat order_result" where
  "unit_value field given amount seats =
     (case given of Some u \<Rightarrow> returns u | None \<Rightarrow> exactUnitValue field amount seats)"

definition validatePaid :: "order_facts \<Rightarrow> rat order_result" where
  "validatePaid input =
     and_then (requireSafePositiveInteger PaidTotalField (of_totalPriceCents input)) (\<lambda>_.
     and_then (unit_value PaidTotalField (of_unitPriceCents input) (of_totalPriceCents input) (of_seats input)) (\<lambda>u.
     and_then (requireSafePositiveInteger PaidUnitField u) (\<lambda>_.
     and_then (checkedProduct PaidTotalField u (of_seats input)) (\<lambda>total.
     if total \<noteq> of_totalPriceCents input then throws PaidTotalMismatch else returns u))))"

definition validateOriginal :: "order_facts \<Rightarrow> rat order_result" where
  "validateOriginal input =
     and_then (requireSafeNonNegativeInteger OriginalTotalField (of_originalPriceCents input)) (\<lambda>_.
     and_then (unit_value OriginalTotalField (of_originalUnitPriceCents input) (of_originalPriceCents input)
                 (of_seats input)) (\<lambda>u.
     and_then (requireSafeNonNegativeInteger OriginalUnitField u) (\<lambda>_.
     and_then (checkedProduct OriginalTotalField u (of_seats input)) (\<lambda>total.
     if total \<noteq> of_originalPriceCents input then throws OriginalTotalMismatch else returns u))))"

definition validateCredits :: "order_facts \<Rightarrow> unit order_result" where
  "validateCredits input =
     and_then (requireSafeNonNegativeInteger UnitCreditsField (of_creditsPerPeriod input)) (\<lambda>_.
     and_then (requireSafeNonNegativeInteger TotalCreditsField (of_totalCredits input)) (\<lambda>_.
     and_then (checkedProduct TotalCreditsField (of_creditsPerPeriod input) (of_seats input)) (\<lambda>total.
     ensure (total = of_totalCredits input) TotalCreditsMismatch)))"

definition validateMembershipOrderFacts :: "order_facts \<Rightarrow> validated_order order_result" where
  "validateMembershipOrderFacts input =
     and_then (validateTexts input) (\<lambda>_.
     and_then (validateAudienceAndSeats input) (\<lambda>_.
     and_then (validatePaid input) (\<lambda>paid.
     and_then (validateOriginal input) (\<lambda>original.
     and_then (validateCredits input) (\<lambda>_.
       returns \<lparr>vo_input = input, vo_originalUnitPriceCents = original, vo_unitPriceCents = paid\<rparr>)))))"

text \<open>
  What an order is held to, in exact arithmetic.
\<close>

definition seats_allowed :: "order_facts \<Rightarrow> bool" where
  "seats_allowed i \<longleftrightarrow>
     isSafeInteger (of_seats i) \<and>
     (of_audience i = ''personal'' \<and> of_seats i = 1 \<or>
      of_audience i = ''team'' \<and> 2 \<le> of_seats i \<and>
        (case of_source i of
           CheckoutSource \<Rightarrow> True
         | FrozenOrder _ lo hi \<Rightarrow> isSafeInteger lo \<and> isSafeInteger hi \<and> 2 \<le> lo \<and> lo \<le> of_seats i \<and> of_seats i \<le> hi))"

definition texts_given :: "order_facts \<Rightarrow> bool" where
  "texts_given i \<longleftrightarrow>
     (case of_source i of CheckoutSource \<Rightarrow> True | FrozenOrder orderId _ _ \<Rightarrow> js_trim orderId \<noteq> []) \<and>
     list_all (\<lambda>s. js_trim s \<noteq> []) [of_orderNumber i, of_code i, of_name i, of_tier i, of_currency i] \<and>
     of_billingCycle i \<in> {''month'', ''year''}"

text \<open>An amount that is the same whole amount for every seat.\<close>

definition shared_evenly :: "rat \<Rightarrow> rat \<Rightarrow> rat option \<Rightarrow> bool" where
  "shared_evenly amount seats given \<longleftrightarrow>
     isSafeInteger amount \<and> whole (amount / seats) \<and> (given = None \<or> given = Some (amount / seats))"

definition order_consistent :: "order_facts \<Rightarrow> bool" where
  "order_consistent i \<longleftrightarrow>
     texts_given i \<and> seats_allowed i \<and>
     1 \<le> of_totalPriceCents i \<and> shared_evenly (of_totalPriceCents i) (of_seats i) (of_unitPriceCents i) \<and>
     0 \<le> of_originalPriceCents i \<and>
     shared_evenly (of_originalPriceCents i) (of_seats i) (of_originalUnitPriceCents i) \<and>
     0 \<le> of_creditsPerPeriod i \<and> isSafeInteger (of_creditsPerPeriod i) \<and> isSafeInteger (of_totalCredits i) \<and>
     of_totalCredits i = of_creditsPerPeriod i * of_seats i"

lemma isSafeInteger_iff: "isSafeInteger q \<longleftrightarrow> (\<exists>n. q = of_int n \<and> safe_integer n)"
  by (auto simp: isSafeInteger_def whole_def)

lemma isSafeInteger_of_int [simp]: "isSafeInteger (of_int n) = safe_integer n"
  by (simp add: isSafeInteger_def whole_def)

lemma whole_iff: "whole q \<longleftrightarrow> (\<exists>n. q = of_int n)"
  by (auto simp: whole_def)

lemma isSafeInteger_whole: "isSafeInteger q \<Longrightarrow> whole q"
  by (simp add: isSafeInteger_def)

text \<open>The checked product is the exact one.\<close>

lemma checkedProduct_iff:
  assumes "isSafeInteger a" "isSafeInteger b"
  shows "checkedProduct field a b = returns p \<longleftrightarrow> isSafeInteger (a * b) \<and> p = a * b"
proof -
  obtain m n where a: "a = of_int m" and b: "b = of_int n" using assms by (auto simp: isSafeInteger_iff)
  have ab: "a * b = of_int (m * n)" by (simp add: a b)
  have "js_times a b = of_int (js_product m n)" by (simp add: js_times_def a b)
  then show ?thesis
    using js_product_exact [of m n]
    by (auto simp: checkedProduct_def Let_def ab js_product_safe_iff simp del: of_int_mult)
qed

text \<open>A part of a safe amount is safe.\<close>

lemma share_safe:
  assumes "isSafeInteger amount" "isSafeInteger seats" "1 \<le> seats" "whole (amount / seats)"
  shows "isSafeInteger (amount / seats)"
proof -
  obtain m n k where m: "amount = of_int m" "safe_integer m" and n: "seats = of_int n" "1 \<le> n"
    and k: "amount / seats = of_int k"
    using assms by (auto simp: isSafeInteger_iff whole_iff)
  have "(of_int m :: rat) = of_int k * of_int n" using m(1) n k by (simp add: field_simps)
  then have "m = k * n" by (simp flip: of_int_mult)
  then have "\<bar>k\<bar> \<le> \<bar>m\<bar>" using n(2) by (simp add: abs_mult mult_le_cancel_left1)
  then show ?thesis using m(2) by (simp add: k safe_integer_def)
qed

text \<open>
  The value for one seat with its checks: a whole share, or the given value if it is that share.
\<close>

lemma unit_checks_iff:
  assumes seats: "isSafeInteger seats" "1 \<le> seats"
  assumes amount: "isSafeInteger amount" "least \<le> amount" and least: "least = 0 \<or> least = 1"
  shows "(\<exists>p. unit_value field given amount seats = returns u \<and> isSafeInteger u \<and> least \<le> u \<and>
            checkedProduct field u seats = returns p \<and> p = amount) \<longleftrightarrow>
         whole (amount / seats) \<and> (given = None \<or> given = Some (amount / seats)) \<and> u = amount / seats"
    (is "?l \<longleftrightarrow> ?r")
proof
  assume ?l
  then have u: "isSafeInteger u" and "u * seats = amount"
    and given: "unit_value field given amount seats = returns u"
    using checkedProduct_iff [OF _ seats(1), of u] by auto
  then have "u = amount / seats" using seats(2) by (auto simp: field_simps)
  then show ?r
    using given u by (auto simp: unit_value_def isSafeInteger_whole split: option.splits)
next
  assume r: ?r
  then have safe: "isSafeInteger u" using share_safe [OF amount(1) seats] by simp
  then obtain k where k: "u = of_int k" by (auto simp: isSafeInteger_iff)
  have prod: "u * seats = amount" using r seats(2) by simp
  have "0 \<le> u" using r amount(2) least seats(2) by (auto intro: divide_nonneg_pos)
  moreover have "u \<noteq> 0" if "least = 1" using that prod amount(2) by auto
  ultimately have "least \<le> u" using least k by auto
  moreover have "checkedProduct field u seats = returns amount"
    using checkedProduct_iff [OF safe seats(1)] prod amount(1) by simp
  moreover have "unit_value field given amount seats = returns u"
    using r by (auto simp: unit_value_def exactUnitValue_def)
  ultimately show ?l using safe by blast
qed

lemma validatePaid_iff:
  assumes "isSafeInteger (of_seats i)" "1 \<le> of_seats i"
  shows "validatePaid i = returns u \<longleftrightarrow>
    1 \<le> of_totalPriceCents i \<and> shared_evenly (of_totalPriceCents i) (of_seats i) (of_unitPriceCents i) \<and>
    u = of_totalPriceCents i / of_seats i"
  using unit_checks_iff [OF assms, of "of_totalPriceCents i" 1 PaidTotalField "of_unitPriceCents i" u]
  by (auto simp: validatePaid_def shared_evenly_def requireSafePositiveInteger_def and_then_Inr_iff)

lemma validateOriginal_iff:
  assumes "isSafeInteger (of_seats i)" "1 \<le> of_seats i"
  shows "validateOriginal i = returns u \<longleftrightarrow>
    0 \<le> of_originalPriceCents i \<and>
    shared_evenly (of_originalPriceCents i) (of_seats i) (of_originalUnitPriceCents i) \<and>
    u = of_originalPriceCents i / of_seats i"
  using unit_checks_iff [OF assms, of "of_originalPriceCents i" 0 OriginalTotalField "of_originalUnitPriceCents i" u]
  by (auto simp: validateOriginal_def shared_evenly_def requireSafeNonNegativeInteger_def and_then_Inr_iff)

lemma validateCredits_iff:
  assumes "isSafeInteger (of_seats i)" "1 \<le> of_seats i"
  shows "validateCredits i = returns () \<longleftrightarrow>
    0 \<le> of_creditsPerPeriod i \<and> isSafeInteger (of_creditsPerPeriod i) \<and> isSafeInteger (of_totalCredits i) \<and>
    of_totalCredits i = of_creditsPerPeriod i * of_seats i"
  using assms
  by (auto simp: validateCredits_def requireSafeNonNegativeInteger_def and_then_Inr_iff checkedProduct_iff)

lemma validateAudienceAndSeats_iff: "validateAudienceAndSeats i = returns () \<longleftrightarrow> seats_allowed i"
  by (auto simp: validateAudienceAndSeats_def seats_allowed_def requireSafePositiveInteger_def and_then_Inr_iff
      validateFrozenSeats_def split: order_source.splits)

lemma validateTexts_iff: "validateTexts i = returns () \<longleftrightarrow> texts_given i"
  by (auto simp: validateTexts_def texts_given_def requireNonBlank_def and_then_Inr_iff split: order_source.splits)

lemma seats_allowed_positive: "seats_allowed i \<Longrightarrow> isSafeInteger (of_seats i) \<and> 1 \<le> of_seats i"
  by (auto simp: seats_allowed_def)

lemma and_then_unit_iff: "and_then (r :: unit order_result) f = returns y \<longleftrightarrow> r = returns () \<and> f () = returns y"
  by (cases r) auto

lemmas order_checks_iff =
  validateTexts_iff validateAudienceAndSeats_iff validatePaid_iff validateOriginal_iff validateCredits_iff

lemma validateMembershipOrderFacts_iff:
  "validateMembershipOrderFacts i = returns v \<longleftrightarrow>
     order_consistent i \<and>
     v = \<lparr>vo_input = i, vo_originalUnitPriceCents = of_originalPriceCents i / of_seats i,
          vo_unitPriceCents = of_totalPriceCents i / of_seats i\<rparr>"
  using seats_allowed_positive [of i]
  by (auto simp: validateMembershipOrderFacts_def and_then_unit_iff and_then_Inr_iff order_checks_iff
      order_consistent_def)

text \<open>
  C24. An order is accepted exactly if it is consistent in exact arithmetic, although the code multiplies
  doubles; and then the prices for one seat are the exact shares of the totals.
\<close>

theorem accepted_order_is_exact:
  "validateMembershipOrderFacts i = returns v \<longleftrightarrow>
     order_consistent i \<and>
     v = \<lparr>vo_input = i, vo_originalUnitPriceCents = of_originalPriceCents i / of_seats i,
          vo_unitPriceCents = of_totalPriceCents i / of_seats i\<rparr>"
  by (rule validateMembershipOrderFacts_iff)

subsection \<open>Facts from plans and orders\<close>

record order_model =
  om_audience :: string
  om_billingCycle :: string
  om_creditsPerPeriod :: rat
  om_currency :: string
  om_orderNumber :: string
  om_originalTotalPriceCents :: rat
  om_originalUnitPriceCents :: rat
  om_seats :: rat
  om_title :: string
  om_totalCredits :: rat
  om_totalPriceCents :: rat
  om_unitPriceCents :: rat

record membership_plan =
  mp_id :: string
  mp_code :: string
  mp_name :: string
  mp_tier :: string
  mp_audience :: string
  mp_billingCycle :: string
  mp_priceCents :: rat
  mp_originalPriceCents :: rat
  mp_currency :: string
  mp_creditsPerPeriod :: rat
  mp_minSeats :: rat
  mp_maxSeats :: rat

record membership_order =
  mo_id :: string
  mo_orderNumber :: string
  mo_teamId :: "string option"
  mo_planId :: string
  mo_seats :: rat
  mo_unitPriceCents :: rat
  mo_totalPriceCents :: rat
  mo_currency :: string
  mo_planSnapshotJson :: string

definition clampSeats :: "membership_plan \<Rightarrow> rat \<Rightarrow> rat" where
  "clampSeats plan seats =
     (if mp_audience plan \<noteq> ''team'' then 1 else min (mp_maxSeats plan) (max (mp_minSeats plan) seats))"

definition planTotalPriceCents :: "membership_plan \<Rightarrow> rat \<Rightarrow> rat" where
  "planTotalPriceCents plan seats = js_times (mp_priceCents plan) (clampSeats plan seats)"

definition planTotalCredits :: "membership_plan \<Rightarrow> rat \<Rightarrow> rat" where
  "planTotalCredits plan seats = js_times (mp_creditsPerPeriod plan) (clampSeats plan seats)"

text \<open>The product of this file checks its factors too.\<close>

definition safeProduct :: "order_field \<Rightarrow> rat \<Rightarrow> rat \<Rightarrow> rat order_result" where
  "safeProduct field left right =
     (if \<not> isSafeInteger left \<or> \<not> isSafeInteger right then throws (UnsafeOperand field)
      else checkedProduct field left right)"

definition checkedPlanTotal :: "membership_plan \<Rightarrow> rat \<Rightarrow> (rat \<times> rat) order_result" where
  "checkedPlanTotal plan seats =
     and_then (safeProduct TotalCreditsField (mp_creditsPerPeriod plan) seats) (\<lambda>totalCredits.
     and_then (safeProduct PaidTotalField (mp_priceCents plan) seats) (\<lambda>totalPrice.
     if planTotalCredits plan seats \<noteq> totalCredits \<or> planTotalPriceCents plan seats \<noteq> totalPrice
     then throws PlanTotalMismatch
     else returns (totalCredits, totalPrice)))"

definition membershipOrderFactsFromPlan :: "membership_plan \<Rightarrow> rat \<Rightarrow> order_model order_result" where
  "membershipOrderFactsFromPlan plan seats =
     (if mp_billingCycle plan \<noteq> ''month'' \<and> mp_billingCycle plan \<noteq> ''year'' then throws CycleInvalid
      else
        let normalized = (if mp_audience plan = ''team''
                          then min (mp_maxSeats plan) (max (mp_minSeats plan) seats) else 1)
        in and_then (checkedPlanTotal plan normalized) (\<lambda>(totalCredits, totalPrice).
           and_then (safeProduct OriginalTotalField (mp_originalPriceCents plan) normalized) (\<lambda>original.
             returns \<lparr>om_audience = mp_audience plan, om_billingCycle = mp_billingCycle plan,
               om_creditsPerPeriod = mp_creditsPerPeriod plan, om_currency = mp_currency plan,
               om_orderNumber = [], om_originalTotalPriceCents = original,
               om_originalUnitPriceCents = mp_originalPriceCents plan, om_seats = normalized,
               om_title = mp_name plan, om_totalCredits = totalCredits, om_totalPriceCents = totalPrice,
               om_unitPriceCents = mp_priceCents plan\<rparr>)))"

fun readSnapshotRecord :: "json \<Rightarrow> properties order_result" where
  "readSnapshotRecord (JObj ps) = returns ps"
| "readSnapshotRecord _ = throws SnapshotNotRecord"

definition readSnapshotString :: "properties \<Rightarrow> string \<Rightarrow> string order_result" where
  "readSnapshotString snapshot key =
     (case map_of snapshot key of
        Some (JStr s) \<Rightarrow> if js_trim s = [] then throws (SnapshotText key) else returns s
      | _ \<Rightarrow> throws (SnapshotText key))"

definition readSnapshotInteger :: "properties \<Rightarrow> string \<Rightarrow> rat order_result" where
  "readSnapshotInteger snapshot key =
     (case map_of snapshot key of
        Some (JNum q) \<Rightarrow> if \<not> isSafeInteger q \<or> q < 0 then throws (SnapshotNumber key) else returns q
      | _ \<Rightarrow> throws (SnapshotNumber key))"

text \<open>The amounts of a snapshot, in the order the object literal reads them.\<close>

definition readSnapshotPlan ::
  "properties \<Rightarrow> string \<Rightarrow> string \<Rightarrow> string \<Rightarrow> string \<Rightarrow> membership_plan order_result" where
  "readSnapshotPlan snapshot audience billingCycle planId currency =
     and_then (readSnapshotString snapshot ''code'') (\<lambda>code.
     and_then (readSnapshotInteger snapshot ''creditsPerPeriod'') (\<lambda>credits.
     and_then (readSnapshotInteger snapshot ''maxSeats'') (\<lambda>maxSeats.
     and_then (readSnapshotInteger snapshot ''minSeats'') (\<lambda>minSeats.
     and_then (readSnapshotString snapshot ''name'') (\<lambda>name.
     and_then (readSnapshotInteger snapshot ''originalPriceCents'') (\<lambda>original.
     and_then (readSnapshotInteger snapshot ''priceCents'') (\<lambda>price.
     and_then (readSnapshotString snapshot ''tier'') (\<lambda>tier.
       returns \<lparr>mp_id = planId, mp_code = code, mp_name = name, mp_tier = tier, mp_audience = audience,
         mp_billingCycle = billingCycle, mp_priceCents = price, mp_originalPriceCents = original,
         mp_currency = currency, mp_creditsPerPeriod = credits, mp_minSeats = minSeats,
         mp_maxSeats = maxSeats\<rparr>))))))))"

definition parse_snapshot :: "(string \<Rightarrow> json option) \<Rightarrow> string \<Rightarrow> properties order_result" where
  "parse_snapshot json_parse document =
     (if js_trim document = [] then throws SnapshotMissing
      else case json_parse document of None \<Rightarrow> throws SnapshotNotJson | Some v \<Rightarrow> readSnapshotRecord v)"

definition membershipPlanSnapshotFromOrder ::
  "(string \<Rightarrow> json option) \<Rightarrow> membership_order \<Rightarrow> membership_plan order_result" where
  "membershipPlanSnapshotFromOrder json_parse order =
     and_then (parse_snapshot json_parse (mo_planSnapshotJson order)) (\<lambda>snapshot.
     and_then (readSnapshotString snapshot ''audience'') (\<lambda>audience.
     and_then (readSnapshotString snapshot ''billingCycle'') (\<lambda>billingCycle.
     and_then (readSnapshotString snapshot ''id'') (\<lambda>planId.
     if (audience \<noteq> ''personal'' \<and> audience \<noteq> ''team'') \<or> (billingCycle \<noteq> ''month'' \<and> billingCycle \<noteq> ''year'')
     then throws SnapshotKind
     else if planId \<noteq> mo_planId order then throws SnapshotOtherPlan
     else
       and_then (readSnapshotString snapshot ''currency'') (\<lambda>currency.
       if currency \<noteq> mo_currency order then throws SnapshotOtherCurrency
       else readSnapshotPlan snapshot audience billingCycle planId currency)))))"

definition team_given :: "membership_order \<Rightarrow> bool" where
  "team_given order = (case mo_teamId order of None \<Rightarrow> False | Some t \<Rightarrow> js_trim t \<noteq> [])"

text \<open>The argument of the validation, without the two products it needs.\<close>

definition frozen_facts :: "membership_order \<Rightarrow> membership_plan \<Rightarrow> rat \<Rightarrow> rat \<Rightarrow> order_facts" where
  "frozen_facts order snapshot original credits =
     \<lparr>of_audience = mp_audience snapshot, of_billingCycle = mp_billingCycle snapshot, of_code = mp_code snapshot,
      of_creditsPerPeriod = mp_creditsPerPeriod snapshot, of_currency = mo_currency order,
      of_name = mp_name snapshot, of_orderNumber = mo_orderNumber order, of_originalPriceCents = original,
      of_originalUnitPriceCents = Some (mp_originalPriceCents snapshot), of_seats = mo_seats order,
      of_tier = mp_tier snapshot, of_totalCredits = credits, of_totalPriceCents = mo_totalPriceCents order,
      of_unitPriceCents = Some (mo_unitPriceCents order),
      of_source = FrozenOrder (mo_id order) (mp_minSeats snapshot) (mp_maxSeats snapshot)\<rparr>"

definition model_of_validated :: "string \<Rightarrow> validated_order \<Rightarrow> order_model" where
  "model_of_validated title v =
     (let i = vo_input v
      in \<lparr>om_audience = of_audience i, om_billingCycle = of_billingCycle i,
          om_creditsPerPeriod = of_creditsPerPeriod i, om_currency = of_currency i,
          om_orderNumber = of_orderNumber i, om_originalTotalPriceCents = of_originalPriceCents i,
          om_originalUnitPriceCents = vo_originalUnitPriceCents v, om_seats = of_seats i, om_title = title,
          om_totalCredits = of_totalCredits i, om_totalPriceCents = of_totalPriceCents i,
          om_unitPriceCents = vo_unitPriceCents v\<rparr>)"

definition membershipOrderFactsFromOrder ::
  "(string \<Rightarrow> json option) \<Rightarrow> membership_order \<Rightarrow> order_model order_result" where
  "membershipOrderFactsFromOrder json_parse order =
     and_then (membershipPlanSnapshotFromOrder json_parse order) (\<lambda>snapshot.
     if mp_audience snapshot = ''personal'' \<and> team_given order then throws PersonalWithTeam
     else if mp_audience snapshot = ''team'' \<and> \<not> team_given order then throws TeamWithoutTeam
     else if mp_priceCents snapshot \<noteq> mo_unitPriceCents order then throws FrozenPriceMismatch
     else
       and_then (safeProduct OriginalTotalField (mp_originalPriceCents snapshot) (mo_seats order)) (\<lambda>original.
       and_then (safeProduct TotalCreditsField (mp_creditsPerPeriod snapshot) (mo_seats order)) (\<lambda>credits.
       and_then (validateMembershipOrderFacts (frozen_facts order snapshot original credits)) (\<lambda>validated.
         returns (model_of_validated (mp_name snapshot) validated)))))"

text \<open>Clamping twice is clamping once, so the comparison of the two ways to a total never fails.\<close>

lemma plan_total_never_mismatches: "checkedPlanTotal plan (clampSeats plan seats) \<noteq> throws PlanTotalMismatch"
proof -
  have idem: "clampSeats plan (clampSeats plan seats) = clampSeats plan seats"
    by (auto simp: clampSeats_def min_def max_def)
  have product: "js_times a b = p" if "safeProduct field a b = returns p" for field a b p
    using that by (auto simp: safeProduct_def checkedProduct_def Let_def split: if_splits)
  show ?thesis
    by (auto simp: checkedPlanTotal_def and_then_Inl_iff planTotalCredits_def planTotalPriceCents_def idem
        safeProduct_def checkedProduct_def Let_def split: if_splits dest: product)
qed

lemma facts_from_plan_iff:
  "membershipOrderFactsFromPlan plan seats = returns m \<Longrightarrow>
   om_seats m = clampSeats plan seats \<and> om_totalPriceCents m = om_unitPriceCents m * om_seats m \<and>
   om_totalCredits m = om_creditsPerPeriod m * om_seats m \<and>
   om_originalTotalPriceCents m = om_originalUnitPriceCents m * om_seats m"
  by (auto simp: membershipOrderFactsFromPlan_def checkedPlanTotal_def and_then_Inr_iff Let_def safeProduct_def
      checkedProduct_iff clampSeats_def split: if_splits)

end
