(* ===== verification/Checkout.thy ===== *)
theory Checkout
  imports MembershipOrder
begin

text \<open>
  The domain of the checkout page, \<^verbatim>\<open>web/src/pages/payment/payment-checkout-domain.ts\<close>, on the answers
  of the backend (\<^verbatim>\<open>services/api/payment.ts\<close>): how a later answer is merged into what is known, when a
  payment may be started and with whom, and the coordinator that decides which answer counts. The
  error texts are constructors; a text of the backend is \<open>Reported\<close>. The parser of URLs,
  \<^verbatim>\<open>decodeURIComponent\<close> and \<^verbatim>\<open>Date.parse\<close> are parameters.
\<close>

datatype payment_provider = Wechat | Alipay
datatype order_status = PendingOrder | CancelledOrder | PaidOrder | RefundedOrder
datatype checkout_status = ActiveCheckout | ExpiredCheckout | ConsumedCheckout
datatype transaction_status =
  TransactionCreated | TransactionPending | TransactionReview | TransactionPaid | TransactionClosed
| TransactionFailed | TransactionRefunded

fun orderStatusRank :: "order_status \<Rightarrow> nat" where
  "orderStatusRank PendingOrder = 0"
| "orderStatusRank CancelledOrder = 1"
| "orderStatusRank PaidOrder = 2"
| "orderStatusRank RefundedOrder = 3"

fun checkoutStatusRank :: "checkout_status \<Rightarrow> nat" where
  "checkoutStatusRank ActiveCheckout = 0"
| "checkoutStatusRank ExpiredCheckout = 1"
| "checkoutStatusRank ConsumedCheckout = 2"

text \<open>The ranks order the statuses, and no two have the same.\<close>

lemma orderStatusRank_inject: "orderStatusRank a = orderStatusRank b \<longleftrightarrow> a = b"
  by (cases a; cases b) auto

lemma checkoutStatusRank_inject: "checkoutStatusRank a = checkoutStatusRank b \<longleftrightarrow> a = b"
  by (cases a; cases b) auto

instantiation order_status :: linorder
begin

definition less_eq_order_status :: "order_status \<Rightarrow> order_status \<Rightarrow> bool" where
  "less_eq_order_status a b \<longleftrightarrow> orderStatusRank a \<le> orderStatusRank b"

definition less_order_status :: "order_status \<Rightarrow> order_status \<Rightarrow> bool" where
  "less_order_status a b \<longleftrightarrow> orderStatusRank a < orderStatusRank b"

instance
  by standard (auto simp: less_eq_order_status_def less_order_status_def orderStatusRank_inject [symmetric])

end

instantiation checkout_status :: linorder
begin

definition less_eq_checkout_status :: "checkout_status \<Rightarrow> checkout_status \<Rightarrow> bool" where
  "less_eq_checkout_status a b \<longleftrightarrow> checkoutStatusRank a \<le> checkoutStatusRank b"

definition less_checkout_status :: "checkout_status \<Rightarrow> checkout_status \<Rightarrow> bool" where
  "less_checkout_status a b \<longleftrightarrow> checkoutStatusRank a < checkoutStatusRank b"

instance
  by standard (auto simp: less_eq_checkout_status_def less_checkout_status_def
      checkoutStatusRank_inject [symmetric])

end

lemma PendingOrder_least [simp]: "PendingOrder \<le> s"
  by (simp add: less_eq_order_status_def)

lemma ActiveCheckout_least [simp]: "ActiveCheckout \<le> s"
  by (simp add: less_eq_checkout_status_def)

lemma max_PendingOrder_iff [simp]: "max a b = PendingOrder \<longleftrightarrow> a = PendingOrder \<and> b = PendingOrder"
  by (metis PendingOrder_least antisym max.cobounded1 max.cobounded2 max.idem)

lemma max_ActiveCheckout_iff [simp]: "max a b = ActiveCheckout \<longleftrightarrow> a = ActiveCheckout \<and> b = ActiveCheckout"
  by (metis ActiveCheckout_least antisym max.cobounded1 max.cobounded2 max.idem)

record active_transaction =
  at_provider :: payment_provider
  at_status :: transaction_status
  at_codeUrl :: string
  at_expiresAt :: string

record membership_summary =
  ms_audience :: string
  ms_code :: string
  ms_name :: string
  ms_tier :: string
  ms_billingCycle :: string
  ms_seats :: rat
  ms_actualPriceCents :: rat
  ms_originalPriceCents :: rat
  ms_creditsPerPeriod :: rat
  ms_totalCreditsPerPeriod :: rat

record topup_summary =
  ts_actualPriceCents :: rat
  ts_totalMicrocredits :: rat

text \<open>The order type tells which summary there is.\<close>

datatype order_summary = MembershipSummary membership_summary | TopupSummary topup_summary

fun is_membership :: "order_summary \<Rightarrow> bool" where
  "is_membership (MembershipSummary m) = True"
| "is_membership (TopupSummary t) = False"

record payment_checkout =
  pc_orderNumber :: string
  pc_orderStatus :: order_status
  pc_checkoutStatus :: checkout_status
  pc_currency :: string
  pc_serverNow :: string
  pc_expiresAt :: string
  pc_providers :: "payment_provider list"
  pc_activeTransaction :: "active_transaction option"
  pc_summary :: order_summary

datatype time_field = ServerTime | ExpiryTime

datatype checkout_error =
  TokenMissing | CheckoutUrlInvalid | TimeInvalid time_field | DifferentOrder | RevisionInvalid
| RevisionNotLater | TerminalTakesNoTransaction | TransactionIncomplete | TerminalHasTransaction
| TransactionContradicts | ProviderUnavailable | OrderInvalid order_error | NoCodeUrl | NotPayable
| LoadFailed | SubmitFailed | Reported string

type_synonym 'a checkout_result = "(checkout_error, 'a) result"

definition hasCheckoutToken :: "string \<Rightarrow> bool" where
  "hasCheckoutToken token \<longleftrightarrow> js_trim token \<noteq> []"

text \<open>Every failure in the \<^verbatim>\<open>try\<close> block becomes the one error.\<close>

definition paymentCheckoutTokenFromURL ::
  "(string \<Rightarrow> string \<Rightarrow> url option) \<Rightarrow> (string \<Rightarrow> string option) \<Rightarrow> string \<Rightarrow> string \<Rightarrow> string checkout_result" where
  "paymentCheckoutTokenFromURL parse_url decode checkoutURL baseOrigin =
     (case parse_url checkoutURL baseOrigin of
        None \<Rightarrow> throws CheckoutUrlInvalid
      | Some parsed \<Rightarrow>
          if (url_protocol parsed \<noteq> ''http:'' \<and> url_protocol parsed \<noteq> ''https:'') \<or> url_search parsed \<noteq> [] \<or>
             url_hash parsed \<noteq> []
          then throws CheckoutUrlInvalid
          else
            (case filter (\<lambda>s. s \<noteq> []) (split_on (CHR ''/'') (url_pathname parsed)) of
               [first, part] \<Rightarrow>
                 if first \<noteq> ''pay'' then throws CheckoutUrlInvalid
                 else
                   (case decode part of
                      None \<Rightarrow> throws CheckoutUrlInvalid
                    | Some token \<Rightarrow>
                        if \<not> hasCheckoutToken token \<or> CHR ''/'' \<in> set token then throws CheckoutUrlInvalid
                        else returns token)
             | _ \<Rightarrow> throws CheckoutUrlInvalid))"

type_synonym date_parser = "string \<Rightarrow> int option"

definition parseCheckoutTime :: "date_parser \<Rightarrow> string \<Rightarrow> time_field \<Rightarrow> int checkout_result" where
  "parseCheckoutTime parse_date s field =
     (case parse_date s of None \<Rightarrow> throws (TimeInvalid field) | Some t \<Rightarrow> returns t)"

definition checkoutServerOffsetMs :: "date_parser \<Rightarrow> string \<Rightarrow> int \<Rightarrow> int checkout_result" where
  "checkoutServerOffsetMs parse_date serverNow receivedAtMs =
     and_then (parseCheckoutTime parse_date serverNow ServerTime) (\<lambda>t. returns (t - receivedAtMs))"

definition checkoutRemainingSeconds :: "date_parser \<Rightarrow> string \<Rightarrow> int \<Rightarrow> int \<Rightarrow> int checkout_result" where
  "checkoutRemainingSeconds parse_date expiresAt serverOffsetMs clientNowMs =
     and_then (parseCheckoutTime parse_date expiresAt ExpiryTime) (\<lambda>t.
       returns (max 0 \<lceil>of_int (t - clientNowMs - serverOffsetMs) / (1000 :: rat)\<rceil>))"

subsection \<open>What is shown\<close>

record checkout_load_state =
  cl_checkout :: "payment_checkout option"
  cl_initialError :: "checkout_error option" \<comment> \<open>\<open>None\<close> for \<^verbatim>\<open>""\<close>\<close>
  cl_refreshError :: "checkout_error option"
  cl_token :: string

definition createCheckoutLoadState :: "string \<Rightarrow> checkout_load_state" where
  "createCheckoutLoadState token =
     \<lparr>cl_checkout = None, cl_initialError = None, cl_refreshError = None, cl_token = token\<rparr>"

definition visibleCheckoutForToken :: "checkout_load_state \<Rightarrow> string \<Rightarrow> payment_checkout option" where
  "visibleCheckoutForToken state token = (if cl_token state = token then cl_checkout state else None)"

definition checkoutRequestSucceeded :: "checkout_load_state \<Rightarrow> payment_checkout \<Rightarrow> checkout_load_state" where
  "checkoutRequestSucceeded current checkout =
     current\<lparr>cl_checkout := Some checkout, cl_initialError := None, cl_refreshError := None\<rparr>"

text \<open>\<^verbatim>\<open>reason.trim() || ...\<close>; the texts of the page itself are not blank and have no outer spaces.\<close>

fun failure_message :: "checkout_error \<Rightarrow> checkout_error" where
  "failure_message (Reported s) = (if js_trim s = [] then LoadFailed else Reported (js_trim s))"
| "failure_message e = e"

definition checkoutRequestFailed :: "checkout_load_state \<Rightarrow> checkout_error \<Rightarrow> checkout_load_state" where
  "checkoutRequestFailed current reason =
     (if cl_checkout current \<noteq> None then current\<lparr>cl_refreshError := Some (failure_message reason)\<rparr>
      else \<lparr>cl_checkout = None, cl_initialError = Some (failure_message reason), cl_refreshError = None,
             cl_token = cl_token current\<rparr>)"

definition checkoutRequestSucceededForToken ::
  "checkout_load_state \<Rightarrow> string \<Rightarrow> payment_checkout \<Rightarrow> checkout_load_state" where
  "checkoutRequestSucceededForToken current token checkout =
     (if cl_token current = token then checkoutRequestSucceeded current checkout else current)"

definition checkoutRequestFailedForToken ::
  "checkout_load_state \<Rightarrow> string \<Rightarrow> checkout_error \<Rightarrow> checkout_load_state" where
  "checkoutRequestFailedForToken current token reason =
     (if cl_token current = token then checkoutRequestFailed current reason else current)"

subsection \<open>Later answers\<close>

record checkout_request_state =
  cr_checkout :: payment_checkout
  cr_revision :: nat

definition payable :: "payment_checkout \<Rightarrow> bool" where
  "payable c \<longleftrightarrow> pc_orderStatus c = PendingOrder \<and> pc_checkoutStatus c = ActiveCheckout"

definition mergePaymentCheckout :: "payment_checkout \<Rightarrow> payment_checkout \<Rightarrow> payment_checkout checkout_result" where
  "mergePaymentCheckout current incoming =
     (if is_membership (pc_summary current) \<noteq> is_membership (pc_summary incoming) \<or>
         pc_orderNumber current \<noteq> pc_orderNumber incoming
      then throws DifferentOrder
      else
        let orderStatus = (if orderStatusRank (pc_orderStatus current) > orderStatusRank (pc_orderStatus incoming)
                           then pc_orderStatus current else pc_orderStatus incoming);
            checkoutStatus =
              (if checkoutStatusRank (pc_checkoutStatus current) > checkoutStatusRank (pc_checkoutStatus incoming)
               then pc_checkoutStatus current else pc_checkoutStatus incoming);
            merged = incoming\<lparr>pc_orderStatus := orderStatus, pc_checkoutStatus := checkoutStatus\<rparr>
        in if orderStatus \<noteq> PendingOrder \<or> checkoutStatus \<noteq> ActiveCheckout
           then returns (merged\<lparr>pc_activeTransaction := None\<rparr>)
           else returns merged)"

text \<open>Revisions are counted by the coordinator, so they are natural numbers; only their size is checked.\<close>

definition requireCheckoutRevision :: "nat \<Rightarrow> unit checkout_result" where
  "requireCheckoutRevision revision = ensure (safe_integer (int revision)) RevisionInvalid"

definition mergeCheckoutResponse ::
  "checkout_request_state \<Rightarrow> payment_checkout \<Rightarrow> nat \<Rightarrow> checkout_request_state checkout_result" where
  "mergeCheckoutResponse current incoming revision =
     and_then (requireCheckoutRevision revision) (\<lambda>_.
     if revision < cr_revision current then returns current
     else
       and_then (mergePaymentCheckout (cr_checkout current) incoming) (\<lambda>merged.
         returns \<lparr>cr_checkout = merged, cr_revision = revision\<rparr>))"

definition transaction_complete :: "active_transaction \<Rightarrow> bool" where
  "transaction_complete t \<longleftrightarrow> at_status t = TransactionPending \<and> js_trim (at_codeUrl t) \<noteq> []"

definition applyCheckoutTransaction ::
  "checkout_request_state \<Rightarrow> active_transaction \<Rightarrow> nat \<Rightarrow> checkout_request_state checkout_result" where
  "applyCheckoutTransaction current transaction revision =
     and_then (requireCheckoutRevision revision) (\<lambda>_.
     if revision \<le> cr_revision current then throws RevisionNotLater
     else if \<not> payable (cr_checkout current) then throws TerminalTakesNoTransaction
     else if \<not> transaction_complete transaction then throws TransactionIncomplete
     else returns \<lparr>cr_checkout = (cr_checkout current)\<lparr>pc_activeTransaction := Some transaction\<rparr>,
                   cr_revision = revision\<rparr>)"

definition restoreActiveCheckoutPayment ::
  "payment_checkout \<Rightarrow> (payment_provider \<times> active_transaction) option checkout_result" where
  "restoreActiveCheckoutPayment checkout =
     (case pc_activeTransaction checkout of
        None \<Rightarrow> returns None
      | Some transaction \<Rightarrow>
          if \<not> payable checkout then throws TerminalHasTransaction
          else if \<not> transaction_complete transaction then throws TransactionContradicts
          else returns (Some (at_provider transaction, transaction)))"

subsection \<open>Whom to pay with\<close>

record provider_selection =
  sel_options :: "payment_provider list"
  sel_selected :: "payment_provider option"
  sel_locked :: bool
  sel_none_available :: bool \<comment> \<open>the one error text\<close>

definition resolveCheckoutProviderSelection ::
  "payment_checkout \<Rightarrow> payment_provider option \<Rightarrow> provider_selection checkout_result" where
  "resolveCheckoutProviderSelection checkout requested =
     and_then (restoreActiveCheckoutPayment checkout) (\<lambda>restored.
       case restored of
         Some (provider, transaction) \<Rightarrow>
           returns \<lparr>sel_options = provider # filter (\<lambda>p. p \<noteq> provider) (pc_providers checkout),
             sel_selected = Some provider, sel_locked = True, sel_none_available = False\<rparr>
       | None \<Rightarrow>
           (case js_set_of (pc_providers checkout) of
              [] \<Rightarrow> returns \<lparr>sel_options = [], sel_selected = None, sel_locked = False, sel_none_available = True\<rparr>
            | first # others \<Rightarrow>
                returns \<lparr>sel_options = first # others,
                  sel_selected = (case requested of
                                    Some p \<Rightarrow> Some (if p \<in> set (first # others) then p else first)
                                  | None \<Rightarrow> Some first),
                  sel_locked = False, sel_none_available = False\<rparr>))"

definition automaticPaymentProvider ::
  "payment_checkout \<Rightarrow> payment_provider option \<Rightarrow> bool \<Rightarrow> payment_provider option checkout_result" where
  "automaticPaymentProvider checkout selected attempted =
     (if attempted \<or> \<not> payable checkout \<or> pc_activeTransaction checkout \<noteq> None then returns None
      else
        and_then (resolveCheckoutProviderSelection checkout selected) (\<lambda>selection.
          if sel_locked selection \<or> length (sel_options selection) \<noteq> 1 \<or>
             sel_selected selection \<noteq> Some (hd (sel_options selection))
          then returns None else returns (sel_selected selection)))"

definition selectCheckoutProvider :: "payment_checkout \<Rightarrow> payment_provider \<Rightarrow> payment_provider checkout_result" where
  "selectCheckoutProvider checkout requested =
     and_then (resolveCheckoutProviderSelection checkout (Some requested)) (\<lambda>selection.
       case (sel_locked selection, sel_selected selection) of
         (True, Some p) \<Rightarrow> returns p
       | _ \<Rightarrow> if requested \<notin> set (sel_options selection) then throws ProviderUnavailable else returns requested)"

definition checkoutPaymentExpiresAt :: "payment_checkout \<Rightarrow> string" where
  "checkoutPaymentExpiresAt checkout =
     (case pc_activeTransaction checkout of Some t \<Rightarrow> at_expiresAt t | None \<Rightarrow> pc_expiresAt checkout)"

definition shouldContinueCheckoutPolling :: "payment_checkout \<Rightarrow> bool" where
  "shouldContinueCheckoutPolling checkout \<longleftrightarrow>
     pc_orderStatus checkout = PendingOrder \<and> pc_checkoutStatus checkout = ActiveCheckout"

text \<open>The texts of the final pages, by name; a paid order says what was activated.\<close>

datatype terminal_presentation = RefundToCheck | PaymentDone bool | OrderClosed | CheckoutExpired | CheckoutClosed

definition checkoutTerminalPresentation :: "payment_checkout \<Rightarrow> terminal_presentation option" where
  "checkoutTerminalPresentation checkout =
     (if pc_orderStatus checkout = RefundedOrder then Some RefundToCheck
      else if pc_orderStatus checkout = PaidOrder then Some (PaymentDone (is_membership (pc_summary checkout)))
      else if pc_orderStatus checkout = CancelledOrder then Some OrderClosed
      else if pc_checkoutStatus checkout = ExpiredCheckout then Some CheckoutExpired
      else if pc_checkoutStatus checkout = ConsumedCheckout then Some CheckoutClosed
      else None)"

subsection \<open>What is paid for\<close>

record membership_line =
  ml_title :: string
  ml_audience :: string
  ml_billingCycle :: string
  ml_seats :: rat
  ml_unitPriceCents :: rat
  ml_actualPriceCents :: rat
  ml_originalUnitPriceCents :: rat
  ml_originalPriceCents :: rat
  ml_discountCents :: rat
  ml_creditsPerPeriod :: rat
  ml_totalCredits :: rat

datatype checkout_summary = MembershipLine membership_line | TopupLine rat rat

definition summary_facts :: "payment_checkout \<Rightarrow> membership_summary \<Rightarrow> order_facts" where
  "summary_facts checkout facts =
     \<lparr>of_audience = ms_audience facts, of_billingCycle = ms_billingCycle facts, of_code = ms_code facts,
      of_creditsPerPeriod = ms_creditsPerPeriod facts, of_currency = pc_currency checkout,
      of_name = ms_name facts, of_orderNumber = pc_orderNumber checkout,
      of_originalPriceCents = ms_originalPriceCents facts, of_originalUnitPriceCents = None,
      of_seats = ms_seats facts, of_tier = ms_tier facts, of_totalCredits = ms_totalCreditsPerPeriod facts,
      of_totalPriceCents = ms_actualPriceCents facts, of_unitPriceCents = None, of_source = CheckoutSource\<rparr>"

fun order_outcome :: "'a order_result \<Rightarrow> 'a checkout_result" where
  "order_outcome (Inl e) = throws (OrderInvalid e)"
| "order_outcome (Inr x) = returns x"

definition checkoutSummary :: "payment_checkout \<Rightarrow> checkout_summary checkout_result" where
  "checkoutSummary checkout =
     (case pc_summary checkout of
        MembershipSummary facts \<Rightarrow>
          and_then (order_outcome (validateMembershipOrderFacts (summary_facts checkout facts))) (\<lambda>validated.
            returns (MembershipLine \<lparr>ml_title = ms_name facts, ml_audience = ms_audience facts,
              ml_billingCycle = ms_billingCycle facts, ml_seats = ms_seats facts,
              ml_unitPriceCents = vo_unitPriceCents validated, ml_actualPriceCents = ms_actualPriceCents facts,
              ml_originalUnitPriceCents = vo_originalUnitPriceCents validated,
              ml_originalPriceCents = ms_originalPriceCents facts,
              ml_discountCents = (if ms_originalPriceCents facts > ms_actualPriceCents facts
                                  then ms_originalPriceCents facts - ms_actualPriceCents facts else 0),
              ml_creditsPerPeriod = ms_creditsPerPeriod facts,
              ml_totalCredits = ms_totalCreditsPerPeriod facts\<rparr>))
      | TopupSummary t \<Rightarrow>
          and_then (order_outcome (requireSafeNonNegativeInteger PaidTotalField (ts_actualPriceCents t))) (\<lambda>_.
          and_then (order_outcome (requireSafeNonNegativeInteger TotalCreditsField (ts_totalMicrocredits t))) (\<lambda>_.
            returns (TopupLine (ts_actualPriceCents t) (ts_totalMicrocredits t)))))"

fun checkoutDiscountOriginalPrice :: "checkout_summary \<Rightarrow> rat option" where
  "checkoutDiscountOriginalPrice (MembershipLine l) =
     (if ml_originalPriceCents l \<le> ml_actualPriceCents l then None else Some (ml_originalPriceCents l))"
| "checkoutDiscountOriginalPrice (TopupLine price credits) = None"

text \<open>In \<^verbatim>\<open>membership-order-facts-domain.ts\<close>.\<close>

definition membershipOrderFactsFromCheckout :: "payment_checkout \<Rightarrow> order_model checkout_result" where
  "membershipOrderFactsFromCheckout checkout =
     and_then (checkoutSummary checkout) (\<lambda>summary.
       case summary of
         TopupLine _ _ \<Rightarrow> throws (OrderInvalid TopupIsNoMembership)
       | MembershipLine l \<Rightarrow>
           returns \<lparr>om_audience = ml_audience l, om_billingCycle = ml_billingCycle l,
             om_creditsPerPeriod = ml_creditsPerPeriod l, om_currency = pc_currency checkout,
             om_orderNumber = pc_orderNumber checkout, om_originalTotalPriceCents = ml_originalPriceCents l,
             om_originalUnitPriceCents = ml_originalUnitPriceCents l, om_seats = ml_seats l,
             om_title = ml_title l, om_totalCredits = ml_totalCredits l,
             om_totalPriceCents = ml_actualPriceCents l, om_unitPriceCents = ml_unitPriceCents l\<rparr>)"

subsection \<open>Which answer counts\<close>

datatype lease_kind = LoadLease | SubmissionLease

record request_lease =
  rl_generation :: nat
  rl_token :: string
  rl_kind :: lease_kind
  rl_id :: nat
  rl_revision :: nat

record request_coordinator =
  cq_active :: bool
  cq_generation :: nat
  cq_token :: string
  cq_nextLeaseID :: nat
  cq_revision :: nat
  cq_loadLeaseID :: "nat option"
  cq_submissionLeaseID :: "nat option"

definition new_coordinator :: request_coordinator where
  "new_coordinator = \<lparr>cq_active = False, cq_generation = 0, cq_token = [], cq_nextLeaseID = 0, cq_revision = 0,
     cq_loadLeaseID = None, cq_submissionLeaseID = None\<rparr>"

definition coordinator_activate ::
  "string \<Rightarrow> request_coordinator \<Rightarrow> unit checkout_result \<times> request_coordinator" where
  "coordinator_activate token c =
     (if \<not> hasCheckoutToken token then (throws TokenMissing, c)
      else (returns (), c\<lparr>cq_generation := Suc (cq_generation c), cq_active := True, cq_token := token,
              cq_revision := 0, cq_loadLeaseID := None, cq_submissionLeaseID := None\<rparr>))"

definition coordinator_dispose :: "request_coordinator \<Rightarrow> request_coordinator" where
  "coordinator_dispose c =
     c\<lparr>cq_generation := Suc (cq_generation c), cq_active := False, cq_token := [],
       cq_loadLeaseID := None, cq_submissionLeaseID := None\<rparr>"

definition createLease ::
  "lease_kind \<Rightarrow> nat \<Rightarrow> request_coordinator \<Rightarrow> request_lease \<times> request_coordinator" where
  "createLease kind revision c =
     (let c = c\<lparr>cq_nextLeaseID := Suc (cq_nextLeaseID c)\<rparr>
      in (\<lparr>rl_generation = cq_generation c, rl_token = cq_token c, rl_kind = kind, rl_id = cq_nextLeaseID c,
           rl_revision = revision\<rparr>, c))"

definition isCurrentLease :: "request_lease \<Rightarrow> lease_kind \<Rightarrow> nat option \<Rightarrow> request_coordinator \<Rightarrow> bool" where
  "isCurrentLease lease kind activeLeaseID c \<longleftrightarrow>
     cq_active c \<and> rl_kind lease = kind \<and> rl_generation lease = cq_generation c \<and>
     rl_token lease = cq_token c \<and> Some (rl_id lease) = activeLeaseID"

definition beginLoad :: "string \<Rightarrow> request_coordinator \<Rightarrow> request_lease option \<times> request_coordinator" where
  "beginLoad token c =
     (if \<not> cq_active c \<or> token \<noteq> cq_token c \<or> cq_loadLeaseID c \<noteq> None \<or> cq_submissionLeaseID c \<noteq> None
      then (None, c)
      else
        let c = c\<lparr>cq_revision := Suc (cq_revision c)\<rparr>; (lease, c) = createLease LoadLease (cq_revision c) c
        in (Some lease, c\<lparr>cq_loadLeaseID := Some (rl_id lease)\<rparr>))"

definition completeLoad :: "request_lease \<Rightarrow> request_coordinator \<Rightarrow> nat option \<times> request_coordinator" where
  "completeLoad lease c =
     (if \<not> isCurrentLease lease LoadLease (cq_loadLeaseID c) c then (None, c)
      else (Some (rl_revision lease), c\<lparr>cq_loadLeaseID := None\<rparr>))"

definition releaseLoad :: "request_lease \<Rightarrow> request_coordinator \<Rightarrow> bool \<times> request_coordinator" where
  "releaseLoad lease c =
     (if \<not> isCurrentLease lease LoadLease (cq_loadLeaseID c) c then (False, c)
      else (True, c\<lparr>cq_loadLeaseID := None\<rparr>))"

definition beginSubmission :: "string \<Rightarrow> request_coordinator \<Rightarrow> request_lease option \<times> request_coordinator" where
  "beginSubmission token c =
     (if \<not> cq_active c \<or> token \<noteq> cq_token c \<or> cq_submissionLeaseID c \<noteq> None then (None, c)
      else
        let (lease, c) = createLease SubmissionLease 0 c
        in (Some lease, c\<lparr>cq_submissionLeaseID := Some (rl_id lease)\<rparr>))"

definition completeSubmission :: "request_lease \<Rightarrow> request_coordinator \<Rightarrow> nat option \<times> request_coordinator" where
  "completeSubmission lease c =
     (if \<not> isCurrentLease lease SubmissionLease (cq_submissionLeaseID c) c then (None, c)
      else (Some (Suc (cq_revision c)), c\<lparr>cq_submissionLeaseID := None, cq_revision := Suc (cq_revision c)\<rparr>))"

definition releaseSubmission :: "request_lease \<Rightarrow> request_coordinator \<Rightarrow> bool \<times> request_coordinator" where
  "releaseSubmission lease c =
     (if \<not> isCurrentLease lease SubmissionLease (cq_submissionLeaseID c) c then (False, c)
      else (True, c\<lparr>cq_submissionLeaseID := None\<rparr>))"

subsection \<open>Lemmas\<close>

lemma merge_statuses:
  assumes "mergePaymentCheckout current incoming = returns merged"
  shows "pc_orderStatus merged = max (pc_orderStatus current) (pc_orderStatus incoming)"
    and "pc_checkoutStatus merged = max (pc_checkoutStatus current) (pc_checkoutStatus incoming)"
    and "pc_orderNumber merged = pc_orderNumber current"
    and "is_membership (pc_summary merged) = is_membership (pc_summary current)"
    and "pc_activeTransaction merged = (if payable merged then pc_activeTransaction incoming else None)"
    and "pc_summary merged = pc_summary incoming" and "pc_currency merged = pc_currency incoming"
  using assms
  by (auto simp: mergePaymentCheckout_def Let_def max_def less_eq_order_status_def less_eq_checkout_status_def
      payable_def split: if_splits)

lemma payable_max:
  "mergePaymentCheckout current incoming = returns merged \<Longrightarrow> payable merged \<longleftrightarrow> payable current \<and> payable incoming"
  by (auto simp: payable_def merge_statuses)

lemma mergeCheckoutResponse_cases:
  assumes "mergeCheckoutResponse current incoming revision = returns r"
  obtains (older) "revision < cr_revision current" "r = current"
  | (merged) "cr_revision current \<le> revision" "cr_revision r = revision"
      "mergePaymentCheckout (cr_checkout current) incoming = returns (cr_checkout r)"
  using assms by (auto simp: mergeCheckoutResponse_def and_then_Inr_iff split: if_splits)

lemma applyCheckoutTransaction_iff:
  "applyCheckoutTransaction current t revision = returns r \<longleftrightarrow>
     safe_integer (int revision) \<and> cr_revision current < revision \<and> payable (cr_checkout current) \<and>
     transaction_complete t \<and>
     r = \<lparr>cr_checkout = (cr_checkout current)\<lparr>pc_activeTransaction := Some t\<rparr>, cr_revision = revision\<rparr>"
  by (auto simp: applyCheckoutTransaction_def requireCheckoutRevision_def and_then_Inr_iff split: if_splits)

lemma resolve_restored:
  assumes "resolveCheckoutProviderSelection checkout requested = returns selection"
    and "pc_activeTransaction checkout = Some t"
  shows "payable checkout \<and> transaction_complete t \<and> sel_locked selection \<and>
    sel_selected selection = Some (at_provider t)"
  using assms
  by (auto simp: resolveCheckoutProviderSelection_def restoreActiveCheckoutPayment_def and_then_Inr_iff
      split: if_splits)

lemma selected_is_offered:
  "resolveCheckoutProviderSelection checkout requested = returns selection \<Longrightarrow>
   pred_option (\<lambda>p. p \<in> set (sel_options selection)) (sel_selected selection)"
  by (auto simp: resolveCheckoutProviderSelection_def and_then_Inr_iff split: option.splits list.splits if_splits)

text \<open>A page is final exactly if polling has stopped.\<close>

lemma terminal_iff_not_polling:
  "checkoutTerminalPresentation c = None \<longleftrightarrow> shouldContinueCheckoutPolling c"
  by (cases "pc_orderStatus c"; cases "pc_checkoutStatus c")
    (auto simp: checkoutTerminalPresentation_def shouldContinueCheckoutPolling_def)

subsection \<open>The order and its checkout\<close>

text \<open>
  The checkout the backend made of a frozen order: its summary has the terms of the order's snapshot,
  and the totals of the seats ordered.
\<close>

definition checkout_of_order :: "membership_plan \<Rightarrow> membership_order \<Rightarrow> payment_checkout \<Rightarrow> bool" where
  "checkout_of_order snapshot order checkout \<longleftrightarrow>
     pc_orderNumber checkout = mo_orderNumber order \<and> pc_currency checkout = mo_currency order \<and>
     pc_summary checkout = MembershipSummary
       \<lparr>ms_audience = mp_audience snapshot, ms_code = mp_code snapshot, ms_name = mp_name snapshot,
        ms_tier = mp_tier snapshot, ms_billingCycle = mp_billingCycle snapshot, ms_seats = mo_seats order,
        ms_actualPriceCents = mo_totalPriceCents order,
        ms_originalPriceCents = mp_originalPriceCents snapshot * mo_seats order,
        ms_creditsPerPeriod = mp_creditsPerPeriod snapshot,
        ms_totalCreditsPerPeriod = mp_creditsPerPeriod snapshot * mo_seats order\<rparr>"

lemma consistent_at_checkout:
  assumes "order_consistent i"
  shows "order_consistent (i\<lparr>of_originalUnitPriceCents := None, of_unitPriceCents := None, of_source := CheckoutSource\<rparr>)"
  using assms by (auto simp: order_consistent_def texts_given_def seats_allowed_def shared_evenly_def
      split: order_source.splits)

lemma factsFromOrder_returns:
  assumes "membershipOrderFactsFromOrder json_parse order = returns m"
    and "membershipPlanSnapshotFromOrder json_parse order = returns snapshot"
  defines "i \<equiv> frozen_facts order snapshot (mp_originalPriceCents snapshot * mo_seats order)
                 (mp_creditsPerPeriod snapshot * mo_seats order)"
  shows "order_consistent i"
    and "m = model_of_validated (mp_name snapshot)
           \<lparr>vo_input = i, vo_originalUnitPriceCents = of_originalPriceCents i / of_seats i,
            vo_unitPriceCents = of_totalPriceCents i / of_seats i\<rparr>"
  using assms(1,2) unfolding i_def
  by (auto simp: membershipOrderFactsFromOrder_def and_then_Inr_iff safeProduct_def checkedProduct_iff
      validateMembershipOrderFacts_iff split: if_splits)

text \<open>
  C25. What the order entry shows of a frozen order is what its checkout shows: facts accepted from the
  order are accepted from the checkout the backend made of it, and are the same.
\<close>

theorem order_and_checkout_show_the_same:
  assumes "membershipPlanSnapshotFromOrder json_parse order = returns snapshot"
    and "membershipOrderFactsFromOrder json_parse order = returns m"
    and "checkout_of_order snapshot order checkout"
  shows "membershipOrderFactsFromCheckout checkout = returns m"
proof -
  let ?i = "frozen_facts order snapshot (mp_originalPriceCents snapshot * mo_seats order)
              (mp_creditsPerPeriod snapshot * mo_seats order)"
  obtain facts where facts: "pc_summary checkout = MembershipSummary facts"
    using assms(3) by (auto simp: checkout_of_order_def)
  have s: "summary_facts checkout facts =
      ?i\<lparr>of_originalUnitPriceCents := None, of_unitPriceCents := None, of_source := CheckoutSource\<rparr>"
    using assms(3) facts by (auto simp: summary_facts_def frozen_facts_def checkout_of_order_def)
  have "order_consistent (summary_facts checkout facts)"
    unfolding s by (rule consistent_at_checkout [OF factsFromOrder_returns(1) [OF assms(2,1)]])
  then have "validateMembershipOrderFacts (summary_facts checkout facts) = returns
      \<lparr>vo_input = summary_facts checkout facts,
       vo_originalUnitPriceCents = of_originalPriceCents ?i / of_seats ?i,
       vo_unitPriceCents = of_totalPriceCents ?i / of_seats ?i\<rparr>"
    by (simp add: validateMembershipOrderFacts_iff s)
  then show ?thesis
    using facts assms(3)
    by (auto simp: membershipOrderFactsFromCheckout_def checkoutSummary_def checkout_of_order_def
        factsFromOrder_returns(2) [OF assms(2,1)] model_of_validated_def Let_def frozen_facts_def)
qed

definition sample_order :: membership_order where
  "sample_order = \<lparr>mo_id = ''o'', mo_orderNumber = ''n'', mo_teamId = Some ''t'', mo_planId = ''p'', mo_seats = 3,
     mo_unitPriceCents = 500, mo_totalPriceCents = 1500, mo_currency = ''CNY'', mo_planSnapshotJson = ''s''\<rparr>"

definition sample_snapshot :: json where
  "sample_snapshot = JObj
     [(''audience'', JStr ''team''), (''billingCycle'', JStr ''month''), (''id'', JStr ''p''),
      (''currency'', JStr ''CNY''), (''code'', JStr ''c''), (''creditsPerPeriod'', JNum 7), (''maxSeats'', JNum 9),
      (''minSeats'', JNum 2), (''name'', JStr ''Team''), (''originalPriceCents'', JNum 600),
      (''priceCents'', JNum 500), (''tier'', JStr ''x'')]"

definition sample_terms :: membership_plan where
  "sample_terms = \<lparr>mp_id = ''p'', mp_code = ''c'', mp_name = ''Team'', mp_tier = ''x'', mp_audience = ''team'',
     mp_billingCycle = ''month'', mp_priceCents = 500, mp_originalPriceCents = 600, mp_currency = ''CNY'',
     mp_creditsPerPeriod = 7, mp_minSeats = 2, mp_maxSeats = 9\<rparr>"

definition sample_order_checkout :: payment_checkout where
  "sample_order_checkout = \<lparr>pc_orderNumber = ''n'', pc_orderStatus = PendingOrder, pc_checkoutStatus = ActiveCheckout,
     pc_currency = ''CNY'', pc_serverNow = [], pc_expiresAt = [], pc_providers = [Wechat], pc_activeTransaction = None,
     pc_summary = MembershipSummary \<lparr>ms_audience = ''team'', ms_code = ''c'', ms_name = ''Team'', ms_tier = ''x'',
       ms_billingCycle = ''month'', ms_seats = 3, ms_actualPriceCents = 1500, ms_originalPriceCents = 1800,
       ms_creditsPerPeriod = 7, ms_totalCreditsPerPeriod = 21\<rparr>\<rparr>"

lemmas sample_number_defs = isSafeInteger_def whole_def safe_integer_def js_trim_def js_space_def

lemma sample_terms_read: "membershipPlanSnapshotFromOrder (\<lambda>_. Some sample_snapshot) sample_order = returns sample_terms"
  by (simp add: membershipPlanSnapshotFromOrder_def parse_snapshot_def sample_order_def sample_snapshot_def
      readSnapshotString_def readSnapshotInteger_def readSnapshotPlan_def sample_terms_def sample_number_defs)

lemma sample_order_consistent: "order_consistent (frozen_facts sample_order sample_terms 1800 21)"
  by (simp add: order_consistent_def frozen_facts_def sample_order_def sample_terms_def texts_given_def
      seats_allowed_def shared_evenly_def sample_number_defs)

lemma sample_facts: "\<exists>m. membershipOrderFactsFromOrder (\<lambda>_. Some sample_snapshot) sample_order = returns m"
proof -
  have "checkedProduct f 600 3 = returns 1800" "checkedProduct f 7 3 = returns 21" for f
    using checkedProduct_iff [of 600 3 f 1800] checkedProduct_iff [of 7 3 f 21] by (simp_all add: sample_number_defs)
  moreover obtain v where "validateMembershipOrderFacts (frozen_facts sample_order sample_terms 1800 21) = returns v"
    using sample_order_consistent validateMembershipOrderFacts_iff by blast
  ultimately show ?thesis
    by (simp add: membershipOrderFactsFromOrder_def sample_terms_read safeProduct_def sample_number_defs)
      (simp add: sample_terms_def sample_order_def team_given_def js_trim_def js_space_def)
qed

theorem order_and_checkout_show_the_same_witness:
  "\<exists>m. membershipOrderFactsFromOrder (\<lambda>_. Some sample_snapshot) sample_order = returns m \<and>
     membershipOrderFactsFromCheckout sample_order_checkout = returns m"
proof -
  obtain m where m: "membershipOrderFactsFromOrder (\<lambda>_. Some sample_snapshot) sample_order = returns m"
    using sample_facts by auto
  have "checkout_of_order sample_terms sample_order sample_order_checkout"
    by (simp add: checkout_of_order_def sample_terms_def sample_order_def sample_order_checkout_def)
  then show ?thesis using order_and_checkout_show_the_same [OF sample_terms_read m] m by blast
qed

end
