(* ===== verification/CheckoutPage.thy ===== *)
theory CheckoutPage
  imports Checkout
begin

text \<open>
  The checkout page, the hook part of \<^verbatim>\<open>web/src/pages/payment/payment-checkout-experience.tsx\<close>. The refs
  and the states of React are one record. An operation that waits for an answer is two definitions, and
  the requests whose answers are awaited are lists; an answer is an error or a value. After every event
  the page is rendered, and then the effect that starts the only possible payment runs (\<open>automatic\<close>). The
  callback that tells the parent of a write, and the elements shown, are left out.
\<close>

subsection \<open>The page\<close>

record awaited_submission =
  as_lease :: request_lease
  as_offset :: int \<comment> \<open>\<^verbatim>\<open>serverOffsetMs\<close> as the callback captured it\<close>

record checkout_page =
  pg_mounted :: bool
  pg_left :: bool \<comment> \<open>unmounted: React never mounts an instance again\<close>
  pg_token :: string
  pg_coordinator :: request_coordinator
  pg_state :: "checkout_request_state option" \<comment> \<open>\<^verbatim>\<open>checkoutStateRef\<close>\<close>
  pg_providerRef :: "payment_provider option"
  pg_attempt :: string \<comment> \<open>\<^verbatim>\<open>automaticAttemptRef\<close>\<close>
  pg_load :: checkout_load_state
  pg_provider :: "payment_provider option"
  pg_loading :: bool
  pg_submitting :: bool
  pg_submissionError :: "checkout_error option"
  pg_checkoutSeconds :: int
  pg_paymentSeconds :: int
  pg_offset :: int
  pg_loads :: "request_lease list"
  pg_submissions :: "awaited_submission list"

definition new_page :: checkout_page where
  "new_page = \<lparr>pg_mounted = False, pg_left = False, pg_token = [], pg_coordinator = new_coordinator, pg_state = None,
     pg_providerRef = None, pg_attempt = [], pg_load = createCheckoutLoadState [], pg_provider = None,
     pg_loading = True, pg_submitting = False, pg_submissionError = None, pg_checkoutSeconds = 0,
     pg_paymentSeconds = 0, pg_offset = 0, pg_loads = [], pg_submissions = []\<rparr>"

definition page_checkout :: "checkout_page \<Rightarrow> payment_checkout option" where
  "page_checkout p = visibleCheckoutForToken (pg_load p) (pg_token p)"

text \<open>\<^verbatim>\<open>loadCheckout\<close> up to the request.\<close>

definition load_start :: "checkout_page \<Rightarrow> checkout_page" where
  "load_start p =
     (let (lease, c) = beginLoad (pg_token p) (pg_coordinator p); p = p\<lparr>pg_coordinator := c\<rparr>
      in case lease of None \<Rightarrow> p | Some l \<Rightarrow> p\<lparr>pg_loads := pg_loads p @ [l]\<rparr>)"

record accepted_load =
  al_state :: checkout_request_state
  al_selection :: provider_selection
  al_offset :: int
  al_checkoutSeconds :: int
  al_paymentSeconds :: int

text \<open>What the \<^verbatim>\<open>try\<close> block computes before it completes the request.\<close>

definition accept_load ::
  "date_parser \<Rightarrow> request_lease \<Rightarrow> payment_checkout checkout_result \<Rightarrow> int \<Rightarrow> checkout_page \<Rightarrow>
     accepted_load checkout_result" where
  "accept_load parse_date lease answer receivedAtMs p =
     and_then answer (\<lambda>incoming.
     and_then (checkoutSummary incoming) (\<lambda>_.
     and_then (checkoutServerOffsetMs parse_date (pc_serverNow incoming) receivedAtMs) (\<lambda>offset.
     and_then (case pg_state p of
                 Some current \<Rightarrow> mergeCheckoutResponse current incoming (rl_revision lease)
               | None \<Rightarrow> returns \<lparr>cr_checkout = incoming, cr_revision = rl_revision lease\<rparr>) (\<lambda>acceptedState.
     and_then (resolveCheckoutProviderSelection (cr_checkout acceptedState) (pg_providerRef p)) (\<lambda>selection.
     and_then (checkoutRemainingSeconds parse_date (pc_expiresAt (cr_checkout acceptedState)) offset receivedAtMs)
       (\<lambda>checkoutSeconds.
     and_then (checkoutRemainingSeconds parse_date (checkoutPaymentExpiresAt (cr_checkout acceptedState)) offset
                 receivedAtMs) (\<lambda>paymentSeconds.
       returns \<lparr>al_state = acceptedState, al_selection = selection, al_offset = offset,
         al_checkoutSeconds = checkoutSeconds, al_paymentSeconds = paymentSeconds\<rparr>)))))))"

definition load_finish ::
  "date_parser \<Rightarrow> request_lease \<Rightarrow> payment_checkout checkout_result \<Rightarrow> int \<Rightarrow> checkout_page \<Rightarrow> checkout_page" where
  "load_finish parse_date lease answer receivedAtMs p =
     (case accept_load parse_date lease answer receivedAtMs p of
        Inr a \<Rightarrow>
          let (revision, c) = completeLoad lease (pg_coordinator p); p = p\<lparr>pg_coordinator := c\<rparr>
          in if revision \<noteq> Some (rl_revision lease) then p
             else p\<lparr>pg_state := Some (al_state a), pg_providerRef := sel_selected (al_selection a),
                    pg_provider := sel_selected (al_selection a), pg_offset := al_offset a,
                    pg_checkoutSeconds := al_checkoutSeconds a, pg_paymentSeconds := al_paymentSeconds a,
                    pg_load := checkoutRequestSucceededForToken (pg_load p) (rl_token lease)
                                 (cr_checkout (al_state a)),
                    pg_submissionError :=
                      (if pc_activeTransaction (cr_checkout (al_state a)) \<noteq> None then None
                       else pg_submissionError p),
                    pg_loading := False\<rparr>
      | Inl reason \<Rightarrow>
          let (released, c) = releaseLoad lease (pg_coordinator p); p = p\<lparr>pg_coordinator := c\<rparr>
          in if \<not> released then p
             else p\<lparr>pg_load := checkoutRequestFailedForToken (pg_load p) (rl_token lease) reason,
                    pg_loading := False\<rparr>)"

text \<open>
  The effect that follows the token: the cleanup of the effect before it, then its body.
\<close>

definition page_cleanup :: "checkout_page \<Rightarrow> checkout_page" where
  "page_cleanup p =
     (if pg_mounted p \<and> hasCheckoutToken (pg_token p)
      then p\<lparr>pg_coordinator := coordinator_dispose (pg_coordinator p)\<rparr> else p)"

definition page_reset :: "string \<Rightarrow> checkout_page \<Rightarrow> checkout_page" where
  "page_reset token p =
     p\<lparr>pg_mounted := True, pg_token := token, pg_state := None, pg_providerRef := None, pg_attempt := [],
       pg_load := createCheckoutLoadState token, pg_provider := None, pg_submitting := False,
       pg_submissionError := None, pg_checkoutSeconds := 0, pg_paymentSeconds := 0, pg_offset := 0,
       pg_loading := True\<rparr>"

definition page_enter :: "string \<Rightarrow> checkout_page \<Rightarrow> checkout_page" where
  "page_enter token p =
     (let p = page_reset token (page_cleanup p)
      in if \<not> hasCheckoutToken token
         then p\<lparr>pg_coordinator := coordinator_dispose (pg_coordinator p),
                pg_load := checkoutRequestFailed (createCheckoutLoadState token) TokenMissing,
                pg_loading := False\<rparr>
         else load_start (p\<lparr>pg_coordinator := snd (coordinator_activate token (pg_coordinator p))\<rparr>))"

definition page_leave :: "checkout_page \<Rightarrow> checkout_page" where
  "page_leave p = (page_cleanup p)\<lparr>pg_mounted := False, pg_left := True\<rparr>"

text \<open>The two intervals run while the visible checkout is open.\<close>

definition page_polling :: "checkout_page \<Rightarrow> bool" where
  "page_polling p \<longleftrightarrow> pg_mounted p \<and> pred_option shouldContinueCheckoutPolling (page_checkout p) \<and> page_checkout p \<noteq> None"

definition page_poll :: "checkout_page \<Rightarrow> checkout_page" where
  "page_poll p = (if page_polling p then load_start p else p)"

fun or_keep :: "'a \<Rightarrow> ('e, 'a) result \<Rightarrow> 'a" where
  "or_keep old (Inl e) = old"
| "or_keep old (Inr x) = x"

text \<open>The second call is not reached when the first one throws.\<close>

definition page_tick :: "date_parser \<Rightarrow> int \<Rightarrow> checkout_page \<Rightarrow> checkout_page" where
  "page_tick parse_date now p =
     (case page_checkout p of
        Some c \<Rightarrow>
          if \<not> page_polling p then p
          else
            (case checkoutRemainingSeconds parse_date (pc_expiresAt c) (pg_offset p) now of
               Inl e \<Rightarrow> p
             | Inr s \<Rightarrow>
                 p\<lparr>pg_checkoutSeconds := s,
                   pg_paymentSeconds :=
                     or_keep (pg_paymentSeconds p)
                       (checkoutRemainingSeconds parse_date (checkoutPaymentExpiresAt c) (pg_offset p) now)\<rparr>)
      | None \<Rightarrow> p)"

definition chooseProvider :: "payment_provider \<Rightarrow> checkout_page \<Rightarrow> checkout_page" where
  "chooseProvider candidate p =
     (case page_checkout p of
        None \<Rightarrow> p
      | Some c \<Rightarrow>
          (case selectCheckoutProvider c candidate of
             Inl e \<Rightarrow> p
           | Inr selected \<Rightarrow>
               p\<lparr>pg_providerRef := Some selected, pg_provider := Some selected, pg_submissionError := None\<rparr>))"

text \<open>\<^verbatim>\<open>submitPayment\<close> up to the request, and what follows its answer.\<close>

definition submit_start :: "payment_provider \<Rightarrow> checkout_page \<Rightarrow> checkout_page" where
  "submit_start requested p =
     (case page_checkout p of
        None \<Rightarrow> p
      | Some c \<Rightarrow>
          if \<not> hasCheckoutToken (pg_token p) \<or> pg_checkoutSeconds p \<le> 0 \<or> pc_activeTransaction c \<noteq> None then p
          else
            let (lease, co) = beginSubmission (pg_token p) (pg_coordinator p); p = p\<lparr>pg_coordinator := co\<rparr>
            in (case lease of
                  None \<Rightarrow> p
                | Some l \<Rightarrow>
                    p\<lparr>pg_submitting := True, pg_submissionError := None,
                      pg_submissions := pg_submissions p @ [\<lparr>as_lease = l, as_offset = pg_offset p\<rparr>]\<rparr>))"

text \<open>What is checked before the request is completed.\<close>

definition payable_state :: "active_transaction checkout_result \<Rightarrow> checkout_page \<Rightarrow>
    (active_transaction \<times> checkout_request_state) checkout_result" where
  "payable_state answer p =
     and_then answer (\<lambda>transaction.
     if js_trim (at_codeUrl transaction) = [] then throws NoCodeUrl
     else
       (case pg_state p of
          Some current \<Rightarrow> if \<not> payable (cr_checkout current) then throws NotPayable else returns (transaction, current)
        | None \<Rightarrow> throws NotPayable))"

definition submit_failed :: "checkout_error \<Rightarrow> checkout_page \<Rightarrow> checkout_page" where
  "submit_failed reason p = p\<lparr>pg_submissionError := Some reason, pg_submitting := False\<rparr>"

definition submit_finish ::
  "date_parser \<Rightarrow> awaited_submission \<Rightarrow> active_transaction checkout_result \<Rightarrow> int \<Rightarrow> checkout_page \<Rightarrow> checkout_page" where
  "submit_finish parse_date s answer now p =
     (case payable_state answer p of
        Inl reason \<Rightarrow>
          let (released, c) = releaseSubmission (as_lease s) (pg_coordinator p); p = p\<lparr>pg_coordinator := c\<rparr>
          in if released then submit_failed reason p else p
      | Inr (transaction, current) \<Rightarrow>
          let (revision, c) = completeSubmission (as_lease s) (pg_coordinator p); p = p\<lparr>pg_coordinator := c\<rparr>
          in case revision of
               None \<Rightarrow> p
             | Some r \<Rightarrow>
                 (case applyCheckoutTransaction current transaction r of
                    Inl reason \<Rightarrow> submit_failed reason p
                  | Inr accepted \<Rightarrow>
                      let p = p\<lparr>pg_state := Some accepted, pg_providerRef := Some (at_provider transaction),
                                pg_provider := Some (at_provider transaction)\<rparr>
                      in (case checkoutRemainingSeconds parse_date (at_expiresAt transaction) (as_offset s) now of
                            Inl reason \<Rightarrow> submit_failed reason p
                          | Inr seconds \<Rightarrow>
                              p\<lparr>pg_paymentSeconds := seconds,
                                pg_load := checkoutRequestSucceededForToken (pg_load p) (rl_token (as_lease s))
                                             (cr_checkout accepted),
                                pg_submitting := False\<rparr>)))"

definition automaticProvider :: "checkout_page \<Rightarrow> payment_provider option" where
  "automaticProvider p =
     (case page_checkout p of
        None \<Rightarrow> None
      | Some c \<Rightarrow> or_keep None (automaticPaymentProvider c (pg_provider p) (pg_attempt p = pg_token p)))"

definition automatic :: "checkout_page \<Rightarrow> checkout_page" where
  "automatic p =
     (case automaticProvider p of
        None \<Rightarrow> p
      | Some provider \<Rightarrow> if \<not> pg_mounted p then p else submit_start provider (p\<lparr>pg_attempt := pg_token p\<rparr>))"

datatype page_event =
  Enter string | Leave | Poll | Retry | Tick int | Choose payment_provider | Submit payment_provider
| LoadAnswered nat "payment_checkout checkout_result" int
| SubmissionAnswered nat "active_transaction checkout_result" int

definition drop_nth :: "nat \<Rightarrow> 'a list \<Rightarrow> 'a list" where
  "drop_nth n xs = take n xs @ drop (Suc n) xs"

fun handle_event :: "date_parser \<Rightarrow> checkout_page \<Rightarrow> page_event \<Rightarrow> checkout_page" where
  "handle_event parse_date p (Enter token) = (if pg_left p then p else page_enter token p)"
| "handle_event parse_date p Leave = (if pg_mounted p then page_leave p else p)"
| "handle_event parse_date p Poll = page_poll p"
| "handle_event parse_date p Retry = (if pg_mounted p then load_start p else p)"
| "handle_event parse_date p (Tick now) = page_tick parse_date now p"
| "handle_event parse_date p (Choose provider) = (if pg_mounted p then chooseProvider provider p else p)"
| "handle_event parse_date p (Submit provider) = (if pg_mounted p then submit_start provider p else p)"
| "handle_event parse_date p (LoadAnswered n answer now) =
     (if n < length (pg_loads p)
      then load_finish parse_date (pg_loads p ! n) answer now (p\<lparr>pg_loads := drop_nth n (pg_loads p)\<rparr>) else p)"
| "handle_event parse_date p (SubmissionAnswered n answer now) =
     (if n < length (pg_submissions p)
      then submit_finish parse_date (pg_submissions p ! n) answer now
             (p\<lparr>pg_submissions := drop_nth n (pg_submissions p)\<rparr>) else p)"

definition page_step :: "date_parser \<Rightarrow> checkout_page \<Rightarrow> page_event \<Rightarrow> checkout_page" where
  "page_step parse_date p e = automatic (handle_event parse_date p e)"

definition page_run :: "date_parser \<Rightarrow> page_event list \<Rightarrow> checkout_page" where
  "page_run parse_date es = foldl (page_step parse_date) new_page es"

subsection \<open>The invariant\<close>

text \<open>
  A request is awaited under a lease no newer than the coordinator; the lease the coordinator holds is
  awaited, and belongs to the token of the page. The visible checkout is the known one, up to a
  transaction that could not be shown; a transaction is complete and its checkout can be paid.
\<close>

definition lease_ok :: "request_coordinator \<Rightarrow> request_lease \<Rightarrow> bool" where
  "lease_ok c l \<longleftrightarrow> rl_generation l \<le> cq_generation c \<and>
     (rl_generation l = cq_generation c \<longrightarrow> rl_revision l \<le> cq_revision c)"

definition held :: "request_coordinator \<Rightarrow> lease_kind \<Rightarrow> nat option \<Rightarrow> request_lease list \<Rightarrow> bool" where
  "held c kind active ls \<longleftrightarrow> active = None \<or> list_ex (\<lambda>l. isCurrentLease l kind active c) ls"

definition transaction_ok :: "payment_checkout \<Rightarrow> bool" where
  "transaction_ok c \<longleftrightarrow> pred_option (\<lambda>t. payable c \<and> transaction_complete t) (pc_activeTransaction c)"

definition without_transaction :: "payment_checkout \<Rightarrow> payment_checkout" where
  "without_transaction c = c\<lparr>pc_activeTransaction := None\<rparr>"

definition awaited_ok :: "request_coordinator \<Rightarrow> request_lease list \<Rightarrow> request_lease list \<Rightarrow> bool" where
  "awaited_ok c loads submissions \<longleftrightarrow>
     list_all (lease_ok c) loads \<and> list_all (lease_ok c) submissions \<and>
     held c LoadLease (cq_loadLeaseID c) loads \<and> held c SubmissionLease (cq_submissionLeaseID c) submissions"

definition coordinator_ok :: "checkout_page \<Rightarrow> bool" where
  "coordinator_ok p \<longleftrightarrow>
     awaited_ok (pg_coordinator p) (pg_loads p) (map as_lease (pg_submissions p)) \<and>
     (cq_active (pg_coordinator p) \<longrightarrow>
        pg_mounted p \<and> cq_token (pg_coordinator p) = pg_token p \<and> hasCheckoutToken (pg_token p)) \<and>
     (pg_left p \<longrightarrow> \<not> pg_mounted p)"

definition shown_ok :: "checkout_page \<Rightarrow> bool" where
  "shown_ok p \<longleftrightarrow>
     cl_token (pg_load p) = pg_token p \<and>
     pred_option (\<lambda>s. cr_revision s \<le> cq_revision (pg_coordinator p) \<and> transaction_ok (cr_checkout s)) (pg_state p) \<and>
     pred_option (\<lambda>c. transaction_ok c \<and>
         map_option (\<lambda>s. without_transaction (cr_checkout s)) (pg_state p) = Some (without_transaction c))
       (cl_checkout (pg_load p))"

definition page_ok :: "checkout_page \<Rightarrow> bool" where
  "page_ok p \<longleftrightarrow> coordinator_ok p \<and> shown_ok p"

lemma new_page_ok: "page_ok new_page"
  by (simp add: page_ok_def coordinator_ok_def shown_ok_def awaited_ok_def new_page_def new_coordinator_def held_def
      createCheckoutLoadState_def)

lemma in_drop_nth: "x \<in> set xs \<Longrightarrow> n < length xs \<Longrightarrow> x \<noteq> xs ! n \<Longrightarrow> x \<in> set (drop_nth n xs)"
  by (metis Un_iff drop_nth_def id_take_nth_drop set_ConsD set_append)

lemma set_drop_nth: "set (drop_nth n xs) \<subseteq> set xs"
  by (auto simp: drop_nth_def dest: in_set_takeD in_set_dropD)

lemma list_all_drop_nth: "list_all P xs \<Longrightarrow> list_all P (drop_nth n xs)"
  using set_drop_nth by (fastforce simp: list_all_iff)

lemma map_drop_nth: "map f (drop_nth n xs) = drop_nth n (map f xs)"
  by (simp add: drop_nth_def take_map drop_map)

lemma transaction_ok_iff:
  "transaction_ok c \<longleftrightarrow> (\<forall>t. pc_activeTransaction c = Some t \<longrightarrow> payable c \<and> transaction_complete t)"
  by (auto simp: transaction_ok_def option.pred_set elim: option.set_cases)

lemma resolved_transaction_ok: "resolveCheckoutProviderSelection c r = returns sel \<Longrightarrow> transaction_ok c"
  by (auto simp: transaction_ok_iff dest: resolve_restored)

text \<open>What keeps the generation keeps the leases; a new generation makes all of them old.\<close>

lemma lease_ok_later:
  "lease_ok c l \<Longrightarrow> cq_generation c' = cq_generation c \<Longrightarrow> cq_revision c \<le> cq_revision c' \<Longrightarrow> lease_ok c' l"
  by (auto simp: lease_ok_def)

lemma lease_ok_next: "lease_ok c l \<Longrightarrow> cq_generation c' = Suc (cq_generation c) \<Longrightarrow> lease_ok c' l"
  by (auto simp: lease_ok_def)

lemma held_later:
  "held c kind i ls \<Longrightarrow> set ls \<subseteq> set ls' \<Longrightarrow> cq_generation c' = cq_generation c \<Longrightarrow> cq_active c' = cq_active c \<Longrightarrow>
   cq_token c' = cq_token c \<Longrightarrow> held c' kind i ls'"
  by (auto simp: held_def list_ex_iff isCurrentLease_def)

lemma held_None [simp]: "held c kind None ls"
  by (simp add: held_def)

lemma held_new: "isCurrentLease l kind i c \<Longrightarrow> l \<in> set ls \<Longrightarrow> held c kind i ls"
  by (auto simp: held_def list_ex_iff)

text \<open>An answered request was the one that is held, or that one is still awaited.\<close>

lemma held_drop:
  "held c kind i ls \<Longrightarrow> n < length ls \<Longrightarrow> \<not> isCurrentLease (ls ! n) kind i c \<Longrightarrow> held c kind i (drop_nth n ls)"
  by (auto simp: held_def list_ex_iff) (metis in_drop_nth)

lemma awaited_ok_leases:
  "awaited_ok c loads submissions \<Longrightarrow> cq_generation c' = cq_generation c \<Longrightarrow> cq_revision c \<le> cq_revision c' \<Longrightarrow>
   list_all (lease_ok c') loads \<and> list_all (lease_ok c') submissions"
  by (auto simp: awaited_ok_def list_all_iff intro: lease_ok_later)

lemma beginLoad_awaited:
  assumes "awaited_ok c loads submissions" "beginLoad token c = (lease, c')"
  shows "awaited_ok c' (loads @ (case lease of None \<Rightarrow> [] | Some l \<Rightarrow> [l])) submissions"
    and "cq_active c' = cq_active c" "cq_token c' = cq_token c" "cq_revision c \<le> cq_revision c'"
proof -
  have "awaited_ok c' (loads @ [l]) submissions" if l: "lease = Some l" for l
  proof -
    have c': "c' = c\<lparr>cq_revision := Suc (cq_revision c), cq_nextLeaseID := Suc (cq_nextLeaseID c),
        cq_loadLeaseID := Some (Suc (cq_nextLeaseID c))\<rparr>"
      "isCurrentLease l LoadLease (cq_loadLeaseID c') c'" "cq_submissionLeaseID c = None" "lease_ok c' l"
      using assms(2) l
      by (auto simp: beginLoad_def createLease_def Let_def isCurrentLease_def lease_ok_def split: if_splits)
    then show ?thesis
      using awaited_ok_leases [OF assms(1), of c'] by (auto simp: awaited_ok_def intro: held_new)
  qed
  moreover have "c' = c" if "lease = None" using assms(2) that by (auto simp: beginLoad_def createLease_def Let_def split: if_splits)
  ultimately show "awaited_ok c' (loads @ (case lease of None \<Rightarrow> [] | Some l \<Rightarrow> [l])) submissions" using assms(1) by (cases lease) simp_all
  show "cq_active c' = cq_active c" "cq_token c' = cq_token c" "cq_revision c \<le> cq_revision c'"
    using assms(2) by (auto simp: beginLoad_def createLease_def Let_def split: if_splits)
qed

lemma beginSubmission_awaited:
  assumes "awaited_ok c loads submissions" "beginSubmission token c = (lease, c')"
  shows "awaited_ok c' loads (submissions @ (case lease of None \<Rightarrow> [] | Some l \<Rightarrow> [l]))"
    and "cq_active c' = cq_active c" "cq_token c' = cq_token c" "cq_revision c' = cq_revision c"
proof -
  have "awaited_ok c' loads (submissions @ [l])" if l: "lease = Some l" for l
  proof -
    have c': "c' = c\<lparr>cq_nextLeaseID := Suc (cq_nextLeaseID c), cq_submissionLeaseID := Some (Suc (cq_nextLeaseID c))\<rparr>"
      "isCurrentLease l SubmissionLease (cq_submissionLeaseID c') c'" "lease_ok c' l"
      using assms(2) l
      by (auto simp: beginSubmission_def createLease_def Let_def isCurrentLease_def lease_ok_def split: if_splits)
    have "held c' LoadLease (cq_loadLeaseID c') loads"
      using assms(1) by (auto simp: awaited_ok_def c'(1) intro: held_later)
    then show ?thesis
      using c' awaited_ok_leases [OF assms(1), of c'] by (auto simp: awaited_ok_def intro: held_new)
  qed
  moreover have "c' = c" if "lease = None" using assms(2) that by (auto simp: beginSubmission_def createLease_def Let_def split: if_splits)
  ultimately show "awaited_ok c' loads (submissions @ (case lease of None \<Rightarrow> [] | Some l \<Rightarrow> [l]))" using assms(1) by (cases lease) simp_all
  show "cq_active c' = cq_active c" "cq_token c' = cq_token c" "cq_revision c' = cq_revision c"
    using assms(2) by (auto simp: beginSubmission_def createLease_def Let_def split: if_splits)
qed

text \<open>A request that is answered, whether it is completed, released or too late.\<close>

lemma answered_load_awaited:
  assumes "awaited_ok c loads submissions" "n < length loads"
    and "c' = (if isCurrentLease (loads ! n) LoadLease (cq_loadLeaseID c) c then c\<lparr>cq_loadLeaseID := None\<rparr> else c)"
  shows "awaited_ok c' (drop_nth n loads) submissions"
proof -
  have "lease_ok c' = lease_ok c" by (rule ext) (simp add: assms(3) lease_ok_def)
  moreover have "held c' LoadLease (cq_loadLeaseID c') (drop_nth n loads)"
    using assms by (auto simp: awaited_ok_def intro: held_drop)
  moreover have "held c' SubmissionLease (cq_submissionLeaseID c') submissions"
    using assms(1) by (auto simp: awaited_ok_def assms(3) intro: held_later)
  ultimately show ?thesis using assms(1) by (simp add: awaited_ok_def list_all_drop_nth)
qed

lemma answered_submission_awaited:
  assumes "awaited_ok c loads submissions" "n < length submissions" "cq_revision c \<le> r"
    and "c' = (if isCurrentLease (submissions ! n) SubmissionLease (cq_submissionLeaseID c) c
               then c\<lparr>cq_submissionLeaseID := None, cq_revision := r\<rparr> else c)"
  shows "awaited_ok c' loads (drop_nth n submissions)"
proof -
  have "list_all (lease_ok c') loads \<and> list_all (lease_ok c') submissions"
    using assms(3) by (intro awaited_ok_leases [OF assms(1)]) (simp_all add: assms(4))
  moreover have "held c' SubmissionLease (cq_submissionLeaseID c') (drop_nth n submissions)"
    using assms by (auto simp: awaited_ok_def intro: held_drop)
  moreover have "held c' LoadLease (cq_loadLeaseID c') loads"
    using assms(1) by (auto simp: awaited_ok_def assms(4) intro: held_later)
  ultimately show ?thesis by (simp add: awaited_ok_def list_all_drop_nth)
qed

lemma next_generation_awaited:
  "awaited_ok c loads submissions \<Longrightarrow> cq_generation c' = Suc (cq_generation c) \<Longrightarrow> cq_loadLeaseID c' = None \<Longrightarrow>
   cq_submissionLeaseID c' = None \<Longrightarrow> awaited_ok c' loads submissions"
  by (auto simp: awaited_ok_def list_all_iff intro: lease_ok_next)

text \<open>Requests begin.\<close>

lemma load_start_fields [simp]:
  "pg_mounted (load_start p) = pg_mounted p" "pg_left (load_start p) = pg_left p"
  "pg_token (load_start p) = pg_token p" "pg_state (load_start p) = pg_state p"
  "pg_load (load_start p) = pg_load p" "pg_submissions (load_start p) = pg_submissions p"
  "pg_attempt (load_start p) = pg_attempt p" "pg_provider (load_start p) = pg_provider p"
  by (simp_all add: load_start_def Let_def split: prod.split option.split)

lemma load_start_coordinator:
  "\<exists>lease. beginLoad (pg_token p) (pg_coordinator p) = (lease, pg_coordinator (load_start p)) \<and>
     pg_loads (load_start p) = pg_loads p @ (case lease of None \<Rightarrow> [] | Some l \<Rightarrow> [l])"
  by (cases "beginLoad (pg_token p) (pg_coordinator p)") (auto simp: load_start_def Let_def split: option.split)

lemma load_start_ok:
  assumes "page_ok p"
  shows "page_ok (load_start p)"
proof -
  obtain lease where l: "beginLoad (pg_token p) (pg_coordinator p) = (lease, pg_coordinator (load_start p))"
    "pg_loads (load_start p) = pg_loads p @ (case lease of None \<Rightarrow> [] | Some l \<Rightarrow> [l])"
    using load_start_coordinator by blast
  have "coordinator_ok p" "shown_ok p" using assms by (simp_all add: page_ok_def)
  note b = beginLoad_awaited [OF _ l(1)]
  have "coordinator_ok (load_start p)" using \<open>coordinator_ok p\<close> b by (auto simp: coordinator_ok_def l(2))
  moreover have "shown_ok (load_start p)"
    using \<open>shown_ok p\<close> \<open>coordinator_ok p\<close> b(4)
    by (auto simp: shown_ok_def coordinator_ok_def elim!: option.pred_mono_strong intro: le_trans)
  ultimately show ?thesis by (simp add: page_ok_def)
qed

lemma submit_start_fields [simp]:
  "pg_mounted (submit_start r p) = pg_mounted p" "pg_left (submit_start r p) = pg_left p"
  "pg_token (submit_start r p) = pg_token p" "pg_state (submit_start r p) = pg_state p"
  "pg_load (submit_start r p) = pg_load p" "pg_loads (submit_start r p) = pg_loads p"
  "pg_attempt (submit_start r p) = pg_attempt p" "pg_provider (submit_start r p) = pg_provider p"
  by (simp_all add: submit_start_def Let_def split: prod.split option.split)

lemma submit_start_coordinator:
  "submit_start r p = p \<or>
   (\<exists>lease. beginSubmission (pg_token p) (pg_coordinator p) = (lease, pg_coordinator (submit_start r p)) \<and>
      map as_lease (pg_submissions (submit_start r p)) =
        map as_lease (pg_submissions p) @ (case lease of None \<Rightarrow> [] | Some l \<Rightarrow> [l]))"
  by (cases "beginSubmission (pg_token p) (pg_coordinator p)")
    (auto simp: submit_start_def Let_def split: option.splits)

lemma submit_start_ok:
  assumes "page_ok p"
  shows "page_ok (submit_start r p)"
proof -
  have ok: "coordinator_ok p" "shown_ok p" using assms by (simp_all add: page_ok_def)
  consider "submit_start r p = p"
    | lease where "beginSubmission (pg_token p) (pg_coordinator p) = (lease, pg_coordinator (submit_start r p))"
      "map as_lease (pg_submissions (submit_start r p)) =
        map as_lease (pg_submissions p) @ (case lease of None \<Rightarrow> [] | Some l \<Rightarrow> [l])"
    using submit_start_coordinator by blast
  then show ?thesis
  proof cases
    case 2
    note b = beginSubmission_awaited [OF _ 2(1)]
    have "coordinator_ok (submit_start r p)" using ok(1) b by (auto simp: coordinator_ok_def 2(2))
    moreover have "shown_ok (submit_start r p)" using ok b(4) by (auto simp: shown_ok_def coordinator_ok_def)
    ultimately show ?thesis by (simp add: page_ok_def)
  qed (use assms in simp)
qed

lemma attempted_ok: "page_ok p \<Longrightarrow> page_ok (p\<lparr>pg_attempt := a\<rparr>)"
  by (simp add: page_ok_def coordinator_ok_def shown_ok_def)

lemma automatic_ok: "page_ok p \<Longrightarrow> page_ok (automatic p)"
  by (simp add: automatic_def submit_start_ok attempted_ok split: option.split)

text \<open>The page is entered and left.\<close>

lemma page_leave_ok:
  assumes "page_ok p" "pg_mounted p"
  shows "page_ok (page_leave p)"
proof -
  let ?c = "pg_coordinator p"
  have a: "awaited_ok ?c (pg_loads p) (map as_lease (pg_submissions p))"
    and t: "cq_active ?c \<Longrightarrow> hasCheckoutToken (pg_token p)"
    using assms(1) by (auto simp: page_ok_def coordinator_ok_def)
  have "awaited_ok (coordinator_dispose ?c) (pg_loads p) (map as_lease (pg_submissions p))"
    by (rule next_generation_awaited [OF a]) (simp_all add: coordinator_dispose_def)
  moreover have "\<not> cq_active (coordinator_dispose ?c)" "cq_revision (coordinator_dispose ?c) = cq_revision ?c"
    by (simp_all add: coordinator_dispose_def)
  ultimately show ?thesis
    using assms a t
    by (auto simp: page_leave_def page_cleanup_def page_ok_def coordinator_ok_def shown_ok_def)
qed

lemma page_enter_ok:
  assumes "page_ok p" "\<not> pg_left p"
  shows "page_ok (page_enter token p)"
proof -
  let ?p = "page_reset token (page_cleanup p)"
  have kept: "pg_loads ?p = pg_loads p" "pg_submissions ?p = pg_submissions p" "\<not> pg_left ?p"
    using assms(2) by (simp_all add: page_reset_def page_cleanup_def)
  have a: "awaited_ok (pg_coordinator ?p) (pg_loads p) (map as_lease (pg_submissions p))"
    using assms next_generation_awaited [of "pg_coordinator p" _ _ "coordinator_dispose (pg_coordinator p)"]
    by (simp add: page_reset_def page_cleanup_def page_ok_def coordinator_ok_def coordinator_dispose_def)
  show ?thesis
  proof (cases "hasCheckoutToken token")
    case True
    have "awaited_ok (snd (coordinator_activate token (pg_coordinator ?p))) (pg_loads p)
        (map as_lease (pg_submissions p))"
      by (rule next_generation_awaited [OF a]) (simp_all add: coordinator_activate_def True)
    then have "page_ok (?p\<lparr>pg_coordinator := snd (coordinator_activate token (pg_coordinator ?p))\<rparr>)"
      using True by (simp add: page_ok_def coordinator_ok_def shown_ok_def kept)
        (simp add: page_reset_def coordinator_activate_def createCheckoutLoadState_def)
    then show ?thesis using True by (simp add: page_enter_def Let_def load_start_ok)
  next
    case False
    have "awaited_ok (coordinator_dispose (pg_coordinator ?p)) (pg_loads p) (map as_lease (pg_submissions p))"
      by (rule next_generation_awaited [OF a]) (simp_all add: coordinator_dispose_def)
    then show ?thesis
      using False
      by (simp add: page_enter_def Let_def page_ok_def coordinator_ok_def shown_ok_def kept)
        (simp add: page_reset_def coordinator_dispose_def createCheckoutLoadState_def checkoutRequestFailed_def)
  qed
qed

text \<open>Answers to loads.\<close>

definition load_is_current :: "checkout_page \<Rightarrow> request_lease \<Rightarrow> bool" where
  "load_is_current p lease \<longleftrightarrow>
     isCurrentLease lease LoadLease (cq_loadLeaseID (pg_coordinator p)) (pg_coordinator p)"

definition load_freed :: "checkout_page \<Rightarrow> checkout_page" where
  "load_freed p = p\<lparr>pg_coordinator := (pg_coordinator p)\<lparr>cq_loadLeaseID := None\<rparr>\<rparr>"

lemma load_finish_late: "\<not> load_is_current p lease \<Longrightarrow> load_finish parse_date lease answer now p = p"
  by (simp add: load_finish_def load_is_current_def completeLoad_def releaseLoad_def split: sum.split)

lemma load_finish_current:
  assumes "load_is_current p lease"
  shows "load_finish parse_date lease answer now p =
    (case accept_load parse_date lease answer now p of
       Inl reason \<Rightarrow>
         (load_freed p)\<lparr>pg_load := checkoutRequestFailedForToken (pg_load p) (rl_token lease) reason, pg_loading := False\<rparr>
     | Inr a \<Rightarrow>
         (load_freed p)\<lparr>pg_state := Some (al_state a), pg_providerRef := sel_selected (al_selection a),
           pg_provider := sel_selected (al_selection a), pg_offset := al_offset a,
           pg_checkoutSeconds := al_checkoutSeconds a, pg_paymentSeconds := al_paymentSeconds a,
           pg_load := checkoutRequestSucceededForToken (pg_load p) (rl_token lease) (cr_checkout (al_state a)),
           pg_submissionError :=
             (if pc_activeTransaction (cr_checkout (al_state a)) \<noteq> None then None else pg_submissionError p),
           pg_loading := False\<rparr>)"
  using assms
  by (simp add: load_finish_def load_is_current_def load_freed_def completeLoad_def releaseLoad_def split: sum.split)

lemma accept_load_returns:
  assumes "accept_load parse_date lease answer now p = returns a"
  shows "transaction_ok (cr_checkout (al_state a))"
    and "\<exists>incoming. answer = returns incoming \<and>
      (case pg_state p of
         None \<Rightarrow> al_state a = \<lparr>cr_checkout = incoming, cr_revision = rl_revision lease\<rparr>
       | Some current \<Rightarrow> mergeCheckoutResponse current incoming (rl_revision lease) = returns (al_state a))"
proof -
  obtain incoming selection where i: "answer = returns incoming"
    "(case pg_state p of
        Some current \<Rightarrow> mergeCheckoutResponse current incoming (rl_revision lease)
      | None \<Rightarrow> returns \<lparr>cr_checkout = incoming, cr_revision = rl_revision lease\<rparr>) = returns (al_state a)"
    "resolveCheckoutProviderSelection (cr_checkout (al_state a)) (pg_providerRef p) = returns selection"
    using assms by (auto simp: accept_load_def and_then_Inr_iff)
  show "transaction_ok (cr_checkout (al_state a))" by (rule resolved_transaction_ok [OF i(3)])
  show "\<exists>incoming. answer = returns incoming \<and>
      (case pg_state p of
         None \<Rightarrow> al_state a = \<lparr>cr_checkout = incoming, cr_revision = rl_revision lease\<rparr>
       | Some current \<Rightarrow> mergeCheckoutResponse current incoming (rl_revision lease) = returns (al_state a))"
    using i(1,2) by (cases "pg_state p") auto
qed

lemma accept_load_revision:
  assumes "accept_load parse_date lease answer now p = returns a"
    and "pred_option (\<lambda>s. cr_revision s \<le> r) (pg_state p)" "rl_revision lease \<le> r"
  shows "cr_revision (al_state a) \<le> r"
  using accept_load_returns(2) [OF assms(1)] assms(2,3)
  by (cases "pg_state p") (auto elim!: mergeCheckoutResponse_cases)

lemma current_lease_revision: "isCurrentLease l kind i c \<Longrightarrow> lease_ok c l \<Longrightarrow> rl_revision l \<le> cq_revision c"
  by (simp add: isCurrentLease_def lease_ok_def)

lemma current_lease_token:
  "isCurrentLease l kind i c \<Longrightarrow> cq_active c \<and> rl_token l = cq_token c"
  by (simp add: isCurrentLease_def)

lemma load_finish_ok:
  assumes "page_ok p" "n < length (pg_loads p)"
  shows "page_ok (load_finish parse_date (pg_loads p ! n) answer now (p\<lparr>pg_loads := drop_nth n (pg_loads p)\<rparr>))"
    (is "page_ok (load_finish _ ?l _ _ ?p)")
proof -
  let ?c = "pg_coordinator p"
  have ok: "awaited_ok ?c (pg_loads p) (map as_lease (pg_submissions p))"
    "cq_active ?c \<longrightarrow> pg_mounted p \<and> cq_token ?c = pg_token p \<and> hasCheckoutToken (pg_token p)" "shown_ok p"
    "pg_left p \<longrightarrow> \<not> pg_mounted p"
    using assms(1) by (simp_all add: page_ok_def coordinator_ok_def)
  have lease: "lease_ok ?c ?l" using ok(1) assms(2) by (simp add: awaited_ok_def list_all_length)
  note aw = answered_load_awaited [OF ok(1) assms(2)]
  show ?thesis
  proof (cases "load_is_current ?p ?l")
    case False
    then show ?thesis
      using ok aw [of ?c] by (simp add: load_finish_late page_ok_def coordinator_ok_def shown_ok_def load_is_current_def)
  next
    case True
    then have cur: "rl_revision ?l \<le> cq_revision ?c" "rl_token ?l = pg_token p"
      using current_lease_revision [OF _ lease] current_lease_token [of ?l] ok(2) by (auto simp: load_is_current_def)
    have freed: "coordinator_ok (load_freed ?p)"
      using True ok aw [of "?c\<lparr>cq_loadLeaseID := None\<rparr>"]
      by (simp add: coordinator_ok_def load_freed_def load_is_current_def)
    show ?thesis
    proof (cases "accept_load parse_date ?l answer now ?p")
      case (Inl reason)
      then show ?thesis
        using ok freed cur
        by (auto simp: load_finish_current [OF True] page_ok_def coordinator_ok_def shown_ok_def load_freed_def
            checkoutRequestFailedForToken_def checkoutRequestFailed_def)
    next
      case (Inr a)
      have "cr_revision (al_state a) \<le> cq_revision ?c"
        by (rule accept_load_revision [OF Inr _ cur(1)]) (use ok(3) in \<open>auto simp: shown_ok_def elim: option.pred_mono_strong\<close>)
      moreover have "transaction_ok (cr_checkout (al_state a))" by (rule accept_load_returns(1) [OF Inr])
      ultimately show ?thesis
        using ok freed cur Inr
        by (auto simp: load_finish_current [OF True] page_ok_def coordinator_ok_def shown_ok_def load_freed_def
            checkoutRequestSucceededForToken_def checkoutRequestSucceeded_def)
    qed
  qed
qed

text \<open>Answers to submissions.\<close>

definition submission_is_current :: "checkout_page \<Rightarrow> request_lease \<Rightarrow> bool" where
  "submission_is_current p lease \<longleftrightarrow>
     isCurrentLease lease SubmissionLease (cq_submissionLeaseID (pg_coordinator p)) (pg_coordinator p)"

definition submission_freed :: "nat \<Rightarrow> checkout_page \<Rightarrow> checkout_page" where
  "submission_freed r p =
     p\<lparr>pg_coordinator := (pg_coordinator p)\<lparr>cq_submissionLeaseID := None, cq_revision := r\<rparr>\<rparr>"

lemma submit_finish_late: "\<not> submission_is_current p (as_lease s) \<Longrightarrow> submit_finish parse_date s answer now p = p"
  by (auto simp: submit_finish_def submission_is_current_def completeSubmission_def releaseSubmission_def
      split: sum.split)

definition transaction_taken ::
  "date_parser \<Rightarrow> awaited_submission \<Rightarrow> active_transaction \<Rightarrow> checkout_request_state \<Rightarrow> int \<Rightarrow> checkout_page \<Rightarrow> checkout_page" where
  "transaction_taken parse_date s transaction accepted now p =
     (let p = p\<lparr>pg_state := Some accepted, pg_providerRef := Some (at_provider transaction),
                pg_provider := Some (at_provider transaction)\<rparr>
      in (case checkoutRemainingSeconds parse_date (at_expiresAt transaction) (as_offset s) now of
            Inl reason \<Rightarrow> submit_failed reason p
          | Inr seconds \<Rightarrow>
              p\<lparr>pg_paymentSeconds := seconds,
                pg_load := checkoutRequestSucceededForToken (pg_load p) (rl_token (as_lease s)) (cr_checkout accepted),
                pg_submitting := False\<rparr>))"

lemma submit_finish_current:
  assumes "submission_is_current p (as_lease s)"
  shows "submit_finish parse_date s answer now p =
    (case payable_state answer p of
       Inl reason \<Rightarrow> submit_failed reason (submission_freed (cq_revision (pg_coordinator p)) p)
     | Inr (transaction, current) \<Rightarrow>
         let p' = submission_freed (Suc (cq_revision (pg_coordinator p))) p
         in (case applyCheckoutTransaction current transaction (Suc (cq_revision (pg_coordinator p))) of
               Inl reason \<Rightarrow> submit_failed reason p'
             | Inr accepted \<Rightarrow> transaction_taken parse_date s transaction accepted now p'))"
  using assms
  by (simp add: submit_finish_def submission_is_current_def submission_freed_def completeSubmission_def
      releaseSubmission_def transaction_taken_def Let_def split: sum.split)

lemma payable_state_returns:
  "payable_state answer p = returns (t, current) \<longleftrightarrow>
     answer = returns t \<and> js_trim (at_codeUrl t) \<noteq> [] \<and> pg_state p = Some current \<and> payable (cr_checkout current)"
  by (auto simp: payable_state_def and_then_Inr_iff split: option.splits if_splits)

lemma apply_transaction_ok:
  "applyCheckoutTransaction current t r = returns accepted \<Longrightarrow> transaction_ok (cr_checkout accepted) \<and>
   without_transaction (cr_checkout accepted) = without_transaction (cr_checkout current)"
  by (auto simp: applyCheckoutTransaction_iff transaction_ok_def without_transaction_def payable_def)

lemma submission_freed_ok:
  assumes "page_ok p" "n < length (pg_submissions p)" "cq_revision (pg_coordinator p) \<le> r"
    and "submission_is_current p (as_lease (pg_submissions p ! n))"
  shows "page_ok (submission_freed r (p\<lparr>pg_submissions := drop_nth n (pg_submissions p)\<rparr>))"
proof -
  let ?c = "pg_coordinator p"
  have "awaited_ok (?c\<lparr>cq_submissionLeaseID := None, cq_revision := r\<rparr>) (pg_loads p)
      (drop_nth n (map as_lease (pg_submissions p)))"
    by (rule answered_submission_awaited [OF _ _ assms(3)])
      (use assms in \<open>simp_all add: page_ok_def coordinator_ok_def submission_is_current_def\<close>)
  then show ?thesis
    using assms(1,3)
    by (auto simp: page_ok_def coordinator_ok_def shown_ok_def submission_freed_def map_drop_nth
        elim!: option.pred_mono_strong intro: le_trans)
qed

lemma submit_failed_ok: "page_ok p \<Longrightarrow> page_ok (submit_failed reason p)"
  by (simp add: submit_failed_def page_ok_def coordinator_ok_def shown_ok_def)

text \<open>
  A transaction that is taken: the time may be unreadable, and then only the visible checkout stays behind.
\<close>

lemma transaction_taken_ok:
  assumes "page_ok p" "pg_state p = Some current" "rl_token (as_lease s) = pg_token p"
    and "applyCheckoutTransaction current t (cq_revision (pg_coordinator p)) = returns accepted"
  shows "page_ok (transaction_taken parse_date s t accepted now p)"
  using assms(1-3) apply_transaction_ok [OF assms(4)] assms(4)
  by (auto simp: transaction_taken_def Let_def submit_failed_def page_ok_def coordinator_ok_def shown_ok_def
      applyCheckoutTransaction_iff checkoutRequestSucceededForToken_def checkoutRequestSucceeded_def split: sum.split)

lemma submit_finish_ok:
  assumes "page_ok p" "n < length (pg_submissions p)"
  shows "page_ok (submit_finish parse_date (pg_submissions p ! n) answer now
    (p\<lparr>pg_submissions := drop_nth n (pg_submissions p)\<rparr>))" (is "page_ok (submit_finish _ ?s _ _ ?p)")
proof (cases "submission_is_current ?p (as_lease ?s)")
  case False
  have "awaited_ok (pg_coordinator p) (pg_loads p) (drop_nth n (map as_lease (pg_submissions p)))"
    by (rule answered_submission_awaited [where c = "pg_coordinator p", OF _ _ le_refl])
      (use assms False in \<open>simp_all add: page_ok_def coordinator_ok_def submission_is_current_def\<close>)
  then show ?thesis
    using assms(1) False
    by (simp add: submit_finish_late page_ok_def coordinator_ok_def shown_ok_def map_drop_nth)
next
  case True
  then have cur: "submission_is_current p (as_lease ?s)" by (simp add: submission_is_current_def)
  have token: "rl_token (as_lease ?s) = pg_token p"
    using cur assms(1) by (auto simp: submission_is_current_def page_ok_def coordinator_ok_def dest: current_lease_token)
  note freed = submission_freed_ok [OF assms _ cur]
  show ?thesis
  proof (cases "payable_state answer ?p")
    case (Inl reason)
    then show ?thesis
      using freed [OF le_refl] by (simp add: submit_finish_current [OF True] submit_failed_ok)
  next
    case (Inr tc)
    obtain t current where tc: "tc = (t, current)" by (cases tc)
    then have st: "pg_state p = Some current" using Inr by (simp add: payable_state_returns)
    let ?r = "Suc (cq_revision (pg_coordinator p))"
    have "page_ok (submission_freed ?r ?p)" by (rule freed) simp
    then show ?thesis
      using Inr tc st token
      by (cases "applyCheckoutTransaction current t ?r")
        (auto simp: submit_finish_current [OF True] Let_def submit_failed_ok submission_freed_def
          intro!: transaction_taken_ok)
  qed
qed

text \<open>The parts the invariant and the history of the page are about.\<close>

definition same_core :: "checkout_page \<Rightarrow> checkout_page \<Rightarrow> bool" where
  "same_core p q \<longleftrightarrow>
     pg_mounted p = pg_mounted q \<and> pg_left p = pg_left q \<and> pg_token p = pg_token q \<and>
     pg_coordinator p = pg_coordinator q \<and> pg_state p = pg_state q \<and> pg_load p = pg_load q \<and>
     pg_loads p = pg_loads q \<and> pg_submissions p = pg_submissions q"

lemma same_core_ok: "same_core p q \<Longrightarrow> page_ok p \<Longrightarrow> page_ok q"
  by (simp add: same_core_def page_ok_def coordinator_ok_def shown_ok_def)

lemma page_tick_core: "same_core p (page_tick parse_date now p)"
  by (simp add: same_core_def page_tick_def split: option.split sum.split)

lemma chooseProvider_core: "same_core p (chooseProvider provider p)"
  by (simp add: same_core_def chooseProvider_def split: option.split sum.split)

lemma page_tick_ok: "page_ok p \<Longrightarrow> page_ok (page_tick parse_date now p)"
  by (rule same_core_ok [OF page_tick_core])

lemma chooseProvider_ok: "page_ok p \<Longrightarrow> page_ok (chooseProvider provider p)"
  by (rule same_core_ok [OF chooseProvider_core])

lemma handle_event_ok: "page_ok p \<Longrightarrow> page_ok (handle_event parse_date p e)"
  by (cases e) (simp_all add: page_enter_ok page_leave_ok page_poll_def load_start_ok page_tick_ok chooseProvider_ok
      submit_start_ok load_finish_ok submit_finish_ok)

lemma page_step_ok: "page_ok p \<Longrightarrow> page_ok (page_step parse_date p e)"
  by (simp add: page_step_def handle_event_ok automatic_ok)

interpretation checkout_page: machine "page_step parse_date" page_ok for parse_date
  by unfold_locales (rule page_step_ok)

lemma page_run_ok: "page_ok (page_run parse_date es)"
  unfolding page_run_def by (rule checkout_page.run_inv) (rule new_page_ok)

subsection \<open>What is known only grows\<close>

text \<open>
  A machine with a preorder on its states that the allowed events follow.
\<close>

locale forward_machine = machine step inv
  for step :: "'s \<Rightarrow> 'e \<Rightarrow> 's" and inv :: "'s \<Rightarrow> bool" +
  fixes allowed :: "'e \<Rightarrow> bool"
    and before :: "'s \<Rightarrow> 's \<Rightarrow> bool"
  assumes before_refl: "before s s"
    and before_trans: "before s t \<Longrightarrow> before t u \<Longrightarrow> before s u"
    and step_before: "inv s \<Longrightarrow> allowed e \<Longrightarrow> before s (step s e)"
begin

lemma run_before: "inv s \<Longrightarrow> list_all allowed es \<Longrightarrow> before s (foldl step s es)"
proof (induction es arbitrary: s)
  case (Cons e es)
  then have "before s (step s e)" "before (step s e) (foldl step (step s e) es)"
    by (auto intro: step_before step_inv)
  then show ?case by (auto intro: before_trans)
qed (simp add: before_refl)

end

text \<open>A later view of the same order: no status goes back.\<close>

definition follows :: "payment_checkout \<Rightarrow> payment_checkout \<Rightarrow> bool" where
  "follows c c' \<longleftrightarrow> pc_orderNumber c' = pc_orderNumber c \<and> pc_orderStatus c \<le> pc_orderStatus c' \<and>
     pc_checkoutStatus c \<le> pc_checkoutStatus c'"

definition state_follows :: "checkout_request_state \<Rightarrow> checkout_request_state \<Rightarrow> bool" where
  "state_follows s s' \<longleftrightarrow> cr_revision s \<le> cr_revision s' \<and> follows (cr_checkout s) (cr_checkout s')"

definition page_follows :: "checkout_page \<Rightarrow> checkout_page \<Rightarrow> bool" where
  "page_follows p q \<longleftrightarrow>
     pg_token q = pg_token p \<and> cq_generation (pg_coordinator p) \<le> cq_generation (pg_coordinator q) \<and>
     pred_option (\<lambda>s. pg_state q \<noteq> None \<and> pred_option (state_follows s) (pg_state q)) (pg_state p) \<and>
     (cl_checkout (pg_load p) \<noteq> None \<longrightarrow> cl_checkout (pg_load q) \<noteq> None)"

fun stays :: "page_event \<Rightarrow> bool" where
  "stays (Enter token) = False"
| "stays _ = True"

lemma follows_refl [simp]: "follows c c"
  by (simp add: follows_def)

lemma state_follows_refl [simp]: "state_follows s s"
  by (simp add: state_follows_def)

lemma state_follows_trans: "state_follows s t \<Longrightarrow> state_follows t u \<Longrightarrow> state_follows s u"
  by (auto simp: state_follows_def follows_def)

lemma page_follows_refl: "page_follows p p"
  by (simp add: page_follows_def option.pred_set)

lemma page_follows_trans: "page_follows p q \<Longrightarrow> page_follows q r \<Longrightarrow> page_follows p r"
  by (cases "pg_state p"; cases "pg_state q"; cases "pg_state r")
    (auto simp: page_follows_def intro: state_follows_trans)

lemma same_view_follows:
  "pg_token q = pg_token p \<Longrightarrow> cq_generation (pg_coordinator p) \<le> cq_generation (pg_coordinator q) \<Longrightarrow>
   pg_state q = pg_state p \<Longrightarrow> pg_load q = pg_load p \<Longrightarrow> page_follows p q"
  by (cases "pg_state p") (simp_all add: page_follows_def)

lemma merge_follows:
  "mergeCheckoutResponse current incoming r = returns s \<Longrightarrow> state_follows current s"
  by (elim mergeCheckoutResponse_cases) (auto simp: state_follows_def follows_def dest: merge_statuses)

lemma apply_follows: "applyCheckoutTransaction current t r = returns s \<Longrightarrow> state_follows current s"
  by (auto simp: applyCheckoutTransaction_iff state_follows_def follows_def)

lemma beginLoad_generation: "cq_generation (snd (beginLoad token c)) = cq_generation c"
  by (simp add: beginLoad_def createLease_def Let_def)

lemma beginSubmission_generation: "cq_generation (snd (beginSubmission token c)) = cq_generation c"
  by (simp add: beginSubmission_def createLease_def Let_def)

lemma load_start_generation [simp]:
  "cq_generation (pg_coordinator (load_start p)) = cq_generation (pg_coordinator p)"
  using load_start_coordinator [of p] beginLoad_generation [of "pg_token p" "pg_coordinator p"] by auto

lemma submit_start_generation [simp]:
  "cq_generation (pg_coordinator (submit_start r p)) = cq_generation (pg_coordinator p)"
  using submit_start_coordinator [of r p] beginSubmission_generation [of "pg_token p" "pg_coordinator p"] by auto

lemma automatic_follows: "page_follows p (automatic p)"
  by (rule same_view_follows) (simp_all add: automatic_def split: option.split)

lemma page_leave_follows: "page_follows p (page_leave p)"
  by (rule same_view_follows) (simp_all add: page_leave_def page_cleanup_def coordinator_dispose_def)

lemma same_core_follows: "same_core p q \<Longrightarrow> page_follows p q"
  by (rule same_view_follows) (simp_all add: same_core_def)

lemma load_finish_follows: "page_follows p (load_finish parse_date lease answer now p)"
proof (cases "load_is_current p lease")
  case True
  show ?thesis
  proof (cases "accept_load parse_date lease answer now p")
    case (Inl reason)
    then show ?thesis
      by (cases "pg_state p")
        (auto simp: load_finish_current [OF True] page_follows_def load_freed_def checkoutRequestFailedForToken_def
          checkoutRequestFailed_def)
  next
    case (Inr a)
    have "pred_option (\<lambda>s. state_follows s (al_state a)) (pg_state p)"
      using accept_load_returns(2) [OF Inr] by (cases "pg_state p") (auto intro: merge_follows)
    then show ?thesis
      using Inr
      by (auto simp: load_finish_current [OF True] page_follows_def load_freed_def
          checkoutRequestSucceededForToken_def checkoutRequestSucceeded_def)
  qed
qed (simp add: load_finish_late page_follows_refl)

lemma transaction_taken_follows:
  assumes "pg_state p = Some current" "applyCheckoutTransaction current t r = returns accepted"
  shows "page_follows p (transaction_taken parse_date s t accepted now p)"
  using assms(1) apply_follows [OF assms(2)]
  by (auto simp: page_follows_def transaction_taken_def Let_def submit_failed_def checkoutRequestSucceededForToken_def
      checkoutRequestSucceeded_def split: sum.split)

lemma submit_finish_follows: "page_follows p (submit_finish parse_date s answer now p)"
proof (cases "submission_is_current p (as_lease s)")
  case True
  have freed: "page_follows p (submission_freed r p)" for r
    by (rule same_view_follows) (simp_all add: submission_freed_def)
  have failed: "page_follows p (submit_failed reason (submission_freed r p))" for r reason
    by (rule same_view_follows) (simp_all add: submission_freed_def submit_failed_def)
  show ?thesis
  proof (cases "payable_state answer p")
    case (Inl reason)
    then show ?thesis by (simp add: submit_finish_current [OF True] failed)
  next
    case (Inr tc)
    obtain t current where tc: "tc = (t, current)" by (cases tc)
    then have st: "pg_state (submission_freed r p) = Some current" for r
      using Inr by (simp add: payable_state_returns submission_freed_def)
    let ?r = "Suc (cq_revision (pg_coordinator p))"
    show ?thesis
    proof (cases "applyCheckoutTransaction current t ?r")
      case (Inl reason)
      then show ?thesis using Inr tc by (simp add: submit_finish_current [OF True] Let_def failed)
    next
      case taken: (Inr accepted)
      have "page_follows p (transaction_taken parse_date s t accepted now (submission_freed ?r p))"
        by (rule page_follows_trans [OF freed transaction_taken_follows [OF st taken]])
      then show ?thesis using Inr taken tc by (simp add: submit_finish_current [OF True] Let_def)
    qed
  qed
qed (simp add: submit_finish_late page_follows_refl)

lemma answered_follows: "page_follows (p\<lparr>pg_loads := ls\<rparr>) q \<Longrightarrow> page_follows p q"
  "page_follows (p\<lparr>pg_submissions := ss\<rparr>) q \<Longrightarrow> page_follows p q"
  by (simp_all add: page_follows_def)

lemma handle_event_follows: "stays e \<Longrightarrow> page_follows p (handle_event parse_date p e)"
proof (cases e)
  case (LoadAnswered n answer now)
  then show ?thesis
    using answered_follows(1) [OF load_finish_follows [of "p\<lparr>pg_loads := drop_nth n (pg_loads p)\<rparr>"]]
    by (simp add: page_follows_refl)
next
  case (SubmissionAnswered n answer now)
  then show ?thesis
    using answered_follows(2) [OF submit_finish_follows [of "p\<lparr>pg_submissions := drop_nth n (pg_submissions p)\<rparr>"]]
    by (simp add: page_follows_refl)
qed (auto simp: page_poll_def page_follows_refl page_leave_follows same_core_follows page_tick_core
    chooseProvider_core intro: same_view_follows)

lemma page_step_follows: "stays e \<Longrightarrow> page_follows p (page_step parse_date p e)"
  unfolding page_step_def by (rule page_follows_trans [OF handle_event_follows automatic_follows])

interpretation checkout_page: forward_machine "page_step parse_date" page_ok stays page_follows for parse_date
  by unfold_locales (auto intro: page_follows_refl page_follows_trans page_step_follows)

lemma page_run_follows:
  assumes "list_all stays es"
  shows "page_follows (page_run parse_date es0) (page_run parse_date (es0 @ es))"
  using checkout_page.run_before [OF page_run_ok assms, of parse_date es0] by (simp add: page_run_def)

text \<open>The visible checkout has the statuses of the known one.\<close>

lemma shown_statuses:
  assumes "page_ok p" "page_checkout p = Some c"
  shows "\<exists>s. pg_state p = Some s \<and> pc_orderNumber c = pc_orderNumber (cr_checkout s) \<and>
    pc_orderStatus c = pc_orderStatus (cr_checkout s) \<and> pc_checkoutStatus c = pc_checkoutStatus (cr_checkout s)"
    and "transaction_ok c"
proof -
  have "cl_checkout (pg_load p) = Some c"
    using assms(2) by (simp add: page_checkout_def visibleCheckoutForToken_def split: if_splits)
  then obtain s where s: "pg_state p = Some s" "without_transaction (cr_checkout s) = without_transaction c"
    and "transaction_ok c"
    using assms(1) by (auto simp: page_ok_def shown_ok_def)
  then have "pc_orderNumber (without_transaction c) = pc_orderNumber (without_transaction (cr_checkout s))"
    "pc_orderStatus (without_transaction c) = pc_orderStatus (without_transaction (cr_checkout s))"
    "pc_checkoutStatus (without_transaction c) = pc_checkoutStatus (without_transaction (cr_checkout s))" by simp_all
  then show "\<exists>s. pg_state p = Some s \<and> pc_orderNumber c = pc_orderNumber (cr_checkout s) \<and>
    pc_orderStatus c = pc_orderStatus (cr_checkout s) \<and> pc_checkoutStatus c = pc_checkoutStatus (cr_checkout s)"
    using s(1) by (simp add: without_transaction_def)
  show "transaction_ok c" by fact
qed

lemma page_checkout_stays:
  "page_ok p \<Longrightarrow> page_ok q \<Longrightarrow> page_follows p q \<Longrightarrow> page_checkout p \<noteq> None \<Longrightarrow> page_checkout q \<noteq> None"
  by (auto simp: page_checkout_def visibleCheckoutForToken_def page_ok_def shown_ok_def page_follows_def split: if_splits)

subsection \<open>Properties of the page\<close>

lemma shown_goes_forward:
  assumes "list_all stays es" "page_checkout (page_run parse_date es0) = Some c"
  shows "\<exists>c'. page_checkout (page_run parse_date (es0 @ es)) = Some c' \<and> follows c c' \<and> transaction_ok c'"
proof -
  let ?p = "page_run parse_date es0" and ?q = "page_run parse_date (es0 @ es)"
  have f: "page_follows ?p ?q" by (rule page_run_follows [OF assms(1)])
  obtain c' where c': "page_checkout ?q = Some c'"
    using page_checkout_stays [OF page_run_ok page_run_ok f] assms(2) by auto
  obtain s where s: "pg_state ?p = Some s" "pc_orderNumber c = pc_orderNumber (cr_checkout s)"
    "pc_orderStatus c = pc_orderStatus (cr_checkout s)" "pc_checkoutStatus c = pc_checkoutStatus (cr_checkout s)"
    using shown_statuses(1) [OF page_run_ok assms(2)] by auto
  obtain s' where s': "pg_state ?q = Some s'" "pc_orderNumber c' = pc_orderNumber (cr_checkout s')"
    "pc_orderStatus c' = pc_orderStatus (cr_checkout s')" "pc_checkoutStatus c' = pc_checkoutStatus (cr_checkout s')"
    using shown_statuses(1) [OF page_run_ok c'] by auto
  have "state_follows s s'" using f s(1) s'(1) by (auto simp: page_follows_def)
  then show ?thesis
    using c' s s' shown_statuses(2) [OF page_run_ok c'] by (auto simp: state_follows_def follows_def)
qed

text \<open>A checkout that cannot be paid: final, without a transaction, and nobody asks for it again.\<close>

definition checkout_final :: "checkout_page \<Rightarrow> payment_checkout \<Rightarrow> bool" where
  "checkout_final p c \<longleftrightarrow>
     pc_activeTransaction c = None \<and> checkoutTerminalPresentation c \<noteq> None \<and> \<not> page_polling p \<and>
     automaticProvider p = None"

lemma not_payable_final:
  assumes "page_checkout p = Some c" "transaction_ok c" "\<not> payable c"
  shows "checkout_final p c"
  using assms
  by (auto simp: checkout_final_def transaction_ok_iff terminal_iff_not_polling page_polling_def
      shouldContinueCheckoutPolling_def payable_def automaticProvider_def automaticPaymentProvider_def)

lemma follows_not_payable: "follows c c' \<Longrightarrow> \<not> payable c \<Longrightarrow> \<not> payable c'"
  by (auto simp: follows_def payable_def dest: antisym [OF _ PendingOrder_least] antisym [OF _ ActiveCheckout_least])

text \<open>
  C8. While the page stays on its token, the checkout it shows never goes back: once shown it stays shown, for
  the same order, no status decreases, and a checkout that can no longer be paid is final for good: it has
  no transaction, polling has stopped and no payment starts by itself.
\<close>

theorem checkout_never_goes_back:
  assumes "list_all stays es" "page_checkout (page_run parse_date es0) = Some c"
  shows "\<exists>c'. page_checkout (page_run parse_date (es0 @ es)) = Some c' \<and>
    pc_orderNumber c' = pc_orderNumber c \<and> pc_orderStatus c \<le> pc_orderStatus c' \<and>
    pc_checkoutStatus c \<le> pc_checkoutStatus c' \<and>
    (payable c \<or> checkout_final (page_run parse_date (es0 @ es)) c')"
  using shown_goes_forward [OF assms] by (meson follows_def follows_not_payable not_payable_final)

definition sample_checkout :: "order_status \<Rightarrow> payment_checkout" where
  "sample_checkout status = \<lparr>pc_orderNumber = ''n'', pc_orderStatus = status, pc_checkoutStatus = ActiveCheckout,
     pc_currency = ''CNY'', pc_serverNow = ''0'', pc_expiresAt = ''9'', pc_providers = [Wechat, Alipay],
     pc_activeTransaction = None, pc_summary = TopupSummary \<lparr>ts_actualPriceCents = 100, ts_totalMicrocredits = 7\<rparr>\<rparr>"

definition sample_dates :: date_parser where
  "sample_dates s = (if s = ''0'' then Some 0 else if s = ''9'' then Some 9000 else None)"

definition sample_transaction :: active_transaction where
  "sample_transaction = \<lparr>at_provider = Alipay, at_status = TransactionPending, at_codeUrl = ''q'', at_expiresAt = ''9''\<rparr>"

lemmas coordinator_defs =
  beginLoad_def beginSubmission_def completeLoad_def completeSubmission_def releaseLoad_def releaseSubmission_def
  createLease_def coordinator_activate_def coordinator_dispose_def Let_def

lemmas sample_page_defs =
  page_run_def page_step_def automatic_def automaticProvider_def automaticPaymentProvider_def page_enter_def
  page_reset_def page_cleanup_def new_page_def new_coordinator_def load_start_def coordinator_defs isCurrentLease_def
  load_finish_def accept_load_def checkoutSummary_def requireSafeNonNegativeInteger_def checkoutServerOffsetMs_def
  parseCheckoutTime_def resolveCheckoutProviderSelection_def restoreActiveCheckoutPayment_def
  checkoutRemainingSeconds_def checkoutPaymentExpiresAt_def checkoutRequestSucceededForToken_def
  checkoutRequestSucceeded_def createCheckoutLoadState_def page_checkout_def visibleCheckoutForToken_def
  hasCheckoutToken_def js_trim_def js_space_def drop_nth_def payable_def sample_checkout_def sample_dates_def
  isSafeInteger_def whole_def safe_integer_def js_set_of_def js_add_def

lemma sample_page:
  "page_checkout (page_run sample_dates [Enter ''t'', LoadAnswered 0 (returns (sample_checkout PaidOrder)) 0]) =
     Some (sample_checkout PaidOrder)"
  by (simp add: sample_page_defs)

theorem checkout_never_goes_back_witness:
  "\<exists>c'. page_checkout (page_run sample_dates ([Enter ''t'', LoadAnswered 0 (returns (sample_checkout PaidOrder)) 0] @
          [Retry, LoadAnswered 0 (returns (sample_checkout PendingOrder)) 1])) = Some c' \<and>
     PaidOrder \<le> pc_orderStatus c'"
  using checkout_never_goes_back [OF _ sample_page, of "[Retry, LoadAnswered 0 (returns (sample_checkout PendingOrder)) 1]"]
  by (auto simp: sample_checkout_def)

text \<open>An answer that is older than what is known changes nothing of it.\<close>

lemma older_answer_keeps_state:
  assumes "pg_state p = Some s" "load_is_current p lease \<Longrightarrow> rl_revision lease < cr_revision s"
  shows "pg_state (load_finish parse_date lease answer now p) = Some s"
proof (cases "load_is_current p lease")
  case True
  show ?thesis
  proof (cases "accept_load parse_date lease answer now p")
    case (Inr a)
    then have "al_state a = s"
      using accept_load_returns(2) [OF Inr] assms(1) assms(2) [OF True] by (auto elim: mergeCheckoutResponse_cases)
    then show ?thesis using Inr by (simp add: load_finish_current [OF True])
  qed (use assms(1) in \<open>simp add: load_finish_current [OF True] load_freed_def\<close>)
qed (simp add: load_finish_late assms(1))

lemma automatic_state [simp]: "pg_state (automatic p) = pg_state p"
  by (simp add: automatic_def split: option.split)

lemma submit_finish_state:
  assumes "pg_state (submit_finish parse_date s answer now p) \<noteq> pg_state p"
  shows "\<exists>t st. answer = returns t \<and> pg_state (submit_finish parse_date s answer now p) = Some st \<and>
    cr_revision st = Suc (cq_revision (pg_coordinator p)) \<and> pc_activeTransaction (cr_checkout st) = Some t"
proof -
  have cur: "submission_is_current p (as_lease s)" using assms submit_finish_late by fastforce
  show ?thesis
  proof (cases "payable_state answer p")
    case (Inl reason)
    then show ?thesis using assms by (simp add: submit_finish_current [OF cur] submit_failed_def submission_freed_def)
  next
    case (Inr tc)
    obtain t current where tc: "tc = (t, current)" by (cases tc)
    let ?r = "Suc (cq_revision (pg_coordinator p))"
    have a: "answer = returns t" using Inr tc by (simp add: payable_state_returns)
    show ?thesis
    proof (cases "applyCheckoutTransaction current t ?r")
      case (Inl reason)
      then show ?thesis
        using Inr tc assms by (simp add: submit_finish_current [OF cur] Let_def submit_failed_def submission_freed_def)
    next
      case taken: (Inr accepted)
      have "pg_state (transaction_taken parse_date s t accepted now q) = Some accepted" for q
        by (simp add: transaction_taken_def Let_def submit_failed_def split: sum.split)
      then have "pg_state (submit_finish parse_date s answer now p) = Some accepted"
        using Inr tc taken by (simp add: submit_finish_current [OF cur] Let_def)
      moreover have "cr_revision accepted = ?r" "pc_activeTransaction (cr_checkout accepted) = Some t"
        using taken by (simp_all add: applyCheckoutTransaction_iff)
      ultimately show ?thesis using a by blast
    qed
  qed
qed

text \<open>
  C9. A payment that was started is not lost to an older poll: when the answer of a submission changes what is
  known, it is the checkout with the transaction; and a load that was awaited then, answered at any time later
  while the page stays on its token, leaves what is known as it is.
\<close>

theorem started_payment_survives_older_polls:
  assumes "pg_state (page_run parse_date (es @ [SubmissionAnswered m answer now])) \<noteq> pg_state (page_run parse_date es)"
    and "list_all stays es'"
    and "k < length (pg_loads (page_run parse_date (es @ SubmissionAnswered m answer now # es')))"
    and "pg_loads (page_run parse_date (es @ SubmissionAnswered m answer now # es')) ! k \<in> set (pg_loads (page_run parse_date es))"
  shows "(\<exists>t st. answer = returns t \<and> pg_state (page_run parse_date (es @ [SubmissionAnswered m answer now])) = Some st \<and>
       pc_activeTransaction (cr_checkout st) = Some t) \<and>
     pg_state (page_run parse_date (es @ SubmissionAnswered m answer now # es' @ [LoadAnswered k polled later])) =
     pg_state (page_run parse_date (es @ SubmissionAnswered m answer now # es'))"
proof -
  let ?p = "page_run parse_date es" and ?q = "page_run parse_date (es @ [SubmissionAnswered m answer now])"
  let ?r = "page_run parse_date (es @ SubmissionAnswered m answer now # es')" and ?a = "SubmissionAnswered m answer now"
  have q: "?q = page_step parse_date ?p ?a" by (simp add: page_run_def)
  have m: "m < length (pg_submissions ?p)" using assms(1) by (auto simp: q page_step_def split: if_splits)
  let ?p' = "?p\<lparr>pg_submissions := drop_nth m (pg_submissions ?p)\<rparr>"
  have qs: "pg_state ?q = pg_state (submit_finish parse_date (pg_submissions ?p ! m) answer now ?p')"
    using m by (simp add: q page_step_def)
  then have "pg_state (submit_finish parse_date (pg_submissions ?p ! m) answer now ?p') \<noteq> pg_state ?p'"
    using assms(1) by simp
  from submit_finish_state [OF this] obtain t st where st: "answer = returns t" "pg_state ?q = Some st"
    "cr_revision st = Suc (cq_revision (pg_coordinator ?p))" "pc_activeTransaction (cr_checkout st) = Some t"
    unfolding qs by auto
  have pr: "page_follows ?p ?r" using page_run_follows [of "?a # es'" parse_date es] assms(2) by simp
  have qr: "page_follows ?q ?r" using page_run_follows [of es' parse_date "es @ [?a]"] assms(2) by simp
  obtain sr where sr: "pg_state ?r = Some sr" "state_follows st sr" using qr st(2) by (auto simp: page_follows_def)
  let ?l = "pg_loads ?r ! k"
  have "lease_ok (pg_coordinator ?p) ?l"
    using page_run_ok [of parse_date es] assms(4) by (auto simp: page_ok_def coordinator_ok_def awaited_ok_def list_all_iff)
  then have older: "rl_revision ?l < cr_revision sr" if "load_is_current ?r ?l"
    using that pr st(3) sr(2)
    by (auto simp: load_is_current_def isCurrentLease_def lease_ok_def page_follows_def state_follows_def)
  have "pg_state (load_finish parse_date ?l polled later (?r\<lparr>pg_loads := drop_nth k (pg_loads ?r)\<rparr>)) = Some sr"
    by (rule older_answer_keeps_state) (use sr(1) older in \<open>simp_all add: load_is_current_def\<close>)
  moreover have "page_run parse_date (es @ ?a # es' @ [LoadAnswered k polled later]) =
      page_step parse_date ?r (LoadAnswered k polled later)"
    by (simp add: page_run_def)
  ultimately show ?thesis using assms(3) st sr(1) by (auto simp: page_step_def)
qed

definition sample_events :: "page_event list" where
  "sample_events = [Enter ''t'', LoadAnswered 0 (returns (sample_checkout PendingOrder)) 0, Retry, Submit Alipay]"

lemmas sample_submission_defs =
  sample_page_defs sample_events_def submit_start_def submit_finish_def payable_state_def applyCheckoutTransaction_def
  requireCheckoutRevision_def transaction_complete_def sample_transaction_def

lemma sample_payment:
  "pg_state (page_run sample_dates (sample_events @ [SubmissionAnswered 0 (returns sample_transaction) 1])) \<noteq>
     pg_state (page_run sample_dates sample_events)"
  "pg_loads (page_run sample_dates (sample_events @ [SubmissionAnswered 0 (returns sample_transaction) 1])) =
     pg_loads (page_run sample_dates sample_events)"
  "length (pg_loads (page_run sample_dates sample_events)) = 1"
  by (simp_all add: sample_submission_defs)

theorem started_payment_survives_older_polls_witness:
  "pg_state (page_run sample_dates
      (sample_events @ [SubmissionAnswered 0 (returns sample_transaction) 1, LoadAnswered 0 (returns (sample_checkout PendingOrder)) 2])) =
   pg_state (page_run sample_dates (sample_events @ [SubmissionAnswered 0 (returns sample_transaction) 1]))"
  using started_payment_survives_older_polls [OF sample_payment(1), of "[]" 0 "returns (sample_checkout PendingOrder)" 2]
  by (simp add: sample_payment(2,3))

text \<open>The effect of the render has nothing left to do.\<close>

lemma automatic_idle: "\<not> pg_mounted (automatic p) \<or> automaticProvider (automatic p) = None"
proof (cases "automaticProvider p")
  case (Some provider)
  show ?thesis
  proof (cases "pg_mounted p")
    case True
    then show ?thesis
      using Some by (simp add: automatic_def automaticProvider_def automaticPaymentProvider_def split: option.split)
  qed (use Some in \<open>simp add: automatic_def\<close>)
qed (simp add: automatic_def)

lemma automatic_again:
  "\<not> pg_mounted p \<or> automaticProvider p = None \<Longrightarrow> automatic (p\<lparr>pg_loads := ls\<rparr>) = p\<lparr>pg_loads := ls\<rparr>"
  by (auto simp: automatic_def automaticProvider_def page_checkout_def split: option.split)

lemma late_answer_ignored:
  assumes "es \<noteq> []" "k < length (pg_loads (page_run parse_date es))"
    and "\<not> load_is_current (page_run parse_date es) (pg_loads (page_run parse_date es) ! k)"
  shows "page_run parse_date (es @ [LoadAnswered k polled now]) =
    (page_run parse_date es)\<lparr>pg_loads := drop_nth k (pg_loads (page_run parse_date es))\<rparr>"
proof -
  let ?p = "page_run parse_date es"
  have "\<exists>q. ?p = automatic q"
    using assms(1) by (cases es rule: rev_cases) (auto simp: page_run_def page_step_def)
  then have idle: "\<not> pg_mounted ?p \<or> automaticProvider ?p = None" using automatic_idle by metis
  have "\<not> load_is_current (?p\<lparr>pg_loads := drop_nth k (pg_loads ?p)\<rparr>) (pg_loads ?p ! k)"
    using assms(3) by (simp add: load_is_current_def)
  then have "page_step parse_date ?p (LoadAnswered k polled now) = ?p\<lparr>pg_loads := drop_nth k (pg_loads ?p)\<rparr>"
    using assms(2) by (simp add: page_step_def load_finish_late automatic_again [OF idle])
  then show ?thesis by (simp add: page_run_def)
qed

lemma generation_grows: "cq_generation (pg_coordinator p) \<le> cq_generation (pg_coordinator (page_step parse_date p e))"
proof (cases "stays e")
  case False
  then obtain token where e: "e = Enter token" by (cases e) auto
  have a: "cq_generation (pg_coordinator (automatic q)) = cq_generation (pg_coordinator q)" for q
    by (simp add: automatic_def split: option.split)
  have "cq_generation (pg_coordinator p) \<le> cq_generation (pg_coordinator (page_enter token p))"
    by (simp add: page_enter_def Let_def page_reset_def page_cleanup_def coordinator_dispose_def
        coordinator_activate_def)
  then show ?thesis by (simp add: page_step_def e a)
qed (use page_step_follows in \<open>auto simp: page_follows_def\<close>)

lemma run_generation_grows:
  "cq_generation (pg_coordinator p) \<le> cq_generation (pg_coordinator (foldl (page_step parse_date) p es))"
proof (induction es arbitrary: p)
  case (Cons e es)
  show ?case using generation_grows [of p parse_date e] Cons [of "page_step parse_date p e"] by simp
qed simp

lemma enter_next_generation:
  "\<not> pg_left p \<Longrightarrow>
   cq_generation (pg_coordinator p) < cq_generation (pg_coordinator (page_step parse_date p (Enter token)))"
proof -
  have a: "cq_generation (pg_coordinator (automatic q)) = cq_generation (pg_coordinator q)" for q
    by (simp add: automatic_def split: option.split)
  assume "\<not> pg_left p"
  then show ?thesis
    by (simp add: page_step_def a page_enter_def Let_def page_reset_def page_cleanup_def coordinator_dispose_def
        coordinator_activate_def)
qed

text \<open>
  C27. What was asked for another token never counts: after the page entered a token, an answer to a load that
  was awaited before changes nothing but that it is no longer awaited, however it comes.
\<close>

theorem answers_for_another_token_are_ignored:
  assumes "\<not> pg_left (page_run parse_date es)"
    and "k < length (pg_loads (page_run parse_date (es @ Enter token # es')))"
    and "pg_loads (page_run parse_date (es @ Enter token # es')) ! k \<in> set (pg_loads (page_run parse_date es))"
  shows "page_run parse_date (es @ Enter token # es' @ [LoadAnswered k polled now]) =
    (page_run parse_date (es @ Enter token # es'))
      \<lparr>pg_loads := drop_nth k (pg_loads (page_run parse_date (es @ Enter token # es')))\<rparr>"
proof -
  let ?p = "page_run parse_date es" and ?q = "page_run parse_date (es @ Enter token # es')"
  have "lease_ok (pg_coordinator ?p) (pg_loads ?q ! k)"
    using page_run_ok [of parse_date es] assms(3) by (auto simp: page_ok_def coordinator_ok_def awaited_ok_def list_all_iff)
  moreover have "?q = foldl (page_step parse_date) (page_step parse_date ?p (Enter token)) es'"
    by (simp add: page_run_def)
  ultimately have "\<not> load_is_current ?q (pg_loads ?q ! k)"
    using enter_next_generation [OF assms(1), of parse_date token]
      run_generation_grows [of "page_step parse_date ?p (Enter token)" parse_date es']
    by (auto simp: load_is_current_def isCurrentLease_def lease_ok_def)
  then show ?thesis using late_answer_ignored [of "es @ Enter token # es'"] assms(2) by simp
qed

lemma sample_reentry:
  "pg_loads (page_run sample_dates [Enter ''t'', Enter ''u'']) ! 0 \<in> set (pg_loads (page_run sample_dates [Enter ''t'']))"
  "length (pg_loads (page_run sample_dates [Enter ''t'', Enter ''u''])) = 2"
  "\<not> pg_left (page_run sample_dates [Enter ''t''])"
  by (simp_all add: sample_page_defs)

theorem answers_for_another_token_are_ignored_witness:
  "page_run sample_dates [Enter ''t'', Enter ''u'', LoadAnswered 0 (returns (sample_checkout PaidOrder)) 5] =
    (page_run sample_dates [Enter ''t'', Enter ''u''])
      \<lparr>pg_loads := drop_nth 0 (pg_loads (page_run sample_dates [Enter ''t'', Enter ''u'']))\<rparr>"
  using answers_for_another_token_are_ignored [OF sample_reentry(3), of 0 "''u''" "[]"] sample_reentry(1,2) by simp

text \<open>
  Polling never gets stuck: while the coordinator holds a load its answer is awaited, and any answer to it
  makes room for the next one.
\<close>

lemma held_load_is_awaited:
  assumes "cq_loadLeaseID (pg_coordinator (page_run parse_date es)) \<noteq> None"
  shows "\<exists>k < length (pg_loads (page_run parse_date es)).
    load_is_current (page_run parse_date es) (pg_loads (page_run parse_date es) ! k)"
  using page_run_ok [of parse_date es] assms
  by (auto simp: page_ok_def coordinator_ok_def awaited_ok_def held_def list_ex_iff load_is_current_def in_set_conv_nth)

lemma answered_load_makes_room:
  "load_is_current p lease \<Longrightarrow> cq_loadLeaseID (pg_coordinator (load_finish parse_date lease answer now p)) = None"
  by (simp add: load_finish_current load_freed_def split: sum.split)

end
