(* ===== verification/McpTools.thy ===== *)
theory McpTools
  imports Capabilities AgentServer
begin

text \<open>
  The canvas tools offered to Codex: \<^verbatim>\<open>canvas-agent/src/mcp-tool-schemas.ts\<close>, \<^verbatim>\<open>mcp-server.ts\<close> and
  \<^verbatim>\<open>loopback-tool-session.ts\<close>. The schemas are values the code builds with zod, so here they are values
  of a datatype, with the bounds of the code. Zod, which reads them, is the parameter \<open>accepts\<close>; the
  locale \<open>schema_checker\<close> says what its documentation promises of each constructor, for values that
  come from JSON. The MCP SDK checks a call with the schema of its tool before it runs the handler.
\<close>

subsection \<open>Schemas\<close>

text \<open>
  \<^verbatim>\<open>z.string().min(l).max(h)\<close>, \<^verbatim>\<open>z.string().regex(/^[0-9a-f]{64}$/)\<close>, \<^verbatim>\<open>z.literal\<close>, \<^verbatim>\<open>z.enum\<close>, \<^verbatim>\<open>z.boolean()\<close>,
  \<^verbatim>\<open>z.number().finite().min(l).max(h)\<close>, \<^verbatim>\<open>z.number().int().min(l).max(h)\<close>, \<^verbatim>\<open>z.array(s).min(l).max(h)\<close>,
  \<^verbatim>\<open>z.record(z.string(), z.unknown())\<close>, \<^verbatim>\<open>z.object({...}).strict()\<close> whose fields may be \<^verbatim>\<open>.optional()\<close>,
  \<^verbatim>\<open>z.discriminatedUnion(key, [...])\<close>, and the schema of \<^verbatim>\<open>contracts.ts\<close>.
\<close>

datatype schema =
  TextSchema nat nat | ChecksumSchema | LiteralSchema json | EnumSchema "string list" | FlagSchema
| NumberSchema rat rat | IntSchema int "int option" | ArraySchema nat nat schema | RecordSchema
| StrictSchema "(string \<times> bool \<times> schema) list" | UnionSchema string "schema list" | DeliverySchema

type_synonym schema_field = "string \<times> bool \<times> schema"

abbreviation needed :: "string \<Rightarrow> schema \<Rightarrow> schema_field" where
  "needed key s \<equiv> (key, False, s)"

abbreviation optional_field :: "string \<Rightarrow> schema \<Rightarrow> schema_field" where
  "optional_field key s \<equiv> (key, True, s)"

definition identifierSchema :: schema where
  "identifierSchema = TextSchema 1 120"

definition displayNameSchema :: schema where
  "displayNameSchema = TextSchema 1 240"

definition resourceIdsSchema :: schema where
  "resourceIdsSchema = ArraySchema 0 100 identifierSchema"

definition jsonObjectSchema :: schema where
  "jsonObjectSchema = RecordSchema"

definition canvasNodeTypeSchema :: schema where
  "canvasNodeTypeSchema =
     EnumSchema [''image'', ''text'', ''script'', ''skill'', ''config'', ''video'', ''audio'', ''frame'']"

definition coordinateSchema :: schema where
  "coordinateSchema = NumberSchema (-1000000) 1000000"

definition dimensionSchema :: schema where
  "dimensionSchema = NumberSchema 1 20000"

definition mediaPromptSchema :: schema where
  "mediaPromptSchema = TextSchema 1 (64 * 1024)"

definition mediaParameterValueSchema :: schema where
  "mediaParameterValueSchema = TextSchema 1 240"

definition mediaRequestFields :: "schema_field list" where
  "mediaRequestFields =
     [needed ''modelRecordId'' identifierSchema, needed ''modelKey'' identifierSchema,
      needed ''sourceResourceIds'' resourceIdsSchema, needed ''targetCanvasNodeId'' identifierSchema,
      needed ''clientRequestId'' identifierSchema]"

definition imageGenerationParametersSchema :: schema where
  "imageGenerationParametersSchema = StrictSchema
     [needed ''prompt'' mediaPromptSchema, needed ''aspectRatio'' mediaParameterValueSchema,
      needed ''resolution'' mediaParameterValueSchema, optional_field ''quality'' mediaParameterValueSchema,
      needed ''count'' (IntSchema 1 (Some 16)), optional_field ''transparentBackground'' FlagSchema]"

definition videoGenerationParametersSchema :: schema where
  "videoGenerationParametersSchema = StrictSchema
     [needed ''prompt'' mediaPromptSchema, needed ''aspectRatio'' mediaParameterValueSchema,
      needed ''resolution'' mediaParameterValueSchema, needed ''durationSeconds'' (IntSchema 1 (Some 3600)),
      needed ''generateAudio'' FlagSchema]"

definition audioGenerationParametersSchema :: schema where
  "audioGenerationParametersSchema = StrictSchema
     ([needed ''prompt'' mediaPromptSchema, needed ''voice'' mediaParameterValueSchema] @
      map (\<lambda>key. optional_field key mediaParameterValueSchema)
        [''format'', ''speed'', ''volume'', ''pitch'', ''emotion'', ''languageBoost'', ''sampleRate'', ''bitrate'',
         ''channel''] @
      [optional_field ''instructions'' mediaPromptSchema])"

definition positionSchema :: schema where
  "positionSchema = StrictSchema [needed ''x'' coordinateSchema, needed ''y'' coordinateSchema]"

definition canvasNodeSchema :: schema where
  "canvasNodeSchema = StrictSchema
     [needed ''id'' identifierSchema, needed ''type'' canvasNodeTypeSchema, needed ''title'' displayNameSchema,
      needed ''position'' positionSchema, needed ''width'' dimensionSchema, needed ''height'' dimensionSchema,
      optional_field ''metadata'' jsonObjectSchema]"

definition canvasConnectionSchema :: schema where
  "canvasConnectionSchema = StrictSchema
     [needed ''id'' identifierSchema, needed ''fromNodeId'' identifierSchema, needed ''toNodeId'' identifierSchema,
      optional_field ''fromHandleId'' identifierSchema, optional_field ''toHandleId'' identifierSchema]"

definition operation_schema :: "string \<Rightarrow> schema_field \<Rightarrow> schema" where
  "operation_schema t field =
     StrictSchema [needed ''operationId'' identifierSchema, needed ''type'' (LiteralSchema (JStr t)), field]"

definition addNodeSchema :: schema where
  "addNodeSchema = operation_schema ''add_node'' (needed ''node'' canvasNodeSchema)"

definition updateNodeSchema :: schema where
  "updateNodeSchema = StrictSchema
     [needed ''operationId'' identifierSchema, needed ''type'' (LiteralSchema (JStr ''update_node'')),
      needed ''nodeId'' identifierSchema, needed ''patch'' jsonObjectSchema]"

definition deleteNodeSchema :: schema where
  "deleteNodeSchema = operation_schema ''delete_node'' (needed ''nodeId'' identifierSchema)"

definition connectNodesSchema :: schema where
  "connectNodesSchema = operation_schema ''connect_nodes'' (needed ''connection'' canvasConnectionSchema)"

definition deleteConnectionsSchema :: schema where
  "deleteConnectionsSchema =
     operation_schema ''delete_connections'' (needed ''connectionIds'' (ArraySchema 1 100 identifierSchema))"

definition viewportSchema :: schema where
  "viewportSchema = StrictSchema
     [needed ''x'' coordinateSchema, needed ''y'' coordinateSchema, needed ''zoom'' (NumberSchema (1 / 100) 16)]"

definition setViewportSchema :: schema where
  "setViewportSchema = operation_schema ''set_viewport'' (needed ''viewport'' viewportSchema)"

definition selectNodesSchema :: schema where
  "selectNodesSchema = operation_schema ''select_nodes'' (needed ''nodeIds'' (ArraySchema 0 100 identifierSchema))"

definition canvasOperationSchema :: schema where
  "canvasOperationSchema = UnionSchema ''type''
     [addNodeSchema, updateNodeSchema, deleteNodeSchema, connectNodesSchema, deleteConnectionsSchema,
      setViewportSchema, selectNodesSchema]"

definition wrapToolArguments :: "schema \<Rightarrow> schema" where
  "wrapToolArguments argumentsSchema =
     StrictSchema [needed ''arguments'' argumentsSchema, needed ''expectedDelivery'' DeliverySchema]"

definition canvasToolEnvelopeSchema :: schema where
  "canvasToolEnvelopeSchema = wrapToolArguments jsonObjectSchema"

definition canvasReadArguments :: schema where
  "canvasReadArguments = StrictSchema
     [needed ''canvasId'' identifierSchema, needed ''selectedNodeIds'' (ArraySchema 0 100 identifierSchema),
      needed ''includeViewport'' (LiteralSchema (JBool True))]"

definition canvasApplyOpsArguments :: schema where
  "canvasApplyOpsArguments = StrictSchema
     [needed ''canvasId'' identifierSchema, needed ''baseRevision'' (IntSchema 0 None),
      needed ''clientMutationId'' identifierSchema, needed ''operations'' (ArraySchema 1 100 canvasOperationSchema)]"

definition assetsReadArguments :: schema where
  "assetsReadArguments = StrictSchema
     [needed ''domainProjectId'' identifierSchema, needed ''resourceIds'' resourceIdsSchema,
      needed ''limit'' (IntSchema 1 (Some 100))]"

definition assetsPublishArguments :: schema where
  "assetsPublishArguments = StrictSchema
     [needed ''resourceId'' identifierSchema, needed ''domainProjectId'' identifierSchema,
      needed ''displayName'' displayNameSchema, needed ''clientMutationId'' identifierSchema]"

definition media_schema :: "string \<Rightarrow> schema \<Rightarrow> schema" where
  "media_schema kind parameters = StrictSchema
     (mediaRequestFields @ [needed ''mediaKind'' (LiteralSchema (JStr kind)), needed ''parameters'' parameters])"

definition mediaGenerateArguments :: schema where
  "mediaGenerateArguments = UnionSchema ''mediaKind''
     [media_schema ''image'' imageGenerationParametersSchema, media_schema ''video'' videoGenerationParametersSchema,
      media_schema ''audio'' audioGenerationParametersSchema]"

definition skillsLoadArguments :: schema where
  "skillsLoadArguments = StrictSchema
     [needed ''skillDir'' displayNameSchema, needed ''version'' (IntSchema 1 None), needed ''checksum'' ChecksumSchema]"

subsection \<open>What zod promises\<close>

locale schema_checker =
  fixes accepts :: "schema \<Rightarrow> json option \<Rightarrow> bool"
  assumes text_schema: "accepts (TextSchema lo hi) v \<Longrightarrow> \<exists>s. v = Some (JStr s) \<and> lo \<le> length s \<and> length s \<le> hi"
    and checksum_schema: "accepts ChecksumSchema v \<Longrightarrow> \<exists>s. v = Some (JStr s) \<and> validCapabilityChecksum s"
    and literal_schema: "accepts (LiteralSchema j) v \<Longrightarrow> v = Some j"
    and enum_schema: "accepts (EnumSchema names) v \<Longrightarrow> \<exists>s. v = Some (JStr s) \<and> s \<in> set names"
    and flag_schema: "accepts FlagSchema v \<Longrightarrow> \<exists>b. v = Some (JBool b)"
    and number_schema: "accepts (NumberSchema low high) v \<Longrightarrow> \<exists>q. v = Some (JNum q) \<and> low \<le> q \<and> q \<le> high"
    and int_schema: "accepts (IntSchema least most) v \<Longrightarrow>
      \<exists>n. v = Some (JNum (of_int n)) \<and> safe_integer n \<and> least \<le> n \<and> pred_option (\<lambda>m. n \<le> m) most"
    and array_schema: "accepts (ArraySchema lo hi s) v \<Longrightarrow>
      \<exists>xs. v = Some (JArr xs) \<and> lo \<le> length xs \<and> length xs \<le> hi \<and> list_all (\<lambda>x. accepts s (Some x)) xs"
    and record_schema: "accepts RecordSchema v \<Longrightarrow> \<exists>ps. v = Some (JObj ps)"
    and strict_schema: "accepts (StrictSchema fs) v \<Longrightarrow>
      \<exists>ps. v = Some (JObj ps) \<and> fst ` set ps \<subseteq> fst ` set fs \<and>
        list_all (\<lambda>(key, optional, s). optional \<and> map_of ps key = None \<or> accepts s (map_of ps key)) fs"
    and union_schema: "accepts (UnionSchema key alternatives) v \<Longrightarrow> list_ex (\<lambda>s. accepts s v) alternatives"

text \<open>A checker that does what the constructors say.\<close>

fun integer_in :: "int \<Rightarrow> int option \<Rightarrow> json option \<Rightarrow> bool" where
  "integer_in l h (Some (JNum q)) \<longleftrightarrow>
     whole q \<and> safe_integer \<lfloor>q\<rfloor> \<and> l \<le> \<lfloor>q\<rfloor> \<and> (case h of None \<Rightarrow> True | Some m \<Rightarrow> \<lfloor>q\<rfloor> \<le> m)"
| "integer_in l h _ \<longleftrightarrow> False"

function (sequential) schema_accepts :: "schema \<Rightarrow> json option \<Rightarrow> bool"
  and fields_accept :: "schema_field list \<Rightarrow> properties \<Rightarrow> bool"
  and some_accepts :: "schema list \<Rightarrow> json option \<Rightarrow> bool" where
  "schema_accepts (TextSchema lo hi) (Some (JStr s)) \<longleftrightarrow> lo \<le> length s \<and> length s \<le> hi"
| "schema_accepts ChecksumSchema (Some (JStr s)) \<longleftrightarrow> validCapabilityChecksum s"
| "schema_accepts (LiteralSchema j) (Some v) \<longleftrightarrow> v = j"
| "schema_accepts (EnumSchema ss) (Some (JStr s)) \<longleftrightarrow> s \<in> set ss"
| "schema_accepts FlagSchema (Some (JBool b)) \<longleftrightarrow> True"
| "schema_accepts (NumberSchema l h) (Some (JNum q)) \<longleftrightarrow> l \<le> q \<and> q \<le> h"
| "schema_accepts (IntSchema l h) v \<longleftrightarrow> integer_in l h v"
| "schema_accepts (ArraySchema lo hi s) (Some (JArr xs)) \<longleftrightarrow>
     lo \<le> length xs \<and> length xs \<le> hi \<and> list_all (\<lambda>x. schema_accepts s (Some x)) xs"
| "schema_accepts RecordSchema (Some (JObj ps)) \<longleftrightarrow> True"
| "schema_accepts (StrictSchema fs) (Some (JObj ps)) \<longleftrightarrow>
     fst ` set ps \<subseteq> fst ` set fs \<and> fields_accept fs ps"
| "schema_accepts (UnionSchema key ss) v \<longleftrightarrow> some_accepts ss v"
| "schema_accepts DeliverySchema (Some v) \<longleftrightarrow> True"
| "schema_accepts _ _ \<longleftrightarrow> False"
| "fields_accept [] ps \<longleftrightarrow> True"
| "fields_accept ((key, optional, s) # fs) ps \<longleftrightarrow>
     (optional \<and> map_of ps key = None \<or> schema_accepts s (map_of ps key)) \<and> fields_accept fs ps"
| "some_accepts [] v \<longleftrightarrow> False"
| "some_accepts (s # ss) v \<longleftrightarrow> schema_accepts s v \<or> some_accepts ss v"
  by pat_completeness auto

termination
  by (relation "measure (\<lambda>x. case x of
        Inl (s, v) \<Rightarrow> size s
      | Inr (Inl (fs, ps)) \<Rightarrow> size_list (size_prod (\<lambda>_. 0) (size_prod (\<lambda>_. 0) size)) fs
      | Inr (Inr (ss, v)) \<Rightarrow> size_list size ss)") auto

lemma fields_accept_iff: "fields_accept fs ps \<longleftrightarrow>
  list_all (\<lambda>(key, optional, s). optional \<and> map_of ps key = None \<or> schema_accepts s (map_of ps key)) fs"
  by (induction fs) auto

lemma some_accepts_iff: "some_accepts ss v \<longleftrightarrow> list_ex (\<lambda>s. schema_accepts s v) ss"
  by (induction ss) auto

interpretation zod: schema_checker schema_accepts
proof unfold_locales
  show "\<exists>s. v = Some (JStr s) \<and> lo \<le> length s \<and> length s \<le> hi" if "schema_accepts (TextSchema lo hi) v" for lo hi v
    using that by (cases "(TextSchema lo hi, v)" rule: schema_accepts.cases) auto
  show "\<exists>s. v = Some (JStr s) \<and> validCapabilityChecksum s" if "schema_accepts ChecksumSchema v" for v
    using that by (cases "(ChecksumSchema, v)" rule: schema_accepts.cases) auto
  show "v = Some j" if "schema_accepts (LiteralSchema j) v" for j v
    using that by (cases v) auto
  show "\<exists>s. v = Some (JStr s) \<and> s \<in> set names" if "schema_accepts (EnumSchema names) v" for names v
    using that by (cases "(EnumSchema names, v)" rule: schema_accepts.cases) auto
  show "\<exists>b. v = Some (JBool b)" if "schema_accepts FlagSchema v" for v
    using that by (cases "(FlagSchema, v)" rule: schema_accepts.cases) auto
  show "\<exists>q. v = Some (JNum q) \<and> low \<le> q \<and> q \<le> high" if "schema_accepts (NumberSchema low high) v" for low high v
    using that by (cases "(NumberSchema low high, v)" rule: schema_accepts.cases) auto
  show "\<exists>n. v = Some (JNum (of_int n)) \<and> safe_integer n \<and> least \<le> n \<and> pred_option (\<lambda>m. n \<le> m) most"
    if "schema_accepts (IntSchema least most) v" for least most v
    using that by (cases "(least, most, v)" rule: integer_in.cases) (auto simp: whole_def split: option.splits)
  show "\<exists>xs. v = Some (JArr xs) \<and> lo \<le> length xs \<and> length xs \<le> hi \<and> list_all (\<lambda>x. schema_accepts s (Some x)) xs"
    if "schema_accepts (ArraySchema lo hi s) v" for lo hi s v
    using that by (cases "(ArraySchema lo hi s, v)" rule: schema_accepts.cases) auto
  show "\<exists>ps. v = Some (JObj ps)" if "schema_accepts RecordSchema v" for v
    using that by (cases "(RecordSchema, v)" rule: schema_accepts.cases) auto
  show "\<exists>ps. v = Some (JObj ps) \<and> fst ` set ps \<subseteq> fst ` set fs \<and>
      list_all (\<lambda>(key, optional, s). optional \<and> map_of ps key = None \<or> schema_accepts s (map_of ps key)) fs"
    if "schema_accepts (StrictSchema fs) v" for fs v
    using that by (cases "(StrictSchema fs, v)" rule: schema_accepts.cases) (auto simp: fields_accept_iff)
  show "list_ex (\<lambda>s. schema_accepts s v) alternatives" if "schema_accepts (UnionSchema key alternatives) v"
    for key alternatives v
    using that by (simp add: some_accepts_iff)
qed

subsection \<open>What the page can still refuse\<close>

text \<open>
  Failures that depend on what a text says or on two values together: zod counts characters, the page
  refuses blank texts, white space in identifiers, URLs as resources and repeated identifiers.
\<close>

fun content_error :: "contract_error \<Rightarrow> bool" where
  "content_error NotText = True"
| "content_error BadIdentifier = True"
| "content_error ResourceIsUrl = True"
| "content_error DuplicateIdentifier = True"
| "content_error _ = False"

text \<open>The patch of a node and its metadata are any objects for zod, and the page reads their parts.\<close>

fun operation_error :: "contract_error \<Rightarrow> bool" where
  "operation_error SelfConnection = True"
| "operation_error EmptyPatch = True"
| "operation_error NotAnObject = True"
| "operation_error (TextTooLong n) = True"
| "operation_error UnsupportedNodeType = True"
| "operation_error UnsupportedNodeStatus = True"
| "operation_error e = content_error e"

definition only_throws :: "('e \<Rightarrow> bool) \<Rightarrow> ('e, 'a) result \<Rightarrow> bool" where
  "only_throws P r \<longleftrightarrow> (\<forall>e. r = throws e \<longrightarrow> P e)"

lemma only_throws_Inr [simp]: "only_throws P (Inr x)"
  by (simp add: only_throws_def)

lemma only_throws_Inl [simp]: "only_throws P (Inl e) \<longleftrightarrow> P e"
  by (auto simp: only_throws_def)

lemma only_throws_bind [intro!]:
  "only_throws P r \<Longrightarrow> (\<And>x. r = Inr x \<Longrightarrow> only_throws P (f x)) \<Longrightarrow> only_throws P (and_then r f)"
  by (cases r) (auto simp: only_throws_def)

lemma only_throws_if [intro!]:
  "(c \<Longrightarrow> only_throws P r) \<Longrightarrow> (\<not> c \<Longrightarrow> only_throws P s) \<Longrightarrow> only_throws P (if c then r else s)"
  by simp

lemma only_throws_mono: "only_throws P r \<Longrightarrow> (\<And>e. P e \<Longrightarrow> Q e) \<Longrightarrow> only_throws Q r"
  by (auto simp: only_throws_def)

lemma only_throws_map_result:
  "list_all (\<lambda>x. only_throws P (f x)) xs \<Longrightarrow> only_throws P (map_result f xs)"
  by (induction xs) (auto simp: only_throws_def split: sum.splits)

lemma content_operation: "content_error e \<Longrightarrow> operation_error e"
  by (cases e) simp_all

lemmas content_throws = only_throws_mono [of content_error _ operation_error, OF _ content_operation]

context schema_checker
begin

lemma strict_read:
  assumes "accepts (StrictSchema fs) v" "fst ` set fs \<subseteq> set keys"
  shows "\<exists>ps. v = Some (JObj ps) \<and> exactObject keys v = Inr ps \<and>
    list_all (\<lambda>(key, optional, s). optional \<and> map_of ps key = None \<or> accepts s (map_of ps key)) fs"
proof -
  obtain ps where ps: "v = Some (JObj ps)" "fst ` set ps \<subseteq> fst ` set fs"
    "list_all (\<lambda>(key, optional, s). optional \<and> map_of ps key = None \<or> accepts s (map_of ps key)) fs"
    using strict_schema [OF assms(1)] by auto
  then have "exactObject keys v = Inr ps" using assms(2) by (auto intro!: exactObject_known)
  then show ?thesis using ps by blast
qed

lemma bounded_text:
  assumes "accepts (TextSchema 1 n) v" "n \<le> m"
  shows "only_throws content_error (boundedText m v)"
  using text_schema [OF assms(1)] assms(2)
  by (auto simp: boundedText_def boundedTextOr_def only_throws_def and_then_Inl_iff split: if_splits)

lemma identifier_read:
  assumes "accepts identifierSchema v"
  shows "only_throws content_error (capabilityIdentifier v)"
  unfolding capabilityIdentifier_def
  using bounded_text [of 120 v 120] assms by (auto simp: identifierSchema_def)

lemma resource_read:
  assumes "accepts identifierSchema v"
  shows "only_throws content_error (capabilityResourceIdentifier u v)"
  unfolding capabilityResourceIdentifier_def using identifier_read [OF assms] by auto

lemma identifier_lists:
  assumes "accepts (ArraySchema lo hi identifierSchema) v" "hi \<le> limit" "allowEmpty \<or> 1 \<le> lo"
    and read: "\<And>v. accepts identifierSchema v \<Longrightarrow> only_throws content_error (read v)"
  shows "only_throws content_error (identifier_list read limit allowEmpty v)"
proof -
  obtain xs where xs: "v = Some (JArr xs)" "lo \<le> length xs" "length xs \<le> hi"
    "list_all (\<lambda>x. accepts identifierSchema (Some x)) xs"
    using array_schema [OF assms(1)] by auto
  then have "only_throws content_error (map_result (\<lambda>v. read (Some v)) xs)"
    by (intro only_throws_map_result) (auto simp: list_all_iff intro: read)
  then show ?thesis
    using xs assms(2,3) by (auto simp: identifier_list_def)
qed

lemma number_read:
  "accepts (NumberSchema low high) v \<Longrightarrow> low' \<le> low \<Longrightarrow> high \<le> high' \<Longrightarrow> only_throws content_error (ranged low' high' v)"
  using number_schema [of low high v] by (auto simp: ranged_def)

lemma integer_read:
  assumes "accepts (IntSchema least most) v" "(if allowZero then 0 else 1) \<le> least"
  shows "\<exists>n. integer_value allowZero v = Inr n \<and> pred_option (\<lambda>m. n \<le> m) most"
  using int_schema [OF assms(1)] assms(2) by (auto simp: integer_value_Inr integer_valid_def)

lemma identifiers_read:
  assumes "accepts (ArraySchema lo hi identifierSchema) v" "hi \<le> limit" "allowEmpty \<or> 1 \<le> lo"
  shows "only_throws content_error (capabilityIdentifierList limit allowEmpty v)"
    and "only_throws content_error (capabilityResourceIdentifierList u limit allowEmpty v)"
  using identifier_lists [OF assms] identifier_read resource_read
  by (simp_all add: capabilityIdentifierList_def capabilityResourceIdentifierList_def)

lemmas field_rules = bounded_text identifier_read resource_read number_read identifiers_read

text \<open>The arguments of each tool, in the order the page reads them.\<close>

lemma canvas_read_arguments:
  assumes "accepts canvasReadArguments v"
  shows "only_throws content_error (parse_canvas_read v)"
proof -
  obtain ps where ps: "exactObject [''canvasId'', ''selectedNodeIds'', ''includeViewport''] v = Inr ps"
    "accepts identifierSchema (map_of ps ''canvasId'')"
    "accepts (ArraySchema 0 100 identifierSchema) (map_of ps ''selectedNodeIds'')"
    "map_of ps ''includeViewport'' = Some (JBool True)"
    using strict_read [OF assms [unfolded canvasReadArguments_def], of "[''canvasId'', ''selectedNodeIds'', ''includeViewport'']"]
    by (auto dest: literal_schema)
  then show ?thesis unfolding parse_canvas_read_def by (auto intro!: field_rules)
qed

lemma assets_read_arguments:
  assumes "accepts assetsReadArguments v"
  shows "only_throws content_error (parse_assets_read u v)"
proof -
  obtain ps where ps: "exactObject [''domainProjectId'', ''resourceIds'', ''limit''] v = Inr ps"
    "accepts identifierSchema (map_of ps ''domainProjectId'')"
    "accepts (ArraySchema 0 100 identifierSchema) (map_of ps ''resourceIds'')"
    "accepts (IntSchema 1 (Some 100)) (map_of ps ''limit'')"
    using strict_read [OF assms [unfolded assetsReadArguments_def], of "[''domainProjectId'', ''resourceIds'', ''limit'']"]
    by (auto simp: resourceIdsSchema_def)
  then show ?thesis
    using integer_read [OF ps(4), of False] unfolding parse_assets_read_def by (auto intro!: field_rules)
qed

lemma assets_publish_arguments:
  assumes "accepts assetsPublishArguments v"
  shows "only_throws content_error (parse_assets_publish u v)"
proof -
  obtain ps where ps:
    "exactObject [''resourceId'', ''domainProjectId'', ''displayName'', ''clientMutationId''] v = Inr ps"
    "accepts identifierSchema (map_of ps ''resourceId'')" "accepts identifierSchema (map_of ps ''domainProjectId'')"
    "accepts (TextSchema 1 240) (map_of ps ''displayName'')" "accepts identifierSchema (map_of ps ''clientMutationId'')"
    using strict_read [OF assms [unfolded assetsPublishArguments_def],
        of "[''resourceId'', ''domainProjectId'', ''displayName'', ''clientMutationId'']"]
    by (auto simp: displayNameSchema_def)
  then show ?thesis unfolding parse_assets_publish_def by (auto intro!: field_rules)
qed

lemma skills_load_arguments:
  assumes "accepts skillsLoadArguments v"
  shows "only_throws content_error (parse_skills_load v)"
proof -
  obtain ps where ps: "exactObject [''skillDir'', ''version'', ''checksum''] v = Inr ps"
    "accepts (TextSchema 1 240) (map_of ps ''skillDir'')" "accepts (IntSchema 1 None) (map_of ps ''version'')"
    "accepts ChecksumSchema (map_of ps ''checksum'')"
    using strict_read [OF assms [unfolded skillsLoadArguments_def], of "[''skillDir'', ''version'', ''checksum'']"]
    by (auto simp: displayNameSchema_def)
  then obtain s where "map_of ps ''checksum'' = Some (JStr s)" "validCapabilityChecksum s"
    using checksum_schema by blast
  then show ?thesis
    using ps integer_read [OF ps(3), of False] unfolding parse_skills_load_def by (auto intro!: field_rules)
qed

lemma media_arguments:
  assumes "accepts (media_schema kind parameters) v" "map_of media_kinds kind = Some k"
    and object: "\<And>v. accepts parameters v \<Longrightarrow> \<exists>ps. v = Some (JObj ps)"
  shows "only_throws content_error (parse_media_generate u v)"
proof -
  let ?keys = "[''mediaKind'', ''modelRecordId'', ''modelKey'', ''parameters'', ''sourceResourceIds'',
                 ''targetCanvasNodeId'', ''clientRequestId'']"
  obtain ps where ps: "exactObject ?keys v = Inr ps"
    "accepts identifierSchema (map_of ps ''modelRecordId'')" "accepts (TextSchema 1 120) (map_of ps ''modelKey'')"
    "accepts (ArraySchema 0 100 identifierSchema) (map_of ps ''sourceResourceIds'')"
    "accepts identifierSchema (map_of ps ''targetCanvasNodeId'')" "accepts identifierSchema (map_of ps ''clientRequestId'')"
    "map_of ps ''mediaKind'' = Some (JStr kind)" "accepts parameters (map_of ps ''parameters'')"
    using strict_read [OF assms(1) [unfolded media_schema_def mediaRequestFields_def], of ?keys]
    by (auto simp: resourceIdsSchema_def identifierSchema_def dest: literal_schema)
  then obtain qs where "map_of ps ''parameters'' = Some (JObj qs)" using object by blast
  then show ?thesis
    using ps assms(2) unfolding parse_media_generate_def by (auto intro!: field_rules)
qed

lemma media_generate_arguments:
  assumes "accepts mediaGenerateArguments v"
  shows "only_throws content_error (parse_media_generate u v)"
proof -
  note objects = imageGenerationParametersSchema_def videoGenerationParametersSchema_def
    audioGenerationParametersSchema_def
  have "\<exists>ps. w = Some (JObj ps)"
    if "accepts imageGenerationParametersSchema w \<or> accepts videoGenerationParametersSchema w \<or>
        accepts audioGenerationParametersSchema w" for w
    using that unfolding objects by (auto dest: strict_schema)
  then show ?thesis
    using union_schema [OF assms [unfolded mediaGenerateArguments_def]]
    by (auto intro: media_arguments simp: media_kinds_def)
qed

end

text \<open>Readers that fail with an error of operations, whatever they are given.\<close>

lemma optional_only_throws:
  "(\<And>j. v = Some j \<Longrightarrow> only_throws P (read (Some j))) \<Longrightarrow> only_throws P (optional_value read v)"
  by (cases v) (auto simp: optional_value_def)

lemma text_operation: "only_throws operation_error (boundedText n v)"
  by (cases v rule: object_value.cases) (auto simp: boundedText_def boundedTextOr_def only_throws_def and_then_Inl_iff
      elim!: text_value.elims split: if_splits)

lemma object_operation: "only_throws operation_error (object_value v)"
  by (cases v rule: object_value.cases) simp_all

lemma node_type_operation: "only_throws operation_error (capabilityCanvasNodeType v)"
  unfolding capabilityCanvasNodeType_def by (auto intro!: text_operation split: option.split)

lemma metadata_operation: "only_throws operation_error (capabilityCanvasNodeMetadata v)"
  unfolding capabilityCanvasNodeMetadata_def capabilityCanvasNodeStatus_def
  by (auto intro!: text_operation object_operation optional_only_throws)

context schema_checker
begin

lemmas operation_rules =
  field_rules [THEN content_throws] text_operation object_operation node_type_operation metadata_operation
  optional_only_throws

lemma operation_fields:
  assumes "accepts (StrictSchema (needed ''operationId'' i # needed ''type'' (LiteralSchema (JStr t)) # fs)) v"
    and "fst ` set fs \<subseteq> set keys"
  shows "\<exists>ps. v = Some (JObj ps) \<and> exactObject (''operationId'' # ''type'' # keys) v = Inr ps \<and>
    accepts i (map_of ps ''operationId'') \<and> map_of ps ''type'' = Some (JStr t) \<and>
    list_all (\<lambda>(key, optional, s). optional \<and> map_of ps key = None \<or> accepts s (map_of ps key)) fs"
  using strict_read [OF assms(1), of "''operationId'' # ''type'' # keys"] assms(2) by (auto dest: literal_schema)

lemma point_read: "accepts positionSchema v \<Longrightarrow> only_throws operation_error (capabilityPoint v)"
  using strict_read [of "[needed ''x'' coordinateSchema, needed ''y'' coordinateSchema]" v "[''x'', ''y'']"]
  by (auto simp: positionSchema_def coordinateSchema_def capabilityPoint_def capabilityCoordinate_def
      intro!: operation_rules)

lemma add_node_read:
  assumes "accepts addNodeSchema v"
  shows "only_throws operation_error (parse_add_node v)"
proof -
  obtain ps where ps: "exactObject [''operationId'', ''type'', ''node''] v = Inr ps"
    "accepts identifierSchema (map_of ps ''operationId'')" "accepts canvasNodeSchema (map_of ps ''node'')"
    using operation_fields [OF assms [unfolded addNodeSchema_def operation_schema_def], of "[''node'']"] by auto
  let ?keys = "[''id'', ''type'', ''title'', ''position'', ''width'', ''height'', ''metadata'']"
  obtain node where node: "exactObject ?keys (map_of ps ''node'') = Inr node"
    "accepts identifierSchema (map_of node ''id'')" "accepts (TextSchema 1 240) (map_of node ''title'')"
    "accepts positionSchema (map_of node ''position'')" "accepts (NumberSchema 1 20000) (map_of node ''width'')"
    "accepts (NumberSchema 1 20000) (map_of node ''height'')"
    using strict_read [OF ps(3) [unfolded canvasNodeSchema_def], of ?keys]
    by (auto simp: displayNameSchema_def dimensionSchema_def)
  show ?thesis
    unfolding parse_add_node_def capabilityDimension_def
    using ps node by (auto intro!: operation_rules point_read)
qed

lemma update_node_read:
  assumes "accepts updateNodeSchema v"
  shows "only_throws operation_error (parse_update_node v)"
proof -
  obtain ps where ps: "exactObject [''operationId'', ''type'', ''nodeId'', ''patch''] v = Inr ps"
    "accepts identifierSchema (map_of ps ''operationId'')" "accepts identifierSchema (map_of ps ''nodeId'')"
    using operation_fields [OF assms [unfolded updateNodeSchema_def], of "[''nodeId'', ''patch'']"] by auto
  then show ?thesis unfolding parse_update_node_def by (auto intro!: operation_rules)
qed

lemma delete_node_read:
  assumes "accepts deleteNodeSchema v"
  shows "only_throws operation_error (parse_delete_node v)"
proof -
  obtain ps where "exactObject [''operationId'', ''type'', ''nodeId''] v = Inr ps"
    "accepts identifierSchema (map_of ps ''operationId'')" "accepts identifierSchema (map_of ps ''nodeId'')"
    using operation_fields [OF assms [unfolded deleteNodeSchema_def operation_schema_def], of "[''nodeId'']"] by auto
  then show ?thesis unfolding parse_delete_node_def by (auto intro!: operation_rules)
qed

lemma connect_nodes_read:
  assumes "accepts connectNodesSchema v"
  shows "only_throws operation_error (parse_connect_nodes v)"
proof -
  obtain ps where ps: "exactObject [''operationId'', ''type'', ''connection''] v = Inr ps"
    "accepts identifierSchema (map_of ps ''operationId'')" "accepts canvasConnectionSchema (map_of ps ''connection'')"
    using operation_fields [OF assms [unfolded connectNodesSchema_def operation_schema_def], of "[''connection'']"] by auto
  let ?keys = "[''id'', ''fromNodeId'', ''toNodeId'', ''fromHandleId'', ''toHandleId'']"
  have optional: "only_throws operation_error (optional_value capabilityIdentifier w)"
    if "w = None \<or> accepts identifierSchema w" for w
    using that by (auto intro!: operation_rules)
  obtain c where "exactObject ?keys (map_of ps ''connection'') = Inr c"
    "accepts identifierSchema (map_of c ''id'')" "accepts identifierSchema (map_of c ''fromNodeId'')"
    "accepts identifierSchema (map_of c ''toNodeId'')"
    "map_of c ''fromHandleId'' = None \<or> accepts identifierSchema (map_of c ''fromHandleId'')"
    "map_of c ''toHandleId'' = None \<or> accepts identifierSchema (map_of c ''toHandleId'')"
    using strict_read [OF ps(3) [unfolded canvasConnectionSchema_def], of ?keys] by auto
  then show ?thesis
    unfolding parse_connect_nodes_def using ps
    by (intro only_throws_bind only_throws_if) (auto intro: operation_rules optional)
qed

lemma delete_connections_read:
  assumes "accepts deleteConnectionsSchema v"
  shows "only_throws operation_error (parse_delete_connections v)"
proof -
  obtain ps where "exactObject [''operationId'', ''type'', ''connectionIds''] v = Inr ps"
    "accepts identifierSchema (map_of ps ''operationId'')"
    "accepts (ArraySchema 1 100 identifierSchema) (map_of ps ''connectionIds'')"
    using operation_fields [OF assms [unfolded deleteConnectionsSchema_def operation_schema_def], of "[''connectionIds'']"]
    by auto
  then show ?thesis unfolding parse_delete_connections_def by (auto intro!: operation_rules)
qed

lemma set_viewport_read:
  assumes "accepts setViewportSchema v"
  shows "only_throws operation_error (parse_set_viewport v)"
proof -
  obtain ps where ps: "exactObject [''operationId'', ''type'', ''viewport''] v = Inr ps"
    "accepts identifierSchema (map_of ps ''operationId'')" "accepts viewportSchema (map_of ps ''viewport'')"
    using operation_fields [OF assms [unfolded setViewportSchema_def operation_schema_def], of "[''viewport'']"] by auto
  obtain q where "exactObject [''x'', ''y'', ''zoom''] (map_of ps ''viewport'') = Inr q"
    "accepts coordinateSchema (map_of q ''x'')" "accepts coordinateSchema (map_of q ''y'')"
    "accepts (NumberSchema (1 / 100) 16) (map_of q ''zoom'')"
    using strict_read [OF ps(3) [unfolded viewportSchema_def], of "[''x'', ''y'', ''zoom'']"] by auto
  then show ?thesis
    unfolding parse_set_viewport_def capabilityViewport_def capabilityCoordinate_def
    using ps by (auto simp: coordinateSchema_def intro!: operation_rules)
qed

lemma select_nodes_read:
  assumes "accepts selectNodesSchema v"
  shows "only_throws operation_error (parse_select_nodes v)"
proof -
  obtain ps where "exactObject [''operationId'', ''type'', ''nodeIds''] v = Inr ps"
    "accepts identifierSchema (map_of ps ''operationId'')"
    "accepts (ArraySchema 0 100 identifierSchema) (map_of ps ''nodeIds'')"
    using operation_fields [OF assms [unfolded selectNodesSchema_def operation_schema_def], of "[''nodeIds'']"] by auto
  then show ?thesis unfolding parse_select_nodes_def by (auto intro!: operation_rules)
qed

end

context schema_checker
begin

text \<open>An operation has the type of one of the seven schemas.\<close>

lemma operation_type:
  assumes "accepts (operation_schema t field) v"
  shows "\<exists>ps. v = Some (JObj ps) \<and> map_of ps ''type'' = Some (JStr t)"
  using strict_schema [OF assms [unfolded operation_schema_def]] by (auto dest: literal_schema)

lemma update_type: "accepts updateNodeSchema v \<Longrightarrow> \<exists>ps. v = Some (JObj ps) \<and> map_of ps ''type'' = Some (JStr ''update_node'')"
  unfolding updateNodeSchema_def by (drule strict_schema) (auto dest: literal_schema)

lemma operation_read:
  assumes "accepts canvasOperationSchema v"
  shows "only_throws operation_error (parseCanvasOperation v)"
proof -
  consider "accepts addNodeSchema v" | "accepts updateNodeSchema v" | "accepts deleteNodeSchema v"
    | "accepts connectNodesSchema v" | "accepts deleteConnectionsSchema v" | "accepts setViewportSchema v"
    | "accepts selectNodesSchema v"
    using union_schema [OF assms [unfolded canvasOperationSchema_def]] by auto
  then show ?thesis
  proof cases
    case 1
    with operation_type [OF 1 [unfolded addNodeSchema_def]] add_node_read show ?thesis
      by (auto simp: parseCanvasOperation_def)
  next
    case 2
    with update_type [OF 2] update_node_read show ?thesis by (auto simp: parseCanvasOperation_def)
  next
    case 3
    with operation_type [OF 3 [unfolded deleteNodeSchema_def]] delete_node_read show ?thesis
      by (auto simp: parseCanvasOperation_def)
  next
    case 4
    with operation_type [OF 4 [unfolded connectNodesSchema_def]] connect_nodes_read show ?thesis
      by (auto simp: parseCanvasOperation_def)
  next
    case 5
    with operation_type [OF 5 [unfolded deleteConnectionsSchema_def]] delete_connections_read show ?thesis
      by (auto simp: parseCanvasOperation_def)
  next
    case 6
    with operation_type [OF 6 [unfolded setViewportSchema_def]] set_viewport_read show ?thesis
      by (auto simp: parseCanvasOperation_def)
  next
    case 7
    with operation_type [OF 7 [unfolded selectNodesSchema_def]] select_nodes_read show ?thesis
      by (auto simp: parseCanvasOperation_def)
  qed
qed

lemma apply_ops_arguments:
  assumes "accepts canvasApplyOpsArguments v"
  shows "only_throws operation_error (parse_apply_ops v)"
proof -
  let ?keys = "[''canvasId'', ''baseRevision'', ''clientMutationId'', ''operations'']"
  obtain ps where ps: "exactObject ?keys v = Inr ps" "accepts identifierSchema (map_of ps ''canvasId'')"
    "accepts (IntSchema 0 None) (map_of ps ''baseRevision'')" "accepts identifierSchema (map_of ps ''clientMutationId'')"
    "accepts (ArraySchema 1 100 canvasOperationSchema) (map_of ps ''operations'')"
    using strict_read [OF assms [unfolded canvasApplyOpsArguments_def], of ?keys] by auto
  obtain xs where xs: "map_of ps ''operations'' = Some (JArr xs)" "1 \<le> length xs" "length xs \<le> 100"
    "list_all (\<lambda>x. accepts canvasOperationSchema (Some x)) xs"
    using array_schema [OF ps(5)] by auto
  have "only_throws operation_error (map_result (\<lambda>v. parseCanvasOperation (Some v)) xs)"
    using xs(4) by (intro only_throws_map_result) (auto simp: list_all_iff intro: operation_read)
  then show ?thesis
    using ps(1,2,4) xs integer_read [OF ps(3), of True] unfolding parse_apply_ops_def by (auto intro!: operation_rules)
qed

end

subsection \<open>The server\<close>

definition MCP_TOOL_NAME_MAP :: "(string \<times> tool_name) list" where
  "MCP_TOOL_NAME_MAP =
     [(''canvas_get_state'', CanvasRead), (''canvas_apply_ops'', CanvasApplyOps), (''assets_read'', AssetsRead),
      (''assets_publish'', AssetsPublish), (''media_generate'', MediaGenerate), (''skills_load'', SkillsLoad)]"

text \<open>The tools the server registers: name, schema of the arguments, canonical name.\<close>

definition registered_tools :: "(string \<times> schema \<times> tool_name) list" where
  "registered_tools =
     [(''canvas_get_state'', canvasReadArguments, CanvasRead), (''canvas_apply_ops'', canvasApplyOpsArguments, CanvasApplyOps),
      (''assets_read'', assetsReadArguments, AssetsRead), (''assets_publish'', assetsPublishArguments, AssetsPublish),
      (''media_generate'', mediaGenerateArguments, MediaGenerate), (''skills_load'', skillsLoadArguments, SkillsLoad)]"

record mcp_options =
  mco_threadId :: string
  mco_turnId :: string

datatype mcp_error = McpIdentityEmpty | LoopbackUrlInvalid | LoopbackUrlForeign | LoopbackTokenMissing
| ToolInputInvalid | LoopbackHttp nat | LoopbackResultInvalid

definition createCanvasMcpServer :: "mcp_options \<Rightarrow> (mcp_error, (string \<times> schema \<times> tool_name) list) result" where
  "createCanvasMcpServer options =
     (if mco_threadId options = [] \<or> mco_turnId options = [] then throws McpIdentityEmpty
      else returns (map (\<lambda>(name, arguments, tool). (name, wrapToolArguments arguments, tool)) registered_tools))"

text \<open>
  The handler up to the request. \<open>delivery_of\<close> is the delivery contract zod reads from a value its
  schema accepts.
\<close>

definition tool_request ::
  "(schema \<Rightarrow> json option \<Rightarrow> bool) \<Rightarrow> (json option \<Rightarrow> expected_delivery option) \<Rightarrow> mcp_options \<Rightarrow> string \<Rightarrow>
     tool_name \<Rightarrow> json option \<Rightarrow> (mcp_error, json tool_request_input) result" where
  "tool_request accepts delivery_of options requestId canonicalName input =
     (if \<not> accepts canvasToolEnvelopeSchema input then throws ToolInputInvalid
      else
        (case input of
           Some (JObj ps) \<Rightarrow>
             (case (map_of ps ''arguments'', delivery_of (map_of ps ''expectedDelivery'')) of
                (Some arguments, Some delivery) \<Rightarrow>
                  returns \<lparr>ti_requestId = requestId, ti_threadId = mco_threadId options,
                    ti_turnId = mco_turnId options, ti_toolName = canonicalName, ti_arguments = arguments,
                    ti_expectedDelivery = delivery\<rparr>
              | _ \<Rightarrow> throws ToolInputInvalid)
         | _ \<Rightarrow> throws ToolInputInvalid))"

record mcp_answer =
  ma_text :: string
  ma_structuredContent :: json
  ma_isError :: bool

text \<open>\<^verbatim>\<open>JSON.stringify\<close> leaves out a field that is \<^verbatim>\<open>undefined\<close>.\<close>

definition given_field :: "string \<Rightarrow> string option \<Rightarrow> properties" where
  "given_field key v = (case v of None \<Rightarrow> [] | Some s \<Rightarrow> [(key, JStr s)])"

definition tool_answer :: "(json \<Rightarrow> string) \<Rightarrow> json tool_result \<Rightarrow> mcp_answer" where
  "tool_answer stringify result =
     \<lparr>ma_text = (if tr_succeeded result then stringify (tr_output result)
                 else stringify (JObj (given_field ''errorCode'' (tr_errorCode result) @
                                       given_field ''errorMessage'' (tr_errorMessage result)))),
      ma_structuredContent = tr_output result, ma_isError = (\<not> tr_succeeded result)\<rparr>"

subsection \<open>The proxy to the agent\<close>

record loopback =
  lb_url :: string
  lb_token :: string

definition loopback_new :: "url_parser \<Rightarrow> string \<Rightarrow> string \<Rightarrow> (mcp_error, loopback) result" where
  "loopback_new parse_url url token =
     (case parse_url url of
        None \<Rightarrow> throws LoopbackUrlInvalid
      | Some u \<Rightarrow>
          if url_protocol u \<noteq> ''http:'' \<or> url_hostname u \<noteq> ''127.0.0.1'' \<or> url_port u = None \<or>
             url_pathname u \<noteq> ''/'' \<or> url_search u \<noteq> [] \<or> url_hash u \<noteq> []
          then throws LoopbackUrlForeign
          else if token = [] then throws LoopbackTokenMissing
          else returns \<lparr>lb_url = url_origin u, lb_token = token\<rparr>)"

text \<open>The request: its address, and what the agent's gate sees of it. Its body is the request of the tool.\<close>

definition loopback_address :: "loopback \<Rightarrow> string" where
  "loopback_address l = lb_url l @ ''/internal/mcp/tools''"

definition loopback_request :: "loopback \<Rightarrow> gate_request" where
  "loopback_request l = \<lparr>rq_origin = None, rq_token = Some (lb_token l), rq_query = NoQuery\<rparr>"

text \<open>The answer: status and body; a body that is no JSON is \<open>None\<close>.\<close>

definition loopback_answer ::
  "('v option \<Rightarrow> json tool_result option) \<Rightarrow> nat \<Rightarrow> 'v option \<Rightarrow> (mcp_error, json tool_result) result" where
  "loopback_answer shape status body =
     (if status < 200 \<or> 299 < status then throws (LoopbackHttp status)
      else case parseToolResultInput shape body of
             Inl _ \<Rightarrow> throws LoopbackResultInvalid
           | Inr r \<Rightarrow> returns r)"

subsection \<open>Properties\<close>

text \<open>The tools registered are those of the name map and of the list in \<^verbatim>\<open>contracts.ts\<close>.\<close>

lemma registered_names:
  "map (\<lambda>(name, arguments, tool). (name, tool)) registered_tools = MCP_TOOL_NAME_MAP"
  "map fst MCP_TOOL_NAME_MAP = CANVAS_MCP_TOOL_NAMES"
  "map snd MCP_TOOL_NAME_MAP = map fst CANONICAL_TOOL_NAMES"
  by (simp_all add: registered_tools_def MCP_TOOL_NAME_MAP_def CANVAS_MCP_TOOL_NAMES_def CANONICAL_TOOL_NAMES_def)

lemma tool_request_returns:
  assumes "tool_request accepts delivery_of options requestId tool input = returns q"
  shows "\<exists>ps delivery. input = Some (JObj ps) \<and> map_of ps ''arguments'' = Some (ti_arguments q) \<and>
    delivery_of (map_of ps ''expectedDelivery'') = Some delivery \<and>
    q = \<lparr>ti_requestId = requestId, ti_threadId = mco_threadId options, ti_turnId = mco_turnId options,
         ti_toolName = tool, ti_arguments = ti_arguments q, ti_expectedDelivery = delivery\<rparr>"
  using assms by (auto simp: tool_request_def split: if_splits option.splits json.splits)

lemma wrapped_arguments:
  assumes "schema_checker accepts" "accepts (wrapToolArguments arguments) (Some (JObj ps))"
  shows "accepts arguments (map_of ps ''arguments'')"
  using schema_checker.strict_schema [OF assms(1) assms(2) [unfolded wrapToolArguments_def]] by auto

lemma arguments_refused:
  assumes "schema_checker accepts" "(name, arguments, tool) \<in> set registered_tools" "accepts arguments v"
    and "map_of CANONICAL_TOOL_NAMES tool = Some toolName"
  shows "only_throws (\<lambda>e. content_error e \<or> tool = CanvasApplyOps \<and> operation_error e)
    (parseAgentCapabilityArguments parse_url toolName v)"
proof -
  note names = CANONICAL_TOOL_NAMES_def parseAgentCapabilityArguments_def toolNames_def
  have by_reader: ?thesis
    if "parseAgentCapabilityArguments parse_url toolName v = r"
      and "only_throws (if tool = CanvasApplyOps then operation_error else content_error) r" for r
    using that by (auto simp: only_throws_def split: if_splits)
  consider "tool = CanvasRead" "arguments = canvasReadArguments" | "tool = CanvasApplyOps" "arguments = canvasApplyOpsArguments"
    | "tool = AssetsRead" "arguments = assetsReadArguments" | "tool = AssetsPublish" "arguments = assetsPublishArguments"
    | "tool = MediaGenerate" "arguments = mediaGenerateArguments" | "tool = SkillsLoad" "arguments = skillsLoadArguments"
    using assms(2) by (auto simp: registered_tools_def)
  then show ?thesis
  proof cases
    case 1
    with schema_checker.canvas_read_arguments [OF assms(1)] show ?thesis
      by (intro by_reader [of "parse_canvas_read v"]) (use assms(3,4) in \<open>auto simp: names\<close>)
  next
    case 2
    with schema_checker.apply_ops_arguments [OF assms(1)] show ?thesis
      by (intro by_reader [of "parse_apply_ops v"]) (use assms(3,4) in \<open>auto simp: names\<close>)
  next
    case 3
    with schema_checker.assets_read_arguments [OF assms(1)] show ?thesis
      by (intro by_reader [of "parse_assets_read parse_url v"]) (use assms(3,4) in \<open>auto simp: names\<close>)
  next
    case 4
    with schema_checker.assets_publish_arguments [OF assms(1)] show ?thesis
      by (intro by_reader [of "parse_assets_publish parse_url v"]) (use assms(3,4) in \<open>auto simp: names\<close>)
  next
    case 5
    with schema_checker.media_generate_arguments [OF assms(1)] show ?thesis
      by (intro by_reader [of "parse_media_generate parse_url v"]) (use assms(3,4) in \<open>auto simp: names\<close>)
  next
    case 6
    with schema_checker.skills_load_arguments [OF assms(1)] show ?thesis
      by (intro by_reader [of "parse_skills_load v"]) (use assms(3,4) in \<open>auto simp: names\<close>)
  qed
qed


definition sample_digest :: string where
  "sample_digest = replicate 64 (CHR ''a'')"

lemma sample_digest_valid: "validCapabilityChecksum sample_digest"
  by (simp add: sample_digest_def validCapabilityChecksum_def list_all_iff)

definition sample_skill :: json where
  "sample_skill = JObj [(''skillDir'', JStr '' ''), (''version'', JNum 1), (''checksum'', JStr sample_digest)]"

definition sample_call :: json where
  "sample_call = JObj [(''arguments'', sample_skill), (''expectedDelivery'', JNull)]"

definition sample_delivery :: expected_delivery where
  "sample_delivery = \<lparr>delivery_kind = Answer, requiredArtifacts = None, targetCanvasId = None,
     completionCriteria = [\<lparr>fact = FinalMessage, artifact = None\<rparr>]\<rparr>"

definition sample_tool_request :: "json tool_request_input" where
  "sample_tool_request = \<lparr>ti_requestId = ''r'', ti_threadId = ''t'', ti_turnId = ''u'', ti_toolName = SkillsLoad,
     ti_arguments = sample_skill, ti_expectedDelivery = sample_delivery\<rparr>"


text \<open>
  A call goes through: the proxy that has the agent's token passes the gate of the route, and the agent hands the
  arguments of the call, unchanged, to the page that is connected.
\<close>

lemma tool_call_reaches_the_page:
  assumes "loopback_new parse_url url (cfg_token config) = returns l"
    and "tool_request accepts delivery_of options requestId tool input = returns q" "canvasToolRequest_valid q"
    and "ag_current a = Some n" "js_get (ag_sessions a) n = Some s" "disconnectReason s = None"
    and "\<not> js_has (pending s) requestId" "\<not> js_has (completed s) requestId"
  shows "gate config InternalTools (loopback_request l) = None"
    and "fst (request_canvas_tool (Some q) now None a) = HttpOk 200"
    and "\<exists>s'. js_get (ag_sessions (snd (request_canvas_tool (Some q) now None a))) n = Some s' \<and>
      emitted s' = emitted s @ [\<lparr>ev_requestId = requestId, ev_threadId = mco_threadId options,
        ev_turnId = mco_turnId options, ev_toolName = tool, ev_arguments = ti_arguments q,
        ev_expectedDelivery = ti_expectedDelivery q, ev_createdAt = now\<rparr>]"
proof -
  show "gate config InternalTools (loopback_request l) = None"
    using assms(1)
    by (auto simp: gate_defs loopback_new_def loopback_request_def assertInternalRequestSecurity_def
        constantTimeTextEqual_iff split: option.splits if_splits)
  obtain delivery where q: "q = \<lparr>ti_requestId = requestId, ti_threadId = mco_threadId options,
      ti_turnId = mco_turnId options, ti_toolName = tool, ti_arguments = ti_arguments q, ti_expectedDelivery = delivery\<rparr>"
    using tool_request_returns [OF assms(2)] by auto
  have ids: "ti_requestId q = requestId" "ti_threadId q = mco_threadId options" "ti_turnId q = mco_turnId options"
    "ti_toolName q = tool"
    by (subst q, simp)+
  have ne: "requestId \<noteq> []" "mco_threadId options \<noteq> []" "mco_turnId options \<noteq> []"
    using assms(3) by (auto simp: canvasToolRequest_valid_def boundedIdentity_def ids)
  show "fst (request_canvas_tool (Some q) now None a) = HttpOk 200"
    and "\<exists>s'. js_get (ag_sessions (snd (request_canvas_tool (Some q) now None a))) n = Some s' \<and>
      emitted s' = emitted s @ [\<lparr>ev_requestId = requestId, ev_threadId = mco_threadId options,
        ev_turnId = mco_turnId options, ev_toolName = tool, ev_arguments = ti_arguments q,
        ev_expectedDelivery = ti_expectedDelivery q, ev_createdAt = now\<rparr>]"
    using assms(3-) ne
    by (simp_all add: request_canvas_tool_def requestTool_def Let_def tool_call_of_def ids js_get_set)
qed

text \<open>The answer Codex gets is an error exactly if the tool failed, and then it names code and message.\<close>

lemma tool_answer_error:
  assumes "toolResult_valid r" "\<not> tr_succeeded r"
  shows "ma_isError (tool_answer stringify r) \<and>
    (\<exists>code message. ma_text (tool_answer stringify r) =
       stringify (JObj [(''errorCode'', JStr code), (''errorMessage'', JStr message)]))"
proof -
  obtain code message where "tr_errorCode r = Some code" "tr_errorMessage r = Some message"
    using toolResult_valid_error_iff [OF assms(1)] assms(2) by auto
  then have "ma_text (tool_answer stringify r) = stringify (JObj [(''errorCode'', JStr code), (''errorMessage'', JStr message)])"
    using assms(2) by (simp add: tool_answer_def given_field_def)
  then show ?thesis using assms(2) by (auto simp: tool_answer_def)
qed

end
