(* ===== verification/TaskQuotes.thy ===== *)
theory TaskQuotes
  imports Capabilities "HOL-Library.Multiset"
begin

text \<open>
  What a generation will cost: \<^verbatim>\<open>web/src/lib/billing/task-billing-quote.ts\<close> builds the request for a quote
  from the settings of a node, submits a task under the quote the user confirmed and reads the quote of a
  price that changed; \<^verbatim>\<open>canvas-generation-batch-billing.ts\<close> quotes a batch. The backend that answers a
  request is the parameter \<open>load\<close>. \<^verbatim>\<open>Number(text)\<close>, where finite, and \<^verbatim>\<open>String(number)\<close> are the parameters
  \<open>number_of\<close> and \<open>number_text\<close>.
\<close>

subsection \<open>Requests\<close>

record quote_config =
  qc_channelId :: string
  qc_model :: string
  qc_size :: string
  qc_quality :: string
  qc_videoSeconds :: string
  qc_vquality :: string
  qc_videoGenerateAudio :: bool
  qc_superResolutionEnabled :: bool
  qc_superResolutionResolution :: string
  qc_superResolutionVersion :: string
  qc_superResolutionFps :: rat

datatype quote_mode = ImageQuote | VideoQuote

record quote_request =
  qr_projectId :: string
  qr_type :: string
  qr_operation :: string
  qr_batchCount :: nat
  qr_mode :: quote_mode
  qr_referenceImageCount :: int
  qr_referenceVideoCount :: int
  qr_config :: quote_config

datatype quote_label = CanvasLabel | ChannelLabel | ModelLabel | ImageCountLabel | VideoCountLabel

datatype quote_error =
  QuoteConfigMissing quote_label | QuoteCountInvalid quote_label | TaskConfigMissing
| NothingToQuote | QuoteTargetGone string | ConfirmationMissing string | QuoteRefused string

record quote_usage =
  qu_referenceImageCount :: rat
  qu_referenceVideoCount :: rat

fun optionalString :: "(rat \<Rightarrow> string) \<Rightarrow> json option \<Rightarrow> string" where
  "optionalString number_text (Some (JStr s)) = s"
| "optionalString number_text (Some (JNum q)) = number_text q"
| "optionalString number_text _ = []"

definition requiredString :: "(rat \<Rightarrow> string) \<Rightarrow> json option \<Rightarrow> quote_label \<Rightarrow> (quote_error, string) result" where
  "requiredString number_text value label =
     (let text = js_trim (optionalString number_text value)
      in if text = [] then throws (QuoteConfigMissing label) else returns text)"

fun finiteNumber :: "(string \<Rightarrow> rat option) \<Rightarrow> json option \<Rightarrow> rat" where
  "finiteNumber number_of (Some (JNum q)) = q"
| "finiteNumber number_of (Some (JStr s)) =
     (if js_trim s = [] then 0 else case number_of s of None \<Rightarrow> 0 | Some q \<Rightarrow> q)"
| "finiteNumber number_of _ = 0"

definition nonNegativeInteger :: "rat \<Rightarrow> quote_label \<Rightarrow> (quote_error, int) result" where
  "nonNegativeInteger q label =
     (if \<not> (whole q \<and> safe_integer \<lfloor>q\<rfloor>) \<or> q < 0 then throws (QuoteCountInvalid label) else returns \<lfloor>q\<rfloor>)"

text \<open>\<^verbatim>\<open>value === true || value === "true"\<close>\<close>

definition switched_on :: "json option \<Rightarrow> bool" where
  "switched_on v \<longleftrightarrow> v = Some (JBool True) \<or> v = Some (JStr ''true'')"

definition buildTaskBillingQuoteRequest ::
  "(string \<Rightarrow> rat option) \<Rightarrow> (rat \<Rightarrow> string) \<Rightarrow> string \<Rightarrow> quote_mode \<Rightarrow> string \<Rightarrow> nat \<Rightarrow> quote_usage \<Rightarrow> properties \<Rightarrow>
   (quote_error, quote_request) result" where
  "buildTaskBillingQuoteRequest number_of number_text projectId mode operation batchCount usage config =
     (let fps = finiteNumber number_of (map_of config ''videoSuperResolutionFps'');
          text = (\<lambda>key. optionalString number_text (map_of config key))
      in and_then (requiredString number_text (Some (JStr projectId)) CanvasLabel) (\<lambda>project.
         and_then (nonNegativeInteger (qu_referenceImageCount usage) ImageCountLabel) (\<lambda>images.
         and_then (nonNegativeInteger (qu_referenceVideoCount usage) VideoCountLabel) (\<lambda>videos.
         and_then (requiredString number_text (map_of config ''channelId'') ChannelLabel) (\<lambda>channel.
         and_then (requiredString number_text (map_of config ''model'') ModelLabel) (\<lambda>model.
         returns \<lparr>qr_projectId = project,
           qr_type = (if mode = ImageQuote then ''canvas_image'' else ''canvas_video''),
           qr_operation = operation, qr_batchCount = batchCount, qr_mode = mode,
           qr_referenceImageCount = images, qr_referenceVideoCount = videos,
           qr_config = \<lparr>qc_channelId = channel, qc_model = model, qc_size = text ''size'', qc_quality = text ''quality'',
             qc_videoSeconds = text ''videoSeconds'', qc_vquality = text ''vquality'',
             qc_videoGenerateAudio = switched_on (map_of config ''videoGenerateAudio''),
             qc_superResolutionEnabled = switched_on (map_of config ''videoSuperResolutionEnabled''),
             qc_superResolutionResolution = text ''videoSuperResolutionResolution'',
             qc_superResolutionVersion = text ''videoSuperResolutionVersion'',
             qc_superResolutionFps = (if fps > 0 then fps else 0)\<rparr>\<rparr>))))))"

subsection \<open>Quotes\<close>

record usage_adjustment =
  ua_actualQuantity :: int
  ua_includedQuantity :: int
  ua_billableQuantity :: int
  ua_unitPriceMicrocredits :: int
  ua_perTaskAmountMicrocredits :: int
  ua_amountMicrocredits :: int

datatype billing_mode = FixedRequest | PerSecond

record task_quote =
  tq_amountMicrocredits :: rat
  tq_perTaskAmountMicrocredits :: rat
  tq_taskCount :: rat
  tq_priceVersion :: rat
  tq_billingMode :: billing_mode
  tq_pricingResolution :: string
  tq_pricingInputVariant :: string
  tq_quantity :: rat
  tq_enhancementAmountMicrocredits :: rat
  tq_usageAdjustment :: "usage_adjustment option"
  tq_quoteFingerprint :: string

record confirmed_quote =
  cq_priceVersion :: rat
  cq_quoteFingerprint :: string

definition taskBillingQuoteMatches :: "confirmed_quote option \<Rightarrow> confirmed_quote \<Rightarrow> bool" where
  "taskBillingQuoteMatches left right =
     (case left of None \<Rightarrow> False
      | Some l \<Rightarrow> cq_priceVersion l = cq_priceVersion right \<and> cq_quoteFingerprint l = cq_quoteFingerprint right)"

text \<open>\<^verbatim>\<open>value[key]\<close> if it is a safe integer that is not negative.\<close>

definition natural_field :: "properties \<Rightarrow> string \<Rightarrow> int option" where
  "natural_field ps key =
     (case map_of ps key of
        Some (JNum q) \<Rightarrow> if whole q \<and> safe_integer \<lfloor>q\<rfloor> \<and> 0 \<le> q then Some \<lfloor>q\<rfloor> else None
      | _ \<Rightarrow> None)"

text \<open>\<open>None\<close> is \<^verbatim>\<open>null\<close>, \<open>Some None\<close> is \<^verbatim>\<open>undefined\<close>.\<close>

fun parseUsageAdjustment :: "json option \<Rightarrow> usage_adjustment option option" where
  "parseUsageAdjustment None = Some None"
| "parseUsageAdjustment (Some (JObj ps)) =
     (if map_of ps ''metric'' \<noteq> Some (JStr ''input_image'') then None
      else case (natural_field ps ''actualQuantity'', natural_field ps ''includedQuantity'',
        natural_field ps ''billableQuantity'', natural_field ps ''unitPriceMicrocredits'',
        natural_field ps ''perTaskAmountMicrocredits'', natural_field ps ''amountMicrocredits'') of
        (Some actual, Some included, Some billable, Some unit, Some perTask, Some amount) \<Rightarrow>
          Some (Some \<lparr>ua_actualQuantity = actual, ua_includedQuantity = included, ua_billableQuantity = billable,
            ua_unitPriceMicrocredits = unit, ua_perTaskAmountMicrocredits = perTask, ua_amountMicrocredits = amount\<rparr>)
      | _ \<Rightarrow> None)"
| "parseUsageAdjustment _ = None"

definition number_field :: "properties \<Rightarrow> string \<Rightarrow> rat option" where
  "number_field ps key = (case map_of ps key of Some (JNum q) \<Rightarrow> Some q | _ \<Rightarrow> None)"

definition text_field :: "properties \<Rightarrow> string \<Rightarrow> string option" where
  "text_field ps key = (case map_of ps key of Some (JStr s) \<Rightarrow> Some s | _ \<Rightarrow> None)"

definition billing_mode_field :: "properties \<Rightarrow> billing_mode option" where
  "billing_mode_field ps =
     (if map_of ps ''billingMode'' = Some (JStr ''fixed_request'') then Some FixedRequest
      else if map_of ps ''billingMode'' = Some (JStr ''per_second'') then Some PerSecond else None)"

definition read_quote :: "properties \<Rightarrow> task_quote option" where
  "read_quote q =
     (case (number_field q ''amountMicrocredits'', number_field q ''perTaskAmountMicrocredits'',
        number_field q ''taskCount'', number_field q ''priceVersion'', billing_mode_field q,
        text_field q ''pricingResolution'', text_field q ''pricingInputVariant'', number_field q ''quantity'',
        number_field q ''enhancementAmountMicrocredits'', text_field q ''quoteFingerprint'',
        parseUsageAdjustment (map_of q ''usageAdjustment'')) of
        (Some amount, Some perTask, Some tasks, Some version, Some mode, Some resolution, Some variant, Some quantity,
          Some enhancement, Some fingerprint, Some usage) \<Rightarrow>
          Some \<lparr>tq_amountMicrocredits = amount, tq_perTaskAmountMicrocredits = perTask, tq_taskCount = tasks,
            tq_priceVersion = version, tq_billingMode = mode, tq_pricingResolution = resolution,
            tq_pricingInputVariant = variant, tq_quantity = quantity, tq_enhancementAmountMicrocredits = enhancement,
            tq_usageAdjustment = usage, tq_quoteFingerprint = fingerprint\<rparr>
      | _ \<Rightarrow> None)"

definition taskPriceChangedQuoteFromEnvelope :: "json option \<Rightarrow> task_quote option" where
  "taskPriceChangedQuoteFromEnvelope value =
     (case value of
        Some (JObj ps) \<Rightarrow>
          (case map_of ps ''data'' of
             Some (JObj ds) \<Rightarrow>
               if map_of ds ''errorCode'' \<noteq> Some (JStr ''PRICE_CHANGED'') then None
               else (case map_of ds ''currentQuote'' of Some (JObj q) \<Rightarrow> read_quote q | _ \<Rightarrow> None)
           | _ \<Rightarrow> None)
      | _ \<Rightarrow> None)"

subsection \<open>The submission of a task\<close>

record task_input =
  tk_projectId :: "string option"
  tk_operation :: "string option"
  tk_input :: "properties option"
  tk_quotePriceVersion :: "rat option"
  tk_quoteFingerprint :: "string option"
  tk_other :: properties

definition list_length :: "json option \<Rightarrow> nat" where
  "list_length v = (case v of Some (JArr xs) \<Rightarrow> length xs | _ \<Rightarrow> 0)"

definition task_mode :: "properties option \<Rightarrow> quote_mode option" where
  "task_mode input =
     (case input of None \<Rightarrow> None
      | Some ps \<Rightarrow> if map_of ps ''mode'' = Some (JStr ''image'') then Some ImageQuote
                   else if map_of ps ''mode'' = Some (JStr ''video'') then Some VideoQuote else None)"

definition mode_name :: "quote_mode \<Rightarrow> string" where
  "mode_name mode = (if mode = ImageQuote then ''image'' else ''video'')"

definition quoteRequestFromTaskInput ::
  "(string \<Rightarrow> rat option) \<Rightarrow> (rat \<Rightarrow> string) \<Rightarrow> task_input \<Rightarrow> (quote_error, quote_request option) result" where
  "quoteRequestFromTaskInput number_of number_text input =
     (case task_mode (tk_input input) of
        None \<Rightarrow> returns None
      | Some mode \<Rightarrow>
          (case map_of (the (tk_input input)) ''config'' of
             Some (JObj config) \<Rightarrow>
               (let operation = (case tk_operation input of None \<Rightarrow> [] | Some s \<Rightarrow> js_trim s)
                in and_then (requiredString number_text (map_option JStr (tk_projectId input)) CanvasLabel) (\<lambda>project.
                   and_then (buildTaskBillingQuoteRequest number_of number_text project mode
                     (if operation = [] then mode_name mode else operation) 1
                     \<lparr>qu_referenceImageCount = of_nat (list_length (map_of (the (tk_input input)) ''referenceImages'')),
                      qu_referenceVideoCount = of_nat (list_length (map_of (the (tk_input input)) ''referenceVideos''))\<rparr>
                     config) (\<lambda>request. returns (Some request))))
           | _ \<Rightarrow> throws TaskConfigMissing))"

definition prepareGenerationTaskSubmission ::
  "(string \<Rightarrow> rat option) \<Rightarrow> (rat \<Rightarrow> string) \<Rightarrow> (quote_request \<Rightarrow> (quote_error, task_quote) result) \<Rightarrow>
   task_input \<Rightarrow> confirmed_quote option \<Rightarrow> (quote_error, task_input) result" where
  "prepareGenerationTaskSubmission number_of number_text load input expectedQuote =
     and_then (quoteRequestFromTaskInput number_of number_text input) (\<lambda>quoteRequest.
       case quoteRequest of
         None \<Rightarrow> returns input
       | Some request \<Rightarrow>
           (case expectedQuote of
              Some q \<Rightarrow> returns (input\<lparr>tk_quotePriceVersion := Some (cq_priceVersion q),
                tk_quoteFingerprint := Some (cq_quoteFingerprint q)\<rparr>)
            | None \<Rightarrow> and_then (load request) (\<lambda>q.
                returns (input\<lparr>tk_quotePriceVersion := Some (tq_priceVersion q),
                  tk_quoteFingerprint := Some (tq_quoteFingerprint q)\<rparr>))))"

subsection \<open>Batches\<close>

record quote_target =
  qt_targetId :: string
  qt_request :: quote_request

record quote_confirmation =
  cf_targetId :: string
  cf_priceVersion :: rat
  cf_quoteFingerprint :: string

record batch_quote =
  bq_amountMicrocredits :: rat
  bq_confirmations :: "quote_confirmation list"

definition taskQuoteBatchLimit :: nat where
  "taskQuoteBatchLimit = 15"

text \<open>The targets of a batch as they are now, by their identifier.\<close>

definition currentGenerationTargets :: "('t \<Rightarrow> string) \<Rightarrow> 't list \<Rightarrow> 't list \<Rightarrow> (quote_error, 't list) result" where
  "currentGenerationTargets ident requested current =
     (let currentById = js_map_of (map (\<lambda>t. (ident t, t)) current)
      in map_result (\<lambda>t. case js_get currentById (ident t) of
           None \<Rightarrow> throws (QuoteTargetGone (ident t)) | Some c \<Rightarrow> returns c) requested)"

text \<open>
  The code groups by \<^verbatim>\<open>JSON.stringify\<close> of the request with a batch count of 1; all requests are built with their keys
  in one order, so two have the same text exactly if they are equal.
\<close>

definition normalized :: "quote_request \<Rightarrow> quote_request" where
  "normalized request = request\<lparr>qr_batchCount := 1\<rparr>"

type_synonym quote_groups = "(quote_request, string list) js_map"

definition add_quote_target :: "quote_groups \<Rightarrow> quote_target \<Rightarrow> quote_groups" where
  "add_quote_target groups t =
     (let key = normalized (qt_request t)
      in case js_get groups key of
           Some targetIds \<Rightarrow> js_set groups key (targetIds @ [qt_targetId t])
         | None \<Rightarrow> js_set groups key [qt_targetId t])"

text \<open>The loop that cuts a group into requests the backend takes.\<close>

function chunks_from :: "nat \<Rightarrow> 'a list \<Rightarrow> 'a list list" where
  "chunks_from offset xs =
     (if offset < length xs
      then take taskQuoteBatchLimit (drop offset xs) # chunks_from (offset + taskQuoteBatchLimit) xs
      else [])"
  by pat_completeness auto
termination
  by (relation "measure (\<lambda>(offset, xs). length xs - offset)") (auto simp: taskQuoteBatchLimit_def)

declare chunks_from.simps [simp del]

definition groupQuoteTargets :: "quote_target list \<Rightarrow> (quote_request \<times> string list) list" where
  "groupQuoteTargets targets =
     concat (map (\<lambda>(request, targetIds). map (Pair request) (chunks_from 0 targetIds))
       (foldl add_quote_target [] targets))"

text \<open>
  \<^verbatim>\<open>Promise.all\<close>: when several requests fail the code reports the one that failed first in time, the model the
  first of the list.
\<close>

definition quoted_groups ::
  "(quote_request \<Rightarrow> (quote_error, task_quote) result) \<Rightarrow> quote_target list \<Rightarrow>
   (quote_error, (string list \<times> task_quote) list) result" where
  "quoted_groups load targets =
     map_result (\<lambda>(request, targetIds).
         and_then (load (request\<lparr>qr_batchCount := length targetIds\<rparr>)) (\<lambda>quote. returns (targetIds, quote)))
       (groupQuoteTargets targets)"

definition confirmation_of :: "task_quote \<Rightarrow> string \<Rightarrow> quote_confirmation" where
  "confirmation_of quote targetId =
     \<lparr>cf_targetId = targetId, cf_priceVersion = tq_priceVersion quote, cf_quoteFingerprint = tq_quoteFingerprint quote\<rparr>"

definition confirmation_entries :: "(string list \<times> task_quote) list \<Rightarrow> (string \<times> quote_confirmation) list" where
  "confirmation_entries quoted =
     concat (map (\<lambda>(targetIds, quote). map (\<lambda>targetId. (targetId, confirmation_of quote targetId)) targetIds) quoted)"

definition quoteGenerationBatch ::
  "(quote_request \<Rightarrow> (quote_error, task_quote) result) \<Rightarrow> quote_target list \<Rightarrow> (quote_error, batch_quote) result" where
  "quoteGenerationBatch load targets =
     (if targets = [] then throws NothingToQuote
      else and_then (quoted_groups load targets) (\<lambda>quoted.
        let confirmationByTargetId = js_map_of (confirmation_entries quoted)
        in and_then (map_result (\<lambda>t. case js_get confirmationByTargetId (qt_targetId t) of
               None \<Rightarrow> throws (ConfirmationMissing (qt_targetId t)) | Some c \<Rightarrow> returns c) targets) (\<lambda>confirmations.
             returns \<lparr>bq_amountMicrocredits = foldl (\<lambda>sum group. sum + tq_amountMicrocredits (snd group)) 0 quoted,
               bq_confirmations = confirmations\<rparr>)))"

subsection \<open>Groups and chunks\<close>

lemma concat_chunks_from: "concat (chunks_from offset xs) = drop offset xs"
proof (induction offset xs rule: chunks_from.induct)
  case (1 offset xs)
  then show ?case
    by (subst chunks_from.simps) (auto simp: append_take_drop_id add.commute simp flip: drop_drop)
qed

lemma chunk_sizes: "c \<in> set (chunks_from offset xs) \<Longrightarrow> c \<noteq> [] \<and> length c \<le> taskQuoteBatchLimit"
proof (induction offset xs rule: chunks_from.induct)
  case (1 offset xs)
  then show ?case
    by (subst (asm) (2) chunks_from.simps) (auto simp: taskQuoteBatchLimit_def split: if_splits)
qed

text \<open>A list of groups as the pairs of a request and a target it stands for.\<close>

definition group_pairs :: "(quote_request \<times> string list) list \<Rightarrow> (quote_request \<times> string) list" where
  "group_pairs gs = concat (map (\<lambda>(request, ids). map (Pair request) ids) gs)"

lemma group_pairs_simps [simp]:
  "group_pairs [] = []" "group_pairs ((r, ids) # gs) = map (Pair r) ids @ group_pairs gs"
  "group_pairs (gs @ hs) = group_pairs gs @ group_pairs hs"
  by (simp_all add: group_pairs_def)

lemma pairs_js_set:
  "distinct (js_keys gs) \<Longrightarrow> mset (group_pairs (js_set gs k (case js_get gs k of Some ids \<Rightarrow> ids @ [x] | None \<Rightarrow> [x])))
    = add_mset (k, x) (mset (group_pairs gs))"
proof (induction gs)
  case (Cons g gs)
  obtain r ids where g: "g = (r, ids)" by fastforce
  show ?case
  proof (cases "r = k")
    case True
    then show ?thesis using g by simp
  next
    case False
    then show ?thesis using g Cons by simp
  qed
qed simp

lemma add_quote_target_alt: "add_quote_target groups t =
  (let key = normalized (qt_request t)
   in js_set groups key (case js_get groups key of Some ids \<Rightarrow> ids @ [qt_targetId t] | None \<Rightarrow> [qt_targetId t]))"
  by (simp add: add_quote_target_def Let_def split: option.splits)

lemma grouped_pairs:
  "distinct (js_keys gs) \<Longrightarrow> mset (group_pairs (foldl add_quote_target gs ts))
    = mset (group_pairs gs) + mset (map (\<lambda>t. (normalized (qt_request t), qt_targetId t)) ts)"
proof (induction ts arbitrary: gs)
  case (Cons t ts)
  have "distinct (js_keys (add_quote_target gs t))"
    using Cons.prems by (simp add: add_quote_target_alt Let_def)
  then show ?case
    using Cons by (simp add: add_quote_target_alt Let_def pairs_js_set)
qed simp

lemma group_pairs_chunked:
  "group_pairs (concat (map (\<lambda>(request, ids). map (Pair request) (chunks_from 0 ids)) gs)) = group_pairs gs"
proof -
  have "group_pairs (map (Pair request) cs) = map (Pair request) (concat cs)" for request and cs :: "string list list"
    by (induction cs) auto
  then show ?thesis by (induction gs) (auto simp: concat_chunks_from)
qed

lemma groupQuoteTargets_pairs:
  "mset (group_pairs (groupQuoteTargets ts)) = mset (map (\<lambda>t. (normalized (qt_request t), qt_targetId t)) ts)"
  by (simp add: groupQuoteTargets_def group_pairs_chunked grouped_pairs)

lemma groupQuoteTargets_sizes:
  "(request, ids) \<in> set (groupQuoteTargets ts) \<Longrightarrow> ids \<noteq> [] \<and> length ids \<le> taskQuoteBatchLimit"
  by (auto simp: groupQuoteTargets_def dest: chunk_sizes)

subsection \<open>What the user confirms\<close>

definition answered_for :: "(quote_request \<Rightarrow> (quote_error, task_quote) result) \<Rightarrow>
    quote_request \<times> string list \<Rightarrow> string list \<times> task_quote \<Rightarrow> bool" where
  "answered_for load g a \<longleftrightarrow>
     fst a = snd g \<and> load ((fst g)\<lparr>qr_batchCount := length (snd g)\<rparr>) = returns (snd a)"

lemma quoted_groups_returns:
  "quoted_groups load ts = returns quoted \<longleftrightarrow> list_all2 (answered_for load) (groupQuoteTargets ts) quoted"
proof -
  have "(and_then (load (r\<lparr>qr_batchCount := length ids\<rparr>)) (\<lambda>quote. returns (ids, quote)) = returns a)
    = answered_for load (r, ids) a" for r ids a
    by (cases a) (auto simp: answered_for_def and_then_Inr_iff)
  then show ?thesis
    by (simp add: quoted_groups_def map_result_Inr_iff case_prod_beta' flip: prod.collapse [where 'a = quote_request])
qed

lemma entry_names: "map fst (confirmation_entries quoted) = concat (map fst quoted)"
  by (induction quoted) (auto simp: confirmation_entries_def comp_def)

lemma answered_names: "list_all2 (answered_for load) gs quoted \<Longrightarrow> concat (map fst quoted) = map snd (group_pairs gs)"
  by (induction rule: list_all2_induct) (auto simp: answered_for_def comp_def)

lemma answered_entries:
  assumes "list_all2 (answered_for load) gs quoted" "(request, x) \<in> set (group_pairs gs)"
    "\<And>r ids. (r, ids) \<in> set gs \<Longrightarrow> ids \<noteq> [] \<and> length ids \<le> taskQuoteBatchLimit"
  shows "\<exists>n quote. 1 \<le> n \<and> n \<le> taskQuoteBatchLimit \<and> load (request\<lparr>qr_batchCount := n\<rparr>) = returns quote \<and>
    (x, confirmation_of quote x) \<in> set (confirmation_entries quoted)"
proof -
  obtain ids where g: "(request, ids) \<in> set gs" "x \<in> set ids"
    using assms(2) by (auto simp: group_pairs_def)
  then obtain quote where "(ids, quote) \<in> set quoted" "load (request\<lparr>qr_batchCount := length ids\<rparr>) = returns quote"
    using assms(1) by (fastforce simp: list_all2_conv_all_nth in_set_conv_nth answered_for_def)
  moreover from this(1) have "(x, confirmation_of quote x) \<in> set (confirmation_entries quoted)"
    using g(2) by (auto simp: confirmation_entries_def)
  ultimately show ?thesis
    using assms(3) [OF g(1)] by (intro exI [of _ "length ids"] exI [of _ quote]) (simp add: Suc_le_eq)
qed

lemma answered_amount:
  assumes "list_all2 (answered_for load) gs quoted"
    "\<And>request n quote. load (request\<lparr>qr_batchCount := n\<rparr>) = returns quote \<Longrightarrow>
      tq_amountMicrocredits quote = of_nat n * price request"
  shows "foldl (\<lambda>sum group. sum + tq_amountMicrocredits (snd group)) s quoted
    = s + sum_list (map (price \<circ> fst) (group_pairs gs))"
  using assms(1)
proof (induction gs quoted arbitrary: s rule: list_all2_induct)
  case (Cons g gs a quoted)
  have "tq_amountMicrocredits (snd a) = of_nat (length (snd g)) * price (fst g)"
    using Cons.hyps assms(2) by (simp add: answered_for_def)
  moreover have "sum_list (map (price \<circ> fst) (map (Pair (fst g)) (snd g))) = of_nat (length (snd g)) * price (fst g)"
    by (simp add: comp_def sum_list_triv)
  ultimately show ?case
    using Cons.IH by (cases g) (simp add: comp_def sum_list_triv)
qed simp

lemma quoteGenerationBatch_returns:
  "quoteGenerationBatch load ts = returns b \<longleftrightarrow> ts \<noteq> [] \<and>
    (\<exists>quoted. quoted_groups load ts = returns quoted \<and>
      bq_amountMicrocredits b = foldl (\<lambda>sum group. sum + tq_amountMicrocredits (snd group)) 0 quoted \<and>
      list_all2 (\<lambda>t c. js_get (js_map_of (confirmation_entries quoted)) (qt_targetId t) = Some c) ts
        (bq_confirmations b))"
proof -
  have step: "((case r of None \<Rightarrow> throws e | Some x \<Rightarrow> returns x) = returns c) = (r = Some c)" for r e and c :: 'a
    by (cases r) auto
  show ?thesis
    by (cases b) (auto simp: quoteGenerationBatch_def and_then_Inr_iff Let_def map_result_Inr_iff step)
qed

lemma batch_entries_distinct:
  assumes "distinct (map qt_targetId ts)" "list_all2 (answered_for load) (groupQuoteTargets ts) quoted"
  shows "distinct (map fst (confirmation_entries quoted))"
proof -
  have "mset (map fst (confirmation_entries quoted)) = image_mset snd (mset (group_pairs (groupQuoteTargets ts)))"
    using answered_names [OF assms(2)] by (simp add: entry_names)
  also have "\<dots> = mset (map qt_targetId ts)"
    by (simp add: groupQuoteTargets_pairs multiset.map_comp comp_def)
  finally show ?thesis using assms(1) by (metis mset_eq_imp_distinct_iff)
qed

text \<open>No target is left without its confirmation.\<close>

lemma batch_confirmation_found:
  assumes "distinct (map qt_targetId ts)" "list_all2 (answered_for load) (groupQuoteTargets ts) quoted" "t \<in> set ts"
  shows "\<exists>n quote. 1 \<le> n \<and> n \<le> taskQuoteBatchLimit \<and>
    load ((qt_request t)\<lparr>qr_batchCount := n\<rparr>) = returns quote \<and>
    js_get (js_map_of (confirmation_entries quoted)) (qt_targetId t) = Some (confirmation_of quote (qt_targetId t))"
proof -
  have "(normalized (qt_request t), qt_targetId t) \<in># mset (group_pairs (groupQuoteTargets ts))"
    using assms(3) by (auto simp: groupQuoteTargets_pairs)
  then obtain n quote where "1 \<le> n" "n \<le> taskQuoteBatchLimit"
      "load ((normalized (qt_request t))\<lparr>qr_batchCount := n\<rparr>) = returns quote"
      "(qt_targetId t, confirmation_of quote (qt_targetId t)) \<in> set (confirmation_entries quoted)"
    using answered_entries [OF assms(2)] groupQuoteTargets_sizes by (metis set_mset_mset)
  then show ?thesis
    using batch_entries_distinct [OF assms(1,2)] by (auto simp: js_map_of_distinct normalized_def)
qed

text \<open>A batch is refused only when it is empty or the backend refuses a request.\<close>

lemma batch_is_quoted:
  assumes "ts \<noteq> []" "distinct (map qt_targetId ts)" "\<And>request. \<exists>quote. load request = returns quote"
  shows "\<exists>b. quoteGenerationBatch load ts = returns b"
proof -
  have "\<exists>quoted. list_all2 (answered_for load) gs quoted" for gs
  proof (induction gs)
    case (Cons g gs)
    then obtain quoted where "list_all2 (answered_for load) gs quoted" by blast
    moreover obtain quote where "load ((fst g)\<lparr>qr_batchCount := length (snd g)\<rparr>) = returns quote"
      using assms(3) by blast
    ultimately have "list_all2 (answered_for load) (g # gs) ((snd g, quote) # quoted)"
      by (simp add: answered_for_def)
    then show ?case by blast
  qed simp
  then obtain quoted where q: "list_all2 (answered_for load) (groupQuoteTargets ts) quoted" by blast
  then have "\<forall>t \<in> set ts. \<exists>c. js_get (js_map_of (confirmation_entries quoted)) (qt_targetId t) = Some c"
    using batch_confirmation_found [OF assms(2) q] by blast
  then have "\<exists>cs. list_all2 (\<lambda>t c. js_get (js_map_of (confirmation_entries quoted)) (qt_targetId t) = Some c) ts cs"
    by (induction ts) (auto simp: list_all2_Cons1)
  then obtain cs where "list_all2 (\<lambda>t c. js_get (js_map_of (confirmation_entries quoted)) (qt_targetId t) = Some c) ts cs" ..
  with q assms(1) show ?thesis
    by (intro exI [of _ "\<lparr>bq_amountMicrocredits = foldl (\<lambda>sum group. sum + tq_amountMicrocredits (snd group)) 0 quoted,
      bq_confirmations = cs\<rparr>"]) (auto simp: quoteGenerationBatch_returns quoted_groups_returns)
qed

text \<open>
  C28. The amount the user is asked to confirm for a batch is the sum of the prices of its tasks, although the code asks
  for one quote per group of equal requests and at most fifteen tasks at once; and every task gets, in the order of the
  targets, the confirmation of a quote that was loaded for its own request. The backend is assumed to price a request
  for \<open>n\<close> tasks at \<open>n\<close> times the price of one; targets have different identifiers.
\<close>

theorem batch_quote_is_the_sum:
  assumes "distinct (map qt_targetId ts)"
    and "\<And>request n quote. load (request\<lparr>qr_batchCount := n\<rparr>) = returns quote \<Longrightarrow>
      tq_amountMicrocredits quote = of_nat n * price (normalized request)"
    and "quoteGenerationBatch load ts = returns b"
  shows "bq_amountMicrocredits b = sum_list (map (\<lambda>t. price (normalized (qt_request t))) ts) \<and>
    list_all2 (\<lambda>t c. \<exists>n quote. 1 \<le> n \<and> n \<le> 15 \<and> load ((qt_request t)\<lparr>qr_batchCount := n\<rparr>) = returns quote \<and>
      c = confirmation_of quote (qt_targetId t)) ts (bq_confirmations b)"
proof -
  obtain quoted where q: "list_all2 (answered_for load) (groupQuoteTargets ts) quoted"
    and amount: "bq_amountMicrocredits b = foldl (\<lambda>sum group. sum + tq_amountMicrocredits (snd group)) 0 quoted"
    and found: "list_all2 (\<lambda>t c. js_get (js_map_of (confirmation_entries quoted)) (qt_targetId t) = Some c) ts
      (bq_confirmations b)"
    using assms(3) by (auto simp: quoteGenerationBatch_returns quoted_groups_returns)
  let ?price = "price \<circ> normalized"
  have "bq_amountMicrocredits b = sum_list (map (?price \<circ> fst) (group_pairs (groupQuoteTargets ts)))"
    using answered_amount [OF q, where price = ?price and s = 0] assms(2) amount by simp
  also have "\<dots> = sum_mset (image_mset (?price \<circ> fst) (mset (group_pairs (groupQuoteTargets ts))))"
    by (simp flip: sum_mset_sum_list)
  also have "\<dots> = sum_list (map (\<lambda>t. price (normalized (qt_request t))) ts)"
    by (simp add: groupQuoteTargets_pairs multiset.map_comp comp_def normalized_def flip: sum_mset_sum_list)
  finally have sum: "bq_amountMicrocredits b = sum_list (map (\<lambda>t. price (normalized (qt_request t))) ts)" .
  have "list_all2 (\<lambda>t c. \<exists>n quote. 1 \<le> n \<and> n \<le> 15 \<and> load ((qt_request t)\<lparr>qr_batchCount := n\<rparr>) = returns quote \<and>
      c = confirmation_of quote (qt_targetId t)) ts (bq_confirmations b)"
    using found by (rule list.rel_mono_strong)
      (use batch_confirmation_found [OF assms(1) q] in \<open>fastforce simp: taskQuoteBatchLimit_def\<close>)
  with sum show ?thesis by blast
qed

definition sample_quote_request :: quote_request where
  "sample_quote_request = \<lparr>qr_projectId = ''p'', qr_type = ''canvas_image'', qr_operation = ''image'', qr_batchCount = 1,
     qr_mode = ImageQuote, qr_referenceImageCount = 0, qr_referenceVideoCount = 0,
     qr_config = \<lparr>qc_channelId = ''c'', qc_model = ''m'', qc_size = [], qc_quality = [], qc_videoSeconds = [],
       qc_vquality = [], qc_videoGenerateAudio = False, qc_superResolutionEnabled = False,
       qc_superResolutionResolution = [], qc_superResolutionVersion = [], qc_superResolutionFps = 0\<rparr>\<rparr>"

definition sample_targets :: "quote_target list" where
  "sample_targets = [\<lparr>qt_targetId = ''a'', qt_request = sample_quote_request\<rparr>,
     \<lparr>qt_targetId = ''b'', qt_request = sample_quote_request\<lparr>qr_mode := VideoQuote\<rparr>\<rparr>,
     \<lparr>qt_targetId = ''c'', qt_request = sample_quote_request\<rparr>]"

text \<open>A backend that asks 7 for an image and 50 for a video.\<close>

definition sample_price :: "quote_request \<Rightarrow> rat" where
  "sample_price request = (if qr_mode request = ImageQuote then 7 else 50)"

definition sample_load :: "quote_request \<Rightarrow> (quote_error, task_quote) result" where
  "sample_load request = returns
     \<lparr>tq_amountMicrocredits = of_nat (qr_batchCount request) * sample_price request,
      tq_perTaskAmountMicrocredits = sample_price request, tq_taskCount = of_nat (qr_batchCount request),
      tq_priceVersion = 1, tq_billingMode = FixedRequest, tq_pricingResolution = [], tq_pricingInputVariant = [],
      tq_quantity = 1, tq_enhancementAmountMicrocredits = 0, tq_usageAdjustment = None,
      tq_quoteFingerprint = mode_name (qr_mode request)\<rparr>"

definition sample_batch_quote :: batch_quote where
  "sample_batch_quote = \<lparr>bq_amountMicrocredits = 64, bq_confirmations =
     [\<lparr>cf_targetId = ''a'', cf_priceVersion = 1, cf_quoteFingerprint = ''image''\<rparr>,
      \<lparr>cf_targetId = ''b'', cf_priceVersion = 1, cf_quoteFingerprint = ''video''\<rparr>,
      \<lparr>cf_targetId = ''c'', cf_priceVersion = 1, cf_quoteFingerprint = ''image''\<rparr>]\<rparr>"

lemma sample_groups: "groupQuoteTargets sample_targets =
  [(sample_quote_request, [''a'', ''c'']), (sample_quote_request\<lparr>qr_mode := VideoQuote\<rparr>, [''b''])]"
  by (simp add: groupQuoteTargets_def sample_targets_def add_quote_target_def normalized_def sample_quote_request_def
      chunks_from.simps taskQuoteBatchLimit_def)

lemma sample_batch_is_quoted: "quoteGenerationBatch sample_load sample_targets = returns sample_batch_quote"
  unfolding quoteGenerationBatch_def quoted_groups_def sample_groups
  by (simp add: sample_targets_def sample_load_def sample_price_def mode_name_def sample_quote_request_def
      confirmation_entries_def confirmation_of_def js_map_of_def sample_batch_quote_def)

theorem batch_quote_is_the_sum_witness:
  "bq_amountMicrocredits sample_batch_quote = 64 \<and> length (bq_confirmations sample_batch_quote) = 3"
proof -
  have "distinct (map qt_targetId sample_targets)" by (simp add: sample_targets_def)
  moreover have "tq_amountMicrocredits quote = of_nat n * sample_price (normalized request)"
    if "sample_load (request\<lparr>qr_batchCount := n\<rparr>) = returns quote" for request n quote
    using that by (auto simp: sample_load_def sample_price_def normalized_def)
  ultimately show ?thesis
    using batch_quote_is_the_sum [of sample_targets sample_load sample_price sample_batch_quote] sample_batch_is_quoted
    by (auto simp: sample_targets_def normalized_def sample_price_def sample_quote_request_def dest: list_all2_lengthD)
qed

subsection \<open>Submissions and changed prices\<close>

text \<open>
  A task with a price is submitted under a quote: the confirmed one, for which the backend is not asked again, or the
  current quote for exactly this task.
\<close>

lemma submission_carries_a_quote:
  assumes "prepareGenerationTaskSubmission number_of number_text load input expected = returns out"
    "task_mode (tk_input input) \<noteq> None"
  shows "\<exists>request. quoteRequestFromTaskInput number_of number_text input = returns (Some request) \<and> qr_batchCount request = 1 \<and>
    (case expected of
       Some q \<Rightarrow> tk_quotePriceVersion out = Some (cq_priceVersion q) \<and> tk_quoteFingerprint out = Some (cq_quoteFingerprint q)
     | None \<Rightarrow> \<exists>q. load request = returns q \<and> tk_quotePriceVersion out = Some (tq_priceVersion q) \<and>
         tk_quoteFingerprint out = Some (tq_quoteFingerprint q))"
proof -
  obtain r where r: "quoteRequestFromTaskInput number_of number_text input = returns r"
    using assms(1) by (auto simp: prepareGenerationTaskSubmission_def and_then_Inr_iff)
  then obtain request where request: "r = Some request" "qr_batchCount request = 1"
    using assms(2)
    by (auto simp: quoteRequestFromTaskInput_def and_then_Inr_iff Let_def buildTaskBillingQuoteRequest_def
        split: option.splits json.splits)
  then show ?thesis
    using assms(1) r
    by (auto simp: prepareGenerationTaskSubmission_def and_then_Inr_iff split: option.splits)
qed

lemma confirmed_quote_needs_no_backend:
  "prepareGenerationTaskSubmission number_of number_text load input (Some q)
    = prepareGenerationTaskSubmission number_of number_text load' input (Some q)"
  by (simp add: prepareGenerationTaskSubmission_def cong: option.case_cong)

text \<open>The quote of a changed price as the backend writes it is read back.\<close>

definition usage_json :: "usage_adjustment \<Rightarrow> json" where
  "usage_json u = JObj [(''metric'', JStr ''input_image''), (''actualQuantity'', JNum (of_int (ua_actualQuantity u))),
     (''includedQuantity'', JNum (of_int (ua_includedQuantity u))),
     (''billableQuantity'', JNum (of_int (ua_billableQuantity u))),
     (''unitPriceMicrocredits'', JNum (of_int (ua_unitPriceMicrocredits u))),
     (''perTaskAmountMicrocredits'', JNum (of_int (ua_perTaskAmountMicrocredits u))),
     (''amountMicrocredits'', JNum (of_int (ua_amountMicrocredits u)))]"

definition usage_valid :: "usage_adjustment \<Rightarrow> bool" where
  "usage_valid u \<longleftrightarrow> list_all (\<lambda>n. 0 \<le> n \<and> safe_integer n)
     [ua_actualQuantity u, ua_includedQuantity u, ua_billableQuantity u, ua_unitPriceMicrocredits u,
      ua_perTaskAmountMicrocredits u, ua_amountMicrocredits u]"

definition quote_json :: "task_quote \<Rightarrow> json" where
  "quote_json q = JObj ([(''amountMicrocredits'', JNum (tq_amountMicrocredits q)),
     (''perTaskAmountMicrocredits'', JNum (tq_perTaskAmountMicrocredits q)), (''taskCount'', JNum (tq_taskCount q)),
     (''priceVersion'', JNum (tq_priceVersion q)),
     (''billingMode'', JStr (case tq_billingMode q of FixedRequest \<Rightarrow> ''fixed_request'' | PerSecond \<Rightarrow> ''per_second'')),
     (''pricingResolution'', JStr (tq_pricingResolution q)),
     (''pricingInputVariant'', JStr (tq_pricingInputVariant q)), (''quantity'', JNum (tq_quantity q)),
     (''enhancementAmountMicrocredits'', JNum (tq_enhancementAmountMicrocredits q)),
     (''quoteFingerprint'', JStr (tq_quoteFingerprint q))] @
     (case tq_usageAdjustment q of None \<Rightarrow> [] | Some u \<Rightarrow> [(''usageAdjustment'', usage_json u)]))"

lemma parseUsageAdjustment_json: "usage_valid u \<Longrightarrow> parseUsageAdjustment (Some (usage_json u)) = Some (Some u)"
  by (cases u) (simp add: usage_json_def usage_valid_def natural_field_def whole_def)

lemma changed_price_is_read:
  assumes "pred_option usage_valid (tq_usageAdjustment q)"
  shows "taskPriceChangedQuoteFromEnvelope (Some (JObj [(''data'',
    JObj [(''errorCode'', JStr ''PRICE_CHANGED''), (''currentQuote'', quote_json q)])])) = Some q"
  using assms
  by (cases q; cases "tq_usageAdjustment q"; cases "tq_billingMode q")
    (auto simp: taskPriceChangedQuoteFromEnvelope_def quote_json_def read_quote_def number_field_def text_field_def
      billing_mode_field_def parseUsageAdjustment_json)

end
