(* ===== verification/CanvasNodes.thy ===== *)
theory CanvasNodes
  imports Prelude
begin

text \<open>
  The nodes and connections of a canvas, \<^verbatim>\<open>web/src/types/canvas.ts\<close>, and what the editor decides of them:
  \<^verbatim>\<open>web/src/lib/canvas/canvas-frame.ts\<close> (frames and what they contain) and \<^verbatim>\<open>canvas-project-domain.ts\<close>
  (new nodes, which connections are allowed, links to the rows of a storyboard, removal, alignment). A field that
  is absent and one that is \<^verbatim>\<open>undefined\<close> are \<open>None\<close>. The fields no modelled function reads are \<open>md_rest\<close> and
  \<open>sr_rest\<close>; those of a task are a record of their own. Coordinates are rationals.
\<close>

subsection \<open>Data\<close>

datatype node_type = ImageNode | TextNode | ScriptNode | SkillNode | ConfigNode | VideoNode | AudioNode | FrameNode

datatype node_status = IdleStatus | SuccessStatus | LoadingStatus | ErrorStatus

record position =
  px :: rat
  py :: rat

record storyboard_row =
  sr_id :: string
  sr_shotNumber :: rat
  sr_durationSeconds :: rat
  sr_plotDescription :: string
  sr_videoMotionPrompt :: string
  sr_referenceNodeIds :: "string list"
  sr_imageNodeId :: "string option"
  sr_videoNodeId :: "string option"
  sr_status :: node_status
  sr_rest :: "(string \<times> json) list"

record storyboard =
  sb_rows :: "storyboard_row list"
  sb_visibleColumns :: "string list"
  sb_referenceNodeIds :: "string list"

record frame_state =
  fr_collapsed :: bool
  fr_expandedWidth :: rat
  fr_expandedHeight :: rat

record task_metadata =
  tm_taskId :: "string option"
  tm_taskStatus :: "string option"
  tm_taskProgress :: "rat option"
  tm_taskStage :: "string option"
  tm_taskCreatedAt :: "string option"
  tm_taskUpdatedAt :: "string option"
  tm_errorDetails :: "string option"

record node_metadata =
  md_content :: "string option"
  md_composerContent :: "string option"
  md_prompt :: "string option"
  md_status :: "node_status option"
  md_locked :: "bool option"
  md_task :: task_metadata
  md_generationMode :: "string option"
  md_size :: "string option"
  md_seconds :: "string option"
  md_naturalWidth :: "rat option"
  md_naturalHeight :: "rat option"
  md_isBatchRoot :: "bool option"
  md_batchRootId :: "string option"
  md_batchChildIds :: "string list option"
  md_primaryImageId :: "string option"
  md_batchExpanded :: "bool option"
  md_workflowKind :: "string option"
  md_workflowTitle :: "string option"
  md_shotIndex :: "rat option"
  md_referenceSetId :: "string option"
  md_referenceAssetNodeIds :: "string list option"
  md_videoEditOperation :: "string option"
  md_versionOfNodeId :: "string option"
  md_versionLabel :: "string option"
  md_versionPrimary :: "bool option"
  md_storyboardComposerHeight :: "rat option"
  md_storyboard :: "storyboard option"
  md_frame :: "frame_state option"
  md_rest :: "(string \<times> json) list"

record canvas_node =
  cn_id :: string
  cn_type :: node_type
  cn_title :: string
  cn_position :: position
  cn_width :: rat
  cn_height :: rat
  cn_parentId :: "string option"
  cn_metadata :: "node_metadata option"

record canvas_connection =
  cx_id :: string
  cx_fromNodeId :: string
  cx_toNodeId :: string
  cx_fromHandleId :: "string option"
  cx_toHandleId :: "string option"

definition no_task :: task_metadata where
  "no_task = \<lparr>tm_taskId = None, tm_taskStatus = None, tm_taskProgress = None, tm_taskStage = None,
     tm_taskCreatedAt = None, tm_taskUpdatedAt = None, tm_errorDetails = None\<rparr>"

text \<open>\<^verbatim>\<open>{}\<close>\<close>

definition no_metadata :: node_metadata where
  "no_metadata = \<lparr>md_content = None, md_composerContent = None, md_prompt = None, md_status = None, md_locked = None,
     md_task = no_task, md_generationMode = None, md_size = None, md_seconds = None, md_naturalWidth = None,
     md_naturalHeight = None, md_isBatchRoot = None, md_batchRootId = None, md_batchChildIds = None,
     md_primaryImageId = None, md_batchExpanded = None, md_workflowKind = None, md_workflowTitle = None,
     md_shotIndex = None, md_referenceSetId = None, md_referenceAssetNodeIds = None, md_videoEditOperation = None,
     md_versionOfNodeId = None, md_versionLabel = None, md_versionPrimary = None, md_storyboardComposerHeight = None,
     md_storyboard = None, md_frame = None, md_rest = []\<rparr>"

text \<open>\<^verbatim>\<open>node.metadata?.key\<close> reads of this, and \<^verbatim>\<open>{ ...node.metadata, key: v }\<close> updates it.\<close>

definition meta :: "canvas_node \<Rightarrow> node_metadata" where
  "meta node = (case cn_metadata node of None \<Rightarrow> no_metadata | Some m \<Rightarrow> m)"

lemma meta_simps [simp]:
  "meta (node\<lparr>cn_metadata := Some m\<rparr>) = m"
  "meta (node\<lparr>cn_position := p\<rparr>) = meta node" "meta (node\<lparr>cn_parentId := q\<rparr>) = meta node"
  "meta (node\<lparr>cn_title := t\<rparr>) = meta node" "meta (node\<lparr>cn_width := w\<rparr>) = meta node"
  "meta (node\<lparr>cn_height := h\<rparr>) = meta node" "meta (node\<lparr>cn_id := i\<rparr>) = meta node"
  by (simp_all add: meta_def)

text \<open>\<^verbatim>\<open>text || other\<close> for optional texts, \<^verbatim>\<open>flag\<close> and \<^verbatim>\<open>number || other\<close> as conditions.\<close>

definition or_text :: "string option \<Rightarrow> string option \<Rightarrow> string option" where
  "or_text a b = (if a = None \<or> a = Some [] then b else a)"

definition or_number :: "rat option \<Rightarrow> rat option \<Rightarrow> rat option" where
  "or_number a b = (if a = None \<or> a = Some 0 then b else a)"

definition truthy :: "bool option \<Rightarrow> bool" where
  "truthy b \<longleftrightarrow> b = Some True"

definition has_text :: "string option \<Rightarrow> bool" where
  "has_text a \<longleftrightarrow> a \<noteq> None \<and> a \<noteq> Some []"

definition text_or_blank :: "string option \<Rightarrow> string" where
  "text_or_blank a = (case a of None \<Rightarrow> [] | Some s \<Rightarrow> s)"

text \<open>\<^verbatim>\<open>nodes.find((node) => node.id === id)\<close>\<close>

definition node_of :: "canvas_node list \<Rightarrow> string \<Rightarrow> canvas_node option" where
  "node_of nodes ident = find (\<lambda>node. cn_id node = ident) nodes"

lemma node_of_Some: "node_of nodes ident = Some node \<Longrightarrow> node \<in> set nodes \<and> cn_id node = ident"
  by (auto simp: node_of_def find_Some_iff)

lemma node_of_None: "node_of nodes ident = None \<longleftrightarrow> ident \<notin> cn_id ` set nodes"
  by (auto simp: node_of_def find_None_iff)

lemma node_of_distinct:
  assumes "distinct (map cn_id nodes)" "node \<in> set nodes"
  shows "node_of nodes (cn_id node) = Some node"
proof -
  obtain other where "node_of nodes (cn_id node) = Some other"
    using assms(2) by (cases "node_of nodes (cn_id node)") (auto simp: node_of_None)
  moreover from this have "other = node"
    using assms node_of_Some by (fastforce simp: distinct_map inj_on_def)
  ultimately show ?thesis by simp
qed

subsection \<open>Frames\<close>

definition FRAME_HEADER_HEIGHT :: rat where
  "FRAME_HEADER_HEIGHT = 36"

definition FRAME_PADDING :: rat where
  "FRAME_PADDING = 24"

definition isFrameNode :: "canvas_node \<Rightarrow> bool" where
  "isFrameNode node \<longleftrightarrow> cn_type node = FrameNode"

definition canFrameContain :: "canvas_node \<Rightarrow> bool" where
  "canFrameContain node \<longleftrightarrow> cn_type node \<in> {ImageNode, TextNode, ScriptNode, VideoNode}"

definition getFrameChildren :: "string \<Rightarrow> canvas_node list \<Rightarrow> canvas_node list" where
  "getFrameChildren frameId nodes = filter (\<lambda>node. cn_parentId node = Some frameId) nodes"

definition getFrameChildIds :: "string \<Rightarrow> canvas_node list \<Rightarrow> string list" where
  "getFrameChildIds frameId nodes = js_set_of (map cn_id (getFrameChildren frameId nodes))"

definition frame_collapsed :: "canvas_node \<Rightarrow> bool" where
  "frame_collapsed node \<longleftrightarrow> (case md_frame (meta node) of None \<Rightarrow> False | Some f \<Rightarrow> fr_collapsed f)"

definition getCollapsedParentFrame :: "canvas_node \<Rightarrow> canvas_node list \<Rightarrow> canvas_node option" where
  "getCollapsedParentFrame node nodes =
     (if \<not> has_text (cn_parentId node) then None
      else case find (\<lambda>item. Some (cn_id item) = cn_parentId node \<and> isFrameNode item) nodes of
             None \<Rightarrow> None
           | Some frame \<Rightarrow> if frame_collapsed frame then Some frame else None)"

definition isNodeHiddenByCollapsedFrame :: "canvas_node \<Rightarrow> canvas_node list \<Rightarrow> bool" where
  "isNodeHiddenByCollapsedFrame node nodes \<longleftrightarrow> getCollapsedParentFrame node nodes \<noteq> None"

definition center_inside :: "canvas_node \<Rightarrow> canvas_node \<Rightarrow> bool" where
  "center_inside frame node \<longleftrightarrow>
     (let left = px (cn_position frame); top = py (cn_position frame) + FRAME_HEADER_HEIGHT;
          right = px (cn_position frame) + cn_width frame; bottom = py (cn_position frame) + cn_height frame;
          centerX = px (cn_position node) + cn_width node / 2; centerY = py (cn_position node) + cn_height node / 2
      in centerX \<ge> left \<and> centerX \<le> right \<and> centerY \<ge> top \<and> centerY \<le> bottom)"

definition findFrameDropTarget :: "canvas_node list \<Rightarrow> string list \<Rightarrow> string option" where
  "findFrameDropTarget nodes draggedNodeIds =
     (let dragged = filter (\<lambda>node. cn_id node \<in> set draggedNodeIds \<and> canFrameContain node) nodes
      in if dragged = [] then None
         else case find (\<lambda>frame. isFrameNode frame \<and> \<not> frame_collapsed frame \<and> cn_id frame \<notin> set draggedNodeIds \<and>
                list_all (center_inside frame) dragged) (rev nodes) of
           None \<Rightarrow> None
         | Some frame \<Rightarrow> if cn_id frame = [] then None else Some (cn_id frame))"

text \<open>\<^verbatim>\<open>Math.min(x, ...xs)\<close> and \<^verbatim>\<open>Math.max(x, ...xs)\<close>.\<close>

definition js_min :: "rat \<Rightarrow> rat list \<Rightarrow> rat" where
  "js_min x xs = foldr min xs x"

definition js_max :: "rat \<Rightarrow> rat list \<Rightarrow> rat" where
  "js_max x xs = foldr max xs x"

lemma js_min_le: "js_min x xs \<le> x" "y \<in> set xs \<Longrightarrow> js_min x xs \<le> y"
  by (induction xs) (auto simp: js_min_def min_le_iff_disj)

lemma js_max_ge: "x \<le> js_max x xs" "y \<in> set xs \<Longrightarrow> y \<le> js_max x xs"
  by (induction xs) (auto simp: js_max_def le_max_iff_disj)

lemma js_min_in: "js_min x xs \<in> insert x (set xs)"
  by (induction xs) (auto simp: js_min_def min_def)

lemma js_max_in: "js_max x xs \<in> insert x (set xs)"
  by (induction xs) (auto simp: js_max_def max_def)

definition applyFrameDrop :: "canvas_node list \<Rightarrow> string list \<Rightarrow> string option \<Rightarrow> canvas_node list" where
  "applyFrameDrop nodes draggedNodeIds frameId =
     (let next = map (\<lambda>node. if cn_id node \<in> set draggedNodeIds \<and> canFrameContain node
            then node\<lparr>cn_parentId := or_text frameId None\<rparr> else node) nodes
      in if \<not> has_text frameId then next
         else let target = the frameId; children = getFrameChildren target next
         in if children = [] then next
            else case node_of next target of
              None \<Rightarrow> next
            | Some frame \<Rightarrow>
                if \<not> isFrameNode frame then next
                else let left = js_min (px (cn_position frame)) (map (\<lambda>c. px (cn_position c) - FRAME_PADDING) children);
                         top = js_min (py (cn_position frame))
                           (map (\<lambda>c. py (cn_position c) - FRAME_HEADER_HEIGHT - FRAME_PADDING) children);
                         right = js_max (px (cn_position frame) + cn_width frame)
                           (map (\<lambda>c. px (cn_position c) + cn_width c + FRAME_PADDING) children);
                         bottom = js_max (py (cn_position frame) + cn_height frame)
                           (map (\<lambda>c. py (cn_position c) + cn_height c + FRAME_PADDING) children)
                     in map (\<lambda>node. if cn_id node = target
                          then node\<lparr>cn_position := \<lparr>px = left, py = top\<rparr>, cn_width := right - left,
                            cn_height := bottom - top,
                            cn_metadata := Some ((meta node)\<lparr>md_frame := Some \<lparr>fr_collapsed = False,
                              fr_expandedWidth = right - left, fr_expandedHeight = bottom - top\<rparr>\<rparr>)\<rparr>
                          else node) next)"

definition resolveFrameConnection :: "canvas_connection \<Rightarrow> canvas_node list \<Rightarrow> (canvas_node \<times> canvas_node) option" where
  "resolveFrameConnection connection nodes =
     (case (node_of nodes (cx_fromNodeId connection), node_of nodes (cx_toNodeId connection)) of
        (Some from, Some to) \<Rightarrow>
          let shown = (\<lambda>node. case getCollapsedParentFrame node nodes of None \<Rightarrow> node | Some frame \<Rightarrow> frame)
          in if cn_id (shown from) = cn_id (shown to) then None else Some (shown from, shown to)
      | _ \<Rightarrow> None)"

subsection \<open>New nodes\<close>

text \<open>Texts written in another alphabet, by what they say; \<open>shown\<close> turns one into its characters.\<close>

datatype canvas_text =
  ScriptTitle | SkillTitle | ConfigTitle | AudioTitle | FrameTitle | CompositionTitle
| ShotVideoTitle rat | ShotVideoWorkflow rat | StoryboardGroupTitle nat | StoryboardGroupWorkflow
| ReferenceGroupTitle nat | ReferenceGroupWorkflow | CopyLabel

type_synonym shown_text = "canvas_text \<Rightarrow> string"

definition DEFAULT_MEDIA_ASPECT_RATIO :: string where
  "DEFAULT_MEDIA_ASPECT_RATIO = ''16:9''"

definition node_default_size :: "node_type \<Rightarrow> rat \<times> rat" where
  "node_default_size t = (case t of ImageNode \<Rightarrow> (340, 240) | TextNode \<Rightarrow> (340, 240) | ScriptNode \<Rightarrow> (920, 360)
     | SkillNode \<Rightarrow> (360, 220) | ConfigNode \<Rightarrow> (340, 300) | VideoNode \<Rightarrow> (420, 236) | AudioNode \<Rightarrow> (340, 220)
     | FrameNode \<Rightarrow> (760, 520))"

definition node_default_title :: "shown_text \<Rightarrow> node_type \<Rightarrow> string" where
  "node_default_title shown t = (case t of ImageNode \<Rightarrow> ''New Generation'' | TextNode \<Rightarrow> ''Note''
     | ScriptNode \<Rightarrow> shown ScriptTitle | SkillNode \<Rightarrow> shown SkillTitle | ConfigNode \<Rightarrow> shown ConfigTitle
     | VideoNode \<Rightarrow> ''Video'' | AudioNode \<Rightarrow> shown AudioTitle | FrameNode \<Rightarrow> shown FrameTitle)"

definition default_columns :: "string list" where
  "default_columns = [''shotNumber'', ''durationSeconds'', ''plotDescription'', ''dialogue'']"

definition node_default_metadata :: "node_type \<Rightarrow> node_metadata" where
  "node_default_metadata t =
     (let blank = no_metadata\<lparr>md_content := Some [], md_status := Some IdleStatus\<rparr>
      in case t of
        ImageNode \<Rightarrow> blank\<lparr>md_size := Some DEFAULT_MEDIA_ASPECT_RATIO\<rparr>
      | TextNode \<Rightarrow> blank\<lparr>md_rest := [(''fontSize'', JNum 14)]\<rparr>
      | ScriptNode \<Rightarrow> no_metadata\<lparr>md_status := Some IdleStatus, md_workflowKind := Some ''script'',
          md_storyboard := Some \<lparr>sb_rows = [], sb_visibleColumns = default_columns, sb_referenceNodeIds = []\<rparr>\<rparr>
      | SkillNode \<Rightarrow> no_metadata\<lparr>md_status := Some SuccessStatus\<rparr>
      | ConfigNode \<Rightarrow> blank\<lparr>md_generationMode := Some ''image''\<rparr>
      | VideoNode \<Rightarrow> blank\<lparr>md_size := Some DEFAULT_MEDIA_ASPECT_RATIO, md_rest := [(''vquality'', JStr ''720p'')]\<rparr>
      | AudioNode \<Rightarrow> blank
      | FrameNode \<Rightarrow> no_metadata\<lparr>md_frame := Some \<lparr>fr_collapsed = False, fr_expandedWidth = 760,
          fr_expandedHeight = 520\<rparr>\<rparr>)"

text \<open>\<^verbatim>\<open>{ ...a, ...b }\<close>\<close>

definition over :: "'a option \<Rightarrow> 'a option \<Rightarrow> 'a option" where
  "over a b = (case b of None \<Rightarrow> a | Some x \<Rightarrow> Some x)"

definition spread_task :: "task_metadata \<Rightarrow> task_metadata \<Rightarrow> task_metadata" where
  "spread_task a b =
     \<lparr>tm_taskId = over (tm_taskId a) (tm_taskId b), tm_taskStatus = over (tm_taskStatus a) (tm_taskStatus b),
      tm_taskProgress = over (tm_taskProgress a) (tm_taskProgress b),
      tm_taskStage = over (tm_taskStage a) (tm_taskStage b),
      tm_taskCreatedAt = over (tm_taskCreatedAt a) (tm_taskCreatedAt b),
      tm_taskUpdatedAt = over (tm_taskUpdatedAt a) (tm_taskUpdatedAt b),
      tm_errorDetails = over (tm_errorDetails a) (tm_errorDetails b)\<rparr>"

definition spread :: "node_metadata \<Rightarrow> node_metadata \<Rightarrow> node_metadata" where
  "spread a b =
     \<lparr>md_content = over (md_content a) (md_content b),
      md_composerContent = over (md_composerContent a) (md_composerContent b),
      md_prompt = over (md_prompt a) (md_prompt b), md_status = over (md_status a) (md_status b),
      md_locked = over (md_locked a) (md_locked b), md_task = spread_task (md_task a) (md_task b),
      md_generationMode = over (md_generationMode a) (md_generationMode b), md_size = over (md_size a) (md_size b),
      md_seconds = over (md_seconds a) (md_seconds b), md_naturalWidth = over (md_naturalWidth a) (md_naturalWidth b),
      md_naturalHeight = over (md_naturalHeight a) (md_naturalHeight b),
      md_isBatchRoot = over (md_isBatchRoot a) (md_isBatchRoot b),
      md_batchRootId = over (md_batchRootId a) (md_batchRootId b),
      md_batchChildIds = over (md_batchChildIds a) (md_batchChildIds b),
      md_primaryImageId = over (md_primaryImageId a) (md_primaryImageId b),
      md_batchExpanded = over (md_batchExpanded a) (md_batchExpanded b),
      md_workflowKind = over (md_workflowKind a) (md_workflowKind b),
      md_workflowTitle = over (md_workflowTitle a) (md_workflowTitle b),
      md_shotIndex = over (md_shotIndex a) (md_shotIndex b),
      md_referenceSetId = over (md_referenceSetId a) (md_referenceSetId b),
      md_referenceAssetNodeIds = over (md_referenceAssetNodeIds a) (md_referenceAssetNodeIds b),
      md_videoEditOperation = over (md_videoEditOperation a) (md_videoEditOperation b),
      md_versionOfNodeId = over (md_versionOfNodeId a) (md_versionOfNodeId b),
      md_versionLabel = over (md_versionLabel a) (md_versionLabel b),
      md_versionPrimary = over (md_versionPrimary a) (md_versionPrimary b),
      md_storyboardComposerHeight = over (md_storyboardComposerHeight a) (md_storyboardComposerHeight b),
      md_storyboard = over (md_storyboard a) (md_storyboard b), md_frame = over (md_frame a) (md_frame b),
      md_rest = foldl (\<lambda>m e. js_set m (fst e) (snd e)) (md_rest a) (md_rest b)\<rparr>"

definition createStoryboardRow :: "string \<Rightarrow> nat \<Rightarrow> storyboard_row" where
  "createStoryboardRow ident shotNumber =
     \<lparr>sr_id = ident, sr_shotNumber = of_nat shotNumber, sr_durationSeconds = 6, sr_plotDescription = [],
      sr_videoMotionPrompt = [], sr_referenceNodeIds = [], sr_imageNodeId = None, sr_videoNodeId = None,
      sr_status = IdleStatus,
      sr_rest = map (\<lambda>key. (key, JStr [])) [''dialogue'', ''shotSize'', ''emotion'', ''lightingAndAtmosphere'',
        ''audioEffects'', ''camera'', ''motion'', ''timeBeats'', ''imageGenerationPrompt'', ''negativePrompt''] @
        [(''characters'', JArr [])]\<rparr>"

text \<open>The identifiers, made of the time and a random number, are arguments.\<close>

definition createCanvasNode ::
  "shown_text \<Rightarrow> string \<Rightarrow> (nat \<Rightarrow> string) \<Rightarrow> node_type \<Rightarrow> position \<Rightarrow> node_metadata \<Rightarrow> canvas_node" where
  "createCanvasNode shown ident row_ident t pos metadata =
     (let (width, height) = node_default_size t; own = spread (node_default_metadata t) metadata
      in \<lparr>cn_id = ident, cn_type = t, cn_title = node_default_title shown t,
          cn_position = \<lparr>px = px pos - width / 2, py = py pos - height / 2\<rparr>, cn_width = width, cn_height = height,
          cn_parentId = None,
          cn_metadata = Some (if t = ScriptNode
            then own\<lparr>md_storyboard := (case md_storyboard metadata of
                   Some s \<Rightarrow> Some s
                 | None \<Rightarrow> Some \<lparr>sb_rows = map (\<lambda>n. createStoryboardRow (row_ident n) n) [1, 2, 3],
                     sb_visibleColumns = default_columns, sb_referenceNodeIds = []\<rparr>)\<rparr>
            else own)\<rparr>)"

definition cinematicStoryboardColumns :: "string list option \<Rightarrow> string list" where
  "cinematicStoryboardColumns columns =
     js_set_of ((case columns of None \<Rightarrow> default_columns | Some cs \<Rightarrow> cs) @
       [''shotSize'', ''camera'', ''motion'', ''timeBeats'', ''lightingAndAtmosphere'', ''negativePrompt''])"

text \<open>The size a node gets from a text such as \<^verbatim>\<open>16:9\<close> or \<^verbatim>\<open>1024x768\<close>.\<close>

definition digit :: "char \<Rightarrow> bool" where
  "digit c \<longleftrightarrow> 48 \<le> (of_char c :: nat) \<and> (of_char c :: nat) \<le> 57"

definition digits_value :: "string \<Rightarrow> rat" where
  "digits_value s = foldl (\<lambda>n c. 10 * n + of_nat (of_char c - 48)) 0 s"

definition nodeSizeFromRatio :: "string \<Rightarrow> rat \<Rightarrow> rat \<Rightarrow> (rat \<times> rat) option" where
  "nodeSizeFromRatio ratioText baseWidth baseHeight =
     (let first = takeWhile digit ratioText; rest = dropWhile digit ratioText
      in if first = [] \<or> rest = [] \<or> hd rest \<notin> {CHR ''x'', CHR '':''} then None
         else let second = takeWhile digit (tl rest)
         in if second = [] then None
            else let ratio = digits_value first / max 1 (digits_value second)
            in if ratio < 1 / 4 \<or> ratio > 4 then Some (baseWidth, baseHeight)
               else if ratio \<ge> baseWidth / baseHeight then Some (baseWidth, baseWidth / ratio)
               else Some (baseHeight * ratio, baseHeight))"

definition applyNodeConfigPatch :: "canvas_node \<Rightarrow> node_metadata \<Rightarrow> canvas_node" where
  "applyNodeConfigPatch node patch =
     (let next = node\<lparr>cn_metadata := Some (spread (meta node) patch)\<rparr>;
          spec = (if cn_type node = VideoNode then node_default_size VideoNode else node_default_size ImageNode);
          newSize = (if has_text (md_content (meta node)) then None
                  else case md_size patch of None \<Rightarrow> None | Some s \<Rightarrow> nodeSizeFromRatio s (fst spec) (snd spec))
      in case newSize of
           None \<Rightarrow> next
         | Some (width, height) \<Rightarrow>
             if cn_type node \<in> {ImageNode, VideoNode}
             then next\<lparr>cn_width := width, cn_height := height,
               cn_position := \<lparr>px = px (cn_position node) + cn_width node / 2 - width / 2,
                 py = py (cn_position node) + cn_height node / 2 - height / 2\<rparr>\<rparr>
             else next)"

subsection \<open>Connections\<close>

datatype connection_refusal = MissingNode | SameNode | FrameRefused | ConfigToConfig | VideoOutputMediaTarget

datatype handle_type = SourceHandle | TargetHandle

record connection_handle =
  hd_nodeId :: string
  hd_type :: handle_type
  hd_handleId :: "string option"

text \<open>An accepted connection is the pair of its ends.\<close>

type_synonym connection_validation = "(connection_refusal, string \<times> string) result"

definition validateDirectedCanvasNodeConnection :: "canvas_node \<Rightarrow> canvas_node \<Rightarrow> connection_validation" where
  "validateDirectedCanvasNodeConnection source target =
     (if cn_id source = cn_id target then throws SameNode
      else if isFrameNode source \<or> isFrameNode target then throws FrameRefused
      else if cn_type source = ConfigNode \<and> cn_type target = ConfigNode then throws ConfigToConfig
      else if cn_type source = VideoNode \<and> (cn_type target = ImageNode \<or> cn_type target = AudioNode)
        then throws VideoOutputMediaTarget
      else returns (cn_id source, cn_id target))"

definition validateDirectedCanvasConnection :: "string \<Rightarrow> string \<Rightarrow> canvas_node list \<Rightarrow> connection_validation" where
  "validateDirectedCanvasConnection fromNodeId toNodeId nodes =
     (case (node_of nodes fromNodeId, node_of nodes toNodeId) of
        (Some source, Some target) \<Rightarrow> validateDirectedCanvasNodeConnection source target
      | _ \<Rightarrow> throws MissingNode)"

definition validateCanvasNodeConnection :: "canvas_node \<Rightarrow> canvas_node \<Rightarrow> handle_type \<Rightarrow> connection_validation" where
  "validateCanvasNodeConnection first second firstHandleType =
     (let connection =
            (if cn_type second = ConfigNode then (cn_id first, cn_id second)
             else if cn_type first = ConfigNode \<and> firstHandleType = TargetHandle then (cn_id second, cn_id first)
             else if cn_type first = ConfigNode then (cn_id first, cn_id second)
             else if firstHandleType = TargetHandle then (cn_id second, cn_id first)
             else (cn_id first, cn_id second));
          source = (if fst connection = cn_id first then first else second);
          target = (if snd connection = cn_id first then first else second)
      in validateDirectedCanvasNodeConnection source target)"

definition validateCanvasConnection :: "string \<Rightarrow> string \<Rightarrow> canvas_node list \<Rightarrow> handle_type \<Rightarrow> connection_validation" where
  "validateCanvasConnection firstNodeId secondNodeId nodes firstHandleType =
     (case (node_of nodes firstNodeId, node_of nodes secondNodeId) of
        (Some first, Some second) \<Rightarrow> validateCanvasNodeConnection first second firstHandleType
      | _ \<Rightarrow> throws MissingNode)"

definition normalizeConnection :: "string \<Rightarrow> string \<Rightarrow> canvas_node list \<Rightarrow> handle_type \<Rightarrow> (string \<times> string) option" where
  "normalizeConnection firstNodeId secondNodeId nodes firstHandleType =
     (case validateCanvasConnection firstNodeId secondNodeId nodes firstHandleType of
        Inl _ \<Rightarrow> None | Inr connection \<Rightarrow> Some connection)"

subsection \<open>Storyboards\<close>

definition row_handle :: "string \<Rightarrow> string" where
  "row_handle ident = ''row:'' @ ident"

definition is_row_handle :: "string option \<Rightarrow> bool" where
  "is_row_handle h = (case h of None \<Rightarrow> False | Some s \<Rightarrow> js_starts_with s ''row:'')"

definition is_storyboard_handle :: "string option \<Rightarrow> bool" where
  "is_storyboard_handle h \<longleftrightarrow> is_row_handle h \<or> h = Some ''storyboard:context''"

definition storyboard_rows :: "canvas_node \<Rightarrow> storyboard_row list" where
  "storyboard_rows node = (case md_storyboard (meta node) of None \<Rightarrow> [] | Some s \<Rightarrow> sb_rows s)"

definition row_of :: "storyboard_row list \<Rightarrow> string \<Rightarrow> storyboard_row option" where
  "row_of rows ident = find (\<lambda>row. sr_id row = ident) rows"

text \<open>A row that was linked to a node, from the side of the storyboard or to it.\<close>

definition link_row :: "bool \<Rightarrow> canvas_node \<Rightarrow> storyboard_row \<Rightarrow> storyboard_row" where
  "link_row outgoing linked item =
     (if outgoing
      then item\<lparr>sr_imageNodeId := (if cn_type linked = ImageNode then Some (cn_id linked) else sr_imageNodeId item),
        sr_videoNodeId := (if cn_type linked = VideoNode then Some (cn_id linked) else sr_videoNodeId item)\<rparr>
      else item\<lparr>sr_referenceNodeIds := js_set_of (sr_referenceNodeIds item @ [cn_id linked])\<rparr>)"

text \<open>The node of a shot's video takes its prompt and name over from the row.\<close>

definition shot_video :: "shown_text \<Rightarrow> (rat \<Rightarrow> string) \<Rightarrow> storyboard_row \<Rightarrow> canvas_node \<Rightarrow> canvas_node" where
  "shot_video shown number_text row node =
     (let videoPrompt = js_trim (if sr_videoMotionPrompt row = [] then sr_plotDescription row else sr_videoMotionPrompt row)
      in node\<lparr>cn_title := shown (ShotVideoTitle (sr_shotNumber row)),
           cn_metadata := Some ((meta node)\<lparr>md_prompt := Some videoPrompt, md_composerContent := Some videoPrompt,
             md_workflowKind := Some ''shot'', md_workflowTitle := Some (shown (ShotVideoWorkflow (sr_shotNumber row))),
             md_shotIndex := Some (sr_shotNumber row), md_generationMode := Some ''video'',
             md_videoEditOperation := or_text (md_videoEditOperation (meta node)) (Some ''text_to_video''),
             md_seconds := Some (number_text (sr_durationSeconds row))\<rparr>)\<rparr>)"

definition linked_storyboard :: "string option \<Rightarrow> string option \<Rightarrow> bool \<Rightarrow> canvas_node \<Rightarrow> canvas_node \<Rightarrow> storyboard" where
  "linked_storyboard handleId rowId outgoing linked node =
     (let s = md_storyboard (meta node); references = (case s of None \<Rightarrow> [] | Some s \<Rightarrow> sb_referenceNodeIds s)
      in \<lparr>sb_rows = map (\<lambda>item. if Some (sr_id item) \<noteq> rowId then item else link_row outgoing linked item)
            (storyboard_rows node),
          sb_visibleColumns = (case s of None \<Rightarrow> default_columns | Some s \<Rightarrow> sb_visibleColumns s),
          sb_referenceNodeIds = (if handleId = Some ''storyboard:context'' then js_set_of (references @ [cn_id linked])
            else references)\<rparr>)"

definition attachNodeToStoryboardRow ::
  "shown_text \<Rightarrow> (rat \<Rightarrow> string) \<Rightarrow> canvas_node list \<Rightarrow> canvas_connection \<Rightarrow> canvas_node list" where
  "attachNodeToStoryboardRow shown number_text nodes c =
     (let scriptNodeId = (if is_storyboard_handle (cx_fromHandleId c) then Some (cx_fromNodeId c)
            else if is_storyboard_handle (cx_toHandleId c) then Some (cx_toNodeId c) else None);
          handleId = or_text (cx_fromHandleId c) (cx_toHandleId c);
          rowId = (if is_row_handle handleId then Some (drop 4 (the handleId)) else None);
          outgoing = (scriptNodeId = Some (cx_fromNodeId c));
          linkedNode = node_of nodes (if outgoing then cx_toNodeId c else cx_fromNodeId c);
          scriptNode = find (\<lambda>node. Some (cn_id node) = scriptNodeId \<and> cn_type node = ScriptNode) nodes
      in if \<not> has_text scriptNodeId then nodes
         else case (linkedNode, scriptNode) of
           (Some linked, Some script) \<Rightarrow>
             let row = (if has_text rowId then row_of (storyboard_rows script) (the rowId) else None)
             in map (\<lambda>node.
                  if row \<noteq> None \<and> cn_id node = cn_id linked \<and> outgoing \<and> cn_type node = VideoNode
                  then shot_video shown number_text (the row) node
                  else if Some (cn_id node) \<noteq> scriptNodeId \<or> cn_type node \<noteq> ScriptNode then node
                  else node\<lparr>cn_metadata := Some ((meta node)\<lparr>md_storyboard :=
                    Some (linked_storyboard handleId rowId outgoing linked node)\<rparr>)\<rparr>) nodes
         | _ \<Rightarrow> nodes)"

definition storyboardRowFromHandle :: "canvas_node list \<Rightarrow> string \<Rightarrow> string option \<Rightarrow> storyboard_row option" where
  "storyboardRowFromHandle nodes nodeId handleId =
     (if \<not> is_row_handle handleId then None
      else case find (\<lambda>node. cn_id node = nodeId \<and> cn_type node = ScriptNode) nodes of
        None \<Rightarrow> None
      | Some node \<Rightarrow> find (\<lambda>row. Some (row_handle (sr_id row)) = handleId) (storyboard_rows node))"

definition STORYBOARD_ROW_HEIGHT :: rat where
  "STORYBOARD_ROW_HEIGHT = 48"

definition STORYBOARD_HEADER_HEIGHT :: rat where
  "STORYBOARD_HEADER_HEIGHT = 124"

definition storyboardTableHeight :: "rat \<Rightarrow> rat option \<Rightarrow> rat" where
  "storyboardTableHeight nodeHeight composerHeight =
     max STORYBOARD_ROW_HEIGHT (nodeHeight - STORYBOARD_HEADER_HEIGHT - 36 -
       min 180 (max 104 (case composerHeight of None \<Rightarrow> 104 | Some h \<Rightarrow> h)))"

definition clamp :: "rat \<Rightarrow> rat \<Rightarrow> rat \<Rightarrow> rat" where
  "clamp value low high = min (max value low) high"

definition composer_height :: "canvas_node \<Rightarrow> rat" where
  "composer_height node = (case or_number (md_storyboardComposerHeight (meta node)) (Some 104) of Some h \<Rightarrow> h | None \<Rightarrow> 104)"

definition storyboardHandleAtY :: "canvas_node \<Rightarrow> rat \<Rightarrow> rat \<Rightarrow> string option" where
  "storyboardHandleAtY node worldY scrollTop =
     (let rows = storyboard_rows node; localY = worldY - py (cn_position node) - STORYBOARD_HEADER_HEIGHT;
          tableHeight = storyboardTableHeight (cn_height node) (md_storyboardComposerHeight (meta node))
      in if rows \<noteq> [] \<and> localY \<ge> 0 \<and> localY \<le> tableHeight
         then let index = max 0 (min (int (length rows) - 1) \<lfloor>(localY + scrollTop) / STORYBOARD_ROW_HEIGHT\<rfloor>)
              in Some (row_handle (sr_id (rows ! nat index)))
         else let composerTop = cn_height node - composer_height node
         in if worldY \<ge> py (cn_position node) + composerTop \<and> worldY \<le> py (cn_position node) + cn_height node
            then Some ''storyboard:context'' else None)"

fun find_index :: "('a \<Rightarrow> bool) \<Rightarrow> 'a list \<Rightarrow> nat option" where
  "find_index P [] = None"
| "find_index P (x # xs) = (if P x then Some 0 else map_option Suc (find_index P xs))"

definition storyboardHandleY :: "canvas_node \<Rightarrow> string option \<Rightarrow> rat \<Rightarrow> rat option" where
  "storyboardHandleY node handleId scrollTop =
     (if cn_type node \<noteq> ScriptNode then None
      else if handleId = Some ''storyboard:context''
        then Some (py (cn_position node) + cn_height node - composer_height node / 2)
      else if \<not> is_row_handle handleId then None
      else case find_index (\<lambda>row. sr_id row = drop 4 (the handleId)) (storyboard_rows node) of
        None \<Rightarrow> None
      | Some index \<Rightarrow>
          let tableHeight = storyboardTableHeight (cn_height node) (md_storyboardComposerHeight (meta node))
          in Some (py (cn_position node) + STORYBOARD_HEADER_HEIGHT +
               clamp (of_nat index * STORYBOARD_ROW_HEIGHT + STORYBOARD_ROW_HEIGHT / 2 - scrollTop) 4 (tableHeight - 4)))"

definition getConnectionTargetAnchor :: "canvas_node \<Rightarrow> connection_handle \<Rightarrow> string option \<Rightarrow> rat \<Rightarrow> position" where
  "getConnectionTargetAnchor node current handleId scrollTop =
     \<lparr>px = (if hd_type current = SourceHandle then px (cn_position node) else px (cn_position node) + cn_width node),
      py = (case storyboardHandleY node handleId scrollTop of
        Some y \<Rightarrow> y | None \<Rightarrow> py (cn_position node) + cn_height node / 2)\<rparr>"

subsection \<open>Removal\<close>

definition remaining_ids :: "string list \<Rightarrow> string list \<Rightarrow> string list" where
  "remaining_ids removedIds ids = filter (\<lambda>ident. ident \<notin> set removedIds) ids"

definition remaining_id :: "string list \<Rightarrow> string option \<Rightarrow> string option" where
  "remaining_id removedIds ident = (if has_text ident \<and> the ident \<notin> set removedIds then ident else None)"

definition clean_storyboard :: "string list \<Rightarrow> storyboard \<Rightarrow> storyboard" where
  "clean_storyboard removedIds s =
     s\<lparr>sb_referenceNodeIds := remaining_ids removedIds (sb_referenceNodeIds s),
       sb_rows := map (\<lambda>row. row\<lparr>sr_referenceNodeIds := remaining_ids removedIds (sr_referenceNodeIds row),
         sr_imageNodeId := remaining_id removedIds (sr_imageNodeId row),
         sr_videoNodeId := remaining_id removedIds (sr_videoNodeId row)\<rparr>) (sb_rows s)\<rparr>"

definition clean_references :: "string list \<Rightarrow> canvas_node \<Rightarrow> canvas_node" where
  "clean_references removedIds node =
     (let detached = (if has_text (cn_parentId node) \<and> the (cn_parentId node) \<in> set removedIds
                      then node\<lparr>cn_parentId := None\<rparr> else node)
      in case md_storyboard (meta detached) of
           None \<Rightarrow> detached
         | Some s \<Rightarrow> detached\<lparr>cn_metadata := Some ((meta detached)\<lparr>md_storyboard := Some (clean_storyboard removedIds s)\<rparr>)\<rparr>)"

definition clean_batch :: "string list \<Rightarrow> canvas_node list \<Rightarrow> canvas_node \<Rightarrow> canvas_node" where
  "clean_batch removedIds remainingNodes cleaned =
     (let m = meta cleaned; childIds = map_option (remaining_ids removedIds) (md_batchChildIds m)
      in if \<not> truthy (md_isBatchRoot m) \<or> map_option length childIds = map_option length (md_batchChildIds m) then cleaned
         else let primaryImageId = (case childIds of
                    Some ids \<Rightarrow> (if text_or_blank (md_primaryImageId m) \<in> set ids then md_primaryImageId m
                                 else case ids of [] \<Rightarrow> None | x # _ \<Rightarrow> Some x)
                  | None \<Rightarrow> None);
                  primary = (case find (\<lambda>item. Some (cn_id item) = primaryImageId) remainingNodes of
                    Some node \<Rightarrow> meta node | None \<Rightarrow> no_metadata)
              in cleaned\<lparr>cn_metadata := Some (m\<lparr>md_batchChildIds := childIds, md_primaryImageId := primaryImageId,
                   md_content := or_text (md_content primary) (md_content m),
                   md_naturalWidth := or_number (md_naturalWidth primary) (md_naturalWidth m),
                   md_naturalHeight := or_number (md_naturalHeight primary) (md_naturalHeight m)\<rparr>)\<rparr>)"

definition removed_ids :: "canvas_node list \<Rightarrow> string list \<Rightarrow> string list" where
  "removed_ids nodes requestedIds =
     foldl (\<lambda>removed node. if cn_id node \<in> set requestedIds
         then foldl js_add removed (case md_batchChildIds (meta node) of None \<Rightarrow> [] | Some ids \<Rightarrow> ids) else removed)
       requestedIds nodes"

definition removeCanvasNodes :: "canvas_node list \<Rightarrow> string list \<Rightarrow> string list \<times> canvas_node list" where
  "removeCanvasNodes nodes requestedIds =
     (let removedIds = removed_ids nodes requestedIds;
          remainingNodes = filter (\<lambda>node. cn_id node \<notin> set removedIds) nodes
      in (removedIds, map (\<lambda>node. clean_batch removedIds remainingNodes (clean_references removedIds node)) remainingNodes))"

definition isHiddenBatchChild :: "canvas_node \<Rightarrow> canvas_node list \<Rightarrow> string list \<Rightarrow> bool" where
  "isHiddenBatchChild node nodes collapsingBatchIds \<longleftrightarrow>
     has_text (md_batchRootId (meta node)) \<and>
     (case node_of nodes (the (md_batchRootId (meta node))) of
        None \<Rightarrow> False
      | Some batch \<Rightarrow> the (md_batchRootId (meta node)) \<notin> set collapsingBatchIds \<and> \<not> truthy (md_batchExpanded (meta batch)))"

subsection \<open>Alignment while dragging\<close>

record alignment_target =
  at_x :: "rat list"
  at_y :: "rat list"

record alignment_context =
  ac_left :: rat
  ac_top :: rat
  ac_right :: rat
  ac_bottom :: rat
  ac_targets :: "alignment_target list"

text \<open>Where a moving node was when the drag began.\<close>

definition initial_position :: "(string \<times> position) list \<Rightarrow> canvas_node \<Rightarrow> position" where
  "initial_position initialPositions node =
     (case js_get (js_map_of initialPositions) (cn_id node) of None \<Rightarrow> cn_position node | Some p \<Rightarrow> p)"

definition alignment_target_of :: "canvas_node list \<Rightarrow> string list \<Rightarrow> canvas_node \<Rightarrow> alignment_target list" where
  "alignment_target_of nodes movingIds node =
     (let node_by_id = js_get (js_map_of (map (\<lambda>n. (cn_id n, n)) nodes));
          batchRoot = (if has_text (md_batchRootId (meta node)) then node_by_id (the (md_batchRootId (meta node))) else None);
          parent = (if has_text (cn_parentId node) then node_by_id (the (cn_parentId node)) else None)
      in if cn_id node \<in> set movingIds then []
         else if (case batchRoot of None \<Rightarrow> False | Some batch \<Rightarrow> \<not> truthy (md_batchExpanded (meta batch))) then []
         else if (case parent of None \<Rightarrow> False | Some p \<Rightarrow> isFrameNode p \<and> frame_collapsed p) then []
         else [\<lparr>at_x = [px (cn_position node), px (cn_position node) + cn_width node / 2, px (cn_position node) + cn_width node],
                at_y = [py (cn_position node), py (cn_position node) + cn_height node / 2, py (cn_position node) + cn_height node]\<rparr>])"

definition createNodeAlignmentContext :: "canvas_node list \<Rightarrow> (string \<times> position) list \<Rightarrow> alignment_context option" where
  "createNodeAlignmentContext nodes initialPositions =
     (let movingIds = map fst initialPositions
      in case filter (\<lambda>node. cn_id node \<in> set movingIds) nodes of
           [] \<Rightarrow> None
         | node # others \<Rightarrow>
             let x = (\<lambda>n. px (initial_position initialPositions n)); y = (\<lambda>n. py (initial_position initialPositions n))
             in Some \<lparr>ac_left = js_min (x node) (map x others), ac_top = js_min (y node) (map y others),
                  ac_right = js_max (x node + cn_width node) (map (\<lambda>n. x n + cn_width n) others),
                  ac_bottom = js_max (y node + cn_height node) (map (\<lambda>n. y n + cn_height n) others),
                  ac_targets = concat (map (alignment_target_of nodes movingIds) nodes)\<rparr>)"

text \<open>One axis: the best correction so far, with the line it snaps to.\<close>

definition snap :: "rat \<Rightarrow> (rat \<times> rat) option \<Rightarrow> rat \<times> rat \<Rightarrow> (rat \<times> rat) option" where
  "snap threshold best pair =
     (let delta = snd pair - fst pair
      in if \<bar>delta\<bar> \<le> threshold \<and> (case best of None \<Rightarrow> True | Some (d, _) \<Rightarrow> \<bar>delta\<bar> < \<bar>d\<bar>)
         then Some (delta, snd pair) else best)"

definition snap_axis :: "rat \<Rightarrow> rat list \<Rightarrow> rat list list \<Rightarrow> (rat \<times> rat) option" where
  "snap_axis threshold moving targets =
     foldl (\<lambda>best target. foldl (snap threshold) best (zip moving target)) None targets"

definition calculateNodeAlignment ::
  "alignment_context option \<Rightarrow> position \<Rightarrow> rat \<Rightarrow> position \<times> rat option \<times> rat option" where
  "calculateNodeAlignment context rawOffset threshold =
     (case context of
        None \<Rightarrow> (rawOffset, None, None)
      | Some c \<Rightarrow>
          let movingX = [ac_left c + px rawOffset, (ac_left c + ac_right c) / 2 + px rawOffset, ac_right c + px rawOffset];
              movingY = [ac_top c + py rawOffset, (ac_top c + ac_bottom c) / 2 + py rawOffset, ac_bottom c + py rawOffset];
              bestX = snap_axis threshold movingX (map at_x (ac_targets c));
              bestY = snap_axis threshold movingY (map at_y (ac_targets c));
              correction = (\<lambda>best. case best of None \<Rightarrow> 0 | Some (d, _) \<Rightarrow> d)
          in (\<lparr>px = px rawOffset + correction bestX, py = py rawOffset + correction bestY\<rparr>,
              map_option snd bestX, map_option snd bestY))"

subsection \<open>What a connection may join\<close>

definition connectable :: "canvas_node \<Rightarrow> canvas_node \<Rightarrow> bool" where
  "connectable source target \<longleftrightarrow>
     cn_id source \<noteq> cn_id target \<and> cn_type source \<noteq> FrameNode \<and> cn_type target \<noteq> FrameNode \<and>
     \<not> (cn_type source = ConfigNode \<and> cn_type target = ConfigNode) \<and>
     \<not> (cn_type source = VideoNode \<and> cn_type target \<in> {ImageNode, AudioNode})"

lemma validateDirected_iff:
  "validateDirectedCanvasNodeConnection source target = returns c \<longleftrightarrow>
    connectable source target \<and> c = (cn_id source, cn_id target)"
  by (auto simp: validateDirectedCanvasNodeConnection_def connectable_def isFrameNode_def split: if_splits)

text \<open>A drag from an output is checked as the editor's preview checks it, and ends at the node it was dropped on.\<close>

lemma drag_from_output:
  "validateCanvasNodeConnection first second SourceHandle = validateDirectedCanvasNodeConnection first second"
  by (auto simp: validateCanvasNodeConnection_def validateDirectedCanvasNodeConnection_def Let_def)

lemma validateCanvasNodeConnection_returns:
  assumes "validateCanvasNodeConnection first second h = returns c"
  shows "\<exists>source target. {source, target} = {first, second} \<and> connectable source target \<and>
    c = (cn_id source, cn_id target)"
proof -
  have "validateCanvasNodeConnection first second h = throws SameNode" if "cn_id second = cn_id first"
    using that by (simp add: validateCanvasNodeConnection_def validateDirectedCanvasNodeConnection_def Let_def)
  then have "cn_id first \<noteq> cn_id second" using assms by auto
  then have "validateCanvasNodeConnection first second h \<in>
      {validateDirectedCanvasNodeConnection first second, validateDirectedCanvasNodeConnection second first}"
    by (auto simp: validateCanvasNodeConnection_def Let_def)
  then show ?thesis
  proof (elim insertE emptyE)
    assume "validateCanvasNodeConnection first second h = validateDirectedCanvasNodeConnection first second"
    then have "connectable first second \<and> c = (cn_id first, cn_id second)" using assms by (simp flip: validateDirected_iff)
    then show ?thesis by blast
  next
    assume "validateCanvasNodeConnection first second h = validateDirectedCanvasNodeConnection second first"
    then have "connectable second first \<and> c = (cn_id second, cn_id first)" using assms by (simp flip: validateDirected_iff)
    then show ?thesis by blast
  qed
qed

lemma validateCanvasConnection_returns:
  assumes "validateCanvasConnection i j nodes h = returns c"
  shows "\<exists>source target. source \<in> set nodes \<and> target \<in> set nodes \<and> {cn_id source, cn_id target} = {i, j} \<and>
    connectable source target \<and> c = (cn_id source, cn_id target)"
proof -
  obtain first second where n: "node_of nodes i = Some first" "node_of nodes j = Some second"
      and v: "validateCanvasNodeConnection first second h = returns c"
    using assms by (auto simp: validateCanvasConnection_def split: option.splits)
  then show ?thesis
    using validateCanvasNodeConnection_returns [OF v] node_of_Some [OF n(1)] node_of_Some [OF n(2)]
    by (auto simp: doubleton_eq_iff)
qed

subsection \<open>The handle of a row is found where it is drawn\<close>

lemma find_index_Some: "find_index P xs = Some i \<longleftrightarrow> i < length xs \<and> P (xs ! i) \<and> (\<forall>j < i. \<not> P (xs ! j))"
proof (induction xs arbitrary: i)
  case (Cons x xs)
  then show ?case by (cases i) (auto simp: nth_Cons split: nat.splits)
qed simp

lemma row_handle_simps [simp]: "drop 4 (row_handle i) = i" "is_row_handle (Some (row_handle i))"
    "row_handle i \<noteq> ''storyboard:context''"
  by (simp_all add: row_handle_def is_row_handle_def js_starts_with_def)

lemma row_handle_found:
  assumes "cn_type node = ScriptNode" "distinct (map sr_id (storyboard_rows node))" "i < length (storyboard_rows node)"
    and y: "y = of_nat i * STORYBOARD_ROW_HEIGHT + STORYBOARD_ROW_HEIGHT / 2 - scrollTop"
    and seen: "4 \<le> y" "y \<le> storyboardTableHeight (cn_height node) (md_storyboardComposerHeight (meta node)) - 4"
  defines "h \<equiv> row_handle (sr_id (storyboard_rows node ! i))"
  shows "\<exists>worldY. storyboardHandleY node (Some h) scrollTop = Some worldY \<and> storyboardHandleAtY node worldY scrollTop = Some h"
proof -
  let ?rows = "storyboard_rows node" and ?h = "storyboardTableHeight (cn_height node) (md_storyboardComposerHeight (meta node))"
  let ?w = "py (cn_position node) + STORYBOARD_HEADER_HEIGHT + y"
  have "find_index (\<lambda>row. sr_id row = sr_id (?rows ! i)) ?rows = Some i"
    using assms(2,3) by (fastforce simp: find_index_Some distinct_conv_nth)
  moreover have "clamp y 4 (?h - 4) = y" using seen by (simp add: clamp_def)
  ultimately have at: "storyboardHandleY node (Some h) scrollTop = Some ?w"
    using assms(1) by (simp add: storyboardHandleY_def h_def y [symmetric])
  have "\<lfloor>(y + scrollTop) / STORYBOARD_ROW_HEIGHT\<rfloor> = int i"
    by (simp add: y STORYBOARD_ROW_HEIGHT_def floor_unique)
  moreover have "?rows \<noteq> []" using assms(3) by auto
  ultimately have "storyboardHandleAtY node ?w scrollTop = Some h"
    using assms(3) seen by (simp add: storyboardHandleAtY_def h_def Let_def min_absorb2)
  with at show ?thesis by blast
qed

subsection \<open>A removal leaves no reference\<close>

lemma set_removed_ids: "set (removed_ids nodes requestedIds) =
  set requestedIds \<union> (\<Union>node \<in> {node \<in> set nodes. cn_id node \<in> set requestedIds}.
    set (case md_batchChildIds (meta node) of None \<Rightarrow> [] | Some ids \<Rightarrow> ids))"
proof -
  have "set (foldl (\<lambda>removed node. if cn_id node \<in> A
         then foldl js_add removed (case md_batchChildIds (meta node) of None \<Rightarrow> [] | Some ids \<Rightarrow> ids) else removed) r nodes)
    = set r \<union> (\<Union>node \<in> {node \<in> set nodes. cn_id node \<in> A}.
        set (case md_batchChildIds (meta node) of None \<Rightarrow> [] | Some ids \<Rightarrow> ids))" for r A
    by (induction nodes arbitrary: r) (auto simp: foldl_js_add)
  then show ?thesis by (simp add: removed_ids_def)
qed

text \<open>The nodes a storyboard refers to.\<close>

definition row_references :: "storyboard_row \<Rightarrow> string set" where
  "row_references row = set (sr_referenceNodeIds row) \<union> set_option (sr_imageNodeId row) \<union> set_option (sr_videoNodeId row)"

definition storyboard_references :: "storyboard \<Rightarrow> string set" where
  "storyboard_references s = set (sb_referenceNodeIds s) \<union> (\<Union>row \<in> set (sb_rows s). row_references row)"

definition node_references :: "canvas_node \<Rightarrow> string set" where
  "node_references node = set_option (cn_parentId node) \<union>
     (case md_storyboard (meta node) of None \<Rightarrow> {} | Some s \<Rightarrow> storyboard_references s) \<union>
     (if truthy (md_isBatchRoot (meta node))
      then (case md_batchChildIds (meta node) of None \<Rightarrow> {} | Some ids \<Rightarrow> set ids) else {})"

lemma clean_storyboard_references: "storyboard_references (clean_storyboard removed s) \<inter> set removed = {}"
  by (auto simp: storyboard_references_def row_references_def clean_storyboard_def remaining_ids_def remaining_id_def
      split: if_splits)

lemma clean_references_keeps:
  "cn_id (clean_references removed node) = cn_id node" "cn_type (clean_references removed node) = cn_type node"
  by (auto simp: clean_references_def Let_def split: option.splits)

lemma clean_batch_keeps:
  "cn_id (clean_batch removed others node) = cn_id node" "cn_type (clean_batch removed others node) = cn_type node"
  "cn_parentId (clean_batch removed others node) = cn_parentId node"
  "md_storyboard (meta (clean_batch removed others node)) = md_storyboard (meta node)"
  "md_isBatchRoot (meta (clean_batch removed others node)) = md_isBatchRoot (meta node)"
  by (simp_all add: clean_batch_def Let_def)

lemma length_remaining_ids: "length (remaining_ids removed ids) = length ids \<longleftrightarrow> set ids \<inter> set removed = {}"
proof -
  have "length (filter P xs) = length xs \<longleftrightarrow> (\<forall>x \<in> set xs. P x)" for P and xs :: "'a list"
    by (metis filter_True length_filter_less less_irrefl)
  then show ?thesis by (auto simp: remaining_ids_def)
qed

lemma clean_batch_children:
  assumes "truthy (md_isBatchRoot (meta node))"
  shows "md_batchChildIds (meta (clean_batch removed others node))
    = map_option (remaining_ids removed) (md_batchChildIds (meta node))"
proof (cases "md_batchChildIds (meta node)")
  case (Some ids)
  have "remaining_ids removed ids = ids" if "length (remaining_ids removed ids) = length ids"
    using that unfolding length_remaining_ids by (auto simp: remaining_ids_def filter_id_conv)
  then show ?thesis using assms Some by (auto simp: clean_batch_def Let_def)
qed (simp add: clean_batch_def Let_def)

lemma clean_references_detached:
  assumes "[] \<notin> set removed"
  shows "set_option (cn_parentId (clean_references removed node)) \<inter> set removed = {} \<and>
    (case md_storyboard (meta (clean_references removed node)) of None \<Rightarrow> {} | Some s \<Rightarrow> storyboard_references s)
      \<inter> set removed = {}"
  using assms clean_storyboard_references [of removed]
  by (auto simp: clean_references_def Let_def has_text_def split: option.splits if_splits)

lemma removal_leaves_no_reference_iff:
  assumes "removeCanvasNodes nodes requested = (removed, nodes')" "[] \<notin> set removed"
  shows "map cn_id nodes' = filter (\<lambda>i. i \<notin> set removed) (map cn_id nodes) \<and> set requested \<subseteq> set removed \<and>
    (\<forall>node \<in> set nodes'. node_references node \<inter> set removed = {})"
proof (intro conjI ballI)
  have r: "removed = removed_ids nodes requested"
    and n: "nodes' = map (\<lambda>node. clean_batch removed (filter (\<lambda>node. cn_id node \<notin> set removed) nodes)
      (clean_references removed node)) (filter (\<lambda>node. cn_id node \<notin> set removed) nodes)"
    using assms(1) by (auto simp: removeCanvasNodes_def Let_def)
  show "map cn_id nodes' = filter (\<lambda>i. i \<notin> set removed) (map cn_id nodes)"
    by (simp add: n clean_batch_keeps clean_references_keeps filter_map comp_def)
  show "set requested \<subseteq> set removed" by (auto simp: r set_removed_ids)
  fix node assume "node \<in> set nodes'"
  then obtain other others where o: "node = clean_batch removed others (clean_references removed other)" by (auto simp: n)
  have "(case md_batchChildIds (meta node) of None \<Rightarrow> {} | Some ids \<Rightarrow> set ids) \<inter> set removed = {}"
    if "truthy (md_isBatchRoot (meta node))"
    using that by (auto simp: o clean_batch_keeps clean_batch_children remaining_ids_def split: option.splits)
  then show "node_references node \<inter> set removed = {}"
    using clean_references_detached [OF assms(2), of other]
    by (auto simp: node_references_def o clean_batch_keeps split: if_splits)
qed

subsection \<open>A frame holds what is dropped on it\<close>

lemma node_of_map:
  assumes "\<And>node. cn_id (g node) = cn_id node"
  shows "node_of (map g nodes) i = map_option g (node_of nodes i)"
  using assms by (induction nodes) (auto simp: node_of_def)

definition holds :: "canvas_node \<Rightarrow> canvas_node \<Rightarrow> bool" where
  "holds frame node \<longleftrightarrow>
     px (cn_position frame) + FRAME_PADDING \<le> px (cn_position node) \<and>
     py (cn_position frame) + FRAME_HEADER_HEIGHT + FRAME_PADDING \<le> py (cn_position node) \<and>
     px (cn_position node) + cn_width node + FRAME_PADDING \<le> px (cn_position frame) + cn_width frame \<and>
     py (cn_position node) + cn_height node + FRAME_PADDING \<le> py (cn_position frame) + cn_height frame"

lemma frame_drop_holds:
  assumes "distinct (map cn_id nodes)" "frame \<in> set nodes" "isFrameNode frame" "cn_id frame \<noteq> []"
    and "d \<in> set nodes" "cn_id d \<in> set dragged" "canFrameContain d"
  shows "\<exists>frame' d'. node_of (applyFrameDrop nodes dragged (Some (cn_id frame))) (cn_id frame) = Some frame' \<and>
    node_of (applyFrameDrop nodes dragged (Some (cn_id frame))) (cn_id d) = Some d' \<and>
    d' = d\<lparr>cn_parentId := Some (cn_id frame)\<rparr> \<and> holds frame' d' \<and>
    px (cn_position frame') \<le> px (cn_position frame) \<and> py (cn_position frame') \<le> py (cn_position frame) \<and>
    px (cn_position frame) + cn_width frame \<le> px (cn_position frame') + cn_width frame' \<and>
    py (cn_position frame) + cn_height frame \<le> py (cn_position frame') + cn_height frame'"
proof -
  let ?f = "cn_id frame"
  have ot: "or_text (Some ?f) None = Some ?f" "has_text (Some ?f)" using assms(4) by (simp_all add: or_text_def has_text_def)
  define g where "g = (\<lambda>node. if cn_id node \<in> set dragged \<and> canFrameContain node
    then node\<lparr>cn_parentId := or_text (Some ?f) None\<rparr> else node)"
  define children where "children = getFrameChildren ?f (map g nodes)"
  have gid: "cn_id (g node) = cn_id node" for node by (simp add: g_def)
  have gd: "g d = d\<lparr>cn_parentId := Some ?f\<rparr>" using assms ot by (simp add: g_def)
  have gf: "g frame = frame" using assms(3) by (simp add: g_def canFrameContain_def isFrameNode_def)
  have child: "g d \<in> set children"
    using assms(5) gd by (auto simp: children_def getFrameChildren_def intro!: image_eqI [of _ g d])
  then have ne: "children \<noteq> []" by auto
  have nf: "node_of (map g nodes) ?f = Some frame"
    using node_of_distinct [OF assms(1,2)] gf by (simp add: node_of_map gid)
  define h where "h = (\<lambda>left top right bottom node. if cn_id node = ?f
    then node\<lparr>cn_position := \<lparr>px = left, py = top\<rparr>, cn_width := right - left, cn_height := bottom - top,
      cn_metadata := Some ((meta node)\<lparr>md_frame := Some \<lparr>fr_collapsed = False, fr_expandedWidth = right - left,
        fr_expandedHeight = bottom - top\<rparr>\<rparr>)\<rparr> else node)"
  define left where "left = js_min (px (cn_position frame)) (map (\<lambda>c. px (cn_position c) - FRAME_PADDING) children)"
  define top where "top = js_min (py (cn_position frame))
    (map (\<lambda>c. py (cn_position c) - FRAME_HEADER_HEIGHT - FRAME_PADDING) children)"
  define right where "right = js_max (px (cn_position frame) + cn_width frame)
    (map (\<lambda>c. px (cn_position c) + cn_width c + FRAME_PADDING) children)"
  define bottom where "bottom = js_max (py (cn_position frame) + cn_height frame)
    (map (\<lambda>c. py (cn_position c) + cn_height c + FRAME_PADDING) children)"
  have drop: "applyFrameDrop nodes dragged (Some ?f) = map (h left top right bottom) (map g nodes)"
    using ne nf assms(3) ot(2) unfolding children_def left_def top_def right_def bottom_def h_def g_def
      applyFrameDrop_def Let_def option.sel by simp
  have hid: "cn_id (h l t r b node) = cn_id node" for l t r b node by (simp add: h_def)
  have other: "?f \<noteq> cn_id d"
    using assms by (auto simp: distinct_map inj_on_def canFrameContain_def isFrameNode_def)
  have "node_of (map g nodes) (cn_id d) = Some (g d)"
    using node_of_distinct [OF assms(1,5)] by (simp add: node_of_map gid)
  then have at: "node_of (applyFrameDrop nodes dragged (Some ?f)) ?f = Some (h left top right bottom frame)"
      "node_of (applyFrameDrop nodes dragged (Some ?f)) (cn_id d) = Some (g d)"
    unfolding drop using nf other by (simp_all only: node_of_map [OF hid]) (simp_all add: h_def gid)
  have bounds: "left \<le> px (cn_position d) - FRAME_PADDING" "top \<le> py (cn_position d) - FRAME_HEADER_HEIGHT - FRAME_PADDING"
      "px (cn_position d) + cn_width d + FRAME_PADDING \<le> right" "py (cn_position d) + cn_height d + FRAME_PADDING \<le> bottom"
    unfolding left_def top_def right_def bottom_def
    using child gd by (auto intro!: js_min_le(2) js_max_ge(2) image_eqI [of _ _ "g d"])
  have grows: "left \<le> px (cn_position frame)" "top \<le> py (cn_position frame)"
      "px (cn_position frame) + cn_width frame \<le> right" "py (cn_position frame) + cn_height frame \<le> bottom"
    by (simp_all add: left_def top_def right_def bottom_def js_min_le(1) js_max_ge(1))
  with bounds have "holds (h left top right bottom frame) (g d)"
    by (simp add: holds_def h_def gd)
  with at show ?thesis
    using grows by (intro exI [of _ "h left top right bottom frame"] exI [of _ "g d"] conjI) (simp_all add: gd h_def)
qed

subsection \<open>Snapping is to the nearest line\<close>

lemma snap_axis_pairs: "snap_axis threshold moving targets = foldl (snap threshold) None (concat (map (zip moving) targets))"
proof -
  have "foldl (\<lambda>best target. foldl (snap threshold) best (zip moving target)) b targets
    = foldl (snap threshold) b (concat (map (zip moving) targets))" for b
    by (induction targets arbitrary: b) auto
  then show ?thesis by (simp add: snap_axis_def)
qed

definition nearest :: "rat \<Rightarrow> (rat \<times> rat) list \<Rightarrow> (rat \<times> rat) option \<Rightarrow> bool" where
  "nearest threshold pairs r \<longleftrightarrow>
     (case r of
        None \<Rightarrow> \<forall>(m, t) \<in> set pairs. \<bar>t - m\<bar> > threshold
      | Some (d, line) \<Rightarrow> (\<exists>m. (m, line) \<in> set pairs \<and> d = line - m) \<and> \<bar>d\<bar> \<le> threshold \<and>
          (\<forall>(m, t) \<in> set pairs. \<bar>d\<bar> \<le> \<bar>t - m\<bar>))"

lemma nearest_snap: "nearest threshold pairs r \<Longrightarrow> nearest threshold (pairs @ [p]) (snap threshold r p)"
  by (cases r; cases p) (fastforce simp: nearest_def snap_def Let_def)+

lemma snap_axis_nearest: "nearest threshold (concat (map (zip moving) targets)) (snap_axis threshold moving targets)"
proof -
  have "nearest threshold (before @ pairs) (foldl (snap threshold) r pairs)" if "nearest threshold before r" for before pairs r
    using that by (induction pairs arbitrary: before r) (use nearest_snap in fastforce)+
  from this [of "[]" None] show ?thesis by (simp add: snap_axis_pairs nearest_def)
qed

end
