(* ===== verification/CanvasLayout.thy ===== *)
theory CanvasLayout
  imports CanvasNodes "HOL-Library.Product_Lexorder" "HOL-Library.Multiset"
begin

text \<open>
  Arranging and aligning nodes, \<^verbatim>\<open>web/src/lib/canvas/canvas-layout.ts\<close>: rows, columns and grids, columns by
  the direction of the connections (the algorithm of Kahn, whose loop is a partial function: it need not end
  when two nodes share an identifier), alignment and equal distances.
\<close>

subsection \<open>Rows, columns and grids\<close>

datatype layout_mode = RowLayout | ColumnLayout | GridLayout

type_synonym positions = "(string, position) js_map"

text \<open>\<^verbatim>\<open>let c = start; nodes.forEach((node) => { result.set(node.id, pos(c, node)); c += step(node); })\<close>\<close>

fun place :: "(rat \<Rightarrow> canvas_node \<Rightarrow> position) \<Rightarrow> (canvas_node \<Rightarrow> rat) \<Rightarrow> rat \<Rightarrow> canvas_node list \<Rightarrow> positions \<Rightarrow> positions" where
  "place pos step c [] m = m"
| "place pos step c (node # nodes) m = place pos step (c + step node) nodes (js_set m (cn_id node) (pos c node))"

definition min_of :: "(canvas_node \<Rightarrow> rat) \<Rightarrow> canvas_node list \<Rightarrow> rat" where
  "min_of f nodes = js_min (f (hd nodes)) (map f (tl nodes))"

definition max_of :: "(canvas_node \<Rightarrow> rat) \<Rightarrow> canvas_node list \<Rightarrow> rat" where
  "max_of f nodes = js_max (f (hd nodes)) (map f (tl nodes))"

abbreviation node_x :: "canvas_node \<Rightarrow> rat" where
  "node_x node \<equiv> px (cn_position node)"

abbreviation node_y :: "canvas_node \<Rightarrow> rat" where
  "node_y node \<equiv> py (cn_position node)"

definition reading_order :: "canvas_node list \<Rightarrow> canvas_node list" where
  "reading_order nodes = sort_key (\<lambda>node. (node_y node, node_x node)) nodes"

text \<open>\<^verbatim>\<open>Math.ceil(Math.sqrt(n))\<close>\<close>

definition ceil_sqrt :: "nat \<Rightarrow> nat" where
  "ceil_sqrt n = hd (filter (\<lambda>c. n \<le> c * c) [0..<n + 1])"

fun place_grid :: "nat \<Rightarrow> rat \<Rightarrow> rat \<Rightarrow> rat \<Rightarrow> rat \<Rightarrow> nat \<Rightarrow> canvas_node list \<Rightarrow> positions \<Rightarrow> positions" where
  "place_grid columns x0 y0 cellWidth cellHeight index [] m = m"
| "place_grid columns x0 y0 cellWidth cellHeight index (node # nodes) m =
     place_grid columns x0 y0 cellWidth cellHeight (Suc index) nodes
       (js_set m (cn_id node) \<lparr>px = x0 + of_nat (index mod columns) * cellWidth,
          py = y0 + of_nat (index div columns) * cellHeight\<rparr>)"

definition layoutCanvasNodes :: "canvas_node list \<Rightarrow> layout_mode \<Rightarrow> positions" where
  "layoutCanvasNodes nodes mode =
     (let sorted = reading_order nodes; left = min_of node_x sorted; top = min_of node_y sorted; gap = 32
      in case mode of
           RowLayout \<Rightarrow> place (\<lambda>x node. \<lparr>px = x, py = top\<rparr>) (\<lambda>node. cn_width node + gap) left sorted []
         | ColumnLayout \<Rightarrow> place (\<lambda>y node. \<lparr>px = left, py = y\<rparr>) (\<lambda>node. cn_height node + gap) top sorted []
         | GridLayout \<Rightarrow> place_grid (ceil_sqrt (length sorted)) left top (max_of cn_width sorted + gap)
             (max_of cn_height sorted + gap) 0 sorted [])"

subsection \<open>Columns along the connections\<close>

record flow_state =
  fw_inbound :: "(string, nat) js_map"
  fw_queue :: "string list"
  fw_layers :: "(string, nat) js_map"

text \<open>\<^verbatim>\<open>map.get(key) || 0\<close>\<close>

definition number_at :: "(string, nat) js_map \<Rightarrow> string \<Rightarrow> nat" where
  "number_at m k = (case js_get m k of None \<Rightarrow> 0 | Some n \<Rightarrow> n)"

definition count_connection ::
  "string list \<Rightarrow> (string, nat) js_map \<times> (string, string list) js_map \<Rightarrow> canvas_connection \<Rightarrow>
   (string, nat) js_map \<times> (string, string list) js_map" where
  "count_connection selectedIds maps c =
     (if cx_fromNodeId c \<notin> set selectedIds \<or> cx_toNodeId c \<notin> set selectedIds then maps
      else (js_set (fst maps) (cx_toNodeId c) (number_at (fst maps) (cx_toNodeId c) + 1),
            case js_get (snd maps) (cx_fromNodeId c) of
              None \<Rightarrow> snd maps
            | Some targets \<Rightarrow> js_set (snd maps) (cx_fromNodeId c) (targets @ [cx_toNodeId c])))"

definition flow_maps :: "canvas_node list \<Rightarrow> canvas_connection list \<Rightarrow> (string, nat) js_map \<times> (string, string list) js_map" where
  "flow_maps nodes connections =
     foldl (count_connection (js_set_of (map cn_id nodes)))
       (js_map_of (map (\<lambda>node. (cn_id node, 0)) nodes), js_map_of (map (\<lambda>node. (cn_id node, [])) nodes)) connections"

definition visit_target :: "nat \<Rightarrow> flow_state \<Rightarrow> string \<Rightarrow> flow_state" where
  "visit_target layer s target =
     (let layers = js_set (fw_layers s) target (max (number_at (fw_layers s) target) (layer + 1));
          waiting = number_at (fw_inbound s) target;
          left = (if waiting = 0 then 1 else waiting) - 1
      in \<lparr>fw_inbound = js_set (fw_inbound s) target left,
          fw_queue = (if left = 0 then fw_queue s @ [target] else fw_queue s), fw_layers = layers\<rparr>)"

definition targets_of :: "(string, string list) js_map \<Rightarrow> string \<Rightarrow> string list" where
  "targets_of outbound ident = (case js_get outbound ident of None \<Rightarrow> [] | Some targets \<Rightarrow> targets)"

partial_function (option) flow_loop :: "(string, string list) js_map \<Rightarrow> flow_state \<Rightarrow> flow_state option" where
  "flow_loop outbound s =
     (case fw_queue s of
        [] \<Rightarrow> Some s
      | ident # rest \<Rightarrow> flow_loop outbound
          (foldl (visit_target (number_at (fw_layers s) ident)) (s\<lparr>fw_queue := rest\<rparr>) (targets_of outbound ident)))"

definition flow_start :: "canvas_node list \<Rightarrow> (string, nat) js_map \<Rightarrow> flow_state" where
  "flow_start nodes inbound =
     (let queue = map cn_id (filter (\<lambda>node. number_at inbound (cn_id node) = 0) nodes)
      in \<lparr>fw_inbound = inbound, fw_queue = queue, fw_layers = foldl (\<lambda>m ident. js_set m ident 0) [] queue\<rparr>)"

definition flow_layers :: "canvas_node list \<Rightarrow> canvas_connection list \<Rightarrow> (string, nat) js_map option" where
  "flow_layers nodes connections =
     (let (inbound, outbound) = flow_maps nodes connections
      in map_option (\<lambda>s. foldl (\<lambda>m node. if js_has m (cn_id node) then m else js_set m (cn_id node) 0) (fw_layers s) nodes)
           (flow_loop outbound (flow_start nodes inbound)))"

definition add_to_group :: "(string, nat) js_map \<Rightarrow> (nat, canvas_node list) js_map \<Rightarrow> canvas_node \<Rightarrow> (nat, canvas_node list) js_map" where
  "add_to_group layers groups node =
     (let layer = number_at layers (cn_id node)
      in js_set groups layer ((case js_get groups layer of None \<Rightarrow> [] | Some ns \<Rightarrow> ns) @ [node]))"

definition column_of :: "(nat, canvas_node list) js_map \<Rightarrow> nat \<Rightarrow> canvas_node list" where
  "column_of groups layer = sort_key node_y (case js_get groups layer of None \<Rightarrow> [] | Some ns \<Rightarrow> ns)"

fun place_columns :: "rat \<Rightarrow> (nat \<Rightarrow> canvas_node list) \<Rightarrow> rat \<Rightarrow> nat list \<Rightarrow> positions \<Rightarrow> positions" where
  "place_columns y0 column x [] m = m"
| "place_columns y0 column x (layer # layers) m =
     place_columns y0 column (x + max_of cn_width (column layer) + 120) layers
       (place (\<lambda>y node. \<lparr>px = x, py = y\<rparr>) (\<lambda>node. cn_height node + 48) y0 (column layer) m)"

definition layoutCanvasFlow :: "canvas_node list \<Rightarrow> canvas_connection list \<Rightarrow> positions option" where
  "layoutCanvasFlow nodes connections =
     map_option (\<lambda>layers.
       let groups = foldl (add_to_group layers) [] nodes
       in place_columns (min_of node_y nodes) (column_of groups) (min_of node_x nodes) (sort (js_keys groups)) [])
       (flow_layers nodes connections)"

subsection \<open>Alignment\<close>

datatype alignment_mode =
  AlignLeft | AlignCenterX | AlignRight | AlignTop | AlignCenterY | AlignBottom | DistributeX | DistributeY

definition alignCanvasNodes :: "canvas_node list \<Rightarrow> alignment_mode \<Rightarrow> positions" where
  "alignCanvasNodes nodes mode =
     (if length nodes < 2 then []
      else let left = min_of node_x nodes; top = min_of node_y nodes;
               right = max_of (\<lambda>n. node_x n + cn_width n) nodes; bottom = max_of (\<lambda>n. node_y n + cn_height n) nodes;
               centerX = (left + right) / 2; centerY = (top + bottom) / 2
      in if mode = DistributeX
         then let sorted = sort_key node_x nodes; totalWidth = foldl (\<lambda>sum n. sum + cn_width n) 0 sorted;
                  gap = (right - left - totalWidth) / of_nat (max 1 (length sorted - 1))
              in place (\<lambda>x n. \<lparr>px = x, py = node_y n\<rparr>) (\<lambda>n. cn_width n + gap) left sorted []
         else if mode = DistributeY
         then let sorted = sort_key node_y nodes; totalHeight = foldl (\<lambda>sum n. sum + cn_height n) 0 sorted;
                  gap = (bottom - top - totalHeight) / of_nat (max 1 (length sorted - 1))
              in place (\<lambda>y n. \<lparr>px = node_x n, py = y\<rparr>) (\<lambda>n. cn_height n + gap) top sorted []
         else foldl (\<lambda>m n. js_set m (cn_id n)
           \<lparr>px = (if mode = AlignLeft then left else if mode = AlignCenterX then centerX - cn_width n / 2
                  else if mode = AlignRight then right - cn_width n else node_x n),
            py = (if mode = AlignTop then top else if mode = AlignCenterY then centerY - cn_height n / 2
                  else if mode = AlignBottom then bottom - cn_height n else node_y n)\<rparr>) [] nodes)"

text \<open>The label of the next version of a node; only the code of its letter matters.\<close>

definition nextCanvasVersionLabel :: "string \<Rightarrow> canvas_node list \<Rightarrow> string" where
  "nextCanvasVersionLabel rootId nodes =
     (let versions = filter (\<lambda>n. or_text (md_versionOfNodeId (meta n)) (Some (cn_id n)) = Some rootId) nodes;
          labels = map the (filter has_text (map (\<lambda>n. md_versionLabel (meta n)) versions))
      in if labels = [] then ''B''
         else let highest = foldr max (map (\<lambda>l. of_char (hd l)) labels) 65
              in [char_of (min 90 (highest + 1 :: nat))])"

subsection \<open>Placed nodes do not overlap\<close>

definition apart :: "rat \<Rightarrow> canvas_node \<Rightarrow> position \<Rightarrow> canvas_node \<Rightarrow> position \<Rightarrow> bool" where
  "apart gap n p m q \<longleftrightarrow> px p + cn_width n + gap \<le> px q \<or> px q + cn_width m + gap \<le> px p \<or>
     py p + cn_height n + gap \<le> py q \<or> py q + cn_height m + gap \<le> py p"

definition arranged :: "rat \<Rightarrow> canvas_node list \<Rightarrow> positions \<Rightarrow> bool" where
  "arranged gap nodes r \<longleftrightarrow> (\<forall>n \<in> set nodes. \<forall>m \<in> set nodes. n \<noteq> m \<longrightarrow>
     (\<exists>p q. js_get r (cn_id n) = Some p \<and> js_get r (cn_id m) = Some q \<and> apart gap n p m q))"

definition sized :: "canvas_node list \<Rightarrow> bool" where
  "sized nodes \<longleftrightarrow> (\<forall>n \<in> set nodes. 0 \<le> cn_width n \<and> 0 \<le> cn_height n)"

lemma apart_sym: "apart gap n p m q \<longleftrightarrow> apart gap m q n p"
  by (auto simp: apart_def)

lemma arranged_by_index:
  assumes "\<And>i j. i < j \<Longrightarrow> j < length ns \<Longrightarrow>
    \<exists>p q. js_get r (cn_id (ns ! i)) = Some p \<and> js_get r (cn_id (ns ! j)) = Some q \<and> apart gap (ns ! i) p (ns ! j) q"
  shows "arranged gap ns r"
  unfolding arranged_def
proof (intro ballI impI)
  fix n m assume "n \<in> set ns" "m \<in> set ns" "n \<noteq> m"
  then obtain i j where ij: "i < length ns" "n = ns ! i" "j < length ns" "m = ns ! j" "i \<noteq> j"
    by (metis in_set_conv_nth)
  then consider "i < j" | "j < i" by linarith
  then show "\<exists>p q. js_get r (cn_id n) = Some p \<and> js_get r (cn_id m) = Some q \<and> apart gap n p m q"
    by cases (use ij assms apart_sym in blast)+
qed

lemma arranged_mset: "mset ns = mset ms \<Longrightarrow> arranged gap ns r = arranged gap ms r"
  unfolding arranged_def by (drule mset_eq_setD) simp

lemma sized_mset: "mset ns = mset ms \<Longrightarrow> sized ns = sized ms"
  unfolding sized_def by (drule mset_eq_setD) simp

lemma place_other: "i \<notin> cn_id ` set ns \<Longrightarrow> js_get (place pos step c ns m) i = js_get m i"
  by (induction ns arbitrary: c m) (auto simp: js_get_set)

lemma place_nth:
  "distinct (map cn_id ns) \<Longrightarrow> k < length ns \<Longrightarrow>
    js_get (place pos step c ns m) (cn_id (ns ! k)) = Some (pos (c + sum_list (map step (take k ns))) (ns ! k))"
proof (induction ns arbitrary: c m k)
  case (Cons n ns)
  show ?case
  proof (cases k)
    case 0
    then show ?thesis using Cons.prems by (simp add: place_other js_get_set)
  next
    case (Suc l)
    then show ?thesis using Cons.prems Cons.IH [of l] by (simp add: algebra_simps)
  qed
qed simp

lemma partial_sums:
  fixes f :: "'a \<Rightarrow> rat"
  assumes "i < j" "j \<le> length xs" "\<And>x. x \<in> set xs \<Longrightarrow> 0 \<le> f x"
  shows "sum_list (map f (take i xs)) + f (xs ! i) \<le> sum_list (map f (take j xs))"
proof -
  have "take j xs = take i (take j xs) @ take j xs ! i # drop (Suc i) (take j xs)"
    using assms(1,2) by (intro id_take_nth_drop) simp
  then have "take j xs = take i xs @ xs ! i # take (j - Suc i) (drop (Suc i) xs)"
    using assms(1) by (simp add: min_def drop_take)
  moreover have "0 \<le> sum_list (map f (take (j - Suc i) (drop (Suc i) xs)))"
    by (rule sum_list_nonneg) (auto dest!: in_set_takeD in_set_dropD intro: assms(3))
  ultimately show ?thesis by simp
qed

lemma place_arranged:
  assumes "distinct (map cn_id ns)" "\<And>n. n \<in> set ns \<Longrightarrow> 0 \<le> step n"
    and "\<And>n k c d. n \<in> set ns \<Longrightarrow> k \<in> set ns \<Longrightarrow> c + step n \<le> d \<Longrightarrow> apart gap n (pos c n) k (pos d k)"
  shows "arranged gap ns (place pos step c ns m)"
proof (rule arranged_by_index)
  fix i j assume ij: "i < j" "j < length ns"
  then have "c + sum_list (map step (take i ns)) + step (ns ! i) \<le> c + sum_list (map step (take j ns))"
    using partial_sums [OF ij(1), of ns step] assms(2) by (simp add: algebra_simps)
  then have "apart gap (ns ! i) (pos (c + sum_list (map step (take i ns))) (ns ! i))
      (ns ! j) (pos (c + sum_list (map step (take j ns))) (ns ! j))"
    using ij by (intro assms(3)) auto
  then show "\<exists>p q. js_get (place pos step c ns m) (cn_id (ns ! i)) = Some p \<and>
      js_get (place pos step c ns m) (cn_id (ns ! j)) = Some q \<and> apart gap (ns ! i) p (ns ! j) q"
    using ij by (simp add: place_nth [OF assms(1)])
qed

lemma place_grid_other: "i \<notin> cn_id ` set ns \<Longrightarrow> js_get (place_grid columns x0 y0 w h index ns m) i = js_get m i"
  by (induction ns arbitrary: index m) (auto simp: js_get_set)

lemma place_grid_nth:
  "distinct (map cn_id ns) \<Longrightarrow> k < length ns \<Longrightarrow>
    js_get (place_grid columns x0 y0 w h index ns m) (cn_id (ns ! k)) =
      Some \<lparr>px = x0 + of_nat ((index + k) mod columns) * w, py = y0 + of_nat ((index + k) div columns) * h\<rparr>"
proof (induction ns arbitrary: index m k)
  case (Cons n ns)
  show ?case
  proof (cases k)
    case 0
    then show ?thesis using Cons.prems by (simp add: place_grid_other js_get_set)
  next
    case (Suc l)
    then show ?thesis using Cons.prems Cons.IH [of l "Suc index"] by simp
  qed
qed simp

lemma min_of_le: "ns \<noteq> [] \<Longrightarrow> n \<in> set ns \<Longrightarrow> min_of f ns \<le> f n"
  by (cases ns) (auto simp: min_of_def intro: js_min_le)

lemma max_of_ge: "ns \<noteq> [] \<Longrightarrow> n \<in> set ns \<Longrightarrow> f n \<le> max_of f ns"
  by (cases ns) (auto simp: max_of_def intro: js_max_ge)

lemma max_of_in: "ns \<noteq> [] \<Longrightarrow> \<exists>n \<in> set ns. max_of f ns = f n"
  using js_max_in [of "f (hd ns)" "map f (tl ns)"] by (cases ns) (auto simp: max_of_def)

lemma max_of_nonneg: "ns \<noteq> [] \<Longrightarrow> (\<And>n. n \<in> set ns \<Longrightarrow> 0 \<le> f n) \<Longrightarrow> 0 \<le> max_of f ns"
  using max_of_in [of ns f] by auto

lemma grid_arranged:
  assumes "distinct (map cn_id ns)" "sized ns" "ns \<noteq> []" "0 \<le> gap"
  shows "arranged gap ns (place_grid columns x0 y0 (max_of cn_width ns + gap) (max_of cn_height ns + gap) 0 ns m)"
proof (rule arranged_by_index)
  let ?w = "max_of cn_width ns + gap" and ?h = "max_of cn_height ns + gap"
  fix i j assume ij: "i < j" "j < length ns"
  have pos: "0 \<le> ?w" "0 \<le> ?h"
    using max_of_nonneg [of ns cn_width] max_of_nonneg [of ns cn_height] assms(2-4) by (auto simp: sized_def)
  have fits: "cn_width (ns ! k) + gap \<le> ?w" "cn_height (ns ! k) + gap \<le> ?h" if "k < length ns" for k
    using that max_of_ge [OF assms(3), of "ns ! k"] by auto
  have cell: "x0 + of_nat a * c + s \<le> x0 + of_nat b * c" if "a < b" "s \<le> c" "0 \<le> c" for a b :: nat and x0 c s :: rat
  proof -
    have "of_nat (Suc a) * c \<le> of_nat b * c" using that by (intro mult_right_mono) auto
    then show ?thesis using that(2) by (simp add: algebra_simps)
  qed
  have "i mod columns \<noteq> j mod columns \<or> i div columns \<noteq> j div columns"
    using ij(1) by (metis div_mult_mod_eq less_irrefl)
  then consider "i mod columns < j mod columns" | "j mod columns < i mod columns"
    | "i div columns < j div columns" | "j div columns < i div columns" by linarith
  then have "apart gap (ns ! i) \<lparr>px = x0 + of_nat (i mod columns) * ?w, py = y0 + of_nat (i div columns) * ?h\<rparr>
      (ns ! j) \<lparr>px = x0 + of_nat (j mod columns) * ?w, py = y0 + of_nat (j div columns) * ?h\<rparr>"
  proof cases
    case 1
    then show ?thesis using cell [OF 1 fits(1) pos(1), of i x0] ij by (simp add: apart_def add.assoc)
  next
    case 2
    then show ?thesis using cell [OF 2 fits(1) pos(1), of j x0] ij by (simp add: apart_def add.assoc)
  next
    case 3
    then show ?thesis using cell [OF 3 fits(2) pos(2), of i y0] ij by (simp add: apart_def add.assoc)
  next
    case 4
    then show ?thesis using cell [OF 4 fits(2) pos(2), of j y0] ij by (simp add: apart_def add.assoc)
  qed
  then show "\<exists>p q. js_get (place_grid columns x0 y0 ?w ?h 0 ns m) (cn_id (ns ! i)) = Some p \<and>
      js_get (place_grid columns x0 y0 ?w ?h 0 ns m) (cn_id (ns ! j)) = Some q \<and> apart gap (ns ! i) p (ns ! j) q"
    using ij by (simp add: place_grid_nth [OF assms(1)])
qed

lemma reading_order_simps [simp]: "mset (reading_order nodes) = mset nodes" "length (reading_order nodes) = length nodes"
  by (simp_all add: reading_order_def)

lemma distinct_mset_map: "mset ns = mset ms \<Longrightarrow> distinct (map f ns) = distinct (map f ms)"
  by (metis mset_eq_imp_distinct_iff mset_map)

lemma layout_arranged:
  assumes "distinct (map cn_id nodes)" "sized nodes" "nodes \<noteq> []"
  shows "arranged 32 nodes (layoutCanvasNodes nodes mode)"
proof -
  let ?s = "reading_order nodes"
  have s: "distinct (map cn_id ?s)" "sized ?s" "?s \<noteq> []"
    using assms distinct_mset_map [of ?s nodes cn_id] sized_mset [of ?s nodes] reading_order_simps(2) [of nodes]
    by (simp, simp, metis length_0_conv)
  have "arranged 32 ?s (layoutCanvasNodes nodes mode)"
  proof (cases mode)
    case RowLayout
    then show ?thesis
      using s by (auto simp: layoutCanvasNodes_def Let_def sized_def apart_def add.assoc intro!: place_arranged)
  next
    case ColumnLayout
    then show ?thesis
      using s by (auto simp: layoutCanvasNodes_def Let_def sized_def apart_def add.assoc intro!: place_arranged)
  next
    case GridLayout
    then show ?thesis using s by (simp add: layoutCanvasNodes_def Let_def grid_arranged)
  qed
  then show ?thesis by (simp add: arranged_mset [of ?s nodes])
qed

subsection \<open>The loop over the connections\<close>

definition flow_edges :: "canvas_node list \<Rightarrow> canvas_connection list \<Rightarrow> (string \<times> string) list" where
  "flow_edges nodes connections =
     map (\<lambda>c. (cx_fromNodeId c, cx_toNodeId c))
       (filter (\<lambda>c. cx_fromNodeId c \<in> cn_id ` set nodes \<and> cx_toNodeId c \<in> cn_id ` set nodes) connections)"

lemma number_at_set [simp]: "number_at (js_set m k n) i = (if i = k then n else number_at m i)"
  by (simp add: number_at_def js_get_set)

lemma count_connections:
  assumes "\<And>u. js_get outbound u = (if u \<in> set ids then Some (out u) else None)"
  shows "number_at (fst (foldl (count_connection ids) (inbound, outbound) cs)) v = number_at inbound v +
      length (filter (\<lambda>c. cx_fromNodeId c \<in> set ids \<and> cx_toNodeId c \<in> set ids \<and> cx_toNodeId c = v) cs) \<and>
    js_get (snd (foldl (count_connection ids) (inbound, outbound) cs)) u = (if u \<in> set ids then Some (out u @
      map cx_toNodeId (filter (\<lambda>c. cx_fromNodeId c \<in> set ids \<and> cx_toNodeId c \<in> set ids \<and> cx_fromNodeId c = u) cs)) else None)"
  using assms
proof (induction cs arbitrary: inbound outbound out)
  case (Cons c cs)
  show ?case
  proof (cases "cx_fromNodeId c \<in> set ids \<and> cx_toNodeId c \<in> set ids")
    case True
    let ?inbound = "js_set inbound (cx_toNodeId c) (number_at inbound (cx_toNodeId c) + 1)"
    let ?outbound = "js_set outbound (cx_fromNodeId c) (out (cx_fromNodeId c) @ [cx_toNodeId c])"
    let ?out = "out(cx_fromNodeId c := out (cx_fromNodeId c) @ [cx_toNodeId c])"
    have "count_connection ids (inbound, outbound) c = (?inbound, ?outbound)"
      using True Cons.prems by (simp add: count_connection_def)
    moreover have "js_get ?outbound u = (if u \<in> set ids then Some (?out u) else None)" for u
      using True Cons.prems by (simp add: js_get_set)
    ultimately show ?thesis
      using True Cons.IH [of ?outbound ?out ?inbound] by simp
  next
    case False
    then show ?thesis using Cons.IH [OF Cons.prems, of inbound] by (auto simp: count_connection_def)
  qed
qed simp

lemma size_filter_list: "size (filter_mset P (mset xs)) = length (filter P xs)"
  by (metis mset_filter size_mset)

lemma flow_maps_edges:
  assumes "distinct (map cn_id nodes)" "flow_maps nodes connections = (inbound, outbound)"
  shows "number_at inbound v = size (filter_mset (\<lambda>e. snd e = v) (mset (flow_edges nodes connections)))"
    and "u \<in> cn_id ` set nodes \<Longrightarrow>
      targets_of outbound u = map snd (filter (\<lambda>e. fst e = u) (flow_edges nodes connections))"
proof -
  let ?V = "js_set_of (map cn_id nodes)" and ?f = "\<lambda>x. js_map_of (map (\<lambda>node. (cn_id node, x)) nodes)"
  have get: "js_get (?f x) w = (if w \<in> set ?V then Some x else None)" for x :: 'v and w
    using assms(1) by (auto simp: js_map_of_distinct comp_def map_of_eq_None_iff map_of_map_restrict
        intro!: map_of_is_SomeI)
  have zero: "number_at (?f 0) v = 0" by (simp add: number_at_def get)
  from count_connections [of "?f []" ?V "\<lambda>_. []" "?f 0" connections v u, OF get] assms(2)
  have counts: "number_at inbound v = length (filter (\<lambda>c. cx_fromNodeId c \<in> set ?V \<and> cx_toNodeId c \<in> set ?V \<and> cx_toNodeId c = v) connections)"
    and outs: "js_get outbound u = (if u \<in> set ?V then Some (map cx_toNodeId
      (filter (\<lambda>c. cx_fromNodeId c \<in> set ?V \<and> cx_toNodeId c \<in> set ?V \<and> cx_fromNodeId c = u) connections)) else None)"
    using zero by (simp_all add: flow_maps_def)
  show "number_at inbound v = size (filter_mset (\<lambda>e. snd e = v) (mset (flow_edges nodes connections)))"
    unfolding counts size_filter_list flow_edges_def by (simp add: filter_map comp_def conj_ac)
  show "targets_of outbound u = map snd (filter (\<lambda>e. fst e = u) (flow_edges nodes connections))"
    if "u \<in> cn_id ` set nodes"
    using that unfolding targets_of_def outs flow_edges_def
    by (simp add: filter_map comp_def conj_ac)
qed

lemma flow_edges_in: "e \<in> set (flow_edges nodes connections) \<Longrightarrow>
    fst e \<in> cn_id ` set nodes \<and> snd e \<in> cn_id ` set nodes"
  by (auto simp: flow_edges_def)

text \<open>
  The invariant of the loop: \<open>P\<close> are the nodes taken from the queue, \<open>rest\<close> the connections not yet followed.
  A node is in \<open>P\<close> or waits in the queue exactly if no unfollowed connection leads to it.
\<close>

definition flow_inv :: "string set \<Rightarrow> (string \<times> string) multiset \<Rightarrow> string set \<Rightarrow> (string \<times> string) multiset \<Rightarrow> flow_state \<Rightarrow> bool" where
  "flow_inv V E P rest s \<longleftrightarrow>
     rest \<subseteq># E \<and>
     (\<forall>v. number_at (fw_inbound s) v = size (filter_mset (\<lambda>e. snd e = v) rest)) \<and>
     distinct (fw_queue s) \<and> set (fw_queue s) \<inter> P = {} \<and>
     P \<union> set (fw_queue s) = {v \<in> V. number_at (fw_inbound s) v = 0} \<and>
     (\<forall>e \<in># E - rest. fst e \<in> P \<and> number_at (fw_layers s) (fst e) < number_at (fw_layers s) (snd e))"

lemma flow_inv_visit:
  assumes inv: "flow_inv V E P rest s" and e: "(u, t) \<in># rest" and u: "u \<in> P" and V: "t \<in> V"
    and layer: "layer = number_at (fw_layers s) u"
  shows "flow_inv V E P (rest - {#(u, t)#}) (visit_target layer s t)" (is ?inv)
    and "number_at (fw_layers (visit_target layer s t)) u = layer" (is ?layer)
proof -
  let ?i = "number_at (fw_inbound s)" and ?l = "number_at (fw_layers s)"
  have count: "?i v = size (filter_mset (\<lambda>e. snd e = v) rest)" for v
    using inv by (simp add: flow_inv_def)
  have "(u, t) \<in># filter_mset (\<lambda>e. snd e = t) rest" using e by simp
  then have "0 < ?i t" unfolding count by (metis empty_not_add_mset gr0I insert_DiffM size_eq_0_iff_empty)
  have zeros: "P \<union> set (fw_queue s) = {v \<in> V. ?i v = 0}" using inv unfolding flow_inv_def by blast
  have "t \<notin> P \<union> set (fw_queue s)" unfolding zeros using \<open>0 < ?i t\<close> by simp
  then have t: "t \<notin> P" "t \<notin> set (fw_queue s)" by simp_all
  with u have ne: "u \<noteq> t" by auto
  then show ?layer by (simp add: visit_target_def Let_def layer)
  have i': "number_at (fw_inbound (visit_target layer s t)) v = (if v = t then ?i t - 1 else ?i v)" for v
    using \<open>0 < ?i t\<close> by (simp add: visit_target_def Let_def)
  have l': "number_at (fw_layers (visit_target layer s t)) v = (if v = t then max (?l t) (layer + 1) else ?l v)" for v
    by (simp add: visit_target_def Let_def)
  have q': "fw_queue (visit_target layer s t) = (if ?i t = 1 then fw_queue s @ [t] else fw_queue s)"
    using \<open>0 < ?i t\<close> by (auto simp: visit_target_def Let_def)
  have sub: "rest \<subseteq># E" using inv by (simp add: flow_inv_def)
  have rest': "E - (rest - {#(u, t)#}) = add_mset (u, t) (E - rest)"
    using sub e by (metis add_mset_add_single diff_diff_add_mset insert_DiffM mset_subset_eq_multiset_union_diff_commute
        multi_drop_mem_not_eq multiset_diff_union_assoc single_subset_iff subset_mset.diff_add_assoc2
        subset_mset.diff_diff_right add.commute)
  have counts': "number_at (fw_inbound (visit_target layer s t)) v = size (filter_mset (\<lambda>e. snd e = v) (rest - {#(u, t)#}))" for v
    using e by (auto simp: i' count size_Diff_singleton)
  have sets: "P \<union> set (fw_queue (visit_target layer s t)) = {v \<in> V. number_at (fw_inbound (visit_target layer s t)) v = 0}"
    using zeros V \<open>0 < ?i t\<close> by (auto simp: i' q' split: if_splits)
  have followed: "fst f \<in> P \<and> number_at (fw_layers (visit_target layer s t)) (fst f)
      < number_at (fw_layers (visit_target layer s t)) (snd f)" if "f \<in># add_mset (u, t) (E - rest)" for f
  proof (cases "f \<in># E - rest")
    case True
    then have "fst f \<in> P" "?l (fst f) < ?l (snd f)" using inv by (auto simp: flow_inv_def)
    moreover from this(1) t have "fst f \<noteq> t" by auto
    ultimately show ?thesis by (auto simp: l')
  next
    case False
    then have "f = (u, t)" using that by simp
    then show ?thesis unfolding l' using u ne by (simp add: layer)
  qed
  show ?inv
    unfolding flow_inv_def
  proof (intro conjI allI ballI)
    show "rest - {#(u, t)#} \<subseteq># E" using sub by (meson diff_subset_eq_self subset_mset.order_trans)
    show "distinct (fw_queue (visit_target layer s t))" using inv t by (simp add: q' flow_inv_def)
    show "set (fw_queue (visit_target layer s t)) \<inter> P = {}" using inv t by (auto simp: q' flow_inv_def)
    fix f assume "f \<in># E - (rest - {#(u, t)#})"
    then show "fst f \<in> P" "number_at (fw_layers (visit_target layer s t)) (fst f)
        < number_at (fw_layers (visit_target layer s t)) (snd f)"
      using followed unfolding rest' by blast+
  qed (fact counts' sets)+
qed

lemma flow_inv_visits:
  assumes "flow_inv V E P rest s" "mset (map (Pair u) ts) \<subseteq># rest" "u \<in> P" "set ts \<subseteq> V"
    and "layer = number_at (fw_layers s) u"
  shows "flow_inv V E P (rest - mset (map (Pair u) ts)) (foldl (visit_target layer) s ts)"
  using assms
proof (induction ts arbitrary: rest s)
  case (Cons t ts)
  have e: "(u, t) \<in># rest" using Cons.prems(2) by (simp add: insert_subset_eq_iff)
  have v: "flow_inv V E P (rest - {#(u, t)#}) (visit_target layer s t)"
      "layer = number_at (fw_layers (visit_target layer s t)) u"
    using flow_inv_visit [OF Cons.prems(1) e Cons.prems(3) _ Cons.prems(5)] Cons.prems(4) by simp_all
  have "mset (map (Pair u) ts) \<subseteq># rest - {#(u, t)#}"
    using Cons.prems(2) by (simp add: insert_subset_eq_iff)
  from Cons.IH [OF v(1) this Cons.prems(3) _ v(2)] Cons.prems(4) show ?case by simp
qed simp

lemma flow_loop_returns:
  assumes E: "\<And>e. e \<in># E \<Longrightarrow> fst e \<in> V \<and> snd e \<in> V" and "finite V"
    and targets: "\<And>u. u \<in> V \<Longrightarrow> mset (map (Pair u) (targets_of outbound u)) = filter_mset (\<lambda>e. fst e = u) E"
    and "flow_inv V E P (filter_mset (\<lambda>e. fst e \<notin> P) E) s"
  shows "\<exists>s' P'. flow_loop outbound s = Some s' \<and> fw_queue s' = [] \<and> flow_inv V E P' (filter_mset (\<lambda>e. fst e \<notin> P') E) s'"
  using assms(4)
proof (induction "card V - card P" arbitrary: P s rule: less_induct)
  case less
  show ?case
  proof (cases "fw_queue s")
    case Nil
    then show ?thesis using less.prems by (subst flow_loop.simps) auto
  next
    case (Cons u qs)
    let ?rest = "filter_mset (\<lambda>e. fst e \<notin> P) E" and ?ts = "targets_of outbound u"
    let ?s = "foldl (visit_target (number_at (fw_layers s) u)) (s\<lparr>fw_queue := qs\<rparr>) ?ts"
    have zeros: "P \<union> set (fw_queue s) = {v \<in> V. number_at (fw_inbound s) v = 0}"
      using less.prems unfolding flow_inv_def by blast
    then have u: "u \<in> V" "P \<subseteq> V" using Cons by auto
    have fresh: "u \<notin> P" using less.prems Cons by (auto simp: flow_inv_def)
    have "flow_inv V E (insert u P) ?rest (s\<lparr>fw_queue := qs\<rparr>)"
      using less.prems Cons by (auto simp: flow_inv_def)
    moreover have follow: "mset (map (Pair u) ?ts) = filter_mset (\<lambda>e. fst e = u) E" by (rule targets [OF u(1)])
    moreover have "filter_mset (\<lambda>e. fst e = u) E \<subseteq># ?rest"
      using fresh by (auto simp: subseteq_mset_def)
    moreover have "set ?ts \<subseteq> V"
    proof
      fix t assume "t \<in> set ?ts"
      then have "(u, t) \<in># mset (map (Pair u) ?ts)" by simp
      then show "t \<in> V" using E unfolding follow by fastforce
    qed
    ultimately have "flow_inv V E (insert u P) (?rest - filter_mset (\<lambda>e. fst e = u) E) ?s"
      using flow_inv_visits [of V E "insert u P" ?rest "s\<lparr>fw_queue := qs\<rparr>" u ?ts "number_at (fw_layers s) u"] by simp
    moreover have "?rest - filter_mset (\<lambda>e. fst e = u) E = filter_mset (\<lambda>e. fst e \<notin> insert u P) E"
      using fresh by (auto simp: multiset_eq_iff)
    ultimately have inv: "flow_inv V E (insert u P) (filter_mset (\<lambda>e. fst e \<notin> insert u P) E) ?s" by simp
    have "finite P" using u(2) \<open>finite V\<close> by (rule finite_subset)
    moreover have "card (insert u P) \<le> card V" using u \<open>finite V\<close> by (intro card_mono) auto
    ultimately have smaller: "card V - card (insert u P) < card V - card P" using fresh by simp
    obtain s' P' where "flow_loop outbound ?s = Some s'" "fw_queue s' = []"
        "flow_inv V E P' (filter_mset (\<lambda>e. fst e \<notin> P') E) s'"
      using less.hyps [OF smaller inv] by blast
    then show ?thesis using Cons by (subst flow_loop.simps) auto
  qed
qed

lemma flow_start_inv:
  assumes "distinct (map cn_id nodes)" "\<And>v. number_at inbound v = size (filter_mset (\<lambda>e. snd e = v) E)"
  shows "flow_inv (cn_id ` set nodes) E {} (filter_mset (\<lambda>e. fst e \<notin> {}) E) (flow_start nodes inbound)"
  using assms distinct_map_filter [OF assms(1)] by (auto simp: flow_inv_def flow_start_def Let_def)

text \<open>A node no cycle leads to.\<close>

definition below_cycle :: "(string \<times> string) set \<Rightarrow> string \<Rightarrow> bool" where
  "below_cycle E u \<longleftrightarrow> (\<exists>x. (x, x) \<in> E\<^sup>+ \<and> (x, u) \<in> E\<^sup>*)"

lemma unfinished_below_cycle:
  assumes "finite E" "u \<in> U" "\<And>v. v \<in> U \<Longrightarrow> \<exists>w \<in> U. (w, v) \<in> E"
  shows "below_cycle E u"
proof (rule ccontr)
  assume free: "\<not> below_cycle E u"
  let ?R = "{(a, b) \<in> E. (b, u) \<in> E\<^sup>*}"
  have "finite ?R" by (rule finite_subset [OF _ assms(1)]) auto
  moreover have "acyclic ?R"
  proof (rule acyclicI, rule allI, rule notI)
    fix x assume x: "(x, x) \<in> ?R\<^sup>+"
    then obtain y where "(y, x) \<in> ?R" by (meson tranclE)
    moreover have "(x, x) \<in> E\<^sup>+" using x by (rule trancl_mono) auto
    ultimately show False using free by (auto simp: below_cycle_def)
  qed
  ultimately have "wf ?R" by (rule finite_acyclic_wf)
  moreover have "u \<in> {v \<in> U. (v, u) \<in> E\<^sup>*}" using assms(2) by simp
  ultimately obtain z where z: "z \<in> U" "(z, u) \<in> E\<^sup>*" and least: "\<And>y. (y, z) \<in> ?R \<Longrightarrow> y \<notin> {v \<in> U. (v, u) \<in> E\<^sup>*}"
    by (auto elim!: wfE_min [where Q = "{v \<in> U. (v, u) \<in> E\<^sup>*}"])
  obtain w where "w \<in> U" "(w, z) \<in> E" using assms(3) [OF z(1)] by blast
  then show False using least [of w] z(2) by (auto intro: converse_rtrancl_into_rtrancl)
qed

lemma fill_layers: "number_at (foldl (\<lambda>m node. if js_has m (cn_id node) then m else js_set m (cn_id node) 0) layers nodes) i
  = number_at layers i"
proof (induction nodes arbitrary: layers)
  case (Cons n nodes)
  have "number_at (if js_has layers (cn_id n) then layers else js_set layers (cn_id n) 0) i = number_at layers i"
    by (auto simp: number_at_def js_has_def js_get_set)
  then show ?case using Cons by simp
qed simp

lemma flow_layers_rise:
  assumes "distinct (map cn_id nodes)"
  shows "\<exists>layers. flow_layers nodes connections = Some layers \<and>
    (\<forall>(u, v) \<in> set (flow_edges nodes connections). \<not> below_cycle (set (flow_edges nodes connections)) u \<longrightarrow>
      number_at layers u < number_at layers v)"
proof -
  let ?E = "flow_edges nodes connections" and ?V = "cn_id ` set nodes"
  obtain inbound outbound where maps: "flow_maps nodes connections = (inbound, outbound)" by fastforce
  have pairs: "map (Pair u) (map snd (filter (\<lambda>e. fst e = u) es)) = filter (\<lambda>e. fst e = u) es"
    for u and es :: "(string \<times> string) list" by (induction es) auto
  have targets: "mset (map (Pair u) (targets_of outbound u)) = filter_mset (\<lambda>e. fst e = u) (mset ?E)" if "u \<in> ?V" for u
    unfolding flow_maps_edges(2) [OF assms maps that] pairs by simp
  obtain s P where loop: "flow_loop outbound (flow_start nodes inbound) = Some s" "fw_queue s = []"
      and inv: "flow_inv ?V (mset ?E) P (filter_mset (\<lambda>e. fst e \<notin> P) (mset ?E)) s"
    using flow_loop_returns [of "mset ?E" ?V, OF _ _ targets flow_start_inv [OF assms flow_maps_edges(1) [OF assms maps]]]
      flow_edges_in by fastforce
  have "number_at (fw_layers s) (fst e) < number_at (fw_layers s) (snd e)" if "e \<in> set ?E" "fst e \<in> P" for e
  proof -
    have "e \<in># mset ?E - filter_mset (\<lambda>e. fst e \<notin> P) (mset ?E)"
      using that by (simp add: in_diff_count flip: count_greater_zero_iff set_mset_mset)
    then show ?thesis using inv by (auto simp: flow_inv_def)
  qed
  moreover have "u \<in> P" if "u \<in> ?V" "\<not> below_cycle (set ?E) u" for u
  proof (rule ccontr)
    assume "u \<notin> P"
    have "P \<union> set (fw_queue s) = {v \<in> ?V. number_at (fw_inbound s) v = 0}" using inv unfolding flow_inv_def by blast
    then have P: "P = {v \<in> ?V. number_at (fw_inbound s) v = 0}" unfolding loop(2) by simp
    have counts: "number_at (fw_inbound s) v =
        size (filter_mset (\<lambda>e. snd e = v) (filter_mset (\<lambda>e. fst e \<notin> P) (mset ?E)))" for v
      using inv unfolding flow_inv_def by blast
    have "\<exists>w \<in> ?V - P. (w, v) \<in> set ?E" if "v \<in> ?V - P" for v
    proof -
      have "v \<in> ?V" "v \<notin> P" using that by simp_all
      then have "number_at (fw_inbound s) v \<noteq> 0" by (subst (asm) P) simp
      then have "filter_mset (\<lambda>e. snd e = v) (filter_mset (\<lambda>e. fst e \<notin> P) (mset ?E)) \<noteq> {#}"
        unfolding counts by (metis size_empty)
      then obtain e where "e \<in># filter_mset (\<lambda>e. snd e = v) (filter_mset (\<lambda>e. fst e \<notin> P) (mset ?E))"
        by (meson multiset_nonemptyE)
      then have e: "e \<in> set ?E" "snd e = v" "fst e \<notin> P" by simp_all
      then have "fst e \<in> ?V - P" using flow_edges_in [OF e(1)] by simp
      moreover have "(fst e, v) \<in> set ?E" using e by (metis prod.collapse)
      ultimately show ?thesis by blast
    qed
    then show False
      using unfinished_below_cycle [of "set ?E" u "?V - P"] that \<open>u \<notin> P\<close> by auto
  qed
  moreover have "flow_layers nodes connections =
      Some (foldl (\<lambda>m node. if js_has m (cn_id node) then m else js_set m (cn_id node) 0) (fw_layers s) nodes)"
    by (simp add: flow_layers_def maps loop)
  ultimately show ?thesis using flow_edges_in by (fastforce simp: fill_layers)
qed

subsection \<open>The columns of a flow\<close>

definition group_at :: "(nat, canvas_node list) js_map \<Rightarrow> nat \<Rightarrow> canvas_node list" where
  "group_at groups l = (case js_get groups l of None \<Rightarrow> [] | Some ns \<Rightarrow> ns)"

lemma grouped:
  "group_at (foldl (add_to_group layers) groups nodes) l =
    group_at groups l @ filter (\<lambda>n. number_at layers (cn_id n) = l) nodes"
proof (induction nodes arbitrary: groups)
  case (Cons n nodes)
  have "group_at (add_to_group layers groups n) l
    = group_at groups l @ (if number_at layers (cn_id n) = l then [n] else [])"
    by (simp add: add_to_group_def Let_def group_at_def js_get_set)
  then show ?case using Cons by simp
qed simp

lemma grouped_keys:
  "distinct (js_keys groups) \<Longrightarrow> distinct (js_keys (foldl (add_to_group layers) groups nodes)) \<and>
    set (js_keys (foldl (add_to_group layers) groups nodes)) =
      set (js_keys groups) \<union> (\<lambda>n. number_at layers (cn_id n)) ` set nodes"
proof (induction nodes arbitrary: groups)
  case (Cons n nodes)
  have "distinct (js_keys (add_to_group layers groups n))" using Cons.prems by (simp add: add_to_group_def Let_def)
  moreover have "set (js_keys (add_to_group layers groups n)) = insert (number_at layers (cn_id n)) (set (js_keys groups))"
    by (auto simp: add_to_group_def Let_def js_keys_set)
  ultimately show ?case using Cons.IH by auto
qed simp

lemma column_of_eq: "column_of (foldl (add_to_group layers) [] nodes) l =
  sort_key node_y (filter (\<lambda>n. number_at layers (cn_id n) = l) nodes)"
  using grouped [of layers "[]" nodes l] by (simp add: column_of_def group_at_def)

lemma place_columns_other:
  "i \<notin> (\<Union>l \<in> set ls. cn_id ` set (column l)) \<Longrightarrow> js_get (place_columns y0 column x ls m) i = js_get m i"
  by (induction ls arbitrary: x m) (auto simp: place_other)

lemma place_columns_nth:
  assumes "distinct ls" "\<And>l. l \<in> set ls \<Longrightarrow> distinct (map cn_id (column l))"
    and "\<And>l l'. l \<in> set ls \<Longrightarrow> l' \<in> set ls \<Longrightarrow> l \<noteq> l' \<Longrightarrow> cn_id ` set (column l) \<inter> cn_id ` set (column l') = {}"
    and "i < length ls" "k < length (column (ls ! i))"
  shows "js_get (place_columns y0 column x ls m) (cn_id (column (ls ! i) ! k)) =
    Some \<lparr>px = x + sum_list (map (\<lambda>l. max_of cn_width (column l) + 120) (take i ls)),
      py = y0 + sum_list (map (\<lambda>n. cn_height n + 48) (take k (column (ls ! i))))\<rparr>"
  using assms
proof (induction ls arbitrary: x m i)
  case (Cons l ls)
  show ?case
  proof (cases i)
    case 0
    have k: "column l ! k \<in> set (column l)" using Cons.prems(5) 0 by simp
    have "cn_id (column l ! k) \<notin> cn_id ` set (column l')" if "l' \<in> set ls" for l'
    proof -
      have "l \<noteq> l'" using Cons.prems(1) that by auto
      then have "cn_id ` set (column l) \<inter> cn_id ` set (column l') = {}" using Cons.prems(3) [of l l'] that by simp
      then show ?thesis using k by blast
    qed
    then have "cn_id (column l ! k) \<notin> (\<Union>l' \<in> set ls. cn_id ` set (column l'))" by simp
    then show ?thesis
      using 0 Cons.prems(5) Cons.prems(2) [of l] by (simp add: place_columns_other place_nth)
  next
    case (Suc j)
    then show ?thesis
      using Cons.prems Cons.IH [of j] by (simp add: algebra_simps)
  qed
qed simp

lemma distinct_sort_key_map: "distinct (map f (sort_key g xs)) = distinct (map f xs)"
  by (rule distinct_mset_map) simp

lemma flow_result:
  assumes ids: "distinct (map cn_id nodes)" and "sized nodes" and layers: "flow_layers nodes connections = Some layers"
  shows "\<exists>r. layoutCanvasFlow nodes connections = Some r \<and> arranged 48 nodes r \<and>
    (\<forall>u \<in> set nodes. \<forall>v \<in> set nodes. number_at layers (cn_id u) < number_at layers (cn_id v) \<longrightarrow>
      (\<exists>p q. js_get r (cn_id u) = Some p \<and> js_get r (cn_id v) = Some q \<and> px p + cn_width u + 120 \<le> px q))"
proof -
  let ?groups = "foldl (add_to_group layers) [] nodes"
  let ?column = "column_of ?groups" and ?ls = "sort (js_keys ?groups)" and ?x = "min_of node_x nodes"
  let ?y = "min_of node_y nodes"
  let ?r = "place_columns ?y ?column ?x ?ls []"
  let ?layer = "\<lambda>n. number_at layers (cn_id n)"
  let ?X = "\<lambda>i. ?x + sum_list (map (\<lambda>l. max_of cn_width (?column l) + 120) (take i ?ls))"
  have member: "n \<in> set (?column l) \<longleftrightarrow> n \<in> set nodes \<and> ?layer n = l" for n l by (auto simp: column_of_eq)
  have keys: "distinct ?ls" "set ?ls = ?layer ` set nodes" using grouped_keys [of "[]" layers nodes] by simp_all
  have widths: "0 \<le> max_of cn_width (?column l) + 120" if l: "l \<in> set ?ls" for l
  proof -
    obtain n where "n \<in> set nodes" "?layer n = l" using l keys(2) by auto
    then have "n \<in> set (?column l)" using member by blast
    then have "?column l \<noteq> []" by (metis empty_iff empty_set)
    then have "0 \<le> max_of cn_width (?column l)"
      using assms(2) member by (intro max_of_nonneg) (auto simp: sized_def)
    then show ?thesis by simp
  qed
  have at: "js_get ?r (cn_id (?column (?ls ! i) ! k)) = Some \<lparr>px = ?X i,
      py = ?y + sum_list (map (\<lambda>n. cn_height n + 48) (take k (?column (?ls ! i))))\<rparr>"
    if "i < length ?ls" "k < length (?column (?ls ! i))" for i k
  proof (rule place_columns_nth [where column = ?column and ls = ?ls, OF keys(1) _ _ that])
    show "distinct (map cn_id (?column l))" for l
      using ids by (simp add: column_of_eq distinct_sort_key_map distinct_map_filter)
    show "cn_id ` set (?column l) \<inter> cn_id ` set (?column l') = {}" if "l \<noteq> l'" for l l'
      using that ids by (auto simp: member distinct_map dest: inj_onD)
  qed
  have where_is: "\<exists>i k. i < length ?ls \<and> ?ls ! i = ?layer n \<and> k < length (?column (?ls ! i)) \<and> ?column (?ls ! i) ! k = n"
    if n: "n \<in> set nodes" for n
  proof -
    have "?layer n \<in> set ?ls" using keys(2) n by simp
    then obtain i where i: "i < length ?ls" "?ls ! i = ?layer n" by (metis in_set_conv_nth)
    then have "n \<in> set (?column (?ls ! i))" using member n by simp
    then show ?thesis using i by (metis in_set_conv_nth)
  qed
  have right: "?X i + cn_width u + 120 \<le> ?X j" if "i < j" "j < length ?ls" "u \<in> set (?column (?ls ! i))" for i j u
  proof -
    have "?column (?ls ! i) \<noteq> []" using that(3) by auto
    then have "cn_width u \<le> max_of cn_width (?column (?ls ! i))" using that(3) by (intro max_of_ge)
    then show ?thesis
      using partial_sums [OF that(1), of ?ls "\<lambda>l. max_of cn_width (?column l) + 120"] that(2) widths by simp
  qed
  have ordered: "\<exists>p q. js_get ?r (cn_id u) = Some p \<and> js_get ?r (cn_id v) = Some q \<and> px p + cn_width u + 120 \<le> px q"
    if u: "u \<in> set nodes" and v: "v \<in> set nodes" and less: "?layer u < ?layer v" for u v
  proof -
    obtain i k j l where i: "i < length ?ls" "?ls ! i = ?layer u" "k < length (?column (?ls ! i))" "?column (?ls ! i) ! k = u"
        and j: "j < length ?ls" "?ls ! j = ?layer v" "l < length (?column (?ls ! j))" "?column (?ls ! j) ! l = v"
      using where_is [OF u] where_is [OF v] by blast
    have "i < j"
    proof (rule ccontr)
      assume "\<not> i < j"
      then have "?ls ! j \<le> ?ls ! i" using i(1) by (intro sorted_nth_mono) auto
      then show False using less i(2) j(2) by simp
    qed
    then show ?thesis using at [OF i(1,3)] at [OF j(1,3)] right [of i j u] i j nth_mem [OF i(3)] by simp
  qed
  moreover have "arranged 48 nodes ?r"
    unfolding arranged_def
  proof (intro ballI impI)
    fix u v assume u: "u \<in> set nodes" and v: "v \<in> set nodes" and ne: "u \<noteq> v"
    consider "?layer u < ?layer v" | "?layer v < ?layer u" | "?layer u = ?layer v" by linarith
    then show "\<exists>p q. js_get ?r (cn_id u) = Some p \<and> js_get ?r (cn_id v) = Some q \<and> apart 48 u p v q"
    proof cases
      case 1
      then show ?thesis using ordered [OF u v] by (fastforce simp: apart_def)
    next
      case 2
      then show ?thesis using ordered [OF v u] by (fastforce simp: apart_def)
    next
      case 3
      obtain i k j l where i: "i < length ?ls" "?ls ! i = ?layer u" "k < length (?column (?ls ! i))" "?column (?ls ! i) ! k = u"
          and j: "j < length ?ls" "?ls ! j = ?layer v" "l < length (?column (?ls ! j))" "?column (?ls ! j) ! l = v"
        using where_is [OF u] where_is [OF v] by blast
      have ij: "j = i" using keys(1) i j 3 by (simp add: distinct_conv_nth) (metis)
      have heights: "\<And>n. n \<in> set (?column (?ls ! i)) \<Longrightarrow> 0 \<le> cn_height n + 48"
        using assms(2) member by (force simp: sized_def)
      have "k \<noteq> l" using i j ij ne by auto
      then consider "k < l" | "l < k" by linarith
      then show ?thesis
      proof cases
        case 1
        then show ?thesis
          using partial_sums [OF 1, of "?column (?ls ! i)" "\<lambda>n. cn_height n + 48"] heights at [OF i(1,3)] at [OF j(1,3)] i j ij
          by (simp add: apart_def)
      next
        case 2
        then show ?thesis
          using partial_sums [OF 2, of "?column (?ls ! i)" "\<lambda>n. cn_height n + 48"] heights at [OF i(1,3)] at [OF j(1,3)] i j ij
          by (simp add: apart_def)
      qed
    qed
  qed
  moreover have "layoutCanvasFlow nodes connections = Some ?r" by (simp add: layoutCanvasFlow_def layers Let_def)
  ultimately show ?thesis by blast
qed

text \<open>
  C19. Arranging selected nodes along their connections always ends, no two of the arranged nodes overlap, and a
  node stands left of every node it is connected to, by at least 120 beyond its width, unless the node lies on or
  behind a cycle. (The identifiers of the nodes are different, their sizes not negative.)
\<close>

theorem flow_layout_follows_connections:
  assumes "distinct (map cn_id nodes)" and "sized nodes"
  shows "\<exists>r. layoutCanvasFlow nodes connections = Some r \<and> arranged 48 nodes r \<and>
    (\<forall>u \<in> set nodes. \<forall>v \<in> set nodes. (cn_id u, cn_id v) \<in> set (flow_edges nodes connections) \<longrightarrow>
      \<not> below_cycle (set (flow_edges nodes connections)) (cn_id u) \<longrightarrow>
      (\<exists>p q. js_get r (cn_id u) = Some p \<and> js_get r (cn_id v) = Some q \<and> px p + cn_width u + 120 \<le> px q))"
proof -
  obtain layers where layers: "flow_layers nodes connections = Some layers"
      and rise: "\<forall>(u, v) \<in> set (flow_edges nodes connections).
        \<not> below_cycle (set (flow_edges nodes connections)) u \<longrightarrow> number_at layers u < number_at layers v"
    using flow_layers_rise [OF assms(1)] by blast
  show ?thesis using flow_result [OF assms layers] rise by fast
qed

definition sample_node :: "string \<Rightarrow> canvas_node" where
  "sample_node ident = \<lparr>cn_id = ident, cn_type = TextNode, cn_title = [], cn_position = \<lparr>px = 0, py = 0\<rparr>,
     cn_width = 340, cn_height = 240, cn_parentId = None, cn_metadata = None\<rparr>"

definition sample_connection :: "string \<Rightarrow> string \<Rightarrow> canvas_connection" where
  "sample_connection a b = \<lparr>cx_id = a @ b, cx_fromNodeId = a, cx_toNodeId = b, cx_fromHandleId = None, cx_toHandleId = None\<rparr>"

theorem flow_layout_follows_connections_witness:
  "\<exists>r p q. layoutCanvasFlow [sample_node ''a'', sample_node ''b''] [sample_connection ''a'' ''b''] = Some r \<and>
    js_get r ''a'' = Some p \<and> js_get r ''b'' = Some q \<and> px p + 460 \<le> px q"
proof -
  let ?nodes = "[sample_node ''a'', sample_node ''b'']" and ?connections = "[sample_connection ''a'' ''b'']"
  have edges: "set (flow_edges ?nodes ?connections) = {(''a'', ''b'')}"
    by (simp add: flow_edges_def sample_node_def sample_connection_def)
  have "acyclic {(''a'', ''b'')}" unfolding acyclic_insert by (simp add: acyclic_def)
  then have free: "\<not> below_cycle (set (flow_edges ?nodes ?connections)) ''a''"
    by (simp add: below_cycle_def edges acyclic_def)
  have "distinct (map cn_id ?nodes)" "sized ?nodes" by (simp_all add: sample_node_def sized_def)
  from flow_layout_follows_connections [OF this, of ?connections] obtain r where
      r: "layoutCanvasFlow ?nodes ?connections = Some r"
    and follows: "\<forall>u \<in> set ?nodes. \<forall>v \<in> set ?nodes. (cn_id u, cn_id v) \<in> set (flow_edges ?nodes ?connections) \<longrightarrow>
      \<not> below_cycle (set (flow_edges ?nodes ?connections)) (cn_id u) \<longrightarrow>
      (\<exists>p q. js_get r (cn_id u) = Some p \<and> js_get r (cn_id v) = Some q \<and> px p + cn_width u + 120 \<le> px q)"
    by blast
  have "\<exists>p q. js_get r ''a'' = Some p \<and> js_get r ''b'' = Some q \<and> px p + 460 \<le> px q"
    using follows [rule_format, of "sample_node ''a''" "sample_node ''b''"] free edges by (simp add: sample_node_def add.commute)
  then show ?thesis using r by blast
qed

text \<open>
  A comment of the code says that nodes on a cycle stay in the first layer. A node on a cycle that another node leads to
  leaves it.
\<close>

lemma cycle_leaves_first_layer:
  "\<exists>layers. flow_layers [sample_node ''a'', sample_node ''b'', sample_node ''c'']
      [sample_connection ''a'' ''b'', sample_connection ''b'' ''c'', sample_connection ''c'' ''b''] = Some layers \<and>
    number_at layers ''b'' = 1 \<and> number_at layers ''c'' = 0"
  by (simp add: flow_layers_def flow_maps_def sample_node_def sample_connection_def js_map_of_def js_set_of_def js_add_def
      count_connection_def flow_start_def number_at_def flow_loop.simps targets_of_def visit_target_def js_has_def)

text \<open>Nodes that are distributed keep equal gaps; the first stays at the left, the last ends at the right.\<close>

lemma distribute_gaps:
  assumes "distinct (map cn_id nodes)" "Suc k < length nodes"
  defines "s \<equiv> sort_key node_x nodes" and "r \<equiv> alignCanvasNodes nodes DistributeX"
  shows "\<exists>p q. js_get r (cn_id (s ! k)) = Some p \<and> js_get r (cn_id (s ! Suc k)) = Some q \<and>
    px q - (px p + cn_width (s ! k)) = (max_of (\<lambda>n. node_x n + cn_width n) nodes - min_of node_x nodes
      - sum_list (map cn_width nodes)) / of_nat (length nodes - 1)"
proof -
  have total: "foldl (\<lambda>sum n. sum + cn_width n) a xs = a + sum_list (map cn_width xs)" for a and xs :: "canvas_node list"
    by (induction xs arbitrary: a) (simp_all add: algebra_simps)
  have "sum_mset (image_mset cn_width (mset s)) = sum_mset (image_mset cn_width (mset nodes))" by (simp add: s_def)
  then have sums: "sum_list (map cn_width s) = sum_list (map cn_width nodes)"
    by (simp only: mset_map [symmetric] sum_mset_sum_list)
  have s: "distinct (map cn_id s)" "length s = length nodes"
    using assms(1) by (simp_all add: s_def distinct_sort_key_map)
  let ?gap = "(max_of (\<lambda>n. node_x n + cn_width n) nodes - min_of node_x nodes - sum_list (map cn_width nodes))
    / of_nat (length nodes - 1)"
  have r: "r = place (\<lambda>x n. \<lparr>px = x, py = node_y n\<rparr>) (\<lambda>n. cn_width n + ?gap) (min_of node_x nodes) s []"
  proof -
    have "max 1 (length s - 1) = length nodes - 1" using assms(2) s(2) by simp
    then show ?thesis using assms(2) sums by (simp add: r_def alignCanvasNodes_def Let_def total s_def)
  qed
  show ?thesis
    using assms(2) s by (simp add: r place_nth take_Suc_conv_app_nth)
qed

end
