(* ===== verification/CanvasHitIndex.thy ===== *)
theory CanvasHitIndex
  imports CanvasNodes
begin

text \<open>
  The index that finds the nodes near the pointer while a connection is drawn,
  \<^verbatim>\<open>web/src/lib/canvas/canvas-connection-hit-index.ts\<close>: the plane is cut into square buckets and every visible node is
  entered into each bucket it touches. A bucket is named by its column and row; the code writes them as the text
  \<^verbatim>\<open>column:row\<close>.
\<close>

subsection \<open>The index\<close>

record hit_index =
  hi_bucketSize :: rat
  hi_buckets :: "(int \<times> int, (canvas_node \<times> nat) list) js_map"
  hi_nodeById :: "(string, canvas_node) js_map"

definition hidden_in_index :: "(string, canvas_node) js_map \<Rightarrow> canvas_node \<Rightarrow> bool" where
  "hidden_in_index nodeById node \<longleftrightarrow>
     (let batchRoot = (if has_text (md_batchRootId (meta node)) then js_get nodeById (the (md_batchRootId (meta node))) else None);
          parent = (if has_text (cn_parentId node) then js_get nodeById (the (cn_parentId node)) else None);
          hiddenByBatch = (case batchRoot of None \<Rightarrow> False | Some batch \<Rightarrow> \<not> truthy (md_batchExpanded (meta batch)));
          hiddenByFrame = (case parent of None \<Rightarrow> False | Some p \<Rightarrow> isFrameNode p \<and> frame_collapsed p)
      in isFrameNode node \<or> hiddenByBatch \<or> hiddenByFrame)"

text \<open>The two loops over columns and rows.\<close>

definition cells :: "rat \<Rightarrow> rat \<Rightarrow> rat \<Rightarrow> rat \<Rightarrow> rat \<Rightarrow> (int \<times> int) list" where
  "cells bsize x0 x1 y0 y1 =
     concat (map (\<lambda>column. map (\<lambda>row. (column, row)) [\<lfloor>y0 / bsize\<rfloor>..\<lfloor>y1 / bsize\<rfloor>]) [\<lfloor>x0 / bsize\<rfloor>..\<lfloor>x1 / bsize\<rfloor>])"

definition node_cells :: "rat \<Rightarrow> canvas_node \<Rightarrow> (int \<times> int) list" where
  "node_cells bsize node =
     cells bsize (px (cn_position node)) (px (cn_position node) + cn_width node)
       (py (cn_position node)) (py (cn_position node) + cn_height node)"

definition bucket_at :: "(int \<times> int, (canvas_node \<times> nat) list) js_map \<Rightarrow> int \<times> int \<Rightarrow> (canvas_node \<times> nat) list" where
  "bucket_at buckets key = (case js_get buckets key of None \<Rightarrow> [] | Some entries \<Rightarrow> entries)"

definition enter_node ::
  "rat \<Rightarrow> (string, canvas_node) js_map \<Rightarrow> (int \<times> int, (canvas_node \<times> nat) list) js_map \<Rightarrow> canvas_node \<times> nat \<Rightarrow>
   (int \<times> int, (canvas_node \<times> nat) list) js_map" where
  "enter_node bsize nodeById buckets entry =
     (if hidden_in_index nodeById (fst entry) then buckets
      else foldl (\<lambda>m key. js_set m key (bucket_at m key @ [entry])) buckets (node_cells bsize (fst entry)))"

definition createCanvasConnectionHitIndex :: "canvas_node list \<Rightarrow> rat \<Rightarrow> hit_index" where
  "createCanvasConnectionHitIndex nodes bucketSize =
     (let bsize = max 64 bucketSize; nodeById = js_map_of (map (\<lambda>node. (cn_id node, node)) nodes)
      in \<lparr>hi_bucketSize = bsize, hi_buckets = foldl (enter_node bsize nodeById) [] (zip nodes [0..<length nodes]),
          hi_nodeById = nodeById\<rparr>)"

definition outside_query :: "position \<Rightarrow> rat \<Rightarrow> canvas_node \<Rightarrow> bool" where
  "outside_query point radius node \<longleftrightarrow>
     px point + radius < px (cn_position node) \<or> px point - radius > px (cn_position node) + cn_width node \<or>
     py point + radius < py (cn_position node) \<or> py point - radius > py (cn_position node) + cn_height node"

definition query_cells :: "rat \<Rightarrow> position \<Rightarrow> rat \<Rightarrow> (int \<times> int) list" where
  "query_cells bsize point radius = cells bsize (px point - radius) (px point + radius) (py point - radius) (py point + radius)"

definition queryCanvasConnectionHitIndex :: "hit_index \<Rightarrow> position \<Rightarrow> rat \<Rightarrow> canvas_node list" where
  "queryCanvasConnectionHitIndex index point radius =
     (let r = max 0 radius;
          candidates = concat (map (bucket_at (hi_buckets index)) (query_cells (hi_bucketSize index) point r));
          candidatesById = foldl (\<lambda>m c. if outside_query point r (fst c) then m else js_set m (cn_id (fst c)) c) [] candidates
      in map fst (sort_key (\<lambda>c. - int (snd c)) (js_values candidatesById)))"

subsection \<open>What is in a bucket\<close>

lemma set_cells: "set (cells bsize x0 x1 y0 y1) =
  {\<lfloor>x0 / bsize\<rfloor>..\<lfloor>x1 / bsize\<rfloor>} \<times> {\<lfloor>y0 / bsize\<rfloor>..\<lfloor>y1 / bsize\<rfloor>}"
  by (auto simp: cells_def)

lemma distinct_cells: "distinct (cells bsize x0 x1 y0 y1)"
proof -
  have "distinct (concat (map (\<lambda>a. map (Pair a) bs) as))" if "distinct as" "distinct bs" for as bs :: "int list"
    using that by (induction as) (auto simp: distinct_map inj_on_def)
  then show ?thesis by (simp add: cells_def)
qed

lemma bucket_at_set: "bucket_at (js_set m key es) k = (if k = key then es else bucket_at m k)"
  by (simp add: bucket_at_def js_get_set)

lemma enter_cells: "distinct ks \<Longrightarrow>
  bucket_at (foldl (\<lambda>m key. js_set m key (bucket_at m key @ [entry])) m ks) k
    = bucket_at m k @ (if k \<in> set ks then [entry] else [])"
  by (induction ks arbitrary: m) (auto simp: bucket_at_set)

lemma bucket_entries: "bucket_at (foldl (enter_node bsize byId) m es) k
  = bucket_at m k @ filter (\<lambda>e. \<not> hidden_in_index byId (fst e) \<and> k \<in> set (node_cells bsize (fst e))) es"
proof (induction es arbitrary: m)
  case (Cons e es)
  have "bucket_at (enter_node bsize byId m e) k = bucket_at m k @
      (if \<not> hidden_in_index byId (fst e) \<and> k \<in> set (node_cells bsize (fst e)) then [e] else [])"
    by (simp add: enter_node_def enter_cells node_cells_def distinct_cells)
  then show ?case using Cons by simp
qed simp

text \<open>A node the query touches shares a cell with it.\<close>

lemma common_floor:
  fixes a b c d bsize :: rat
  assumes "0 < bsize" "a \<le> b" "c \<le> d" "a \<le> d" "c \<le> b"
  shows "{\<lfloor>a / bsize\<rfloor>..\<lfloor>b / bsize\<rfloor>} \<inter> {\<lfloor>c / bsize\<rfloor>..\<lfloor>d / bsize\<rfloor>} \<noteq> {}"
proof -
  have "\<lfloor>u / bsize\<rfloor> \<le> \<lfloor>v / bsize\<rfloor>" if "u \<le> v" for u v
    using that assms(1) by (intro floor_mono divide_right_mono) auto
  then have "max \<lfloor>a / bsize\<rfloor> \<lfloor>c / bsize\<rfloor> \<in> {\<lfloor>a / bsize\<rfloor>..\<lfloor>b / bsize\<rfloor>} \<inter> {\<lfloor>c / bsize\<rfloor>..\<lfloor>d / bsize\<rfloor>}"
    using assms(2-) by auto
  then show ?thesis by blast
qed

lemma touched_cell:
  assumes "0 < bsize" "0 \<le> cn_width node" "0 \<le> cn_height node" "0 \<le> r" "\<not> outside_query point r node"
  shows "set (node_cells bsize node) \<inter> set (query_cells bsize point r) \<noteq> {}"
proof -
  let ?n = "cn_position node"
  have "{\<lfloor>px ?n / bsize\<rfloor>..\<lfloor>(px ?n + cn_width node) / bsize\<rfloor>} \<inter> {\<lfloor>(px point - r) / bsize\<rfloor>..\<lfloor>(px point + r) / bsize\<rfloor>} \<noteq> {}"
    using assms by (intro common_floor) (auto simp: outside_query_def)
  moreover have "{\<lfloor>py ?n / bsize\<rfloor>..\<lfloor>(py ?n + cn_height node) / bsize\<rfloor>} \<inter> {\<lfloor>(py point - r) / bsize\<rfloor>..\<lfloor>(py point + r) / bsize\<rfloor>} \<noteq> {}"
    using assms by (intro common_floor) (auto simp: outside_query_def)
  ultimately show ?thesis
    by (simp add: node_cells_def query_cells_def set_cells Times_Int_Times)
qed

lemma collected_values:
  assumes "inj_on (\<lambda>c. cn_id (fst c)) (set cs)" "set (js_values m) \<subseteq> set cs" "distinct (js_keys m)"
    and "\<forall>e \<in> set m. fst e = cn_id (fst (snd e))" "set cs' \<subseteq> set cs"
    and "m' = foldl (\<lambda>m c. if P (fst c) then m else js_set m (cn_id (fst c)) c) m cs'"
  shows "set (js_values m') = set (js_values m) \<union> {c \<in> set cs'. \<not> P (fst c)} \<and> distinct (js_keys m') \<and>
    (\<forall>e \<in> set m'. fst e = cn_id (fst (snd e)))"
  using assms(2-5) unfolding assms(6)
proof (induction cs' arbitrary: m)
  case (Cons c cs')
  show ?case
  proof (cases "P (fst c)")
    case True
    then have "{d \<in> set (c # cs'). \<not> P (fst d)} = {d \<in> set cs'. \<not> P (fst d)}" by auto
    then show ?thesis using Cons.IH [OF Cons.prems(1-3)] Cons.prems(4) True by simp
  next
    case False
    let ?m = "js_set m (cn_id (fst c)) c"
    have set: "set ?m = {e \<in> set m. fst e \<noteq> cn_id (fst c)} \<union> {(cn_id (fst c), c)}"
      using Cons.prems(2) by (rule set_js_set)
    have "snd e = c" if "e \<in> set m" "fst e = cn_id (fst c)" for e
    proof -
      have "snd e \<in> set cs" "c \<in> set cs" using that Cons.prems(1,4) by auto
      moreover have "cn_id (fst (snd e)) = cn_id (fst c)" using that Cons.prems(3) by simp
      ultimately show ?thesis using assms(1) by (auto dest: inj_onD)
    qed
    then have vals: "set (js_values ?m) = insert c (set (js_values m))"
      unfolding set_map set by force
    have sub: "set (js_values ?m) \<subseteq> set cs" "set cs' \<subseteq> set cs" using vals Cons.prems(1,4) by simp_all
    have own: "\<forall>e \<in> set ?m. fst e = cn_id (fst (snd e))" using Cons.prems(3) unfolding set by auto
    have all: "{d \<in> set (c # cs'). \<not> P (fst d)} = insert c {d \<in> set cs'. \<not> P (fst d)}" using False by auto
    have "foldl (\<lambda>m c. if P (fst c) then m else js_set m (cn_id (fst c)) c) m (c # cs')
      = foldl (\<lambda>m c. if P (fst c) then m else js_set m (cn_id (fst c)) c) ?m cs'" using False by simp
    moreover note Cons.IH [OF sub(1) js_distinct_set [OF Cons.prems(2)] own sub(2)]
    ultimately show ?thesis unfolding all vals by (simp only: Un_insert_left Un_insert_right) blast
  qed
qed simp

lemma keyed_vals_distinct: "\<forall>e \<in> set m. fst e = f (snd e) \<Longrightarrow> distinct (js_keys m) \<Longrightarrow> distinct (js_values m)"
  by (induction m) force+

lemma filter_zip_fst: "length xs = length ys \<Longrightarrow> map fst (filter (\<lambda>e. Q (fst e)) (zip xs ys)) = filter Q xs"
  by (induction xs ys rule: list_induct2) auto

text \<open>The candidates by identifier, the last entered first, are the hits from the last to the first.\<close>

lemma sorted_hits:
  fixes m :: "(string, canvas_node \<times> nat) js_map"
  assumes "set (js_values m) = set (rev (filter hit es))" "distinct (js_values m)"
    and "sorted (map snd es)" "distinct (map snd es)"
  shows "sort_key (\<lambda>c. - int (snd c)) (js_values m) = rev (filter hit es)"
proof (rule map_sorted_distinct_set_unique [where f = "\<lambda>c. - int (snd c)"])
  have inj: "inj_on (\<lambda>c. - int (snd c)) (set es)" using assms(4) by (auto simp: distinct_map inj_on_def)
  then show "inj_on (\<lambda>c. - int (snd c)) (set (sort_key (\<lambda>c. - int (snd c)) (js_values m)) \<union> set (rev (filter hit es)))"
    by (rule inj_on_subset) (use assms(1) in auto)
  show "sorted (map (\<lambda>c. - int (snd c)) (sort_key (\<lambda>c. - int (snd c)) (js_values m)))" by (rule sorted_sort_key)
  have "inj_on (\<lambda>c. - int (snd c)) (set (js_values m))"
    by (rule inj_on_subset [OF inj]) (use assms(1) in auto)
  then show "distinct (map (\<lambda>c. - int (snd c)) (sort_key (\<lambda>c. - int (snd c)) (js_values m)))"
    using assms(2) by (simp add: distinct_map)
  have "sorted (map snd (filter hit es))" "distinct (map snd (filter hit es))"
    using assms(3,4) by (simp_all add: sorted_filter distinct_map_filter)
  then show "sorted (map (\<lambda>c. - int (snd c)) (rev (filter hit es)))"
      and "distinct (map (\<lambda>c. - int (snd c)) (rev (filter hit es)))"
    by (auto simp: sorted_iff_nth_mono rev_nth distinct_map inj_on_def)
  show "set (sort_key (\<lambda>c. - int (snd c)) (js_values m)) = set (rev (filter hit es))" using assms(1) by simp
qed

definition hit_scan :: "canvas_node list \<Rightarrow> position \<Rightarrow> rat \<Rightarrow> canvas_node list" where
  "hit_scan nodes point radius =
     rev (filter (\<lambda>node. \<not> hidden_in_index (js_map_of (map (\<lambda>n. (cn_id n, n)) nodes)) node \<and>
       \<not> outside_query point (max 0 radius) node) nodes)"

lemma query_scan:
  assumes "distinct (map cn_id nodes)" and "\<forall>n \<in> set nodes. 0 \<le> cn_width n \<and> 0 \<le> cn_height n"
  shows "queryCanvasConnectionHitIndex (createCanvasConnectionHitIndex nodes bucketSize) point radius
    = hit_scan nodes point radius"
proof -
  let ?bsize = "max 64 bucketSize" and ?r = "max 0 radius" and ?byId = "js_map_of (map (\<lambda>n. (cn_id n, n)) nodes)"
  let ?es = "zip nodes [0..<length nodes]"
  define hit where "hit = (\<lambda>e :: canvas_node \<times> nat. \<not> hidden_in_index ?byId (fst e) \<and> \<not> outside_query point ?r (fst e))"
  let ?keys = "query_cells ?bsize point ?r"
  define cs where "cs = concat (map (\<lambda>k.
    filter (\<lambda>e. \<not> hidden_in_index ?byId (fst e) \<and> k \<in> set (node_cells ?bsize (fst e))) ?es) ?keys)"
  define m where "m = foldl (\<lambda>m c. if outside_query point ?r (fst c) then m else js_set m (cn_id (fst c)) c) [] cs"
  have nth: "e \<in> set ?es \<longleftrightarrow> snd e < length nodes \<and> fst e = nodes ! snd e" for e :: "canvas_node \<times> nat"
    by (cases e) (auto simp: in_set_zip)
  have inj: "inj_on (\<lambda>c. cn_id (fst c)) (set ?es)"
  proof (rule inj_onI)
    fix a b assume ab: "a \<in> set ?es" "b \<in> set ?es" "cn_id (fst a) = cn_id (fst b)"
    then have "map cn_id nodes ! snd a = map cn_id nodes ! snd b" by (simp add: nth)
    then have "snd a = snd b" using nth_eq_iff_index_eq [OF assms(1)] ab by (simp add: nth)
    then show "a = b" using ab by (simp add: nth prod_eq_iff)
  qed
  have "set cs \<subseteq> set ?es" by (auto simp: cs_def)
  then have m: "set (js_values m) = {c \<in> set cs. \<not> outside_query point ?r (fst c)}" "distinct (js_keys m)"
      "\<forall>e \<in> set m. fst e = cn_id (fst (snd e))"
    using collected_values [OF inj _ _ _ _ m_def] by simp_all
  have found: "\<exists>k \<in> set ?keys. k \<in> set (node_cells ?bsize (fst e))" if "e \<in> set ?es" "hit e" for e
    using touched_cell [of ?bsize "fst e" ?r point] that assms(2) by (fastforce simp: nth hit_def)
  have "{c \<in> set cs. \<not> outside_query point ?r (fst c)} = set (rev (filter hit ?es))"
    using found by (auto simp: cs_def hit_def)
  with m(1) have vals: "set (js_values m) = set (rev (filter hit ?es))" by simp
  have "sort_key (\<lambda>c. - int (snd c)) (js_values m) = rev (filter hit ?es)"
    by (rule sorted_hits [OF vals keyed_vals_distinct [OF m(3,2)]]) simp_all
  moreover have "map fst (rev (filter hit ?es)) = hit_scan nodes point radius"
    using filter_zip_fst [of nodes "[0..<length nodes]"
      "\<lambda>n. \<not> hidden_in_index ?byId n \<and> \<not> outside_query point ?r n"]
    by (simp add: hit_scan_def hit_def flip: rev_map)
  moreover have "concat (map (bucket_at (foldl (enter_node ?bsize ?byId) [] ?es)) ?keys) = cs"
    unfolding cs_def bucket_entries by (simp add: bucket_at_def)
  ultimately show ?thesis
    unfolding m_def by (simp add: queryCanvasConnectionHitIndex_def createCanvasConnectionHitIndex_def Let_def)
qed

text \<open>
  C18. The index of buckets answers every query as a scan of all nodes would: the visible nodes within the radius of
  the pointer, the topmost first. (Identifiers of nodes are different and sizes not negative.)
\<close>

theorem hit_index_is_a_scan:
  assumes "distinct (map cn_id nodes)" and "\<forall>n \<in> set nodes. 0 \<le> cn_width n \<and> 0 \<le> cn_height n"
  shows "queryCanvasConnectionHitIndex (createCanvasConnectionHitIndex nodes bucketSize) point radius
    = hit_scan nodes point radius"
  by (rule query_scan [OF assms])

definition sample_note :: "string \<Rightarrow> rat \<Rightarrow> canvas_node" where
  "sample_note ident x = \<lparr>cn_id = ident, cn_type = TextNode, cn_title = [], cn_position = \<lparr>px = x, py = 0\<rparr>,
     cn_width = 340, cn_height = 240, cn_parentId = None, cn_metadata = None\<rparr>"

theorem hit_index_is_a_scan_witness:
  "queryCanvasConnectionHitIndex
     (createCanvasConnectionHitIndex [sample_note ''a'' 0, sample_note ''b'' 1000, sample_note ''c'' 300] 320)
     \<lparr>px = 320, py = 20\<rparr> 40 = [sample_note ''c'' 300, sample_note ''a'' 0]"
proof -
  let ?nodes = "[sample_note ''a'' 0, sample_note ''b'' 1000, sample_note ''c'' 300]"
  have "distinct (map cn_id ?nodes)" "\<forall>n \<in> set ?nodes. 0 \<le> cn_width n \<and> 0 \<le> cn_height n"
    by (simp_all add: sample_note_def)
  from hit_index_is_a_scan [OF this] show ?thesis
    by (simp add: hit_scan_def hidden_in_index_def outside_query_def isFrameNode_def meta_def no_metadata_def has_text_def
        sample_note_def)
qed

end
