(* ===== verification/CanvasOperations.thy ===== *)
theory CanvasOperations
  imports CanvasLayout
begin

text \<open>
  The operations a user carries out on a canvas, \<^verbatim>\<open>web/src/pages/canvas/use-canvas-node-operations.ts\<close> and the
  connecting operations of \<^verbatim>\<open>use-canvas-connection-controller.ts\<close>, on the state of the hooks: nodes, connections,
  selection, the open dialog and the clipboard. New identifiers (\<^verbatim>\<open>Math.random\<close>, \<^verbatim>\<open>nanoid\<close>) are arguments. Messages,
  context menus and pointer events are left out.
\<close>

subsection \<open>State\<close>

record clipboard =
  cb_nodes :: "canvas_node list"
  cb_connections :: "canvas_connection list"

record canvas_state =
  cs_nodes :: "canvas_node list"
  cs_connections :: "canvas_connection list"
  cs_selected :: "string list"
  cs_selectedConnection :: "string option"
  cs_dialog :: "string option"
  cs_clipboard :: "clipboard option"

definition commitNodes :: "canvas_node list \<Rightarrow> canvas_state \<Rightarrow> canvas_state" where
  "commitNodes nextNodes s = s\<lparr>cs_nodes := nextNodes\<rparr>"

definition commitConnections :: "canvas_connection list \<Rightarrow> canvas_state \<Rightarrow> canvas_state" where
  "commitConnections nextConnections s = s\<lparr>cs_connections := nextConnections\<rparr>"

definition selectNodes :: "string list \<Rightarrow> canvas_state \<Rightarrow> canvas_state" where
  "selectNodes ids s = s\<lparr>cs_selected := ids, cs_selectedConnection := None\<rparr>"

subsection \<open>Creating and arranging\<close>

definition VIDEO_COMPOSITION_NODE_SIZE :: rat where
  "VIDEO_COMPOSITION_NODE_SIZE = 350"

definition createNode ::
  "shown_text \<Rightarrow> string \<Rightarrow> (nat \<Rightarrow> string) \<Rightarrow> node_metadata \<Rightarrow> node_type \<Rightarrow> position \<Rightarrow> node_metadata option \<Rightarrow>
   canvas_state \<Rightarrow> canvas_state" where
  "createNode shown ident row_ident configMetadata t pos metadata s =
     (let given = (case metadata of None \<Rightarrow> no_metadata | Some m \<Rightarrow> m);
          concat_video = (md_videoEditOperation given = Some ''concat'');
          created = createCanvasNode shown ident row_ident t pos
            (if t = ConfigNode then spread configMetadata given else given);
          node = (if concat_video then created\<lparr>cn_title := shown CompositionTitle,
              cn_width := VIDEO_COMPOSITION_NODE_SIZE, cn_height := VIDEO_COMPOSITION_NODE_SIZE\<rparr> else created);
          s1 = selectNodes [ident] (commitNodes (cs_nodes s @ [node]) s)
      in if t \<notin> {TextNode, ScriptNode, FrameNode} \<and> \<not> concat_video then s1\<lparr>cs_dialog := Some ident\<rparr> else s1)"

definition selected_movable :: "canvas_state \<Rightarrow> canvas_node list" where
  "selected_movable s =
     filter (\<lambda>node. cn_id node \<in> set (cs_selected s) \<and> \<not> truthy (md_locked (meta node)) \<and> \<not> isFrameNode node) (cs_nodes s)"

definition move_to :: "positions \<Rightarrow> canvas_node \<Rightarrow> canvas_node" where
  "move_to positions node =
     (case js_get positions (cn_id node) of None \<Rightarrow> node | Some p \<Rightarrow> node\<lparr>cn_position := p\<rparr>)"

datatype arrange_mode = Arrange layout_mode | ArrangeFlow

text \<open>\<open>None\<close> is a loop that does not end.\<close>

definition arrangeSelectedNodes :: "arrange_mode \<Rightarrow> canvas_state \<Rightarrow> canvas_state option" where
  "arrangeSelectedNodes mode s =
     (let selected = selected_movable s
      in if length selected < 2 then Some s
         else map_option (\<lambda>positions. commitNodes (map (move_to positions) (cs_nodes s)) s)
           (case mode of Arrange m \<Rightarrow> Some (layoutCanvasNodes selected m)
            | ArrangeFlow \<Rightarrow> layoutCanvasFlow selected (cs_connections s)))"

definition alignSelectedNodes :: "alignment_mode \<Rightarrow> canvas_state \<Rightarrow> canvas_state" where
  "alignSelectedNodes mode s =
     (let selected = selected_movable s
      in if length selected < 2 \<or> mode \<in> {DistributeX, DistributeY} \<and> length selected < 3 then s
         else commitNodes (map (move_to (alignCanvasNodes selected mode)) (cs_nodes s)) s)"

subsection \<open>Groups\<close>

text \<open>
  The storyboard group and the reference group lay their members out in a grid inside a new frame. They differ in
  their members, the gap, the number of columns, the frame and what they write to a member, \<open>mark\<close>, which gets the
  index of the member. The point given to \<open>createCanvasNode\<close> is that of the code; the position is then set anew.
\<close>

definition group_nodes ::
  "shown_text \<Rightarrow> string \<Rightarrow> rat \<Rightarrow> nat \<Rightarrow> node_metadata \<Rightarrow> string \<Rightarrow> (nat \<Rightarrow> node_metadata \<Rightarrow> node_metadata) \<Rightarrow>
   canvas_node list \<Rightarrow> canvas_state \<Rightarrow> canvas_state" where
  "group_nodes shown frameId gap limit frameMetadata title mark members s =
     (let padding = 24; columns = min limit (ceil_sqrt (length members));
          rows = (length members + columns - 1) div columns;
          cellWidth = max_of cn_width members; cellHeight = max_of cn_height members;
          left = min_of node_x members; top = min_of node_y members;
          frameWidth = padding * 2 + of_nat columns * cellWidth + of_nat (columns - 1) * gap;
          frameHeight = FRAME_HEADER_HEIGHT + padding * 2 + of_nat rows * cellHeight + of_nat (rows - 1) * gap;
          frame = (createCanvasNode shown frameId (\<lambda>_. []) FrameNode \<lparr>px = left + frameWidth / 2, py = top + frameHeight / 2\<rparr>
              (frameMetadata\<lparr>md_frame := Some \<lparr>fr_collapsed = False, fr_expandedWidth = frameWidth, fr_expandedHeight = frameHeight\<rparr>\<rparr>))
            \<lparr>cn_title := title, cn_position := \<lparr>px = left - padding, py = top - FRAME_HEADER_HEIGHT - padding\<rparr>,
             cn_width := frameWidth, cn_height := frameHeight\<rparr>;
          memberIndex = js_map_of (zip (map cn_id members) [0..<length members]);
          placed = (\<lambda>node. case js_get memberIndex (cn_id node) of
            None \<Rightarrow> node
          | Some index \<Rightarrow> node\<lparr>cn_parentId := Some frameId,
              cn_position := \<lparr>px = px (cn_position frame) + padding + of_nat (index mod columns) * (cellWidth + gap)
                  + (cellWidth - cn_width node) / 2,
                py = py (cn_position frame) + FRAME_HEADER_HEIGHT + padding + of_nat (index div columns) * (cellHeight + gap)
                  + (cellHeight - cn_height node) / 2\<rparr>,
              cn_metadata := Some (mark index (meta node))\<rparr>)
      in selectNodes [frameId] (commitNodes (map placed (cs_nodes s) @ [frame]) s))"

definition createStoryboardGroup :: "shown_text \<Rightarrow> string \<Rightarrow> canvas_state \<Rightarrow> canvas_state" where
  "createStoryboardGroup shown frameId s =
     (let images = reading_order (filter (\<lambda>node. cn_id node \<in> set (cs_selected s) \<and> \<not> truthy (md_locked (meta node)) \<and>
            cn_type node = ImageNode \<and> has_text (md_content (meta node))) (cs_nodes s))
      in if length images < 2 then s
         else group_nodes shown frameId 24 4
           (no_metadata\<lparr>md_workflowKind := Some ''storyboard'', md_workflowTitle := Some (shown StoryboardGroupWorkflow)\<rparr>)
           (shown (StoryboardGroupTitle (length images)))
           (\<lambda>index m. m\<lparr>md_workflowKind := or_text (md_workflowKind m) (Some ''shot''),
              md_shotIndex := or_number (md_shotIndex m) (Some (of_nat (index + 1)))\<rparr>) images s)"

definition createReferenceGroup :: "shown_text \<Rightarrow> string \<Rightarrow> canvas_state \<Rightarrow> canvas_state" where
  "createReferenceGroup shown frameId s =
     (let media = reading_order (filter (\<lambda>node. cn_id node \<in> set (cs_selected s) \<and> \<not> truthy (md_locked (meta node)) \<and>
            (cn_type node = ImageNode \<or> cn_type node = VideoNode) \<and> has_text (md_content (meta node))) (cs_nodes s))
      in if length media < 2 then s
         else group_nodes shown frameId 20 3
           (no_metadata\<lparr>md_workflowKind := Some ''reference_set'', md_workflowTitle := Some (shown ReferenceGroupWorkflow),
              md_referenceAssetNodeIds := Some (map cn_id media)\<rparr>)
           (shown (ReferenceGroupTitle (length media))) (\<lambda>index m. m\<lparr>md_referenceSetId := Some frameId\<rparr>) media s)"

definition toggleNodeLocked :: "string \<Rightarrow> canvas_state \<Rightarrow> canvas_state" where
  "toggleNodeLocked nodeId s =
     (case node_of (cs_nodes s) nodeId of
        None \<Rightarrow> s
      | Some target \<Rightarrow> let locked = (\<not> truthy (md_locked (meta target)))
          in commitNodes (map (\<lambda>node. if cn_id node = nodeId
               then node\<lparr>cn_metadata := Some ((meta node)\<lparr>md_locked := Some locked\<rparr>)\<rparr> else node) (cs_nodes s)) s)"

subsection \<open>Deleting\<close>

definition deleteNodes :: "string list \<Rightarrow> canvas_state \<Rightarrow> canvas_state" where
  "deleteNodes ids s =
     (if ids = [] then s
      else let (removedIds, nodes) = removeCanvasNodes (cs_nodes s) ids
      in selectNodes [] (commitConnections (filter (\<lambda>c. cx_fromNodeId c \<notin> set removedIds \<and> cx_toNodeId c \<notin> set removedIds)
           (cs_connections s)) (commitNodes nodes s)))"

definition deleteConnection :: "string \<Rightarrow> canvas_state \<Rightarrow> canvas_state" where
  "deleteConnection connectionId s =
     (let s1 = commitConnections (filter (\<lambda>c. cx_id c \<noteq> connectionId) (cs_connections s)) s
      in if cs_selectedConnection s1 = Some connectionId then s1\<lparr>cs_selectedConnection := None\<rparr> else s1)"

subsection \<open>Copies\<close>

text \<open>\<^verbatim>\<open>new Map(nodes.map((node, index) => [node.id, newId(index)]))\<close>\<close>

definition id_map :: "(nat \<Rightarrow> string) \<Rightarrow> canvas_node list \<Rightarrow> (string, string) js_map" where
  "id_map newId nodes = js_map_of (zip (map cn_id nodes) (map newId [0..<length nodes]))"

text \<open>The mark of a version at the end of a title: space, middle dot, space, letter.\<close>

definition version_mark :: string where
  "version_mark = [CHR '' '', char_of (183 :: nat), CHR '' '']"

definition strip_version :: "string \<Rightarrow> string" where
  "strip_version title =
     (let n = length title - 4; ending = drop n title
      in if length title \<ge> 4 \<and> take 3 ending = version_mark \<and> 65 \<le> (of_char (ending ! 3) :: nat) \<and>
           (of_char (ending ! 3) :: nat) \<le> 90 then take n title else title)"

definition version_metadata :: "string \<Rightarrow> string option \<Rightarrow> node_metadata \<Rightarrow> node_metadata" where
  "version_metadata versionRootId versionLabel m =
     m\<lparr>md_task := no_task, md_status := Some (if has_text (md_content m) then SuccessStatus else IdleStatus),
       md_versionOfNodeId := Some versionRootId, md_versionLabel := versionLabel, md_versionPrimary := Some False\<rparr>"

definition duplicateNode ::
  "shown_text \<Rightarrow> (nat \<Rightarrow> string) \<Rightarrow> (nat \<Rightarrow> string) \<Rightarrow> string \<Rightarrow> canvas_state \<Rightarrow> canvas_state" where
  "duplicateNode shown newId newConnectionId nodeId s =
     (case node_of (cs_nodes s) nodeId of
        None \<Rightarrow> s
      | Some source \<Rightarrow>
          let nodes = cs_nodes s; connections = cs_connections s;
              sources = (if isFrameNode source then source # getFrameChildren (cn_id source) nodes else [source]);
              idMap = id_map newId sources; renamed = (\<lambda>i. the (js_get idMap i));
              versionRootId = (if isFrameNode source then None else or_text (md_versionOfNodeId (meta source)) (Some (cn_id source)));
              versionLabel = (if has_text versionRootId then Some (nextCanvasVersionLabel (the versionRootId) nodes) else None);
              copiedNodes = map (\<lambda>node.
                node\<lparr>cn_id := renamed (cn_id node),
                  cn_title := (if cn_id node = cn_id source
                    then strip_version (cn_title node) @ version_mark @ the (or_text versionLabel (Some (shown CopyLabel)))
                    else cn_title node),
                  cn_position := \<lparr>px = node_x node + 36, py = node_y node + 36\<rparr>,
                  cn_parentId := (if has_text (cn_parentId node)
                    then or_text (js_get idMap (the (cn_parentId node))) (cn_parentId node) else None),
                  cn_metadata := Some (if cn_id node = cn_id source \<and> has_text versionRootId
                    then version_metadata (the versionRootId) versionLabel (meta node) else meta node)\<rparr>) sources;
              copiedIds = map cn_id sources;
              inner = filter (\<lambda>c. cx_fromNodeId c \<in> set copiedIds \<and> cx_toNodeId c \<in> set copiedIds) connections;
              incoming = (if isFrameNode source then []
                else filter (\<lambda>c. cx_toNodeId c = cn_id source \<and> cx_fromNodeId c \<notin> set copiedIds) connections);
              copies = map (\<lambda>c. c\<lparr>cx_fromNodeId := renamed (cx_fromNodeId c), cx_toNodeId := renamed (cx_toNodeId c)\<rparr>) inner @
                map (\<lambda>c. c\<lparr>cx_toNodeId := renamed (cn_id source)\<rparr>) incoming;
              copiedConnections = map2 (\<lambda>c i. c\<lparr>cx_id := newConnectionId i\<rparr>) copies [0..<length copies];
              ident = renamed (cn_id source);
              nextNodes = map (\<lambda>node. if cn_id node = cn_id source \<and> has_text versionRootId \<and> \<not> has_text (md_versionLabel (meta node))
                then node\<lparr>cn_title := cn_title node @ version_mark @ ''A'',
                  cn_metadata := Some ((meta node)\<lparr>md_versionOfNodeId := versionRootId, md_versionLabel := Some ''A'',
                    md_versionPrimary := Some True\<rparr>)\<rparr>
                else node) nodes @ copiedNodes;
              s1 = selectNodes [ident] (commitConnections (connections @ copiedConnections) (commitNodes nextNodes s))
          in if isFrameNode source then s1 else s1\<lparr>cs_dialog := Some ident\<rparr>)"

definition setPrimaryVersion :: "string \<Rightarrow> canvas_state \<Rightarrow> canvas_state" where
  "setPrimaryVersion nodeId s =
     (case node_of (cs_nodes s) nodeId of
        None \<Rightarrow> s
      | Some target \<Rightarrow>
          let version_root = (\<lambda>node. or_text (md_versionOfNodeId (meta node)) (Some (cn_id node)))
          in commitNodes (map (\<lambda>node. if version_root node = version_root target
               then node\<lparr>cn_metadata := Some ((meta node)\<lparr>md_versionPrimary := Some (cn_id node = nodeId)\<rparr>)\<rparr>
               else node) (cs_nodes s)) s)"

definition copyNodesToClipboard :: "string list \<Rightarrow> canvas_state \<Rightarrow> canvas_state" where
  "copyNodesToClipboard targetIds s =
     (if targetIds = [] then s
      else let copyIds = foldl (\<lambda>ids node. if cn_id node \<in> set targetIds \<and> isFrameNode node
                 then foldl js_add ids (getFrameChildIds (cn_id node) (cs_nodes s)) else ids) targetIds (cs_nodes s);
               copiedNodes = filter (\<lambda>node. cn_id node \<in> set copyIds) (cs_nodes s)
      in if copiedNodes = [] then s
         else s\<lparr>cs_clipboard := Some \<lparr>cb_nodes = copiedNodes,
           cb_connections = filter (\<lambda>c. cx_fromNodeId c \<in> set copyIds \<and> cx_toNodeId c \<in> set copyIds) (cs_connections s)\<rparr>\<rparr>)"

definition copySelectedNodes :: "canvas_state \<Rightarrow> canvas_state" where
  "copySelectedNodes s = copyNodesToClipboard (cs_selected s) s"

definition copy_title :: "string \<Rightarrow> string" where
  "copy_title title = (if drop (length title - 5) title = '' Copy'' then title else title @ '' Copy'')"

text \<open>The answer \<open>False\<close> is that nothing was pasted.\<close>

definition pasteCopiedNodes ::
  "(nat \<Rightarrow> string) \<Rightarrow> (nat \<Rightarrow> string) \<Rightarrow> position \<Rightarrow> canvas_state \<Rightarrow> bool \<times> canvas_state" where
  "pasteCopiedNodes newId newConnectionId center s =
     (case cs_clipboard s of
        None \<Rightarrow> (False, s)
      | Some board \<Rightarrow>
          if cb_nodes board = [] then (False, s)
          else let nodes = cb_nodes board;
               left = min_of node_x nodes; top = min_of node_y nodes;
               right = max_of (\<lambda>n. node_x n + cn_width n) nodes; bottom = max_of (\<lambda>n. node_y n + cn_height n) nodes;
               dx = px center - (left + right) / 2; dy = py center - (top + bottom) / 2;
               idMap = id_map newId nodes;
               nextNodes = map (\<lambda>node. node\<lparr>cn_id := the (js_get idMap (cn_id node)), cn_title := copy_title (cn_title node),
                   cn_position := \<lparr>px = node_x node + dx, py = node_y node + dy\<rparr>,
                   cn_parentId := (if has_text (cn_parentId node) then js_get idMap (the (cn_parentId node)) else None)\<rparr>) nodes;
               nextConnections = concat (map2 (\<lambda>c i.
                   case (js_get idMap (cx_fromNodeId c), js_get idMap (cx_toNodeId c)) of
                     (Some from, Some to) \<Rightarrow> if from = [] \<or> to = [] then []
                       else [c\<lparr>cx_id := newConnectionId i, cx_fromNodeId := from, cx_toNodeId := to\<rparr>]
                   | _ \<Rightarrow> []) (cb_connections board) [0..<length (cb_connections board)]);
               topLevel = filter (\<lambda>node. \<not> has_text (cn_parentId node)) nextNodes;
               s1 = selectNodes (map cn_id topLevel) (commitConnections (cs_connections s @ nextConnections)
                 (commitNodes (cs_nodes s @ nextNodes) s))
          in (True, s1\<lparr>cs_dialog := (case topLevel of [] \<Rightarrow> None | node # _ \<Rightarrow> if isFrameNode node then None else Some (cn_id node))\<rparr>))"

subsection \<open>Connecting\<close>

definition connectNodes ::
  "shown_text \<Rightarrow> (rat \<Rightarrow> string) \<Rightarrow> string \<Rightarrow> connection_handle \<Rightarrow> string \<Rightarrow> string option \<Rightarrow> canvas_state \<Rightarrow>
   bool \<times> canvas_state" where
  "connectNodes shown number_text newConnectionId current targetNodeId targetHandleId s =
     (if hd_nodeId current = targetNodeId then (False, s)
      else case validateCanvasConnection (hd_nodeId current) targetNodeId (cs_nodes s) (hd_type current) of
        Inl _ \<Rightarrow> (False, s)
      | Inr (fromNodeId, toNodeId) \<Rightarrow>
          let fromHandleId = (if fromNodeId = hd_nodeId current then hd_handleId current else targetHandleId);
              toHandleId = (if toNodeId = hd_nodeId current then hd_handleId current else targetHandleId);
              next = \<lparr>cx_id = newConnectionId, cx_fromNodeId = fromNodeId, cx_toNodeId = toNodeId,
                cx_fromHandleId = fromHandleId, cx_toHandleId = toHandleId\<rparr>
          in if list_ex (\<lambda>item. cx_fromNodeId item = fromNodeId \<and> cx_toNodeId item = toNodeId \<and>
               cx_fromHandleId item = fromHandleId \<and> cx_toHandleId item = toHandleId) (cs_connections s)
             then (True, s)
             else (True, commitConnections (cs_connections s @ [next])
               (commitNodes (attachNodeToStoryboardRow shown number_text (cs_nodes s) next) s)))"

definition connectExistingNodes ::
  "shown_text \<Rightarrow> (rat \<Rightarrow> string) \<Rightarrow> string \<Rightarrow> string \<Rightarrow> string \<Rightarrow> canvas_state \<Rightarrow> bool \<times> canvas_state" where
  "connectExistingNodes shown number_text newConnectionId sourceNodeId targetNodeId s =
     connectNodes shown number_text newConnectionId
       \<lparr>hd_nodeId = sourceNodeId, hd_type = SourceHandle, hd_handleId = None\<rparr> targetNodeId None s"

definition canConnectExistingNodes :: "string \<Rightarrow> string \<Rightarrow> canvas_state \<Rightarrow> bool" where
  "canConnectExistingNodes sourceNodeId targetNodeId s \<longleftrightarrow>
     (case validateDirectedCanvasConnection sourceNodeId targetNodeId (cs_nodes s) of Inl _ \<Rightarrow> False | Inr _ \<Rightarrow> True)"

text \<open>What a node that is created at the end of a connection starts with.\<close>

definition connected_metadata ::
  "shown_text \<Rightarrow> (rat \<Rightarrow> string) \<Rightarrow> node_metadata \<Rightarrow> node_type \<Rightarrow> storyboard_row option \<Rightarrow> canvas_node option \<Rightarrow> node_metadata" where
  "connected_metadata shown number_text configMetadata t row sourceNode =
     (let scriptPrompt = (case sourceNode of
            Some n \<Rightarrow> if t = ScriptNode \<and> cn_type n = TextNode
              then js_trim (text_or_blank (or_text (or_text (md_content (meta n)) (md_prompt (meta n))) (Some []))) else []
          | None \<Rightarrow> [])
      in if t = ConfigNode then configMetadata
         else if t = ScriptNode \<and> scriptPrompt \<noteq> []
           then no_metadata\<lparr>md_prompt := Some scriptPrompt, md_composerContent := Some scriptPrompt\<rparr>
         else case row of
           Some r \<Rightarrow> if t = VideoNode
             then let videoPrompt = js_trim (if sr_videoMotionPrompt r = [] then sr_plotDescription r else sr_videoMotionPrompt r)
               in no_metadata\<lparr>md_prompt := Some videoPrompt, md_composerContent := Some videoPrompt,
                 md_generationMode := Some ''video'', md_videoEditOperation := Some ''text_to_video'',
                 md_workflowKind := Some ''shot'', md_workflowTitle := Some (shown (ShotVideoWorkflow (sr_shotNumber r))),
                 md_shotIndex := Some (sr_shotNumber r), md_seconds := Some (number_text (sr_durationSeconds r)),
                 md_status := Some IdleStatus\<rparr>
             else no_metadata
         | None \<Rightarrow> no_metadata)"

text \<open>The answer \<open>False\<close> is that the new node cannot be connected.\<close>

definition createConnectedNode ::
  "shown_text \<Rightarrow> (rat \<Rightarrow> string) \<Rightarrow> string \<Rightarrow> string \<Rightarrow> (nat \<Rightarrow> string) \<Rightarrow> node_metadata \<Rightarrow> node_type \<Rightarrow>
   connection_handle \<Rightarrow> position \<Rightarrow> canvas_state \<Rightarrow> bool \<times> canvas_state" where
  "createConnectedNode shown number_text newNodeId newConnectionId row_ident configMetadata t handle pos s =
     (let row = (if t = VideoNode then storyboardRowFromHandle (cs_nodes s) (hd_nodeId handle) (hd_handleId handle) else None);
          sourceNode = (if hd_type handle = SourceHandle then node_of (cs_nodes s) (hd_nodeId handle) else None);
          created = createCanvasNode shown newNodeId row_ident t pos
            (connected_metadata shown number_text configMetadata t row sourceNode);
          newNode = (case row of None \<Rightarrow> created | Some r \<Rightarrow> created\<lparr>cn_title := shown (ShotVideoTitle (sr_shotNumber r))\<rparr>)
      in case normalizeConnection (hd_nodeId handle) newNodeId (cs_nodes s @ [newNode]) (hd_type handle) of
           None \<Rightarrow> (False, s)
         | Some (fromNodeId, toNodeId) \<Rightarrow>
             let connected = \<lparr>cx_id = newConnectionId, cx_fromNodeId = fromNodeId, cx_toNodeId = toNodeId,
                   cx_fromHandleId = (if fromNodeId = hd_nodeId handle then hd_handleId handle else None),
                   cx_toHandleId = (if toNodeId = hd_nodeId handle then hd_handleId handle else None)\<rparr>;
                 s1 = selectNodes [newNodeId] (commitConnections (cs_connections s @ [connected])
                   (commitNodes (attachNodeToStoryboardRow shown number_text (cs_nodes s @ [newNode]) connected) s))
             in (True, if t \<notin> {TextNode, ScriptNode, AudioNode} then s1\<lparr>cs_dialog := Some newNodeId\<rparr> else s1))"

subsection \<open>What holds of every canvas\<close>

text \<open>
  The identifiers are distinct, a connection joins two nodes that may be joined and no other connection has its ends,
  and only what a frame can contain has a parent, which is a frame.
\<close>

definition shape :: "canvas_node \<Rightarrow> string \<times> node_type" where
  "shape node = (cn_id node, cn_type node)"

definition cx_ends :: "canvas_connection \<Rightarrow> (string \<times> string) \<times> (string option \<times> string option)" where
  "cx_ends c = ((cx_fromNodeId c, cx_toNodeId c), (cx_fromHandleId c, cx_toHandleId c))"

definition joinable :: "node_type \<Rightarrow> node_type \<Rightarrow> bool" where
  "joinable a b \<longleftrightarrow> a \<noteq> FrameNode \<and> b \<noteq> FrameNode \<and> \<not> (a = ConfigNode \<and> b = ConfigNode) \<and>
     \<not> (a = VideoNode \<and> b \<in> {ImageNode, AudioNode})"

definition joins :: "(string \<times> node_type) set \<Rightarrow> canvas_connection \<Rightarrow> bool" where
  "joins S c \<longleftrightarrow> (\<exists>(i, a) \<in> S. \<exists>(j, b) \<in> S. cx_fromNodeId c = i \<and> cx_toNodeId c = j \<and> i \<noteq> j \<and> joinable a b)"

definition framed :: "(string \<times> node_type) set \<Rightarrow> canvas_node \<Rightarrow> bool" where
  "framed S node \<longleftrightarrow> (has_text (cn_parentId node) \<longrightarrow>
     canFrameContain node \<and> (\<forall>(i, t) \<in> S. i = the (cn_parentId node) \<longrightarrow> t = FrameNode))"

definition ids_of :: "canvas_node list \<Rightarrow> string list" where
  "ids_of nodes = map cn_id nodes"

definition graph_ok :: "canvas_node list \<Rightarrow> canvas_connection list \<Rightarrow> bool" where
  "graph_ok nodes connections \<longleftrightarrow>
     distinct (ids_of nodes) \<and> [] \<notin> set (ids_of nodes) \<and> distinct (map cx_id connections) \<and>
     distinct (map cx_ends connections) \<and> list_all (joins (shape ` set nodes)) connections \<and>
     list_all (framed (shape ` set nodes)) nodes"

definition parents_present :: "canvas_node list \<Rightarrow> bool" where
  "parents_present nodes \<longleftrightarrow>
     list_all (\<lambda>node. has_text (cn_parentId node) \<longrightarrow> the (cn_parentId node) \<in> set (ids_of nodes)) nodes"

text \<open>The clipboard may hold a node without its frame, but nothing else is loose in it.\<close>

definition canvas_ok :: "canvas_state \<Rightarrow> bool" where
  "canvas_ok s \<longleftrightarrow>
     graph_ok (cs_nodes s) (cs_connections s) \<and> parents_present (cs_nodes s) \<and>
     set (cs_selected s) \<subseteq> set (ids_of (cs_nodes s)) \<and>
     set_option (cs_selectedConnection s) \<subseteq> cx_id ` set (cs_connections s) \<and>
     (case cs_clipboard s of None \<Rightarrow> True | Some board \<Rightarrow> graph_ok (cb_nodes board) (cb_connections board))"

lemma canvas_okD:
  assumes "canvas_ok s"
  shows "graph_ok (cs_nodes s) (cs_connections s)" "parents_present (cs_nodes s)"
    "set (cs_selected s) \<subseteq> set (ids_of (cs_nodes s))"
    "set_option (cs_selectedConnection s) \<subseteq> cx_id ` set (cs_connections s)"
    "cs_clipboard s = Some board \<Longrightarrow> graph_ok (cb_nodes board) (cb_connections board)"
  using assms by (auto simp: canvas_ok_def)

lemma shape_ids: "fst ` shape ` set nodes = set (ids_of nodes)"
  by (force simp: shape_def ids_of_def)

lemma shape_unique:
  assumes "distinct (ids_of nodes)" "(i, a) \<in> shape ` set nodes" "(i, b) \<in> shape ` set nodes"
  shows "a = b"
  using assms by (auto simp: shape_def ids_of_def distinct_map inj_on_def)

lemma joins_iff: "joins S c \<longleftrightarrow> cx_fromNodeId c \<noteq> cx_toNodeId c \<and>
    (\<exists>a b. (cx_fromNodeId c, a) \<in> S \<and> (cx_toNodeId c, b) \<in> S \<and> joinable a b)"
  unfolding joins_def by blast

lemma joins_ids: "joins S c \<Longrightarrow> cx_fromNodeId c \<in> fst ` S \<and> cx_toNodeId c \<in> fst ` S"
  unfolding joins_iff by (metis fst_conv image_eqI)

lemma joins_mono: "joins S c \<Longrightarrow> S \<subseteq> S' \<Longrightarrow> joins S' c"
  unfolding joins_iff by blast

lemma framed_iff: "framed S node \<longleftrightarrow> (has_text (cn_parentId node) \<longrightarrow>
    canFrameContain node \<and> (\<forall>t. (the (cn_parentId node), t) \<in> S \<longrightarrow> t = FrameNode))"
  unfolding framed_def by blast

lemma framed_anti: "framed S' node \<Longrightarrow> S \<subseteq> S' \<Longrightarrow> framed S node"
  unfolding framed_iff by blast

lemma graph_ends:
  assumes "graph_ok nodes connections" "c \<in> set connections"
  shows "cx_fromNodeId c \<in> set (ids_of nodes)" "cx_toNodeId c \<in> set (ids_of nodes)" "joins (shape ` set nodes) c"
proof -
  show j: "joins (shape ` set nodes) c" using assms by (simp add: graph_ok_def list_all_iff)
  show "cx_fromNodeId c \<in> set (ids_of nodes)" "cx_toNodeId c \<in> set (ids_of nodes)"
    using joins_ids [OF j] by (simp_all add: shape_ids)
qed

lemma frame_of_child:
  assumes "graph_ok nodes connections" "node \<in> set nodes" "has_text (cn_parentId node)"
  shows "canFrameContain node" "frame \<in> set nodes \<Longrightarrow> cn_id frame = the (cn_parentId node) \<Longrightarrow> cn_type frame = FrameNode"
proof -
  have f: "framed (shape ` set nodes) node" using assms by (simp add: graph_ok_def list_all_iff)
  then show "canFrameContain node" using assms(3) by (simp add: framed_iff)
  assume "frame \<in> set nodes" "cn_id frame = the (cn_parentId node)"
  then have "(the (cn_parentId node), cn_type frame) \<in> shape ` set nodes" by (metis shape_def imageI)
  then show "cn_type frame = FrameNode" using f assms(3) by (simp add: framed_iff)
qed

lemma connectable_joins:
  assumes "connectable source target" "source \<in> set nodes" "target \<in> set nodes"
    and "cx_fromNodeId c = cn_id source" "cx_toNodeId c = cn_id target"
  shows "joins (shape ` set nodes) c"
proof -
  have "(cn_id source, cn_type source) \<in> shape ` set nodes" "(cn_id target, cn_type target) \<in> shape ` set nodes"
    using assms by (auto simp: shape_def)
  then show ?thesis using assms unfolding joins_iff connectable_def joinable_def by metis
qed

text \<open>A change of single nodes keeps the graph when it keeps their identifiers and types and where they belong.\<close>

lemma graph_ok_map:
  assumes "graph_ok nodes connections" and "\<And>node. node \<in> set nodes \<Longrightarrow> shape (g node) = shape node"
    and "\<And>node. node \<in> set nodes \<Longrightarrow> framed (shape ` set nodes) (g node)"
  shows "graph_ok (map g nodes) connections" "ids_of (map g nodes) = ids_of nodes"
    "shape ` set (map g nodes) = shape ` set nodes"
proof -
  show s: "shape ` set (map g nodes) = shape ` set nodes" using assms(2) by (simp add: image_image cong: image_cong)
  show i: "ids_of (map g nodes) = ids_of nodes" using assms(2) by (simp add: ids_of_def shape_def)
  show "graph_ok (map g nodes) connections" using assms(1,3) unfolding graph_ok_def s i by (simp add: list_all_iff)
qed

definition placed :: "(string \<times> node_type) set \<Rightarrow> canvas_node \<Rightarrow> canvas_node \<Rightarrow> bool" where
  "placed S changed node \<longleftrightarrow> shape changed = shape node \<and>
     (cn_parentId changed = cn_parentId node \<or> \<not> has_text (cn_parentId changed) \<or>
      canFrameContain node \<and> (the (cn_parentId changed), FrameNode) \<in> S)"

lemma placed_kept: "shape changed = shape node \<Longrightarrow> cn_parentId changed = cn_parentId node \<Longrightarrow> placed S changed node"
  by (simp add: placed_def)

lemma framed_placed:
  assumes "placed (shape ` set nodes) changed node" "framed (shape ` set nodes) node" "distinct (ids_of nodes)"
  shows "framed (shape ` set nodes) changed"
proof -
  have "canFrameContain changed = canFrameContain node"
    using assms(1) by (simp add: placed_def shape_def canFrameContain_def)
  then show ?thesis
    using assms(1,2) shape_unique [OF assms(3)] unfolding framed_iff placed_def by metis
qed

lemma canvas_ok_map:
  assumes "canvas_ok s" and p: "\<And>node. node \<in> set (cs_nodes s) \<Longrightarrow> placed (shape ` set (cs_nodes s)) (g node) node"
  shows "canvas_ok (commitNodes (map g (cs_nodes s)) s)"
proof -
  let ?N = "cs_nodes s"
  have ok: "graph_ok ?N (cs_connections s)" "parents_present ?N" using canvas_okD [OF assms(1)] by blast+
  have f: "framed (shape ` set ?N) (g node)" if "node \<in> set ?N" for node
    using framed_placed [OF p [OF that]] ok(1) that by (simp add: graph_ok_def list_all_iff)
  have m: "graph_ok (map g ?N) (cs_connections s)" "ids_of (map g ?N) = ids_of ?N"
    using graph_ok_map [OF ok(1), of g] p f by (simp_all add: placed_def)
  have "the (cn_parentId (g node)) \<in> set (ids_of ?N)" if "node \<in> set ?N" "has_text (cn_parentId (g node))" for node
    using p [OF that(1)] that ok(2) shape_ids [of ?N] unfolding placed_def parents_present_def list_all_iff
    by (metis fst_conv image_eqI)
  then have "parents_present (map g ?N)"
    unfolding parents_present_def m(2) by (simp add: list_all_iff)
  then show ?thesis
    using assms(1) m unfolding canvas_ok_def commitNodes_def by simp
qed

text \<open>What is added to a canvas: nodes with new identifiers, and connections that lead to them or are new.\<close>

lemma graph_ok_append:
  assumes N: "graph_ok N C" "parents_present N"
    and ids: "distinct (ids_of M)" "set (ids_of M) \<inter> set (ids_of N) = {}" "[] \<notin> set (ids_of M)"
    and con: "distinct (map cx_id D)" "cx_id ` set D \<inter> cx_id ` set C = {}" "distinct (map cx_ends D)"
      "cx_ends ` set D \<inter> cx_ends ` set C = {}" "list_all (joins (shape ` set (N @ M))) D"
    and M: "list_all (framed (shape ` set (N @ M))) M"
  shows "graph_ok (N @ M) (C @ D)"
proof -
  have "joins (shape ` set (N @ M)) c" if "c \<in> set C" for c
    using N(1) that by (auto simp: graph_ok_def list_all_iff intro: joins_mono [of "shape ` set N"])
  moreover have "framed (shape ` set (N @ M)) node" if "node \<in> set N" for node
  proof -
    have "framed (shape ` set N) node" "has_text (cn_parentId node) \<Longrightarrow> the (cn_parentId node) \<in> set (ids_of N)"
      using N that by (auto simp: graph_ok_def parents_present_def list_all_iff)
    then show ?thesis using ids(2) shape_ids [of M] by (fastforce simp: framed_def)
  qed
  ultimately show ?thesis
    using N(1) ids con M by (auto simp: graph_ok_def list_all_iff ids_of_def)
qed

lemma canvas_ok_append:
  assumes "canvas_ok s"
    and "graph_ok (cs_nodes s @ M) (cs_connections s @ D)" "parents_present (cs_nodes s @ M)"
    and "set selection \<subseteq> set (ids_of (cs_nodes s @ M))"
  shows "canvas_ok (selectNodes selection (commitConnections (cs_connections s @ D) (commitNodes (cs_nodes s @ M) s)))"
  using assms by (simp add: canvas_ok_def selectNodes_def commitConnections_def commitNodes_def split: option.splits)

lemma parents_present_append:
  "parents_present N \<Longrightarrow> list_all (\<lambda>node. has_text (cn_parentId node) \<longrightarrow> the (cn_parentId node) \<in> set (ids_of (N @ M))) M
    \<Longrightarrow> parents_present (N @ M)"
  by (auto simp: parents_present_def list_all_iff ids_of_def)

text \<open>What is left of a graph: the nodes that are kept and the connections between them.\<close>

lemma graph_ok_filter:
  assumes "graph_ok N C" and "\<And>c. c \<in> set (filter Q C) \<Longrightarrow> cx_fromNodeId c \<in> K \<and> cx_toNodeId c \<in> K"
  shows "graph_ok (filter (\<lambda>node. cn_id node \<in> K) N) (filter Q C)"
proof -
  let ?F = "filter (\<lambda>node. cn_id node \<in> K) N"
  have s: "shape ` set ?F = {(i, t) \<in> shape ` set N. i \<in> K}" by (auto simp: shape_def)
  have "joins (shape ` set ?F) c" if "c \<in> set (filter Q C)" for c
    using assms that unfolding s by (auto simp: graph_ok_def list_all_iff joins_iff)
  moreover have "framed (shape ` set ?F) node" if "node \<in> set N" for node
    using assms(1) that by (auto simp: graph_ok_def list_all_iff intro: framed_anti)
  ultimately show ?thesis
    using assms(1) by (auto simp: graph_ok_def list_all_iff ids_of_def intro: distinct_map_filter)
qed

subsection \<open>Every operation keeps it\<close>

lemma canvas_ok_dialog [simp]: "canvas_ok (s\<lparr>cs_dialog := d\<rparr>) = canvas_ok s"
  by (simp add: canvas_ok_def)

lemma commit_simps [simp]:
  "cs_nodes (commitNodes N s) = N" "cs_nodes (selectNodes ids s) = cs_nodes s"
  "cs_nodes (commitConnections C s) = cs_nodes s" "cs_connections (commitConnections C s) = C"
  "cs_connections (commitNodes N s) = cs_connections s" "cs_connections (selectNodes ids s) = cs_connections s"
  "commitNodes N (commitNodes N' s) = commitNodes N s"
  "commitNodes N (selectNodes ids s) = selectNodes ids (commitNodes N s)"
  "commitConnections (cs_connections s) s = s"
  by (simp_all add: commitNodes_def selectNodes_def commitConnections_def)

lemma createCanvasNode_simps [simp]:
  "cn_id (createCanvasNode shown ident row_ident t pos m) = ident"
  "cn_type (createCanvasNode shown ident row_ident t pos m) = t"
  "cn_parentId (createCanvasNode shown ident row_ident t pos m) = None"
  by (simp_all add: createCanvasNode_def Let_def split: prod.splits)

lemma graph_ok_new:
  assumes "canvas_ok s" "cn_id node \<notin> set (ids_of (cs_nodes s))" "cn_id node \<noteq> []" "cn_parentId node = None"
  shows "graph_ok (cs_nodes s @ [node]) (cs_connections s)" "parents_present (cs_nodes s @ [node])"
proof -
  have f: "\<not> has_text (cn_parentId node)" using assms(4) by (simp add: has_text_def)
  have "graph_ok (cs_nodes s @ [node]) (cs_connections s @ [])"
    by (rule graph_ok_append [OF canvas_okD(1,2) [OF assms(1)]]) (use assms f in \<open>simp_all add: ids_of_def framed_iff\<close>)
  then show "graph_ok (cs_nodes s @ [node]) (cs_connections s)" by simp
  show "parents_present (cs_nodes s @ [node])"
    using canvas_okD(2) [OF assms(1)] f by (intro parents_present_append) simp_all
qed

lemma canvas_ok_new:
  assumes "canvas_ok s" "cn_id node = ident" "ident \<notin> set (ids_of (cs_nodes s))" "ident \<noteq> []" "cn_parentId node = None"
  shows "canvas_ok (selectNodes [ident] (commitNodes (cs_nodes s @ [node]) s))"
proof -
  have "canvas_ok (selectNodes [ident] (commitConnections (cs_connections s @ []) (commitNodes (cs_nodes s @ [node]) s)))"
    by (rule canvas_ok_append [OF assms(1)]) (use graph_ok_new [OF assms(1)] assms in \<open>simp_all add: ids_of_def\<close>)
  then show ?thesis by (simp add: commitConnections_def commitNodes_def)
qed

lemma createNode_ok:
  assumes "canvas_ok s" "ident \<notin> set (ids_of (cs_nodes s))" "ident \<noteq> []"
  shows "canvas_ok (createNode shown ident row_ident configMetadata t pos metadata s)"
  using assms by (simp add: createNode_def Let_def canvas_ok_new [OF assms(1)])

lemma move_to_kept [simp]: "shape (move_to positions node) = shape node" "cn_parentId (move_to positions node) = cn_parentId node"
  by (simp_all add: move_to_def shape_def split: option.splits)

lemma arrangeSelectedNodes_ok: "canvas_ok s \<Longrightarrow> arrangeSelectedNodes mode s = Some s' \<Longrightarrow> canvas_ok s'"
  by (auto simp: arrangeSelectedNodes_def Let_def split: if_splits intro!: canvas_ok_map placed_kept)

lemma alignSelectedNodes_ok: "canvas_ok s \<Longrightarrow> canvas_ok (alignSelectedNodes mode s)"
  by (auto simp: alignSelectedNodes_def Let_def intro!: canvas_ok_map placed_kept)

lemma toggleNodeLocked_ok: "canvas_ok s \<Longrightarrow> canvas_ok (toggleNodeLocked nodeId s)"
  by (auto simp: toggleNodeLocked_def Let_def shape_def split: option.splits intro!: canvas_ok_map placed_kept)

lemma setPrimaryVersion_ok: "canvas_ok s \<Longrightarrow> canvas_ok (setPrimaryVersion nodeId s)"
  by (auto simp: setPrimaryVersion_def Let_def shape_def split: option.splits intro!: canvas_ok_map placed_kept)

lemma js_map_of_in: "js_get (js_map_of es) k = Some v \<Longrightarrow> (k, v) \<in> set es"
proof (induction es rule: rev_induct)
  case (snoc e es)
  then show ?case by (cases e) (auto simp: js_map_of_def js_get_set split: if_splits)
qed (simp add: js_map_of_def)

lemma group_nodes_ok:
  assumes ok: "canvas_ok s" and "frameId \<notin> set (ids_of (cs_nodes s))" "frameId \<noteq> []"
    and members: "set members \<subseteq> {node \<in> set (cs_nodes s). canFrameContain node}"
  shows "canvas_ok (group_nodes shown frameId gap limit frameMetadata title mark members s)"
proof -
  define memberIndex where "memberIndex = js_map_of (zip (map cn_id members) [0..<length members])"
  have known: "cn_id node \<in> cn_id ` set members" if "js_get memberIndex (cn_id node) = Some index" for node index
    using js_map_of_in [OF that [unfolded memberIndex_def]] by (auto dest: set_zip_leftD)
  have inside: "canFrameContain node" if "js_get memberIndex (cn_id node) = Some index" "node \<in> set (cs_nodes s)" for node index
    using known [OF that(1)] that(2) members canvas_okD(1) [OF ok]
    by (auto simp: graph_ok_def ids_of_def distinct_map inj_on_def)
  have new: "js_get memberIndex frameId = None"
    using known [of "undefined\<lparr>cn_id := frameId\<rparr>"] assms(2) members by (cases "js_get memberIndex frameId") (auto simp: ids_of_def)
  have result: "canvas_ok (commitNodes (map g (cs_nodes s) @ [frame]) (selectNodes [frameId] s))"
    if "cn_id frame = frameId" "cn_type frame = FrameNode" "cn_parentId frame = None"
      and g: "\<And>node. g node = (case js_get memberIndex (cn_id node) of None \<Rightarrow> node | Some index \<Rightarrow>
        node\<lparr>cn_parentId := Some frameId, cn_position := p index node, cn_metadata := m index node\<rparr>)" for frame g p m
  proof -
    let ?s = "selectNodes [frameId] (commitNodes (cs_nodes s @ [frame]) s)"
    have s: "canvas_ok ?s" by (intro canvas_ok_new ok assms that)
    have "(frameId, FrameNode) \<in> shape ` set (cs_nodes ?s)" using that by (auto simp: shape_def)
    then have "canvas_ok (commitNodes (map g (cs_nodes ?s)) ?s)"
      by (intro canvas_ok_map [OF s]) (use inside new that in \<open>auto simp: placed_def shape_def split: option.splits\<close>)
    moreover have "g frame = frame" using g new that by simp
    ultimately show ?thesis by simp
  qed
  show ?thesis
    unfolding group_nodes_def Let_def memberIndex_def [symmetric]
    using result by simp
qed

lemma createStoryboardGroup_ok:
  assumes "canvas_ok s" "frameId \<notin> set (ids_of (cs_nodes s))" "frameId \<noteq> []"
  shows "canvas_ok (createStoryboardGroup shown frameId s)"
proof -
  have "set (reading_order nodes) = set nodes" for nodes by (simp add: reading_order_def)
  then show ?thesis
    unfolding createStoryboardGroup_def Let_def if_bool_eq_conj
    using assms by (auto intro!: group_nodes_ok simp: canFrameContain_def)
qed

lemma createReferenceGroup_ok:
  assumes "canvas_ok s" "frameId \<notin> set (ids_of (cs_nodes s))" "frameId \<noteq> []"
  shows "canvas_ok (createReferenceGroup shown frameId s)"
proof -
  have "set (reading_order nodes) = set nodes" for nodes by (simp add: reading_order_def)
  then show ?thesis
    unfolding createReferenceGroup_def Let_def if_bool_eq_conj
    using assms by (auto intro!: group_nodes_ok simp: canFrameContain_def)
qed

lemma clean_parent: "cn_parentId (clean_batch removed others (clean_references removed node)) =
  (if has_text (cn_parentId node) \<and> the (cn_parentId node) \<in> set removed then None else cn_parentId node)"
  by (auto simp: clean_batch_keeps clean_references_def Let_def split: option.splits)

lemma deleteNodes_ok:
  assumes "canvas_ok s"
  shows "canvas_ok (deleteNodes ids s)"
proof (cases "ids = []")
  case False
  define removed where "removed = removed_ids (cs_nodes s) ids"
  define rest where "rest = filter (\<lambda>node. cn_id node \<in> - set removed) (cs_nodes s)"
  define g where "g = (\<lambda>node. clean_batch removed rest (clean_references removed node))"
  define C where "C = filter (\<lambda>c. cx_fromNodeId c \<notin> set removed \<and> cx_toNodeId c \<notin> set removed) (cs_connections s)"
  have del: "deleteNodes ids s = selectNodes [] (commitConnections C (commitNodes (map g rest) s))"
    using False by (simp add: deleteNodes_def removeCanvasNodes_def Let_def removed_def rest_def g_def C_def)
  have ok: "graph_ok rest C"
    unfolding rest_def C_def by (rule graph_ok_filter [OF canvas_okD(1) [OF assms]]) auto
  have p: "placed (shape ` set rest) (g node) node" for node
    by (simp add: placed_def shape_def g_def clean_batch_keeps(1,2) clean_references_keeps clean_parent has_text_def)
  have m: "graph_ok (map g rest) C" "ids_of (map g rest) = ids_of rest"
    using graph_ok_map [OF ok, of g] p framed_placed [OF p] ok
    by (simp_all add: placed_def graph_ok_def list_all_iff)
  have "the (cn_parentId (g node)) \<in> set (ids_of rest)" if "node \<in> set rest" "has_text (cn_parentId (g node))" for node
    using that canvas_okD(2) [OF assms]
    by (auto simp: g_def clean_parent rest_def parents_present_def list_all_iff ids_of_def has_text_def split: if_splits)
  then have "parents_present (map g rest)" unfolding parents_present_def m(2) by (simp add: list_all_iff)
  with m show ?thesis
    using canvas_okD(5) [OF assms] unfolding del
    by (simp add: canvas_ok_def selectNodes_def commitConnections_def commitNodes_def split: option.splits)
qed (simp add: deleteNodes_def assms)

lemma graph_ok_fewer: "graph_ok N C \<Longrightarrow> graph_ok N (filter Q C)"
  by (auto simp: graph_ok_def list_all_iff intro: distinct_map_filter)

lemma deleteConnection_ok:
  assumes "canvas_ok s"
  shows "canvas_ok (deleteConnection connectionId s)"
  using assms graph_ok_fewer canvas_okD(4) [OF assms]
  by (auto simp: canvas_ok_def deleteConnection_def commitConnections_def Let_def split: option.splits)

lemma copyNodesToClipboard_ok:
  assumes "canvas_ok s"
  shows "canvas_ok (copyNodesToClipboard targetIds s)"
proof -
  have "graph_ok (filter (\<lambda>node. cn_id node \<in> K) (cs_nodes s))
      (filter (\<lambda>c. cx_fromNodeId c \<in> K \<and> cx_toNodeId c \<in> K) (cs_connections s))" for K
    by (rule graph_ok_filter [OF canvas_okD(1) [OF assms]]) auto
  then show ?thesis
    using assms by (simp add: copyNodesToClipboard_def Let_def canvas_ok_def)
qed

lemma attach_kept:
  "map shape (attachNodeToStoryboardRow shown number_text nodes c) = map shape nodes"
  "map cn_parentId (attachNodeToStoryboardRow shown number_text nodes c) = map cn_parentId nodes"
proof -
  have v: "shape (shot_video shown number_text row node) = shape node"
    "cn_parentId (shot_video shown number_text row node) = cn_parentId node" for row node
    by (simp_all add: shot_video_def Let_def shape_def)
  have m: "shape (node\<lparr>cn_metadata := m\<rparr>) = shape node" for node m by (simp add: shape_def)
  show "map shape (attachNodeToStoryboardRow shown number_text nodes c) = map shape nodes"
    unfolding attachNodeToStoryboardRow_def Let_def
    by (simp only: map_map comp_def v m if_distrib [of "map shape"] if_distrib [of shape] if_cancel prod.case split: option.split) simp
  show "map cn_parentId (attachNodeToStoryboardRow shown number_text nodes c) = map cn_parentId nodes"
    unfolding attachNodeToStoryboardRow_def Let_def
    by (simp only: map_map comp_def v canvas_node.simps if_distrib [of "map cn_parentId"] if_distrib [of cn_parentId] if_cancel
        prod.case split: option.split) simp
qed

lemma graph_ok_same:
  assumes "map shape N' = map shape N" "map cn_parentId N' = map cn_parentId N"
  shows "graph_ok N' C = graph_ok N C" "parents_present N' = parents_present N"
    "ids_of N' = ids_of N" "shape ` set N' = shape ` set N"
proof -
  have l: "length N' = length N" using arg_cong [OF assms(1), of length] by simp
  have at: "shape (N' ! i) = shape (N ! i)" "cn_parentId (N' ! i) = cn_parentId (N ! i)" if "i < length N" for i
    using assms that l by (metis nth_map)+
  show s: "shape ` set N' = shape ` set N" using assms(1) by (metis set_map)
  have "map (fst \<circ> shape) N' = map (fst \<circ> shape) N" using assms(1) by (metis map_map)
  then show i: "ids_of N' = ids_of N" by (simp add: ids_of_def shape_def comp_def)
  have "framed S (N' ! i) = framed S (N ! i)" if "i < length N" for S i
    using at [OF that] by (simp add: framed_iff canFrameContain_def shape_def)
  then have "list_all (framed S) N' = list_all (framed S) N" for S by (simp add: list_all_length l)
  then show "graph_ok N' C = graph_ok N C" unfolding graph_ok_def s i by simp
  show "parents_present N' = parents_present N"
    unfolding parents_present_def i by (simp add: list_all_length l at(2))
qed

text \<open>A connection between nodes of the canvas that is not there yet, linked to the storyboard.\<close>

lemma graph_ok_connect:
  assumes "graph_ok N C" "parents_present N" "joins (shape ` set N) c" "cx_id c \<notin> cx_id ` set C" "cx_ends c \<notin> cx_ends ` set C"
  shows "graph_ok N (C @ [c])"
  using graph_ok_append [OF assms(1,2), of "[]" "[c]"] assms(3-) by (simp add: ids_of_def)

lemma connectNodes_ok:
  assumes ok: "canvas_ok s" and new: "newConnectionId \<notin> cx_id ` set (cs_connections s)"
  shows "canvas_ok (snd (connectNodes shown number_text newConnectionId current targetNodeId targetHandleId s))"
proof (cases "hd_nodeId current = targetNodeId \<or>
    (\<exists>e. validateCanvasConnection (hd_nodeId current) targetNodeId (cs_nodes s) (hd_type current) = Inl e)")
  case True
  then show ?thesis using ok by (auto simp: connectNodes_def split: sum.splits)
next
  case False
  then obtain fromId toId where v: "validateCanvasConnection (hd_nodeId current) targetNodeId (cs_nodes s) (hd_type current)
      = Inr (fromId, toId)" and ne: "hd_nodeId current \<noteq> targetNodeId"
    by (metis sum.exhaust surj_pair)
  define c where "c = \<lparr>cx_id = newConnectionId, cx_fromNodeId = fromId, cx_toNodeId = toId,
    cx_fromHandleId = (if fromId = hd_nodeId current then hd_handleId current else targetHandleId),
    cx_toHandleId = (if toId = hd_nodeId current then hd_handleId current else targetHandleId)\<rparr>"
  have con: "connectNodes shown number_text newConnectionId current targetNodeId targetHandleId s =
      (True, if cx_ends c \<in> cx_ends ` set (cs_connections s) then s
        else commitConnections (cs_connections s @ [c])
          (commitNodes (attachNodeToStoryboardRow shown number_text (cs_nodes s) c) s))"
    using ne by (simp add: connectNodes_def v c_def [symmetric] Let_def list_ex_iff cx_ends_def image_iff) (auto simp: c_def)
  obtain source target where "source \<in> set (cs_nodes s)" "target \<in> set (cs_nodes s)" "connectable source target"
      "(fromId, toId) = (cn_id source, cn_id target)"
    using validateCanvasConnection_returns [OF v] by blast
  then have "joins (shape ` set (cs_nodes s)) c" by (intro connectable_joins) (simp_all add: c_def)
  moreover have "cx_id c = newConnectionId" by (simp add: c_def)
  ultimately have "graph_ok (cs_nodes s) (cs_connections s @ [c])" if "cx_ends c \<notin> cx_ends ` set (cs_connections s)"
    using that new canvas_okD(1,2) [OF ok] by (intro graph_ok_connect) simp_all
  then show ?thesis
    using canvas_okD [OF ok] ok graph_ok_same [OF attach_kept]
    by (simp add: con canvas_ok_def commitConnections_def commitNodes_def) blast
qed

lemma createConnectedNode_ok:
  assumes ok: "canvas_ok s" and id: "newNodeId \<notin> set (ids_of (cs_nodes s))" "newNodeId \<noteq> []"
    and new: "newConnectionId \<notin> cx_id ` set (cs_connections s)"
  shows "canvas_ok (snd (createConnectedNode shown number_text newNodeId newConnectionId row_ident configMetadata t handle pos s))"
proof -
  let ?attach = "attachNodeToStoryboardRow shown number_text"
  have "canvas_ok (selectNodes [newNodeId] (commitConnections (cs_connections s @ [c])
      (commitNodes (?attach (cs_nodes s @ [node]) c) s)))"
    if n: "cn_id node = newNodeId" "cn_parentId node = None"
      and v: "validateCanvasConnection (hd_nodeId handle) newNodeId (cs_nodes s @ [node]) (hd_type handle)
        = Inr (cx_fromNodeId c, cx_toNodeId c)" and c: "cx_id c = newConnectionId" for node c
  proof -
    let ?N = "cs_nodes s @ [node]"
    obtain source target where e: "source \<in> set ?N" "target \<in> set ?N" "connectable source target"
        "{cn_id source, cn_id target} = {hd_nodeId handle, newNodeId}"
        "(cx_fromNodeId c, cx_toNodeId c) = (cn_id source, cn_id target)"
      using validateCanvasConnection_returns [OF v] by blast
    have j: "joins (shape ` set ?N) c" using e by (intro connectable_joins) simp_all
    have touches: "newNodeId \<in> {cx_fromNodeId c, cx_toNodeId c}" using e by auto
    have "cx_fromNodeId d \<noteq> newNodeId \<and> cx_toNodeId d \<noteq> newNodeId" if "d \<in> set (cs_connections s)" for d
      using canvas_okD(1) [OF ok] that id(1) joins_ids [of "shape ` set (cs_nodes s)" d]
      by (auto simp: graph_ok_def list_all_iff shape_ids)
    then have "cx_ends c \<notin> cx_ends ` set (cs_connections s)" using touches by (auto simp: cx_ends_def) blast+
    then have g: "graph_ok ?N (cs_connections s @ [c])"
      using graph_ok_new [OF ok, of node] id n new c j by (intro graph_ok_connect) simp_all
    have "canvas_ok (selectNodes [newNodeId] (commitConnections (cs_connections s @ [c]) (commitNodes ?N s)))"
      using g graph_ok_new [OF ok, of node] id n by (intro canvas_ok_append [OF ok]) (simp_all add: ids_of_def)
    then show ?thesis
      using graph_ok_same [OF attach_kept, of shown number_text ?N c]
      by (simp add: canvas_ok_def selectNodes_def commitConnections_def commitNodes_def)
  qed
  note added = this
  define row where "row = (if t = VideoNode then storyboardRowFromHandle (cs_nodes s) (hd_nodeId handle) (hd_handleId handle) else None)"
  define sourceNode where "sourceNode = (if hd_type handle = SourceHandle then node_of (cs_nodes s) (hd_nodeId handle) else None)"
  define created where "created = createCanvasNode shown newNodeId row_ident t pos
    (connected_metadata shown number_text configMetadata t row sourceNode)"
  define node where "node = (case row of None \<Rightarrow> created | Some r \<Rightarrow> created\<lparr>cn_title := shown (ShotVideoTitle (sr_shotNumber r))\<rparr>)"
  have n: "cn_id node = newNodeId" "cn_parentId node = None" by (simp_all add: node_def created_def split: option.split)
  note step = createConnectedNode_def [of shown number_text newNodeId newConnectionId row_ident configMetadata t handle pos s,
    folded row_def sourceNode_def, unfolded Let_def, folded created_def, folded node_def]
  show ?thesis
  proof (cases "validateCanvasConnection (hd_nodeId handle) newNodeId (cs_nodes s @ [node]) (hd_type handle)")
    case (Inl e)
    then show ?thesis using ok by (simp add: step normalizeConnection_def)
  next
    case (Inr c)
    then show ?thesis
      by (cases c) (auto simp: step normalizeConnection_def intro!: added [OF n])
  qed
qed

text \<open>New identifiers: an endless supply of texts that are not in use.\<close>

definition fresh :: "string set \<Rightarrow> (nat \<Rightarrow> string) \<Rightarrow> bool" where
  "fresh used f \<longleftrightarrow> inj f \<and> [] \<notin> range f \<and> range f \<inter> used = {}"

lemma id_map_get:
  assumes "distinct (ids_of nodes)"
  shows "js_get (id_map f nodes) i = None \<longleftrightarrow> i \<notin> set (ids_of nodes)"
    and "js_get (id_map f nodes) i = Some x \<Longrightarrow> x \<in> range f"
    and "inj f \<Longrightarrow> js_get (id_map f nodes) i = Some x \<Longrightarrow> js_get (id_map f nodes) j = Some x \<Longrightarrow> i = j"
proof -
  have z: "id_map f nodes = zip (ids_of nodes) (map f [0..<length nodes])"
    using assms by (simp add: id_map_def ids_of_def js_map_of_distinct)
  have l: "length (ids_of nodes) = length nodes" by (simp add: ids_of_def)
  show "js_get (id_map f nodes) i = None \<longleftrightarrow> i \<notin> set (ids_of nodes)"
    unfolding z by (rule map_of_zip_is_None) (simp add: l)
  show "x \<in> range f" if "js_get (id_map f nodes) i = Some x"
    using set_zip_rightD [OF map_of_SomeD [OF that, unfolded z]] by auto
  show "i = j" if "inj f" "js_get (id_map f nodes) i = Some x" "js_get (id_map f nodes) j = Some x"
    using map_of_SomeD [OF that(2)] map_of_SomeD [OF that(3)] that(1)
    unfolding z by (auto simp: set_zip inj_eq)
qed

text \<open>The names of copies.\<close>

lemma renamed_copies:
  assumes "distinct (ids_of nodes)" "fresh used f" and r_def: "r = (\<lambda>i. the (js_get (id_map f nodes) i))"
  shows "inj_on r (set (ids_of nodes))" "r ` set (ids_of nodes) \<subseteq> range f"
    "i \<in> set (ids_of nodes) \<Longrightarrow> js_get (id_map f nodes) i = Some (r i)"
    "i \<in> set (ids_of nodes) \<Longrightarrow> r i \<notin> used \<and> r i \<noteq> []"
proof -
  have at: "js_get (id_map f nodes) i = Some (r i)" if "i \<in> set (ids_of nodes)" for i
    using id_map_get(1) [OF assms(1), of f i] that by (auto simp: r_def)
  then show "i \<in> set (ids_of nodes) \<Longrightarrow> js_get (id_map f nodes) i = Some (r i)" .
  have "inj f" using assms(2) by (simp add: fresh_def)
  then show "inj_on r (set (ids_of nodes))"
    using id_map_get(3) [OF assms(1)] at by (metis inj_onI)
  show r: "r ` set (ids_of nodes) \<subseteq> range f"
    using id_map_get(2) [OF assms(1)] at by blast
  show "r i \<notin> used \<and> r i \<noteq> []" if "i \<in> set (ids_of nodes)"
    using r that assms(2) unfolding fresh_def by (metis IntI empty_iff imageI subset_iff)
qed

lemma relabelled:
  "map cx_id (map2 (\<lambda>c i. c\<lparr>cx_id := f i\<rparr>) cs [0..<length cs]) = map f [0..<length cs]"
  "map cx_ends (map2 (\<lambda>c i. c\<lparr>cx_id := f i\<rparr>) cs [0..<length cs]) = map cx_ends cs"
  by (auto intro!: nth_equalityI simp: cx_ends_def)

lemma fresh_labels:
  assumes "fresh used f" "map cx_id D = map f [0..<n]"
  shows "distinct (map cx_id D)" "cx_id ` set D \<inter> used = {}"
proof -
  show "distinct (map cx_id D)" using assms by (auto simp: fresh_def distinct_map intro: inj_on_subset)
  have "cx_id ` set D = f ` set [0..<n]" using arg_cong [OF assms(2), of set] by simp
  then show "cx_id ` set D \<inter> used = {}" using assms(1) unfolding fresh_def by blast
qed

lemma list_all_joins_ends:
  assumes "map cx_ends D = map cx_ends D'"
  shows "list_all (joins S) D = list_all (joins S) D'"
proof -
  have "joins S c = (case fst (cx_ends c) of (i, j) \<Rightarrow>
      i \<noteq> j \<and> (\<exists>a b. (i, a) \<in> S \<and> (j, b) \<in> S \<and> joinable a b))" for c
    by (simp add: joins_iff cx_ends_def)
  then have "list_all (joins S) D = list_all (\<lambda>e. case fst e of (i, j) \<Rightarrow>
      i \<noteq> j \<and> (\<exists>a b. (i, a) \<in> S \<and> (j, b) \<in> S \<and> joinable a b)) (map cx_ends D)" for D
    by (simp add: list_all_iff)
  then show ?thesis using assms by simp
qed

lemma rewired_ends:
  assumes "distinct (map cx_ends cs)" "inj_on rf A" "inj_on rt B"
    and "\<And>c. c \<in> set cs \<Longrightarrow> cx_fromNodeId c \<in> A \<and> cx_toNodeId c \<in> B"
    and "\<And>c. c \<in> set cs \<Longrightarrow> cx_ends (h c) = ((rf (cx_fromNodeId c), rt (cx_toNodeId c)), snd (cx_ends c))"
  shows "distinct (map cx_ends (map h cs))"
proof -
  have "inj_on (\<lambda>c. cx_ends (h c)) (set cs)"
  proof (rule inj_onI)
    fix c d assume cd: "c \<in> set cs" "d \<in> set cs" "cx_ends (h c) = cx_ends (h d)"
    then have "cx_fromNodeId c = cx_fromNodeId d" "cx_toNodeId c = cx_toNodeId d"
      using assms(2-5) by (auto dest: inj_onD)
    then have "cx_ends c = cx_ends d" using cd assms(5) by (simp add: cx_ends_def)
    then show "c = d" using assms(1) cd(1,2) by (auto simp: distinct_map dest: inj_onD)
  qed
  moreover have "distinct cs" using assms(1) by (simp add: distinct_map)
  ultimately show ?thesis by (simp add: distinct_map comp_def)
qed

lemma joins_renamed:
  assumes "joins (shape ` set nodes) c" "inj_on r (set (ids_of nodes))"
    and "\<And>node. node \<in> set nodes \<Longrightarrow> shape (g node) = (r (cn_id node), cn_type node)"
    and "cx_fromNodeId c' = r (cx_fromNodeId c)" "cx_toNodeId c' = r (cx_toNodeId c)"
  shows "joins (shape ` set (map g nodes)) c'"
proof -
  have at: "(r i, t) \<in> shape ` set (map g nodes)" if it: "(i, t) \<in> shape ` set nodes" for i t
  proof -
    obtain node where "node \<in> set nodes" "cn_id node = i" "cn_type node = t" using it by (auto simp: shape_def)
    then have "g node \<in> set (map g nodes)" "shape (g node) = (r i, t)" using assms(3) by auto
    then show ?thesis by (metis imageI)
  qed
  have "r (cx_fromNodeId c) \<noteq> r (cx_toNodeId c)"
    using joins_ids [OF assms(1)] assms(1,2) by (auto simp: shape_ids joins_iff dest: inj_onD)
  then show ?thesis using assms(1,4,5) at unfolding joins_iff by metis
qed

text \<open>Copies of nodes, put on the canvas with new names.\<close>

lemma canvas_ok_copies:
  assumes ok: "canvas_ok s" and d: "distinct (ids_of nodes)"
    and r: "inj_on r (set (ids_of nodes))" "\<And>i. i \<in> set (ids_of nodes) \<Longrightarrow> r i \<notin> set (ids_of (cs_nodes s)) \<and> r i \<noteq> []"
    and g: "\<And>node. node \<in> set nodes \<Longrightarrow> shape (g node) = (r (cn_id node), cn_type node)"
    and p: "\<And>node. node \<in> set nodes \<Longrightarrow> has_text (cn_parentId (g node)) \<Longrightarrow> canFrameContain node \<and>
      (the (cn_parentId (g node)), FrameNode) \<in> shape ` set (cs_nodes s @ map g nodes)"
    and D: "distinct (map cx_id D)" "cx_id ` set D \<inter> cx_id ` set (cs_connections s) = {}" "distinct (map cx_ends D)"
      "cx_ends ` set D \<inter> cx_ends ` set (cs_connections s) = {}"
      "list_all (joins (shape ` set (cs_nodes s @ map g nodes))) D"
    and sel: "set selection \<subseteq> r ` set (ids_of nodes)"
  shows "canvas_ok (selectNodes selection (commitConnections (cs_connections s @ D) (commitNodes (cs_nodes s @ map g nodes) s)))"
proof -
  let ?M = "map g nodes" and ?N = "cs_nodes s"
  have ids: "ids_of ?M = map r (ids_of nodes)" using g by (auto simp: ids_of_def shape_def)
  have M: "distinct (ids_of ?M)" "set (ids_of ?M) \<inter> set (ids_of ?N) = {}" "[] \<notin> set (ids_of ?M)"
    using d r by (auto simp: ids distinct_map) (metis r(2))
  have dNM: "distinct (ids_of (?N @ ?M))"
    using canvas_okD(1) [OF ok] M(1,2) by (auto simp: graph_ok_def ids_of_def)
  have "framed (shape ` set (?N @ ?M)) (g node)" if "node \<in> set nodes" for node
    using p [OF that] g [OF that] shape_unique [OF dNM]
    by (auto simp: framed_iff canFrameContain_def shape_def)
  then have graph: "graph_ok (?N @ ?M) (cs_connections s @ D)"
    by (intro graph_ok_append canvas_okD(1,2) [OF ok] M D) (simp add: list_all_iff)
  have "the (cn_parentId (g node)) \<in> set (ids_of (?N @ ?M))" if "node \<in> set nodes" "has_text (cn_parentId (g node))" for node
    using p [OF that] shape_ids [of "?N @ ?M"] by (metis fst_conv image_eqI)
  then have "parents_present (?N @ ?M)"
    by (intro parents_present_append canvas_okD(2) [OF ok]) (simp add: list_all_iff)
  moreover have "set (ids_of (?N @ ?M)) = set (ids_of ?N) \<union> r ` set (ids_of nodes)"
    using arg_cong [OF ids, of set] by (simp add: ids_of_def image_image)
  ultimately show ?thesis using sel graph by (intro canvas_ok_append [OF ok]) auto
qed

lemma pasteCopiedNodes_ok:
  assumes ok: "canvas_ok s" and new: "fresh (set (ids_of (cs_nodes s))) newId"
    and con: "fresh (cx_id ` set (cs_connections s)) newConnectionId"
  shows "canvas_ok (snd (pasteCopiedNodes newId newConnectionId center s))"
proof (cases "\<exists>board. cs_clipboard s = Some board \<and> cb_nodes board \<noteq> []")
  case False
  then show ?thesis using ok by (auto simp: pasteCopiedNodes_def split: option.splits)
next
  case True
  then obtain board where b: "cs_clipboard s = Some board" "cb_nodes board \<noteq> []" by blast
  define nodes where "nodes = cb_nodes board"
  define cs where "cs = cb_connections board"
  define idMap where "idMap = id_map newId nodes"
  define r where "r = (\<lambda>i. the (js_get idMap i))"
  have graph: "graph_ok nodes cs" using canvas_okD(5) [OF ok b(1)] by (simp add: nodes_def cs_def)
  then have d: "distinct (ids_of nodes)" by (simp add: graph_ok_def)
  note rr = renamed_copies [OF d new r_def [unfolded idMap_def], folded idMap_def]
  have ends: "cx_fromNodeId c \<in> set (ids_of nodes)" "cx_toNodeId c \<in> set (ids_of nodes)"
      "joins (shape ` set nodes) c" if "c \<in> set cs" for c
    using graph_ends [OF graph that] by blast+
  define ren where "ren = (\<lambda>c :: canvas_connection. c\<lparr>cx_fromNodeId := r (cx_fromNodeId c), cx_toNodeId := r (cx_toNodeId c)\<rparr>)"
  define D where "D = map2 (\<lambda>c i. c\<lparr>cx_id := newConnectionId i\<rparr>) (map ren cs) [0..<length (map ren cs)]"
  have connections: "concat (map2 (\<lambda>c i.
      case (js_get idMap (cx_fromNodeId c), js_get idMap (cx_toNodeId c)) of
        (Some from, Some to) \<Rightarrow> if from = [] \<or> to = [] then []
          else [c\<lparr>cx_id := newConnectionId i, cx_fromNodeId := from, cx_toNodeId := to\<rparr>]
      | _ \<Rightarrow> []) cs [0..<length cs]) = D"
  proof -
    have single: "concat (map h xs) = map k xs" if "\<And>x. x \<in> set xs \<Longrightarrow> h x = [k x]"
      for h k and xs :: "(canvas_connection \<times> nat) list"
      using that by (induction xs) auto
    have D: "D = map (\<lambda>(c, i). (ren c)\<lparr>cx_id := newConnectionId i\<rparr>) (zip cs [0..<length cs])"
      by (simp add: D_def zip_map1 comp_def case_prod_unfold)
    have at: "js_get idMap (cx_fromNodeId c) = Some (r (cx_fromNodeId c))" "js_get idMap (cx_toNodeId c) = Some (r (cx_toNodeId c))"
        "r (cx_fromNodeId c) \<noteq> []" "r (cx_toNodeId c) \<noteq> []" if "(c, i) \<in> set (zip cs [0..<length cs])" for c i
      using rr(3,4) ends(1,2) [OF set_zip_leftD [OF that]] by blast+
    show ?thesis unfolding D
    proof (rule single)
      fix x assume x: "x \<in> set (zip cs [0..<length cs])"
      obtain c i where ci: "x = (c, i)" by (cases x)
      show "(case x of (c, i) \<Rightarrow> case (js_get idMap (cx_fromNodeId c), js_get idMap (cx_toNodeId c)) of
          (Some from, Some to) \<Rightarrow> if from = [] \<or> to = [] then []
            else [c\<lparr>cx_id := newConnectionId i, cx_fromNodeId := from, cx_toNodeId := to\<rparr>]
        | _ \<Rightarrow> []) = [case x of (c, i) \<Rightarrow> (ren c)\<lparr>cx_id := newConnectionId i\<rparr>]"
        using at [OF x [unfolded ci]] by (simp add: ci ren_def)
    qed
  qed
  have ids: "map cx_id D = map newConnectionId [0..<length cs]" and De: "map cx_ends D = map cx_ends (map ren cs)"
    unfolding D_def relabelled by simp_all
  have dD: "distinct (map cx_id D)" "cx_id ` set D \<inter> cx_id ` set (cs_connections s) = {}"
    using fresh_labels [OF con ids] by blast+
  have rends: "cx_ends (ren c) = ((r (cx_fromNodeId c), r (cx_toNodeId c)), snd (cx_ends c))" for c
    by (simp add: ren_def cx_ends_def)
  have de: "distinct (map cx_ends D)"
    unfolding De by (rule rewired_ends [OF _ rr(1) rr(1)]) (use graph ends rends in \<open>auto simp: graph_ok_def\<close>)
  have "cx_ends c \<notin> cx_ends ` ren ` set cs" if "c \<in> set (cs_connections s)" for c
  proof -
    have "cx_fromNodeId c \<in> set (ids_of (cs_nodes s))"
      using graph_ends [OF canvas_okD(1) [OF ok] that] by blast
    then show ?thesis using rr(4) ends(1) by (auto simp: rends) (auto simp: cx_ends_def)
  qed
  then have disj: "cx_ends ` set D \<inter> cx_ends ` set (cs_connections s) = {}"
    using arg_cong [OF De, of set] by (simp only: set_map disjoint_iff) (metis imageE)
  define g where "g = (\<lambda>dx dy (node :: canvas_node). node\<lparr>cn_id := the (js_get idMap (cn_id node)), cn_title := copy_title (cn_title node),
    cn_position := \<lparr>px = node_x node + dx, py = node_y node + dy\<rparr>,
    cn_parentId := (if has_text (cn_parentId node) then js_get idMap (the (cn_parentId node)) else None)\<rparr>)"
  have gs: "shape (g dx dy node) = (r (cn_id node), cn_type node)" for dx dy node by (simp add: g_def r_def shape_def)
  have gp: "canFrameContain node \<and> (the (cn_parentId (g dx dy node)), FrameNode) \<in> shape ` set (cs_nodes s @ map (g dx dy) nodes)"
    if node: "node \<in> set nodes" "has_text (cn_parentId (g dx dy node))" for dx dy node
  proof -
    have p: "has_text (cn_parentId node)" and m: "js_get idMap (the (cn_parentId node)) \<noteq> None"
      using node(2) by (auto simp: g_def has_text_def split: if_splits)
    have "the (cn_parentId node) \<in> set (ids_of nodes)"
      using m id_map_get(1) [OF d, of newId] by (auto simp: idMap_def)
    then obtain frame where frame: "frame \<in> set nodes" "cn_id frame = the (cn_parentId node)" by (auto simp: ids_of_def)
    have f: "canFrameContain node" "cn_type frame = FrameNode"
      using frame_of_child [OF graph node(1) p] frame by blast+
    have "shape (g dx dy frame) = (the (cn_parentId (g dx dy node)), FrameNode)"
      using f p frame(2) by (simp add: g_def shape_def)
    then show ?thesis using f(1) frame(1) by (metis UnCI imageI list.set_map set_append)
  qed
  have dj: "list_all (joins (shape ` set (cs_nodes s @ map (g dx dy) nodes))) D" for dx dy
  proof -
    have "joins (shape ` set (cs_nodes s @ map (g dx dy) nodes)) (ren c)" if "c \<in> set cs" for c
      by (rule joins_mono [OF joins_renamed [OF ends(3) [OF that] rr(1) gs [of dx dy]]]) (auto simp: ren_def)
    then show ?thesis unfolding list_all_joins_ends [OF De] by (simp add: list_all_iff)
  qed
  obtain dx dy dialog where paste: "snd (pasteCopiedNodes newId newConnectionId center s) =
      (selectNodes (map cn_id (filter (\<lambda>node. \<not> has_text (cn_parentId node)) (map (g dx dy) nodes)))
        (commitConnections (cs_connections s @ D) (commitNodes (cs_nodes s @ map (g dx dy) nodes) s)))\<lparr>cs_dialog := dialog\<rparr>"
    using b(2) unfolding pasteCopiedNodes_def b(1) option.case Let_def nodes_def [symmetric] cs_def [symmetric]
      idMap_def [symmetric] connections g_def by (simp only: if_False snd_conv)
  have "set (map cn_id (filter (\<lambda>node. \<not> has_text (cn_parentId node)) (map (g dx dy) nodes))) \<subseteq> r ` set (ids_of nodes)"
    using gs [of dx dy] by (auto simp: shape_def ids_of_def)
  then show ?thesis
    unfolding paste canvas_ok_dialog
    using rr(4) by (intro canvas_ok_copies [OF ok d rr(1)] gs gp dD de disj dj) auto
qed

lemma shape_part:
  assumes "distinct (ids_of nodes)" "set part \<subseteq> set nodes" "(i, t) \<in> shape ` set nodes" "i \<in> set (ids_of part)"
  shows "(i, t) \<in> shape ` set part"
proof -
  obtain node where "node \<in> set part" "cn_id node = i" using assms(4) by (auto simp: ids_of_def)
  then have "(i, cn_type node) \<in> shape ` set part" by (metis shape_def imageI)
  then show ?thesis using shape_unique [OF assms(1,3), of "cn_type node"] assms(2) by blast
qed

lemma duplicated_sources:
  assumes ok: "graph_ok N C" and "source \<in> set N"
  defines "sources \<equiv> if isFrameNode source then source # getFrameChildren (cn_id source) N else [source]"
  shows "distinct (ids_of sources)" "set sources \<subseteq> set N" "source \<in> set sources"
proof -
  have d: "distinct (map cn_id N)" using ok by (simp add: graph_ok_def ids_of_def)
  have "cn_id source \<notin> cn_id ` set (getFrameChildren (cn_id source) N)" if "isFrameNode source"
  proof
    assume "cn_id source \<in> cn_id ` set (getFrameChildren (cn_id source) N)"
    then obtain node where n: "node \<in> set N" "cn_parentId node = Some (cn_id source)" "cn_id node = cn_id source"
      by (auto simp: getFrameChildren_def)
    then have "node = source" using d assms(2) by (auto simp: distinct_map dest: inj_onD)
    moreover have "cn_id source \<noteq> []" using ok assms(2) by (auto simp: graph_ok_def ids_of_def) (metis imageI)
    ultimately show False
      using frame_of_child(1) [OF ok assms(2)] n(2) that by (simp add: has_text_def canFrameContain_def isFrameNode_def)
  qed
  then show "distinct (ids_of sources)"
    using d by (simp add: sources_def ids_of_def getFrameChildren_def distinct_map_filter)
  show "set sources \<subseteq> set N" "source \<in> set sources"
    using assms(2) by (auto simp: sources_def getFrameChildren_def)
qed

text \<open>The connections among the copied nodes are copied with their ends renamed, those that lead to the copied node with
  one end renamed.\<close>

definition rename_ends :: "(string \<Rightarrow> string) \<Rightarrow> canvas_connection \<Rightarrow> canvas_connection" where
  "rename_ends r c = c\<lparr>cx_fromNodeId := r (cx_fromNodeId c), cx_toNodeId := r (cx_toNodeId c)\<rparr>"

definition lead_to :: "string \<Rightarrow> canvas_connection \<Rightarrow> canvas_connection" where
  "lead_to i c = c\<lparr>cx_toNodeId := i\<rparr>"

lemma duplicated_ends:
  assumes graph: "graph_ok N C" and d: "set inner \<subseteq> set C" "distinct (map cx_ends inner)" "set incoming \<subseteq> set C" "distinct (map cx_ends incoming)"
    and r: "inj_on r A" "\<And>i. i \<in> A \<Longrightarrow> r i \<notin> set (ids_of N)" and src: "src \<in> A"
    and inner: "\<And>c. c \<in> set inner \<Longrightarrow> cx_fromNodeId c \<in> A \<and> cx_toNodeId c \<in> A"
    and incoming: "\<And>c. c \<in> set incoming \<Longrightarrow> cx_toNodeId c = src"
  defines "copies \<equiv> map (rename_ends r) inner @ map (lead_to (r src)) incoming"
  shows "distinct (map cx_ends copies)" "c \<in> set C \<Longrightarrow> cx_ends c \<notin> cx_ends ` set copies"
proof -
  have old: "cx_fromNodeId c \<in> set (ids_of N)" "cx_toNodeId c \<in> set (ids_of N)" if "c \<in> set C" for c
    using graph_ends [OF graph that] by blast+
  have "distinct (map cx_ends (map (rename_ends r) inner))"
    by (rule rewired_ends [OF d(2) r(1) r(1) inner]) (simp_all add: rename_ends_def cx_ends_def)
  moreover have "distinct (map cx_ends (map (lead_to (r src)) incoming))"
    by (rule rewired_ends [OF d(4), of id UNIV "\<lambda>_. r src" "{src}"]) (simp_all add: incoming lead_to_def cx_ends_def)
  moreover have "x \<notin> set (map cx_ends (map (lead_to (r src)) incoming))"
    if x: "x \<in> set (map cx_ends (map (rename_ends r) inner))" for x
  proof
    assume "x \<in> set (map cx_ends (map (lead_to (r src)) incoming))"
    then obtain e where "e \<in> set incoming" "x = cx_ends (lead_to (r src) e)" by (auto simp only: set_map)
    moreover obtain c where "c \<in> set inner" "x = cx_ends (rename_ends r c)" using x by (auto simp only: set_map)
    ultimately have "r (cx_fromNodeId c) = cx_fromNodeId e" "c \<in> set inner" "e \<in> set C"
      using d(3) by (auto simp: rename_ends_def lead_to_def cx_ends_def)
    then show False using r(2) inner old(1) by metis
  qed
  ultimately show "distinct (map cx_ends copies)"
    unfolding copies_def map_append distinct_append by blast
  have "cx_toNodeId e \<notin> set (ids_of N)" if "e \<in> set copies" for e
    using that r(2) inner src by (auto simp: copies_def rename_ends_def lead_to_def)
  then show "cx_ends c \<notin> cx_ends ` set copies" if "c \<in> set C"
    using old(2) [OF that] by (auto simp: cx_ends_def)
qed

lemma duplicated_joins:
  assumes graph: "graph_ok N C" and part: "set sources \<subseteq> set N" "source \<in> set sources"
    and r: "inj_on r (set (ids_of sources))" "r (cn_id source) \<notin> set (ids_of N)"
    and gs: "\<And>node. shape (g node) = (r (cn_id node), cn_type node)" and c: "c \<in> set C"
  shows "cx_fromNodeId c \<in> set (ids_of sources) \<Longrightarrow> cx_toNodeId c \<in> set (ids_of sources) \<Longrightarrow>
      joins (shape ` set N \<union> shape ` set (map g sources)) (rename_ends r c)"
    and "cx_toNodeId c = cn_id source \<Longrightarrow>
      joins (shape ` set N \<union> shape ` set (map g sources)) (lead_to (r (cn_id source)) c)"
proof -
  have d: "distinct (ids_of N)" using graph by (simp add: graph_ok_def)
  have j: "joins (shape ` set N) c" by (rule graph_ends(3) [OF graph c])
  show "joins (shape ` set N \<union> shape ` set (map g sources)) (rename_ends r c)"
    if i: "cx_fromNodeId c \<in> set (ids_of sources)" "cx_toNodeId c \<in> set (ids_of sources)"
  proof -
    have "joins (shape ` set sources) c"
      using j shape_part [OF d part(1) _ i(1)] shape_part [OF d part(1) _ i(2)] unfolding joins_iff by blast
    then have "joins (shape ` set (map g sources)) (rename_ends r c)"
      by (rule joins_renamed [OF _ r(1) gs]) (simp_all add: rename_ends_def)
    then show ?thesis by (rule joins_mono) blast
  qed
  show "joins (shape ` set N \<union> shape ` set (map g sources)) (lead_to (r (cn_id source)) c)"
    if to: "cx_toNodeId c = cn_id source"
  proof -
    obtain a b where ab: "(cx_fromNodeId c, a) \<in> shape ` set N" "(cn_id source, b) \<in> shape ` set N" "joinable a b"
      using j to unfolding joins_iff by auto
    have "(cn_id source, cn_type source) \<in> shape ` set N" using part by (metis shape_def imageI subsetD)
    then have "b = cn_type source" using shape_unique [OF d ab(2)] by blast
    then have "(r (cn_id source), b) \<in> shape ` set (map g sources)"
      using gs [of source] part(2) by (metis imageI list.set_map)
    moreover have "cx_fromNodeId c \<noteq> r (cn_id source)"
      using ab(1) r(2) shape_ids [of N] by (metis fst_conv imageI)
    ultimately show ?thesis using ab(1,3) unfolding joins_iff by (auto simp: lead_to_def simp del: set_map)
  qed
qed

text \<open>A copy stays in the frame, or is in the copy of the frame.\<close>

lemma copied_parent:
  assumes graph: "graph_ok N C" "parents_present N" and part: "set sources \<subseteq> set N" and node: "node \<in> set sources"
    and get: "\<And>i. i \<in> set (ids_of sources) \<Longrightarrow> get i = Some (r i) \<and> r i \<noteq> []" "\<And>i. i \<notin> set (ids_of sources) \<Longrightarrow> get i = None"
    and gs: "\<And>node. shape (g node) = (r (cn_id node), cn_type node)" and p: "has_text (cn_parentId node)"
  shows "canFrameContain node \<and>
    (the (or_text (get (the (cn_parentId node))) (cn_parentId node)), FrameNode) \<in> shape ` set N \<union> shape ` set (map g sources)"
proof -
  let ?p = "the (cn_parentId node)"
  have n: "node \<in> set N" using part node by blast
  then obtain frame where f: "frame \<in> set N" "cn_id frame = ?p"
    using graph(2) p by (auto simp: parents_present_def list_all_iff ids_of_def)
  note c = frame_of_child [OF graph(1) n p]
  have at: "(?p, FrameNode) \<in> shape ` set N" using c(2) [OF f] f by (metis shape_def imageI)
  show ?thesis
  proof (cases "?p \<in> set (ids_of sources)")
    case True
    then obtain other where o: "other \<in> set sources" "cn_id other = ?p" by (auto simp: ids_of_def)
    then have "cn_type other = FrameNode" using c(2) part by blast
    then have "(r ?p, FrameNode) \<in> shape ` set (map g sources)" using o gs [of other] by (metis imageI list.set_map)
    then show ?thesis using c(1) get(1) [OF True] by (simp add: or_text_def)
  next
    case False
    then show ?thesis using c(1) at get(2) [OF False] by (simp add: or_text_def)
  qed
qed

lemma duplicateNode_ok:
  assumes ok: "canvas_ok s" and new: "fresh (set (ids_of (cs_nodes s))) newId"
    and con: "fresh (cx_id ` set (cs_connections s)) newConnectionId"
  shows "canvas_ok (duplicateNode shown newId newConnectionId nodeId s)"
proof (cases "node_of (cs_nodes s) nodeId")
  case None
  then show ?thesis using ok by (simp add: duplicateNode_def)
next
  case (Some source)
  then have src: "source \<in> set (cs_nodes s)" using node_of_Some by blast
  let ?N = "cs_nodes s" and ?C = "cs_connections s"
  note graph = canvas_okD(1) [OF ok]
  define sources where "sources = (if isFrameNode source then source # getFrameChildren (cn_id source) ?N else [source])"
  note ss = duplicated_sources [OF graph src, folded sources_def]
  define idMap where "idMap = id_map newId sources"
  define r where "r = (\<lambda>i. the (js_get idMap i))"
  note rr = renamed_copies [OF ss(1) new r_def [unfolded idMap_def], folded idMap_def]
  have none: "js_get idMap i = None" if "i \<notin> set (ids_of sources)" for i
    using that id_map_get(1) [OF ss(1)] by (simp add: idMap_def)
  define copiedIds where "copiedIds = map cn_id sources"
  define inner where "inner = filter (\<lambda>c. cx_fromNodeId c \<in> set copiedIds \<and> cx_toNodeId c \<in> set copiedIds) ?C"
  define incoming where "incoming = (if isFrameNode source then []
    else filter (\<lambda>c. cx_toNodeId c = cn_id source \<and> cx_fromNodeId c \<notin> set copiedIds) ?C)"
  define copies where "copies = map (rename_ends r) inner @ map (lead_to (r (cn_id source))) incoming"
  define D where "D = map2 (\<lambda>c i. c\<lparr>cx_id := newConnectionId i\<rparr>) copies [0..<length copies]"
  have ids: "map cx_id D = map newConnectionId [0..<length copies]" and De: "map cx_ends D = map cx_ends copies"
    unfolding D_def relabelled by simp_all
  have i: "set inner \<subseteq> set ?C" "distinct (map cx_ends inner)" "set incoming \<subseteq> set ?C" "distinct (map cx_ends incoming)"
      "c \<in> set inner \<Longrightarrow> cx_fromNodeId c \<in> set (ids_of sources) \<and> cx_toNodeId c \<in> set (ids_of sources)"
      "c \<in> set incoming \<Longrightarrow> cx_toNodeId c = cn_id source" for c
    using graph by (auto simp: inner_def incoming_def graph_ok_def distinct_map_filter copiedIds_def ids_of_def split: if_splits)
  have si: "cn_id source \<in> set (ids_of sources)" using ss(3) by (simp add: ids_of_def)
  note de = duplicated_ends [OF graph i(1-4) rr(1) conjunct1 [OF rr(4)] si i(5,6), folded copies_def]
  have disj: "cx_ends ` set D \<inter> cx_ends ` set ?C = {}"
    using de(2) arg_cong [OF De, of set] by (simp only: set_map disjoint_iff) (metis imageE)
  define root_id where "root_id = (if isFrameNode source then None else or_text (md_versionOfNodeId (meta source)) (Some (cn_id source)))"
  define label where "label = (if has_text root_id then Some (nextCanvasVersionLabel (the root_id) ?N) else None)"
  define g where "g = (\<lambda>node :: canvas_node. node\<lparr>cn_id := r (cn_id node),
    cn_title := (if cn_id node = cn_id source
      then strip_version (cn_title node) @ version_mark @ the (or_text label (Some (shown CopyLabel))) else cn_title node),
    cn_position := \<lparr>px = node_x node + 36, py = node_y node + 36\<rparr>,
    cn_parentId := (if has_text (cn_parentId node)
      then or_text (js_get idMap (the (cn_parentId node))) (cn_parentId node) else None),
    cn_metadata := Some (if cn_id node = cn_id source \<and> has_text root_id
      then version_metadata (the root_id) label (meta node) else meta node)\<rparr>)"
  define mark where "mark = (\<lambda>node :: canvas_node.
    if cn_id node = cn_id source \<and> has_text root_id \<and> \<not> has_text (md_versionLabel (meta node))
    then node\<lparr>cn_title := cn_title node @ version_mark @ ''A'',
      cn_metadata := Some ((meta node)\<lparr>md_versionOfNodeId := root_id, md_versionLabel := Some ''A'', md_versionPrimary := Some True\<rparr>)\<rparr>
    else node)"
  define s0 where "s0 = commitNodes (map mark ?N) s"
  have ms: "shape (mark node) = shape node" "cn_id (mark node) = cn_id node" "cn_parentId (mark node) = cn_parentId node" for node
    by (simp_all add: mark_def shape_def)
  have ok0: "canvas_ok s0"
    unfolding s0_def by (intro canvas_ok_map [OF ok] placed_kept ms)
  have s0: "shape ` set (cs_nodes s0) = shape ` set ?N" "ids_of (cs_nodes s0) = ids_of ?N" "cs_connections s0 = ?C"
    by (simp_all add: s0_def ids_of_def ms image_image)
  have gs: "shape (g node) = (r (cn_id node), cn_type node)" for node by (simp add: g_def shape_def)
  let ?S = "shape ` set (cs_nodes s0 @ map g sources)"
  have S: "?S = shape ` set ?N \<union> shape ` set (map g sources)" using s0(1) by (simp add: image_Un)
  have gp: "canFrameContain node \<and> (the (cn_parentId (g node)), FrameNode) \<in> ?S"
    if node: "node \<in> set sources" "has_text (cn_parentId (g node))" for node
  proof -
    have p: "has_text (cn_parentId node)" using node(2) by (auto simp: g_def has_text_def split: if_splits)
    then have "cn_parentId (g node) = or_text (js_get idMap (the (cn_parentId node))) (cn_parentId node)" by (simp add: g_def)
    then show ?thesis
      using copied_parent [where get = "js_get idMap", OF graph canvas_okD(2) [OF ok] ss(2) node(1) _ none gs p] rr(3,4) S
      by simp
  qed
  have "joins ?S c" if "c \<in> set copies" for c
    using that duplicated_joins [OF graph ss(2,3) rr(1) conjunct1 [OF rr(4) [OF si]] gs] i(1,3,5,6) unfolding S copies_def
    by auto
  then have dj: "list_all (joins ?S) D" unfolding list_all_joins_ends [OF De] by (simp add: list_all_iff)
  have copied_ok: "canvas_ok (selectNodes [r (cn_id source)] (commitConnections (cs_connections s0 @ D)
      (commitNodes (cs_nodes s0 @ map g sources) s0)))"
    by (rule canvas_ok_copies [OF ok0 ss(1) rr(1) _ gs gp])
      (use rr(4) si s0 fresh_labels [OF con ids] De de(1) disj dj in simp_all)
  let ?s1 = "selectNodes [r (cn_id source)] (commitConnections (?C @ D) (commitNodes (map mark ?N @ map g sources) s))"
  have step: "duplicateNode shown newId newConnectionId nodeId s =
      (if isFrameNode source then ?s1 else ?s1\<lparr>cs_dialog := Some (r (cn_id source))\<rparr>)"
    by (simp only: duplicateNode_def Some option.case Let_def mark_def g_def D_def copies_def rename_ends_def [abs_def]
        lead_to_def [abs_def] inner_def incoming_def copiedIds_def r_def idMap_def sources_def label_def root_id_def)
  show ?thesis using copied_ok unfolding step s0_def by simp
qed

subsection \<open>Editing\<close>

text \<open>The operations as events; the new identifiers an event brings are new to the canvas.\<close>

datatype canvas_event =
  CreateNode shown_text string "nat \<Rightarrow> string" node_metadata node_type position "node_metadata option"
| ArrangeSelected arrange_mode
| AlignSelected alignment_mode
| StoryboardGroup shown_text string
| ReferenceGroup shown_text string
| ToggleLocked string
| DeleteNodes "string list"
| DeleteConnection string
| Duplicate shown_text "nat \<Rightarrow> string" "nat \<Rightarrow> string" string
| SetPrimaryVersion string
| CopyNodes "string list"
| CopySelected
| Paste "nat \<Rightarrow> string" "nat \<Rightarrow> string" position
| Connect shown_text "rat \<Rightarrow> string" string connection_handle string "string option"
| ConnectExisting shown_text "rat \<Rightarrow> string" string string string
| CreateConnected shown_text "rat \<Rightarrow> string" string string "nat \<Rightarrow> string" node_metadata node_type connection_handle position

text \<open>An arrangement that does not end leaves the canvas as it was.\<close>

fun canvas_step :: "canvas_state \<Rightarrow> canvas_event \<Rightarrow> canvas_state" where
  "canvas_step s (CreateNode shown ident row_ident configMetadata t pos metadata) =
     createNode shown ident row_ident configMetadata t pos metadata s"
| "canvas_step s (ArrangeSelected mode) = (case arrangeSelectedNodes mode s of None \<Rightarrow> s | Some s' \<Rightarrow> s')"
| "canvas_step s (AlignSelected mode) = alignSelectedNodes mode s"
| "canvas_step s (StoryboardGroup shown frameId) = createStoryboardGroup shown frameId s"
| "canvas_step s (ReferenceGroup shown frameId) = createReferenceGroup shown frameId s"
| "canvas_step s (ToggleLocked nodeId) = toggleNodeLocked nodeId s"
| "canvas_step s (DeleteNodes ids) = deleteNodes ids s"
| "canvas_step s (DeleteConnection connectionId) = deleteConnection connectionId s"
| "canvas_step s (Duplicate shown newId newConnectionId nodeId) = duplicateNode shown newId newConnectionId nodeId s"
| "canvas_step s (SetPrimaryVersion nodeId) = setPrimaryVersion nodeId s"
| "canvas_step s (CopyNodes ids) = copyNodesToClipboard ids s"
| "canvas_step s CopySelected = copySelectedNodes s"
| "canvas_step s (Paste newId newConnectionId center) = snd (pasteCopiedNodes newId newConnectionId center s)"
| "canvas_step s (Connect shown number_text newConnectionId current targetNodeId targetHandleId) =
     snd (connectNodes shown number_text newConnectionId current targetNodeId targetHandleId s)"
| "canvas_step s (ConnectExisting shown number_text newConnectionId sourceNodeId targetNodeId) =
     snd (connectExistingNodes shown number_text newConnectionId sourceNodeId targetNodeId s)"
| "canvas_step s (CreateConnected shown number_text newNodeId newConnectionId row_ident configMetadata t handle pos) =
     snd (createConnectedNode shown number_text newNodeId newConnectionId row_ident configMetadata t handle pos s)"

definition new_node_id :: "canvas_state \<Rightarrow> string \<Rightarrow> bool" where
  "new_node_id s ident \<longleftrightarrow> ident \<notin> set (ids_of (cs_nodes s)) \<and> ident \<noteq> []"

definition new_connection_id :: "canvas_state \<Rightarrow> string \<Rightarrow> bool" where
  "new_connection_id s ident \<longleftrightarrow> ident \<notin> cx_id ` set (cs_connections s)"

fun names_are_new :: "canvas_state \<Rightarrow> canvas_event \<Rightarrow> bool" where
  "names_are_new s (CreateNode _ ident _ _ _ _ _) = new_node_id s ident"
| "names_are_new s (StoryboardGroup _ frameId) = new_node_id s frameId"
| "names_are_new s (ReferenceGroup _ frameId) = new_node_id s frameId"
| "names_are_new s (Duplicate _ newId newConnectionId _) =
     (fresh (set (ids_of (cs_nodes s))) newId \<and> fresh (cx_id ` set (cs_connections s)) newConnectionId)"
| "names_are_new s (Paste newId newConnectionId _) =
     (fresh (set (ids_of (cs_nodes s))) newId \<and> fresh (cx_id ` set (cs_connections s)) newConnectionId)"
| "names_are_new s (Connect _ _ newConnectionId _ _ _) = new_connection_id s newConnectionId"
| "names_are_new s (ConnectExisting _ _ newConnectionId _ _) = new_connection_id s newConnectionId"
| "names_are_new s (CreateConnected _ _ newNodeId newConnectionId _ _ _ _ _) =
     (new_node_id s newNodeId \<and> new_connection_id s newConnectionId)"
| "names_are_new s _ = True"

lemmas operations_ok = createNode_ok alignSelectedNodes_ok createStoryboardGroup_ok createReferenceGroup_ok
  toggleNodeLocked_ok deleteNodes_ok deleteConnection_ok duplicateNode_ok setPrimaryVersion_ok
  copyNodesToClipboard_ok pasteCopiedNodes_ok connectNodes_ok createConnectedNode_ok

lemma canvas_step_ok: "canvas_ok s \<Longrightarrow> names_are_new s e \<Longrightarrow> canvas_ok (canvas_step s e)"
  by (cases e)
    (auto simp: new_node_id_def new_connection_id_def copySelectedNodes_def connectExistingNodes_def
      intro: operations_ok dest: arrangeSelectedNodes_ok split: option.split)

interpretation canvas: world_machine canvas_step canvas_ok names_are_new
  by unfold_locales (rule canvas_step_ok)



end
