(* ===== verification/CanvasConnecting.thy ===== *)
theory CanvasConnecting
  imports CanvasOperations CanvasHitIndex
begin

text \<open>
  Drawing a connection with the pointer, the rest of \<^verbatim>\<open>web/src/pages/canvas/use-canvas-connection-controller.ts\<close>: where
  a drawn connection may end, its end, the menu that creates a node where it was dropped on nothing. The handlers get
  the point of the canvas, \<^verbatim>\<open>screenToCanvas\<close>; a blank scroll position is 0.
\<close>

subsection \<open>State\<close>

record connecting_editor =
  ce_canvas :: canvas_state
  ce_scale :: rat
  ce_scrollTop :: "string \<Rightarrow> rat"
  ce_connecting :: "connection_handle option"
  ce_pointer :: "nat option"
  ce_index :: "hit_index option"
  ce_targetNodeId :: "string option"
  ce_pending :: "(connection_handle \<times> position) option"
  ce_mouseWorld :: position

record drop_target =
  dt_nodeId :: "string option"
  dt_handleId :: "string option"
  dt_isNearNode :: bool
  dt_isRejected :: bool

definition CONNECTION_HANDLE_HIT_RADIUS :: rat where
  "CONNECTION_HANDLE_HIT_RADIUS = 40"

definition CONNECTION_NODE_HIT_PADDING :: rat where
  "CONNECTION_NODE_HIT_PADDING = 32"

definition setConnecting :: "connection_handle option \<Rightarrow> connecting_editor \<Rightarrow> connecting_editor" where
  "setConnecting next e =
     (let e1 = e\<lparr>ce_connecting := next\<rparr>
      in if next = None then e1\<lparr>ce_pointer := None, ce_index := None, ce_targetNodeId := None\<rparr> else e1)"

definition closeConnectionCreateMenu :: "connecting_editor \<Rightarrow> connecting_editor" where
  "closeConnectionCreateMenu e = e\<lparr>ce_pending := None\<rparr>"

definition cancelPendingConnectionCreate :: "connecting_editor \<Rightarrow> connecting_editor" where
  "cancelPendingConnectionCreate e = setConnecting None (closeConnectionCreateMenu e)"

subsection \<open>Where a connection may end\<close>

text \<open>A node near the pointer: its handle there, and how good a target it is, \<open>None\<close> when the pointer misses it.\<close>

definition hit_inside :: "position \<Rightarrow> rat \<Rightarrow> canvas_node \<Rightarrow> bool" where
  "hit_inside world padding node \<longleftrightarrow>
     px world \<ge> px (cn_position node) - padding \<and> px world \<le> px (cn_position node) + cn_width node + padding \<and>
     py world \<ge> py (cn_position node) - padding \<and> py world \<le> py (cn_position node) + cn_height node + padding"

definition target_handle :: "(string \<Rightarrow> rat) \<Rightarrow> position \<Rightarrow> canvas_node \<Rightarrow> string option" where
  "target_handle scrollTop world node =
     (if cn_type node = ScriptNode then storyboardHandleAtY node (py world) (scrollTop (cn_id node)) else None)"

definition hit_priority :: "(string \<Rightarrow> rat) \<Rightarrow> rat \<Rightarrow> position \<Rightarrow> connection_handle \<Rightarrow> canvas_node \<Rightarrow> nat option" where
  "hit_priority scrollTop scale world current node =
     (let padding = CONNECTION_NODE_HIT_PADDING / scale; handleRadius = CONNECTION_HANDLE_HIT_RADIUS / scale;
          anchor = getConnectionTargetAnchor node current (target_handle scrollTop world node) (scrollTop (cn_id node));
          dx = px world - px anchor; dy = py world - py anchor;
          hitsHandle = (dx * dx + dy * dy \<le> handleRadius * handleRadius)
      in if cn_type node = ScriptNode \<and> \<not> has_text (target_handle scrollTop world node) then None
         else if hit_inside world 0 node then Some 0
         else if hitsHandle then Some 1
         else if hit_inside world padding node then Some 2
         else None)"

record drop_search =
  ds_nodeId :: "string option"
  ds_handleId :: "string option"
  ds_priority :: "nat option"
  ds_isNearNode :: bool
  ds_isRejected :: bool

definition consider_node ::
  "(canvas_node \<Rightarrow> nat option) \<Rightarrow> (canvas_node \<Rightarrow> string option) \<Rightarrow> (canvas_node \<Rightarrow> bool) \<Rightarrow> drop_search \<Rightarrow> canvas_node \<Rightarrow> drop_search" where
  "consider_node priority handle ok s node =
     (case priority node of
        None \<Rightarrow> s
      | Some p \<Rightarrow>
          let s1 = s\<lparr>ds_isNearNode := True\<rparr>
          in if \<not> ok node then s1\<lparr>ds_isRejected := True\<rparr>
             else if (case ds_priority s1 of None \<Rightarrow> True | Some best \<Rightarrow> p < best)
               then s1\<lparr>ds_nodeId := Some (cn_id node), ds_handleId := handle node, ds_priority := Some p\<rparr> else s1)"

definition connection_ok :: "canvas_node \<Rightarrow> connection_handle \<Rightarrow> canvas_node \<Rightarrow> bool" where
  "connection_ok source current node \<longleftrightarrow>
     (case validateCanvasNodeConnection source node (hd_type current) of Inl _ \<Rightarrow> False | Inr _ \<Rightarrow> True)"

definition getConnectionDropTarget :: "position \<Rightarrow> connection_handle \<Rightarrow> connecting_editor \<Rightarrow> drop_target" where
  "getConnectionDropTarget world current e =
     (let scale = max (ce_scale e) (1 / 20);
          nothing = \<lparr>dt_nodeId = None, dt_handleId = None, dt_isNearNode = False, dt_isRejected = False\<rparr>
      in case ce_index e of
           None \<Rightarrow> nothing
         | Some index \<Rightarrow>
             (case js_get (hi_nodeById index) (hd_nodeId current) of
                None \<Rightarrow> nothing
              | Some source \<Rightarrow>
                  let s = foldl (consider_node (hit_priority (ce_scrollTop e) scale world current)
                          (target_handle (ce_scrollTop e) world) (connection_ok source current))
                        \<lparr>ds_nodeId = None, ds_handleId = None, ds_priority = None, ds_isNearNode = False, ds_isRejected = False\<rparr>
                        (queryCanvasConnectionHitIndex index world
                          (max (CONNECTION_NODE_HIT_PADDING / scale) (CONNECTION_HANDLE_HIT_RADIUS / scale)))
                  in \<lparr>dt_nodeId = ds_nodeId s, dt_handleId = ds_handleId s, dt_isNearNode = ds_isNearNode s,
                       dt_isRejected = (\<not> has_text (ds_nodeId s) \<and> ds_isRejected s)\<rparr>))"

subsection \<open>Handlers\<close>

definition finishConnection ::
  "shown_text \<Rightarrow> (rat \<Rightarrow> string) \<Rightarrow> string \<Rightarrow> position \<Rightarrow> connecting_editor \<Rightarrow> connecting_editor" where
  "finishConnection shown number_text newConnectionId world e =
     (if ce_pending e \<noteq> None then e
      else case ce_connecting e of
        None \<Rightarrow> e
      | Some current \<Rightarrow>
          let target = getConnectionDropTarget world current e
          in if has_text (dt_nodeId target)
             then setConnecting None (e\<lparr>ce_canvas := snd (connectNodes shown number_text newConnectionId current
                    (the (dt_nodeId target)) (dt_handleId target) (ce_canvas e))\<rparr>)
             else if dt_isNearNode target then setConnecting None e
             else e\<lparr>ce_mouseWorld := world, ce_pending := Some (current, world)\<rparr>)"

definition handleConnectStart :: "nat \<Rightarrow> position \<Rightarrow> connection_handle \<Rightarrow> connecting_editor \<Rightarrow> connecting_editor" where
  "handleConnectStart pointerId world handle e =
     (let e1 = e\<lparr>ce_pointer := Some pointerId,
            ce_index := Some (createCanvasConnectionHitIndex (cs_nodes (ce_canvas e)) 320), ce_mouseWorld := world\<rparr>;
          e2 = setConnecting (Some handle) e1
      in e2\<lparr>ce_targetNodeId := None, ce_canvas := (ce_canvas e2)\<lparr>cs_selectedConnection := None\<rparr>\<rparr>)"

definition connect_pointerMove :: "nat \<Rightarrow> position \<Rightarrow> connecting_editor \<Rightarrow> connecting_editor" where
  "connect_pointerMove pointerId world e =
     (case ce_connecting e of
        None \<Rightarrow> e
      | Some current \<Rightarrow>
          if ce_pointer e \<noteq> Some pointerId \<or> ce_pending e \<noteq> None then e
          else e\<lparr>ce_targetNodeId := dt_nodeId (getConnectionDropTarget world current e), ce_mouseWorld := world\<rparr>)"

definition connect_pointerUp ::
  "shown_text \<Rightarrow> (rat \<Rightarrow> string) \<Rightarrow> string \<Rightarrow> nat \<Rightarrow> position \<Rightarrow> connecting_editor \<Rightarrow> connecting_editor" where
  "connect_pointerUp shown number_text newConnectionId pointerId world e =
     (if ce_pointer e = Some pointerId then finishConnection shown number_text newConnectionId world e else e)"

definition connect_pointerCancel :: "nat \<Rightarrow> connecting_editor \<Rightarrow> connecting_editor" where
  "connect_pointerCancel pointerId e = (if ce_pointer e = Some pointerId then setConnecting None e else e)"

definition connect_blur :: "connecting_editor \<Rightarrow> connecting_editor" where
  "connect_blur e = (if ce_connecting e \<noteq> None then setConnecting None e else e)"

text \<open>The menu of the dropped connection: a node is created at its end.\<close>

definition create_pending ::
  "shown_text \<Rightarrow> (rat \<Rightarrow> string) \<Rightarrow> string \<Rightarrow> string \<Rightarrow> (nat \<Rightarrow> string) \<Rightarrow> node_metadata \<Rightarrow> node_type \<Rightarrow> connection_handle \<Rightarrow>
   position \<Rightarrow> connecting_editor \<Rightarrow> connecting_editor" where
  "create_pending shown number_text newNodeId newConnectionId row_ident configMetadata t handle pos e =
     (let (created, s) = createConnectedNode shown number_text newNodeId newConnectionId row_ident configMetadata t handle pos
            (ce_canvas e);
          e1 = e\<lparr>ce_canvas := s\<rparr>
      in if created then setConnecting None (closeConnectionCreateMenu e1) else e1)"

subsection \<open>The target is the best one\<close>

definition best_target :: "(canvas_node \<Rightarrow> nat option) \<Rightarrow> (canvas_node \<Rightarrow> bool) \<Rightarrow> canvas_node list \<Rightarrow> canvas_node option \<Rightarrow> bool" where
  "best_target priority ok nodes best \<longleftrightarrow>
     (case best of
        None \<Rightarrow> \<forall>node \<in> set nodes. priority node \<noteq> None \<longrightarrow> \<not> ok node
      | Some b \<Rightarrow> b \<in> set nodes \<and> ok b \<and>
          (\<exists>p. priority b = Some p \<and> (\<forall>node \<in> set nodes. ok node \<longrightarrow> (\<forall>q. priority node = Some q \<longrightarrow> p \<le> q))))"

definition search_result :: "(canvas_node \<Rightarrow> nat option) \<Rightarrow> (canvas_node \<Rightarrow> string option) \<Rightarrow> canvas_node option \<Rightarrow> drop_search \<Rightarrow> bool" where
  "search_result priority handle best s \<longleftrightarrow>
     ds_nodeId s = map_option cn_id best \<and> ds_handleId s = (case best of None \<Rightarrow> None | Some b \<Rightarrow> handle b) \<and>
     ds_priority s = (case best of None \<Rightarrow> None | Some b \<Rightarrow> priority b)"

lemma consider_best:
  assumes "best_target priority ok nodes best" "search_result priority handle best s"
  shows "\<exists>best'. best_target priority ok (nodes @ [node]) best' \<and>
    search_result priority handle best' (consider_node priority handle ok s node)"
proof (cases "ok node \<and> (\<exists>p. priority node = Some p \<and> (case ds_priority s of None \<Rightarrow> True | Some b \<Rightarrow> p < b))")
  case True
  then obtain p where p: "ok node" "priority node = Some p" "case ds_priority s of None \<Rightarrow> True | Some b \<Rightarrow> p < b" by blast
  have "best_target priority ok (nodes @ [node]) (Some node)"
    using assms p by (cases best) (auto simp: best_target_def search_result_def)
  moreover have "search_result priority handle (Some node) (consider_node priority handle ok s node)"
    using p by (simp add: consider_node_def search_result_def)
  ultimately show ?thesis by blast
next
  case False
  have "best_target priority ok (nodes @ [node]) best"
    using assms False by (cases best) (auto simp: best_target_def search_result_def not_less)
  moreover have "search_result priority handle best (consider_node priority handle ok s node)"
    using assms(2) False by (auto simp: consider_node_def search_result_def Let_def split: option.splits)
  ultimately show ?thesis by blast
qed

lemma search_best:
  "\<exists>best. best_target priority ok nodes best \<and> search_result priority handle best
    (foldl (consider_node priority handle ok)
      \<lparr>ds_nodeId = None, ds_handleId = None, ds_priority = None, ds_isNearNode = False, ds_isRejected = False\<rparr> nodes)"
proof (induction nodes rule: rev_induct)
  case Nil
  show ?case by (rule exI [of _ None]) (simp add: best_target_def search_result_def)
next
  case (snoc node nodes)
  then obtain best where "best_target priority ok nodes best" "search_result priority handle best
    (foldl (consider_node priority handle ok)
      \<lparr>ds_nodeId = None, ds_handleId = None, ds_priority = None, ds_isNearNode = False, ds_isRejected = False\<rparr> nodes)" by blast
  from consider_best [OF this] show ?case by simp
qed

lemma nodeById: "distinct (map cn_id nodes) \<Longrightarrow> js_get (js_map_of (map (\<lambda>n. (cn_id n, n)) nodes)) i = node_of nodes i"
proof -
  have "map_of (map (\<lambda>n. (cn_id n, n)) ns) i = find (\<lambda>n. cn_id n = i) ns" for ns by (induction ns) auto
  moreover have "map fst (map (\<lambda>n. (cn_id n, n)) nodes) = map cn_id nodes" by simp
  ultimately show "distinct (map cn_id nodes) \<Longrightarrow> ?thesis" by (simp only: js_map_of_distinct node_of_def)
qed

text \<open>What the pointer can reach: the visible nodes near it.\<close>

definition reachable_nodes :: "position \<Rightarrow> connecting_editor \<Rightarrow> canvas_node list" where
  "reachable_nodes world e =
     (let scale = max (ce_scale e) (1 / 20)
      in hit_scan (cs_nodes (ce_canvas e)) world (max (CONNECTION_NODE_HIT_PADDING / scale) (CONNECTION_HANDLE_HIT_RADIUS / scale)))"

definition indexed :: "connecting_editor \<Rightarrow> bool" where
  "indexed e \<longleftrightarrow> ce_index e = Some (createCanvasConnectionHitIndex (cs_nodes (ce_canvas e)) 320) \<and>
     distinct (ids_of (cs_nodes (ce_canvas e))) \<and> list_all (\<lambda>n. 0 \<le> cn_width n \<and> 0 \<le> cn_height n) (cs_nodes (ce_canvas e))"

lemma target_is_best:
  assumes "indexed e" "dt_nodeId (getConnectionDropTarget world current e) = Some i"
  shows "\<exists>source b. node_of (cs_nodes (ce_canvas e)) (hd_nodeId current) = Some source \<and> cn_id b = i \<and>
    best_target (hit_priority (ce_scrollTop e) (max (ce_scale e) (1 / 20)) world current) (connection_ok source current)
      (reachable_nodes world e) (Some b)"
proof -
  let ?N = "cs_nodes (ce_canvas e)" and ?scale = "max (ce_scale e) (1 / 20)"
  have d: "distinct (map cn_id ?N)" "\<forall>n \<in> set ?N. 0 \<le> cn_width n \<and> 0 \<le> cn_height n"
    and ix: "ce_index e = Some (createCanvasConnectionHitIndex ?N 320)"
    using assms(1) by (simp_all add: indexed_def ids_of_def list_all_iff)
  have byId: "js_get (hi_nodeById (createCanvasConnectionHitIndex ?N 320)) j = node_of ?N j" for j
    using nodeById [OF d(1)] by (simp add: createCanvasConnectionHitIndex_def Let_def)
  obtain source where source: "node_of ?N (hd_nodeId current) = Some source"
    using assms(2) by (cases "node_of ?N (hd_nodeId current)") (simp_all add: getConnectionDropTarget_def ix byId Let_def)
  let ?prio = "hit_priority (ce_scrollTop e) ?scale world current" and ?ok = "connection_ok source current"
  let ?handle = "target_handle (ce_scrollTop e) world"
  obtain best where best: "best_target ?prio ?ok (reachable_nodes world e) best"
      "search_result ?prio ?handle best (foldl (consider_node ?prio ?handle ?ok)
        \<lparr>ds_nodeId = None, ds_handleId = None, ds_priority = None, ds_isNearNode = False, ds_isRejected = False\<rparr>
        (reachable_nodes world e))"
    using search_best by blast
  have "dt_nodeId (getConnectionDropTarget world current e) = map_option cn_id best"
    using best(2) by (simp add: getConnectionDropTarget_def ix byId source Let_def query_scan [OF d] reachable_nodes_def
        search_result_def)
  then obtain b where "best = Some b" "cn_id b = i" using assms(2) by (cases best) simp_all
  then show ?thesis using source best(1) by blast
qed



subsection \<open>Drawing keeps the canvas well formed\<close>

datatype connect_event =
  StartConnection nat position connection_handle
| MoveConnection nat position
| EndConnection shown_text "rat \<Rightarrow> string" string nat position
| CancelConnection nat
| BlurConnection
| CancelMenu
| CloseMenu
| CreateAtEnd shown_text "rat \<Rightarrow> string" string string "nat \<Rightarrow> string" node_metadata node_type connection_handle position

fun connect_step :: "connecting_editor \<Rightarrow> connect_event \<Rightarrow> connecting_editor" where
  "connect_step e (StartConnection pointerId world handle) = handleConnectStart pointerId world handle e"
| "connect_step e (MoveConnection pointerId world) = connect_pointerMove pointerId world e"
| "connect_step e (EndConnection shown number_text newConnectionId pointerId world) =
     connect_pointerUp shown number_text newConnectionId pointerId world e"
| "connect_step e (CancelConnection pointerId) = connect_pointerCancel pointerId e"
| "connect_step e BlurConnection = connect_blur e"
| "connect_step e CancelMenu = cancelPendingConnectionCreate e"
| "connect_step e CloseMenu = closeConnectionCreateMenu e"
| "connect_step e (CreateAtEnd shown number_text newNodeId newConnectionId row_ident configMetadata t handle pos) =
     create_pending shown number_text newNodeId newConnectionId row_ident configMetadata t handle pos e"

fun connect_allowed :: "connecting_editor \<Rightarrow> connect_event \<Rightarrow> bool" where
  "connect_allowed e (EndConnection _ _ newConnectionId _ _) = new_connection_id (ce_canvas e) newConnectionId"
| "connect_allowed e (CreateAtEnd _ _ newNodeId newConnectionId _ _ _ _ _) =
     (new_node_id (ce_canvas e) newNodeId \<and> new_connection_id (ce_canvas e) newConnectionId)"
| "connect_allowed e _ = True"

text \<open>A target is shown and a menu is open only while a connection is drawn.\<close>

definition connecting_ok :: "connecting_editor \<Rightarrow> bool" where
  "connecting_ok e \<longleftrightarrow> canvas_ok (ce_canvas e) \<and>
     (ce_connecting e = None \<longrightarrow> ce_targetNodeId e = None \<and> ce_index e = None \<and> ce_pointer e = None)"

lemma setConnecting_simps [simp]:
  "ce_canvas (setConnecting next e) = ce_canvas e" "ce_connecting (setConnecting next e) = next"
  "ce_targetNodeId (setConnecting None e) = None" "ce_index (setConnecting None e) = None" "ce_pointer (setConnecting None e) = None"
  by (simp_all add: setConnecting_def Let_def)

lemma setConnecting_ok: "canvas_ok (ce_canvas e) \<Longrightarrow> connecting_ok (setConnecting None e)"
  by (simp add: connecting_ok_def setConnecting_def Let_def)

lemma finishConnection_ok:
  assumes "connecting_ok e" "new_connection_id (ce_canvas e) newConnectionId"
  shows "connecting_ok (finishConnection shown number_text newConnectionId world e)"
proof -
  have c: "canvas_ok (ce_canvas e)" using assms(1) by (simp add: connecting_ok_def)
  have "canvas_ok (snd (connectNodes shown number_text newConnectionId current i h (ce_canvas e)))" for current i h
    using connectNodes_ok [OF c] assms(2) by (simp add: new_connection_id_def)
  then show ?thesis
    using assms(1) c
    by (cases "ce_connecting e") (simp_all add: finishConnection_def Let_def setConnecting_ok connecting_ok_def)
qed

lemma connect_step_ok:
  assumes "connecting_ok e" "connect_allowed e ev"
  shows "connecting_ok (connect_step e ev)"
proof -
  have c: "canvas_ok (ce_canvas e)" using assms(1) by (simp add: connecting_ok_def)
  have new: "canvas_ok ((ce_canvas e)\<lparr>cs_selectedConnection := None\<rparr>)" using c by (simp add: canvas_ok_def)
  show ?thesis
  proof (cases ev)
    case (CreateAtEnd shown number_text newNodeId newConnectionId row_ident configMetadata t handle pos)
    obtain created s where cs: "createConnectedNode shown number_text newNodeId newConnectionId row_ident configMetadata t handle pos
        (ce_canvas e) = (created, s)" by (cases "createConnectedNode shown number_text newNodeId newConnectionId row_ident
          configMetadata t handle pos (ce_canvas e)")
    have "canvas_ok s"
      using createConnectedNode_ok [OF c, of newNodeId newConnectionId shown number_text row_ident configMetadata t handle pos]
        assms(2) cs CreateAtEnd by (simp add: new_node_id_def new_connection_id_def)
    then show ?thesis
      using assms(1) CreateAtEnd cs
      by (simp add: create_pending_def Let_def closeConnectionCreateMenu_def connecting_ok_def)
  next
    case (EndConnection shown number_text newConnectionId pointerId world)
    then show ?thesis using assms finishConnection_ok by (simp add: connect_pointerUp_def)
  next
    case (MoveConnection pointerId world)
    then show ?thesis
      using assms(1) by (cases "ce_connecting e") (simp_all add: connect_pointerMove_def connecting_ok_def)
  qed (use assms(1) c new in \<open>simp_all add: handleConnectStart_def Let_def connect_pointerCancel_def connect_blur_def
      cancelPendingConnectionCreate_def closeConnectionCreateMenu_def setConnecting_ok connecting_ok_def\<close>)
qed

interpretation connecting: world_machine connect_step connecting_ok connect_allowed
  by unfold_locales (rule connect_step_ok)

end
