(* ===== verification/CanvasSelection.thy ===== *)
theory CanvasSelection
  imports CanvasOperations
begin

text \<open>
  Selecting and dragging on a canvas, \<^verbatim>\<open>web/src/pages/canvas/use-canvas-selection-controller.ts\<close>: pressing a node,
  dragging the selected nodes and dropping them on a frame, and the box that selects what it touches. What is only
  drawn while the pointer moves (guides, the preview, the frame under the pointer) is left out, as are the calls that
  close menus. \<open>bx_frame\<close> is that an animation frame was asked for, \<open>selectionFrame\<close> what it runs. A point of the screen is a
  \<open>position\<close>; the handlers of the box get the point of the canvas, \<^verbatim>\<open>screenToCanvas\<close>.
\<close>

subsection \<open>State\<close>

record drag_state =
  dg_hasMoved :: bool
  dg_openPanelOnClick :: bool
  dg_start :: position
  dg_draggedNodeIds :: "string list"
  dg_initial :: "(string \<times> position) list"
  dg_alignment :: "alignment_context option"

record box_candidate =
  bc_id :: string
  bc_left :: rat
  bc_top :: rat
  bc_right :: rat
  bc_bottom :: rat

record selection_box =
  bx_start :: position
  bx_additive :: bool
  bx_subtractive :: bool
  bx_initial :: "string list"
  bx_candidates :: "box_candidate list"
  bx_activated :: bool
  bx_pending :: "position option"
  bx_frame :: bool

text \<open>\<open>ed_scale\<close> is \<^verbatim>\<open>viewport.k\<close>. There is no drag when \<^verbatim>\<open>isDraggingNode\<close> is false.\<close>

record canvas_editor =
  ed_canvas :: canvas_state
  ed_readOnly :: bool
  ed_scale :: rat
  ed_historyPaused :: bool
  ed_drag :: "drag_state option"
  ed_box :: "selection_box option"

subsection \<open>Handlers\<close>

definition cancelSelectionBox :: "canvas_editor \<Rightarrow> canvas_editor" where
  "cancelSelectionBox e = e\<lparr>ed_box := None\<rparr>"

definition deselectCanvas :: "canvas_editor \<Rightarrow> canvas_editor" where
  "deselectCanvas e = (let e1 = cancelSelectionBox e in e1\<lparr>ed_canvas := selectNodes [] (ed_canvas e1)\<rparr>)"

definition box_candidate_of :: "canvas_node \<Rightarrow> box_candidate" where
  "box_candidate_of node = \<lparr>bc_id = cn_id node, bc_left = px (cn_position node), bc_top = py (cn_position node),
     bc_right = px (cn_position node) + cn_width node, bc_bottom = py (cn_position node) + cn_height node\<rparr>"

text \<open>\<open>alt\<close> takes nodes out of the selection, \<open>multi\<close> (shift, ctrl or meta) adds them.\<close>

definition handleCanvasMouseDown :: "nat \<Rightarrow> bool \<Rightarrow> bool \<Rightarrow> position \<Rightarrow> canvas_editor \<Rightarrow> canvas_editor" where
  "handleCanvasMouseDown button alt multi world e =
     (if button \<noteq> 0 then e
      else let s = ed_canvas e; nodes = cs_nodes s; additive = (\<not> alt \<and> multi);
               box = \<lparr>bx_start = world, bx_additive = additive, bx_subtractive = alt,
                 bx_initial = (if additive \<or> alt then cs_selected s else []),
                 bx_candidates = map box_candidate_of
                   (filter (\<lambda>node. \<not> isHiddenBatchChild node nodes [] \<and> \<not> isNodeHiddenByCollapsedFrame node nodes) nodes),
                 bx_activated = False, bx_pending = (case ed_box e of None \<Rightarrow> None | Some b \<Rightarrow> bx_pending b),
                 bx_frame = (case ed_box e of None \<Rightarrow> False | Some b \<Rightarrow> bx_frame b)\<rparr>
      in e\<lparr>ed_box := Some box, ed_canvas := s\<lparr>cs_selectedConnection := None\<rparr>\<rparr>)"

definition press_selection :: "bool \<Rightarrow> bool \<Rightarrow> string \<Rightarrow> string list \<Rightarrow> string list" where
  "press_selection alt multi nodeId selected =
     (if alt then removeAll nodeId selected
      else if multi then (if nodeId \<in> set selected then removeAll nodeId selected else selected @ [nodeId])
      else if nodeId \<notin> set selected then [nodeId] else selected)"

text \<open>The nodes that move: the selected ones, the nodes of their batches and the content of their frames.\<close>

definition add_batch_children :: "(string list \<Rightarrow> canvas_node \<Rightarrow> bool) \<Rightarrow> string list \<Rightarrow> canvas_node \<Rightarrow> string list" where
  "add_batch_children P dragIds node =
     (if P dragIds node then foldl js_add dragIds (case md_batchChildIds (meta node) of None \<Rightarrow> [] | Some ids \<Rightarrow> ids) else dragIds)"

definition drag_ids :: "canvas_node list \<Rightarrow> string list \<Rightarrow> string list" where
  "drag_ids nodes selected =
     foldl (add_batch_children (\<lambda>dragIds node. cn_id node \<in> set dragIds))
       (foldl (\<lambda>dragIds node.
            let withBatch = add_batch_children (\<lambda>_ node. cn_id node \<in> set selected) dragIds node
            in if cn_id node \<in> set selected \<and> isFrameNode node
               then foldl js_add withBatch (getFrameChildIds (cn_id node) nodes) else withBatch) selected nodes) nodes"

text \<open>The second result is the node whose click the page is told of.\<close>

definition handleNodeMouseDown ::
  "nat \<Rightarrow> bool \<Rightarrow> bool \<Rightarrow> position \<Rightarrow> string \<Rightarrow> canvas_editor \<Rightarrow> canvas_editor \<times> canvas_node option" where
  "handleNodeMouseDown button alt multi0 client nodeId e =
     (if button \<noteq> 0 then (e, None)
      else let multi = (\<not> alt \<and> multi0); nodes = cs_nodes (ed_canvas e);
               selected = press_selection alt multi nodeId (cs_selected (ed_canvas e));
               e1 = e\<lparr>ed_canvas := selectNodes selected (ed_canvas e)\<rparr>;
               clicked = node_of nodes nodeId
      in if ed_readOnly e then (e1\<lparr>ed_drag := None\<rparr>, None)
         else if (alt \<or> multi) \<and> nodeId \<notin> set selected then (e1\<lparr>ed_drag := None\<rparr>, None)
         else if (case clicked of None \<Rightarrow> False | Some node \<Rightarrow> truthy (md_locked (meta node)))
           then (e1\<lparr>ed_drag := None\<rparr>, clicked)
         else let dragged = filter (\<lambda>node. cn_id node \<in> set selected \<and> \<not> truthy (md_locked (meta node)) \<and>
                    \<not> (has_text (cn_parentId node) \<and> the (cn_parentId node) \<in> set selected)) nodes;
                  initial = map (\<lambda>node. (cn_id node, cn_position node))
                    (filter (\<lambda>node. cn_id node \<in> set (drag_ids nodes selected) \<and> \<not> truthy (md_locked (meta node))) nodes)
              in if initial = [] then (e1, None)
                 else (e1\<lparr>ed_historyPaused := True,
                   ed_drag := Some \<lparr>dg_hasMoved = False, dg_openPanelOnClick = (\<not> multi), dg_start = client,
                     dg_draggedNodeIds = map cn_id dragged, dg_initial = initial,
                     dg_alignment = createNodeAlignmentContext nodes initial\<rparr>\<rparr>, None))"

definition handleMouseMove :: "position \<Rightarrow> canvas_editor \<Rightarrow> canvas_editor" where
  "handleMouseMove client e =
     (case ed_drag e of
        None \<Rightarrow> e
      | Some d \<Rightarrow> if \<bar>px client - px (dg_start d)\<bar> > 3 \<or> \<bar>py client - py (dg_start d)\<bar> > 3
          then e\<lparr>ed_drag := Some (d\<lparr>dg_hasMoved := True\<rparr>)\<rparr> else e)"

definition drag_positions :: "drag_state \<Rightarrow> rat \<Rightarrow> position option \<Rightarrow> canvas_node list \<Rightarrow> canvas_node list" where
  "drag_positions d scale client nodes =
     (case client of
        None \<Rightarrow> nodes
      | Some c \<Rightarrow>
          let rawOffset = \<lparr>px = (px c - px (dg_start d)) / scale, py = (py c - py (dg_start d)) / scale\<rparr>;
              offset = fst (calculateNodeAlignment (dg_alignment d) rawOffset (7 / scale));
              initialById = js_map_of (dg_initial d)
          in map (\<lambda>node. case js_get initialById (cn_id node) of
               None \<Rightarrow> node
             | Some p \<Rightarrow> node\<lparr>cn_position := \<lparr>px = px p + px offset, py = py p + py offset\<rparr>\<rparr>) nodes)"

text \<open>The end of a drag; without a point when it was cancelled.\<close>

definition finishNodeDrag :: "position option \<Rightarrow> canvas_editor \<Rightarrow> canvas_editor \<times> canvas_node option" where
  "finishNodeDrag client e =
     (case ed_drag e of
        None \<Rightarrow> (e, None)
      | Some d \<Rightarrow>
          let s = ed_canvas e; dragged = dg_draggedNodeIds d;
              wasClick = (dg_openPanelOnClick d \<and> \<not> dg_hasMoved d \<and> length dragged = 1);
              positioned = drag_positions d (ed_scale e) client (cs_nodes s);
              nodes = (if dg_hasMoved d then applyFrameDrop positioned dragged (findFrameDropTarget positioned dragged)
                       else cs_nodes s)
          in (e\<lparr>ed_historyPaused := False, ed_drag := None, ed_canvas := commitNodes nodes s\<rparr>,
              if wasClick \<and> hd dragged \<noteq> [] then node_of (cs_nodes s) (hd dragged) else None))"

definition handlePointerMove :: "nat \<Rightarrow> position \<Rightarrow> canvas_editor \<Rightarrow> canvas_editor" where
  "handlePointerMove buttons world e =
     (case ed_box e of
        None \<Rightarrow> e
      | Some b \<Rightarrow> if buttons = 0 then cancelSelectionBox e else
          e\<lparr>ed_box := Some (b\<lparr>bx_pending := Some world, bx_frame := True\<rparr>)\<rparr>)"

definition touches :: "selection_box \<Rightarrow> position \<Rightarrow> box_candidate \<Rightarrow> bool" where
  "touches b world c \<longleftrightarrow>
     (let rectX = min (px (bx_start b)) (px world); rectY = min (py (bx_start b)) (py world);
          rectW = \<bar>px (bx_start b) - px world\<bar>; rectH = \<bar>py (bx_start b) - py world\<bar>
      in \<not> (rectX \<ge> bc_right c \<or> rectX + rectW \<le> bc_left c \<or> rectY \<ge> bc_bottom c \<or> rectY + rectH \<le> bc_top c))"

text \<open>
  The box selects nothing until the pointer has left its start by four pixels of the screen; the distance is compared
  squared, and the scale is positive.
\<close>

definition box_moved :: "rat \<Rightarrow> selection_box \<Rightarrow> position \<Rightarrow> bool" where
  "box_moved scale b world \<longleftrightarrow>
     (let dx = px world - px (bx_start b); dy = py world - py (bx_start b); threshold = 4 / scale
      in dx * dx + dy * dy \<ge> threshold * threshold)"

definition next_selected :: "selection_box \<Rightarrow> position \<Rightarrow> string list" where
  "next_selected b world =
     foldl (\<lambda>selected c. if \<not> touches b world c then selected
         else if bx_subtractive b then removeAll (bc_id c) selected else js_add selected (bc_id c))
       (if bx_additive b \<or> bx_subtractive b then bx_initial b else []) (bx_candidates b)"

definition selectionFrame :: "canvas_editor \<Rightarrow> canvas_editor" where
  "selectionFrame e =
     (case ed_box e of
        None \<Rightarrow> e
      | Some b \<Rightarrow>
          if \<not> bx_frame b then e
          else let waiting = e\<lparr>ed_box := Some (b\<lparr>bx_frame := False\<rparr>)\<rparr>
          in case bx_pending b of
             None \<Rightarrow> waiting
           | Some world \<Rightarrow>
               if \<not> bx_activated b \<and> \<not> box_moved (ed_scale e) b world then waiting
               else let s = ed_canvas e;
                        cleared = (if \<not> bx_activated b \<and> \<not> bx_additive b then s\<lparr>cs_selected := []\<rparr> else s)
                    in e\<lparr>ed_box := Some (b\<lparr>bx_frame := False, bx_activated := True\<rparr>),
                         ed_canvas := (if set (next_selected b world) = set (cs_selected cleared) then cleared
                           else cleared\<lparr>cs_selected := next_selected b world\<rparr>)\<rparr>)"

definition finishSelection :: "canvas_editor \<Rightarrow> canvas_editor" where
  "finishSelection e =
     (let pending = (case ed_box e of None \<Rightarrow> False | Some b \<Rightarrow> \<not> bx_activated b); e1 = cancelSelectionBox e
      in if pending then deselectCanvas e1 else e1)"

definition handleMouseUp :: "position \<Rightarrow> canvas_editor \<Rightarrow> canvas_editor \<times> canvas_node option" where
  "handleMouseUp client e = (let (e1, clicked) = finishNodeDrag (Some client) e in (finishSelection e1, clicked))"

subsection \<open>The editor keeps the canvas well formed\<close>

datatype editor_event =
  Edit canvas_event
| PressCanvas nat bool bool position
| PressNode nat bool bool position string
| MoveMouse position
| MovePointer nat position
| BoxFrame
| ReleaseMouse position
| ReleasePointer position
| CancelDrag
| CancelBox
| Deselect

fun editor_step :: "canvas_editor \<Rightarrow> editor_event \<Rightarrow> canvas_editor" where
  "editor_step e (Edit ev) = e\<lparr>ed_canvas := canvas_step (ed_canvas e) ev\<rparr>"
| "editor_step e (PressCanvas button alt multi world) = handleCanvasMouseDown button alt multi world e"
| "editor_step e (PressNode button alt multi client nodeId) = fst (handleNodeMouseDown button alt multi client nodeId e)"
| "editor_step e (MoveMouse client) = handleMouseMove client e"
| "editor_step e (MovePointer buttons world) = handlePointerMove buttons world e"
| "editor_step e BoxFrame = selectionFrame e"
| "editor_step e (ReleaseMouse client) = fst (handleMouseUp client e)"
| "editor_step e (ReleasePointer client) = fst (finishNodeDrag (Some client) e)"
| "editor_step e CancelDrag = fst (finishNodeDrag None e)"
| "editor_step e CancelBox = cancelSelectionBox e"
| "editor_step e Deselect = deselectCanvas e"

text \<open>A press is on a node that is shown, and no operation is carried out while the pointer draws a box.\<close>

fun editor_allowed :: "canvas_editor \<Rightarrow> editor_event \<Rightarrow> bool" where
  "editor_allowed e (Edit ev) = (names_are_new (ed_canvas e) ev \<and> ed_box e = None)"
| "editor_allowed e (PressNode _ _ _ _ nodeId) = (nodeId \<in> set (ids_of (cs_nodes (ed_canvas e))))"
| "editor_allowed e _ = True"

definition box_ok :: "string set \<Rightarrow> selection_box \<Rightarrow> bool" where
  "box_ok ids b \<longleftrightarrow> set (bx_initial b) \<subseteq> ids \<and> bc_id ` set (bx_candidates b) \<subseteq> ids"

definition editor_ok :: "canvas_editor \<Rightarrow> bool" where
  "editor_ok e \<longleftrightarrow> canvas_ok (ed_canvas e) \<and> (ed_drag e \<noteq> None \<longrightarrow> ed_historyPaused e) \<and>
     pred_option (box_ok (set (ids_of (cs_nodes (ed_canvas e))))) (ed_box e)"

lemma canvas_ok_select: "canvas_ok s \<Longrightarrow> set ids \<subseteq> set (ids_of (cs_nodes s)) \<Longrightarrow> canvas_ok (selectNodes ids s)"
  by (auto simp: canvas_ok_def selectNodes_def)

lemma canvas_ok_selected: "canvas_ok s \<Longrightarrow> set ids \<subseteq> set (ids_of (cs_nodes s)) \<Longrightarrow> canvas_ok (s\<lparr>cs_selected := ids\<rparr>)"
  by (simp add: canvas_ok_def)

lemma canvas_ok_no_connection: "canvas_ok s \<Longrightarrow> canvas_ok (s\<lparr>cs_selectedConnection := None\<rparr>)"
  by (simp add: canvas_ok_def)

lemma press_selection_ids: "set (press_selection alt multi nodeId selected) \<subseteq> insert nodeId (set selected)"
  by (auto simp: press_selection_def)

lemma box_fold: "set (foldl (\<lambda>selected c. if \<not> P c then selected
      else if sub then removeAll (bc_id c) selected else js_add selected (bc_id c)) selected cs) =
    (if sub then set selected - bc_id ` {c \<in> set cs. P c} else set selected \<union> bc_id ` {c \<in> set cs. P c})"
  by (induction cs arbitrary: selected) (auto simp: js_add_def)

lemma applyFrameDrop_ok:
  assumes ok: "canvas_ok s" and target: "\<And>i. frameId = Some i \<Longrightarrow> (i, FrameNode) \<in> shape ` set (cs_nodes s)"
  shows "canvas_ok (commitNodes (applyFrameDrop (cs_nodes s) dragged frameId) s)"
proof -
  define g where "g = (\<lambda>node. if cn_id node \<in> set dragged \<and> canFrameContain node
    then node\<lparr>cn_parentId := or_text frameId None\<rparr> else node)"
  let ?s = "commitNodes (map g (cs_nodes s)) s"
  have s: "canvas_ok ?s"
    by (rule canvas_ok_map [OF ok]) (use target in \<open>auto simp: g_def placed_def shape_def has_text_def or_text_def\<close>)
  have u: "shape (node\<lparr>cn_position := p, cn_width := w, cn_height := h, cn_metadata := m\<rparr>) = shape node"
    "cn_parentId (node\<lparr>cn_position := p, cn_width := w, cn_height := h, cn_metadata := m\<rparr>) = cn_parentId node" for node p w h m
    by (simp_all add: shape_def)
  have "map f (applyFrameDrop (cs_nodes s) dragged frameId) = map f (map g (cs_nodes s))"
    if "\<And>node p w h m. f (node\<lparr>cn_position := p, cn_width := w, cn_height := h, cn_metadata := m\<rparr>) = f node" for f :: "canvas_node \<Rightarrow> 'b"
    unfolding applyFrameDrop_def g_def [symmetric] Let_def
    by (simp only: map_map comp_def that if_distrib [of "map f"] if_distrib [of f] if_cancel split: option.split) simp
  note kept = this [of shape, OF u(1)] this [of cn_parentId, OF u(2)]
  show ?thesis
    using s graph_ok_same [OF kept] by (simp add: canvas_ok_def commitNodes_def)
qed

lemma find_in: "find P xs = Some x \<Longrightarrow> x \<in> set xs \<and> P x"
  by (induction xs) (auto split: if_splits)

lemma drop_target:
  assumes "findFrameDropTarget nodes dragged = Some i"
  shows "\<exists>frame \<in> set nodes. cn_id frame = i \<and> isFrameNode frame \<and> i \<noteq> [] \<and> \<not> frame_collapsed frame \<and> i \<notin> set dragged \<and>
    (\<forall>node \<in> set nodes. cn_id node \<in> set dragged \<and> canFrameContain node \<longrightarrow> center_inside frame node)"
proof -
  define moving where "moving = filter (\<lambda>node. cn_id node \<in> set dragged \<and> canFrameContain node) nodes"
  obtain frame where f: "find (\<lambda>frame. isFrameNode frame \<and> \<not> frame_collapsed frame \<and> cn_id frame \<notin> set dragged \<and>
      list_all (center_inside frame) moving) (rev nodes) = Some frame" "cn_id frame = i" "i \<noteq> []"
    using assms by (auto simp: findFrameDropTarget_def Let_def moving_def [symmetric] split: if_splits option.splits)
  have "frame \<in> set nodes" "isFrameNode frame" "\<not> frame_collapsed frame" "cn_id frame \<notin> set dragged"
      "list_all (center_inside frame) moving"
    using find_in [OF f(1)] by simp_all
  then show ?thesis using f(2,3) unfolding moving_def list_all_iff by (intro bexI [of _ frame]) simp_all
qed

lemma drag_positions_kept:
  obtains g where "drag_positions d scale client nodes = map g nodes"
    "\<And>node. shape (g node) = shape node" "\<And>node. cn_parentId (g node) = cn_parentId node"
proof (cases client)
  case None
  then have "drag_positions d scale client nodes = map id nodes" by (simp add: drag_positions_def)
  then show thesis using that [of id] by simp
next
  case (Some c)
  show thesis
    by (rule that [OF drag_positions_def [of _ _ "Some c", unfolded option.case Let_def, folded Some]])
      (auto simp: shape_def split: option.split)
qed

lemma drag_ok:
  assumes "canvas_ok s"
  shows "canvas_ok (commitNodes (applyFrameDrop (drag_positions d scale client (cs_nodes s)) dragged
    (findFrameDropTarget (drag_positions d scale client (cs_nodes s)) dragged)) s)"
proof -
  obtain g where g: "drag_positions d scale client (cs_nodes s) = map g (cs_nodes s)"
      "shape (g node) = shape node" "cn_parentId (g node) = cn_parentId node" for node
    using drag_positions_kept by metis
  let ?s = "commitNodes (map g (cs_nodes s)) s"
  have ok: "canvas_ok ?s" by (intro canvas_ok_map [OF assms] placed_kept g)
  have "(i, FrameNode) \<in> shape ` set (cs_nodes ?s)" if "findFrameDropTarget (cs_nodes ?s) dragged = Some i" for i
    using drop_target [OF that] by (metis isFrameNode_def shape_def imageI)
  from applyFrameDrop_ok [OF ok this] show ?thesis by (simp add: g(1))
qed

lemma editor_ok_canvas:
  "editor_ok e \<Longrightarrow> canvas_ok s \<Longrightarrow> ids_of (cs_nodes s) = ids_of (cs_nodes (ed_canvas e)) \<Longrightarrow> editor_ok (e\<lparr>ed_canvas := s\<rparr>)"
  by (simp add: editor_ok_def)

lemma cancelSelectionBox_ok [simp]: "editor_ok e \<Longrightarrow> editor_ok (cancelSelectionBox e)"
  by (simp add: editor_ok_def cancelSelectionBox_def)

lemma deselectCanvas_ok: "editor_ok e \<Longrightarrow> editor_ok (deselectCanvas e)"
  by (simp add: editor_ok_def deselectCanvas_def cancelSelectionBox_def canvas_ok_select)

lemma handleCanvasMouseDown_ok: "editor_ok e \<Longrightarrow> editor_ok (handleCanvasMouseDown button alt multi world e)"
  using canvas_okD(3) [of "ed_canvas e"]
  by (auto simp: editor_ok_def handleCanvasMouseDown_def Let_def box_ok_def ids_of_def box_candidate_of_def canvas_ok_no_connection)

lemma handleNodeMouseDown_ok:
  assumes "editor_ok e" "nodeId \<in> set (ids_of (cs_nodes (ed_canvas e)))"
  shows "editor_ok (fst (handleNodeMouseDown button alt multi client nodeId e))"
proof -
  let ?s = "press_selection alt (\<not> alt \<and> multi) nodeId (cs_selected (ed_canvas e))"
  have c: "canvas_ok (ed_canvas e)" using assms(1) by (simp add: editor_ok_def)
  have "set ?s \<subseteq> set (ids_of (cs_nodes (ed_canvas e)))"
    using press_selection_ids [of alt "\<not> alt \<and> multi" nodeId "cs_selected (ed_canvas e)"] canvas_okD(3) [OF c] assms(2) by blast
  then have ok: "editor_ok (e\<lparr>ed_canvas := selectNodes ?s (ed_canvas e)\<rparr>)"
    by (intro editor_ok_canvas [OF assms(1)] canvas_ok_select [OF c]) simp_all
  then show ?thesis
    using assms(1) unfolding handleNodeMouseDown_def Let_def by (cases alt; cases multi) (simp_all add: editor_ok_def)
qed

lemma handleMouseMove_ok: "editor_ok e \<Longrightarrow> editor_ok (handleMouseMove client e)"
  by (auto simp: editor_ok_def handleMouseMove_def split: option.split)

lemma handlePointerMove_ok: "editor_ok e \<Longrightarrow> editor_ok (handlePointerMove buttons world e)"
  by (cases "ed_box e") (simp_all add: editor_ok_def handlePointerMove_def cancelSelectionBox_def box_ok_def)

lemma finishNodeDrag_ok: "editor_ok e \<Longrightarrow> editor_ok (fst (finishNodeDrag client e))"
proof (cases "ed_drag e")
  case (Some d)
  assume ok: "editor_ok e"
  let ?s = "ed_canvas e"
  let ?p = "drag_positions d (ed_scale e) client (cs_nodes ?s)"
  let ?nodes = "if dg_hasMoved d then applyFrameDrop ?p (dg_draggedNodeIds d) (findFrameDropTarget ?p (dg_draggedNodeIds d))
    else cs_nodes ?s"
  have c: "canvas_ok ?s" using ok by (simp add: editor_ok_def)
  have "ids_of (applyFrameDrop nodes dragged frameId) = ids_of nodes" for nodes dragged frameId
    by (simp add: ids_of_def applyFrameDrop_def Let_def comp_def split: option.split)
  moreover have "ids_of ?p = ids_of (cs_nodes ?s)"
  proof -
    obtain g where "?p = map g (cs_nodes ?s)" "shape (g node) = shape node" for node using drag_positions_kept by metis
    then show ?thesis by (simp add: ids_of_def shape_def)
  qed
  moreover have "canvas_ok (commitNodes ?nodes ?s)" using drag_ok [OF c] c by (simp add: commitNodes_def)
  ultimately show ?thesis
    using ok by (simp add: editor_ok_def finishNodeDrag_def Some Let_def)
qed (simp add: finishNodeDrag_def)

definition box_selection :: "selection_box \<Rightarrow> position \<Rightarrow> string set" where
  "box_selection b world =
     (let hit = bc_id ` {c \<in> set (bx_candidates b). touches b world c}
      in if bx_subtractive b then set (bx_initial b) - hit
         else if bx_additive b then set (bx_initial b) \<union> hit else hit)"

lemma set_next_selected: "set (next_selected b world) = box_selection b world"
  unfolding next_selected_def box_fold box_selection_def Let_def by auto

lemma selectionFrame_moved:
  assumes "ed_box e = Some b" "bx_frame b" "bx_pending b = Some world" "bx_activated b \<or> box_moved (ed_scale e) b world"
  shows "\<exists>ids. selectionFrame e = e\<lparr>ed_box := Some (b\<lparr>bx_frame := False, bx_activated := True\<rparr>),
      ed_canvas := (ed_canvas e)\<lparr>cs_selected := ids\<rparr>\<rparr> \<and> set ids = box_selection b world"
proof -
  have "\<exists>ids. (if A = set (cs_selected s') then s' else s'\<lparr>cs_selected := next_selected b world\<rparr>) = s\<lparr>cs_selected := ids\<rparr> \<and>
      set ids = box_selection b world"
    if "A = set (next_selected b world)" "s' = s\<lparr>cs_selected := ids'\<rparr>" for s s' :: canvas_state and A ids'
    using that set_next_selected [of b world]
    by (cases "A = set ids'") (rule exI [of _ ids'], simp, rule exI [of _ "next_selected b world"], simp)
  note pick = this [OF refl]
  define s where "s = ed_canvas e"
  have "\<exists>ids'. (if \<not> bx_activated b \<and> \<not> bx_additive b then s\<lparr>cs_selected := []\<rparr> else s) = s\<lparr>cs_selected := ids'\<rparr>"
    by (rule exI [of _ "if \<not> bx_activated b \<and> \<not> bx_additive b then [] else cs_selected s"]) auto
  then obtain ids' where "(if \<not> bx_activated b \<and> \<not> bx_additive b then s\<lparr>cs_selected := []\<rparr> else s) = s\<lparr>cs_selected := ids'\<rparr>"
    by blast
  from pick [OF this] obtain ids where ids: "set ids = box_selection b world"
      "(let cleared = (if \<not> bx_activated b \<and> \<not> bx_additive b then s\<lparr>cs_selected := []\<rparr> else s)
        in if set (next_selected b world) = set (cs_selected cleared) then cleared
          else cleared\<lparr>cs_selected := next_selected b world\<rparr>) = s\<lparr>cs_selected := ids\<rparr>"
    unfolding Let_def by blast
  have "\<not> (\<not> bx_activated b \<and> \<not> box_moved (ed_scale e) b world)" using assms(4) by blast
  then have "selectionFrame e = e\<lparr>ed_box := Some (b\<lparr>bx_frame := False, bx_activated := True\<rparr>),
      ed_canvas := s\<lparr>cs_selected := ids\<rparr>\<rparr>"
    unfolding ids(2) [symmetric] by (simp only: selectionFrame_def assms(1-3) option.case Let_def s_def if_False not_not if_True not_True_eq_False)
  then show ?thesis using ids(1) unfolding s_def by blast
qed

lemma selectionFrame_ok:
  assumes ok: "editor_ok e"
  shows "editor_ok (selectionFrame e)"
proof (cases "ed_box e")
  case (Some b)
  have c: "canvas_ok (ed_canvas e)" and b: "box_ok (set (ids_of (cs_nodes (ed_canvas e)))) b"
    using ok Some by (simp_all add: editor_ok_def)
  show ?thesis
  proof (cases "\<exists>world. bx_frame b \<and> bx_pending b = Some world \<and> (bx_activated b \<or> box_moved (ed_scale e) b world)")
    case True
    then obtain world ids where i: "set ids = box_selection b world"
        "selectionFrame e = e\<lparr>ed_box := Some (b\<lparr>bx_frame := False, bx_activated := True\<rparr>), ed_canvas := (ed_canvas e)\<lparr>cs_selected := ids\<rparr>\<rparr>"
      using selectionFrame_moved [OF Some] by blast
    have "set ids \<subseteq> set (ids_of (cs_nodes (ed_canvas e)))"
      using b unfolding i by (auto simp: box_selection_def box_ok_def Let_def split: if_splits)
    then show ?thesis using ok b canvas_ok_selected [OF c] by (simp add: i(2) editor_ok_def box_ok_def)
  next
    case False
    then have "selectionFrame e = e \<or> selectionFrame e = e\<lparr>ed_box := Some (b\<lparr>bx_frame := False\<rparr>)\<rparr>"
      by (cases "bx_pending b") (auto simp: selectionFrame_def Some Let_def)
    then show ?thesis using ok b Some by (auto simp: editor_ok_def box_ok_def)
  qed
qed (simp add: selectionFrame_def ok)

lemma finishSelection_ok: "editor_ok e \<Longrightarrow> editor_ok (finishSelection e)"
  by (simp add: finishSelection_def Let_def deselectCanvas_ok)

lemma edit_ok: "editor_ok e \<Longrightarrow> names_are_new (ed_canvas e) ev \<Longrightarrow> ed_box e = None \<Longrightarrow>
    editor_ok (e\<lparr>ed_canvas := canvas_step (ed_canvas e) ev\<rparr>)"
  using canvas.world_step [of "ed_canvas e" ev] by (simp add: editor_ok_def)

lemma editor_step_ok:
  assumes "editor_ok e" "editor_allowed e ev"
  shows "editor_ok (editor_step e ev)"
proof (cases ev)
  case (Edit ce)
  then show ?thesis using assms by (simp add: edit_ok)
next
  case (ReleaseMouse client)
  then show ?thesis using finishSelection_ok [OF finishNodeDrag_ok [OF assms(1), of "Some client"]]
    by (simp add: handleMouseUp_def Let_def case_prod_unfold)
qed (use assms in \<open>simp_all add: handleCanvasMouseDown_ok handleNodeMouseDown_ok handleMouseMove_ok handlePointerMove_ok
    selectionFrame_ok finishNodeDrag_ok deselectCanvas_ok\<close>)

interpretation editor: world_machine editor_step editor_ok editor_allowed
  by unfold_locales (rule editor_step_ok)

text \<open>A small canvas, for the witnesses: a frame, a picture left of it and a note.\<close>

definition sample_item :: "string \<Rightarrow> node_type \<Rightarrow> rat \<Rightarrow> rat \<Rightarrow> rat \<Rightarrow> canvas_node" where
  "sample_item ident t x w h = \<lparr>cn_id = ident, cn_type = t, cn_title = [], cn_position = \<lparr>px = x, py = 0\<rparr>,
     cn_width = w, cn_height = h, cn_parentId = None, cn_metadata = None\<rparr>"

definition sample_editor :: canvas_editor where
  "sample_editor = \<lparr>ed_canvas = \<lparr>cs_nodes = [sample_item ''f'' FrameNode 0 200 200, sample_item ''p'' ImageNode (- 300) 20 20,
       sample_item ''n'' TextNode 400 20 20], cs_connections = [], cs_selected = [], cs_selectedConnection = None,
       cs_dialog = None, cs_clipboard = None\<rparr>,
     ed_readOnly = False, ed_scale = 1, ed_historyPaused = False, ed_drag = None, ed_box = None\<rparr>"



subsection \<open>Where a drag ends\<close>

definition dropped_well :: "canvas_node list \<Rightarrow> string option \<Rightarrow> canvas_node \<Rightarrow> bool" where
  "dropped_well nodes target node \<longleftrightarrow>
     (case (node_of nodes (cn_id node), target) of
        (Some n, None) \<Rightarrow> cn_parentId n = None
      | (Some n, Some f) \<Rightarrow> cn_parentId n = Some f \<and>
          (case node_of nodes f of None \<Rightarrow> False | Some frame \<Rightarrow> isFrameNode frame \<and> holds frame n)
      | _ \<Rightarrow> False)"



end
