(* ===== verification/Spec2Isabelle.thy ===== *)
theory Spec2Isabelle
  imports Prelude EventHub Contracts CanvasSession CodexEvents ThreadStore PathGuard ThreadService
    TurnStream AgentConfig Attachments RequestLedger AgentServer LocalBridge Capabilities WireEvents LocalClient Clarification RuntimeState
    RuntimeView AgentTimeline RuntimeClient CanvasDocument CanvasCollaboration CanvasHistory
    MembershipOrder Checkout CheckoutPage McpTools TaskQuotes CanvasNodes CanvasLayout CanvasHitIndex CanvasOperations
    CanvasConnecting CanvasSelection
begin

text \<open>
  The program is a canvas for generated media with an agent that edits it. Its TypeScript has two
  halves. \<^verbatim>\<open>canvas-agent/\<close> is a process on the user's machine: it runs Codex turns on threads, offers
  Codex tools that reach the canvas, and streams what happens to the page. \<^verbatim>\<open>web/\<close> is the page: it
  shows and edits a canvas together with other users, subscribes to the agent, carries out its tool calls
  with the backend, and reads everything it receives strictly. The backend, in Go, is outside the
  development; what the page relies on of it is a hypothesis where a property needs it.

  \<^bold>\<open>How the code is written down.\<close> A function is a function, a record or an object type a record, a
  union a datatype. What may throw answers a sum, \<open>throws e\<close> or \<open>returns x\<close>, and every \<^verbatim>\<open>throw\<close> and
  early return of the code is a branch. A class, or a hook of React, is a record of its fields and a
  step function on it; an \<^verbatim>\<open>async\<close> operation is one definition for each stretch between two waits,
  since only there other operations can come in between, and the answers awaited are arguments. Timers,
  messages and closings of connections are events of a run. Maps keep their insertion order
  (\<open>js_map\<close>). JSON values are the datatype \<open>json\<close>; numbers are rationals, and integers are checked
  for safety where the code checks them. Code that is not in the repository is a parameter: the Codex
  SDK, the URL parser, SHA-256, \<^verbatim>\<open>Date.parse\<close>, \<^verbatim>\<open>JSON.parse\<close>, the file system's errors, the clock and
  fresh identifiers.

  \<^bold>\<open>The local agent\<close> (\<^verbatim>\<open>canvas-agent/src\<close>).

  \<^item> \<open>Contracts\<close> (\<^verbatim>\<open>contracts.ts\<close>): the schemas of messages as predicates, the final decision.
  \<^item> \<open>EventHub\<close> (\<^verbatim>\<open>event-hub.ts\<close>): the one connection to the page, back pressure, listeners of its close.
  \<^item> \<open>CanvasSession\<close> (\<^verbatim>\<open>canvas-session.ts\<close>): tool requests in flight; each is settled once, with its own
    result; the memory for replays is bounded and the loop that bounds it ends.
  \<^item> \<open>CodexEvents\<close>, \<open>ThreadStore\<close> (\<^verbatim>\<open>codex-thread-store.ts\<close>): records of threads and turns, the store in
    memory and the one in a file. Both are interpretations of the locale \<open>thread_store\<close>, whose laws
    make them indistinguishable; the writes of the file store are its system calls.
  \<^item> \<open>PathGuard\<close>, \<open>ThreadService\<close>, \<open>TurnStream\<close> (\<^verbatim>\<open>codex-thread.ts\<close>): the operations of the service, the
    start of a turn in its stretches, and the generator that passes on a turn's events, with the loop,
    the normalisation and the final block of the code. A turn ends with exactly one terminal event.
  \<^item> \<open>AgentConfig\<close> (\<^verbatim>\<open>config.ts\<close>): the configuration, token and origin checks, private addresses on words.
  \<^item> \<open>Attachments\<close> (\<^verbatim>\<open>attachment-manager.ts\<close>): downloads within four hops (the fuel of \<open>download_loop\<close>,
    the bound the code itself has) and size limits, and the disk as a map from paths.
  \<^item> \<open>RequestLedger\<close>, \<open>AgentServer\<close> (\<^verbatim>\<open>http-server.ts\<close>): the idempotent start of turns, the gates of the
    routes, executions and their attachments, the connection of the page. The locales
    \<open>attachment_store\<close> and \<open>temporary_directories\<close> say what the server needs of the attachments.
  \<^item> \<open>McpTools\<close> (\<^verbatim>\<open>mcp-tool-schemas.ts\<close>, \<^verbatim>\<open>mcp-server.ts\<close>, \<^verbatim>\<open>loopback-tool-session.ts\<close>): the schemas of
    the tools as values, the handler of a call, the proxy that brings it to the agent. The locale
    \<open>schema_checker\<close> is what zod promises; the arguments it lets through are compared with what
    the page accepts (\<open>Capabilities\<close>).

  \<^bold>\<open>The page and the agent\<close> (\<^verbatim>\<open>web/src/services\<close>).

  \<^item> \<open>Capabilities\<close> (\<^verbatim>\<open>api/strict-contract.ts\<close>, \<^verbatim>\<open>api/agent-capabilities.ts\<close>): the arguments of tools. The
    locale \<open>codec\<close> is the contract of a reader: it accepts only valid values and reads back every valid
    value it is given in the form the code builds. Every reader of the theory is an interpretation.
  \<^item> \<open>WireEvents\<close> (\<^verbatim>\<open>local-agent/local-agent-contracts.ts\<close>): what the page reads of the agent's events and
    lists; it is compared with what \<open>AgentServer\<close> and \<open>CodexEvents\<close> write.
  \<^item> \<open>LocalClient\<close> (\<^verbatim>\<open>local-agent/local-agent-client.ts\<close>, \<^verbatim>\<open>local-agent-session.ts\<close>): the event stream for
    every way the network cuts it, the stored connection, answers and errors.
  \<^item> \<open>LocalBridge\<close> (\<^verbatim>\<open>local-agent/local-agent-bridge.ts\<close>): the audit run that follows a local turn; results
    are delivered once, a disposed bridge stays closed, a run is let go only when it ended.
  \<^item> \<open>Clarification\<close> (\<^verbatim>\<open>api/agent-clarification.ts\<close>): questions asked back and their answers; the locale
    \<open>delivery_reader\<close> is the parser the module is given.
  \<^item> \<open>RuntimeState\<close>, \<open>RuntimeView\<close>, \<open>AgentTimeline\<close>, \<open>RuntimeClient\<close> (\<^verbatim>\<open>api/agent-runtime.ts\<close>): the checkpoint
    and the view of a run with all checks between their parts, the items and events of its timeline,
    a subscription, the history, the envelope of answers, the recovery handle. \<open>bridge_view\<close> is what
    the bridge reads of an accepted view. The locale \<open>faithful_codec\<close> extends \<open>codec\<close> by what makes
    an invalid value unreadable again.

  \<^bold>\<open>The canvas\<close> (\<^verbatim>\<open>web/src/lib/canvas\<close>, \<^verbatim>\<open>web/src/pages/canvas\<close>).

  \<^item> \<open>CanvasDocument\<close> (\<^verbatim>\<open>canvas-collaboration-document.ts\<close>): difference and patch of documents. \<open>content\<close>
    abstracts a document to a value per slot; on contents the patch of a difference is the three-way
    merge \<open>merged\<close>.
  \<^item> \<open>CanvasCollaboration\<close> (\<^verbatim>\<open>use-canvas-collaboration.ts\<close>, \<^verbatim>\<open>canvas-collaboration-preflight.ts\<close>): an editor
    with its timers, effects, socket and resyncs, against a server that keeps a document per revision
    (\<open>server_ok\<close>, \<open>served\<close>). The rounds of \<open>flush_loop\<close> are those the ten seconds of the code allow; a
    property about it holds for every number of them.
  \<^item> \<open>CanvasHistory\<close> (\<^verbatim>\<open>use-canvas-history.ts\<close>): undo and redo by patches; the stacks replay the history.
  \<^item> \<open>CanvasNodes\<close> (\<^verbatim>\<open>types/canvas.ts\<close>, \<^verbatim>\<open>canvas-project-domain.ts\<close>, \<^verbatim>\<open>canvas-frame.ts\<close>): nodes with the metadata the
    modelled functions read, connections and which are allowed, frames, rows of storyboards, removal, alignment.
  \<^item> \<open>CanvasLayout\<close> (\<^verbatim>\<open>canvas-layout.ts\<close>): arrangements. The loop along the connections, \<open>flow_loop\<close>, is a partial
    function with the answer \<open>None\<close> when it does not end; it ends when identifiers are distinct, by an invariant
    that counts the connections still to be followed.
  \<^item> \<open>CanvasHitIndex\<close> (\<^verbatim>\<open>canvas-connection-hit-index.ts\<close>): the buckets, against a scan of all nodes.
  \<^item> \<open>CanvasOperations\<close> (\<^verbatim>\<open>use-canvas-node-operations.ts\<close>, part of \<^verbatim>\<open>use-canvas-connection-controller.ts\<close>): what a
    user does to nodes and connections, as functions on \<open>canvas_state\<close>. \<open>canvas_ok\<close> is the invariant: a graph whose
    connections are allowed, frames and their content, the clipboard, the selection. Each operation keeps it.
  \<^item> \<open>CanvasConnecting\<close> (the rest of that controller) and \<open>CanvasSelection\<close>
    (\<^verbatim>\<open>use-canvas-selection-controller.ts\<close>): the connection that is drawn, presses, drags, the selection box.
    All three machines are interpretations of the locale \<open>world_machine\<close>, whose events are restricted by what the
    world guarantees, such as that a new identifier is new.

  \<^bold>\<open>Prices and the checkout\<close> (\<^verbatim>\<open>web/src/lib/billing\<close>, \<^verbatim>\<open>web/src/pages/payment\<close>).

  \<^item> \<open>TaskQuotes\<close> (\<^verbatim>\<open>task-billing-quote.ts\<close>, \<^verbatim>\<open>canvas-generation-batch-billing.ts\<close>): requests for quotes, the submission
    of a task under a confirmed quote, the quote of a batch in requests of at most fifteen tasks.
  \<^item> \<open>MembershipOrder\<close> (\<^verbatim>\<open>membership-order-validation.ts\<close>, the readers of plans and orders): money and credits of
    an order. Products are those of doubles, rounded where a double cannot hold them; below the largest safe
    integer the checks decide the exact equations.
  \<^item> \<open>Checkout\<close> (\<^verbatim>\<open>payment-checkout-domain.ts\<close>, \<^verbatim>\<open>membership-order-facts-domain.ts\<close>): what is known of a checkout,
    the merge of answers, leases of loads and submissions, polling. The statuses are ordered by how far
    they are (instances of \<open>linorder\<close>).
  \<^item> \<open>CheckoutPage\<close> (\<^verbatim>\<open>payment-checkout-experience.tsx\<close>): the hook of the page with loads, polls, submissions and
    a change of the token in any order. The locale \<open>forward_machine\<close> lifts a preorder that every
    step respects to runs; the page is its interpretation.

  \<^bold>\<open>What the lemmas show.\<close> Each component has its invariant, kept by every step and lifted to runs by
  the locales \<open>machine\<close>, \<open>guarded_machine\<close> (with events the environment may cause),
  \<open>monotone_machine\<close> and \<open>world_machine\<close> of \<open>Prelude\<close>. On it rest the properties: what is accepted is consistent and what is
  consistent is accepted; what one side writes the other reads; nothing is delivered, started or
  recorded twice; what was edited is kept and saved. Some properties state where the code does not do
  what it means to: overlapping starts of a turn, failures too long to record, edits during a resync,
  a resync that fails, an undo before the last change was recorded.

  \<^bold>\<open>Not modelled.\<close> The consumer of a turn's events who stops early; heartbeats, logging, Express and the
  headers of answers; the descriptions of the tools and the MCP protocol; the command line; request paths and
  bodies the page sends; messages shown to the user, menus, and what is only drawn while the pointer moves; the
  other domain modules,
  pages and components of \<^verbatim>\<open>web/\<close>; the Go backend; vendored code.
\<close>

end
